(* ===== verification/Prelude.thy ===== *)
theory Prelude
  imports Complex_Main "HOL-Library.Multiset"
begin

text \<open>
  Generic material shared by every component theory: Go's \<open>int64\<close> arithmetic as
  integers with the wrap-around written out, the parts of package \<open>strings\<close> the
  coordinator uses, association of map iteration with an explicit order, and
  \<open>sort.Slice\<close> as an insertion sort together with the locale of strict weak orders
  under which its result is sorted.

  Strings are byte lists. The case functions change ASCII letters only; Go's Unicode
  tables are not modelled, so the facts below speak about ASCII data (tier names, hardware
  classes, log levels, pairing codes).
\<close>

named_theorems go_defs "definitions of the Go-level helpers, for evaluation"
named_theorems inv_intros "preservation of component invariants"

subsection \<open>int64\<close>

definition wrap64 :: "int \<Rightarrow> int" where
  "wrap64 x = (x + 2 ^ 63) mod 2 ^ 64 - 2 ^ 63"

definition int64_min :: int where "int64_min = - (2 ^ 63)"
definition int64_max :: int where "int64_max = 2 ^ 63 - 1"

definition is_int64 :: "int \<Rightarrow> bool" where
  "is_int64 x \<longleftrightarrow> - (2 ^ 63) \<le> x \<and> x < 2 ^ 63"

lemma wrap64_id [simp]: "is_int64 x \<Longrightarrow> wrap64 x = x"
  by (simp add: wrap64_def is_int64_def)

lemma is_int64_wrap64 [simp]: "is_int64 (wrap64 x)"
  using pos_mod_bound [of "2 ^ 64" "x + 2 ^ 63"] pos_mod_sign [of "2 ^ 64" "x + 2 ^ 63"]
  by (auto simp: wrap64_def is_int64_def)

lemma wrap64_cong: "x mod 2 ^ 64 = y mod 2 ^ 64 \<Longrightarrow> wrap64 x = wrap64 y"
  unfolding wrap64_def by (metis mod_add_left_eq)

lemma wrap64_mod: "wrap64 x mod 2 ^ 64 = x mod 2 ^ 64"
  unfolding wrap64_def by (simp add: mod_diff_left_eq)

lemma wrap64_add_left [simp]: "wrap64 (wrap64 x + y) = wrap64 (x + y)"
  by (rule wrap64_cong) (metis wrap64_mod mod_add_left_eq)

lemma wrap64_add_right [simp]: "wrap64 (x + wrap64 y) = wrap64 (x + y)"
  by (rule wrap64_cong) (metis wrap64_mod mod_add_right_eq)

lemma wrap64_idem [simp]: "wrap64 (wrap64 x) = wrap64 x"
  by simp

lemma wrap64_zero [simp]: "wrap64 0 = 0"
  by (simp add: wrap64_def)

text \<open>Go's integer division truncates towards zero (divisor positive here).\<close>

definition go_div :: "int \<Rightarrow> int \<Rightarrow> int" where
  "go_div a b = (if 0 \<le> a then a div b else - ((- a) div b))"

lemma go_div_nonneg [simp]: "0 \<le> a \<Longrightarrow> go_div a b = a div b"
  by (simp add: go_div_def)

subsection \<open>Strings\<close>

definition to_upper_char :: "char \<Rightarrow> char" where
  "to_upper_char c = (let n = of_char c :: nat in if 97 \<le> n \<and> n \<le> 122 then char_of (n - 32) else c)"

definition to_lower_char :: "char \<Rightarrow> char" where
  "to_lower_char c = (let n = of_char c :: nat in if 65 \<le> n \<and> n \<le> 90 then char_of (n + 32) else c)"

definition to_upper :: "string \<Rightarrow> string" where "to_upper = map to_upper_char"
definition to_lower :: "string \<Rightarrow> string" where "to_lower = map to_lower_char"

definition is_space :: "char \<Rightarrow> bool" where
  "is_space c = (let n = of_char c :: nat in n = 32 \<or> (9 \<le> n \<and> n \<le> 13))"

definition trim_space :: "string \<Rightarrow> string" where
  "trim_space s = rev (dropWhile is_space (rev (dropWhile is_space s)))"

definition equal_fold :: "string \<Rightarrow> string \<Rightarrow> bool" where
  "equal_fold a b \<longleftrightarrow> to_lower a = to_lower b"

lemma equal_fold_refl [simp]: "equal_fold a a"
  by (simp add: equal_fold_def)

lemma equal_fold_sym: "equal_fold a b \<longleftrightarrow> equal_fold b a"
  by (auto simp: equal_fold_def)

lemma equal_fold_trans: "equal_fold a b \<Longrightarrow> equal_fold b c \<Longrightarrow> equal_fold a c"
  by (simp add: equal_fold_def)

lemma to_lower_char_idem [simp]: "to_lower_char (to_lower_char c) = to_lower_char c"
  by (auto simp: to_lower_char_def Let_def of_char_of)

lemma to_lower_idem [simp]: "to_lower (to_lower s) = to_lower s"
  by (simp add: to_lower_def comp_def)

lemma length_to_upper [simp]: "length (to_upper s) = length s"
  by (simp add: to_upper_def)

lemma length_trim_space: "length (trim_space s) \<le> length s"
  by (metis length_dropWhile_le length_rev order_trans trim_space_def)

lemmas string_eval = to_upper_def to_lower_def to_upper_char_def to_lower_char_def
  trim_space_def is_space_def equal_fold_def Let_def

text \<open>Go's \<open><\<close> on strings: byte order.\<close>

fun str_less :: "string \<Rightarrow> string \<Rightarrow> bool" where
  "str_less _ [] = False"
| "str_less [] (_ # _) = True"
| "str_less (a # as) (b # bs) =
    ((of_char a :: nat) < of_char b \<or> (of_char a = (of_char b :: nat) \<and> str_less as bs))"

lemma str_less_asym: "str_less a b \<Longrightarrow> \<not> str_less b a"
  by (induction a b rule: str_less.induct) auto

lemma str_less_negtrans: "\<not> str_less b a \<Longrightarrow> \<not> str_less c b \<Longrightarrow> \<not> str_less c a"
proof (induction a b arbitrary: c rule: str_less.induct)
  case (1 a)
  then show ?case by (cases c; cases a) auto
next
  case (2 b bs)
  then show ?case by auto
next
  case (3 a as b bs)
  then show ?case by (cases c) (auto simp: not_less_iff_gr_or_eq)
qed

subsection \<open>Map iteration\<close>

text \<open>
  \<open>for k, v := range m\<close> visits the entries in an unspecified order. A definition that
  ranges over a map takes that order as an argument, a list of the map's keys; the laws
  hold for every order that lists the domain once (\<open>iter_order\<close>).
\<close>

definition iter_order :: "('k \<rightharpoonup> 'v) \<Rightarrow> 'k list \<Rightarrow> bool" where
  "iter_order m ks \<longleftrightarrow> distinct ks \<and> set ks = dom m"

definition range_vals :: "('k \<rightharpoonup> 'v) \<Rightarrow> 'k list \<Rightarrow> 'v list" where
  "range_vals m ks = map (\<lambda>k. the (m k)) ks"

lemma set_range_vals: "iter_order m ks \<Longrightarrow> set (range_vals m ks) = ran m"
  by (force simp: iter_order_def range_vals_def ran_def dom_def image_iff)

lemma length_range_vals [simp]: "length (range_vals m ks) = length ks"
  by (simp add: range_vals_def)

lemma iter_order_card: "iter_order m ks \<Longrightarrow> length ks = card (dom m)"
  by (metis distinct_card iter_order_def)

lemma iter_order_finite: "iter_order m ks \<Longrightarrow> finite (dom m)"
  by (metis List.finite_set iter_order_def)

lemma map_of_rev_distinct: "distinct (map fst b) \<Longrightarrow> map_of (rev b) = map_of b"
proof (induction b)
  case (Cons x b)
  then have "map_of b (fst x) = None" by (simp add: map_of_eq_None_iff)
  with Cons show ?case by (cases x) (auto simp: map_add_def fun_eq_iff split: option.splits)
qed simp

subsection \<open>sort.Slice\<close>

text \<open>
  \<open>sort.Slice\<close> sorts by a \<open>less\<close> function and is not stable. \<open>sort_by\<close> is a stable
  insertion sort. Every use below sorts a slice whose initial order is already arbitrary
  (a map iteration order, quantified over), so every result an unstable sort may give is
  the stable result for some initial order: the two have the same set of outcomes.
\<close>

fun insert_by :: "('a \<Rightarrow> 'a \<Rightarrow> bool) \<Rightarrow> 'a \<Rightarrow> 'a list \<Rightarrow> 'a list" where
  "insert_by lt x [] = [x]"
| "insert_by lt x (y # ys) = (if lt y x then y # insert_by lt x ys else x # y # ys)"

definition sort_by :: "('a \<Rightarrow> 'a \<Rightarrow> bool) \<Rightarrow> 'a list \<Rightarrow> 'a list" where
  "sort_by lt xs = foldr (insert_by lt) xs []"

lemma sort_by_Nil [simp]: "sort_by lt [] = []"
  by (simp add: sort_by_def)

lemma sort_by_Cons [simp]: "sort_by lt (x # xs) = insert_by lt x (sort_by lt xs)"
  by (simp add: sort_by_def)

lemma mset_insert_by [simp]: "mset (insert_by lt x ys) = add_mset x (mset ys)"
  by (induction ys) auto

lemma mset_sort_by [simp]: "mset (sort_by lt xs) = mset xs"
  by (induction xs) auto

lemma set_sort_by [simp]: "set (sort_by lt xs) = set xs"
  by (metis mset_sort_by set_mset_mset)

lemma length_sort_by [simp]: "length (sort_by lt xs) = length xs"
  by (metis mset_sort_by size_mset)

lemma distinct_sort_by [simp]: "distinct (sort_by lt xs) = distinct xs"
  by (metis mset_sort_by distinct_count_atmost_1 set_sort_by)

lemma sort_by_eq_Nil [simp]: "sort_by lt xs = [] \<longleftrightarrow> xs = []"
  by (metis length_0_conv length_sort_by)

text \<open>The contract a \<open>less\<close> function passed to the sort has to keep.\<close>

locale slice_less =
  fixes lt :: "'a \<Rightarrow> 'a \<Rightarrow> bool"
  assumes lt_asym: "lt a b \<Longrightarrow> \<not> lt b a"
    and lt_negtrans: "\<not> lt b a \<Longrightarrow> \<not> lt c b \<Longrightarrow> \<not> lt c a"
begin

lemma lt_irrefl: "\<not> lt a a"
  using lt_asym by blast

lemma insert_by_sorted:
  "sorted_wrt (\<lambda>a b. \<not> lt b a) ys \<Longrightarrow> sorted_wrt (\<lambda>a b. \<not> lt b a) (insert_by lt x ys)"
proof (induction ys)
  case Nil
  then show ?case by simp
next
  case (Cons y ys)
  have set_eq: "set (insert_by lt x ys) = insert x (set ys)"
    by (metis mset_insert_by set_mset_add_mset_insert set_mset_mset)
  show ?case
  proof (cases "lt y x")
    case True
    with Cons set_eq show ?thesis by (auto dest: lt_asym)
  next
    case False
    with Cons.prems have "\<forall>z \<in> set ys. \<not> lt z x"
      using lt_negtrans by (metis sorted_wrt.simps(2))
    with False Cons show ?thesis by auto
  qed
qed

lemma sort_by_sorted: "sorted_wrt (\<lambda>a b. \<not> lt b a) (sort_by lt xs)"
  by (induction xs) (auto intro: insert_by_sorted)

lemma sort_by_hd_minimal:
  assumes "xs \<noteq> []" "x \<in> set xs"
  shows "\<not> lt x (hd (sort_by lt xs))"
proof -
  from assms obtain y ys where eq: "sort_by lt xs = y # ys"
    by (metis list.exhaust sort_by_eq_Nil)
  from assms(2) have "x \<in> set (y # ys)"
    by (metis eq set_sort_by)
  with sort_by_sorted [of xs] eq show ?thesis by (auto simp: lt_irrefl)
qed

lemma sort_by_nth:
  "i < j \<Longrightarrow> j < length xs \<Longrightarrow> \<not> lt (sort_by lt xs ! j) (sort_by lt xs ! i)"
  using sort_by_sorted [of xs] by (auto simp: sorted_wrt_iff_nth_less)

end

text \<open>Ordering by a key of a linear order keeps the contract.\<close>

lemma slice_less_key: "slice_less (\<lambda>a b. (f a :: 'k :: linorder) < f b)"
  by unfold_locales auto

lemma slice_less_key_desc: "slice_less (\<lambda>a b. (f a :: 'k :: linorder) > f b)"
  by unfold_locales auto

end
