(* ===== verification/Float64.thy ===== *)
theory Float64
  imports Prelude
begin

text \<open>
  Go's \<open>float64\<close>: IEEE 754 binary64 with round-to-nearest-even. A finite value is the
  rational it denotes; an operation computes the exact rational result and rounds it to the
  nearest representable one (53 significant bits, subnormals below \<open>2 powi (-1022)\<close>,
  overflow to an infinity). The two zeros are one value. Expressions are rounded after each
  operation: no fused multiply-add, as the Go compiler does on amd64, the coordinator's
  target. A conversion to \<open>int64\<close> of a value out of range gives \<open>int64_min\<close>, amd64's result.
\<close>

subsection \<open>Binary logarithm of a positive rational\<close>

function ilog2_int :: "int \<Rightarrow> int" where
  "ilog2_int n = (if n \<le> 1 then 0 else 1 + ilog2_int (n div 2))"
  by pat_completeness auto
termination
  by (relation "measure nat") auto

declare ilog2_int.simps [simp del]

definition ilog2 :: "rat \<Rightarrow> int" where
  "ilog2 x = (if 1 \<le> x then ilog2_int \<lfloor>x\<rfloor>
              else (let n = \<lceil>1 / x\<rceil> in if n \<le> 1 then 0 else - (1 + ilog2_int (n - 1))))"

lemma ilog2_int_nonneg: "0 \<le> ilog2_int n"
  by (induction n rule: ilog2_int.induct) (simp add: ilog2_int.simps)

lemma ilog2_int_bounds:
  "1 \<le> n \<Longrightarrow> 2 ^ nat (ilog2_int n) \<le> n \<and> n < 2 ^ (nat (ilog2_int n) + 1)"
proof (induction n rule: ilog2_int.induct)
  case (1 n)
  show ?case
  proof (cases "n \<le> 1")
    case True
    with 1 show ?thesis by (simp add: ilog2_int.simps)
  next
    case False
    define m where "m = nat (ilog2_int (n div 2))"
    from False 1 have ih: "2 ^ m \<le> n div 2" "n div 2 < 2 ^ (m + 1)"
      by (auto simp: m_def)
    from False have "nat (ilog2_int n) = Suc m"
      using ilog2_int_nonneg [of "n div 2"] by (simp add: ilog2_int.simps [of n] m_def)
    moreover have "2 * 2 ^ m \<le> n" "n < 2 * 2 ^ (m + 1)"
      using ih by linarith+
    ultimately show ?thesis by simp
  qed
qed

lemma ilog2_int_numeral [simp]:
  "ilog2_int 1 = 0"
  "ilog2_int (numeral (Num.Bit0 k)) = 1 + ilog2_int (numeral k)"
  "ilog2_int (numeral (Num.Bit1 k)) = 1 + ilog2_int (numeral k)"
  by (simp_all add: ilog2_int.simps [of 1] ilog2_int.simps [of "numeral (Num.Bit0 k)"]
      ilog2_int.simps [of "numeral (Num.Bit1 k)"])

lemma powi_nat: "0 \<le> e \<Longrightarrow> (2::rat) powi e = 2 ^ nat e"
  by (simp add: power_int_def)

lemma powi_neg: "(2::rat) powi (- int k) = 1 / 2 ^ k"
  by (simp only: power_int_minus power_int_of_nat inverse_eq_divide)

lemma powi_mono: "a \<le> b \<Longrightarrow> (2::rat) powi a \<le> 2 powi b"
  by (simp add: power_int_increasing)

lemma powi_pos [simp]: "0 < (2::rat) powi a"
  by simp

lemma powi_less_imp: "(2::rat) powi a < 2 powi b \<Longrightarrow> a < b"
  using powi_mono by (meson leD linorder_le_less_linear)

lemma ilog2_bounds:
  assumes "0 < x"
  shows "2 powi (ilog2 x) \<le> x \<and> x < 2 powi (ilog2 x + 1)"
proof (cases "1 \<le> x")
  case True
  define n where "n = \<lfloor>x\<rfloor>"
  from True have n1: "1 \<le> n" by (simp add: n_def le_floor_iff)
  from ilog2_int_bounds [OF n1]
  have b: "2 ^ nat (ilog2_int n) \<le> n" "n < 2 ^ (nat (ilog2_int n) + 1)" by auto
  have lo: "(2::rat) ^ nat (ilog2_int n) \<le> of_int n"
    using b(1) by (metis of_int_le_iff of_int_numeral of_int_power)
  have "n + 1 \<le> 2 ^ (nat (ilog2_int n) + 1)" using b(2) by linarith
  then have "of_int (n + 1) \<le> (2::rat) ^ (nat (ilog2_int n) + 1)"
    by (metis of_int_le_iff of_int_numeral of_int_power)
  moreover have "x < of_int (n + 1)" "of_int n \<le> x"
    by (auto simp: n_def floor_less_iff) (use floor_correct [of x] in auto)
  ultimately have "(2::rat) ^ nat (ilog2_int n) \<le> x" "x < 2 ^ (nat (ilog2_int n) + 1)"
    using order_trans [OF lo] by (blast, linarith)
  moreover have "ilog2 x = ilog2_int n" using True by (simp add: ilog2_def n_def)
  ultimately show ?thesis
    using ilog2_int_nonneg [of n] by (simp add: powi_nat nat_add_distrib)
next
  case False
  define n where "n = \<lceil>1 / x\<rceil>"
  from False assms have "1 < 1 / x" by simp
  then have n2: "2 \<le> n" unfolding n_def by linarith
  then have n1: "1 \<le> n - 1" by simp
  define k where "k = nat (ilog2_int (n - 1))"
  from ilog2_int_bounds [OF n1] have b: "2 ^ k \<le> n - 1" "n - 1 < 2 ^ (k + 1)"
    by (auto simp: k_def)
  have lo: "(2::rat) ^ k \<le> of_int (n - 1)"
    using b(1) by (metis of_int_le_iff of_int_numeral of_int_power)
  have "n \<le> 2 ^ (k + 1)" using b(2) by linarith
  then have hi: "of_int n \<le> (2::rat) ^ (k + 1)"
    by (metis of_int_le_iff of_int_numeral of_int_power)
  have c: "of_int (n - 1) < 1 / x" "1 / x \<le> of_int n"
    unfolding n_def by linarith+
  have e: "ilog2 x = - (int k + 1)"
    using False n2 ilog2_int_nonneg [of "n - 1"] by (simp add: ilog2_def n_def [symmetric] k_def)
  have "2 ^ k < 1 / x" using lo c(1) by linarith
  with assms have up: "x < 1 / 2 ^ k" by (simp add: field_simps)
  have "1 / x \<le> 2 ^ (k + 1)" using hi c(2) by linarith
  with assms have dn: "1 / 2 ^ (k + 1) \<le> x" by (simp add: field_simps)
  have p1: "(2::rat) powi (- (int k + 1)) = 1 / 2 ^ (k + 1)"
    using powi_neg [of "k + 1"] by (simp only: of_nat_add of_nat_1)
  have p2: "(2::rat) powi (- (int k + 1) + 1) = 1 / 2 ^ k"
    using powi_neg [of k] by simp
  show ?thesis using up dn unfolding e p1 p2 by simp
qed

lemma ilog2_unique:
  assumes "0 < x" "2 powi e \<le> x" "x < 2 powi (e + 1)"
  shows "ilog2 x = e"
proof -
  note b = ilog2_bounds [OF assms(1)]
  from b assms have "(2::rat) powi e < 2 powi (ilog2 x + 1)" "(2::rat) powi (ilog2 x) < 2 powi (e + 1)"
    by linarith+
  then show ?thesis by (auto dest!: powi_less_imp)
qed

lemma ilog2_mono:
  assumes "0 < x" "x \<le> y"
  shows "ilog2 x \<le> ilog2 y"
proof -
  from assms ilog2_bounds [of x] ilog2_bounds [of y]
  have "(2::rat) powi (ilog2 x) < 2 powi (ilog2 y + 1)" by linarith
  then show ?thesis by (auto dest: powi_less_imp)
qed

subsection \<open>Rounding to 53 bits, ties to even\<close>

definition rhe :: "rat \<Rightarrow> int" where
  "rhe x = (let f = \<lfloor>x\<rfloor>; d = x - of_int f in
     if d < 1 / 2 then f else if 1 / 2 < d then f + 1 else if even f then f else f + 1)"

definition ulp_exp :: "rat \<Rightarrow> int" where
  "ulp_exp x = max (ilog2 \<bar>x\<bar>) (-1022) - 52"

definition rr :: "rat \<Rightarrow> rat" where
  "rr x = (if x = 0 then 0
           else (let u = 2 powi (ulp_exp x) in of_int (rhe (x / u)) * u))"

lemma rhe_of_int [simp]: "rhe (of_int n) = n"
  by (simp add: rhe_def)

lemma rhe_bounds: "\<lfloor>x\<rfloor> \<le> rhe x \<and> rhe x \<le> \<lfloor>x\<rfloor> + 1"
  by (simp add: rhe_def Let_def)

lemma rhe_mono:
  assumes "x \<le> y"
  shows "rhe x \<le> rhe y"
proof (cases "\<lfloor>x\<rfloor> = \<lfloor>y\<rfloor>")
  case True
  with assms show ?thesis by (simp add: rhe_def Let_def)
next
  case False
  with assms have "\<lfloor>x\<rfloor> + 1 \<le> \<lfloor>y\<rfloor>" using floor_mono [of x y] by linarith
  with rhe_bounds [of x] rhe_bounds [of y] show ?thesis by linarith
qed

lemma rhe_le_int: "x \<le> of_int n \<Longrightarrow> rhe x \<le> n"
  using rhe_mono by fastforce

lemma rhe_ge_int: "of_int n \<le> x \<Longrightarrow> n \<le> rhe x"
  using rhe_mono by fastforce

lemma rr_zero [simp]: "rr 0 = 0"
  by (simp add: rr_def)

lemma rr_nonneg: "0 \<le> x \<Longrightarrow> 0 \<le> rr x"
  using rhe_ge_int [of 0] by (auto simp: rr_def Let_def intro!: mult_nonneg_nonneg)

text \<open>A number with at most 53 significant bits is its own rounding.\<close>

lemma rr_exact:
  assumes "x = of_int k * 2 powi (ulp_exp x)"
  shows "rr x = x"
proof -
  have "x / 2 powi (ulp_exp x) = of_int k" using assms by (simp add: field_simps)
  then show ?thesis using assms by (simp add: rr_def Let_def)
qed

lemma rr_mono_pos:
  assumes "0 < x" "x \<le> y"
  shows "rr x \<le> rr y"
proof (cases "ulp_exp x = ulp_exp y")
  case True
  let ?u = "(2::rat) powi (ulp_exp y)"
  have "x / ?u \<le> y / ?u" using assms by (simp add: divide_right_mono)
  then have "rhe (x / ?u) \<le> rhe (y / ?u)" by (rule rhe_mono)
  then show ?thesis using assms True by (simp add: rr_def Let_def)
next
  case False
  have lxy: "ilog2 x \<le> ilog2 y" by (rule ilog2_mono [OF assms])
  with assms False have lt: "ulp_exp x < ulp_exp y" by (auto simp: ulp_exp_def)
  with assms have ey: "ulp_exp y = ilog2 y - 52" by (auto simp: ulp_exp_def)
  let ?a = "ulp_exp x" and ?b = "ulp_exp y"
  have x_up: "x < 2 powi (?a + 53)"
  proof -
    have "x < 2 powi (ilog2 x + 1)" using ilog2_bounds assms by blast
    also have "\<dots> \<le> 2 powi (?a + 53)" using assms by (intro powi_mono) (simp add: ulp_exp_def)
    finally show ?thesis .
  qed
  have s53: "(2::rat) powi (?a + 53) = of_int (2 ^ 53) * 2 powi ?a"
    by (simp add: power_int_add)
  have "x / 2 powi ?a \<le> of_int (2 ^ 53)"
    using x_up unfolding s53 by (simp add: field_simps)
  then have "rhe (x / 2 powi ?a) \<le> 2 ^ 53" by (rule rhe_le_int)
  then have "of_int (rhe (x / 2 powi ?a)) \<le> (of_int (2 ^ 53) :: rat)"
    by (simp only: of_int_le_iff)
  then have "rr x \<le> of_int (2 ^ 53) * 2 powi ?a"
    using assms unfolding rr_def Let_def by (auto intro!: mult_right_mono)
  also have "\<dots> = 2 powi (?a + 53)" by (rule s53 [symmetric])
  also have "\<dots> \<le> 2 powi (?b + 52)" using lt by (intro powi_mono) simp
  also have "\<dots> \<le> rr y"
  proof -
    have y_lo: "2 powi (?b + 52) \<le> y" using ilog2_bounds [of y] assms ey by simp
    have s52: "(2::rat) powi (?b + 52) = of_int (2 ^ 52) * 2 powi ?b"
      by (simp add: power_int_add)
    have "of_int (2 ^ 52) \<le> y / 2 powi ?b"
      using y_lo unfolding s52 by (simp add: field_simps)
    then have "2 ^ 52 \<le> rhe (y / 2 powi ?b)" by (rule rhe_ge_int)
    then have "(of_int (2 ^ 52) :: rat) \<le> of_int (rhe (y / 2 powi ?b))"
      by (simp only: of_int_le_iff)
    then have "of_int (2 ^ 52) * 2 powi ?b \<le> rr y"
      using assms unfolding rr_def Let_def by (auto intro!: mult_right_mono)
    then show ?thesis unfolding s52 .
  qed
  finally show ?thesis .
qed

lemma rr_mono: "0 \<le> x \<Longrightarrow> x \<le> y \<Longrightarrow> rr x \<le> rr y"
  using rr_mono_pos [of x y] rr_nonneg [of y] by (cases "x = 0") auto

lemma rr_of_int_pos:
  assumes "0 < n" "n \<le> 2 ^ 53"
  shows "rr (of_int n) = of_int n"
proof (rule rr_exact [where k = "n * 2 ^ nat (52 - ilog2 (of_int n)) div (if n = 2 ^ 53 then 2 else 1)"])
  have pos: "(0::rat) < of_int n" using assms by simp
  show "rat_of_int n = of_int (n * 2 ^ nat (52 - ilog2 (of_int n)) div (if n = 2 ^ 53 then 2 else 1))
      * 2 powi ulp_exp (of_int n)"
  proof (cases "n = 2 ^ 53")
    case True
    have "ilog2 (of_int n) = 53"
      by (rule ilog2_unique) (use True in simp_all)
    with True show ?thesis by (simp add: ulp_exp_def)
  next
    case False
    with assms have lt: "of_int n < (2::rat) ^ 53"
      by (metis of_int_less_iff of_int_numeral of_int_power order_le_less)
    from ilog2_bounds [OF pos] have "(2::rat) powi (ilog2 (of_int n)) < 2 powi 53"
      using lt by simp
    then have l53: "ilog2 (of_int n) < 53" by (rule powi_less_imp)
    have "(2::rat) powi 0 < 2 powi (ilog2 (of_int n) + 1)"
      using ilog2_bounds [OF pos] assms by (simp add: order_le_less_trans [of 1 "of_int n"])
    then have l0: "0 < ilog2 (of_int n) + 1" by (rule powi_less_imp)
    define k where "k = nat (52 - ilog2 (of_int n))"
    have "ulp_exp (of_int n) = - int k" using l0 l53 assms by (simp add: ulp_exp_def k_def)
    with False show ?thesis by (simp add: k_def [symmetric] powi_neg)
  qed
qed

lemma rr_of_int: "0 \<le> n \<Longrightarrow> n \<le> 2 ^ 53 \<Longrightarrow> rr (of_int n) = of_int n"
  using rr_of_int_pos [of n] by (cases "n = 0") auto

lemma rr_le_of_int:
  assumes "0 \<le> x" "x \<le> of_int n" "n \<le> 2 ^ 53"
  shows "rr x \<le> of_int n"
proof -
  have "0 \<le> n" using assms by (metis of_int_0_le_iff order_trans)
  with assms rr_mono [of x "of_int n"] show ?thesis by (simp add: rr_of_int)
qed

lemma rr_ge_of_int:
  assumes "0 \<le> n" "of_int n \<le> x" "n \<le> 2 ^ 53"
  shows "of_int n \<le> rr x"
  using assms rr_mono [of "of_int n" x] by (simp add: rr_of_int)

lemma rr_pow2:
  assumes "- 1022 \<le> k"
  shows "rr (2 powi k) = 2 powi k"
proof (rule rr_exact [where k = "2 ^ 52"])
  have "ilog2 (2 powi k) = k"
    by (rule ilog2_unique) (simp_all add: power_int_add)
  then have "ulp_exp (2 powi k) = k - 52" using assms by (simp add: ulp_exp_def)
  then have "2 ^ 52 * (2::rat) powi (ulp_exp (2 powi k)) = 2 powi 52 * 2 powi (k - 52)"
    by simp
  also have "\<dots> = 2 powi (52 + (k - 52))" by (rule power_int_add [symmetric]) simp
  finally show "(2::rat) powi k = of_int (2 ^ 52) * 2 powi ulp_exp (2 powi k)"
    by simp
qed

lemma rr_le_pow2:
  assumes "0 \<le> x" "x \<le> 2 ^ k"
  shows "rr x \<le> 2 ^ k"
  using rr_mono [OF assms] rr_pow2 [of "int k"] by (simp add: power_int_of_nat)

subsection \<open>Values and operations\<close>

datatype f64 = Fin rat | PInf | NInf | NaN

definition rnd :: "rat \<Rightarrow> f64" where
  "rnd x = (let r = rr x in
     if 2 ^ 1024 \<le> r then PInf else if r \<le> - (2 ^ 1024) then NInf else Fin r)"

fun f64_neg :: "f64 \<Rightarrow> f64" where
  "f64_neg (Fin a) = Fin (- a)"
| "f64_neg PInf = NInf"
| "f64_neg NInf = PInf"
| "f64_neg NaN = NaN"

fun f64_add :: "f64 \<Rightarrow> f64 \<Rightarrow> f64" where
  "f64_add (Fin a) (Fin b) = rnd (a + b)"
| "f64_add NaN _ = NaN"
| "f64_add _ NaN = NaN"
| "f64_add PInf NInf = NaN"
| "f64_add NInf PInf = NaN"
| "f64_add PInf _ = PInf"
| "f64_add _ PInf = PInf"
| "f64_add NInf _ = NInf"
| "f64_add _ NInf = NInf"

definition f64_inf :: "rat \<Rightarrow> f64" where
  "f64_inf s = (if 0 < s then PInf else if s < 0 then NInf else NaN)"

fun f64_sgn :: "f64 \<Rightarrow> rat" where
  "f64_sgn (Fin a) = sgn a"
| "f64_sgn PInf = 1"
| "f64_sgn NInf = - 1"
| "f64_sgn NaN = 0"

fun f64_mul :: "f64 \<Rightarrow> f64 \<Rightarrow> f64" where
  "f64_mul (Fin a) (Fin b) = rnd (a * b)"
| "f64_mul a b = f64_inf (f64_sgn a * f64_sgn b)"

fun f64_div :: "f64 \<Rightarrow> f64 \<Rightarrow> f64" where
  "f64_div (Fin a) (Fin b) = (if b = 0 then f64_inf (sgn a) else rnd (a / b))"
| "f64_div NaN _ = NaN"
| "f64_div _ NaN = NaN"
| "f64_div (Fin a) _ = Fin 0"
| "f64_div a (Fin b) = f64_inf (f64_sgn a * (if b < 0 then - 1 else 1))"
| "f64_div _ _ = NaN"

fun f64_less :: "f64 \<Rightarrow> f64 \<Rightarrow> bool" where
  "f64_less (Fin a) (Fin b) = (a < b)"
| "f64_less NaN _ = False"
| "f64_less _ NaN = False"
| "f64_less a PInf = (a \<noteq> PInf)"
| "f64_less NInf b = (b \<noteq> NInf)"
| "f64_less _ _ = False"

fun f64_le :: "f64 \<Rightarrow> f64 \<Rightarrow> bool" where
  "f64_le NaN _ = False"
| "f64_le _ NaN = False"
| "f64_le a b = (a = b \<or> f64_less a b)"

text \<open>Go's operators on \<open>float64\<close>, comparisons included (all false on NaN).\<close>

instantiation f64 :: "{plus, minus, uminus, times, inverse, ord, zero, one}"
begin

definition "a + b = f64_add a b" for a b :: f64
definition "a - b = f64_add a (f64_neg b)" for a b :: f64
definition "- a = f64_neg a" for a :: f64
definition "a * b = f64_mul a b" for a b :: f64
definition "a div b = f64_div a b" for a b :: f64
definition "inverse a = f64_div (Fin 1) a" for a :: f64
definition "a < b \<longleftrightarrow> f64_less a b" for a b :: f64
definition "a \<le> b \<longleftrightarrow> f64_le a b" for a b :: f64
definition "0 = Fin 0"
definition "1 = Fin 1"

instance ..

end

lemmas f64_ops = plus_f64_def minus_f64_def uminus_f64_def times_f64_def divide_f64_def
  less_f64_def less_eq_f64_def zero_f64_def one_f64_def

text \<open>Conversions and the functions of package \<open>math\<close> the coordinator calls.\<close>

definition f64_of_int :: "int \<Rightarrow> f64" where
  "f64_of_int n = rnd (of_int n)"

definition trunc :: "rat \<Rightarrow> int" where
  "trunc x = (if 0 \<le> x then \<lfloor>x\<rfloor> else \<lceil>x\<rceil>)"

fun f64_to_int64 :: "f64 \<Rightarrow> int" where
  "f64_to_int64 (Fin x) = (if is_int64 (trunc x) then trunc x else int64_min)"
| "f64_to_int64 _ = int64_min"

definition round_away :: "rat \<Rightarrow> int" where
  "round_away x = (if 0 \<le> x then \<lfloor>x + 1 / 2\<rfloor> else - \<lfloor>1 / 2 - x\<rfloor>)"

fun math_Round :: "f64 \<Rightarrow> f64" where
  "math_Round (Fin x) = Fin (of_int (round_away x))"
| "math_Round x = x"

fun math_Ceil :: "f64 \<Rightarrow> f64" where
  "math_Ceil (Fin x) = Fin (of_int \<lceil>x\<rceil>)"
| "math_Ceil x = x"

definition math_Max :: "f64 \<Rightarrow> f64 \<Rightarrow> f64" where
  "math_Max x y = (if x = PInf \<or> y = PInf then PInf
                   else if x = NaN \<or> y = NaN then NaN
                   else if y < x then x else y)"

definition math_Min :: "f64 \<Rightarrow> f64 \<Rightarrow> f64" where
  "math_Min x y = (if x = NInf \<or> y = NInf then NInf
                   else if x = NaN \<or> y = NaN then NaN
                   else if x < y then x else y)"

text \<open>Floors and ceilings of fractions of numerals, for evaluation.\<close>

lemma rat_floor_numeral [simp]:
  "\<lfloor>numeral a / numeral b :: rat\<rfloor> = numeral a div numeral b"
  "\<lfloor>1 / numeral b :: rat\<rfloor> = 1 div numeral b"
  using floor_divide_of_int_eq [where 'a = rat, of "numeral a" "numeral b"]
    floor_divide_of_int_eq [where 'a = rat, of 1 "numeral b"] by simp_all

lemma rat_ceiling_numeral [simp]:
  "\<lceil>numeral a / numeral b :: rat\<rceil> = - (- numeral a div numeral b)"
  "\<lceil>1 / numeral b :: rat\<rceil> = - (- 1 div numeral b)"
  using floor_divide_of_int_eq [where 'a = rat, of "- numeral a" "numeral b"]
    floor_divide_of_int_eq [where 'a = rat, of "- 1" "numeral b"]
  by (simp_all add: ceiling_def)

lemmas f64_eval = f64_of_int_def f64_ops rnd_def rr_def ulp_exp_def ilog2_def rhe_def Let_def
  round_away_def trunc_def

subsection \<open>Reasoning on finite non-negative values\<close>

lemma rnd_Fin: "0 \<le> x \<Longrightarrow> x \<le> 2 ^ 1000 \<Longrightarrow> rnd x = Fin (rr x)"
proof -
  assume x: "0 \<le> x" "x \<le> 2 ^ 1000"
  have "rr x \<le> 2 ^ 1000" by (rule rr_le_pow2 [OF x])
  moreover have "(2::rat) ^ 1000 < 2 ^ 1024" by simp
  ultimately have a: "\<not> 2 ^ 1024 \<le> rr x" by (meson leD order_le_less_trans)
  have "- (2 ^ 1024) < (0::rat)" by simp
  then have b: "\<not> rr x \<le> - (2 ^ 1024)" using rr_nonneg [OF x(1)] by (meson leD order_le_less_trans order_less_le_trans)
  from a b show ?thesis by (simp only: rnd_def Let_def if_False)
qed

lemma of_int_le_pow2: "n \<le> 2 ^ k \<Longrightarrow> of_int n \<le> (2::rat) ^ k"
  by (metis of_int_le_iff of_int_numeral of_int_power)

lemma f64_of_int_Fin: "0 \<le> n \<Longrightarrow> n \<le> 2 ^ 1000 \<Longrightarrow> f64_of_int n = Fin (rr (of_int n))"
  unfolding f64_of_int_def by (rule rnd_Fin [OF _ of_int_le_pow2]) auto

lemma f64_of_int_exact: "0 \<le> n \<Longrightarrow> n \<le> 2 ^ 53 \<Longrightarrow> f64_of_int n = Fin (of_int n)"
  using f64_of_int_Fin [of n] rr_of_int [of n] by simp

lemma trunc_of_int [simp]: "trunc (of_int n) = n"
  by (simp add: trunc_def)

lemma trunc_mono: "0 \<le> x \<Longrightarrow> x \<le> y \<Longrightarrow> trunc x \<le> trunc y"
  by (simp add: trunc_def floor_mono)

lemma trunc_nonneg: "0 \<le> x \<Longrightarrow> 0 \<le> trunc x"
  by (simp add: trunc_def)

lemma trunc_le: "0 \<le> x \<Longrightarrow> x \<le> of_int n \<Longrightarrow> trunc x \<le> n"
  by (simp add: trunc_def floor_le_iff)

lemma round_away_of_int [simp]: "round_away (of_int n) = n"
proof (cases "0 \<le> n")
  case True
  then show ?thesis by (simp add: round_away_def floor_eq_iff)
next
  case False
  have "\<lfloor>(1 / 2 :: rat) - of_int n\<rfloor> = - n" by (simp add: floor_eq_iff)
  with False show ?thesis by (simp add: round_away_def)
qed

lemma round_away_mono: "0 \<le> x \<Longrightarrow> x \<le> y \<Longrightarrow> round_away x \<le> round_away y"
  by (simp add: round_away_def floor_mono)

lemma round_away_nonneg: "0 \<le> x \<Longrightarrow> 0 \<le> round_away x"
  by (simp add: round_away_def)

lemma round_away_le:
  assumes "0 \<le> x" "x \<le> of_int n"
  shows "round_away x \<le> n"
  using round_away_mono [OF assms] by simp

lemma f64_to_int64_Fin:
  "0 \<le> x \<Longrightarrow> x \<le> of_int n \<Longrightarrow> n < 2 ^ 63 \<Longrightarrow> f64_to_int64 (Fin x) = trunc x"
  using trunc_le [of x n] trunc_nonneg [of x] by (simp add: is_int64_def)

lemma f64_round_to_int64:
  "0 \<le> x \<Longrightarrow> x \<le> of_int n \<Longrightarrow> n < 2 ^ 63 \<Longrightarrow> f64_to_int64 (math_Round (Fin x)) = round_away x"
  using round_away_le [of x n] round_away_nonneg [of x] by (simp add: is_int64_def)

text \<open>A value known to be finite, non-negative and below a power of two; closed under the
  arithmetic the scoring code does.\<close>

definition f64_in :: "nat \<Rightarrow> f64 \<Rightarrow> bool" where
  "f64_in k x \<longleftrightarrow> (case x of Fin q \<Rightarrow> 0 \<le> q \<and> q \<le> 2 ^ k | _ \<Rightarrow> False)"

lemma f64_inE: "f64_in k x \<Longrightarrow> (\<And>q. x = Fin q \<Longrightarrow> 0 \<le> q \<Longrightarrow> q \<le> 2 ^ k \<Longrightarrow> P) \<Longrightarrow> P"
  by (cases x) (auto simp: f64_in_def)

lemma f64_in_Fin [simp]: "f64_in k (Fin q) \<longleftrightarrow> 0 \<le> q \<and> q \<le> 2 ^ k"
  by (simp add: f64_in_def)

lemma f64_in_rnd:
  assumes "0 \<le> q" "q \<le> 2 ^ k" "k \<le> 1000"
  shows "f64_in k (rnd q)"
proof -
  have "q \<le> 2 ^ 1000"
    using assms by (meson order_trans power_increasing one_le_numeral)
  then show ?thesis using rnd_Fin [OF assms(1)] rr_nonneg [OF assms(1)] rr_le_pow2 [OF assms(1,2)] by simp
qed

lemma f64_in_mono: "f64_in a x \<Longrightarrow> a \<le> b \<Longrightarrow> f64_in b x"
  by (elim f64_inE) (auto intro: order_trans power_increasing)

lemma f64_in_add:
  assumes "f64_in k x" "f64_in k y" "k \<le> 900"
  shows "f64_in (Suc k) (x + y)"
  using assms by (elim f64_inE) (auto simp: plus_f64_def intro!: f64_in_rnd)

lemma f64_in_mult:
  assumes "f64_in a x" "f64_in b y" "a + b \<le> 1000"
  shows "f64_in (a + b) (x * y)"
  using assms by (elim f64_inE) (auto simp: times_f64_def power_add intro!: f64_in_rnd mult_mono)

lemma f64_in_div:
  assumes "f64_in a x" "1 \<le> d" "a \<le> 1000"
  shows "f64_in a (x / Fin d)"
proof -
  obtain q where q: "x = Fin q" "0 \<le> q" "q \<le> 2 ^ a" using assms(1) by (rule f64_inE)
  have "q / d \<le> q" using q assms(2) by (simp add: divide_le_eq mult_left_le_one_le mult_le_cancel_left1)
  then show ?thesis using q assms by (auto simp: divide_f64_def intro!: f64_in_rnd order_trans [of "q / d" q])
qed

lemma f64_in_of_int: "0 \<le> n \<Longrightarrow> n \<le> 2 ^ k \<Longrightarrow> k \<le> 1000 \<Longrightarrow> f64_in k (f64_of_int n)"
  unfolding f64_of_int_def by (rule f64_in_rnd [OF _ of_int_le_pow2]) simp_all

end
