(* ===== verification/Pricing.thy ===== *)
theory Pricing
  imports Float64
begin

text \<open>
  Package \<open>pricing\<close> (coordinator/internal/pricing/pricing.go): the rate card, the quote
  of one job and the bottom-up quote of a workload, in the \<open>float64\<close> arithmetic the code
  uses. The lemmas reduce each computation, on the ranges where it stays finite, to
  roundings of exact rationals, and from there show bounds, monotonicity and the
  accounting of the breakdown.
\<close>

subsection \<open>Rate card, tiers\<close>

record Quote =
  GrossMicros :: int
  ProviderMicros :: int
  ModelClass :: string
  Tier :: string

record classRate =
  inPerM :: int
  outPerM :: int

definition rateCard :: "string \<rightharpoonup> classRate" where
  "rateCard = map_of
    [(''MICRO'', \<lparr>inPerM = 20000, outPerM = 80000\<rparr>),
     (''SMALL'', \<lparr>inPerM = 50000, outPerM = 200000\<rparr>),
     (''MEDIUM'', \<lparr>inPerM = 150000, outPerM = 600000\<rparr>),
     (''LARGE'', \<lparr>inPerM = 400000, outPerM = 1600000\<rparr>),
     (''XL'', \<lparr>inPerM = 900000, outPerM = 3600000\<rparr>),
     (''CONFIDENTIAL_GPU'', \<lparr>inPerM = 900000, outPerM = 3600000\<rparr>)]"

definition small_rate :: classRate where
  "small_rate = \<lparr>inPerM = 50000, outPerM = 200000\<rparr>"

definition tierMultiplier :: "string \<Rightarrow> f64" where
  "tierMultiplier tier = (let t = to_lower tier in
     if t = ''device_attested'' then rnd (14 / 10)
     else if t = ''confidential'' then rnd 3
     else rnd 1)"

definition revShare :: "string \<Rightarrow> f64" where
  "revShare tier = (if equal_fold tier ''confidential'' then rnd (60 / 100) else rnd (70 / 100))"

subsection \<open>QuoteJob\<close>

definition normalize_class :: "string \<Rightarrow> classRate \<times> string" where
  "normalize_class modelClass = (let class = to_upper (trim_space modelClass) in
     case rateCard class of Some r \<Rightarrow> (r, class)
     | None \<Rightarrow> (the (rateCard ''SMALL''), ''SMALL''))"

definition QuoteJob ::
  "string \<Rightarrow> string \<Rightarrow> int \<Rightarrow> int \<Rightarrow> f64 \<Rightarrow> f64 \<Rightarrow> Quote" where
  "QuoteJob modelClass tier promptTokens completionTokens priceMult qualityMult =
    (let (r, class) = normalize_class modelClass;
         pm = (if priceMult \<le> 0 then 1 else priceMult);
         inM = f64_to_int64 (f64_of_int (inPerM r) * pm);
         outM = f64_to_int64 (f64_of_int (outPerM r) * pm);
         base = f64_to_int64 (math_Round
           (f64_of_int promptTokens * f64_of_int inM / Fin 1000000 +
            f64_of_int completionTokens * f64_of_int outM / Fin 1000000));
         gross = f64_to_int64 (f64_of_int base * tierMultiplier tier);
         qm = (if qualityMult \<le> 0 then 1 else qualityMult);
         provider = f64_to_int64 (math_Round (f64_of_int gross * revShare tier * qm))
     in \<lparr>GrossMicros = gross, ProviderMicros = provider, ModelClass = class, Tier = tier\<rparr>)"

text \<open>\<open>USD\<close> renders micro-USD as dollars.\<close>

definition USD :: "int \<Rightarrow> f64" where
  "USD micros = f64_of_int micros / Fin 1000000"

subsection \<open>QuoteWorkload\<close>

definition MinWorkloadMicros :: int where "MinWorkloadMicros = 10000"

definition paymentFeeRate :: f64 where "paymentFeeRate = rnd (3 / 100)"

record WorkloadCost =
  ComputeMicros :: int
  CoordinationMicros :: int
  FailureMicros :: int
  PaymentMicros :: int
  MarginMicros :: int
  TotalMicros :: int

definition clampInt :: "int \<Rightarrow> int" where
  "clampInt v = (let v = (if v > 2 ^ 40 then 2 ^ 40 else v) in if v < 0 then 0 else v)"

definition QuoteWorkload ::
  "string \<Rightarrow> string \<Rightarrow> int \<Rightarrow> int \<Rightarrow> int \<Rightarrow> f64 \<Rightarrow> f64 \<Rightarrow> WorkloadCost" where
  "QuoteWorkload modelClass tier promptTokens completionTokens redundancy marginRate priceMult =
    (let red = (if redundancy < 1 then 1 else redundancy);
         effP = wrap64 (promptTokens * red);
         effC = wrap64 (completionTokens * red);
         base = QuoteJob modelClass tier (clampInt effP) (clampInt effC) priceMult 1;
         compute = (if ProviderMicros base < 0 then 0 else ProviderMicros base);
         coordination = go_div (wrap64 (compute * 15)) 100;
         failureRate = rnd (8 / 100) / f64_of_int red;
         failure = f64_to_int64 (f64_of_int compute * failureRate);
         mr = (if marginRate \<le> 0 then rnd (30 / 100) else marginRate);
         preMargin = wrap64 (wrap64 (compute + coordination) + failure);
         margin = f64_to_int64 (f64_of_int preMargin * mr);
         subtotal = wrap64 (preMargin + margin);
         payment = f64_to_int64 (f64_of_int subtotal * paymentFeeRate);
         total = wrap64 (subtotal + payment)
     in \<lparr>ComputeMicros = compute, CoordinationMicros = coordination, FailureMicros = failure,
         PaymentMicros = payment, MarginMicros = margin,
         TotalMicros = (if total < MinWorkloadMicros then MinWorkloadMicros else total)\<rparr>)"

subsection \<open>The constants as rationals\<close>

lemma rnd_consts:
  "rnd 1 = Fin 1" "rnd 3 = Fin 3"
  "rnd (7 / 5) = Fin (3152519739159347 / 2251799813685248)"
  "rnd (3 / 5) = Fin (5404319552844595 / 9007199254740992)"
  "rnd (7 / 10) = Fin (3152519739159347 / 4503599627370496)"
  "rnd (2 / 25) = Fin (5764607523034235 / 72057594037927936)"
  "rnd (3 / 100) = Fin (8646911284551352 / 288230376151711744)"
  "rnd (3 / 10) = Fin (5404319552844595 / 18014398509481984)"
  by (simp_all add: f64_eval)

lemma tierMultiplier_Fin: "\<exists>q. tierMultiplier tier = Fin q \<and> 1 \<le> q \<and> q \<le> 3"
proof -
  have "case tierMultiplier tier of Fin q \<Rightarrow> 1 \<le> q \<and> q \<le> 3 | _ \<Rightarrow> False"
    by (simp add: tierMultiplier_def Let_def rnd_consts)
  then show ?thesis by (cases "tierMultiplier tier") auto
qed

lemma revShare_Fin: "\<exists>q. revShare tier = Fin q \<and> 0 < q \<and> q < 1"
proof -
  have "case revShare tier of Fin q \<Rightarrow> 0 < q \<and> q < 1 | _ \<Rightarrow> False"
    by (simp add: revShare_def rnd_consts)
  then show ?thesis by (cases "revShare tier") auto
qed

lemma rate_bounds:
  "0 < inPerM (fst (normalize_class cls)) \<and> inPerM (fst (normalize_class cls)) \<le> 900000 \<and>
   0 < outPerM (fst (normalize_class cls)) \<and> outPerM (fst (normalize_class cls)) \<le> 3600000"
  by (simp add: normalize_class_def rateCard_def Let_def)

lemma normalize_class_known:
  "to_upper (trim_space cls) \<in> dom rateCard \<Longrightarrow>
   normalize_class cls = (the (rateCard (to_upper (trim_space cls))), to_upper (trim_space cls))"
  by (auto simp: normalize_class_def Let_def)

lemma normalize_class_unknown:
  "to_upper (trim_space cls) \<notin> dom rateCard \<Longrightarrow> normalize_class cls = (small_rate, ''SMALL'')"
  by (auto simp: normalize_class_def Let_def small_rate_def rateCard_def split: option.splits)

subsection \<open>The computation on rationals\<close>

definition rate_q :: "int \<Rightarrow> rat \<Rightarrow> int" where
  "rate_q i pm = trunc (rr (of_int i * pm))"

definition base_arg :: "int \<Rightarrow> int \<Rightarrow> int \<Rightarrow> int \<Rightarrow> rat" where
  "base_arg p i c q = rr (rr (rr (of_int p * of_int i) / 1000000) +
                          rr (rr (of_int c * of_int q) / 1000000))"

definition gross_q :: "int \<Rightarrow> rat \<Rightarrow> int" where
  "gross_q b t = trunc (rr (of_int b * t))"

definition prov_q :: "int \<Rightarrow> rat \<Rightarrow> rat \<Rightarrow> int" where
  "prov_q g s q = round_away (rr (rr (of_int g * s) * q))"

lemma le_pow2_trans: "x \<le> 2 ^ a \<Longrightarrow> a \<le> b \<Longrightarrow> x \<le> (2::rat) ^ b"
  by (meson order_trans power_increasing one_le_numeral)

lemma rr_pow2_bounds:
  "0 \<le> x \<Longrightarrow> x \<le> 2 ^ k \<Longrightarrow> k \<le> 1000 \<Longrightarrow> 0 \<le> rr x \<and> rr x \<le> 2 ^ k \<and> rnd x = Fin (rr x)"
  using rr_nonneg [of x] rr_le_pow2 [of x k] rnd_Fin [of x] le_pow2_trans [of x k 1000] by auto

lemma mul_pow2:
  "0 \<le> x \<Longrightarrow> x \<le> 2 ^ a \<Longrightarrow> 0 \<le> y \<Longrightarrow> y \<le> 2 ^ b \<Longrightarrow> x * y \<le> (2::rat) ^ (a + b) \<and> 0 \<le> x * y"
  by (auto simp: power_add intro: mult_mono)

lemma rate_q_bounds:
  assumes "0 \<le> i" "i \<le> 3600000" "0 < pm" "pm \<le> 100"
  shows "0 \<le> rate_q i pm \<and> rate_q i pm \<le> 2 ^ 29"
    and "f64_to_int64 (f64_of_int i * Fin pm) = rate_q i pm"
proof -
  have i: "(0::rat) \<le> of_int i" "of_int i \<le> (3600000::rat)" using assms by simp_all
  then have "of_int i * pm \<le> (3600000::rat) * 100" using assms by (intro mult_mono) simp_all
  then have b: "0 \<le> of_int i * pm" "of_int i * pm \<le> 2 ^ 29" using assms i by simp_all
  note r = rr_pow2_bounds [OF b]
  have rl: "rr (of_int i * pm) \<le> of_int (2 ^ 29)" using r by simp
  show "0 \<le> rate_q i pm \<and> rate_q i pm \<le> 2 ^ 29"
    unfolding rate_q_def using trunc_nonneg [of "rr (of_int i * pm)"] trunc_le [OF _ rl] r by auto
  have "f64_of_int i * Fin pm = Fin (rr (of_int i * pm))"
    using f64_of_int_exact [of i] assms r by (simp add: times_f64_def)
  then show "f64_to_int64 (f64_of_int i * Fin pm) = rate_q i pm"
    using f64_to_int64_Fin [OF _ rl] r by (simp add: rate_q_def)
qed

lemma token_cost:
  assumes "0 \<le> p" "p \<le> 2 ^ 40" "0 \<le> i" "i \<le> 2 ^ 29"
  defines "x \<equiv> rr (rr (of_int p * of_int i) / 1000000)"
  shows "f64_of_int p * f64_of_int i / Fin 1000000 = Fin x" "0 \<le> x" "x \<le> 2 ^ 50"
proof -
  have pi: "(0::rat) \<le> of_int p" "of_int p \<le> (2::rat) ^ 40" "(0::rat) \<le> of_int i" "of_int i \<le> (2::rat) ^ 29"
    using assms of_int_le_pow2 [of p 40] of_int_le_pow2 [of i 29] by simp_all
  from mul_pow2 [OF pi] have m: "0 \<le> of_int p * (of_int i :: rat)" "of_int p * of_int i \<le> (2::rat) ^ 69" by simp_all
  note r = rr_pow2_bounds [OF m]
  have "rr (of_int p * of_int i) / 1000000 \<le> 2 ^ 69 / 1000000"
    using r by (intro divide_right_mono) simp_all
  also have "\<dots> \<le> 2 ^ 50" by simp
  finally have d: "rr (of_int p * of_int i) / 1000000 \<le> 2 ^ 50" .
  have d0: "0 \<le> rr (of_int p * of_int i) / 1000000" using r by simp
  note r2 = rr_pow2_bounds [OF d0 d]
  show "f64_of_int p * f64_of_int i / Fin 1000000 = Fin x"
    using assms r r2 f64_of_int_exact [of p] f64_of_int_exact [of i]
    by (simp add: x_def times_f64_def divide_f64_def)
  show "0 \<le> x" "x \<le> 2 ^ 50" unfolding x_def using r2 by simp_all
qed

lemma base_bounds:
  assumes "0 \<le> p" "p \<le> 2 ^ 40" "0 \<le> i" "i \<le> 2 ^ 29" "0 \<le> c" "c \<le> 2 ^ 40" "0 \<le> q" "q \<le> 2 ^ 29"
  shows "f64_to_int64 (math_Round (f64_of_int p * f64_of_int i / Fin 1000000 +
           f64_of_int c * f64_of_int q / Fin 1000000)) = round_away (base_arg p i c q)"
    and "0 \<le> base_arg p i c q" "base_arg p i c q \<le> 2 ^ 51"
proof -
  note t1 = token_cost [OF assms(1-4)] and t2 = token_cost [OF assms(5-8)]
  let ?s = "rr (rr (of_int p * of_int i) / 1000000) + rr (rr (of_int c * of_int q) / 1000000)"
  have s: "0 \<le> ?s" "?s \<le> 2 ^ 51" using t1 t2 by simp_all
  note r = rr_pow2_bounds [OF s]
  show "0 \<le> base_arg p i c q" "base_arg p i c q \<le> 2 ^ 51"
    unfolding base_arg_def using r by simp_all
  then have le: "base_arg p i c q \<le> of_int (2 ^ 51)" by simp
  show "f64_to_int64 (math_Round (f64_of_int p * f64_of_int i / Fin 1000000 +
           f64_of_int c * f64_of_int q / Fin 1000000)) = round_away (base_arg p i c q)"
    unfolding t1(1) t2(1) using f64_round_to_int64 [OF _ le] r
    by (simp add: plus_f64_def base_arg_def)
qed

text \<open>Gross and provider amounts are exact integers below \<open>2 ^ 53\<close>.\<close>

lemma gross_bounds:
  assumes "0 \<le> b" "b \<le> 2 ^ 51" "1 \<le> t" "t \<le> 3"
  shows "f64_to_int64 (f64_of_int b * Fin t) = gross_q b t"
    and "0 \<le> gross_q b t" "gross_q b t \<le> 2 ^ 53"
proof -
  have b: "(0::rat) \<le> of_int b" "of_int b \<le> (2::rat) ^ 51" using assms of_int_le_pow2 by simp_all
  have "of_int b * t \<le> (2::rat) ^ 51 * 3" using assms b by (intro mult_mono) simp_all
  then have m: "0 \<le> of_int b * t" "of_int b * t \<le> (2::rat) ^ 53" using assms b by simp_all
  note r = rr_pow2_bounds [OF m]
  have le: "rr (of_int b * t) \<le> of_int (2 ^ 53)" using r by simp
  show "f64_to_int64 (f64_of_int b * Fin t) = gross_q b t"
    using f64_of_int_exact [of b] f64_to_int64_Fin [OF _ le] r assms
    by (simp add: times_f64_def gross_q_def)
  show "0 \<le> gross_q b t" "gross_q b t \<le> 2 ^ 53"
    unfolding gross_q_def using trunc_nonneg trunc_le [OF _ le] r by auto
qed

lemma prov_bounds:
  assumes "0 \<le> g" "g \<le> 2 ^ 53" "0 < s" "s < 1" "0 < q" "q \<le> 1"
  shows "f64_to_int64 (math_Round (f64_of_int g * Fin s * Fin q)) = prov_q g s q"
    and "0 \<le> prov_q g s q" "prov_q g s q \<le> g"
proof -
  have g: "(0::rat) \<le> of_int g" "of_int g \<le> (2::rat) ^ 53" using assms of_int_le_pow2 by simp_all
  have a: "0 \<le> of_int g * s" "of_int g * s \<le> of_int g"
    using assms g by (simp_all add: mult_left_le)
  have a': "of_int g * s \<le> 2 ^ 53" using a g by linarith
  note r = rr_pow2_bounds [OF a(1) a'] and rg = rr_le_of_int [OF a assms(2)]
  have m: "0 \<le> rr (of_int g * s) * q" "rr (of_int g * s) * q \<le> of_int g"
    using r rg assms by (auto intro: order_trans [OF mult_left_le])
  have m': "rr (of_int g * s) * q \<le> 2 ^ 53" using m g by linarith
  note r2 = rr_pow2_bounds [OF m(1) m'] and rg2 = rr_le_of_int [OF m assms(2)]
  have g63: "g < 2 ^ 63" using assms(2) by (rule order_le_less_trans) simp
  show "f64_to_int64 (math_Round (f64_of_int g * Fin s * Fin q)) = prov_q g s q"
    using f64_of_int_exact [of g] assms r r2 f64_round_to_int64 [OF _ rg2 g63]
    by (simp add: times_f64_def prov_q_def)
  show "0 \<le> prov_q g s q" "prov_q g s q \<le> g"
    unfolding prov_q_def using round_away_nonneg round_away_le [OF _ rg2] r2 by auto
qed

text \<open>The whole of \<open>QuoteJob\<close> on its working range, stage by stage.\<close>

lemma QuoteJob_eq:
  fixes cls tier :: string and p c :: int and pm q t s :: rat
  assumes "0 \<le> p" "p \<le> 2 ^ 40" "0 \<le> c" "c \<le> 2 ^ 40" "0 < pm" "pm \<le> 100" "0 < q" "q \<le> 1"
    and t: "tierMultiplier tier = Fin t" and s: "revShare tier = Fin s"
  defines "r \<equiv> fst (normalize_class cls)"
  defines "b \<equiv> round_away (base_arg p (rate_q (inPerM r) pm) c (rate_q (outPerM r) pm))"
  shows "QuoteJob cls tier p c (Fin pm) (Fin q) =
    \<lparr>GrossMicros = gross_q b t, ProviderMicros = prov_q (gross_q b t) s q,
     ModelClass = snd (normalize_class cls), Tier = tier\<rparr>"
    and "0 \<le> b" "b \<le> 2 ^ 51"
proof -
  note rb = rate_bounds [of cls, folded r_def]
  have ri: "0 \<le> inPerM r" "inPerM r \<le> 3600000" "0 \<le> outPerM r" "outPerM r \<le> 3600000"
    using rb by auto
  note q1 = rate_q_bounds [OF ri(1,2) assms(5,6)] and q2 = rate_q_bounds [OF ri(3,4) assms(5,6)]
  have rq: "0 \<le> rate_q (inPerM r) pm" "rate_q (inPerM r) pm \<le> 2 ^ 29"
    "0 \<le> rate_q (outPerM r) pm" "rate_q (outPerM r) pm \<le> 2 ^ 29" using q1(1) q2(1) by auto
  note bb = base_bounds [OF assms(1,2) rq(1,2) assms(3,4) rq(3,4)]
  have b51: "base_arg p (rate_q (inPerM r) pm) c (rate_q (outPerM r) pm) \<le> of_int (2 ^ 51)"
    using bb(3) by simp
  show b: "0 \<le> b" "b \<le> 2 ^ 51"
    unfolding b_def using round_away_nonneg [OF bb(2)] round_away_le [OF bb(2) b51] by auto
  obtain t' where t': "tierMultiplier tier = Fin t'" "1 \<le> t'" "t' \<le> 3" using tierMultiplier_Fin by blast
  obtain s' where s': "revShare tier = Fin s'" "0 < s'" "s' < 1" using revShare_Fin by blast
  have tt: "t' = t" "s' = s" using t t' s s' by simp_all
  note gb = gross_bounds [OF b t'(2,3), unfolded tt]
  note pb = prov_bounds [OF gb(2,3) s'(2,3) assms(7,8), unfolded tt]
  have pm: "\<not> Fin pm \<le> 0" "\<not> Fin q \<le> 0" using assms(5,7) by (simp_all add: f64_ops)
  show "QuoteJob cls tier p c (Fin pm) (Fin q) =
    \<lparr>GrossMicros = gross_q b t, ProviderMicros = prov_q (gross_q b t) s q,
     ModelClass = snd (normalize_class cls), Tier = tier\<rparr>"
    unfolding QuoteJob_def Let_def case_prod_beta r_def [symmetric]
    by (simp add: pm q1(2) q2(2) bb(1) b_def [symmetric] t s gb(1) pb(1))
qed

subsection \<open>Properties of one job's quote\<close>

lemma provider_bounds:
  fixes cls tier :: string and p c :: int and pm q :: rat
  assumes "0 \<le> p" "p \<le> 2 ^ 40" "0 \<le> c" "c \<le> 2 ^ 40" "0 < pm" "pm \<le> 100" "0 < q" "q \<le> 1"
  shows "0 \<le> ProviderMicros (QuoteJob cls tier p c (Fin pm) (Fin q)) \<and>
    ProviderMicros (QuoteJob cls tier p c (Fin pm) (Fin q)) \<le>
      GrossMicros (QuoteJob cls tier p c (Fin pm) (Fin q)) \<and>
    GrossMicros (QuoteJob cls tier p c (Fin pm) (Fin q)) \<le> 2 ^ 53"
proof -
  obtain t where t: "tierMultiplier tier = Fin t" "1 \<le> t" "t \<le> 3" using tierMultiplier_Fin by blast
  obtain s where s: "revShare tier = Fin s" "0 < s" "s < 1" using revShare_Fin by blast
  note e = QuoteJob_eq [OF assms(1-8) t(1) s(1), of cls]
  note g = gross_bounds [OF e(2,3) t(2,3)]
  note pb = prov_bounds [OF g(2,3) s(2,3) assms(7,8)]
  show ?thesis unfolding e(1) using g(3) pb(2,3) by simp
qed

text \<open>The provider's accrual for a job is never negative and never more than what the
  consumer is charged, for every model class and tier, up to \<open>2 ^ 40\<close> tokens each way, a
  price multiplier up to 100 and a quality multiplier up to 1.\<close>

lemma provider_share_within_gross:
  fixes cls tier :: string and p c :: int and pm q :: rat
  assumes "0 \<le> p" "p \<le> 2 ^ 40" "0 \<le> c" "c \<le> 2 ^ 40" "0 < pm" "pm \<le> 100" "0 < q" "q \<le> 1"
  shows "0 \<le> ProviderMicros (QuoteJob cls tier p c (Fin pm) (Fin q)) \<and>
    ProviderMicros (QuoteJob cls tier p c (Fin pm) (Fin q)) \<le>
      GrossMicros (QuoteJob cls tier p c (Fin pm) (Fin q)) \<and>
    GrossMicros (QuoteJob cls tier p c (Fin pm) (Fin q)) \<le> 2 ^ 53"
  using assms by (rule provider_bounds)

lemma provider_share_within_gross_witness:
  "0 \<le> ProviderMicros (QuoteJob ''MICRO'' ''confidential'' 1000 500 (Fin 1) (Fin 1)) \<and>
   ProviderMicros (QuoteJob ''MICRO'' ''confidential'' 1000 500 (Fin 1) (Fin 1)) \<le>
     GrossMicros (QuoteJob ''MICRO'' ''confidential'' 1000 500 (Fin 1) (Fin 1)) \<and>
   GrossMicros (QuoteJob ''MICRO'' ''confidential'' 1000 500 (Fin 1) (Fin 1)) \<le> 2 ^ 53"
  by (rule provider_share_within_gross) simp_all

text \<open>Every stage of the quote is monotone, because rounding is.\<close>

lemma rr_mult_mono:
  "0 \<le> (x::rat) \<Longrightarrow> x \<le> y \<Longrightarrow> 0 \<le> k \<Longrightarrow> rr (x * k) \<le> rr (y * k)"
  by (intro rr_mono mult_right_mono mult_nonneg_nonneg) simp_all

lemma base_arg_mono:
  assumes "0 \<le> p" "p \<le> p'" "0 \<le> c" "c \<le> c'" "0 \<le> i" "0 \<le> q"
  shows "base_arg p i c q \<le> base_arg p' i c' q"
proof -
  have tok: "rr (rr (of_int x * of_int k) / 1000000) \<le> rr (rr (of_int y * of_int k) / 1000000)"
    if "0 \<le> x" "x \<le> y" "0 \<le> k" for x y k :: int
    using that by (intro rr_mono divide_right_mono rr_mult_mono divide_nonneg_nonneg rr_nonneg) simp_all
  have nn: "0 \<le> rr (rr (of_int x * of_int k) / 1000000)" if "0 \<le> x" "0 \<le> k" for x k :: int
    using that by (intro rr_nonneg divide_nonneg_nonneg) simp_all
  show ?thesis unfolding base_arg_def
    by (rule rr_mono [OF add_nonneg_nonneg [OF nn [OF assms(1,5)] nn [OF assms(3,6)]]
        add_mono [OF tok [OF assms(1,2,5)] tok [OF assms(3,4,6)]]])
qed

lemma base_arg_nonneg: "0 \<le> p \<Longrightarrow> 0 \<le> c \<Longrightarrow> 0 \<le> i \<Longrightarrow> 0 \<le> q \<Longrightarrow> 0 \<le> base_arg p i c q"
  unfolding base_arg_def
  by (intro rr_nonneg add_nonneg_nonneg divide_nonneg_nonneg mult_nonneg_nonneg) simp_all

lemma gross_q_mono: "0 \<le> b \<Longrightarrow> b \<le> b' \<Longrightarrow> 0 \<le> t \<Longrightarrow> gross_q b t \<le> gross_q b' t"
  unfolding gross_q_def by (intro trunc_mono rr_mult_mono rr_nonneg) simp_all

lemma prov_q_mono: "0 \<le> g \<Longrightarrow> g \<le> g' \<Longrightarrow> 0 \<le> s \<Longrightarrow> 0 \<le> q \<Longrightarrow> prov_q g s q \<le> prov_q g' s q"
  unfolding prov_q_def by (intro round_away_mono rr_mult_mono rr_nonneg mult_nonneg_nonneg) simp_all

text \<open>A job with more prompt and completion tokens never costs the consumer less and
  never pays the provider less, in spite of the floating-point rounding at each stage.\<close>

lemma QuoteJob_mono_tokens:
  fixes cls tier :: string and p p' c c' :: int and pm q :: rat
  assumes "0 \<le> p" "p \<le> p'" "p' \<le> 2 ^ 40" "0 \<le> c" "c \<le> c'" "c' \<le> 2 ^ 40"
    and "0 < pm" "pm \<le> 100" "0 < q" "q \<le> 1"
  shows "GrossMicros (QuoteJob cls tier p c (Fin pm) (Fin q)) \<le>
      GrossMicros (QuoteJob cls tier p' c' (Fin pm) (Fin q)) \<and>
    ProviderMicros (QuoteJob cls tier p c (Fin pm) (Fin q)) \<le>
      ProviderMicros (QuoteJob cls tier p' c' (Fin pm) (Fin q))"
proof -
  obtain t where t: "tierMultiplier tier = Fin t" "1 \<le> t" "t \<le> 3" using tierMultiplier_Fin by blast
  obtain s where s: "revShare tier = Fin s" "0 < s" "s < 1" using revShare_Fin by blast
  have pc: "0 \<le> p" "p \<le> 2 ^ 40" "0 \<le> c" "c \<le> 2 ^ 40" "0 \<le> p'" "0 \<le> c'" using assms by linarith+
  note e = QuoteJob_eq [OF pc(1-4) assms(7-10) t(1) s(1), of cls]
  note e' = QuoteJob_eq [OF pc(5) assms(3) pc(6) assms(6-10) t(1) s(1), of cls]
  let ?r = "fst (normalize_class cls)"
  have rq: "0 \<le> rate_q (inPerM ?r) pm" "0 \<le> rate_q (outPerM ?r) pm"
    using rate_bounds [of cls] rate_q_bounds(1) [OF _ _ assms(7,8)] by auto
  have b: "round_away (base_arg p (rate_q (inPerM ?r) pm) c (rate_q (outPerM ?r) pm))
      \<le> round_away (base_arg p' (rate_q (inPerM ?r) pm) c' (rate_q (outPerM ?r) pm))"
    using pc assms rq by (intro round_away_mono base_arg_mono base_arg_nonneg) simp_all
  note g = gross_q_mono [OF e(2) b, of t]
  show ?thesis unfolding e(1) e'(1)
    using g prov_q_mono [OF gross_bounds(2) [OF e(2,3) t(2,3)] g] t s assms(9) by simp
qed

lemma QuoteJob_mono_tokens_witness:
  "GrossMicros (QuoteJob ''XL'' ''confidential'' 10 20 (Fin 1) (Fin 1)) \<le>
     GrossMicros (QuoteJob ''XL'' ''confidential'' 11 50 (Fin 1) (Fin 1)) \<and>
   ProviderMicros (QuoteJob ''XL'' ''confidential'' 10 20 (Fin 1) (Fin 1)) \<le>
     ProviderMicros (QuoteJob ''XL'' ''confidential'' 11 50 (Fin 1) (Fin 1))"
  by (rule QuoteJob_mono_tokens) simp_all

text \<open>An unknown class is billed as SMALL, never for free.\<close>

lemma QuoteJob_unknown_class:
  assumes "to_upper (trim_space cls) \<notin> dom rateCard"
  shows "QuoteJob cls tier p c pm q = QuoteJob ''SMALL'' tier p c pm q"
proof -
  have "normalize_class ''SMALL'' = (small_rate, ''SMALL'')"
    by (simp add: normalize_class_def rateCard_def small_rate_def string_eval)
  with normalize_class_unknown [OF assms] show ?thesis unfolding QuoteJob_def by simp
qed

subsection \<open>Properties of the workload quote\<close>

lemma scaled_bounds:
  assumes "0 \<le> n" "n \<le> 2 ^ k" "0 \<le> m" "m \<le> 1" "k \<le> 62"
  shows "0 \<le> f64_to_int64 (f64_of_int n * Fin m) \<and> f64_to_int64 (f64_of_int n * Fin m) \<le> 2 ^ k"
proof -
  have n: "(0::rat) \<le> of_int n" "of_int n \<le> (2::rat) ^ k" using assms of_int_le_pow2 by simp_all
  have big: "(2::int) ^ k \<le> 2 ^ 1000" using assms(5) by (intro power_increasing) simp_all
  note r = rr_pow2_bounds [OF n]
  have rk: "0 \<le> rr (of_int n :: rat)" "rr (of_int n :: rat) \<le> 2 ^ k" using r assms(5) by simp_all
  have m: "0 \<le> rr (of_int n) * m" "rr (of_int n) * m \<le> 2 ^ k"
    using rk assms by (auto intro: order_trans [OF mult_left_le])
  note r2 = rr_pow2_bounds [OF m]
  have le: "rr (rr (of_int n) * m) \<le> of_int (2 ^ k)" using r2 assms(5) by simp
  have lt: "(2::int) ^ k < 2 ^ 63" using assms(5) by (intro power_strict_increasing) simp_all
  have "f64_of_int n * Fin m = Fin (rr (rr (of_int n) * m))"
    using f64_of_int_Fin [OF assms(1) order_trans [OF assms(2) big]] r2 assms(5)
    by (simp add: times_f64_def)
  then show ?thesis
    using f64_to_int64_Fin [OF _ le lt] r2 assms(5) trunc_nonneg trunc_le [OF _ le] by simp
qed

lemma failureRate_Fin:
  assumes "1 \<le> red" "red < 2 ^ 63"
  shows "\<exists>m. rnd (8 / 100) / f64_of_int red = Fin m \<and> 0 \<le> m \<and> m \<le> 1"
proof -
  let ?q = "5764607523034235 / 72057594037927936 :: rat"
  have le: "red \<le> 2 ^ 1000" using assms(2) by (rule order_trans [OF less_imp_le]) simp
  have one: "1 \<le> rr (of_int red :: rat)"
    using rr_ge_of_int [of 1 "of_int red"] assms by simp
  have "?q / rr (of_int red) \<le> 1" "0 \<le> ?q / rr (of_int red)"
    using one by (simp_all add: divide_le_eq)
  then have b: "0 \<le> ?q / rr (of_int red)" "?q / rr (of_int red) \<le> 2 ^ 0" by simp_all
  have "rnd (8 / 100) / f64_of_int red = Fin (rr (?q / rr (of_int red)))"
    using f64_of_int_Fin [OF _ le] assms one rr_pow2_bounds [OF b]
    by (simp add: rnd_consts divide_f64_def)
  then show ?thesis using rr_pow2_bounds [OF b] by simp
qed

lemma failure_le:
  assumes "0 \<le> n" "n \<le> 2 ^ 53" "0 \<le> m" "m \<le> 1"
  shows "0 \<le> f64_to_int64 (f64_of_int n * Fin m) \<and> f64_to_int64 (f64_of_int n * Fin m) \<le> n"
proof -
  have n: "(0::rat) \<le> of_int n" "of_int n \<le> (2::rat) ^ 53" using assms of_int_le_pow2 by simp_all
  have a: "0 \<le> of_int n * m" "of_int n * m \<le> of_int n"
    using assms n by (simp_all add: mult_left_le)
  have a': "of_int n * m \<le> 2 ^ 53" using a n by linarith
  note r = rr_pow2_bounds [OF a(1) a'] and le = rr_le_of_int [OF a assms(2)]
  have lt: "n < 2 ^ 63" using assms(2) by (rule order_le_less_trans) simp
  have "f64_of_int n * Fin m = Fin (rr (of_int n * m))"
    using f64_of_int_exact [of n] assms r by (simp add: times_f64_def)
  then show ?thesis
    using f64_to_int64_Fin [OF _ le lt] r trunc_nonneg trunc_le [OF _ le] by simp
qed

lemma marginRate_Fin:
  assumes "m \<le> 1"
  shows "\<exists>mr. (if Fin m \<le> 0 then rnd (30 / 100) else Fin m) = Fin mr \<and> 0 \<le> mr \<and> mr \<le> 1"
proof (cases "m \<le> 0")
  case True
  have "rnd (30 / 100) = Fin (5404319552844595 / 18014398509481984)" using rnd_consts(8) by simp
  with True have "(if Fin m \<le> 0 then rnd (30 / 100) else Fin m) = Fin (5404319552844595 / 18014398509481984)"
    by (simp only: f64_ops) simp
  then show ?thesis by (intro exI [of _ "5404319552844595 / 18014398509481984"]) simp
next
  case False
  with assms show ?thesis by (simp add: f64_ops)
qed

text \<open>A workload quote is its parts: with a non-negative compute cost, every component is
  non-negative, the coordination fee is 15 percent of compute rounded down, and the total is
  the exact sum of the five parts, floored at one cent; nothing overflows for any token
  count, any redundancy that fits an \<open>int\<close>, a price multiplier up to 100 and a margin rate
  up to 1.\<close>

lemma QuoteWorkload_accounts:
  fixes cls tier :: string and p c red :: int and m pm :: rat
  assumes "is_int64 red" "m \<le> 1" "0 < pm" "pm \<le> 100"
  defines "W \<equiv> QuoteWorkload cls tier p c red (Fin m) (Fin pm)"
  shows "0 \<le> ComputeMicros W \<and> CoordinationMicros W = ComputeMicros W * 15 div 100 \<and>
    0 \<le> FailureMicros W \<and> FailureMicros W \<le> ComputeMicros W \<and>
    0 \<le> MarginMicros W \<and> 0 \<le> PaymentMicros W \<and>
    TotalMicros W = max MinWorkloadMicros (ComputeMicros W + CoordinationMicros W +
      FailureMicros W + MarginMicros W + PaymentMicros W)"
proof -
  let ?red = "if red < 1 then 1 else red"
  let ?Q = "QuoteJob cls tier (clampInt (wrap64 (p * ?red))) (clampInt (wrap64 (c * ?red))) (Fin pm) (Fin 1)"
  define co where "co = ProviderMicros ?Q"
  have cl: "0 \<le> clampInt v \<and> clampInt v \<le> 2 ^ 40" for v by (simp add: clampInt_def)
  have Q: "0 \<le> co" "co \<le> 2 ^ 53"
    using provider_bounds [of "clampInt (wrap64 (p * ?red))" "clampInt (wrap64 (c * ?red))" pm 1 cls tier]
      cl assms(3,4) by (auto simp: co_def)
  have red: "1 \<le> ?red" "?red < 2 ^ 63" using assms(1) by (auto simp: is_int64_def)
  obtain fr where fr: "rnd (8 / 100) / f64_of_int ?red = Fin fr" "0 \<le> fr" "fr \<le> 1"
    using failureRate_Fin [OF red] by blast
  obtain mr where mr: "(if Fin m \<le> 0 then rnd (30 / 100) else Fin m) = Fin mr" "0 \<le> mr" "mr \<le> 1"
    using assms(2) marginRate_Fin by blast
  define fl where "fl = f64_to_int64 (f64_of_int co * Fin fr)"
  have fl: "0 \<le> fl" "fl \<le> co" "fl \<le> 2 ^ 53"
    using failure_le [OF Q fr(2,3)] Q by (simp_all add: fl_def)
  define pre where "pre = co + co * 15 div 100 + fl"
  have pre: "0 \<le> pre" "pre \<le> 2 ^ 55" using Q fl by (simp_all add: pre_def)
  define mg where "mg = f64_to_int64 (f64_of_int pre * Fin mr)"
  have mg: "0 \<le> mg" "mg \<le> 2 ^ 55" using scaled_bounds [OF pre mr(2,3)] by (simp_all add: mg_def)
  define pay where "pay = f64_to_int64 (f64_of_int (pre + mg) * paymentFeeRate)"
  have sub: "0 \<le> pre + mg" "pre + mg \<le> 2 ^ 56" using pre mg by simp_all
  have pay: "0 \<le> pay" "pay \<le> 2 ^ 56"
    using scaled_bounds [OF sub, of "8646911284551352 / 288230376151711744"]
    by (simp_all add: pay_def paymentFeeRate_def rnd_consts)
  have w: "wrap64 (co * 15) = co * 15" "wrap64 (co + co * 15 div 100) = co + co * 15 div 100"
    "wrap64 (co + co * 15 div 100 + fl) = pre" "wrap64 (pre + mg) = pre + mg"
    "wrap64 (pre + mg + pay) = pre + mg + pay"
    using Q fl pre mg pay by (auto simp: is_int64_def pre_def)
  have go_div_co: "go_div (co * 15) 100 = co * 15 div 100" using Q by simp
  have W: "W = \<lparr>ComputeMicros = co, CoordinationMicros = co * 15 div 100, FailureMicros = fl,
     PaymentMicros = pay, MarginMicros = mg,
     TotalMicros = (if pre + mg + pay < MinWorkloadMicros then MinWorkloadMicros else pre + mg + pay)\<rparr>"
    unfolding W_def QuoteWorkload_def Let_def one_f64_def fr(1) mr(1) co_def [symmetric]
      if_not_P [OF Q(1) [unfolded not_less [symmetric]]] w(1) go_div_co w(2) fl_def [symmetric]
      w(3) mg_def [symmetric] w(4) pay_def [symmetric] w(5) by (rule refl)
  show ?thesis unfolding W using Q fl mg pay by (simp add: pre_def)
qed

lemma QuoteWorkload_accounts_witness:
  "0 \<le> ComputeMicros (QuoteWorkload ''MICRO'' ''community'' 1000 500 3 (Fin 0) (Fin 1)) \<and>
   CoordinationMicros (QuoteWorkload ''MICRO'' ''community'' 1000 500 3 (Fin 0) (Fin 1)) =
     ComputeMicros (QuoteWorkload ''MICRO'' ''community'' 1000 500 3 (Fin 0) (Fin 1)) * 15 div 100"
  using QuoteWorkload_accounts [of 3 0 1 "''MICRO''" "''community''" 1000 500]
  by (simp add: is_int64_def)

text \<open>2,250 prompt tokens on a device-attested MICRO node have a base price of 45
  micro-USD, so the 1.4 multiplier makes 63 exactly; the floating-point product is just below
  63 and the conversion truncates it, so the consumer is charged 62.\<close>

theorem QuoteJob_float_shortfall:
  "GrossMicros (QuoteJob ''MICRO'' ''device_attested'' 2250 0 (Fin 1) (Fin 1)) = 62 \<and>
   GrossMicros (QuoteJob ''MICRO'' ''community'' 2250 0 (Fin 1) (Fin 1)) = 45"
proof -
  have n: "normalize_class ''MICRO'' = (\<lparr>inPerM = 20000, outPerM = 80000\<rparr>, ''MICRO'')"
    by (simp add: normalize_class_def rateCard_def string_eval)
  have exact: "rr 20000 = 20000" "rr 80000 = 80000" "rr 45000000 = 45000000" "rr 45 = 45" "rr 0 = 0"
    using rr_of_int [of 20000] rr_of_int [of 80000] rr_of_int [of 45000000] rr_of_int [of 45]
      rr_of_int [of 0] by simp_all
  have r: "rate_q 20000 1 = 20000" "rate_q 80000 1 = 80000"
    using trunc_of_int [of 20000] trunc_of_int [of 80000] by (simp_all add: rate_q_def exact)
  have b: "round_away (base_arg 2250 20000 0 80000) = 45"
    using round_away_of_int [of 45] by (simp add: base_arg_def exact)
  have t: "tierMultiplier ''device_attested'' = Fin (3152519739159347 / 2251799813685248)"
    "tierMultiplier ''community'' = Fin 1"
    by (simp_all add: tierMultiplier_def string_eval rnd_consts)
  obtain s1 s2 where s: "revShare ''device_attested'' = Fin s1" "revShare ''community'' = Fin s2"
    using revShare_Fin by metis
  have g: "gross_q 45 (3152519739159347 / 2251799813685248) = 62" "gross_q 45 1 = 45"
    using trunc_of_int [of 45] by (simp_all add: gross_q_def f64_eval exact)
  show ?thesis
    using QuoteJob_eq(1) [of 2250 0 1 1, OF _ _ _ _ _ _ _ _ t(1) s(1), of "''MICRO''"]
      QuoteJob_eq(1) [of 2250 0 1 1, OF _ _ _ _ _ _ _ _ t(2) s(2), of "''MICRO''"]
    by (simp add: n r b g)
qed

end
