(* ===== verification/Codec.thy ===== *)
theory Codec
  imports Prelude
begin

text \<open>
  The text encodings of the Go standard library the coordinator relies on, on byte strings:
  base64 (encoding/base64, \<open>StdEncoding\<close>), decimal integers and JSON string literals with HTML
  escaping off (encoding/json): a byte that is not part of a UTF-8 sequence becomes the escape of U+FFFD, the
  separators U+2028 and U+2029 are escaped, every other rune above ASCII is copied.
\<close>

subsection \<open>Base64\<close>

definition b64_char :: "nat \<Rightarrow> char" where
  "b64_char n = (if n < 26 then char_of (65 + n) else if n < 52 then char_of (71 + n)
     else if n < 62 then char_of (n - 4) else if n = 62 then CHR ''+'' else CHR ''/'')"

definition b64_val :: "char \<Rightarrow> nat option" where
  "b64_val c = (let n = of_char c :: nat in
     if 65 \<le> n \<and> n \<le> 90 then Some (n - 65) else if 97 \<le> n \<and> n \<le> 122 then Some (n - 71)
     else if 48 \<le> n \<and> n \<le> 57 then Some (n + 4) else if n = 43 then Some 62
     else if n = 47 then Some 63 else None)"

fun b64_encode :: "string \<Rightarrow> string" where
  "b64_encode [] = []"
| "b64_encode [a] = (let n = of_char a * 65536 in
     [b64_char (n div 262144), b64_char (n div 4096 mod 64), CHR ''='', CHR ''=''])"
| "b64_encode [a, b] = (let n = of_char a * 65536 + of_char b * 256 in
     [b64_char (n div 262144), b64_char (n div 4096 mod 64), b64_char (n div 64 mod 64), CHR ''=''])"
| "b64_encode (a # b # c # r) = (let n = of_char a * 65536 + of_char b * 256 + of_char c in
     b64_char (n div 262144) # b64_char (n div 4096 mod 64) # b64_char (n div 64 mod 64) #
     b64_char (n mod 64) # b64_encode r)"

text \<open>The decoder skips line breaks, reads quanta of four, and accepts padding only at the end.\<close>

fun b64_quanta :: "string \<Rightarrow> string option" where
  "b64_quanta [] = Some []"
| "b64_quanta (w # x # y # z # r) =
    (case (b64_val w, b64_val x) of
       (Some p, Some q) \<Rightarrow>
         (if y = CHR ''='' then
            (if z = CHR ''='' \<and> r = [] then Some [char_of ((p * 262144 + q * 4096) div 65536)] else None)
          else (case b64_val y of None \<Rightarrow> None | Some u \<Rightarrow>
            if z = CHR ''='' then
              (if r = [] then (let n = p * 262144 + q * 4096 + u * 64
                 in Some [char_of (n div 65536), char_of (n div 256 mod 256)]) else None)
            else (case b64_val z of None \<Rightarrow> None | Some v \<Rightarrow>
              (let n = p * 262144 + q * 4096 + u * 64 + v in
               map_option (\<lambda>s. char_of (n div 65536) # char_of (n div 256 mod 256) # char_of (n mod 256) # s)
                 (b64_quanta r)))))
     | _ \<Rightarrow> None)"
| "b64_quanta _ = None"

definition b64_decode :: "string \<Rightarrow> string option" where
  "b64_decode s = b64_quanta (filter (\<lambda>c. c \<noteq> CHR 0x0A \<and> c \<noteq> CHR 0x0D) s)"

lemma of_char_lt: "(of_char (c :: char) :: nat) < 256"
  using nat_of_char_less_256 [of c] by simp

lemma of_char_char_of: "n < 256 \<Longrightarrow> of_char (char_of n :: char) = (n :: nat)"
  by simp

lemma b64_val_char [simp]: "n < 64 \<Longrightarrow> b64_val (b64_char n) = Some n"
  by (auto simp: b64_val_def b64_char_def Let_def)

lemma b64_char_plain: "n < 64 \<Longrightarrow> b64_char n \<noteq> CHR 0x0A \<and> b64_char n \<noteq> CHR 0x0D \<and> b64_char n \<noteq> CHR ''=''"
proof -
  assume n: "n < 64"
  have "b64_val (CHR 0x0A) = None" "b64_val (CHR 0x0D) = None" "b64_val (CHR ''='') = None"
    by (simp_all add: b64_val_def)
  then show ?thesis using b64_val_char [OF n] by (metis option.distinct(1))
qed

lemma digits64:
  fixes n :: nat
  shows "n div 262144 * 262144 + n div 4096 mod 64 * 4096 + n div 64 mod 64 * 64 + n mod 64 = n"
proof -
  define a where "a = n div 64"
  define b where "b = a div 64"
  define c where "c = b div 64"
  have d: "n div 4096 = b" "n div 262144 = c"
    using div_mult2_eq [of n 64 64] div_mult2_eq [of n "64 * 64" 64] by (simp_all add: a_def b_def c_def)
  have "n = a * 64 + n mod 64" "a = b * 64 + a mod 64" "b = c * 64 + b mod 64"
    unfolding a_def b_def c_def by (rule div_mult_mod_eq [symmetric])+
  then show ?thesis unfolding d a_def [symmetric] by linarith
qed

lemma bytes3:
  fixes a b c :: nat
  assumes "a < 256" "b < 256" "c < 256"
  defines "n \<equiv> a * 65536 + b * 256 + c"
  shows "n div 262144 < 64" "n div 65536 = a" "n div 256 mod 256 = b" "n mod 256 = c"
proof -
  have "n < 64 * 262144" using assms(1-3) unfolding n_def by linarith
  then show "n div 262144 < 64" by (rule less_mult_imp_div_less)
  have "n = (b * 256 + c) + a * 65536" "b * 256 + c < 65536" using assms(2,3) by (simp_all add: n_def)
  then show "n div 65536 = a" by (metis add.right_neutral add.commute div_less div_mult_self1 zero_neq_numeral)
  have e: "n = c + (a * 256 + b) * 256" by (simp add: n_def)
  have "n div 256 = a * 256 + b" unfolding e using assms(3) by (subst div_mult_self1) simp_all
  then show "n div 256 mod 256 = b" using assms(2) by simp
  have "n mod 256 = c mod 256" unfolding e by (rule mod_mult_self1)
  then show "n mod 256 = c" using assms(3) by simp
qed

lemma digits64_one: "a * 65536 div 262144 * 262144 + a * 65536 div 4096 mod 64 * 4096 = a * (65536 :: nat)"
proof -
  have "a * 65536 = a * 1024 * 64" "a * 65536 = (a * 16) * 64 * 64" by simp_all
  then have "a * 65536 mod 64 = 0" "a * 65536 div 64 mod 64 = 0" by (metis mod_mult_self2_is_0) (simp add: mult.assoc)
  with digits64 [of "a * 65536"] show ?thesis by simp
qed

lemma digits64_two:
  "(a * 65536 + b * 256) div 262144 * 262144 + (a * 65536 + b * 256) div 4096 mod 64 * 4096 +
   (a * 65536 + b * 256) div 64 mod 64 * 64 = a * 65536 + b * (256 :: nat)"
proof -
  have "a * 65536 + b * 256 = (a * 1024 + b * 4) * 64" by simp
  then have "(a * 65536 + b * 256) mod 64 = 0" by (metis mod_mult_self2_is_0)
  with digits64 [of "a * 65536 + b * 256"] show ?thesis by simp
qed

lemma b64_encode_plain: "filter (\<lambda>c. c \<noteq> CHR 0x0A \<and> c \<noteq> CHR 0x0D) (b64_encode s) = b64_encode s"
proof (induction s rule: b64_encode.induct)
  case (2 a)
  have "of_char a * 65536 div 262144 < (64 :: nat)" using bytes3(1) [OF of_char_lt [of a], of 0 0] by simp
  then show ?case by (simp add: Let_def b64_char_plain)
next
  case (3 a b)
  have "(of_char a * 65536 + of_char b * 256) div 262144 < (64 :: nat)"
    using bytes3(1) [OF of_char_lt [of a] of_char_lt [of b], of 0] by simp
  then show ?case by (simp add: Let_def b64_char_plain)
next
  case (4 a b c r)
  have "(of_char a * 65536 + of_char b * 256 + of_char c) div 262144 < (64 :: nat)"
    by (rule bytes3(1) [OF of_char_lt of_char_lt of_char_lt])
  then show ?case using 4 by (simp add: Let_def b64_char_plain)
qed simp

lemma b64_quanta_encode: "b64_quanta (b64_encode s) = Some s"
proof (induction s rule: b64_encode.induct)
  case (2 a)
  define n :: nat where "n = of_char a * 65536"
  note b = bytes3 [OF of_char_lt [of a], of 0 0, unfolded mult_zero_left add_0_right, OF zero_less_numeral zero_less_numeral, folded n_def]
  note d = digits64_one [of "of_char a", folded n_def]
  show ?case unfolding b64_encode.simps Let_def n_def [symmetric]
    by (simp add: b64_char_plain b d)
next
  case (3 a b)
  define n :: nat where "n = of_char a * 65536 + of_char b * 256"
  note b = bytes3 [OF of_char_lt [of a] of_char_lt [of b], of 0, unfolded add_0_right, folded n_def]
  note d = digits64_two [of "of_char a" "of_char b", folded n_def]
  have "char_of (n div 256) = b" using arg_cong [OF b(3), of char_of] by simp
  then show ?case unfolding b64_encode.simps Let_def n_def [symmetric]
    by (simp add: b64_char_plain b d)
next
  case (4 a b c r)
  define n :: nat where "n = of_char a * 65536 + of_char b * 256 + of_char c"
  note b = bytes3 [OF of_char_lt [of a] of_char_lt [of b] of_char_lt [of c], folded n_def]
  note d = digits64 [of n]
  have "char_of (n div 256) = b" "char_of n = c"
    using arg_cong [OF b(3), of char_of] arg_cong [OF b(4), of char_of] by simp_all
  then show ?case unfolding b64_encode.simps Let_def n_def [symmetric]
    using 4 by (simp add: b64_char_plain b d)
qed simp

lemma b64_roundtrip: "b64_decode (b64_encode s) = Some s"
  by (simp add: b64_decode_def b64_encode_plain b64_quanta_encode)

lemma b64_encode_inj: "b64_encode s = b64_encode t \<Longrightarrow> s = t"
  by (metis b64_roundtrip option.inject)

subsection \<open>Decimal integers\<close>

fun nat_str :: "nat \<Rightarrow> string" where
  "nat_str n = (if n < 10 then [char_of (48 + n)] else nat_str (n div 10) @ [char_of (48 + n mod 10)])"

declare nat_str.simps [simp del]

definition int_str :: "int \<Rightarrow> string" where
  "int_str i = (if i < 0 then CHR ''-'' # nat_str (nat (- i)) else nat_str (nat i))"

definition is_digit :: "char \<Rightarrow> bool" where
  "is_digit c \<longleftrightarrow> (48 :: nat) \<le> of_char c \<and> of_char c \<le> (57 :: nat)"

definition dec_val :: "string \<Rightarrow> nat" where
  "dec_val s = foldl (\<lambda>n c. n * 10 + (of_char c - 48)) 0 s"

lemma nat_str_digits: "c \<in> set (nat_str n) \<Longrightarrow> is_digit c"
proof (induction n rule: nat_str.induct)
  case (1 n)
  have d: "is_digit (char_of (48 + k))" if "k < 10" for k :: nat
    using that by (simp add: is_digit_def)
  show ?case
  proof (cases "n < 10")
    case True
    then show ?thesis using 1(2) d [of n] by (simp add: nat_str.simps [of n])
  next
    case False
    then show ?thesis using 1 d [of "n mod 10"] by (auto simp: nat_str.simps [of n])
  qed
qed

lemma nat_str_not_Nil [simp]: "nat_str n \<noteq> []"
  by (simp add: nat_str.simps [of n])

lemma dec_val_nat_str: "dec_val (nat_str n) = n"
proof (induction n rule: nat_str.induct)
  case (1 n)
  show ?case
  proof (cases "n < 10")
    case True
    then show ?thesis by (simp add: nat_str.simps [of n] dec_val_def)
  next
    case False
    then show ?thesis using 1 by (simp add: nat_str.simps [of n] dec_val_def)
  qed
qed

lemma nat_str_inj: "nat_str m = nat_str n \<Longrightarrow> m = n"
  by (metis dec_val_nat_str)

text \<open>A number is uniquely readable in front of a character that cannot continue it.\<close>

lemma takeWhile_digits:
  "(\<And>c. c \<in> set s \<Longrightarrow> is_digit c) \<Longrightarrow> \<not> is_digit x \<Longrightarrow> takeWhile is_digit (s @ x # r) = s \<and> dropWhile is_digit (s @ x # r) = x # r"
  by (induction s) auto

lemma nat_str_stop:
  assumes "nat_str m @ x # r = nat_str n @ x # r'" "\<not> is_digit x"
  shows "m = n \<and> r = r'"
proof -
  have "nat_str m = nat_str n \<and> x # r = x # r'"
    using takeWhile_digits [of "nat_str m" x r] takeWhile_digits [of "nat_str n" x r'] nat_str_digits assms
    by metis
  then show ?thesis using nat_str_inj by blast
qed

lemma minus_no_digit: "\<not> is_digit (CHR ''-'')"
  by (simp add: is_digit_def)

lemma int_str_stop:
  assumes "int_str i @ x # r = int_str j @ x # r'" "\<not> is_digit x"
  shows "i = j \<and> r = r'"
proof -
  have hd: "\<exists>c s. nat_str k = c # s \<and> c \<noteq> CHR ''-''" for k
    by (metis minus_no_digit nat_str_digits nat_str_not_Nil list.exhaust list.set_intros(1))
  have no: "CHR ''-'' # s \<noteq> nat_str k @ t" for s t k
    using hd [of k] by auto
  show ?thesis
  proof (cases "i < 0"; cases "j < 0")
    assume ij: "i < 0" "j < 0"
    then show ?thesis
      using assms nat_str_stop [of "nat (- i)" x r "nat (- j)" r'] by (auto simp: int_str_def)
  next
    assume ij: "i < 0" "\<not> j < 0"
    then show ?thesis using assms(1) no by (simp add: int_str_def)
  next
    assume ij: "\<not> i < 0" "j < 0"
    then show ?thesis using assms(1) no [of "nat_str (nat (- j)) @ x # r'" "nat i" "x # r"]
      by (simp add: int_str_def)
  next
    assume ij: "\<not> i < 0" "\<not> j < 0"
    then show ?thesis
      using assms nat_str_stop [of "nat i" x r "nat j" r'] by (auto simp: int_str_def)
  qed
qed

subsection \<open>UTF-8\<close>

definition between :: "char \<Rightarrow> nat \<Rightarrow> nat \<Rightarrow> bool" where
  "between c lo hi \<longleftrightarrow> lo \<le> (of_char c :: nat) \<and> (of_char c :: nat) \<le> hi"

definition cont :: "string \<Rightarrow> bool" where
  "cont s = list_all (\<lambda>c. between c 0x80 0xBF) s"

text \<open>The width of the sequence a text starts with; 0 when it starts with none.\<close>

definition rune_width :: "string \<Rightarrow> nat" where
  "rune_width s = (case s of [] \<Rightarrow> 0 | c # r \<Rightarrow>
     if between c 0 0x7F then 1
     else if between c 0xC2 0xDF \<and> length r \<ge> 1 \<and> cont (take 1 r) then 2
     else if between c 0xE0 0xEF \<and> length r \<ge> 2 \<and> cont (take 2 r) \<and> (c = CHR 0xE0 \<longrightarrow> between (hd r) 0xA0 0xBF) \<and>
       (c = CHR 0xED \<longrightarrow> between (hd r) 0x80 0x9F) then 3
     else if between c 0xF0 0xF4 \<and> length r \<ge> 3 \<and> cont (take 3 r) \<and> (c = CHR 0xF0 \<longrightarrow> between (hd r) 0x90 0xBF) \<and>
       (c = CHR 0xF4 \<longrightarrow> between (hd r) 0x80 0x8F) then 4
     else 0)"

function utf8 :: "string \<Rightarrow> bool" where
  "utf8 s = (if s = [] then True else if rune_width s = 0 then False else utf8 (drop (rune_width s) s))"
  by pat_completeness auto
termination
  by (relation "measure length") auto

declare utf8.simps [simp del]

text \<open>The runes of a text: each is its own bytes, and a byte that starts none reads as U+FFFD. A text
  that goes through \<open>json.Marshal\<close> and \<open>json.Unmarshal\<close> comes back as \<open>clean_utf8\<close>.\<close>

definition rune_error :: string where "rune_error = [CHR 0xEF, CHR 0xBF, CHR 0xBD]"

function runes :: "string \<Rightarrow> string list" where
  "runes s = (if s = [] then [] else if rune_width s = 0 then rune_error # runes (tl s)
     else take (rune_width s) s # runes (drop (rune_width s) s))"
  by pat_completeness auto
termination
  by (relation "measure length") (auto simp: length_greater_0_conv [symmetric] simp del: length_greater_0_conv)

declare runes.simps [simp del]

definition clean_utf8 :: "string \<Rightarrow> string" where "clean_utf8 s = concat (runes s)"

lemma rune_width_le: "rune_width s \<le> length s"
  by (auto simp: rune_width_def split: list.split)

lemma rune_width_ascii [simp]: "of_char c < (128 :: nat) \<Longrightarrow> rune_width (c # s) = 1"
  by (simp add: rune_width_def between_def)

lemma utf8_Nil [simp]: "utf8 []"
  by (subst utf8.simps) simp

lemma utf8_ascii [simp]: "of_char c < (128 :: nat) \<Longrightarrow> utf8 (c # s) = utf8 s"
  by (subst utf8.simps) simp

lemma utf8_all_ascii: "list_all (\<lambda>c. of_char c < (128 :: nat)) s \<Longrightarrow> utf8 s"
  by (induction s) simp_all

lemma runes_Cons: "s \<noteq> [] \<Longrightarrow> rune_width s \<noteq> 0 \<Longrightarrow> runes s = take (rune_width s) s # runes (drop (rune_width s) s)"
  by (subst runes.simps) simp

lemma clean_utf8_Nil [simp]: "clean_utf8 [] = []"
  by (simp add: clean_utf8_def runes.simps)

lemma clean_utf8_same [simp]: "utf8 s \<Longrightarrow> clean_utf8 s = s"
proof (induction s rule: utf8.induct)
  case (1 s)
  show ?case
  proof (cases "s = []")
    case False
    then have r: "rune_width s \<noteq> 0" "utf8 (drop (rune_width s) s)" using 1(2) by (auto simp: utf8.simps [of s] split: if_splits)
    with 1(1) [OF False] show ?thesis by (simp add: clean_utf8_def runes_Cons [OF False])
  qed simp
qed

lemma clean_utf8_ascii [simp]: "of_char c < (128 :: nat) \<Longrightarrow> clean_utf8 (c # s) = c # clean_utf8 s"
  by (simp add: clean_utf8_def runes_Cons)

subsection \<open>JSON string literals\<close>

definition hexd :: "nat \<Rightarrow> char" where
  "hexd n = (if n < 10 then char_of (48 + n) else char_of (87 + n))"

definition json_esc :: "char \<Rightarrow> string" where
  "json_esc c = (let n = of_char c :: nat in
     if n = 34 then [CHR 0x5C, CHR 0x22] else if n = 92 then [CHR 0x5C, CHR 0x5C]
     else if n = 8 then [CHR 0x5C, CHR ''b''] else if n = 12 then [CHR 0x5C, CHR ''f'']
     else if n = 10 then [CHR 0x5C, CHR ''n''] else if n = 13 then [CHR 0x5C, CHR ''r'']
     else if n = 9 then [CHR 0x5C, CHR ''t'']
     else if n < 32 then CHR 0x5C # ''u00'' @ [hexd (n div 16), hexd (n mod 16)]
     else [c])"

text \<open>The text between the quotes; \<open>esc\<close> is the escape of an ASCII byte.\<close>

function json_text :: "(char \<Rightarrow> string) \<Rightarrow> string \<Rightarrow> string" where
  "json_text esc s = (case s of [] \<Rightarrow> [] | c # r \<Rightarrow>
     if of_char c < (128 :: nat) then esc c @ json_text esc r
     else if rune_width s = 0 then CHR 0x5C # ''ufffd'' @ json_text esc r
     else (let ru = take (rune_width s) s in
       (if ru = [CHR 0xE2, CHR 0x80, CHR 0xA8] then CHR 0x5C # ''u2028''
        else if ru = [CHR 0xE2, CHR 0x80, CHR 0xA9] then CHR 0x5C # ''u2029'' else ru) @ json_text esc (drop (rune_width s) s)))"
  by pat_completeness auto
termination
  by (relation "measure (\<lambda>(esc, s). length s)") auto

declare json_text.simps [simp del]

definition json_quote :: "string \<Rightarrow> string" where
  "json_quote s = CHR 0x22 # json_text json_esc s @ [CHR 0x22]"

lemma hexd_inj: "m < 16 \<Longrightarrow> n < 16 \<Longrightarrow> hexd m = hexd n \<Longrightarrow> m = n"
proof -
  have v: "k < 16 \<Longrightarrow> of_char (hexd k) = (if k < 10 then 48 + k else 87 + k :: nat)" for k :: nat
    by (simp add: hexd_def)
  assume mn: "m < 16" "n < 16" "hexd m = hexd n"
  have "(if m < 10 then 48 + m else 87 + m) = (if n < 10 then 48 + n else 87 + n)"
    using v [OF mn(1)] v [OF mn(2)] mn(3) by metis
  then show "m = n" using mn(1,2) by presburger
qed

text \<open>A plain byte, a two-byte escape, or a \<open>\u00..\<close> escape.\<close>

definition esc_pair :: "nat \<Rightarrow> char option" where
  "esc_pair n = map_of [(34, CHR 0x22), (92, CHR 0x5C), (8, CHR ''b''), (12, CHR ''f''), (10, CHR ''n''),
     (13, CHR ''r''), (9, CHR ''t'')] n"

lemma json_esc_cases:
  "json_esc c = (case esc_pair (of_char c) of Some d \<Rightarrow> [CHR 0x5C, d]
     | None \<Rightarrow> if of_char c < (32 :: nat)
         then CHR 0x5C # ''u00'' @ [hexd (of_char c div 16), hexd (of_char c mod 16)] else [c])"
  by (simp add: json_esc_def esc_pair_def Let_def)

lemma esc_pair_inj: "esc_pair m = Some d \<Longrightarrow> esc_pair n = Some d \<Longrightarrow> m = n"
  by (auto simp: esc_pair_def split: if_splits)

lemma esc_pair_not_u: "esc_pair m \<noteq> Some (CHR ''u'')"
  by (simp add: esc_pair_def)

lemma esc_pair_none: "esc_pair (of_char c) = None \<Longrightarrow> c \<noteq> CHR 0x22 \<and> c \<noteq> CHR 0x5C"
  by (auto simp: esc_pair_def)

lemma json_esc_inj:
  assumes "json_esc c @ x = json_esc d @ y"
  shows "c = d \<and> x = y"
proof -
  have lt: "of_char c div 16 < (16 :: nat)" "of_char d div 16 < (16 :: nat)"
    using of_char_lt [of c] of_char_lt [of d] by (simp_all add: div_less_iff_less_mult)
  have low: "c = d" if "hexd (of_char c div 16) = hexd (of_char d div 16)" "hexd (of_char c mod 16) = hexd (of_char d mod 16)"
  proof -
    have "of_char c div 16 = (of_char d div 16 :: nat)" "of_char c mod 16 = (of_char d mod 16 :: nat)"
      using hexd_inj [OF lt that(1)] hexd_inj [OF _ _ that(2)] by simp_all
    then have "of_char c = (of_char d :: nat)" by (metis div_mult_mod_eq)
    then show ?thesis by simp
  qed
  show ?thesis
  proof (cases "esc_pair (of_char c)"; cases "esc_pair (of_char d)")
    fix p q assume "esc_pair (of_char c) = Some p" "esc_pair (of_char d) = Some q"
    then show ?thesis using assms esc_pair_inj [of "of_char c" p "of_char d"] by (auto simp: json_esc_cases)
  next
    fix p assume "esc_pair (of_char c) = Some p" "esc_pair (of_char d) = None"
    then show ?thesis
      using assms esc_pair_not_u [of "of_char c"] esc_pair_none [of d] by (auto simp: json_esc_cases split: if_splits)
  next
    fix q assume "esc_pair (of_char c) = None" "esc_pair (of_char d) = Some q"
    then show ?thesis
      using assms esc_pair_not_u [of "of_char d"] esc_pair_none [of c] by (auto simp: json_esc_cases split: if_splits)
  next
    assume "esc_pair (of_char c) = None" "esc_pair (of_char d) = None"
    then show ?thesis
      using assms low esc_pair_none [of c] esc_pair_none [of d] by (auto simp: json_esc_cases split: if_splits)
  qed
qed

lemma json_esc_not_quote: "json_esc c @ x \<noteq> CHR 0x22 # y"
proof (cases "esc_pair (of_char c)")
  case None
  with esc_pair_none [OF this] show ?thesis by (simp add: json_esc_cases)
next
  case (Some d)
  then show ?thesis by (simp add: json_esc_cases)
qed

lemma json_text_Nil [simp]: "json_text esc [] = []"
  by (subst json_text.simps) simp

lemma json_text_ascii [simp]: "of_char c < (128 :: nat) \<Longrightarrow> json_text esc (c # s) = esc c @ json_text esc s"
  by (subst json_text.simps) simp

text \<open>The first rune of a text, and what is written for it.\<close>

definition rune_text :: "(char \<Rightarrow> string) \<Rightarrow> string \<Rightarrow> string" where
  "rune_text esc ru = (if of_char (hd ru) < (128 :: nat) then esc (hd ru)
     else if ru = [CHR 0xE2, CHR 0x80, CHR 0xA8] then CHR 0x5C # ''u2028''
     else if ru = [CHR 0xE2, CHR 0x80, CHR 0xA9] then CHR 0x5C # ''u2029'' else ru)"

lemma json_text_rune:
  assumes "s \<noteq> []" "rune_width s \<noteq> 0"
  shows "json_text esc s = rune_text esc (take (rune_width s) s) @ json_text esc (drop (rune_width s) s)"
proof (cases s)
  case (Cons c r)
  show ?thesis
  proof (cases "of_char c < (128 :: nat)")
    case True
    then show ?thesis by (simp add: Cons rune_text_def)
  next
    case False
    have "hd (take (rune_width s) s) = c" using assms(2) by (simp add: Cons hd_take)
    then show ?thesis
      using False assms(2) by (subst json_text.simps) (simp add: Cons rune_text_def Let_def)
  qed
qed (use assms(1) in simp)

text \<open>The width of a rune is read off its first byte.\<close>

definition lead_width :: "char \<Rightarrow> nat" where
  "lead_width c = (if between c 0 0x7F then 1 else if between c 0xC2 0xDF then 2 else if between c 0xE0 0xEF then 3 else 4)"

lemma rune_width_lead: "rune_width (c # r) \<noteq> 0 \<Longrightarrow> rune_width (c # r) = lead_width c"
  by (auto simp: rune_width_def lead_width_def between_def split: if_splits)

lemma rune_lead_high: "rune_width (c # r) \<noteq> 0 \<Longrightarrow> \<not> of_char c < (128 :: nat) \<Longrightarrow> 2 \<le> rune_width (c # r)"
  by (auto simp: rune_width_def between_def split: if_splits)

text \<open>The runes of a valid text, one after the other.\<close>

inductive is_rune :: "string \<Rightarrow> bool" where
  "s \<noteq> [] \<Longrightarrow> rune_width s \<noteq> 0 \<Longrightarrow> is_rune (take (rune_width s) s)"

lemma is_rune_shape: "is_rune ru \<Longrightarrow> \<exists>c cs. ru = c # cs \<and> length cs = lead_width c - 1 \<and> (of_char c < (128 :: nat) \<longrightarrow> cs = [])"
proof (erule is_rune.cases)
  fix s assume ru: "ru = take (rune_width s) s" "s \<noteq> []" "rune_width s \<noteq> 0"
  then obtain c r where s: "s = c # r" by (cases s) auto
  have "rune_width s = lead_width c" unfolding s by (rule rune_width_lead) (use ru(3) s in simp)
  moreover have "rune_width s \<le> length s" by (rule rune_width_le)
  moreover have "lead_width c = 1" if "of_char c < (128 :: nat)" using that by (simp add: lead_width_def between_def)
  ultimately show ?thesis using ru by (cases "rune_width s") (auto simp: s)
qed

lemma json_esc_head: "of_char c < (128 :: nat) \<Longrightarrow> \<exists>h t. json_esc c = h # t \<and> of_char h < (128 :: nat)"
  by (auto simp: json_esc_def Let_def)

lemma json_esc_no_u2: "json_esc c @ x \<noteq> CHR 0x5C # CHR ''u'' # CHR ''2'' # y"
  using esc_pair_not_u [of "of_char c"] esc_pair_none [of c]
  by (cases "esc_pair (of_char c)") (auto simp: json_esc_cases split: if_splits)

lemma rune_text_inj:
  assumes "is_rune a" "is_rune b" "rune_text json_esc a @ x = rune_text json_esc b @ y"
  shows "a = b \<and> x = y"
proof -
  obtain c cs where a: "a = c # cs" "length cs = lead_width c - 1" "of_char c < (128 :: nat) \<longrightarrow> cs = []"
    using is_rune_shape [OF assms(1)] by blast
  obtain d ds where b: "b = d # ds" "length ds = lead_width d - 1" "of_char d < (128 :: nat) \<longrightarrow> ds = []"
    using is_rune_shape [OF assms(2)] by blast
  show ?thesis
  proof (cases "of_char c < (128 :: nat)"; cases "of_char d < (128 :: nat)")
    assume "of_char c < (128 :: nat)" "of_char d < (128 :: nat)"
    then show ?thesis using assms(3) a b json_esc_inj [of c x d y] by (simp add: rune_text_def)
  next
    assume l: "of_char c < (128 :: nat)" "\<not> of_char d < (128 :: nat)"
    then have "json_esc c @ x = rune_text json_esc b @ y" using assms(3) a by (simp add: rune_text_def)
    then show ?thesis
      using l json_esc_head [OF l(1)] json_esc_no_u2 [of c x] b(1) by (auto simp: rune_text_def split: if_splits)
  next
    assume l: "\<not> of_char c < (128 :: nat)" "of_char d < (128 :: nat)"
    then have "json_esc d @ y = rune_text json_esc a @ x" using assms(3) b by (simp add: rune_text_def)
    then show ?thesis
      using l json_esc_head [OF l(2)] json_esc_no_u2 [of d y] a(1) by (auto simp: rune_text_def split: if_splits)
  next
    assume l: "\<not> of_char c < (128 :: nat)" "\<not> of_char d < (128 :: nat)"
    have ne: "c \<noteq> CHR 0x5C" "d \<noteq> CHR 0x5C" using l by auto
    show ?thesis using assms(3) a(1,2) b(1,2) l ne by (auto simp: rune_text_def split: if_splits)
  qed
qed

lemma rune_text_not_quote: "is_rune a \<Longrightarrow> rune_text json_esc a @ x \<noteq> CHR 0x22 # y"
proof
  assume r: "is_rune a" and eq: "rune_text json_esc a @ x = CHR 0x22 # y"
  obtain c cs where a: "a = c # cs" "of_char c < (128 :: nat) \<longrightarrow> cs = []"
    using is_rune_shape [OF r] by blast
  show False
  proof (cases "of_char c < (128 :: nat)")
    case True
    then show False using eq json_esc_not_quote [of c x y] a by (simp add: rune_text_def)
  next
    case False
    then have "c \<noteq> CHR 0x22" by auto
    then show False using eq a False by (auto simp: rune_text_def split: if_splits)
  qed
qed

lemma utf8_first:
  assumes "utf8 s" "s \<noteq> []"
  shows "rune_width s \<noteq> 0" "utf8 (drop (rune_width s) s)" "is_rune (take (rune_width s) s)"
  using assms utf8.simps [of s] by (auto intro: is_rune.intros split: if_splits)

lemma json_text_stop:
  assumes "utf8 s" "utf8 t" "json_text json_esc s @ CHR 0x22 # r = json_text json_esc t @ CHR 0x22 # r'"
  shows "s = t \<and> r = r'"
  using assms
proof (induction "length s" arbitrary: s t rule: less_induct)
  case less
  show ?case
  proof (cases "s = []"; cases "t = []")
    assume s: "s \<noteq> []" and t: "t \<noteq> []"
    note s' = utf8_first [OF less.prems(1) s] and t' = utf8_first [OF less.prems(2) t]
    have "rune_text json_esc (take (rune_width s) s) @ (json_text json_esc (drop (rune_width s) s) @ CHR 0x22 # r) =
        rune_text json_esc (take (rune_width t) t) @ (json_text json_esc (drop (rune_width t) t) @ CHR 0x22 # r')"
      using less.prems(3) by (simp add: json_text_rune [OF s s'(1)] json_text_rune [OF t t'(1)])
    from rune_text_inj [OF s'(3) t'(3) this]
    have eq: "take (rune_width s) s = take (rune_width t) t"
      "json_text json_esc (drop (rune_width s) s) @ CHR 0x22 # r = json_text json_esc (drop (rune_width t) t) @ CHR 0x22 # r'" by auto
    have "drop (rune_width s) s = drop (rune_width t) t \<and> r = r'"
      by (rule less.hyps [OF _ s'(2) t'(2) eq(2)]) (use s s'(1) in \<open>cases s, simp_all\<close>)
    with eq(1) show ?thesis by (metis append_take_drop_id)
  next
    assume s: "s \<noteq> []" and t: "t = []"
    note s' = utf8_first [OF less.prems(1) s]
    from less.prems(3) rune_text_not_quote [OF s'(3)] show ?thesis by (simp add: json_text_rune [OF s s'(1)] t)
  next
    assume s: "s = []" and t: "t \<noteq> []"
    note t' = utf8_first [OF less.prems(2) t]
    from less.prems(3) [symmetric] rune_text_not_quote [OF t'(3)] show ?thesis by (simp add: json_text_rune [OF t t'(1)] s)
  qed (use less.prems in simp)
qed

lemma json_quote_stop: "json_quote s @ r = json_quote t @ r' \<Longrightarrow> utf8 s \<Longrightarrow> utf8 t \<Longrightarrow> s = t \<and> r = r'"
  using json_text_stop [of s t r r'] by (simp add: json_quote_def)

text \<open>Outside UTF-8 the text is lost: two different bytes are written alike.\<close>

lemma json_quote_merges: "json_quote [CHR 0xFE] = json_quote [CHR 0xFF]"
  by (simp add: json_quote_def json_text.simps rune_width_def between_def)

subsection \<open>Splitting\<close>

text \<open>\<open>strings.Split\<close> on a one-byte separator.\<close>

fun split_on :: "char \<Rightarrow> string \<Rightarrow> string list" where
  "split_on c [] = [[]]"
| "split_on c (x # xs) = (if x = c then [] # split_on c xs
     else case split_on c xs of [] \<Rightarrow> [[x]] | l # ls \<Rightarrow> (x # l) # ls)"

end
