(* ===== verification/Manifest.thy ===== *)
theory Manifest
  imports Codec
begin

text \<open>
  Package \<open>manifest\<close> (coordinator/internal/manifest/manifest.go, kms.go): Workload Manifest v1,
  the Ed25519-signed authorization of one job. Ed25519, SHA-256 and the Cloud KMS call are
  arguments of the definitions; what the code relies on (a signature made with the key of a
  seed verifies under that seed's public key and has 64 bytes) is a hypothesis where used.
  \<open>int\<close> fields are integers; sums and differences of the clock values wrap.
\<close>

definition Version_v1 :: int where "Version_v1 = 1"
definition OperationInference :: string where "OperationInference = ''inference''"
definition NetworkPolicyNone :: string where "NetworkPolicyNone = ''NONE''"

record ResourceLimits =
  MaxRuntimeMS :: int
  MaxMemoryMB :: int
  MaxStorageMB :: int
  MaxInputBytes :: int
  MaxOutputTokens :: int
  MaxCPUDutyCyclePct :: int

record WorkloadManifest =
  ManifestVersion :: int
  wm_JobID :: string
  LeaseID :: string
  WorkloadID :: string
  CustomerID :: string
  DevicePK :: string
  RuntimeID :: string
  RuntimeVersion :: string
  RuntimeHash :: string
  ModelID :: string
  ModelHash :: string
  Operation :: string
  InputHash :: string
  wm_Limits :: ResourceLimits
  NetworkPolicy :: string
  wm_CreatedAt :: int
  wm_ExpiresAt :: int
  wm_Nonce :: string

record SignedManifest =
  sm_Manifest :: WorkloadManifest
  SignerID :: string
  Signature :: string

datatype manifest_error =
    Invalid string
  | KeyEncoding
  | SeedLength nat
  | KmsSign
  | KmsVerify

subsection \<open>Canonical bytes\<close>

text \<open>One member of a compact JSON object, the character after it, and the rest.\<close>

definition jint :: "string \<Rightarrow> int \<Rightarrow> char \<Rightarrow> string \<Rightarrow> string" where
  "jint k i c r = json_quote k @ CHR '':'' # int_str i @ c # r"

definition jstr :: "string \<Rightarrow> string \<Rightarrow> char \<Rightarrow> string \<Rightarrow> string" where
  "jstr k s c r = json_quote k @ CHR '':'' # json_quote s @ c # r"

definition limits_json :: "ResourceLimits \<Rightarrow> string \<Rightarrow> string" where
  "limits_json l r = CHR ''{'' #
     jint ''max_runtime_ms'' (MaxRuntimeMS l) (CHR '','') (
     jint ''max_memory_mb'' (MaxMemoryMB l) (CHR '','') (
     jint ''max_storage_mb'' (MaxStorageMB l) (CHR '','') (
     jint ''max_input_bytes'' (MaxInputBytes l) (CHR '','') (
     jint ''max_output_tokens'' (MaxOutputTokens l) (CHR '','') (
     jint ''max_cpu_duty_cycle_pct'' (MaxCPUDutyCyclePct l) (CHR ''}'') r)))))"

definition canonicalBytes :: "WorkloadManifest \<Rightarrow> string" where
  "canonicalBytes m = CHR ''{'' #
     jint ''manifest_version'' (ManifestVersion m) (CHR '','') (
     jstr ''job_id'' (wm_JobID m) (CHR '','') (
     jstr ''lease_id'' (LeaseID m) (CHR '','') (
     jstr ''workload_id'' (WorkloadID m) (CHR '','') (
     jstr ''customer_id'' (CustomerID m) (CHR '','') (
     jstr ''device_pk'' (DevicePK m) (CHR '','') (
     jstr ''runtime_id'' (RuntimeID m) (CHR '','') (
     jstr ''runtime_version'' (RuntimeVersion m) (CHR '','') (
     jstr ''runtime_hash'' (RuntimeHash m) (CHR '','') (
     jstr ''model_id'' (ModelID m) (CHR '','') (
     jstr ''model_hash'' (ModelHash m) (CHR '','') (
     jstr ''operation'' (Operation m) (CHR '','') (
     jstr ''input_hash'' (InputHash m) (CHR '','') (
     json_quote ''resource_limits'' @ CHR '':'' # limits_json (wm_Limits m) (CHR '','' # (
     jstr ''network_policy'' (NetworkPolicy m) (CHR '','') (
     jint ''created_at'' (wm_CreatedAt m) (CHR '','') (
     jint ''expires_at'' (wm_ExpiresAt m) (CHR '','') (
     jstr ''nonce'' (wm_Nonce m) (CHR ''}'') []))))))))))))))))))"

subsection \<open>Structure\<close>

definition isB64Bytes :: "string \<Rightarrow> nat \<Rightarrow> bool" where
  "isB64Bytes s n = (case b64_decode s of None \<Rightarrow> False | Some raw \<Rightarrow> length raw = n)"

definition is_hex_char :: "char \<Rightarrow> bool" where
  "is_hex_char c = (let n = of_char c :: nat in
     (48 \<le> n \<and> n \<le> 57) \<or> (97 \<le> n \<and> n \<le> 102) \<or> (65 \<le> n \<and> n \<le> 70))"

definition is_upper_hex :: "char \<Rightarrow> bool" where
  "is_upper_hex c = (let n = of_char c :: nat in 65 \<le> n \<and> n \<le> 70)"

definition isSHA256Hex :: "string \<Rightarrow> bool" where
  "isSHA256Hex s = (if length s \<noteq> 64 then False
     else if \<not> list_all is_hex_char s then False
     else \<not> list_ex is_upper_hex s)"

definition validateStructure :: "WorkloadManifest \<Rightarrow> manifest_error option" where
  "validateStructure m = (let rl = wm_Limits m in
     if ManifestVersion m \<noteq> Version_v1 then Some (Invalid ''unsupported manifest_version'')
     else if Operation m \<noteq> OperationInference then Some (Invalid ''operation not allowed'')
     else if NetworkPolicy m \<noteq> NetworkPolicyNone then Some (Invalid ''network_policy not allowed'')
     else if list_ex (\<lambda>i. i = []) [wm_JobID m, LeaseID m, WorkloadID m]
       then Some (Invalid ''missing job/lease/workload id'')
     else if \<not> isB64Bytes (DevicePK m) 32 then Some (Invalid ''device_pk must be 32 base64 bytes'')
     else if \<not> isB64Bytes (wm_Nonce m) 24 then Some (Invalid ''nonce must be 24 base64 bytes'')
     else if list_ex (\<lambda>h. \<not> isSHA256Hex h) [RuntimeHash m, ModelHash m, InputHash m]
       then Some (Invalid ''runtime/model/input hash must be lowercase sha-256'')
     else if ModelID m = [] \<or> RuntimeID m = [] then Some (Invalid ''missing runtime_id or model_id'')
     else if list_ex (\<lambda>v. v \<le> 0) [MaxRuntimeMS rl, MaxMemoryMB rl, MaxStorageMB rl, MaxInputBytes rl,
         MaxOutputTokens rl, MaxCPUDutyCyclePct rl]
       then Some (Invalid ''resource_limits values must be positive'')
     else if MaxCPUDutyCyclePct rl > 100 then Some (Invalid ''max_cpu_duty_cycle_pct over 100'')
     else None)"

subsection \<open>Signers\<close>

text \<open>\<open>prepare\<close> writes through its pointer: the stamped manifest is part of the result.\<close>

definition stamp :: "WorkloadManifest \<Rightarrow> WorkloadManifest" where
  "stamp m = m\<lparr>ManifestVersion := Version_v1, Operation := OperationInference,
     NetworkPolicy := NetworkPolicyNone\<rparr>"

definition prepare :: "WorkloadManifest \<Rightarrow> manifest_error + WorkloadManifest \<times> string" where
  "prepare m = (let m' = stamp m in
     case validateStructure m' of Some e \<Rightarrow> Inl e | None \<Rightarrow> Inr (m', canonicalBytes m'))"

record 'key LocalSigner =
  ls_id :: string
  ls_key :: 'key
  ls_pub :: string

definition NewSigner :: "(string \<Rightarrow> 'key) \<Rightarrow> ('key \<Rightarrow> string) \<Rightarrow> string \<Rightarrow> string \<Rightarrow>
    manifest_error + 'key LocalSigner option" where
  "NewSigner key_from_seed public i seedB64 =
    (if seedB64 = [] then Inr None
     else (case b64_decode seedB64 of
         None \<Rightarrow> Inl KeyEncoding
       | Some seed \<Rightarrow>
           if length seed \<noteq> 32 then Inl (SeedLength (length seed))
           else (let key = key_from_seed seed in
             Inr (Some \<lparr>ls_id = (if i = [] then ''signer-v1'' else i), ls_key = key, ls_pub = public key\<rparr>))))"

definition PublicKeyB64 :: "'key LocalSigner \<Rightarrow> string" where
  "PublicKeyB64 s = b64_encode (ls_pub s)"

definition Sign :: "('key \<Rightarrow> string \<Rightarrow> string) \<Rightarrow> 'key LocalSigner \<Rightarrow> WorkloadManifest \<Rightarrow>
    manifest_error + SignedManifest" where
  "Sign ed_sign s m = (case prepare m of
     Inl e \<Rightarrow> Inl e
   | Inr (m', cb) \<Rightarrow>
       (let sig = ed_sign (ls_key s) cb in
        Inr \<lparr>sm_Manifest = m', SignerID = ls_id s, Signature = b64_encode sig\<rparr>))"

text \<open>The KMS signer: the remote call is a partial function of the bytes.\<close>

record KMSSigner =
  ks_id :: string
  ks_pub :: string

definition KMS_Sign :: "(string \<Rightarrow> string option) \<Rightarrow> (string \<Rightarrow> string \<Rightarrow> string \<Rightarrow> bool) \<Rightarrow> KMSSigner \<Rightarrow>
    WorkloadManifest \<Rightarrow> manifest_error + SignedManifest" where
  "KMS_Sign asymmetric_sign ed_verify k m = (case prepare m of
     Inl e \<Rightarrow> Inl e
   | Inr (m', cb) \<Rightarrow>
       (case asymmetric_sign cb of
          None \<Rightarrow> Inl KmsSign
        | Some sig \<Rightarrow>
            if length sig \<noteq> 64 \<or> \<not> ed_verify (ks_pub k) cb sig then Inl KmsVerify
            else Inr \<lparr>sm_Manifest = m', SignerID = ks_id k, Signature = b64_encode sig\<rparr>))"

subsection \<open>Verification\<close>

record NodeSafetyPolicy =
  pol_MaxRuntimeMS :: int
  pol_MaxMemoryMB :: int
  pol_MaxStorageMB :: int
  pol_MaxInputBytes :: int
  pol_MaxOutputTokens :: int
  pol_MaxCPUDutyCyclePct :: int
  MaxLeaseSeconds :: int
  MaxClockSkewSeconds :: int

definition DefaultNodePolicy :: NodeSafetyPolicy where
  "DefaultNodePolicy = \<lparr>pol_MaxRuntimeMS = 120000, pol_MaxMemoryMB = 8192, pol_MaxStorageMB = 16384,
     pol_MaxInputBytes = 1048576, pol_MaxOutputTokens = 4096, pol_MaxCPUDutyCyclePct = 80,
     MaxLeaseSeconds = 300, MaxClockSkewSeconds = 30\<rparr>"

definition limits_over :: "ResourceLimits \<Rightarrow> NodeSafetyPolicy \<Rightarrow> bool" where
  "limits_over rl pol = (MaxRuntimeMS rl > pol_MaxRuntimeMS pol \<or> MaxMemoryMB rl > pol_MaxMemoryMB pol \<or>
     MaxStorageMB rl > pol_MaxStorageMB pol \<or> MaxInputBytes rl > pol_MaxInputBytes pol \<or>
     MaxOutputTokens rl > pol_MaxOutputTokens pol \<or> MaxCPUDutyCyclePct rl > pol_MaxCPUDutyCyclePct pol)"

definition check_binding :: "WorkloadManifest \<Rightarrow> NodeSafetyPolicy \<Rightarrow> string \<Rightarrow> int \<Rightarrow> manifest_error option" where
  "check_binding m pol expectedDevicePK now =
    (if expectedDevicePK \<noteq> [] \<and> DevicePK m \<noteq> expectedDevicePK then Some (Invalid ''bound to a different device'')
     else if wrap64 (now + MaxClockSkewSeconds pol) < wm_CreatedAt m then Some (Invalid ''created in the future'')
     else if now \<ge> wm_ExpiresAt m then Some (Invalid ''expired'')
     else if wrap64 (wm_ExpiresAt m - wm_CreatedAt m) > wrap64 (MaxLeaseSeconds pol + MaxClockSkewSeconds pol)
       then Some (Invalid ''lease longer than the node ceiling'')
     else if limits_over (wm_Limits m) pol then Some (Invalid ''resource_limits exceed an immutable node ceiling'')
     else None)"

definition Verify :: "(string \<Rightarrow> string \<Rightarrow> string \<Rightarrow> bool) \<Rightarrow> SignedManifest \<Rightarrow> (string \<rightharpoonup> string) \<Rightarrow>
    NodeSafetyPolicy \<Rightarrow> string \<Rightarrow> int \<Rightarrow> manifest_error option" where
  "Verify ed_verify sm trusted pol expectedDevicePK now =
    (case trusted (SignerID sm) of
       None \<Rightarrow> Some (Invalid ''unknown signer'')
     | Some pub \<Rightarrow>
         (case validateStructure (sm_Manifest sm) of
            Some e \<Rightarrow> Some e
          | None \<Rightarrow>
              (case b64_decode (Signature sm) of
                 None \<Rightarrow> Some (Invalid ''bad signature encoding'')
               | Some sig \<Rightarrow>
                   if length sig \<noteq> 64 then Some (Invalid ''bad signature encoding'')
                   else if \<not> ed_verify pub (canonicalBytes (sm_Manifest sm)) sig
                     then Some (Invalid ''signature does not verify'')
                   else check_binding (sm_Manifest sm) pol expectedDevicePK now)))"

subsection \<open>Helpers for the relay\<close>

definition Sha256Hex :: "(string \<Rightarrow> string) \<Rightarrow> string \<Rightarrow> string" where
  "Sha256Hex sha256 s = concat (map (\<lambda>c. [hexd (of_char c div 16), hexd (of_char c mod 16)]) (sha256 s))"

definition NewNonce :: "string \<Rightarrow> string" where
  "NewNonce random24 = b64_encode random24"

definition DefaultLimits :: "int \<Rightarrow> ResourceLimits" where
  "DefaultLimits maxOutputTokens =
    (let n = if maxOutputTokens \<le> 0 \<or> maxOutputTokens > 4096 then 4096 else maxOutputTokens in
     \<lparr>MaxRuntimeMS = 120000, MaxMemoryMB = 6144, MaxStorageMB = 12288, MaxInputBytes = 262144,
      MaxOutputTokens = n, MaxCPUDutyCyclePct = 75\<rparr>)"

definition LeaseSeconds :: "int \<Rightarrow> int" where
  "LeaseSeconds deadlineMS =
    (let s = go_div deadlineMS 1000;
         s1 = if s < 30 then 30 else s in
     if s1 > 240 then 240 else s1)"

subsection \<open>The signed bytes determine the manifest\<close>

text \<open>The encoder writes every byte that is no UTF-8 as the same escape, so the strings must be UTF-8
  for the bytes to name them: the strings of a manifest are read from JSON, or written in base64 or hex.\<close>

definition manifest_utf8 :: "WorkloadManifest \<Rightarrow> bool" where
  "manifest_utf8 m = list_all utf8 [wm_JobID m, LeaseID m, WorkloadID m, CustomerID m, DevicePK m, RuntimeID m,
     RuntimeVersion m, RuntimeHash m, ModelID m, ModelHash m, Operation m, InputHash m, NetworkPolicy m, wm_Nonce m]"

lemma jint_stop: "jint k i c r = jint k j c r' \<Longrightarrow> \<not> is_digit c \<Longrightarrow> i = j \<and> r = r'"
  by (auto simp: jint_def dest: int_str_stop)

lemma jstr_stop: "jstr k s c r = jstr k t c r' \<Longrightarrow> utf8 s \<Longrightarrow> utf8 t \<Longrightarrow> s = t \<and> r = r'"
  by (auto simp: jstr_def dest: json_quote_stop)

lemma no_digit: "\<not> is_digit (CHR '','')" "\<not> is_digit (CHR ''}'')"
  by (simp_all add: is_digit_def)

lemmas jint_comma = jint_stop [OF _ no_digit(1)] and jint_brace = jint_stop [OF _ no_digit(2)]

lemma limits_json_stop:
  assumes "limits_json l r = limits_json l' r'"
  shows "l = l' \<and> r = r'"
proof -
  note s = assms [unfolded limits_json_def, THEN list.inject [THEN iffD1], THEN conjunct2]
  note s1 = jint_comma [OF s]
  note s2 = jint_comma [OF s1 [THEN conjunct2]]
  note s3 = jint_comma [OF s2 [THEN conjunct2]]
  note s4 = jint_comma [OF s3 [THEN conjunct2]]
  note s5 = jint_comma [OF s4 [THEN conjunct2]]
  note s6 = jint_brace [OF s5 [THEN conjunct2]]
  show ?thesis
    using s1 s2 s3 s4 s5 s6 by (cases l; cases l') simp
qed

lemma canonicalBytes_inj_aux:
  assumes "canonicalBytes m = canonicalBytes n" "manifest_utf8 m" "manifest_utf8 n"
  shows "m = n"
proof -
  have u: "utf8 (wm_JobID m)" "utf8 (LeaseID m)" "utf8 (WorkloadID m)" "utf8 (CustomerID m)" "utf8 (DevicePK m)"
    "utf8 (RuntimeID m)" "utf8 (RuntimeVersion m)" "utf8 (RuntimeHash m)" "utf8 (ModelID m)"
    "utf8 (ModelHash m)" "utf8 (Operation m)" "utf8 (InputHash m)" "utf8 (NetworkPolicy m)" "utf8 (wm_Nonce m)"
    using assms(2) by (simp_all add: manifest_utf8_def)
  have v: "utf8 (wm_JobID n)" "utf8 (LeaseID n)" "utf8 (WorkloadID n)" "utf8 (CustomerID n)" "utf8 (DevicePK n)"
    "utf8 (RuntimeID n)" "utf8 (RuntimeVersion n)" "utf8 (RuntimeHash n)" "utf8 (ModelID n)"
    "utf8 (ModelHash n)" "utf8 (Operation n)" "utf8 (InputHash n)" "utf8 (NetworkPolicy n)" "utf8 (wm_Nonce n)"
    using assms(3) by (simp_all add: manifest_utf8_def)
  note s0 = assms(1) [unfolded canonicalBytes_def, THEN list.inject [THEN iffD1], THEN conjunct2]
  note s1 = jint_comma [OF s0]
  note s2 = jstr_stop [OF s1 [THEN conjunct2] u(1) v(1)]
  note s3 = jstr_stop [OF s2 [THEN conjunct2] u(2) v(2)]
  note s4 = jstr_stop [OF s3 [THEN conjunct2] u(3) v(3)]
  note s5 = jstr_stop [OF s4 [THEN conjunct2] u(4) v(4)]
  note s6 = jstr_stop [OF s5 [THEN conjunct2] u(5) v(5)]
  note s7 = jstr_stop [OF s6 [THEN conjunct2] u(6) v(6)]
  note s8 = jstr_stop [OF s7 [THEN conjunct2] u(7) v(7)]
  note s9 = jstr_stop [OF s8 [THEN conjunct2] u(8) v(8)]
  note s10 = jstr_stop [OF s9 [THEN conjunct2] u(9) v(9)]
  note s11 = jstr_stop [OF s10 [THEN conjunct2] u(10) v(10)]
  note s12 = jstr_stop [OF s11 [THEN conjunct2] u(11) v(11)]
  note s13 = jstr_stop [OF s12 [THEN conjunct2] u(12) v(12)]
  have lits: "utf8 ''resource_limits''" by simp
  note s14 = json_quote_stop [OF s13 [THEN conjunct2] lits lits]
  note s15 = limits_json_stop [OF s14 [THEN conjunct2, THEN list.inject [THEN iffD1], THEN conjunct2]]
  note s16 = jstr_stop [OF s15 [THEN conjunct2, THEN list.inject [THEN iffD1], THEN conjunct2] u(13) v(13)]
  note s17 = jint_comma [OF s16 [THEN conjunct2]]
  note s18 = jint_comma [OF s17 [THEN conjunct2]]
  note s19 = jstr_stop [OF s18 [THEN conjunct2] u(14) v(14)]
  show ?thesis
    using s1 s2 s3 s4 s5 s6 s7 s8 s9 s10 s11 s12 s13 s15 s16 s17 s18 s19 [THEN conjunct1]
    by (cases m; cases n) simp
qed

text \<open>C18: the signature covers the whole manifest: two manifests whose strings are valid UTF-8 have the
  same canonical bytes exactly when they agree in every field (no field can be altered, moved into
  another one by an embedded quote or comma, or dropped without changing what was signed). Strings
  that are not UTF-8 are outside the claim: the encoder writes their bad bytes as U+FFFD, so two such
  manifests can be signed alike (lemma \<open>bad_utf8_merges\<close>).\<close>

theorem canonicalBytes_inj:
  assumes "manifest_utf8 m" "manifest_utf8 n"
  shows "canonicalBytes m = canonicalBytes n \<longleftrightarrow> m = n"
  using assms by (auto dest: canonicalBytes_inj_aux)

text \<open>A tenant named with a quote and a two-byte rune is told from the one without, the rest alike.\<close>

definition utf8_manifest :: "string \<Rightarrow> WorkloadManifest" where
  "utf8_manifest c = \<lparr>ManifestVersion = 1, wm_JobID = ''j'', LeaseID = ''l'', WorkloadID = ''w'', CustomerID = c,
     DevicePK = ''p'', RuntimeID = ''r'', RuntimeVersion = [], RuntimeHash = ''h'', ModelID = ''m'', ModelHash = ''h'',
     Operation = ''inference'', InputHash = ''h'', wm_Limits = \<lparr>MaxRuntimeMS = 1, MaxMemoryMB = 1, MaxStorageMB = 1,
       MaxInputBytes = 1, MaxOutputTokens = 1, MaxCPUDutyCyclePct = 1\<rparr>,
     NetworkPolicy = ''NONE'', wm_CreatedAt = 1, wm_ExpiresAt = 2, wm_Nonce = ''n''\<rparr>"

lemma canonicalBytes_inj_witness:
  "canonicalBytes (utf8_manifest [CHR 0xC3, CHR 0xA9, CHR 0x22]) \<noteq> canonicalBytes (utf8_manifest [CHR 0xC3, CHR 0xA9])"
proof -
  have "utf8 [CHR 0xC3, CHR 0xA9, CHR 0x22]" "utf8 [CHR 0xC3, CHR 0xA9]"
    by (simp_all add: utf8.simps rune_width_def between_def cont_def)
  then have "manifest_utf8 (utf8_manifest [CHR 0xC3, CHR 0xA9, CHR 0x22])" "manifest_utf8 (utf8_manifest [CHR 0xC3, CHR 0xA9])"
    by (simp_all add: manifest_utf8_def utf8_manifest_def)
  from canonicalBytes_inj [OF this] show ?thesis by (simp add: utf8_manifest_def)
qed

lemma bad_utf8_merges: "canonicalBytes (utf8_manifest [CHR 0xFE]) = canonicalBytes (utf8_manifest [CHR 0xFF])"
  by (simp add: canonicalBytes_def utf8_manifest_def jstr_def jint_def json_quote_merges)

subsection \<open>Signing and verifying\<close>

lemma isB64Bytes_encode [simp]: "isB64Bytes (b64_encode s) n \<longleftrightarrow> length s = n"
  by (simp add: isB64Bytes_def b64_roundtrip)

lemma hexd_lower: "n < 16 \<Longrightarrow> is_hex_char (hexd n) \<and> \<not> is_upper_hex (hexd n)"
proof -
  assume n: "n < 16"
  have "of_char (hexd n) = (if n < 10 then 48 + n else 87 + n :: nat)" using n by (simp add: hexd_def)
  then show ?thesis using n unfolding is_hex_char_def is_upper_hex_def Let_def by (simp split: if_splits)
qed

lemma isSHA256Hex_Sha256Hex [simp]: "isSHA256Hex (Sha256Hex h s) \<longleftrightarrow> length (h s) = 32"
proof -
  let ?f = "\<lambda>c. [hexd (of_char c div 16), hexd (of_char c mod 16)]"
  have len: "length (concat (map ?f xs)) = 2 * length xs" for xs by (induction xs) simp_all
  have lt: "of_char c div 16 < (16 :: nat)" for c
    using of_char_lt [of c] by (simp add: div_less_iff_less_mult)
  have "list_all is_hex_char (concat (map ?f xs)) \<and> \<not> list_ex is_upper_hex (concat (map ?f xs))" for xs
    by (induction xs) (simp_all add: hexd_lower lt)
  then show ?thesis by (simp add: isSHA256Hex_def Sha256Hex_def len)
qed

lemma prepare_ok: "prepare m = Inr (m', cb) \<longleftrightarrow>
    m' = stamp m \<and> validateStructure m' = None \<and> cb = canonicalBytes m'"
  by (auto simp: prepare_def Let_def split: option.splits)

text \<open>Once the signature is one the trusted key accepts, only the binding checks are left.\<close>

lemma Verify_signed:
  assumes "trusted (SignerID sm) = Some pub" "validateStructure (sm_Manifest sm) = None"
    "Signature sm = b64_encode sig" "length sig = 64" "ed_verify pub (canonicalBytes (sm_Manifest sm)) sig"
  shows "Verify ed_verify sm trusted pol dev now = check_binding (sm_Manifest sm) pol dev now"
  using assms by (simp add: Verify_def b64_roundtrip)

definition clock_ok :: "int \<Rightarrow> bool" where
  "clock_ok t \<longleftrightarrow> 0 \<le> t \<and> t < 2 ^ 62"

lemma check_binding_iff:
  assumes "clock_ok now" "clock_ok (wm_CreatedAt m)" "clock_ok (wm_ExpiresAt m)"
    "clock_ok (MaxLeaseSeconds pol)" "clock_ok (MaxClockSkewSeconds pol)"
  shows "check_binding m pol dev now = None \<longleftrightarrow>
     (dev = [] \<or> DevicePK m = dev) \<and> wm_CreatedAt m \<le> now + MaxClockSkewSeconds pol \<and> now < wm_ExpiresAt m \<and>
     wm_ExpiresAt m - wm_CreatedAt m \<le> MaxLeaseSeconds pol + MaxClockSkewSeconds pol \<and>
     \<not> limits_over (wm_Limits m) pol"
  using assms by (auto simp: check_binding_def clock_ok_def is_int64_def)

lemma NewSigner_ok:
  "NewSigner kfs public i seedB = Inr (Some s) \<longleftrightarrow>
     seedB \<noteq> [] \<and> (\<exists>seed. b64_decode seedB = Some seed \<and> length seed = 32 \<and>
       s = \<lparr>ls_id = (if i = [] then ''signer-v1'' else i), ls_key = kfs seed, ls_pub = public (kfs seed)\<rparr>)"
  by (auto simp: NewSigner_def Let_def split: option.splits)

definition sample_manifest :: WorkloadManifest where
  "sample_manifest = \<lparr>ManifestVersion = 0, wm_JobID = ''j1'', LeaseID = ''j1'', WorkloadID = ''j1'', CustomerID = [],
     DevicePK = b64_encode (replicate 32 (CHR ''d'')), RuntimeID = ''llama.cpp'', RuntimeVersion = ''v0'',
     RuntimeHash = replicate 64 (CHR ''a''), ModelID = ''m'', ModelHash = replicate 64 (CHR ''b''),
     Operation = [], InputHash = replicate 64 (CHR ''0''), wm_Limits = DefaultLimits 16, NetworkPolicy = [],
     wm_CreatedAt = 1000, wm_ExpiresAt = 1100, wm_Nonce = b64_encode (replicate 24 (CHR ''n''))\<rparr>"

lemma sample_manifest_valid: "validateStructure (stamp sample_manifest) = None"
  by (simp add: validateStructure_def stamp_def sample_manifest_def Version_v1_def OperationInference_def
      NetworkPolicyNone_def isSHA256Hex_def is_hex_char_def is_upper_hex_def DefaultLimits_def Let_def
      list_all_iff list_ex_iff)

lemma signed_verifies:
  assumes "NewSigner kfs public i seedB = Inr (Some s)"
    and "\<And>seed msg. ed_verify (public (kfs seed)) msg (ed_sign (kfs seed) msg)"
    and "\<And>key msg. length (ed_sign key msg) = 64"
    and "Sign ed_sign s m = Inr sm" "trusted (ls_id s) = Some (ls_pub s)"
    and "clock_ok now" "clock_ok (wm_CreatedAt m)" "clock_ok (wm_ExpiresAt m)"
    and "clock_ok (MaxLeaseSeconds pol)" "clock_ok (MaxClockSkewSeconds pol)"
  shows "sm_Manifest sm = stamp m \<and> (Verify ed_verify sm trusted pol dev now = None \<longleftrightarrow>
     (dev = [] \<or> DevicePK m = dev) \<and> wm_CreatedAt m \<le> now + MaxClockSkewSeconds pol \<and> now < wm_ExpiresAt m \<and>
     wm_ExpiresAt m - wm_CreatedAt m \<le> MaxLeaseSeconds pol + MaxClockSkewSeconds pol \<and>
     \<not> limits_over (wm_Limits m) pol)"
proof -
  obtain m' cb where p: "prepare m = Inr (m', cb)"
    using assms(4) by (auto simp: Sign_def split: sum.splits)
  then have m': "m' = stamp m" "validateStructure m' = None" "cb = canonicalBytes m'"
    by (auto simp: prepare_ok)
  have sm: "sm = \<lparr>sm_Manifest = m', SignerID = ls_id s, Signature = b64_encode (ed_sign (ls_key s) cb)\<rparr>"
    using assms(4) p by (simp add: Sign_def Let_def)
  obtain seed where "ls_key s = kfs seed" "ls_pub s = public (kfs seed)"
    using assms(1) by (auto simp: NewSigner_ok)
  then have "Verify ed_verify sm trusted pol dev now = check_binding m' pol dev now"
    using Verify_signed [of trusted sm "ls_pub s" "ed_sign (ls_key s) cb" ed_verify pol dev now] assms(2,3,5) m' sm
    by simp
  then show ?thesis
    using check_binding_iff [of now m' pol dev] assms(6-10) m'(1) sm by (simp add: stamp_def)
qed

text \<open>C19: a manifest signed with a key made by \<open>NewSigner\<close> is accepted by a node that trusts the
  signer's public key exactly while its lease runs: right device, not from the future, not
  expired, lease and limits within the node's own ceilings; \<open>Sign\<close> changes nothing but the
  version, operation and network policy it stamps.\<close>

theorem Sign_Verify:
  assumes "NewSigner kfs public i seedB = Inr (Some s)"
    and "\<And>seed msg. ed_verify (public (kfs seed)) msg (ed_sign (kfs seed) msg)"
    and "\<And>key msg. length (ed_sign key msg) = 64"
    and "Sign ed_sign s m = Inr sm" "trusted (ls_id s) = Some (ls_pub s)"
    and "clock_ok now" "clock_ok (wm_CreatedAt m)" "clock_ok (wm_ExpiresAt m)"
    and "clock_ok (MaxLeaseSeconds pol)" "clock_ok (MaxClockSkewSeconds pol)"
  shows "sm_Manifest sm = stamp m \<and> (Verify ed_verify sm trusted pol dev now = None \<longleftrightarrow>
     (dev = [] \<or> DevicePK m = dev) \<and> wm_CreatedAt m \<le> now + MaxClockSkewSeconds pol \<and> now < wm_ExpiresAt m \<and>
     wm_ExpiresAt m - wm_CreatedAt m \<le> MaxLeaseSeconds pol + MaxClockSkewSeconds pol \<and>
     \<not> limits_over (wm_Limits m) pol)"
  by (rule signed_verifies) (fact assms)+

lemma Sign_Verify_witness:
  "\<exists>sm. Sign (\<lambda>k msg. replicate 64 (CHR ''s'')) \<lparr>ls_id = ''signer-v1'', ls_key = replicate 32 (CHR ''k''),
       ls_pub = replicate 32 (CHR ''k'')\<rparr> sample_manifest = Inr sm \<and>
     Verify (\<lambda>pub msg sig. sig = replicate 64 (CHR ''s'')) sm [''signer-v1'' \<mapsto> replicate 32 (CHR ''k'')]
       DefaultNodePolicy [] 1050 = None"
proof -
  let ?s = "\<lparr>ls_id = ''signer-v1'', ls_key = replicate 32 (CHR ''k''), ls_pub = replicate 32 (CHR ''k'')\<rparr>"
  have ne: "b64_encode (replicate 32 (CHR ''k'')) \<noteq> []"
    using b64_roundtrip [of "replicate 32 (CHR ''k'')"] by (auto simp: b64_decode_def)
  have new: "NewSigner (\<lambda>s. s) (\<lambda>k. k) [] (b64_encode (replicate 32 (CHR ''k''))) = Inr (Some ?s)"
    by (simp add: NewSigner_ok b64_roundtrip ne)
  define sm where "sm = \<lparr>sm_Manifest = stamp sample_manifest, SignerID = ''signer-v1'',
    Signature = b64_encode (replicate 64 (CHR ''s''))\<rparr>"
  have sg: "Sign (\<lambda>k msg. replicate 64 (CHR ''s'')) ?s sample_manifest = Inr sm"
    by (simp add: Sign_def prepare_def Let_def sample_manifest_valid sm_def)
  have c: "clock_ok (1050 :: int)" "clock_ok (wm_CreatedAt sample_manifest)" "clock_ok (wm_ExpiresAt sample_manifest)"
    "clock_ok (MaxLeaseSeconds DefaultNodePolicy)" "clock_ok (MaxClockSkewSeconds DefaultNodePolicy)"
    by (simp_all add: clock_ok_def sample_manifest_def DefaultNodePolicy_def)
  have "Verify (\<lambda>pub msg sig. sig = replicate 64 (CHR ''s'')) sm [''signer-v1'' \<mapsto> replicate 32 (CHR ''k'')]
       DefaultNodePolicy [] 1050 = None"
    by (subst Sign_Verify [OF new _ _ sg _ c, THEN conjunct2])
      (simp_all add: sample_manifest_def DefaultNodePolicy_def limits_over_def DefaultLimits_def)
  with sg show ?thesis by blast
qed

text \<open>Whatever the remote key service answers (an error, a wrong or short signature), the KMS
  signer either fails or returns a manifest whose signature a node trusting its cached public
  key accepts: the outcome of verification is then the binding checks alone.\<close>

theorem KMS_Sign_trusted:
  assumes "KMS_Sign asymmetric_sign ed_verify k m = Inr sm" "trusted (ks_id k) = Some (ks_pub k)"
  shows "sm_Manifest sm = stamp m \<and>
     Verify ed_verify sm trusted pol dev now = check_binding (stamp m) pol dev now"
proof -
  obtain m' cb where p: "prepare m = Inr (m', cb)"
    using assms(1) by (auto simp: KMS_Sign_def split: sum.splits)
  then have m': "m' = stamp m" "validateStructure m' = None" "cb = canonicalBytes m'"
    by (auto simp: prepare_ok)
  obtain sig where sig: "length sig = 64" "ed_verify (ks_pub k) cb sig"
    "sm = \<lparr>sm_Manifest = m', SignerID = ks_id k, Signature = b64_encode sig\<rparr>"
    using assms(1) p by (auto simp: KMS_Sign_def split: option.splits if_splits)
  then show ?thesis
    using Verify_signed [of trusted sm "ks_pub k" sig ed_verify pol dev now] assms(2) m' by simp
qed

lemma KMS_Sign_trusted_witness:
  "\<exists>sm. KMS_Sign (\<lambda>cb. Some (replicate 64 (CHR ''s''))) (\<lambda>pub msg sig. True) \<lparr>ks_id = ''kms'', ks_pub = ''k''\<rparr>
       sample_manifest = Inr sm \<and> sm_Manifest sm = stamp sample_manifest"
proof -
  have "KMS_Sign (\<lambda>cb. Some (replicate 64 (CHR ''s''))) (\<lambda>pub msg sig. True) \<lparr>ks_id = ''kms'', ks_pub = ''k''\<rparr>
      sample_manifest = Inr \<lparr>sm_Manifest = stamp sample_manifest, SignerID = ''kms'',
        Signature = b64_encode (replicate 64 (CHR ''s''))\<rparr>"
    by (simp add: KMS_Sign_def prepare_def Let_def sample_manifest_valid)
  from KMS_Sign_trusted [OF this, of "[''kms'' \<mapsto> ''k'']", simplified] this show ?thesis by auto
qed

subsection \<open>The coordinator's own envelope\<close>

lemma DefaultLimits_within: "\<not> limits_over (DefaultLimits n) DefaultNodePolicy"
  by (simp add: limits_over_def DefaultLimits_def DefaultNodePolicy_def Let_def)

lemma DefaultLimits_positive:
  "list_all (\<lambda>v. 0 < v) [MaxRuntimeMS (DefaultLimits n), MaxMemoryMB (DefaultLimits n), MaxStorageMB (DefaultLimits n),
     MaxInputBytes (DefaultLimits n), MaxOutputTokens (DefaultLimits n), MaxCPUDutyCyclePct (DefaultLimits n)] \<and>
   MaxCPUDutyCyclePct (DefaultLimits n) \<le> 100"
  by (simp add: DefaultLimits_def Let_def)

lemma LeaseSeconds_bounds: "30 \<le> LeaseSeconds d \<and> LeaseSeconds d \<le> 240"
  by (simp add: LeaseSeconds_def Let_def)

end
