(* ===== verification/Capability.thy ===== *)
theory Capability
  imports Float64 "HOL-Library.Word"
begin

text \<open>
  Package \<open>capability\<close> (coordinator/internal/capability/capability.go): the score of a
  self-benchmark in Ayni Compute Units, the thermal decay, the coarse class and the
  clamping of a report on ingest. \<open>uint64\<close> RAM is a 64-bit word, \<open>float64\<close> is \<open>f64\<close>.
\<close>

record Fingerprint =
  fp_Model :: string
  fp_Backend :: string
  PrefillTPS :: f64
  DecodeTPS :: f64
  SustainedStartTPS :: f64
  SustainedEndTPS :: f64
  MemBandwidthGBps :: f64
  AvailableRAMMB :: "64 word"
  CPUCores :: int
  fp_ThermalState :: string

definition refSustainedTPS :: f64 where "refSustainedTPS = Fin 14"
definition refMemGBps :: f64 where "refMemGBps = Fin 12"
definition refCores :: f64 where "refCores = Fin 8"
definition refRAMMB :: f64 where "refRAMMB = Fin 6000"

definition clamp :: "f64 \<Rightarrow> f64 \<Rightarrow> f64 \<Rightarrow> f64" where
  "clamp v lo hi = math_Max lo (math_Min hi v)"

definition round2 :: "f64 \<Rightarrow> f64" where
  "round2 v = math_Round (v * Fin 100) / Fin 100"

definition ACU :: "Fingerprint \<Rightarrow> f64" where
  "ACU fp = (let tps = SustainedEndTPS fp;
       tps = (if tps \<le> 0 then DecodeTPS fp else tps);
       cores = f64_of_int (CPUCores fp);
       cores = (if cores \<le> 0 then refCores else cores);
       ram = f64_of_int (uint (AvailableRAMMB fp));
       ram = (if ram \<le> 0 then refRAMMB else ram);
       mem = MemBandwidthGBps fp;
       mem = (if mem \<le> 0 then refMemGBps else mem);
       acu = rnd (70 / 100) * (tps / refSustainedTPS) + rnd (15 / 100) * (mem / refMemGBps) +
             rnd (8 / 100) * (cores / refCores) + rnd (7 / 100) * (ram / refRAMMB)
     in clamp (round2 acu) (rnd (2 / 100)) (Fin 1000))"

definition ThermalDecayPct :: "Fingerprint \<Rightarrow> f64" where
  "ThermalDecayPct fp =
    (if SustainedStartTPS fp \<le> 0 \<or> SustainedEndTPS fp \<le> 0 then 0
     else let d = (SustainedStartTPS fp - SustainedEndTPS fp) / SustainedStartTPS fp * Fin 100
          in round2 (clamp d 0 (Fin 100)))"

definition Class :: "Fingerprint \<Rightarrow> string" where
  "Class fp = (let acu = ACU fp in
     if acu < rnd (4 / 10) then ''M1''
     else if acu < rnd (8 / 10) then ''M2''
     else if acu < rnd (15 / 10) then ''M3''
     else if acu < Fin 3 then ''M4''
     else ''M5'')"

definition Round2 :: "f64 \<Rightarrow> f64" where "Round2 v = round2 v"

definition maxTPS :: f64 where "maxTPS = Fin 1000000"
definition maxMemGBps :: f64 where "maxMemGBps = Fin 10000"
definition maxRAMMB :: "64 word" where "maxRAMMB = push_bit 20 8"
definition maxCPUCores :: int where "maxCPUCores = 4096"

definition zeroIfNaN :: "f64 \<Rightarrow> f64" where
  "zeroIfNaN v = (if v = NaN then 0 else v)"

definition Sanitize :: "Fingerprint \<Rightarrow> Fingerprint" where
  "Sanitize fp = (let
     fp = fp\<lparr>PrefillTPS := zeroIfNaN (PrefillTPS fp), DecodeTPS := zeroIfNaN (DecodeTPS fp),
       SustainedStartTPS := zeroIfNaN (SustainedStartTPS fp),
       SustainedEndTPS := zeroIfNaN (SustainedEndTPS fp),
       MemBandwidthGBps := zeroIfNaN (MemBandwidthGBps fp)\<rparr>;
     fp = fp\<lparr>PrefillTPS := clamp (PrefillTPS fp) 0 maxTPS,
       DecodeTPS := clamp (DecodeTPS fp) 0 maxTPS,
       SustainedStartTPS := clamp (SustainedStartTPS fp) 0 maxTPS,
       SustainedEndTPS := clamp (SustainedEndTPS fp) 0 maxTPS,
       MemBandwidthGBps := clamp (MemBandwidthGBps fp) 0 maxMemGBps\<rparr>;
     fp = (if AvailableRAMMB fp > maxRAMMB then fp\<lparr>AvailableRAMMB := maxRAMMB\<rparr> else fp);
     fp = (if CPUCores fp < 0 then fp\<lparr>CPUCores := 0\<rparr>
           else if CPUCores fp > maxCPUCores then fp\<lparr>CPUCores := maxCPUCores\<rparr> else fp)
   in fp)"

subsection \<open>Clamping\<close>

lemma clamp_bounds:
  assumes "v \<noteq> NaN" "lo \<le> hi"
  shows "\<exists>q. clamp v (Fin lo) (Fin hi) = Fin q \<and> lo \<le> q \<and> q \<le> hi"
  using assms by (cases v) (auto simp: clamp_def math_Max_def math_Min_def f64_ops)

lemma clamp_id: "lo \<le> q \<Longrightarrow> q \<le> hi \<Longrightarrow> clamp (Fin q) (Fin lo) (Fin hi) = Fin q"
  by (auto simp: clamp_def math_Max_def math_Min_def f64_ops)

lemma clamp_in:
  assumes "v \<noteq> NaN" "0 \<le> hi" "hi \<le> 2 ^ k"
  shows "f64_in k (clamp v 0 (Fin hi))"
  using clamp_bounds [OF assms(1,2)] assms(3) by (auto simp: zero_f64_def)

lemma zeroIfNaN_not_NaN [simp]: "zeroIfNaN v \<noteq> NaN"
  by (simp add: zeroIfNaN_def zero_f64_def)

lemma clamp_zeroIfNaN_idem:
  assumes "0 \<le> hi"
  shows "clamp (zeroIfNaN (clamp (zeroIfNaN v) 0 (Fin hi))) 0 (Fin hi) = clamp (zeroIfNaN v) 0 (Fin hi)"
proof -
  obtain q where q: "clamp (zeroIfNaN v) (Fin 0) (Fin hi) = Fin q" "0 \<le> q" "q \<le> hi"
    using clamp_bounds [OF zeroIfNaN_not_NaN assms] by blast
  then show ?thesis by (simp add: zero_f64_def zeroIfNaN_def clamp_id)
qed

lemma maxRAMMB_val: "maxRAMMB = 8388608"
  by (simp add: maxRAMMB_def push_bit_eq_mult)

lemma Sanitize_fields:
  "PrefillTPS (Sanitize fp) = clamp (zeroIfNaN (PrefillTPS fp)) 0 maxTPS"
  "DecodeTPS (Sanitize fp) = clamp (zeroIfNaN (DecodeTPS fp)) 0 maxTPS"
  "SustainedStartTPS (Sanitize fp) = clamp (zeroIfNaN (SustainedStartTPS fp)) 0 maxTPS"
  "SustainedEndTPS (Sanitize fp) = clamp (zeroIfNaN (SustainedEndTPS fp)) 0 maxTPS"
  "MemBandwidthGBps (Sanitize fp) = clamp (zeroIfNaN (MemBandwidthGBps fp)) 0 maxMemGBps"
  "AvailableRAMMB (Sanitize fp) = min (AvailableRAMMB fp) maxRAMMB"
  "CPUCores (Sanitize fp) = max 0 (min (CPUCores fp) maxCPUCores)"
  "fp_Model (Sanitize fp) = fp_Model fp" "fp_Backend (Sanitize fp) = fp_Backend fp"
  "fp_ThermalState (Sanitize fp) = fp_ThermalState fp"
  by (cases fp; auto simp: Sanitize_def Let_def min_def max_def maxCPUCores_def not_less)+

lemma Sanitize_bounds:
  "f64_in 20 (PrefillTPS (Sanitize fp))" "f64_in 20 (DecodeTPS (Sanitize fp))"
  "f64_in 20 (SustainedStartTPS (Sanitize fp))" "f64_in 20 (SustainedEndTPS (Sanitize fp))"
  "f64_in 14 (MemBandwidthGBps (Sanitize fp))" "uint (AvailableRAMMB (Sanitize fp)) \<le> 8388608"
  "0 \<le> CPUCores (Sanitize fp)" "CPUCores (Sanitize fp) \<le> 4096"
proof -
  show "uint (AvailableRAMMB (Sanitize fp)) \<le> 8388608"
    by (auto simp: Sanitize_fields min_def maxRAMMB_val word_le_def not_le word_less_def)
qed (simp_all add: Sanitize_fields clamp_in maxTPS_def maxMemGBps_def maxCPUCores_def)

lemma Sanitize_idem: "Sanitize (Sanitize fp) = Sanitize fp"
  by (rule Fingerprint.equality)
     (simp_all only: Sanitize_fields maxTPS_def maxMemGBps_def,
      simp_all add: clamp_zeroIfNaN_idem maxCPUCores_def)

text \<open>\<open>Sanitize\<close> puts every numeric claim of a report inside the physical ceilings,
  whatever was sent (NaN and infinities included), and running it twice changes nothing, so
  storage and scoring see the same report.\<close>

lemma Sanitize_bounds_idem:
  "f64_in 20 (PrefillTPS (Sanitize fp)) \<and> f64_in 20 (DecodeTPS (Sanitize fp)) \<and>
   f64_in 20 (SustainedStartTPS (Sanitize fp)) \<and> f64_in 20 (SustainedEndTPS (Sanitize fp)) \<and>
   f64_in 14 (MemBandwidthGBps (Sanitize fp)) \<and> uint (AvailableRAMMB (Sanitize fp)) \<le> 8388608 \<and>
   0 \<le> CPUCores (Sanitize fp) \<and> CPUCores (Sanitize fp) \<le> 4096 \<and>
   Sanitize (Sanitize fp) = Sanitize fp"
  using Sanitize_bounds [of fp] Sanitize_idem [of fp] by blast

subsection \<open>The score\<close>

lemma round2_not_NaN: "f64_in k v \<Longrightarrow> k \<le> 900 \<Longrightarrow> round2 v \<noteq> NaN"
proof -
  assume v: "f64_in k v" "k \<le> 900"
  have "f64_in 7 (Fin 100)" by simp
  from f64_in_mult [OF v(1) this] v(2) obtain q where "v * Fin 100 = Fin q" by (auto elim: f64_inE)
  then show ?thesis by (auto simp: round2_def divide_f64_def rnd_def Let_def)
qed

lemma weight_in: "0 \<le> w \<Longrightarrow> w \<le> 1 \<Longrightarrow> f64_in k v \<Longrightarrow> 1 \<le> d \<Longrightarrow> k \<le> 100 \<Longrightarrow> f64_in k (rnd w * (v / Fin d))"
  using f64_in_mult [of 0 "rnd w" k "v / Fin d"] f64_in_rnd [of w 0] f64_in_div [of k v d] by simp

lemma rr_pow2_bound_02: "rnd (2 / 100) = Fin (rr (2 / 100)) \<and> rr (2 / 100) \<le> 1000"
  using rnd_Fin [of "2 / 100"] rr_le_pow2 [of "2 / 100" 0] by simp

lemma ACU_range:
  assumes "f64_in 30 (SustainedEndTPS fp)" "f64_in 30 (DecodeTPS fp)" "f64_in 30 (MemBandwidthGBps fp)"
    and "uint (AvailableRAMMB fp) \<le> 2 ^ 30" "0 \<le> CPUCores fp" "CPUCores fp \<le> 2 ^ 30"
  shows "\<exists>q. ACU fp = Fin q \<and> rr (2 / 100) \<le> q \<and> q \<le> 1000"
proof -
  define tps where "tps = (if SustainedEndTPS fp \<le> 0 then DecodeTPS fp else SustainedEndTPS fp)"
  define cores where "cores = (if f64_of_int (CPUCores fp) \<le> 0 then refCores else f64_of_int (CPUCores fp))"
  define ram where "ram = (if f64_of_int (uint (AvailableRAMMB fp)) \<le> 0 then refRAMMB
    else f64_of_int (uint (AvailableRAMMB fp)))"
  define mem where "mem = (if MemBandwidthGBps fp \<le> 0 then refMemGBps else MemBandwidthGBps fp)"
  have i: "f64_in 30 tps" "f64_in 30 cores" "f64_in 30 ram" "f64_in 30 mem"
    using assms f64_in_of_int [of "CPUCores fp" 30] f64_in_of_int [of "uint (AvailableRAMMB fp)" 30]
    by (simp_all add: tps_def cores_def ram_def mem_def refCores_def refRAMMB_def refMemGBps_def)
  have w: "f64_in 30 (rnd (70 / 100) * (tps / refSustainedTPS))"
    "f64_in 30 (rnd (15 / 100) * (mem / refMemGBps))"
    "f64_in 31 (rnd (8 / 100) * (cores / refCores))" "f64_in 32 (rnd (7 / 100) * (ram / refRAMMB))"
    unfolding refSustainedTPS_def refMemGBps_def refCores_def refRAMMB_def
    using i by (auto intro!: weight_in intro: f64_in_mono)
  let ?sum = "rnd (70 / 100) * (tps / refSustainedTPS) + rnd (15 / 100) * (mem / refMemGBps) +
      rnd (8 / 100) * (cores / refCores) + rnd (7 / 100) * (ram / refRAMMB)"
  have "f64_in 33 ?sum"
    using f64_in_add [OF f64_in_add [OF f64_in_add [OF w(1,2)], simplified, OF w(3)], simplified, OF w(4)] by simp
  then have nn: "round2 ?sum \<noteq> NaN" by (rule round2_not_NaN) simp
  have lo: "rnd (2 / 100) = Fin (rr (2 / 100))" "rr (2 / 100) \<le> 1000"
    using rr_pow2_bound_02 by simp_all
  have "ACU fp = clamp (round2 ?sum) (rnd (2 / 100)) (Fin 1000)"
    unfolding ACU_def Let_def tps_def cores_def ram_def mem_def by (rule refl)
  then show ?thesis using clamp_bounds [OF nn lo(2)] lo(1) by simp
qed

text \<open>Once sanitised, every report has a finite score between 0.02 and 1000, so no report
  can make a score NaN or push the quotes, the fan-out weights or the public capacity figure
  outside that range.\<close>

theorem ACU_sanitized_range:
  "\<exists>q. ACU (Sanitize fp) = Fin q \<and> rr (2 / 100) \<le> q \<and> q \<le> 1000"
  using Sanitize_bounds [of fp] by (intro ACU_range) (auto elim: f64_in_mono)

end
