(* ===== verification/Protocol.thy ===== *)
theory Protocol
  imports Capability
begin

text \<open>
  Package \<open>protocol\<close> (coordinator/internal/protocol): the frames exchanged with provider
  nodes and the wire format, \<open>Marshal\<close> and \<open>Parse\<close>. JSON is modelled at the level of
  values: an object is the list of its members in textual order, \<open>json.Unmarshal\<close> into a
  struct visits the members in that order, matches keys case-insensitively and keeps the
  last match, as encoding/json does. The byte syntax of JSON is not modelled.
\<close>

subsection \<open>Messages\<close>

definition Version :: string where "Version = ''0''"

definition TypeRegister :: string where "TypeRegister = ''register''"
definition TypeRegisterAck :: string where "TypeRegisterAck = ''register_ack''"
definition TypeHeartbeat :: string where "TypeHeartbeat = ''heartbeat''"
definition TypeHeartbeatAck :: string where "TypeHeartbeatAck = ''heartbeat_ack''"
definition TypeModelPull :: string where "TypeModelPull = ''model_pull''"
definition TypeModelReady :: string where "TypeModelReady = ''model_ready''"
definition TypeJobRequest :: string where "TypeJobRequest = ''job_request''"
definition TypeJobChunk :: string where "TypeJobChunk = ''job_chunk''"
definition TypeJobDone :: string where "TypeJobDone = ''job_done''"
definition TypeJobError :: string where "TypeJobError = ''job_error''"
definition TypeCancel :: string where "TypeCancel = ''cancel''"
definition TypeBenchmarkReport :: string where "TypeBenchmarkReport = ''benchmark_report''"

lemmas type_defs = TypeRegister_def TypeRegisterAck_def TypeHeartbeat_def TypeHeartbeatAck_def
  TypeModelPull_def TypeModelReady_def TypeJobRequest_def TypeJobChunk_def TypeJobDone_def
  TypeJobError_def TypeCancel_def TypeBenchmarkReport_def

definition SealAlg :: string where "SealAlg = ''crypto_box-x25519-xsalsa20poly1305''"

record Envelope =
  V :: string
  env_Type :: string
  env_ID :: string
  Re :: string
  TS :: int

record 'raw Frame =
  Env :: Envelope
  Raw :: 'raw

record SealedPayload =
  Alg :: string
  EPK :: string
  Nonce :: string
  Ciphertext :: string

record SecurityCapabilities =
  HardwareKey :: bool
  SecureBoot :: bool
  MeasuredBoot :: bool
  RuntimeAttested :: bool
  ConfidentialMemory :: bool
  ConfidentialGPU :: bool

record Capabilities =
  Platform :: string
  Arch :: string
  CPU :: string
  GPU :: string
  RAMMB :: int
  VRAMMB :: int
  Backend :: string
  HardwareClass :: string
  MaxContext :: int
  Models :: "string list"
  Security :: SecurityCapabilities

record Telemetry =
  ActiveJobs :: int
  QueueDepth :: int
  CPULoad :: f64
  MemAvailableMB :: int
  ThermalState :: string
  BatteryPct :: "int option"
  Charging :: "bool option"
  Network :: string

record Usage =
  PromptTokens :: int
  CompletionTokens :: int
  TotalTokens :: int

record 'raw Attestation =
  Kind :: string
  Evidence :: "'raw"

record 'raw Register =
  Agent :: string
  RegistrationToken :: string
  StaticPK :: string
  reg_Capabilities :: Capabilities
  reg_Attestation :: "'raw Attestation option"
  ResumeProviderID :: string

record Heartbeat =
  hb_Telemetry :: Telemetry

record ModelReady =
  mr_Model :: string
  mr_OK :: bool
  mr_Error :: string
  mr_SHA256 :: string
  mr_Bytes :: int

record JobChunk =
  jc_JobID :: string
  jc_Sealed :: SealedPayload

record JobDone =
  jd_JobID :: string
  jd_Usage :: Usage
  jd_FinishReason :: string
  jd_DurationMS :: int
  jd_PrefillTPS :: f64
  jd_DecodeTPS :: f64

record JobError =
  je_JobID :: string
  je_Code :: string
  je_Message :: string

record BenchmarkReport =
  br_Model :: string
  br_Backend :: string
  br_PrefillTPS :: f64
  br_DecodeTPS :: f64
  br_ContextTested :: int
  br_SampleMS :: int
  br_SustainedSeconds :: int
  br_SustainedStartTPS :: f64
  br_SustainedEndTPS :: f64
  br_MemBandwidthGBps :: f64
  br_AvailableRAMMB :: "64 word"
  br_AvailableStorageMB :: "64 word"
  br_CPUCores :: int
  br_ThermalState :: string

record RegisterAck =
  ra_OK :: bool
  ra_Error :: string
  ra_ProviderID :: string
  ra_TrustTier :: string
  ra_AcceptedModels :: "string list"
  ra_HeartbeatSeconds :: int
  ra_CoordinatorPK :: string

record HeartbeatAck =
  ServerTS :: int
  Directive :: string

record 'raw JobRequest =
  jr_JobID :: string
  jr_Model :: string
  jr_DeadlineMS :: int
  jr_Sealed :: SealedPayload
  jr_Manifest :: "'raw option"

record Cancel =
  cn_JobID :: string
  cn_Reason :: string

record ChatMessage =
  Role :: string
  Content :: string

record SamplingParams =
  MaxTokens :: int
  Temperature :: "f64 option"
  TopP :: "f64 option"
  TopK :: "int option"
  RepeatPenalty :: "f64 option"
  Stop :: "string list"
  Seed :: "int option"

record JobRequestPlaintext =
  jrp_JobID :: string
  jrp_Model :: string
  jrp_Messages :: "ChatMessage list"
  jrp_Params :: SamplingParams
  jrp_Stream :: bool

record JobChunkPlaintext =
  jcp_JobID :: string
  jcp_Seq :: int
  jcp_Delta :: string
  jcp_Done :: bool

subsection \<open>JSON values\<close>

datatype json = JNull | JBool bool | JNum rat | JStr string | JArr "json list"
  | JObj "(string \<times> json) list"

type_synonym obj = "(string \<times> json) list"

text \<open>Decoding one member into a Go field: null leaves it, a wrong kind is an error.\<close>

fun dec_string :: "json \<Rightarrow> string \<Rightarrow> string option" where
  "dec_string (JStr s) _ = Some s"
| "dec_string JNull old = Some old"
| "dec_string _ _ = None"

fun dec_int64 :: "json \<Rightarrow> int \<Rightarrow> int option" where
  "dec_int64 (JNum q) _ = (if of_int \<lfloor>q\<rfloor> = q \<and> is_int64 \<lfloor>q\<rfloor> then Some \<lfloor>q\<rfloor> else None)"
| "dec_int64 JNull old = Some old"
| "dec_int64 _ _ = None"

definition env_zero :: Envelope where
  "env_zero = \<lparr>V = [], env_Type = [], env_ID = [], Re = [], TS = 0\<rparr>"

definition dec_member :: "string \<times> json \<Rightarrow> Envelope \<Rightarrow> Envelope option" where
  "dec_member kv e = (case kv of (k, v) \<Rightarrow>
     if equal_fold k ''v'' then map_option (\<lambda>s. e\<lparr>V := s\<rparr>) (dec_string v (V e))
     else if equal_fold k ''type'' then map_option (\<lambda>s. e\<lparr>env_Type := s\<rparr>) (dec_string v (env_Type e))
     else if equal_fold k ''id'' then map_option (\<lambda>s. e\<lparr>env_ID := s\<rparr>) (dec_string v (env_ID e))
     else if equal_fold k ''re'' then map_option (\<lambda>s. e\<lparr>Re := s\<rparr>) (dec_string v (Re e))
     else if equal_fold k ''ts'' then map_option (\<lambda>n. e\<lparr>TS := n\<rparr>) (dec_int64 v (TS e))
     else Some e)"

primrec dec_members :: "obj \<Rightarrow> Envelope \<Rightarrow> Envelope option" where
  "dec_members [] e = Some e"
| "dec_members (kv # m) e = Option.bind (dec_member kv e) (dec_members m)"

fun unmarshal_envelope :: "json \<Rightarrow> Envelope option" where
  "unmarshal_envelope (JObj m) = dec_members m env_zero"
| "unmarshal_envelope JNull = Some env_zero"
| "unmarshal_envelope _ = None"

subsection \<open>Marshal and Parse\<close>

datatype wire_error = MarshalPayload | NotAnObject | NilMapPanic | NoTypeField | ParseEnvelope
  | UnsupportedVersion string | MissingType

text \<open>Encoding a Go map of raw members writes its keys in byte order.\<close>

definition encode_map :: "(string \<rightharpoonup> json) \<Rightarrow> string list \<Rightarrow> json" where
  "encode_map m ks = JObj (map (\<lambda>k. (k, the (m k))) (sort_by str_less ks))"

text \<open>The payload argument is what \<open>json.Marshal\<close> makes of the struct; \<open>None\<close> is its error.
  A payload that encodes to null leaves the member map nil, and the first assignment to it
  panics.\<close>

definition Marshal ::
  "json option \<Rightarrow> string \<Rightarrow> string \<Rightarrow> int \<Rightarrow> wire_error + json" where
  "Marshal payload re uuid now = (case payload of
     None \<Rightarrow> Inl MarshalPayload
   | Some (JObj b) \<Rightarrow>
       (let m = map_of (rev b);
            m = m(''v'' \<mapsto> JStr Version);
            m = m(''id'' \<mapsto> JStr uuid);
            m = m(''ts'' \<mapsto> JNum (of_int now));
            m = (if re \<noteq> [] then m(''re'' \<mapsto> JStr re) else m);
            keys = remdups (''v'' # ''id'' # ''ts'' # (if re \<noteq> [] then [''re''] else []) @ map fst b)
        in if m ''type'' = None then Inl NoTypeField else Inr (encode_map m keys))
   | Some JNull \<Rightarrow> Inl NilMapPanic
   | Some _ \<Rightarrow> Inl NotAnObject)"

definition Parse :: "json option \<Rightarrow> wire_error + json Frame" where
  "Parse raw = (case raw of None \<Rightarrow> Inl ParseEnvelope
   | Some j \<Rightarrow> (case unmarshal_envelope j of
       None \<Rightarrow> Inl ParseEnvelope
     | Some env \<Rightarrow>
         if V env \<noteq> Version then Inl (UnsupportedVersion (V env))
         else if env_Type env = [] then Inl MissingType
         else Inr \<lparr>Env = env, Raw = j\<rparr>))"

subsection \<open>Decoding picks out the unique member of each name\<close>

text \<open>A key that names one of the envelope's fields.\<close>

definition env_keys :: "string list" where
  "env_keys = [''v'', ''type'', ''id'', ''re'', ''ts'']"

definition field_of :: "string \<Rightarrow> string option" where
  "field_of k = find (\<lambda>f. equal_fold k f) env_keys"

text \<open>No two members of the object fall into the same field of the envelope.\<close>

definition unambiguous :: "string list \<Rightarrow> bool" where
  "unambiguous ks \<longleftrightarrow> (\<forall>k \<in> set ks. field_of k = None \<or> field_of k = Some k)"

definition obj_string :: "(string \<rightharpoonup> json) \<Rightarrow> string \<Rightarrow> string" where
  "obj_string m k = (case m k of Some (JStr s) \<Rightarrow> s | _ \<Rightarrow> [])"

lemma env_keys_fold [simp]:
  "f \<in> set env_keys \<Longrightarrow> g \<in> set env_keys \<Longrightarrow> equal_fold f g \<longleftrightarrow> f = g"
  by (auto simp: env_keys_def equal_fold_def to_lower_def to_lower_char_def Let_def)

lemma dec_member_other:
  assumes "field_of k = None"
  shows "dec_member (k, v) e = Some e"
  using assms by (auto simp: dec_member_def field_of_def env_keys_def find_None_iff)

lemma dec_member_key:
  "dec_member (''v'', JStr s) e = Some (e\<lparr>V := s\<rparr>)"
  "dec_member (''type'', JStr s) e = Some (e\<lparr>env_Type := s\<rparr>)"
  "dec_member (''id'', JStr s) e = Some (e\<lparr>env_ID := s\<rparr>)"
  "dec_member (''re'', JStr s) e = Some (e\<lparr>Re := s\<rparr>)"
  "is_int64 n \<Longrightarrow> dec_member (''ts'', JNum (of_int n)) e = Some (e\<lparr>TS := n\<rparr>)"
  by (simp_all add: dec_member_def equal_fold_def to_lower_def to_lower_char_def Let_def)

lemma field_of_cases:
  "field_of k = None \<or> k \<in> set env_keys" if "field_of k = None \<or> field_of k = Some k"
  using that by (auto simp: field_of_def find_Some_iff)

lemma field_of_env_key: "k \<in> set env_keys \<Longrightarrow> field_of k = Some k"
  by (auto simp: field_of_def env_keys_def equal_fold_def to_lower_def to_lower_char_def Let_def)

lemma dec_members_map:
  assumes "distinct ks" "unambiguous ks"
    and "\<And>k. k \<in> set ks \<Longrightarrow> k \<in> {''v'', ''type'', ''id'', ''re''} \<Longrightarrow> m k = Some (JStr (f k))"
    and "''ts'' \<in> set ks \<Longrightarrow> m ''ts'' = Some (JNum (of_int n)) \<and> is_int64 n"
  shows "dec_members (map (\<lambda>k. (k, the (m k))) ks) e = Some
    \<lparr>V = (if ''v'' \<in> set ks then f ''v'' else V e),
     env_Type = (if ''type'' \<in> set ks then f ''type'' else env_Type e),
     env_ID = (if ''id'' \<in> set ks then f ''id'' else env_ID e),
     Re = (if ''re'' \<in> set ks then f ''re'' else Re e),
     TS = (if ''ts'' \<in> set ks then n else TS e)\<rparr>"
  using assms
proof (induction ks arbitrary: e)
  case Nil
  then show ?case by simp
next
  case (Cons k ks)
  have IH: "dec_members (map (\<lambda>k. (k, the (m k))) ks) e' = Some
    \<lparr>V = (if ''v'' \<in> set ks then f ''v'' else V e'),
     env_Type = (if ''type'' \<in> set ks then f ''type'' else env_Type e'),
     env_ID = (if ''id'' \<in> set ks then f ''id'' else env_ID e'),
     Re = (if ''re'' \<in> set ks then f ''re'' else Re e'),
     TS = (if ''ts'' \<in> set ks then n else TS e')\<rparr>" for e'
    using Cons by (auto simp: unambiguous_def)
  have "field_of k = None \<or> k \<in> set env_keys"
    using Cons.prems(2) field_of_cases by (auto simp: unambiguous_def)
  then consider "field_of k = None" "k \<notin> set env_keys" | "k \<in> set env_keys"
    using field_of_env_key by force
  then show ?case
  proof cases
    case 1
    then show ?thesis using IH by (auto simp: dec_member_other env_keys_def)
  next
    case 2
    then have "k = ''v'' \<or> k = ''type'' \<or> k = ''id'' \<or> k = ''re'' \<or> k = ''ts''"
      by (auto simp: env_keys_def)
    then show ?thesis
      using IH Cons.prems(1,3,4) by (elim disjE) (auto simp: dec_member_key)
  qed
qed

text \<open>The wire format round-trips: a payload object whose keys do not collide with the
  envelope's up to case, marshalled and parsed again, comes back as a frame that carries the
  protocol version, the payload's type, the fresh id, the echoed id and the time stamp.\<close>

lemma Marshal_Parse_roundtrip:
  assumes "unambiguous (map fst b)" "distinct (map fst b)" "map_of b ''type'' = Some (JStr t)" "t \<noteq> []"
    and "is_int64 now" "''re'' \<notin> set (map fst b)"
  shows "\<exists>j. Marshal (Some (JObj b)) re uuid now = Inr j \<and>
    Parse (Some j) = Inr \<lparr>Env = \<lparr>V = Version, env_Type = t, env_ID = uuid, Re = re, TS = now\<rparr>, Raw = j\<rparr>"
proof -
  define m where "m = (let m = (map_of (rev b))(''v'' \<mapsto> JStr Version, ''id'' \<mapsto> JStr uuid, ''ts'' \<mapsto> JNum (of_int now))
    in if re \<noteq> [] then m(''re'' \<mapsto> JStr re) else m)"
  define ks where "ks = remdups (''v'' # ''id'' # ''ts'' # (if re \<noteq> [] then [''re''] else []) @ map fst b)"
  let ?f = "\<lambda>k. if k = ''v'' then Version else if k = ''type'' then t else if k = ''id'' then uuid else re"
  have rb: "map_of (rev b) = map_of b" using assms(2) by (rule map_of_rev_distinct)
  have mt: "m ''type'' = Some (JStr t)" using assms(3) rb by (simp add: m_def Let_def)
  have M: "Marshal (Some (JObj b)) re uuid now = Inr (encode_map m ks)"
    using mt unfolding Marshal_def m_def ks_def Let_def by (simp del: remdups.simps)
  have tb: "''type'' \<in> set (map fst b)" using assms(3) by (metis map_of_eq_None_iff option.distinct(1) image_set)
  have u: "unambiguous (sort_by str_less ks)"
    using assms(1) by (auto simp: ks_def unambiguous_def field_of_env_key env_keys_def split: if_splits)
  have "dec_members (map (\<lambda>k. (k, the (m k))) (sort_by str_less ks)) env_zero = Some
    \<lparr>V = Version, env_Type = t, env_ID = uuid, Re = re, TS = now\<rparr>"
  proof (subst dec_members_map [where f = ?f and n = now, OF _ u])
    have in_ks: "''v'' \<in> set ks" "''id'' \<in> set ks" "''ts'' \<in> set ks" "''type'' \<in> set ks"
      "''re'' \<in> set ks \<longleftrightarrow> re \<noteq> []" using tb assms(6) by (auto simp: ks_def)
    have mk: "m ''v'' = Some (JStr Version)" "m ''id'' = Some (JStr uuid)"
      "m ''ts'' = Some (JNum (of_int now))" "re \<noteq> [] \<Longrightarrow> m ''re'' = Some (JStr re)"
      by (simp_all add: m_def Let_def)
    show "distinct (sort_by str_less ks)" by (simp add: ks_def)
    show "m k = Some (JStr (?f k))"
      if "k \<in> set (sort_by str_less ks)" "k \<in> {''v'', ''type'', ''id'', ''re''}" for k
      using that mk mt in_ks by (elim insertE emptyE) simp_all
    show "''ts'' \<in> set (sort_by str_less ks) \<Longrightarrow> m ''ts'' = Some (JNum (of_int now)) \<and> is_int64 now"
      using mk assms(5) by simp
    show "Some \<lparr>V = if ''v'' \<in> set (sort_by str_less ks) then ?f ''v'' else V env_zero,
       env_Type = if ''type'' \<in> set (sort_by str_less ks) then ?f ''type'' else env_Type env_zero,
       env_ID = if ''id'' \<in> set (sort_by str_less ks) then ?f ''id'' else env_ID env_zero,
       Re = if ''re'' \<in> set (sort_by str_less ks) then ?f ''re'' else Re env_zero,
       TS = if ''ts'' \<in> set (sort_by str_less ks) then now else TS env_zero\<rparr> =
      Some \<lparr>V = Version, env_Type = t, env_ID = uuid, Re = re, TS = now\<rparr>"
      using in_ks by (simp add: env_zero_def)
  qed
  then show ?thesis
    using M assms(4) by (simp add: Parse_def encode_map_def)
qed

lemma Marshal_Parse_roundtrip_witness:
  "\<exists>j. Marshal (Some (JObj [(''type'', JStr ''cancel''), (''job_id'', JStr ''j1'')])) ''r'' ''u'' 7 = Inr j \<and>
    Parse (Some j) = Inr \<lparr>Env = \<lparr>V = Version, env_Type = ''cancel'', env_ID = ''u'', Re = ''r'', TS = 7\<rparr>, Raw = j\<rparr>"
  by (rule Marshal_Parse_roundtrip)
     (simp_all add: unambiguous_def field_of_def env_keys_def equal_fold_def to_lower_def
        to_lower_char_def Let_def is_int64_def)

text \<open>A frame of another protocol version or without a type is refused.\<close>

lemma Parse_ok_iff:
  "Parse raw = Inr f \<longleftrightarrow> (\<exists>j env. raw = Some j \<and> unmarshal_envelope j = Some env \<and>
     V env = Version \<and> env_Type env \<noteq> [] \<and> f = \<lparr>Env = env, Raw = j\<rparr>)"
  by (auto simp: Parse_def split: option.splits if_splits)

end
