(* ===== verification/Box.thy ===== *)
theory Box
  imports Codec Protocol
begin

text \<open>
  Package \<open>crypto\<close> (coordinator/internal/crypto/box.go): the sealed-payload envelope around
  NaCl \<open>crypto_box\<close>. The box primitives of golang.org/x/crypto and the random source are
  arguments; keys, nonces and ciphertexts are byte strings.
\<close>

record KeyPair =
  Public :: string
  Secret :: string

datatype key_error = KeyDecode | KeyLength nat

definition Zero :: "KeyPair \<Rightarrow> KeyPair" where
  "Zero k = k\<lparr>Secret := map (\<lambda>_. CHR 0x00) (Secret k)\<rparr>"

definition ParsePublicKey :: "string \<Rightarrow> key_error + string" where
  "ParsePublicKey b64 = (case b64_decode b64 of
     None \<Rightarrow> Inl KeyDecode
   | Some raw \<Rightarrow> if length raw \<noteq> 32 then Inl (KeyLength (length raw)) else Inr raw)"

definition EncodeKey :: "string \<Rightarrow> string" where "EncodeKey k = b64_encode k"

text \<open>\<open>nonce\<close> is what the random source gives, \<open>None\<close> its failure.\<close>

definition Seal :: "(string \<Rightarrow> string \<Rightarrow> string \<Rightarrow> string \<Rightarrow> string) \<Rightarrow> string option \<Rightarrow>
    string \<Rightarrow> string \<Rightarrow> string \<Rightarrow> string \<Rightarrow> SealedPayload option" where
  "Seal box_seal nonce plaintext recipientPub senderSecret epkToEmbed = (case nonce of
     None \<Rightarrow> None
   | Some n \<Rightarrow> (let sealed = box_seal plaintext n recipientPub senderSecret in
       Some \<lparr>Alg = SealAlg, EPK = b64_encode epkToEmbed, Nonce = b64_encode n,
         Ciphertext = b64_encode sealed\<rparr>))"

text \<open>Every failure is the one error \<open>ErrDecrypt\<close>, here \<open>None\<close>.\<close>

definition Open :: "(string \<Rightarrow> string \<Rightarrow> string \<Rightarrow> string \<Rightarrow> string option) \<Rightarrow> SealedPayload \<Rightarrow>
    string \<Rightarrow> string \<Rightarrow> string option" where
  "Open box_open p senderPub recipientSecret =
    (if Alg p \<noteq> SealAlg then None
     else (case b64_decode (Nonce p) of
         None \<Rightarrow> None
       | Some nonceRaw \<Rightarrow>
           if length nonceRaw \<noteq> 24 then None
           else (case b64_decode (Ciphertext p) of
               None \<Rightarrow> None
             | Some ct \<Rightarrow> box_open ct nonceRaw senderPub recipientSecret)))"

lemma ParsePublicKey_EncodeKey: "length k = 32 \<Longrightarrow> ParsePublicKey (EncodeKey k) = Inr k"
  by (simp add: ParsePublicKey_def EncodeKey_def b64_roundtrip)

lemma ParsePublicKey_length: "ParsePublicKey s = Inr k \<Longrightarrow> length k = 32"
  by (auto simp: ParsePublicKey_def split: option.splits if_splits)

lemma Zero_wipes: "Public (Zero k) = Public k \<and> Secret (Zero k) = replicate (length (Secret k)) (CHR 0x00)"
  by (simp add: Zero_def map_replicate_const)

text \<open>A payload sealed to a key pair is opened by its owner, and nothing about the envelope
  around the box can be changed unnoticed: a payload with the sealed one's nonce and ciphertext
  opens to the plaintext only with the right algorithm name.\<close>

lemma Open_Seal:
  assumes "\<And>m n. length n = 24 \<Longrightarrow> box_open (box_seal m n rpub ssec) n spub rsec = Some m"
    and "Seal box_seal (Some nonce) plaintext rpub ssec epk = Some p" "length nonce = 24"
  shows "Open box_open p spub rsec = Some plaintext \<and> EPK p = EncodeKey epk \<and>
     (\<forall>alg. Open box_open (p\<lparr>Alg := alg\<rparr>) spub rsec = (if alg = SealAlg then Some plaintext else None))"
proof -
  have p: "p = \<lparr>Alg = SealAlg, EPK = b64_encode epk, Nonce = b64_encode nonce,
      Ciphertext = b64_encode (box_seal plaintext nonce rpub ssec)\<rparr>"
    using assms(2) by (simp add: Seal_def Let_def)
  show ?thesis using assms(1) [OF assms(3)] assms(3) by (simp add: p Open_def EncodeKey_def b64_roundtrip)
qed

lemma Open_Seal_witness:
  "\<exists>p. Seal (\<lambda>m n r s. n @ m) (Some (replicate 24 (CHR ''n''))) ''hi'' [] [] ''e'' = Some p \<and>
     Open (\<lambda>c n s r. if take 24 c = n then Some (drop 24 c) else None) p [] [] = Some ''hi''"
proof -
  let ?p = "\<lparr>Alg = SealAlg, EPK = b64_encode ''e'', Nonce = b64_encode (replicate 24 (CHR ''n'')),
      Ciphertext = b64_encode (replicate 24 (CHR ''n'') @ ''hi'')\<rparr>"
  have s: "Seal (\<lambda>m n r s. n @ m) (Some (replicate 24 (CHR ''n''))) ''hi'' [] [] ''e'' = Some ?p"
    by (simp add: Seal_def Let_def)
  show ?thesis
    using Open_Seal [of "\<lambda>c n s r. if take 24 c = n then Some (drop 24 c) else None" "\<lambda>m n r s. n @ m" "[]" "[]" "[]" "[]",
        OF _ s] s by auto
qed

end
