(* ===== verification/Wire.thy ===== *)
theory Wire
  imports Protocol Codec
begin

text \<open>
  Decoding the provider's frames (protocol/wire.go \<open>Frame.As\<close> on the structs of
  protocol/protocol.go): a struct is a table from the names of its JSON tags to field
  decoders, matched case-insensitively as encoding/json does; a member of the wrong kind is an
  error and leaves its field alone, unknown members are skipped, null leaves a field. A caller
  that drops the error (\<open>_ = frame.As(&v)\<close>) sees the fields that did decode.
\<close>

text \<open>A value written with \<open>json.Marshal\<close> and read back: in every string and name what is no UTF-8 is
  replaced.\<close>

fun clean_json :: "json \<Rightarrow> json" where
  "clean_json (JStr s) = JStr (clean_utf8 s)"
| "clean_json (JArr vs) = JArr (map clean_json vs)"
| "clean_json (JObj m) = JObj (map (\<lambda>kv. (clean_utf8 (fst kv), clean_json (snd kv))) m)"
| "clean_json v = v"

fun json_utf8 :: "json \<Rightarrow> bool" where
  "json_utf8 (JStr s) = utf8 s"
| "json_utf8 (JArr vs) = list_all json_utf8 vs"
| "json_utf8 (JObj m) = list_all (\<lambda>kv. utf8 (fst kv) \<and> json_utf8 (snd kv)) m"
| "json_utf8 v = True"

lemma clean_json_same [simp]: "json_utf8 v \<Longrightarrow> clean_json v = v"
proof (induction v rule: json_utf8.induct)
  case (2 vs)
  then show ?case by (auto simp: list_all_iff intro!: map_idI)
next
  case (3 m)
  then show ?case by (fastforce simp: list_all_iff intro!: map_idI)
qed simp_all

type_synonym 's fields = "(string \<times> (json \<Rightarrow> 's \<Rightarrow> 's option)) list"

definition find_field :: "'s fields \<Rightarrow> string \<Rightarrow> (json \<Rightarrow> 's \<Rightarrow> 's option) option" where
  "find_field fs k = map_option snd (find (\<lambda>f. equal_fold k (fst f)) fs)"

primrec dec_obj :: "'s fields \<Rightarrow> obj \<Rightarrow> 's \<Rightarrow> 's option" where
  "dec_obj fs [] s = Some s"
| "dec_obj fs (kv # m) s = (case find_field fs (fst kv) of
     None \<Rightarrow> dec_obj fs m s
   | Some d \<Rightarrow> Option.bind (d (snd kv) s) (dec_obj fs m))"

fun dec_struct :: "'s fields \<Rightarrow> json \<Rightarrow> 's \<Rightarrow> 's option" where
  "dec_struct fs (JObj m) s = dec_obj fs m s"
| "dec_struct fs JNull s = Some s"
| "dec_struct fs _ s = None"

text \<open>What is left in the struct when the error is dropped.\<close>

definition dec_step :: "'s fields \<Rightarrow> string \<times> json \<Rightarrow> 's \<Rightarrow> 's" where
  "dec_step fs kv s = (case find_field fs (fst kv) of
     None \<Rightarrow> s | Some d \<Rightarrow> (case d (snd kv) s of None \<Rightarrow> s | Some s' \<Rightarrow> s'))"

fun dec_lenient :: "'s fields \<Rightarrow> json \<Rightarrow> 's \<Rightarrow> 's" where
  "dec_lenient fs (JObj m) s = fold (dec_step fs) m s"
| "dec_lenient fs _ s = s"

definition fld :: "string \<Rightarrow> (json \<Rightarrow> 'a \<Rightarrow> 'a option) \<Rightarrow> ('s \<Rightarrow> 'a) \<Rightarrow> (('a \<Rightarrow> 'a) \<Rightarrow> 's \<Rightarrow> 's) \<Rightarrow>
    string \<times> (json \<Rightarrow> 's \<Rightarrow> 's option)" where
  "fld k dec get upd = (k, \<lambda>v s. map_option (\<lambda>x. upd (\<lambda>_. x) s) (dec v (get s)))"

text \<open>A tag whose field the model drops: its kind is still checked.\<close>

definition fld_skip :: "string \<Rightarrow> (json \<Rightarrow> 'a \<Rightarrow> 'a option) \<Rightarrow> 'a \<Rightarrow> string \<times> (json \<Rightarrow> 's \<Rightarrow> 's option)" where
  "fld_skip k dec z = (k, \<lambda>v s. map_option (\<lambda>_. s) (dec v z))"

fun dec_bool :: "json \<Rightarrow> bool \<Rightarrow> bool option" where
  "dec_bool (JBool b) _ = Some b"
| "dec_bool JNull old = Some old"
| "dec_bool _ _ = None"

fun dec_f64 :: "json \<Rightarrow> f64 \<Rightarrow> f64 option" where
  "dec_f64 (JNum q) _ = (case rnd q of Fin r \<Rightarrow> Some (Fin r) | _ \<Rightarrow> None)"
| "dec_f64 JNull old = Some old"
| "dec_f64 _ _ = None"

fun dec_u64 :: "json \<Rightarrow> 64 word \<Rightarrow> 64 word option" where
  "dec_u64 (JNum q) _ = (if of_int \<lfloor>q\<rfloor> = q \<and> 0 \<le> \<lfloor>q\<rfloor> \<and> \<lfloor>q\<rfloor> < 2 ^ 64 then Some (of_int \<lfloor>q\<rfloor>) else None)"
| "dec_u64 JNull old = Some old"
| "dec_u64 _ _ = None"

fun dec_ptr :: "(json \<Rightarrow> 'a \<Rightarrow> 'a option) \<Rightarrow> 'a \<Rightarrow> json \<Rightarrow> 'a option \<Rightarrow> 'a option option" where
  "dec_ptr dec z JNull _ = Some None"
| "dec_ptr dec z v old = map_option Some (dec v (case old of None \<Rightarrow> z | Some x \<Rightarrow> x))"

fun dec_strings :: "json \<Rightarrow> string list \<Rightarrow> string list option" where
  "dec_strings (JArr vs) _ = those (map (\<lambda>v. dec_string v []) vs)"
| "dec_strings JNull _ = Some []"
| "dec_strings _ _ = None"

subsection \<open>The provider's frames\<close>

definition sealed_zero :: SealedPayload where
  "sealed_zero = \<lparr>Alg = [], EPK = [], Nonce = [], Ciphertext = []\<rparr>"

definition sealed_fields :: "SealedPayload fields" where
  "sealed_fields = [fld ''alg'' dec_string Alg Alg_update, fld ''epk'' dec_string EPK EPK_update,
     fld ''nonce'' dec_string Nonce Nonce_update, fld ''ciphertext'' dec_string Ciphertext Ciphertext_update]"

definition chunk_zero :: JobChunk where
  "chunk_zero = \<lparr>jc_JobID = [], jc_Sealed = sealed_zero\<rparr>"

definition chunk_fields :: "JobChunk fields" where
  "chunk_fields = [fld_skip ''type'' dec_string [], fld ''job_id'' dec_string jc_JobID jc_JobID_update,
     fld ''sealed'' (dec_struct sealed_fields) jc_Sealed jc_Sealed_update]"

definition usage_fields :: "Usage fields" where
  "usage_fields = [fld ''prompt_tokens'' dec_int64 PromptTokens PromptTokens_update,
     fld ''completion_tokens'' dec_int64 CompletionTokens CompletionTokens_update,
     fld ''total_tokens'' dec_int64 TotalTokens TotalTokens_update]"

definition done_zero :: JobDone where
  "done_zero = \<lparr>jd_JobID = [], jd_Usage = \<lparr>PromptTokens = 0, CompletionTokens = 0, TotalTokens = 0\<rparr>,
     jd_FinishReason = [], jd_DurationMS = 0, jd_PrefillTPS = 0, jd_DecodeTPS = 0\<rparr>"

definition done_fields :: "JobDone fields" where
  "done_fields = [fld_skip ''type'' dec_string [], fld ''job_id'' dec_string jd_JobID jd_JobID_update,
     fld ''usage'' (dec_struct usage_fields) jd_Usage jd_Usage_update,
     fld ''finish_reason'' dec_string jd_FinishReason jd_FinishReason_update,
     fld ''duration_ms'' dec_int64 jd_DurationMS jd_DurationMS_update,
     fld ''prefill_tps'' dec_f64 jd_PrefillTPS jd_PrefillTPS_update,
     fld ''decode_tps'' dec_f64 jd_DecodeTPS jd_DecodeTPS_update]"

definition joberr_zero :: JobError where
  "joberr_zero = \<lparr>je_JobID = [], je_Code = [], je_Message = []\<rparr>"

definition joberr_fields :: "JobError fields" where
  "joberr_fields = [fld_skip ''type'' dec_string [], fld ''job_id'' dec_string je_JobID je_JobID_update,
     fld ''code'' dec_string je_Code je_Code_update, fld ''message'' dec_string je_Message je_Message_update]"

definition chunkpt_zero :: JobChunkPlaintext where
  "chunkpt_zero = \<lparr>jcp_JobID = [], jcp_Seq = 0, jcp_Delta = [], jcp_Done = False\<rparr>"

definition chunkpt_fields :: "JobChunkPlaintext fields" where
  "chunkpt_fields = [fld ''job_id'' dec_string jcp_JobID jcp_JobID_update,
     fld ''seq'' dec_int64 jcp_Seq jcp_Seq_update, fld ''delta'' dec_string jcp_Delta jcp_Delta_update,
     fld ''done'' dec_bool jcp_Done jcp_Done_update]"

definition telemetry_zero :: Telemetry where
  "telemetry_zero = \<lparr>ActiveJobs = 0, QueueDepth = 0, CPULoad = 0, MemAvailableMB = 0, ThermalState = [],
     BatteryPct = None, Charging = None, Network = []\<rparr>"

definition telemetry_fields :: "Telemetry fields" where
  "telemetry_fields = [fld ''active_jobs'' dec_int64 ActiveJobs ActiveJobs_update,
     fld ''queue_depth'' dec_int64 QueueDepth QueueDepth_update,
     fld ''cpu_load'' dec_f64 CPULoad CPULoad_update,
     fld ''mem_available_mb'' dec_int64 MemAvailableMB MemAvailableMB_update,
     fld ''thermal_state'' dec_string ThermalState ThermalState_update,
     fld ''battery_pct'' (dec_ptr dec_int64 0) BatteryPct BatteryPct_update,
     fld ''charging'' (dec_ptr dec_bool False) Charging Charging_update,
     fld ''network'' dec_string Network Network_update]"

definition heartbeat_fields :: "Heartbeat fields" where
  "heartbeat_fields = [fld_skip ''type'' dec_string [],
     fld ''telemetry'' (dec_struct telemetry_fields) hb_Telemetry hb_Telemetry_update]"

definition security_zero :: SecurityCapabilities where
  "security_zero = \<lparr>HardwareKey = False, SecureBoot = False, MeasuredBoot = False, RuntimeAttested = False,
     ConfidentialMemory = False, ConfidentialGPU = False\<rparr>"

definition security_fields :: "SecurityCapabilities fields" where
  "security_fields = [fld ''hardware_key'' dec_bool HardwareKey HardwareKey_update,
     fld ''secure_boot'' dec_bool SecureBoot SecureBoot_update,
     fld ''measured_boot'' dec_bool MeasuredBoot MeasuredBoot_update,
     fld ''runtime_attested'' dec_bool RuntimeAttested RuntimeAttested_update,
     fld ''confidential_memory'' dec_bool ConfidentialMemory ConfidentialMemory_update,
     fld ''confidential_gpu'' dec_bool ConfidentialGPU ConfidentialGPU_update]"

definition caps_zero :: Capabilities where
  "caps_zero = \<lparr>Platform = [], Arch = [], CPU = [], GPU = [], RAMMB = 0, VRAMMB = 0, Backend = [],
     HardwareClass = [], MaxContext = 0, Models = [], Security = security_zero\<rparr>"

definition caps_fields :: "Capabilities fields" where
  "caps_fields = [fld ''platform'' dec_string Platform Platform_update, fld ''arch'' dec_string Arch Arch_update,
     fld ''cpu'' dec_string CPU CPU_update, fld ''gpu'' dec_string GPU GPU_update,
     fld ''ram_mb'' dec_int64 RAMMB RAMMB_update, fld ''vram_mb'' dec_int64 VRAMMB VRAMMB_update,
     fld ''backend'' dec_string Backend Backend_update,
     fld ''hardware_class'' dec_string HardwareClass HardwareClass_update,
     fld ''max_context'' dec_int64 MaxContext MaxContext_update,
     fld ''models'' dec_strings Models Models_update,
     fld ''security_capabilities'' (dec_struct security_fields) Security Security_update]"

text \<open>The evidence is kept raw; \<open>None\<close> is an absent member.\<close>

fun dec_raw :: "json \<Rightarrow> json option \<Rightarrow> json option option" where
  "dec_raw v _ = Some (Some v)"

definition attestation_fields :: "json option Attestation fields" where
  "attestation_fields = [fld ''kind'' dec_string Kind Kind_update, fld ''evidence'' dec_raw Evidence Evidence_update]"

definition register_zero :: "json option Register" where
  "register_zero = \<lparr>Agent = [], RegistrationToken = [], StaticPK = [], reg_Capabilities = caps_zero,
     reg_Attestation = None, ResumeProviderID = []\<rparr>"

definition register_fields :: "json option Register fields" where
  "register_fields = [fld_skip ''type'' dec_string [], fld ''agent'' dec_string Agent Agent_update,
     fld ''registration_token'' dec_string RegistrationToken RegistrationToken_update,
     fld ''static_pk'' dec_string StaticPK StaticPK_update,
     fld ''capabilities'' (dec_struct caps_fields) reg_Capabilities reg_Capabilities_update,
     fld ''attestation'' (dec_ptr (dec_struct attestation_fields) \<lparr>Kind = [], Evidence = None\<rparr>)
       reg_Attestation reg_Attestation_update,
     fld ''resume_provider_id'' dec_string ResumeProviderID ResumeProviderID_update]"

definition bench_zero :: BenchmarkReport where
  "bench_zero = \<lparr>br_Model = [], br_Backend = [], br_PrefillTPS = 0, br_DecodeTPS = 0, br_ContextTested = 0,
     br_SampleMS = 0, br_SustainedSeconds = 0, br_SustainedStartTPS = 0, br_SustainedEndTPS = 0,
     br_MemBandwidthGBps = 0, br_AvailableRAMMB = 0, br_AvailableStorageMB = 0, br_CPUCores = 0,
     br_ThermalState = []\<rparr>"

definition bench_fields :: "BenchmarkReport fields" where
  "bench_fields = [fld_skip ''type'' dec_string [], fld ''model'' dec_string br_Model br_Model_update,
     fld ''backend'' dec_string br_Backend br_Backend_update,
     fld ''prefill_tps'' dec_f64 br_PrefillTPS br_PrefillTPS_update,
     fld ''decode_tps'' dec_f64 br_DecodeTPS br_DecodeTPS_update,
     fld ''context_tested'' dec_int64 br_ContextTested br_ContextTested_update,
     fld ''sample_ms'' dec_int64 br_SampleMS br_SampleMS_update,
     fld ''sustained_seconds'' dec_int64 br_SustainedSeconds br_SustainedSeconds_update,
     fld ''sustained_start_tps'' dec_f64 br_SustainedStartTPS br_SustainedStartTPS_update,
     fld ''sustained_end_tps'' dec_f64 br_SustainedEndTPS br_SustainedEndTPS_update,
     fld ''mem_bandwidth_gbps'' dec_f64 br_MemBandwidthGBps br_MemBandwidthGBps_update,
     fld ''available_ram_mb'' dec_u64 br_AvailableRAMMB br_AvailableRAMMB_update,
     fld ''available_storage_mb'' dec_u64 br_AvailableStorageMB br_AvailableStorageMB_update,
     fld ''cpu_cores'' dec_int64 br_CPUCores br_CPUCores_update,
     fld ''thermal_state'' dec_string br_ThermalState br_ThermalState_update]"

text \<open>A strict decode that succeeds leaves what the lenient one leaves.\<close>

lemma dec_obj_fold: "dec_obj fs m s = Some s' \<Longrightarrow> fold (dec_step fs) m s = s'"
  by (induction m arbitrary: s) (auto simp: dec_step_def bind_eq_Some_conv split: option.splits)

lemma dec_lenient_strict: "dec_struct fs j s = Some s' \<Longrightarrow> dec_lenient fs j s = s'"
  by (cases j) (auto dest: dec_obj_fold)

lemma wire_example:
  "dec_struct done_fields (JObj [(''type'', JStr ''job_done''), (''Job_ID'', JStr ''j''),
     (''usage'', JObj [(''prompt_tokens'', JNum 7)]), (''finish_reason'', JNull), (''x'', JBool True)]) done_zero
   = Some (done_zero\<lparr>jd_JobID := ''j'', jd_Usage := \<lparr>PromptTokens = 7, CompletionTokens = 0, TotalTokens = 0\<rparr>\<rparr>)"
  by code_simp

end
