(* ===== verification/Registry.thy ===== *)
theory Registry
  imports Protocol
begin

text \<open>
  Package \<open>registry\<close> (coordinator/internal/registry/registry.go): the connected providers.
  The code shares \<open>*Provider\<close> pointers between the registry map, the hub, the relay and the
  batch runner, so the model keeps a store from pointers to provider structs beside the map
  from ids to pointers; a slot released through an old pointer after a reconnect does not
  touch the new struct. \<open>Send\<close> and \<open>Close\<close> are callbacks of the hub and are not
  fields of the model; times are nanoseconds. Every method holds its mutex for its whole
  body, so each is one atomic operation here.
\<close>

type_synonym pref = nat

record Provider =
  ID :: string
  StaticPKBytes :: string
  Caps :: Capabilities
  TrustTier :: string
  Tele :: Telemetry
  ConnectedAt :: int
  LastSeen :: int
  active :: int
  draining :: bool

definition Load :: "Provider \<Rightarrow> int \<times> bool" where
  "Load p = (active p, draining p)"

definition addActive :: "int \<Rightarrow> Provider \<Rightarrow> Provider" where
  "addActive n p = (let a = wrap64 (active p + n) in p\<lparr>active := (if a < 0 then 0 else a)\<rparr>)"

definition AcquireSlot :: "Provider \<Rightarrow> Provider" where "AcquireSlot p = addActive 1 p"

definition ReleaseSlot :: "Provider \<Rightarrow> Provider" where "ReleaseSlot p = addActive (- 1) p"

definition SetDraining :: "bool \<Rightarrow> Provider \<Rightarrow> Provider" where
  "SetDraining d p = p\<lparr>draining := d\<rparr>"

primrec serves_loop :: "string list \<Rightarrow> string \<Rightarrow> bool" where
  "serves_loop [] model = False"
| "serves_loop (m # ms) model = (if m = model then True else serves_loop ms model)"

definition Serves :: "Provider \<Rightarrow> string \<Rightarrow> bool" where
  "Serves p model = serves_loop (Models (Caps p)) model"

record Registry =
  prov :: "pref \<Rightarrow> Provider"
  rm :: "string \<rightharpoonup> pref"

definition New_registry :: "(pref \<Rightarrow> Provider) \<Rightarrow> Registry" where
  "New_registry h = \<lparr>prov = h, rm = Map.empty\<rparr>"

definition Add :: "pref \<Rightarrow> Registry \<Rightarrow> Registry" where
  "Add p r = r\<lparr>rm := (rm r)(ID (prov r p) \<mapsto> p)\<rparr>"

definition Remove :: "string \<Rightarrow> Registry \<Rightarrow> Registry" where
  "Remove i r = r\<lparr>rm := (rm r)(i := None)\<rparr>"

definition Get :: "Registry \<Rightarrow> string \<Rightarrow> pref option" where
  "Get r i = rm r i"

definition Snapshot :: "Registry \<Rightarrow> string list \<Rightarrow> pref list" where
  "Snapshot r order = range_vals (rm r) order"

definition Count :: "Registry \<Rightarrow> nat" where
  "Count r = card (dom (rm r))"

primrec collect_models :: "string list \<Rightarrow> string list \<Rightarrow> string list" where
  "collect_models [] seen = seen"
| "collect_models (m # ms) seen = collect_models ms (if m \<in> set seen then seen else seen @ [m])"

definition All_models :: "Registry \<Rightarrow> string list \<Rightarrow> string list" where
  "All_models r order =
    fold (\<lambda>p seen. collect_models (Models (Caps (prov r p))) seen) (Snapshot r order) []"

text \<open>A method called through a pointer.\<close>

definition upd_prov :: "(Provider \<Rightarrow> Provider) \<Rightarrow> pref \<Rightarrow> Registry \<Rightarrow> Registry" where
  "upd_prov f p r = r\<lparr>prov := (prov r)(p := f (prov r p))\<rparr>"

text \<open>A provider and a registry with that provider alone, for concrete instances.\<close>

definition sample_caps :: Capabilities where
  "sample_caps = \<lparr>Platform = ''android'', Arch = ''arm64'', CPU = [], GPU = [], RAMMB = 6000, VRAMMB = 0,
     Backend = ''cpu'', HardwareClass = ''MICRO'', MaxContext = 2048, Models = [''m''],
     Security = \<lparr>HardwareKey = False, SecureBoot = False, MeasuredBoot = False, RuntimeAttested = False,
       ConfidentialMemory = False, ConfidentialGPU = False\<rparr>\<rparr>"

definition sample_provider :: Provider where
  "sample_provider = \<lparr>ID = ''p1'', StaticPKBytes = [], Caps = sample_caps, TrustTier = ''community'',
     Tele = \<lparr>ActiveJobs = 0, QueueDepth = 0, CPULoad = 0, MemAvailableMB = 0, ThermalState = [],
       BatteryPct = None, Charging = None, Network = []\<rparr>,
     ConnectedAt = 0, LastSeen = 0, active = 0, draining = False\<rparr>"

definition sample_registry :: "pref \<Rightarrow> Registry" where
  "sample_registry p = \<lparr>prov = (\<lambda>_. sample_provider), rm = [''p1'' \<mapsto> p]\<rparr>"

subsection \<open>The map\<close>

lemma Serves_iff: "Serves p model \<longleftrightarrow> model \<in> set (Models (Caps p))"
proof -
  have "serves_loop ms model \<longleftrightarrow> model \<in> set ms" for ms
    by (induction ms) auto
  then show ?thesis by (simp add: Serves_def)
qed

lemma Get_Add: "Get (Add p r) i = (if i = ID (prov r p) then Some p else Get r i)"
  by (simp add: Get_def Add_def)

lemma Get_Remove: "Get (Remove j r) i = (if i = j then None else Get r i)"
  by (simp add: Get_def Remove_def)

lemma Get_upd_prov [simp]: "Get (upd_prov f p r) i = Get r i"
  by (simp add: Get_def upd_prov_def)

lemma Count_Snapshot: "iter_order (rm r) order \<Longrightarrow> length (Snapshot r order) = Count r"
  by (simp add: Snapshot_def Count_def iter_order_card)

lemma set_Snapshot: "iter_order (rm r) order \<Longrightarrow> set (Snapshot r order) = ran (rm r)"
  by (simp add: Snapshot_def set_range_vals)

lemma collect_models_set: "set (collect_models ms seen) = set ms \<union> set seen"
  by (induction ms arbitrary: seen) auto

lemma collect_models_distinct: "distinct seen \<Longrightarrow> distinct (collect_models ms seen)"
  by (induction ms arbitrary: seen) auto

lemma All_models_set:
  assumes "iter_order (rm r) order"
  shows "set (All_models r order) = (\<Union>p \<in> ran (rm r). set (Models (Caps (prov r p))))"
proof -
  have "set (fold (\<lambda>p seen. collect_models (Models (Caps (prov r p))) seen) ps seen)
    = (\<Union>p \<in> set ps. set (Models (Caps (prov r p)))) \<union> set seen" for ps seen
    by (induction ps arbitrary: seen) (auto simp: collect_models_set)
  then show ?thesis using set_Snapshot [OF assms] by (simp add: All_models_def)
qed

lemma All_models_distinct: "distinct (All_models r order)"
proof -
  have "distinct seen \<Longrightarrow> distinct (fold (\<lambda>p seen. collect_models (Models (Caps (prov r p))) seen) ps seen)" for ps seen
    by (induction ps arbitrary: seen) (auto simp: collect_models_distinct)
  then show ?thesis by (simp add: All_models_def)
qed

subsection \<open>Slot accounting\<close>

text \<open>A run of slot operations on one provider struct: \<open>True\<close> acquires, \<open>False\<close> releases.\<close>

primrec slot_ops :: "bool list \<Rightarrow> Provider \<Rightarrow> Provider" where
  "slot_ops [] p = p"
| "slot_ops (b # bs) p = slot_ops bs (if b then AcquireSlot p else ReleaseSlot p)"

text \<open>At most as many releases as slots held, at every point: what the relay guarantees by
  deferring the release right after the acquire.\<close>

primrec balanced :: "nat \<Rightarrow> bool list \<Rightarrow> bool" where
  "balanced n [] = True"
| "balanced n (b # bs) = (if b then balanced (Suc n) bs else 0 < n \<and> balanced (n - 1) bs)"

lemma active_Acquire: "0 \<le> active p \<Longrightarrow> active p < 2 ^ 63 - 1 \<Longrightarrow> active (AcquireSlot p) = active p + 1"
  by (simp add: AcquireSlot_def addActive_def Let_def is_int64_def)

lemma active_Release: "0 < active p \<Longrightarrow> active p < 2 ^ 63 \<Longrightarrow> active (ReleaseSlot p) = active p - 1"
  by (simp add: ReleaseSlot_def addActive_def Let_def is_int64_def)

lemma active_nonneg: "0 \<le> active (addActive n p)"
  by (simp add: addActive_def Let_def)

lemma slot_ops_active:
  "active p = int n \<Longrightarrow> balanced n bs \<Longrightarrow> int n + int (length bs) < 2 ^ 63 \<Longrightarrow>
   active (slot_ops bs p) = int n + int (length (filter id bs)) - int (length (filter Not bs))"
proof (induction bs arbitrary: n p)
  case (Cons b bs)
  show ?case
  proof (cases b)
    case True
    then have "active (AcquireSlot p) = int (Suc n)" using Cons.prems by (simp add: active_Acquire)
    from Cons.IH [OF this] True Cons.prems show ?thesis by simp
  next
    case False
    then have "active (ReleaseSlot p) = int (n - 1)" using Cons.prems by (simp add: active_Release)
    from Cons.IH [OF this] False Cons.prems show ?thesis by simp
  qed
qed simp

text \<open>The load counter the scheduler ranks by is exact: over any interleaving of acquires
  and releases of a provider in which no job releases more than it acquired, the counter is
  the number of slots still held, and the clamp at zero is never used.\<close>

lemma slot_count_exact:
  assumes "active p = 0" "balanced 0 ops" "int (length ops) < 2 ^ 63"
  shows "active (slot_ops ops p) = int (length (filter id ops)) - int (length (filter Not ops))"
  using slot_ops_active [of p 0 ops] assms by simp

lemma slot_count_exact_witness:
  "active (slot_ops [True, True, False] sample_provider) = 1"
  by (subst slot_count_exact) (simp_all add: sample_provider_def)

end
