(* ===== verification/Scheduler.thy ===== *)
theory Scheduler
  imports Registry
begin

text \<open>
  Package \<open>scheduler\<close> (coordinator/internal/scheduler/scheduler.go): which connected
  providers can serve a job and in which order they are preferred. The comparator of the
  sort is shown to keep the contract of \<open>slice_less\<close>, and the ranking lemmas of the
  interface apply to it. The snapshot visits the registry map in an arbitrary order, an
  argument here.
\<close>

datatype sched_error = ErrNoProvider | ErrTierUnmet | ErrCapsUnmet

record Requirements =
  req_Model :: string
  req_MinTier :: string
  req_MinContext :: int
  req_HWClass :: string

definition tierRank :: "string \<Rightarrow> int" where
  "tierRank t = (if t = ''confidential'' then 2 else if t = ''device_attested'' then 1 else 0)"

definition classRank :: "string \<Rightarrow> int" where
  "classRank c = (if c = ''CONFIDENTIAL_GPU'' then 5 else if c = ''XL'' then 4
     else if c = ''LARGE'' then 3 else if c = ''MEDIUM'' then 2 else if c = ''SMALL'' then 1 else 0)"

definition thermalScore :: "string \<Rightarrow> int" where
  "thermalScore s = (if s = ''nominal'' \<or> s = [] then 3 else if s = ''fair'' then 2
     else if s = ''serious'' then 1 else 0)"

definition batteryHeadroom :: "Provider \<Rightarrow> int" where
  "batteryHeadroom p = (let t = Tele p in
     case Charging t of None \<Rightarrow> 100
     | Some True \<Rightarrow> 100
     | Some False \<Rightarrow> (case BatteryPct t of None \<Rightarrow> 100 | Some b \<Rightarrow> b))"

text \<open>A request for a model with no other demand, for the concrete instances below.\<close>

definition sample_req :: "string \<Rightarrow> Requirements" where
  "sample_req m = \<lparr>req_Model = m, req_MinTier = [], req_MinContext = 0, req_HWClass = []\<rparr>"

text \<open>The comparator given to \<open>sort.Slice\<close>.\<close>

definition cand_less :: "(pref \<Rightarrow> Provider) \<Rightarrow> pref \<Rightarrow> pref \<Rightarrow> bool" where
  "cand_less h x y = (let a = h x; b = h y; ai = fst (Load a); aj = fst (Load b) in
     if ai \<noteq> aj then ai < aj
     else if tierRank (TrustTier a) \<noteq> tierRank (TrustTier b) then tierRank (TrustTier a) > tierRank (TrustTier b)
     else if thermalScore (ThermalState (Tele a)) \<noteq> thermalScore (ThermalState (Tele b))
       then thermalScore (ThermalState (Tele a)) > thermalScore (ThermalState (Tele b))
     else if batteryHeadroom a \<noteq> batteryHeadroom b then batteryHeadroom a > batteryHeadroom b
     else MemAvailableMB (Tele a) > MemAvailableMB (Tele b))"

text \<open>The loop over the snapshot; the accumulator is (candidates, sawModel, sawTier).\<close>

fun scan :: "(pref \<Rightarrow> Provider) \<Rightarrow> Requirements \<Rightarrow> int \<Rightarrow> int \<Rightarrow> pref list \<Rightarrow>
    pref list \<times> bool \<times> bool \<Rightarrow> pref list \<times> bool \<times> bool" where
  "scan h req wantTier wantClass [] acc = acc"
| "scan h req wantTier wantClass (x # xs) (cands, sawModel, sawTier) = (let p = h x in
     if \<not> Serves p (req_Model req) then scan h req wantTier wantClass xs (cands, sawModel, sawTier)
     else if snd (Load p) then scan h req wantTier wantClass xs (cands, True, sawTier)
     else if tierRank (TrustTier p) < wantTier then scan h req wantTier wantClass xs (cands, True, sawTier)
     else if req_MinContext req > 0 \<and> MaxContext (Caps p) > 0 \<and> MaxContext (Caps p) < req_MinContext req
       then scan h req wantTier wantClass xs (cands, True, True)
     else if wantClass > 0 \<and> classRank (HardwareClass (Caps p)) < wantClass
       then scan h req wantTier wantClass xs (cands, True, True)
     else scan h req wantTier wantClass xs (cands @ [x], True, True))"

definition Eligible :: "Registry \<Rightarrow> string list \<Rightarrow> Requirements \<Rightarrow> sched_error + pref list" where
  "Eligible reg order req = (let
     wantTier = tierRank (req_MinTier req);
     wantClass = classRank (req_HWClass req);
     (cands, sawModel, sawTier) = scan (prov reg) req wantTier wantClass (Snapshot reg order) ([], False, False)
   in if cands = [] then
        Inl (if \<not> sawModel then ErrNoProvider
             else if wantTier > 0 \<and> \<not> sawTier then ErrTierUnmet else ErrCapsUnmet)
      else Inr (sort_by (cand_less (prov reg)) cands))"

definition Pick :: "Registry \<Rightarrow> string list \<Rightarrow> Requirements \<Rightarrow> sched_error + pref" where
  "Pick reg order req = (case Eligible reg order req of
     Inl err \<Rightarrow> Inl err | Inr candidates \<Rightarrow> Inr (hd candidates))"

subsection \<open>The comparator is a strict weak order\<close>

interpretation rank: slice_less "cand_less h" for h
proof unfold_locales
  show "cand_less h a b \<Longrightarrow> \<not> cand_less h b a" for a b
    by (auto simp: cand_less_def Let_def split: if_splits)
  show "\<not> cand_less h b a \<Longrightarrow> \<not> cand_less h c b \<Longrightarrow> \<not> cand_less h c a" for a b c
    unfolding cand_less_def Let_def by (smt (verit, best))
qed

subsection \<open>What a request asks for\<close>

text \<open>The levels and the preference, written without the functions of the code.\<close>

definition trust_level :: "string \<Rightarrow> int" where
  "trust_level t = (case map_of [(''device_attested'', 1), (''confidential'', 2)] t of None \<Rightarrow> 0 | Some n \<Rightarrow> n)"

definition class_level :: "string \<Rightarrow> int" where
  "class_level c = (case map_of (zip [''SMALL'', ''MEDIUM'', ''LARGE'', ''XL'', ''CONFIDENTIAL_GPU''] [1, 2, 3, 4, 5]) c of
     None \<Rightarrow> 0 | Some n \<Rightarrow> n)"

text \<open>0 is the coolest.\<close>

definition heat_level :: "string \<Rightarrow> int" where
  "heat_level s = (case map_of [([], 0), (''nominal'', 0), (''fair'', 1), (''serious'', 2)] s of None \<Rightarrow> 3 | Some n \<Rightarrow> n)"

definition power_left :: "Telemetry \<Rightarrow> int" where
  "power_left t = (if Charging t = Some False \<and> BatteryPct t \<noteq> None then the (BatteryPct t) else 100)"

text \<open>\<open>a\<close> is preferred to \<open>b\<close>: less loaded, then better attested, cooler, more battery, more memory.\<close>

definition outranks :: "Provider \<Rightarrow> Provider \<Rightarrow> bool" where
  "outranks a b \<longleftrightarrow> active a < active b \<or> active a = active b \<and>
     (trust_level (TrustTier b) < trust_level (TrustTier a) \<or> trust_level (TrustTier a) = trust_level (TrustTier b) \<and>
      (heat_level (ThermalState (Tele a)) < heat_level (ThermalState (Tele b)) \<or>
         heat_level (ThermalState (Tele a)) = heat_level (ThermalState (Tele b)) \<and>
       (power_left (Tele b) < power_left (Tele a) \<or> power_left (Tele a) = power_left (Tele b) \<and>
        MemAvailableMB (Tele b) < MemAvailableMB (Tele a))))"

definition tier_ok :: "Requirements \<Rightarrow> Provider \<Rightarrow> bool" where
  "tier_ok req p \<longleftrightarrow> \<not> draining p \<and> trust_level (req_MinTier req) \<le> trust_level (TrustTier p)"

definition caps_ok :: "Requirements \<Rightarrow> Provider \<Rightarrow> bool" where
  "caps_ok req p \<longleftrightarrow>
     (0 < req_MinContext req \<longrightarrow> 0 < MaxContext (Caps p) \<longrightarrow> req_MinContext req \<le> MaxContext (Caps p)) \<and>
     (0 < class_level (req_HWClass req) \<longrightarrow> class_level (req_HWClass req) \<le> class_level (HardwareClass (Caps p)))"

definition can_serve :: "Requirements \<Rightarrow> Provider \<Rightarrow> bool" where
  "can_serve req p \<longleftrightarrow> Serves p (req_Model req) \<and> tier_ok req p \<and> caps_ok req p"

lemma levels: "tierRank t = trust_level t" "classRank c = class_level c" "thermalScore s = 3 - heat_level s"
    "batteryHeadroom p = power_left (Tele p)"
  by (auto simp: tierRank_def trust_level_def classRank_def class_level_def thermalScore_def heat_level_def
    batteryHeadroom_def power_left_def Let_def split: option.splits bool.splits)

lemma cand_less_outranks: "cand_less h x y \<longleftrightarrow> outranks (h x) (h y)"
  unfolding cand_less_def outranks_def Let_def levels Load_def fst_conv by (smt (verit, best))

subsection \<open>What the scan collects\<close>

lemma scan_result:
  "scan h req (tierRank (req_MinTier req)) (classRank (req_HWClass req)) xs (cands, sm, st) =
    (cands @ filter (\<lambda>x. can_serve req (h x)) xs,
     sm \<or> (\<exists>x \<in> set xs. Serves (h x) (req_Model req)),
     st \<or> (\<exists>x \<in> set xs. Serves (h x) (req_Model req) \<and> tier_ok req (h x)))"
  by (induction xs arbitrary: cands sm st)
     (auto simp: Let_def can_serve_def tier_ok_def caps_ok_def Load_def levels)

lemma Eligible_eq:
  assumes "iter_order (rm reg) order"
  defines "P \<equiv> prov reg ` ran (rm reg)"
  shows "Eligible reg order req =
    (if \<exists>p \<in> P. can_serve req p
     then Inr (sort_by (cand_less (prov reg)) (filter (\<lambda>x. can_serve req (prov reg x)) (Snapshot reg order)))
     else Inl (if \<forall>p \<in> P. \<not> Serves p (req_Model req) then ErrNoProvider
       else if 0 < trust_level (req_MinTier req) \<and> (\<forall>p \<in> P. \<not> (Serves p (req_Model req) \<and> tier_ok req p))
         then ErrTierUnmet else ErrCapsUnmet))"
  using set_Snapshot [OF assms(1)]
  unfolding Eligible_def Let_def scan_result P_def by (auto simp: filter_empty_conv levels)

subsection \<open>Properties\<close>

text \<open>How often a provider is registered: under how many ids.\<close>

lemma count_range_vals: "iter_order m ks \<Longrightarrow> count (mset (range_vals m ks)) x = card {k. m k = Some x}"
proof -
  assume o1: "iter_order m ks"
  have "count (mset (range_vals m ks)) x = length (filter (\<lambda>k. the (m k) = x) ks)"
    by (induction ks) (simp_all add: range_vals_def)
  also have "\<dots> = card (set (filter (\<lambda>k. the (m k) = x) ks))"
    by (rule distinct_card [symmetric]) (use o1 in \<open>simp add: iter_order_def\<close>)
  also have "set (filter (\<lambda>k. the (m k) = x) ks) = {k. m k = Some x}"
    using o1 by (auto simp: iter_order_def)
  finally show ?thesis .
qed

text \<open>C26: \<open>Eligible\<close> succeeds with exactly the connected providers that advertise the model, are not
  draining, meet the trust tier, the context length and the hardware class, each as often as it is
  registered, in an order in which no later one is preferred to an earlier one (least loaded, then
  stronger tier, cooler, more battery, more memory).\<close>

theorem Eligible_sound_complete_sorted:
  assumes "iter_order (rm reg) order" "Eligible reg order req = Inr cs"
  shows "cs \<noteq> [] \<and>
    count (mset cs) x = (if can_serve req (prov reg x) then card {i. rm reg i = Some x} else 0) \<and>
    sorted_wrt (\<lambda>a b. \<not> outranks (prov reg b) (prov reg a)) cs"
proof -
  let ?f = "filter (\<lambda>x. can_serve req (prov reg x)) (Snapshot reg order)"
  have cs: "cs = sort_by (cand_less (prov reg)) ?f" "\<exists>p \<in> prov reg ` ran (rm reg). can_serve req p"
    using assms(2) unfolding Eligible_eq [OF assms(1)] by (auto split: if_splits)
  have "count (mset cs) x = (if can_serve req (prov reg x) then count (mset (Snapshot reg order)) x else 0)"
    by (simp add: cs(1) mset_filter)
  moreover have "cs \<noteq> []" using cs set_Snapshot [OF assms(1)] by (auto simp: filter_empty_conv)
  ultimately show ?thesis
    using rank.sort_by_sorted [of "prov reg" ?f] count_range_vals [OF assms(1)]
    by (simp add: cs(1) cand_less_outranks Snapshot_def)
qed

text \<open>Two providers of the model: the cooler one comes first.\<close>

definition two_providers :: Registry where
  "two_providers = (sample_registry 0)\<lparr>rm := [''p1'' \<mapsto> 0, ''p2'' \<mapsto> 1],
     prov := \<lambda>x. sample_provider\<lparr>Tele := (Tele sample_provider)\<lparr>ThermalState := if x = 0 then ''serious'' else []\<rparr>\<rparr>\<rparr>"

lemma Eligible_sound_complete_sorted_witness:
  "[1, 0 :: nat] \<noteq> [] \<and>
    count (mset [1, 0 :: nat]) 1 = (if can_serve (sample_req ''m'') (prov two_providers 1) then card {i. rm two_providers i = Some 1} else 0) \<and>
    sorted_wrt (\<lambda>a b. \<not> outranks (prov two_providers b) (prov two_providers a)) [1, 0]"
  by (rule Eligible_sound_complete_sorted [where order = "[''p1'', ''p2'']" and x = 1 and cs = "[1, 0]"])
     (auto simp: iter_order_def two_providers_def sample_registry_def Eligible_def Snapshot_def range_vals_def sample_req_def
        sample_provider_def sample_caps_def Serves_iff tierRank_def classRank_def Load_def cand_less_def Let_def thermalScore_def)

text \<open>C27: the error of \<open>Eligible\<close>, which \<open>Pick\<close> passes on, says what is missing: no provider error
  exactly when nobody connected serves the model; the tier error exactly when the request
  asks for a tier, somebody serves the model, and nobody who is not draining meets the tier;
  the capability error in every other case without a candidate, which includes a model all
  of whose providers are draining when no tier was asked for. \<open>Pick\<close> fails with exactly these
  errors and otherwise takes the first of the candidates.\<close>

theorem Eligible_errors:
  assumes "iter_order (rm reg) order"
  defines "P \<equiv> prov reg ` ran (rm reg)"
  shows "(Eligible reg order req = Inl ErrNoProvider \<longleftrightarrow> (\<forall>p \<in> P. \<not> Serves p (req_Model req))) \<and>
    (Eligible reg order req = Inl ErrTierUnmet \<longleftrightarrow> (\<exists>p \<in> P. Serves p (req_Model req)) \<and>
      0 < trust_level (req_MinTier req) \<and> (\<forall>p \<in> P. Serves p (req_Model req) \<longrightarrow> \<not> tier_ok req p)) \<and>
    (Eligible reg order req = Inl ErrCapsUnmet \<longleftrightarrow> (\<exists>p \<in> P. Serves p (req_Model req)) \<and>
      (\<forall>p \<in> P. \<not> can_serve req p) \<and>
      (trust_level (req_MinTier req) \<le> 0 \<or> (\<exists>p \<in> P. Serves p (req_Model req) \<and> tier_ok req p))) \<and>
    (Pick reg order req = Inl err \<longleftrightarrow> Eligible reg order req = Inl err) \<and>
    (Pick reg order req = Inr x \<longleftrightarrow> (\<exists>rest. Eligible reg order req = Inr (x # rest)))"
proof -
  have ne: "Eligible reg order req \<noteq> Inr []"
    using set_Snapshot [OF assms(1)] unfolding Eligible_eq [OF assms(1)] by (auto simp: filter_empty_conv)
  have "(Pick reg order req = Inl err \<longleftrightarrow> Eligible reg order req = Inl err) \<and>
    (Pick reg order req = Inr x \<longleftrightarrow> (\<exists>rest. Eligible reg order req = Inr (x # rest)))"
  proof (cases "Eligible reg order req")
    case (Inr cs)
    with ne show ?thesis by (cases cs) (auto simp: Pick_def)
  qed (simp add: Pick_def)
  then show ?thesis
    unfolding Eligible_eq [OF assms(1), folded P_def] by (auto simp: can_serve_def)
qed

lemma Eligible_errors_witness:
  "Pick (sample_registry 0) [''p1''] \<lparr>req_Model = ''m'', req_MinTier = ''confidential'', req_MinContext = 0, req_HWClass = []\<rparr>
    = Inl ErrTierUnmet"
proof -
  have "iter_order (rm (sample_registry 0)) [''p1'']" by (simp add: iter_order_def sample_registry_def)
  from Eligible_errors [OF this] show ?thesis
    by (simp add: sample_registry_def sample_provider_def sample_caps_def Serves_iff trust_level_def tier_ok_def)
qed

text \<open>\<open>Pick\<close> returns a provider that can serve the request and that no other able
  provider beats, and whatever order Go iterates the registry in, two picks of the same
  state tie under the ranking.\<close>

theorem Pick_best:
  assumes "iter_order (rm reg) order" "Pick reg order req = Inr x"
    and "iter_order (rm reg) order'" "Pick reg order' req = Inr x'"
  shows "x \<in> ran (rm reg) \<and> can_serve req (prov reg x) \<and>
    (\<forall>y \<in> ran (rm reg). can_serve req (prov reg y) \<longrightarrow> \<not> cand_less (prov reg) y x) \<and>
    \<not> cand_less (prov reg) x x' \<and> \<not> cand_less (prov reg) x' x"
proof -
  have one: "x \<in> ran (rm reg) \<and> can_serve req (prov reg x) \<and>
      (\<forall>y \<in> ran (rm reg). can_serve req (prov reg y) \<longrightarrow> \<not> cand_less (prov reg) y x)"
    if "iter_order (rm reg) order" "Pick reg order req = Inr x" for order x
  proof -
    let ?f = "filter (\<lambda>x. can_serve req (prov reg x)) (Snapshot reg order)"
    have x: "x = hd (sort_by (cand_less (prov reg)) ?f)" "?f \<noteq> []"
      using that Eligible_eq [OF that(1), of req] set_Snapshot [OF that(1)]
      by (auto simp: Pick_def filter_empty_conv split: if_splits)
    then have "x \<in> set ?f"
      by (metis hd_in_set set_sort_by sort_by_eq_Nil)
    with x rank.sort_by_hd_minimal [OF x(2)] set_Snapshot [OF that(1)] show ?thesis by auto
  qed
  from one [OF assms(1,2)] one [OF assms(3,4)] show ?thesis by auto
qed

lemma Pick_best_witness:
  "0 \<in> ran (rm (sample_registry 0)) \<and> \<not> cand_less (prov (sample_registry 0)) 0 0"
proof -
  have "iter_order (rm (sample_registry 0)) [''p1'']" by (simp add: iter_order_def sample_registry_def)
  moreover have "Pick (sample_registry 0) [''p1''] (sample_req ''m'') = Inr 0"
    by (simp add: sample_registry_def Pick_def Eligible_def Snapshot_def range_vals_def sample_req_def
        sample_provider_def sample_caps_def Serves_iff tierRank_def classRank_def Load_def)
  ultimately show ?thesis using Pick_best by blast
qed

end
