(* ===== verification/Jobs.thy ===== *)
theory Jobs
  imports Prelude
begin

text \<open>
  Package \<open>jobs\<close> (coordinator/internal/jobs/jobs.go): the per-job delivery channels between
  the provider hub and the relay. Go channels are first-class, so the model has a store of
  channels (buffer, capacity 64, closed flag) beside the manager's map. \<open>Close\<close> deletes the
  assignment under the mutex and closes the channel after releasing it; the step relation
  interleaves the two halves with every other operation, and a send or a second close on a
  closed channel is a panic of the Go runtime.
\<close>

datatype Kind = KindChunk | KindDone | KindError

record 'raw Event =
  ev_Kind :: Kind
  ev_Raw :: 'raw

record 'e chan =
  buf :: "'e list"
  is_closed :: bool

record assignment =
  providerID :: string
  ch :: nat

record 'e Manager =
  jm :: "string \<rightharpoonup> assignment"
  chans :: "nat \<rightharpoonup> 'e chan"
  next_ch :: nat

definition chan_cap :: nat where "chan_cap = 64"

definition New_jobs :: "'e Manager" where
  "New_jobs = \<lparr>jm = Map.empty, chans = Map.empty, next_ch = 0\<rparr>"

text \<open>A send in a \<open>select\<close> with a default: full buffers refuse, closed channels panic.\<close>

datatype 'a outcome = Ok 'a | Panic

definition try_send :: "'e chan \<Rightarrow> 'e \<Rightarrow> ('e chan \<times> bool) outcome" where
  "try_send c e = (if is_closed c then Panic
     else if length (buf c) < chan_cap then Ok (c\<lparr>buf := buf c @ [e]\<rparr>, True) else Ok (c, False))"

definition Register_job :: "string \<Rightarrow> string \<Rightarrow> 'e Manager \<Rightarrow> 'e Manager \<times> nat" where
  "Register_job jobID provider m = (let c = next_ch m in
     (m\<lparr>chans := (chans m)(c \<mapsto> \<lparr>buf = [], is_closed = False\<rparr>), next_ch := Suc c,
        jm := (jm m)(jobID \<mapsto> \<lparr>providerID = provider, ch = c\<rparr>)\<rparr>, c))"

definition Deliver :: "string \<Rightarrow> string \<Rightarrow> 'e \<Rightarrow> 'e Manager \<Rightarrow> ('e Manager \<times> bool) outcome" where
  "Deliver jobID provider ev m = (case jm m jobID of
     None \<Rightarrow> Ok (m, False)
   | Some a \<Rightarrow>
       if providerID a \<noteq> provider then Ok (m, False)
       else (case chans m (ch a) of
           None \<Rightarrow> Panic
         | Some c \<Rightarrow> (case try_send c ev of Panic \<Rightarrow> Panic
             | Ok (c', sent) \<Rightarrow> Ok (m\<lparr>chans := (chans m)(ch a \<mapsto> c')\<rparr>, sent))))"

text \<open>The two halves of \<open>Close\<close>.\<close>

definition Close_unlink :: "string \<Rightarrow> 'e Manager \<Rightarrow> 'e Manager \<times> nat option" where
  "Close_unlink jobID m = (case jm m jobID of
     None \<Rightarrow> (m, None)
   | Some a \<Rightarrow> (m\<lparr>jm := (jm m)(jobID := None)\<rparr>, Some (ch a)))"

definition close_chan :: "nat \<Rightarrow> 'e Manager \<Rightarrow> 'e Manager outcome" where
  "close_chan c m = (case chans m c of None \<Rightarrow> Panic
     | Some x \<Rightarrow> if is_closed x then Panic else Ok (m\<lparr>chans := (chans m)(c \<mapsto> x\<lparr>is_closed := True\<rparr>)\<rparr>))"

definition Close :: "string \<Rightarrow> 'e Manager \<Rightarrow> 'e Manager outcome" where
  "Close jobID m = (case Close_unlink jobID m of
     (m', None) \<Rightarrow> Ok m' | (m', Some c) \<Rightarrow> close_chan c m')"

definition Has :: "'e Manager \<Rightarrow> string \<Rightarrow> bool" where
  "Has m jobID = (jm m jobID \<noteq> None)"

text \<open>The relay's receive: the next buffered event.\<close>

definition recv :: "nat \<Rightarrow> 'e Manager \<Rightarrow> ('e Manager \<times> 'e) option" where
  "recv c m = (case chans m c of Some x \<Rightarrow>
       (case buf x of [] \<Rightarrow> None | e # es \<Rightarrow> Some (m\<lparr>chans := (chans m)(c \<mapsto> x\<lparr>buf := es\<rparr>)\<rparr>, e))
     | None \<Rightarrow> None)"

subsection \<open>Interleavings\<close>

text \<open>The state of a run: the manager, the channels a \<open>Close\<close> has unlinked and not yet
  closed, and whether the runtime has panicked. A label records what became visible:
  an accepted event (channel, job, provider) or a received one.\<close>

datatype 'e label = Tau | Opened nat string string | Sent nat string string 'e | Recvd nat 'e

record 'e jstate =
  mgr :: "'e Manager"
  closing :: "nat list"
  panicked :: bool

definition jinit :: "'e jstate" where
  "jinit = \<lparr>mgr = New_jobs, closing = [], panicked = False\<rparr>"

inductive jstep :: "'e jstate \<Rightarrow> 'e label \<Rightarrow> 'e jstate \<Rightarrow> bool" where
  Register: "Register_job j p (mgr s) = (m', c) \<Longrightarrow> jstep s (Opened c j p) (s\<lparr>mgr := m'\<rparr>)"
| Deliver: "Deliver j p e (mgr s) = Ok (m', True) \<Longrightarrow> jm (mgr s) j = Some a \<Longrightarrow>
    jstep s (Sent (ch a) j p e) (s\<lparr>mgr := m'\<rparr>)"
| Refuse: "Deliver j p e (mgr s) = Ok (m', False) \<Longrightarrow> jstep s Tau (s\<lparr>mgr := m'\<rparr>)"
| Deliver_panic: "Deliver j p e (mgr s) = Panic \<Longrightarrow> jstep s Tau (s\<lparr>panicked := True\<rparr>)"
| Unlink: "Close_unlink j (mgr s) = (m', Some c) \<Longrightarrow>
    jstep s Tau (s\<lparr>mgr := m', closing := c # closing s\<rparr>)"
| Close_chan: "c \<in> set (closing s) \<Longrightarrow> close_chan c (mgr s) = Ok m' \<Longrightarrow>
    jstep s Tau (s\<lparr>mgr := m', closing := remove1 c (closing s)\<rparr>)"
| Close_panic: "c \<in> set (closing s) \<Longrightarrow> close_chan c (mgr s) = Panic \<Longrightarrow> jstep s Tau (s\<lparr>panicked := True\<rparr>)"
| Recv: "recv c (mgr s) = Some (m', e) \<Longrightarrow> jstep s (Recvd c e) (s\<lparr>mgr := m'\<rparr>)"

inductive jruns :: "'e label list \<Rightarrow> 'e jstate \<Rightarrow> bool" where
  Init: "jruns [] jinit"
| Step: "jruns tr s \<Longrightarrow> jstep s l s' \<Longrightarrow> jruns (tr @ [l]) s'"

text \<open>What was accepted and received on a channel, in order.\<close>

fun sent_on :: "nat \<Rightarrow> 'e label list \<Rightarrow> 'e list" where
  "sent_on c [] = []"
| "sent_on c (Sent d j p e # tr) = (if d = c then e # sent_on c tr else sent_on c tr)"
| "sent_on c (_ # tr) = sent_on c tr"

fun recvd_on :: "nat \<Rightarrow> 'e label list \<Rightarrow> 'e list" where
  "recvd_on c [] = []"
| "recvd_on c (Recvd d e # tr) = (if d = c then e # recvd_on c tr else recvd_on c tr)"
| "recvd_on c (_ # tr) = recvd_on c tr"

lemma sent_on_append [simp]: "sent_on c (tr @ tr') = sent_on c tr @ sent_on c tr'"
  by (induction c tr rule: sent_on.induct) auto

lemma recvd_on_append [simp]: "recvd_on c (tr @ tr') = recvd_on c tr @ recvd_on c tr'"
  by (induction c tr rule: recvd_on.induct) auto

subsection \<open>The invariant\<close>

definition jparts ::
  "(string \<rightharpoonup> assignment) \<Rightarrow> (nat \<rightharpoonup> 'e chan) \<Rightarrow> nat \<Rightarrow> nat list \<Rightarrow> bool" where
  "jparts jmap chs nxt cl \<longleftrightarrow> distinct cl \<and>
     (\<forall>c \<in> set cl. \<exists>x. chs c = Some x \<and> \<not> is_closed x) \<and>
     (\<forall>j a. jmap j = Some a \<longrightarrow> ch a \<notin> set cl \<and> (\<exists>x. chs (ch a) = Some x \<and> \<not> is_closed x)) \<and>
     (\<forall>j a j' a'. jmap j = Some a \<longrightarrow> jmap j' = Some a' \<longrightarrow> ch a = ch a' \<longrightarrow> j = j') \<and>
     (\<forall>c x. chs c = Some x \<longrightarrow> c < nxt \<and> length (buf x) \<le> chan_cap)"

definition jinv :: "'e jstate \<Rightarrow> bool" where
  "jinv s \<longleftrightarrow> \<not> panicked s \<and> jparts (jm (mgr s)) (chans (mgr s)) (next_ch (mgr s)) (closing s)"

lemma jinv_init: "jinv jinit"
  by (simp add: jinv_def jparts_def jinit_def New_jobs_def)

lemma jparts_register:
  assumes "jparts jmap chs nxt cl"
  shows "jparts (jmap(j \<mapsto> \<lparr>providerID = p, ch = nxt\<rparr>)) (chs(nxt \<mapsto> \<lparr>buf = [], is_closed = False\<rparr>)) (Suc nxt) cl"
proof -
  have lt: "c < nxt" if "chs c = Some x" for c x using assms that unfolding jparts_def by blast
  have cl: "c \<noteq> nxt" if "c \<in> set cl" for c using assms that lt unfolding jparts_def by blast
  have as: "ch a \<noteq> nxt" if "jmap k = Some a" for k a using assms that lt unfolding jparts_def by blast
  show ?thesis
    unfolding jparts_def
  proof (intro conjI)
    show "\<forall>c \<in> set cl. \<exists>x. (chs(nxt \<mapsto> \<lparr>buf = [], is_closed = False\<rparr>)) c = Some x \<and> \<not> is_closed x"
      using assms cl unfolding jparts_def by simp
    show "\<forall>k a. (jmap(j \<mapsto> \<lparr>providerID = p, ch = nxt\<rparr>)) k = Some a \<longrightarrow> ch a \<notin> set cl \<and>
        (\<exists>x. (chs(nxt \<mapsto> \<lparr>buf = [], is_closed = False\<rparr>)) (ch a) = Some x \<and> \<not> is_closed x)"
    proof (intro allI impI)
      fix k a assume k: "(jmap(j \<mapsto> \<lparr>providerID = p, ch = nxt\<rparr>)) k = Some a"
      show "ch a \<notin> set cl \<and> (\<exists>x. (chs(nxt \<mapsto> \<lparr>buf = [], is_closed = False\<rparr>)) (ch a) = Some x \<and> \<not> is_closed x)"
      proof (cases "k = j")
        case True
        with k have "ch a = nxt" by auto
        then show ?thesis using cl by auto
      next
        case False
        with k have "jmap k = Some a" by simp
        then show ?thesis using as [of k a] assms unfolding jparts_def by simp
      qed
    qed
    show "\<forall>k a k' a'. (jmap(j \<mapsto> \<lparr>providerID = p, ch = nxt\<rparr>)) k = Some a \<longrightarrow>
        (jmap(j \<mapsto> \<lparr>providerID = p, ch = nxt\<rparr>)) k' = Some a' \<longrightarrow> ch a = ch a' \<longrightarrow> k = k'"
    proof (intro allI impI)
      fix k a k' a'
      assume "(jmap(j \<mapsto> \<lparr>providerID = p, ch = nxt\<rparr>)) k = Some a"
        "(jmap(j \<mapsto> \<lparr>providerID = p, ch = nxt\<rparr>)) k' = Some a'" "ch a = ch a'"
      then show "k = k'"
        using as [of k a] as [of k' a'] assms unfolding jparts_def
        by (cases "k = j"; cases "k' = j") auto
    qed
    show "\<forall>c x. (chs(nxt \<mapsto> \<lparr>buf = [], is_closed = False\<rparr>)) c = Some x \<longrightarrow> c < Suc nxt \<and> length (buf x) \<le> chan_cap"
      using assms lt unfolding jparts_def by (auto simp: less_Suc_eq)
  qed (use assms in \<open>simp add: jparts_def\<close>)
qed

text \<open>Steps that replace one channel by another one with the same flag.\<close>

lemma jparts_chan_upd:
  assumes "jparts jmap chs nxt cl" "chs c = Some x" "is_closed x' = is_closed x" "length (buf x') \<le> chan_cap"
  shows "jparts jmap (chs(c \<mapsto> x')) nxt cl"
proof -
  have keep: "\<exists>y. (chs(c \<mapsto> x')) d = Some y \<and> \<not> is_closed y" if "\<exists>y. chs d = Some y \<and> \<not> is_closed y" for d
    using that assms(2,3) by (cases "d = c") auto
  show ?thesis
    unfolding jparts_def
    using assms(1,2,4) keep unfolding jparts_def by (auto split: if_splits)
qed

lemma jparts_unlink:
  assumes "jparts jmap chs nxt cl" "jmap j = Some a"
  shows "jparts (jmap(j := None)) chs nxt (ch a # cl)"
proof -
  have "ch b \<noteq> ch a" if "(jmap(j := None)) k = Some b" for k b
  proof
    assume "ch b = ch a"
    then have "k = j" using that assms unfolding jparts_def by (metis fun_upd_apply option.distinct(1))
    then show False using that by simp
  qed
  then have ne: "ch b \<noteq> ch a" "jmap k = Some b" if "(jmap(j := None)) k = Some b" for k b
    using that by (auto split: if_splits)
  have old: "ch b \<notin> set cl" "\<exists>x. chs (ch b) = Some x \<and> \<not> is_closed x" if "jmap k = Some b" for k b
    using that assms(1) unfolding jparts_def by blast+
  show ?thesis
    unfolding jparts_def
  proof (intro conjI)
    show "\<forall>k b. (jmap(j := None)) k = Some b \<longrightarrow> ch b \<notin> set (ch a # cl) \<and>
        (\<exists>x. chs (ch b) = Some x \<and> \<not> is_closed x)"
      using ne old by (metis set_ConsD)
    show "\<forall>k b k' b'. (jmap(j := None)) k = Some b \<longrightarrow> (jmap(j := None)) k' = Some b' \<longrightarrow> ch b = ch b' \<longrightarrow> k = k'"
      using ne(2) assms(1) unfolding jparts_def by meson
  qed (use assms old [OF assms(2)] in \<open>auto simp: jparts_def\<close>)
qed

lemma jparts_close:
  assumes "jparts jmap chs nxt cl" "c \<in> set cl" "chs c = Some x"
  shows "jparts jmap (chs(c \<mapsto> x\<lparr>is_closed := True\<rparr>)) nxt (remove1 c cl)"
proof -
  have d: "set (remove1 c cl) = set cl - {c}" using assms(1) by (simp add: jparts_def set_remove1_eq)
  have "ch a \<noteq> c" if "jmap j = Some a" for j a using that assms unfolding jparts_def by blast
  then show ?thesis
    using assms unfolding jparts_def d by (auto simp: distinct_remove1)
qed

lemma Deliver_cases:
  assumes "Deliver j p e m = Ok (m', b)"
  obtains (no_job) "jm m j = None" "m' = m" "\<not> b"
  | (foreign) a where "jm m j = Some a" "providerID a \<noteq> p" "m' = m" "\<not> b"
  | (full) a x where "jm m j = Some a" "providerID a = p" "chans m (ch a) = Some x"
      "m' = m\<lparr>chans := (chans m)(ch a \<mapsto> x)\<rparr>" "\<not> b" "chan_cap \<le> length (buf x)"
  | (sent) a x where "jm m j = Some a" "providerID a = p" "chans m (ch a) = Some x" "\<not> is_closed x"
      "length (buf x) < chan_cap" "m' = m\<lparr>chans := (chans m)(ch a \<mapsto> x\<lparr>buf := buf x @ [e]\<rparr>)\<rparr>" b
proof (cases "jm m j")
  case None
  then show ?thesis using assms by (intro no_job) (simp_all add: Deliver_def)
next
  case (Some a)
  show ?thesis
  proof (cases "providerID a = p")
    case False
    then show ?thesis using assms Some by (intro foreign [OF Some False]) (simp_all add: Deliver_def)
  next
    case True
    then obtain x where x: "chans m (ch a) = Some x" "\<not> is_closed x"
      using assms Some by (auto simp: Deliver_def try_send_def split: option.splits if_splits)
    show ?thesis
    proof (cases "length (buf x) < chan_cap")
      case len: True
      show ?thesis
        using assms Some True len x by (intro sent [OF Some True x len]) (simp_all add: Deliver_def try_send_def)
    next
      case False
      then show ?thesis
        using assms Some True x by (intro full [OF Some True x(1)]) (simp_all add: Deliver_def try_send_def)
    qed
  qed
qed

lemma Deliver_no_panic:
  assumes "jinv s"
  shows "Deliver j p e (mgr s) \<noteq> Panic"
proof (cases "jm (mgr s) j")
  case (Some a)
  then obtain x where "chans (mgr s) (ch a) = Some x" "\<not> is_closed x"
    using assms unfolding jinv_def jparts_def by blast
  with Some show ?thesis by (simp add: Deliver_def try_send_def)
qed (simp add: Deliver_def)

lemma close_no_panic: "jinv s \<Longrightarrow> c \<in> set (closing s) \<Longrightarrow> close_chan c (mgr s) \<noteq> Panic"
  by (auto simp: close_chan_def jinv_def jparts_def)

lemma recvE:
  assumes "recv c m = Some (m', e)"
  obtains x es where "chans m c = Some x" "buf x = e # es" "m' = m\<lparr>chans := (chans m)(c \<mapsto> x\<lparr>buf := es\<rparr>)\<rparr>"
  using assms by (auto simp: recv_def split: option.splits list.splits)

lemma jinv_buf: "jinv s \<Longrightarrow> chans (mgr s) c = Some x \<Longrightarrow> length (buf x) \<le> chan_cap"
  by (auto simp: jinv_def jparts_def)

lemma jinv_step:
  assumes "jstep s l s'" "jinv s"
  shows "jinv s'"
proof -
  note P = assms(2) [unfolded jinv_def]
  from assms(1) show ?thesis
  proof (cases rule: jstep.cases)
    case (Register j p m' c)
    then show ?thesis using P jparts_register by (auto simp: jinv_def Register_job_def Let_def)
  next
    case (Deliver j p e m' a)
    from Deliver(3) show ?thesis
      by (cases rule: Deliver_cases) (use Deliver(2) P in \<open>auto simp: jinv_def intro!: jparts_chan_upd\<close>)
  next
    case (Refuse j p e m')
    from Refuse(3) show ?thesis
      by (cases rule: Deliver_cases)
         (use Refuse(2) P jinv_buf [OF assms(2)] in \<open>auto simp: jinv_def intro!: jparts_chan_upd\<close>)
  next
    case (Deliver_panic j p e)
    then show ?thesis using Deliver_no_panic [OF assms(2), of j p e] by simp
  next
    case (Unlink j m' c)
    then show ?thesis
      using P jparts_unlink by (auto simp: jinv_def Close_unlink_def split: option.splits)
  next
    case (Close_chan c m')
    then show ?thesis
      using P jparts_close by (auto simp: jinv_def close_chan_def split: option.splits if_splits)
  next
    case (Close_panic c)
    then show ?thesis using close_no_panic [OF assms(2), of c] by simp
  next
    case (Recv c m' e)
    from Recv(3) obtain x es where x: "chans (mgr s) c = Some x" "buf x = e # es"
      "m' = (mgr s)\<lparr>chans := (chans (mgr s))(c \<mapsto> x\<lparr>buf := es\<rparr>)\<rparr>" by (rule recvE)
    then show ?thesis
      using Recv(2) P jinv_buf [OF assms(2) x(1)] by (auto simp: jinv_def intro!: jparts_chan_upd)
  qed
qed

lemma jruns_inv: "jruns tr s \<Longrightarrow> jinv s"
  by (induction rule: jruns.induct) (auto intro: jinv_init jinv_step)

subsection \<open>What reaches the relay\<close>

definition stream_inv :: "'e label list \<Rightarrow> 'e jstate \<Rightarrow> bool" where
  "stream_inv tr s \<longleftrightarrow>
     (\<forall>j a. jm (mgr s) j = Some a \<longrightarrow> Opened (ch a) j (providerID a) \<in> set tr) \<and>
     (\<forall>c j p e. Sent c j p e \<in> set tr \<longrightarrow> Opened c j p \<in> set tr) \<and>
     (\<forall>c. chans (mgr s) c = None \<longrightarrow> sent_on c tr = [] \<and> recvd_on c tr = []) \<and>
     (\<forall>c x. chans (mgr s) c = Some x \<longrightarrow> sent_on c tr = recvd_on c tr @ buf x)"

lemma fresh_chan: "jinv s \<Longrightarrow> chans (mgr s) (next_ch (mgr s)) = None"
  by (cases "chans (mgr s) (next_ch (mgr s))") (auto simp: jinv_def jparts_def)

lemma stream_step:
  assumes "jstep s l s'" "jinv s" "stream_inv tr s"
  shows "stream_inv (tr @ [l]) s'"
  using assms(1)
proof (cases rule: jstep.cases)
  case (Register j p m' c)
  then show ?thesis
    using assms(3) fresh_chan [OF assms(2)]
    by (auto simp: stream_inv_def Register_job_def Let_def split: if_splits)
next
  case (Deliver j p e m' a)
  from Deliver(3) show ?thesis
  proof (cases rule: Deliver_cases)
    case (sent a' x)
    then have "a' = a" using Deliver(4) by simp
    with sent Deliver(2) show ?thesis
      using assms(3) Deliver(1) by (auto simp: stream_inv_def split: if_splits; blast)
  qed simp_all
next
  case (Refuse j p e m')
  from Refuse(3) show ?thesis
    by (cases rule: Deliver_cases)
       (use Refuse(1,2) assms(3) in \<open>auto simp: stream_inv_def split: if_splits\<close>)
next
  case (Recv c m' e)
  from Recv(3) obtain x es where x: "chans (mgr s) c = Some x" "buf x = e # es"
    "m' = (mgr s)\<lparr>chans := (chans (mgr s))(c \<mapsto> x\<lparr>buf := es\<rparr>)\<rparr>" by (rule recvE)
  then show ?thesis
    using Recv(1,2) assms(3) by (auto simp: stream_inv_def split: if_splits)
qed (use assms(3) in \<open>auto simp: stream_inv_def Close_unlink_def close_chan_def
      split: option.splits if_splits\<close>)

lemma jruns_stream: "jruns tr s \<Longrightarrow> stream_inv tr s"
  by (induction rule: jruns.induct)
     (auto intro: stream_step jruns_inv, simp add: stream_inv_def jinit_def New_jobs_def)

text \<open>C11: however deliveries, receives and the two halves of closing interleave, the
  coordinator never sends on or closes a closed channel (which would crash it), every buffer
  holds at most 64 events, the relay receives the accepted events of its channel in order,
  nothing else and nothing twice, and each of them came from the provider the job was
  assigned to when the channel was registered.\<close>

theorem delivery_safe:
  assumes "jruns tr s"
  shows "\<not> panicked s \<and>
    (\<forall>c j p e. Sent c j p e \<in> set tr \<longrightarrow> Opened c j p \<in> set tr) \<and>
    (\<forall>c x. chans (mgr s) c = Some x \<longrightarrow> length (buf x) \<le> chan_cap \<and> sent_on c tr = recvd_on c tr @ buf x)"
  using jruns_inv [OF assms] jruns_stream [OF assms] jinv_buf
  unfolding stream_inv_def jinv_def by blast

lemma sample_run:
  "\<exists>s. jruns [Opened 0 ''j'' ''p'', Sent 0 ''j'' ''p'' True] s \<and>
     chans (mgr s) 0 = Some \<lparr>buf = [True], is_closed = False\<rparr>"
proof -
  let ?m1 = "fst (Register_job ''j'' ''p'' (New_jobs :: bool Manager))"
  let ?s1 = "(jinit :: bool jstate)\<lparr>mgr := ?m1\<rparr>"
  let ?m2 = "?m1\<lparr>chans := (chans ?m1)(0 \<mapsto> \<lparr>buf = [True], is_closed = False\<rparr>)\<rparr>"
  have "jstep jinit (Opened 0 ''j'' ''p'') ?s1"
    by (rule jstep.Register) (simp add: Register_job_def jinit_def New_jobs_def)
  then have "jruns ([] @ [Opened 0 ''j'' ''p'']) ?s1" by (rule jruns.Step [OF jruns.Init])
  note one = this
  have "jstep ?s1 (Sent (ch \<lparr>providerID = ''p'', ch = 0\<rparr>) ''j'' ''p'' True) (?s1\<lparr>mgr := ?m2\<rparr>)"
    by (rule jstep.Deliver)
       (simp_all add: Deliver_def Register_job_def jinit_def New_jobs_def try_send_def chan_cap_def)
  from jruns.Step [OF one this]
  have "jruns (([] @ [Opened 0 ''j'' ''p'']) @ [Sent 0 ''j'' ''p'' True]) (?s1\<lparr>mgr := ?m2\<rparr>)" by simp
  then show ?thesis by (intro exI [of _ "?s1\<lparr>mgr := ?m2\<rparr>"]) simp
qed

lemma delivery_safe_witness:
  "\<exists>s. jruns [Opened 0 ''j'' ''p'', Sent 0 ''j'' ''p'' True] s \<and> \<not> panicked s"
  using sample_run delivery_safe by blast

text \<open>A frame from any connection other than the assigned one changes nothing.\<close>

lemma Deliver_foreign:
  "jm m j = Some a \<Longrightarrow> providerID a \<noteq> p \<Longrightarrow> Deliver j p e m = Ok (m, False)"
  by (simp add: Deliver_def)

lemma Deliver_unknown: "jm m j = None \<Longrightarrow> Deliver j p e m = Ok (m, False)"
  by (simp add: Deliver_def)

lemma Has_Register: "Has (fst (Register_job j p m)) k \<longleftrightarrow> k = j \<or> Has m k"
  by (simp add: Has_def Register_job_def Let_def)

end
