(* ===== verification/Relay.thy ===== *)
theory Relay
  imports Manifest Box Wire Scheduler Jobs
begin

text \<open>
  Package \<open>relay\<close> (coordinator/internal/relay/relay.go): one inference job from the choice of a
  provider to its result. The \<open>select\<close> loop of \<open>ExecuteOn\<close> is a step function on what the
  select can yield (the client's context ends, the deadline timer fires, the job channel is
  closed, an event arrives) and a recursion over the sequence of those; the sequence is the
  scheduler's and the provider's choice. The model records the cancels sent and the deltas
  forwarded. NaCl, the parser of JSON text, the text of the marshalled request, the client's
  callback and the random and clock readings are arguments.
\<close>

record Request =
  rq_Model :: string
  rq_Messages :: "ChatMessage list"
  rq_Params :: SamplingParams
  rq_MinTier :: string
  rq_MinContext :: int
  rq_HWClass :: string

record Result =
  rs_Usage :: Usage
  rs_FinishReason :: string
  rs_ProviderID :: string
  rs_ProviderPK :: string
  rs_TrustTier :: string
  rs_JobID :: string

datatype relay_error =
    Sched sched_error
  | EphemeralKey
  | MarshalPlaintext
  | SealJob
  | ErrProviderGone
  | CtxCanceled
  | CtxDeadlineExceeded
  | ErrDeadline string
  | BadJobChunk
  | ErrDecrypt
  | BadChunkPlaintext
  | ErrInvalidProviderResult
  | BadJobDone
  | ProviderJobError string
  | OtherError string

datatype relay_input = CtxDone relay_error | DeadlineFires | ChanClosed | Got "json Event"

text \<open>What one activation of \<open>ExecuteOn\<close> has fixed before the loop.\<close>

record activation =
  ac_box_open :: "string \<Rightarrow> string \<Rightarrow> string \<Rightarrow> string \<Rightarrow> string option"
  ac_parse :: "string \<Rightarrow> json option"
  ac_onDelta :: "string list \<Rightarrow> string \<Rightarrow> relay_error option"
  ac_jobID :: string
  ac_secret :: string
  ac_prov :: Provider
  ac_req :: Request

record relay_state =
  expectedSeq :: int
  deltas :: "string list"
  cancels :: "string list"

definition loop_init :: relay_state where
  "loop_init = \<lparr>expectedSeq = 0, deltas = [], cancels = []\<rparr>"

definition maxPromptUnits :: "Request \<Rightarrow> int" where
  "maxPromptUnits req = foldl (\<lambda>n m. n + (int (length (Role m)) + int (length (Content m)) + 16)) 0 (rq_Messages req)"

definition cancel :: "string \<Rightarrow> relay_state \<Rightarrow> relay_state" where
  "cancel reason s = s\<lparr>cancels := cancels s @ [reason]\<rparr>"

subsection \<open>One turn of the loop\<close>

definition on_chunk :: "activation \<Rightarrow> json \<Rightarrow> relay_state \<Rightarrow> relay_state \<times> relay_error option" where
  "on_chunk a raw s = (case dec_struct chunk_fields raw chunk_zero of
     None \<Rightarrow> (s, Some BadJobChunk)
   | Some jc \<Rightarrow> (case Open (ac_box_open a) (jc_Sealed jc) (StaticPKBytes (ac_prov a)) (ac_secret a) of
       None \<Rightarrow> (cancel ''superseded'' s, Some ErrDecrypt)
     | Some plain \<Rightarrow> (case Option.bind (ac_parse a plain) (\<lambda>j. dec_struct chunkpt_fields j chunkpt_zero) of
         None \<Rightarrow> (s, Some BadChunkPlaintext)
       | Some cp \<Rightarrow>
           (let maxTok = MaxTokens (rq_Params (ac_req a));
                overCeiling = (maxTok > 0 \<and> expectedSeq s \<ge> maxTok) in
            if jc_JobID jc \<noteq> ac_jobID a \<or> jcp_JobID cp \<noteq> ac_jobID a \<or> jcp_Seq cp \<noteq> expectedSeq s \<or> overCeiling
              then (cancel ''invalid-result'' s, Some ErrInvalidProviderResult)
            else let s = s\<lparr>expectedSeq := wrap64 (expectedSeq s + 1)\<rparr> in
              if jcp_Delta cp \<noteq> [] then
                (case ac_onDelta a (deltas s) (jcp_Delta cp) of
                   Some err \<Rightarrow> (cancel ''client-disconnect'' s, Some err)
                 | None \<Rightarrow> (s\<lparr>deltas := deltas s @ [jcp_Delta cp]\<rparr>, None))
              else (s, None)))))"

definition on_done :: "activation \<Rightarrow> json \<Rightarrow> relay_state \<Rightarrow> relay_error + Result" where
  "on_done a raw s = (case dec_struct done_fields raw done_zero of
     None \<Rightarrow> Inl BadJobDone
   | Some jd \<Rightarrow>
       if jd_JobID jd \<noteq> ac_jobID a \<or> PromptTokens (jd_Usage jd) < 0 \<or>
          PromptTokens (jd_Usage jd) > maxPromptUnits (ac_req a) then Inl ErrInvalidProviderResult
       else Inr \<lparr>rs_Usage = (jd_Usage jd)\<lparr>CompletionTokens := expectedSeq s,
                    TotalTokens := wrap64 (PromptTokens (jd_Usage jd) + expectedSeq s)\<rparr>,
                 rs_FinishReason = jd_FinishReason jd, rs_ProviderID = ID (ac_prov a),
                 rs_ProviderPK = b64_encode (StaticPKBytes (ac_prov a)),
                 rs_TrustTier = TrustTier (ac_prov a), rs_JobID = ac_jobID a\<rparr>)"

fun on_input :: "activation \<Rightarrow> relay_input \<Rightarrow> relay_state \<Rightarrow> relay_state \<times> (relay_error + Result) option" where
  "on_input a (CtxDone err) s = (cancel ''client-disconnect'' s, Some (Inl err))"
| "on_input a DeadlineFires s = (cancel ''deadline'' s, Some (Inl (ErrDeadline (ac_jobID a))))"
| "on_input a ChanClosed s = (s, Some (Inl ErrProviderGone))"
| "on_input a (Got ev) s = (case ev_Kind ev of
     KindChunk \<Rightarrow> (case on_chunk a (ev_Raw ev) s of (s', err) \<Rightarrow> (s', map_option Inl err))
   | KindDone \<Rightarrow> (s, Some (on_done a (ev_Raw ev) s))
   | KindError \<Rightarrow> (s, Some (Inl (ProviderJobError (je_Code (dec_lenient joberr_fields (ev_Raw ev) joberr_zero))))))"

text \<open>\<open>None\<close>: the inputs are used up and the relay is blocked in the select.\<close>

fun relay_loop :: "activation \<Rightarrow> relay_input list \<Rightarrow> relay_state \<Rightarrow> relay_state \<times> (relay_error + Result) option" where
  "relay_loop a [] s = (s, None)"
| "relay_loop a (i # is) s = (case on_input a i s of
     (s', Some r) \<Rightarrow> (s', Some r) | (s', None) \<Rightarrow> relay_loop a is s')"

subsection \<open>The manifest of a job\<close>

definition job_manifest :: "(string \<Rightarrow> string) \<Rightarrow> int \<Rightarrow> string \<Rightarrow> string \<Rightarrow> Provider \<Rightarrow> Request \<Rightarrow> string \<Rightarrow> int \<Rightarrow>
    WorkloadManifest" where
  "job_manifest sha256 now nonce24 jobID p req ptRaw deadlineMS =
    \<lparr>ManifestVersion = 0, wm_JobID = jobID, LeaseID = jobID, WorkloadID = jobID, CustomerID = [],
     DevicePK = b64_encode (StaticPKBytes p), RuntimeID = ''llama.cpp'', RuntimeVersion = ''v0'',
     RuntimeHash = Sha256Hex sha256 ''llama.cpp@v0'', ModelID = rq_Model req,
     ModelHash = Sha256Hex sha256 (rq_Model req), Operation = [], InputHash = Sha256Hex sha256 ptRaw,
     wm_Limits = DefaultLimits (MaxTokens (rq_Params req)), NetworkPolicy = [],
     wm_CreatedAt = now, wm_ExpiresAt = wrap64 (now + LeaseSeconds deadlineMS), wm_Nonce = NewNonce nonce24\<rparr>"

definition signJobManifest :: "(WorkloadManifest \<Rightarrow> manifest_error + SignedManifest) \<Rightarrow> (string \<Rightarrow> string) \<Rightarrow>
    int \<Rightarrow> string \<Rightarrow> string \<Rightarrow> Provider \<Rightarrow> Request \<Rightarrow> string \<Rightarrow> int \<Rightarrow> manifest_error + SignedManifest" where
  "signJobManifest sign sha256 now nonce24 jobID p req ptRaw deadlineMS =
     sign (job_manifest sha256 now nonce24 jobID p req ptRaw deadlineMS)"

subsection \<open>The whole call\<close>

text \<open>The state it shares: the registry with its providers and the job manager.\<close>

record shared =
  sh_reg :: Registry
  sh_jobs :: "json Event Manager"

text \<open>Readings and library results of one call.\<close>

record call_env =
  ce_key :: "KeyPair option"
  ce_uuid :: string
  ce_marshal :: "JobRequestPlaintext \<Rightarrow> string option"
  ce_box_seal :: "string \<Rightarrow> string \<Rightarrow> string \<Rightarrow> string \<Rightarrow> string"
  ce_nonce :: "string option"
  ce_manifest :: "(string \<Rightarrow> Provider \<Rightarrow> Request \<Rightarrow> string \<Rightarrow> manifest_error + SignedManifest) option"
  ce_send :: "SignedManifest JobRequest \<Rightarrow> bool"
  ce_box_open :: "string \<Rightarrow> string \<Rightarrow> string \<Rightarrow> string \<Rightarrow> string option"
  ce_parse :: "string \<Rightarrow> json option"
  ce_deadline :: int

datatype prepared = Refused relay_error | Dispatched shared nat activation | SendFailed shared

text \<open>Up to and including the send of the job; \<open>Register\<close> and \<open>AcquireSlot\<close> come before it.\<close>

definition ExecuteOn_start :: "call_env \<Rightarrow> pref \<Rightarrow> Request \<Rightarrow> (string list \<Rightarrow> string \<Rightarrow> relay_error option) \<Rightarrow>
    shared \<Rightarrow> prepared" where
  "ExecuteOn_start c p req onDelta w = (case ce_key c of
     None \<Rightarrow> Refused EphemeralKey
   | Some ephem \<Rightarrow>
       (let jobID = ce_uuid c; prv = prov (sh_reg w) p;
            pt = \<lparr>jrp_JobID = jobID, jrp_Model = rq_Model req, jrp_Messages = rq_Messages req,
                  jrp_Params = rq_Params req, jrp_Stream = True\<rparr> in
        case ce_marshal c pt of
          None \<Rightarrow> Refused MarshalPlaintext
        | Some ptRaw \<Rightarrow>
            (case Seal (ce_box_seal c) (ce_nonce c) ptRaw (StaticPKBytes prv) (Secret ephem) (Public ephem) of
               None \<Rightarrow> Refused SealJob
             | Some sealed \<Rightarrow>
                 (case Register_job jobID (ID prv) (sh_jobs w) of (jobs', chn) \<Rightarrow>
                  let w' = \<lparr>sh_reg = upd_prov AcquireSlot p (sh_reg w), sh_jobs = jobs'\<rparr>;
                      man = (case ce_manifest c of None \<Rightarrow> None
                        | Some sign \<Rightarrow> (case sign jobID prv req ptRaw of Inl _ \<Rightarrow> None | Inr sm \<Rightarrow> Some sm));
                      jr = \<lparr>jr_JobID = jobID, jr_Model = rq_Model req, jr_DeadlineMS = ce_deadline c,
                            jr_Sealed = sealed, jr_Manifest = man\<rparr>;
                      act = \<lparr>ac_box_open = ce_box_open c, ac_parse = ce_parse c, ac_onDelta = onDelta,
                             ac_jobID = jobID, ac_secret = Secret ephem, ac_prov = prv, ac_req = req\<rparr> in
                  if ce_send c jr then Dispatched w' chn act else SendFailed w'))))"

text \<open>The deferred calls, in the order they run: \<open>ReleaseSlot\<close>, \<open>Close\<close>.\<close>

definition ExecuteOn_exit :: "pref \<Rightarrow> string \<Rightarrow> shared \<Rightarrow> shared outcome" where
  "ExecuteOn_exit p jobID w = (case Close jobID (sh_jobs w) of
     Panic \<Rightarrow> Panic
   | Ok jobs' \<Rightarrow> Ok \<lparr>sh_reg = upd_prov ReleaseSlot p (sh_reg w), sh_jobs = jobs'\<rparr>)"

text \<open>\<open>run\<close> is what everybody else does to the shared state while the loop is running, and
  \<open>ins\<close> what the select yields; \<open>None\<close> as the result is a call still blocked.\<close>

definition ExecuteOn :: "call_env \<Rightarrow> pref \<Rightarrow> Request \<Rightarrow> (string list \<Rightarrow> string \<Rightarrow> relay_error option) \<Rightarrow>
    relay_input list \<Rightarrow> (shared \<Rightarrow> shared) \<Rightarrow> shared \<Rightarrow> (shared \<times> (relay_error + Result) option) outcome" where
  "ExecuteOn c p req onDelta ins run w = (case ExecuteOn_start c p req onDelta w of
     Refused err \<Rightarrow> Ok (w, Some (Inl err))
   | SendFailed w' \<Rightarrow> (case ExecuteOn_exit p (ce_uuid c) w' of Panic \<Rightarrow> Panic
       | Ok w2 \<Rightarrow> Ok (w2, Some (Inl ErrProviderGone)))
   | Dispatched w' chn act \<Rightarrow> (case relay_loop act ins loop_init of
         (s, None) \<Rightarrow> Ok (run w', None)
       | (s, Some r) \<Rightarrow> (case ExecuteOn_exit p (ce_uuid c) (run w') of Panic \<Rightarrow> Panic
           | Ok w2 \<Rightarrow> Ok (w2, Some r))))"

definition Execute :: "call_env \<Rightarrow> string list \<Rightarrow> Request \<Rightarrow> (string list \<Rightarrow> string \<Rightarrow> relay_error option) \<Rightarrow>
    relay_input list \<Rightarrow> (shared \<Rightarrow> shared) \<Rightarrow> shared \<Rightarrow> (shared \<times> (relay_error + Result) option) outcome" where
  "Execute c order req onDelta ins run w =
    (case Pick (sh_reg w) order \<lparr>req_Model = rq_Model req, req_MinTier = rq_MinTier req,
         req_MinContext = rq_MinContext req, req_HWClass = rq_HWClass req\<rparr> of
       Inl e \<Rightarrow> Ok (w, Some (Inl (Sched e)))
     | Inr p \<Rightarrow> ExecuteOn c p req onDelta ins run w)"

fun ErrCode :: "relay_error \<Rightarrow> string \<times> string" where
  "ErrCode (Sched ErrNoProvider) = (''no_provider'', ''no provider is currently serving this model'')"
| "ErrCode (Sched ErrTierUnmet) = (''trust_tier_unmet'', ''no connected provider meets the requested trust level'')"
| "ErrCode (Sched ErrCapsUnmet) =
     (''capabilities_unmet'', ''no connected provider meets the model's resource requirements'')"
| "ErrCode ErrProviderGone = (''provider_gone'', ''the assigned provider disconnected'')"
| "ErrCode ErrInvalidProviderResult =
     (''invalid_provider_result'', ''the assigned provider returned an invalid result'')"
| "ErrCode (ErrDeadline j) = (''deadline'', ''the job exceeded the coordinator deadline'')"
| "ErrCode CtxCanceled = (''client_closed'', ''the request was cancelled'')"
| "ErrCode CtxDeadlineExceeded = (''client_closed'', ''the request was cancelled'')"
| "ErrCode _ = (''internal'', ''the request could not be completed'')"

end
