(* ===== verification/Relay_Props.thy ===== *)
theory Relay_Props
  imports Relay
begin

text \<open>
  What the relay guarantees: the result it reports counts and forwards exactly the ordered
  chunks of its own job, it stops after finitely many provider frames, its shared state is
  released on every path, and a manifest it signs is one the provider accepts. The last part
  shows what it does not do: a provider that disconnects leaves its job waiting.
\<close>

subsection \<open>Accepted chunks\<close>

definition opened :: "activation \<Rightarrow> json Event \<Rightarrow> (JobChunk \<times> JobChunkPlaintext) option" where
  "opened a ev = (if ev_Kind ev \<noteq> KindChunk then None else
     Option.bind (dec_struct chunk_fields (ev_Raw ev) chunk_zero) (\<lambda>jc.
     Option.bind (Open (ac_box_open a) (jc_Sealed jc) (StaticPKBytes (ac_prov a)) (ac_secret a)) (\<lambda>plain.
     Option.bind (Option.bind (ac_parse a plain) (\<lambda>j. dec_struct chunkpt_fields j chunkpt_zero)) (\<lambda>cp.
     Some (jc, cp)))))"

definition ceiling_ok :: "activation \<Rightarrow> int \<Rightarrow> bool" where
  "ceiling_ok a n \<longleftrightarrow> (MaxTokens (rq_Params (ac_req a)) > 0 \<longrightarrow> n < MaxTokens (rq_Params (ac_req a)))"

text \<open>The event is chunk number \<open>n\<close> of this job, with text \<open>t\<close>.\<close>

definition chunk_at :: "activation \<Rightarrow> int \<Rightarrow> json Event \<Rightarrow> string \<Rightarrow> bool" where
  "chunk_at a n ev t \<longleftrightarrow> (case opened a ev of None \<Rightarrow> False | Some (jc, cp) \<Rightarrow>
     jc_JobID jc = ac_jobID a \<and> jcp_JobID cp = ac_jobID a \<and> jcp_Seq cp = n \<and> jcp_Delta cp = t) \<and> ceiling_ok a n"

definition add_delta :: "string \<Rightarrow> string list \<Rightarrow> string list" where
  "add_delta t ds = (if t = [] then ds else ds @ [t])"

lemma on_chunk_continues:
  assumes "on_chunk a raw s = (s', None)"
  obtains t where "chunk_at a (expectedSeq s) \<lparr>ev_Kind = KindChunk, ev_Raw = raw\<rparr> t"
    "s' = s\<lparr>expectedSeq := wrap64 (expectedSeq s + 1), deltas := add_delta t (deltas s)\<rparr>"
    "t = [] \<or> ac_onDelta a (deltas s) t = None"
proof -
  from assms obtain jc where jc: "dec_struct chunk_fields raw chunk_zero = Some jc"
    by (auto simp: on_chunk_def split: option.splits)
  from assms jc obtain pl where pl: "Open (ac_box_open a) (jc_Sealed jc) (StaticPKBytes (ac_prov a)) (ac_secret a) = Some pl"
    by (auto simp: on_chunk_def split: option.splits)
  from assms jc pl obtain cp where cp: "Option.bind (ac_parse a pl) (\<lambda>j. dec_struct chunkpt_fields j chunkpt_zero) = Some cp"
    by (auto simp: on_chunk_def split: option.splits)
  note d = assms [unfolded on_chunk_def jc option.case pl cp Let_def]
  have g: "jc_JobID jc = ac_jobID a" "jcp_JobID cp = ac_jobID a" "jcp_Seq cp = expectedSeq s"
    "ceiling_ok a (expectedSeq s)"
    using d by (auto simp: ceiling_ok_def split: if_splits)
  then have "chunk_at a (expectedSeq s) \<lparr>ev_Kind = KindChunk, ev_Raw = raw\<rparr> (jcp_Delta cp)"
    by (simp add: chunk_at_def opened_def jc pl cp del: Option.bind_assoc)
  moreover have "s' = s\<lparr>expectedSeq := wrap64 (expectedSeq s + 1), deltas := add_delta (jcp_Delta cp) (deltas s)\<rparr>"
    "jcp_Delta cp = [] \<or> ac_onDelta a (deltas s) (jcp_Delta cp) = None"
    using d g by (auto simp: ceiling_ok_def add_delta_def split: if_splits option.splits)
  ultimately show ?thesis using that by blast
qed

lemma on_input_continues:
  assumes "on_input a i s = (s', None)"
  obtains ev t where "i = Got ev" "chunk_at a (expectedSeq s) ev t"
    "s' = s\<lparr>expectedSeq := wrap64 (expectedSeq s + 1), deltas := add_delta t (deltas s)\<rparr>"
    "t = [] \<or> ac_onDelta a (deltas s) t = None"
proof (cases i)
  case (Got ev)
  then have k: "ev_Kind ev = KindChunk" using assms by (auto split: Kind.splits)
  then have "on_chunk a (ev_Raw ev) s = (s', None)"
    using assms Got by (auto split: prod.splits)
  from on_chunk_continues [OF this] obtain t where
    "chunk_at a (expectedSeq s) \<lparr>ev_Kind = KindChunk, ev_Raw = ev_Raw ev\<rparr> t"
    "s' = s\<lparr>expectedSeq := wrap64 (expectedSeq s + 1), deltas := add_delta t (deltas s)\<rparr>"
    "t = [] \<or> ac_onDelta a (deltas s) t = None" by blast
  then show ?thesis using that [OF Got] k by (cases ev) simp
qed (use assms in auto)

lemma on_input_returns_result:
  assumes "on_input a i s = (s', Some (Inr res))"
  shows "\<exists>ev. i = Got ev \<and> ev_Kind ev = KindDone \<and> s' = s \<and> on_done a (ev_Raw ev) s = Inr res"
  using assms by (cases i) (auto split: Kind.splits prod.splits option.splits)

text \<open>The chunks a run of the loop has taken in, numbered from \<open>n\<close>.\<close>

fun chunks_from :: "activation \<Rightarrow> int \<Rightarrow> json Event list \<Rightarrow> string list \<Rightarrow> bool" where
  "chunks_from a n [] [] = True"
| "chunks_from a n (ev # evs) (t # ts) = (chunk_at a n ev t \<and> chunks_from a (n + 1) evs ts)"
| "chunks_from a n _ _ = False"

lemma chunks_from_length: "chunks_from a n evs ts \<Longrightarrow> length ts = length evs"
  by (induction a n evs ts rule: chunks_from.induct) auto

lemma chunks_from_ceiling:
  "chunks_from a n evs ts \<Longrightarrow> MaxTokens (rq_Params (ac_req a)) > 0 \<Longrightarrow> n \<le> MaxTokens (rq_Params (ac_req a)) \<Longrightarrow>
   n + int (length evs) \<le> MaxTokens (rq_Params (ac_req a))"
  by (induction a n evs ts rule: chunks_from.induct) (auto simp: chunk_at_def ceiling_ok_def)

lemma on_done_seq: "expectedSeq s = expectedSeq s' \<Longrightarrow> on_done a raw s = on_done a raw s'"
  unfolding on_done_def by (simp only:)

lemma relay_loop_result:
  assumes "relay_loop a is s = (s', Some (Inr res))" "0 \<le> expectedSeq s" "expectedSeq s + int (length is) < 2 ^ 63"
  shows "\<exists>evs ts d rest. is = map Got evs @ Got d # rest \<and> chunks_from a (expectedSeq s) evs ts \<and>
     ev_Kind d = KindDone \<and> deltas s' = deltas s @ filter (\<lambda>t. t \<noteq> []) ts \<and> cancels s' = cancels s \<and>
     expectedSeq s' = expectedSeq s + int (length evs) \<and> on_done a (ev_Raw d) s' = Inr res"
  using assms
proof (induction "is" arbitrary: s)
  case (Cons i "is")
  show ?case
  proof (cases "snd (on_input a i s)")
    case (Some r)
    then have "on_input a i s = (s', Some (Inr res))" using Cons.prems(1) by (cases "on_input a i s") simp
    then obtain ev where "i = Got ev" "ev_Kind ev = KindDone" "s' = s" "on_done a (ev_Raw ev) s = Inr res"
      using on_input_returns_result by blast
    then have "i # is = map Got [] @ Got ev # is \<and> chunks_from a (expectedSeq s) [] [] \<and> ev_Kind ev = KindDone \<and>
        deltas s' = deltas s @ filter (\<lambda>t. t \<noteq> []) [] \<and> cancels s' = cancels s \<and>
        expectedSeq s' = expectedSeq s + int (length ([] :: json Event list)) \<and> on_done a (ev_Raw ev) s' = Inr res"
      by simp
    then show ?thesis by blast
  next
    case None
    then obtain s1 where s1: "on_input a i s = (s1, None)" by (cases "on_input a i s") simp
    then obtain ev t where ev: "i = Got ev" "chunk_at a (expectedSeq s) ev t"
      "s1 = s\<lparr>expectedSeq := wrap64 (expectedSeq s + 1), deltas := add_delta t (deltas s)\<rparr>"
      by (rule on_input_continues)
    have w: "wrap64 (expectedSeq s + 1) = expectedSeq s + 1"
      using Cons.prems(2,3) by (simp add: is_int64_def)
    have "relay_loop a is s1 = (s', Some (Inr res))" using Cons.prems(1) s1 by simp
    from Cons.IH [OF this] obtain evs ts d rest where
      "is = map Got evs @ Got d # rest" "chunks_from a (expectedSeq s + 1) evs ts" "ev_Kind d = KindDone"
      "deltas s' = add_delta t (deltas s) @ filter (\<lambda>t. t \<noteq> []) ts" "cancels s' = cancels s"
      "expectedSeq s' = expectedSeq s + 1 + int (length evs)" "on_done a (ev_Raw d) s' = Inr res"
      using ev(3) w Cons.prems(2,3) by auto
    then have "i # is = map Got (ev # evs) @ Got d # rest \<and> chunks_from a (expectedSeq s) (ev # evs) (t # ts) \<and>
        ev_Kind d = KindDone \<and> deltas s' = deltas s @ filter (\<lambda>t. t \<noteq> []) (t # ts) \<and> cancels s' = cancels s \<and>
        expectedSeq s' = expectedSeq s + int (length (ev # evs)) \<and> on_done a (ev_Raw d) s' = Inr res"
      using ev(1,2) by (simp add: add_delta_def)
    then show ?thesis by blast
  qed
qed simp


lemma relay_loop_blocked:
  assumes "relay_loop a is s = (s', None)" "0 \<le> expectedSeq s" "expectedSeq s + int (length is) < 2 ^ 63"
  shows "\<exists>evs ts. is = map Got evs \<and> chunks_from a (expectedSeq s) evs ts"
  using assms
proof (induction "is" arbitrary: s)
  case Nil
  then show ?case by (intro exI [of _ "[]"]) simp
next
  case (Cons i "is")
  then obtain s1 where s1: "on_input a i s = (s1, None)"
    by (cases "on_input a i s"; cases "snd (on_input a i s)") auto
  then obtain ev t where ev: "i = Got ev" "chunk_at a (expectedSeq s) ev t"
    "s1 = s\<lparr>expectedSeq := wrap64 (expectedSeq s + 1), deltas := add_delta t (deltas s)\<rparr>"
    by (rule on_input_continues)
  have w: "wrap64 (expectedSeq s + 1) = expectedSeq s + 1"
    using Cons.prems(2,3) by (simp add: is_int64_def)
  have "relay_loop a is s1 = (s', None)" using Cons.prems(1) s1 by simp
  from Cons.IH [OF this] obtain evs ts where "is = map Got evs" "chunks_from a (expectedSeq s + 1) evs ts"
    using ev(3) w Cons.prems(2,3) by auto
  then have "i # is = map Got (ev # evs) \<and> chunks_from a (expectedSeq s) (ev # evs) (t # ts)"
    using ev(1,2) by simp
  then show ?case by (intro exI)
qed

lemma relay_loop_append: "relay_loop a (is @ js) s =
    (case relay_loop a is s of (s', Some r) \<Rightarrow> (s', Some r) | (s', None) \<Rightarrow> relay_loop a js s')"
  by (induction "is" arbitrary: s) (auto split: prod.splits option.splits)

text \<open>A small activation and its frames, for concrete instances.\<close>

definition sample_act :: "int \<Rightarrow> activation" where
  "sample_act n = \<lparr>ac_box_open = (\<lambda>c n p s. Some c),
     ac_parse = (\<lambda>t. Some (JObj [(''job_id'', JStr ''j''), (''seq'', JNum 0), (''delta'', JStr t)])),
     ac_onDelta = (\<lambda>_ _. None), ac_jobID = ''j'', ac_secret = [], ac_prov = sample_provider,
     ac_req = \<lparr>rq_Model = ''m'', rq_Messages = [\<lparr>Role = ''user'', Content = ''hi''\<rparr>],
       rq_Params = \<lparr>MaxTokens = n, Temperature = None, TopP = None, TopK = None, RepeatPenalty = None,
         Stop = [], Seed = None\<rparr>, rq_MinTier = [], rq_MinContext = 0, rq_HWClass = []\<rparr>\<rparr>"

definition sample_frames :: "relay_input list" where
  "sample_frames = [Got \<lparr>ev_Kind = KindChunk, ev_Raw = JObj [(''job_id'', JStr ''j''),
       (''sealed'', JObj [(''alg'', JStr SealAlg), (''nonce'', JStr (b64_encode (replicate 24 (CHR ''n'')))),
         (''ciphertext'', JStr (b64_encode ''Hello''))])]\<rparr>,
     Got \<lparr>ev_Kind = KindDone, ev_Raw = JObj [(''job_id'', JStr ''j''),
       (''usage'', JObj [(''prompt_tokens'', JNum 5), (''completion_tokens'', JNum 900)])]\<rparr>]"

lemmas wire_eval = chunk_fields_def sealed_fields_def chunkpt_fields_def done_fields_def usage_fields_def
  chunk_zero_def sealed_zero_def chunkpt_zero_def done_zero_def find_field_def fld_def fld_skip_def string_eval

lemma sample_chunk_dec: "dec_struct chunk_fields (JObj [(''job_id'', JStr ''j''),
       (''sealed'', JObj [(''alg'', JStr SealAlg), (''nonce'', JStr n), (''ciphertext'', JStr c)])]) chunk_zero =
   Some \<lparr>jc_JobID = ''j'', jc_Sealed = \<lparr>Alg = SealAlg, EPK = [], Nonce = n, Ciphertext = c\<rparr>\<rparr>"
  by (simp add: wire_eval)

lemma sample_pt_dec: "dec_struct chunkpt_fields (JObj [(''job_id'', JStr ''j''), (''seq'', JNum 0), (''delta'', JStr t)])
    chunkpt_zero = Some \<lparr>jcp_JobID = ''j'', jcp_Seq = 0, jcp_Delta = t, jcp_Done = False\<rparr>"
  by (simp add: wire_eval is_int64_def)

lemma sample_done_dec: "dec_struct done_fields (JObj [(''job_id'', JStr ''j''),
       (''usage'', JObj [(''prompt_tokens'', JNum 5), (''completion_tokens'', JNum 900)])]) done_zero =
   Some (done_zero\<lparr>jd_JobID := ''j'', jd_Usage := \<lparr>PromptTokens = 5, CompletionTokens = 900, TotalTokens = 0\<rparr>\<rparr>)"
  by (simp add: wire_eval is_int64_def)

lemma sample_loop_run: "case relay_loop (sample_act 8) sample_frames loop_init of
    (s, Some (Inr res)) \<Rightarrow> deltas s = [''Hello''] \<and> CompletionTokens (rs_Usage res) = 1 | _ \<Rightarrow> False"
  by (simp add: sample_act_def sample_frames_def on_chunk_def on_done_def sample_chunk_dec sample_pt_dec
      sample_done_dec Open_def b64_roundtrip maxPromptUnits_def loop_init_def is_int64_def
      Let_def del: dec_struct.simps b64_encode.simps)

text \<open>C3: when a call succeeds, the frames it took from the channel are chunks 0, 1, ..., n-1 of
  this very job, each decrypted with the job's own key, then one done frame; the client got
  their non-empty texts in that order and nothing else; the completion count reported (and
  billed) is n, whatever the provider claimed, at most the request's token ceiling; the
  provider's prompt count was between 0 and the coordinator's own bound, and no cancel was sent.\<close>

theorem relay_reports_ordered_stream:
  assumes "relay_loop a is loop_init = (s, Some (Inr res))" "int (length is) < 2 ^ 62"
    and "maxPromptUnits (ac_req a) < 2 ^ 62"
  shows "\<exists>evs ts d rest. is = map Got evs @ Got d # rest \<and> chunks_from a 0 evs ts \<and> ev_Kind d = KindDone \<and>
     deltas s = filter (\<lambda>t. t \<noteq> []) ts \<and> cancels s = [] \<and>
     CompletionTokens (rs_Usage res) = int (length evs) \<and>
     (MaxTokens (rq_Params (ac_req a)) > 0 \<longrightarrow> int (length evs) \<le> MaxTokens (rq_Params (ac_req a))) \<and>
     0 \<le> PromptTokens (rs_Usage res) \<and> PromptTokens (rs_Usage res) \<le> maxPromptUnits (ac_req a) \<and>
     TotalTokens (rs_Usage res) = PromptTokens (rs_Usage res) + int (length evs)"
proof -
  have z: "expectedSeq loop_init = 0" "deltas loop_init = []" "cancels loop_init = []" by (simp_all add: loop_init_def)
  obtain evs ts d rest where r: "is = map Got evs @ Got d # rest" "chunks_from a 0 evs ts" "ev_Kind d = KindDone"
    "deltas s = filter (\<lambda>t. t \<noteq> []) ts" "cancels s = []" "expectedSeq s = int (length evs)"
    "on_done a (ev_Raw d) s = Inr res"
    using relay_loop_result [OF assms(1)] assms(2) z by auto
  then obtain jd where jd: "dec_struct done_fields (ev_Raw d) done_zero = Some jd"
    by (auto simp: on_done_def split: option.splits)
  have u: "rs_Usage res = (jd_Usage jd)\<lparr>CompletionTokens := expectedSeq s,
      TotalTokens := wrap64 (PromptTokens (jd_Usage jd) + expectedSeq s)\<rparr>"
    "0 \<le> PromptTokens (jd_Usage jd)" "PromptTokens (jd_Usage jd) \<le> maxPromptUnits (ac_req a)"
    using r(7) jd by (auto simp: on_done_def split: if_splits)
  have "length evs \<le> length is" using r(1) by simp
  then have "is_int64 (PromptTokens (jd_Usage jd) + int (length evs))"
    using u(2,3) assms(2,3) by (simp add: is_int64_def)
  then show ?thesis
    using r u chunks_from_ceiling [OF r(2)] by (intro exI [of _ evs] exI [of _ ts] exI [of _ d] exI [of _ rest]) auto
qed

lemma relay_reports_ordered_stream_witness:
  "\<exists>s res. relay_loop (sample_act 8) sample_frames loop_init = (s, Some (Inr res)) \<and>
     cancels s = [] \<and> PromptTokens (rs_Usage res) \<le> maxPromptUnits (ac_req (sample_act 8))"
proof -
  obtain s res where r: "relay_loop (sample_act 8) sample_frames loop_init = (s, Some (Inr res))"
    using sample_loop_run by (auto split: prod.splits option.splits sum.splits)
  from relay_reports_ordered_stream [OF r] r show ?thesis
    by (auto simp: sample_frames_def maxPromptUnits_def sample_act_def)
qed

text \<open>The loop ends: with a positive token ceiling it has returned after at most ceiling + 1
  frames, whatever the provider sends and however long it keeps sending.\<close>

lemma relay_loop_terminates:
  assumes "0 < MaxTokens (rq_Params (ac_req a))" "MaxTokens (rq_Params (ac_req a)) < 2 ^ 62"
    and "MaxTokens (rq_Params (ac_req a)) < int (length is)"
  shows "\<exists>s r. relay_loop a is loop_init = (s, Some r)"
proof -
  let ?m = "nat (MaxTokens (rq_Params (ac_req a)))"
  obtain s r where sr: "relay_loop a (take (Suc ?m) is) loop_init = (s, r)" by fastforce
  have "Suc ?m \<le> length is" using assms(1,3) by linarith
  then have len: "length (take (Suc ?m) is) = Suc ?m" by simp
  have "r \<noteq> None"
  proof
    assume "r = None"
    with sr have n: "relay_loop a (take (Suc ?m) is) loop_init = (s, None)" by simp
    have z: "expectedSeq loop_init = 0" by (simp add: loop_init_def)
    have "expectedSeq loop_init + int (length (take (Suc ?m) is)) < 2 ^ 63"
      unfolding len z using assms(1,2) by simp
    from relay_loop_blocked [OF n _ this] obtain evs ts where
      e: "take (Suc ?m) is = map Got evs" "chunks_from a 0 evs ts" unfolding z by auto
    have "length evs = Suc ?m" using e(1) len by (metis length_map)
    with chunks_from_ceiling [OF e(2)] assms(1) show False by simp
  qed
  then have "relay_loop a (take (Suc ?m) is @ drop (Suc ?m) is) loop_init = (s, r)"
    unfolding relay_loop_append using sr by (auto split: option.splits)
  with \<open>r \<noteq> None\<close> show ?thesis by (auto simp: append_take_drop_id)
qed

lemma relay_loop_terminates_witness:
  "\<exists>s r. relay_loop (sample_act 1) [DeadlineFires, DeadlineFires] loop_init = (s, Some r)"
  by (rule relay_loop_terminates) (simp_all add: sample_act_def)

subsection \<open>The manifest of a dispatched job\<close>

lemma job_manifest_valid:
  assumes "length (StaticPKBytes p) = 32" "length nonce = 24" "jobID \<noteq> []" "rq_Model req \<noteq> []"
    and "\<And>x. length (sha256 x) = 32"
  shows "validateStructure (stamp (job_manifest sha256 now nonce jobID p req ptRaw d)) = None"
  using assms DefaultLimits_positive [of "MaxTokens (rq_Params req)"]
  by (simp add: validateStructure_def stamp_def job_manifest_def NewNonce_def Let_def)

text \<open>For a provider with a 32-byte key and a named model the coordinator's signature never
  fails, and the node it is addressed to accepts the manifest under its compiled-in policy from
  30 seconds before the coordinator's clock until the lease ends, 30 to 240 seconds later.\<close>

lemma job_manifest_accepted:
  assumes "NewSigner kfs public i seed = Inr (Some s)"
    and "\<And>k msg. ed_verify (public (kfs k)) msg (ed_sign (kfs k) msg)"
    and "\<And>key msg. length (ed_sign key msg) = 64" "\<And>x. length (sha256 x) = 32"
    and "length (StaticPKBytes p) = 32" "length nonce = 24" "jobID \<noteq> []" "rq_Model req \<noteq> []"
    and "trusted (ls_id s) = Some (ls_pub s)" "0 \<le> now" "now < 2 ^ 61" "clock_ok t"
  shows "\<exists>sm. signJobManifest (Sign ed_sign s) sha256 now nonce jobID p req ptRaw d = Inr sm \<and>
     (Verify ed_verify sm trusted DefaultNodePolicy (EncodeKey (StaticPKBytes p)) t = None \<longleftrightarrow>
       now - 30 \<le> t \<and> t < now + LeaseSeconds d) \<and>
     30 \<le> LeaseSeconds d \<and> LeaseSeconds d \<le> 240 \<and>
     wm_JobID (sm_Manifest sm) = jobID \<and> InputHash (sm_Manifest sm) = Sha256Hex sha256 ptRaw"
proof -
  let ?m = "job_manifest sha256 now nonce jobID p req ptRaw d"
  have "prepare ?m = Inr (stamp ?m, canonicalBytes (stamp ?m))"
    using job_manifest_valid [OF assms(5-8,4)] by (simp add: prepare_ok)
  then obtain sm where sm: "Sign ed_sign s ?m = Inr sm" by (simp add: Sign_def Let_def)
  have b: "30 \<le> LeaseSeconds d" "LeaseSeconds d \<le> 240" using LeaseSeconds_bounds by auto
  have t: "wm_CreatedAt ?m = now" "wm_ExpiresAt ?m = now + LeaseSeconds d"
    using b assms(10,11) by (simp_all add: job_manifest_def is_int64_def)
  have c: "clock_ok (wm_CreatedAt ?m)" "clock_ok (wm_ExpiresAt ?m)" "clock_ok (MaxLeaseSeconds DefaultNodePolicy)"
    "clock_ok (MaxClockSkewSeconds DefaultNodePolicy)"
    using b assms(10,11) by (simp_all add: t clock_ok_def DefaultNodePolicy_def)
  have v: "sm_Manifest sm = stamp ?m \<and> (Verify ed_verify sm trusted DefaultNodePolicy (EncodeKey (StaticPKBytes p)) t = None \<longleftrightarrow>
      (EncodeKey (StaticPKBytes p) = [] \<or> DevicePK ?m = EncodeKey (StaticPKBytes p)) \<and>
      wm_CreatedAt ?m \<le> t + MaxClockSkewSeconds DefaultNodePolicy \<and> t < wm_ExpiresAt ?m \<and>
      wm_ExpiresAt ?m - wm_CreatedAt ?m \<le> MaxLeaseSeconds DefaultNodePolicy + MaxClockSkewSeconds DefaultNodePolicy \<and>
      \<not> limits_over (wm_Limits ?m) DefaultNodePolicy)"
    by (rule signed_verifies [of kfs public i seed s ed_verify ed_sign]) (fact assms sm c)+
  have "wm_Limits ?m = DefaultLimits (MaxTokens (rq_Params req))" "DevicePK ?m = EncodeKey (StaticPKBytes p)"
    "wm_JobID (stamp ?m) = jobID" "InputHash (stamp ?m) = Sha256Hex sha256 ptRaw"
    by (simp_all add: job_manifest_def EncodeKey_def stamp_def)
  moreover have "MaxLeaseSeconds DefaultNodePolicy = 300" "MaxClockSkewSeconds DefaultNodePolicy = 30"
    by (simp_all add: DefaultNodePolicy_def)
  ultimately show ?thesis
    using v sm b unfolding signJobManifest_def t
    by (intro exI [of _ sm]) (auto simp: DefaultLimits_within)
qed

lemma job_manifest_accepted_witness:
  "\<exists>sm. Verify (\<lambda>pub msg sig. True) sm [''signer-v1'' \<mapsto> replicate 32 (CHR ''k'')] DefaultNodePolicy
     (EncodeKey (replicate 32 (CHR ''p''))) 1000 = None \<and> wm_JobID (sm_Manifest sm) = ''j''"
proof -
  let ?s = "\<lparr>ls_id = ''signer-v1'', ls_key = replicate 32 (CHR ''k''), ls_pub = replicate 32 (CHR ''k'')\<rparr>"
  let ?p = "sample_provider\<lparr>StaticPKBytes := replicate 32 (CHR ''p'')\<rparr>"
  have ne: "b64_encode (replicate 32 (CHR ''k'')) \<noteq> []"
    using b64_roundtrip [of "replicate 32 (CHR ''k'')"] by (auto simp: b64_decode_def)
  have new: "NewSigner (\<lambda>s. s) (\<lambda>k. k) [] (b64_encode (replicate 32 (CHR ''k''))) = Inr (Some ?s)"
    by (simp add: NewSigner_ok b64_roundtrip ne del: b64_encode.simps)
  obtain sm where "Verify (\<lambda>pub msg sig. True) sm [''signer-v1'' \<mapsto> replicate 32 (CHR ''k'')] DefaultNodePolicy
       (EncodeKey (StaticPKBytes ?p)) 1000 = None \<longleftrightarrow> (990 :: int) - 30 \<le> 1000 \<and> (1000 :: int) < 990 + LeaseSeconds 60000"
    "wm_JobID (sm_Manifest sm) = ''j''"
    using job_manifest_accepted [OF new, of "\<lambda>pub msg sig. True" "\<lambda>k msg. replicate 64 (CHR ''s'')"
        "\<lambda>x. replicate 32 (CHR ''h'')" ?p "replicate 24 (CHR ''n'')" "''j''" "ac_req (sample_act 8)"
        "[''signer-v1'' \<mapsto> replicate 32 (CHR ''k'')]" 990 1000 "[]" 60000]
    by (auto simp: clock_ok_def sample_act_def)
  moreover have "LeaseSeconds 60000 = 60" by (simp add: LeaseSeconds_def)
  ultimately show ?thesis by auto
qed

subsection \<open>What a call leaves behind\<close>

text \<open>What the rest of the coordinator does to the shared state while the relay waits, step by
  step: other calls take and release slots of the same provider struct (the trace \<open>bs\<close>, with the
  code's wrap and clamp), the registry changes in any way that leaves that struct's slot count
  alone, and the job manager takes any of its own steps: other jobs are registered, delivered to,
  received from, unlinked and their channels closed. The only thing nobody else does is to register
  or to close this job's identifier, which the relay has just drawn. \<open>P\<close> holds the channels that
  are between the two halves of their \<open>Close\<close>.\<close>

abbreviation jobs_state :: "shared \<Rightarrow> nat list \<Rightarrow> json Event jstate" where
  "jobs_state w P \<equiv> \<lparr>mgr = sh_jobs w, closing = P, panicked = False\<rparr>"

inductive others :: "string \<Rightarrow> pref \<Rightarrow> nat list \<Rightarrow> shared \<Rightarrow> bool list \<Rightarrow> nat list \<Rightarrow> shared \<Rightarrow> bool"
  for jobID p P w where
  Others_start: "others jobID p P w [] P w"
| Others_acquire: "others jobID p P w bs Q v \<Longrightarrow>
    others jobID p P w (bs @ [True]) Q (v\<lparr>sh_reg := upd_prov AcquireSlot p (sh_reg v)\<rparr>)"
| Others_release: "others jobID p P w bs Q v \<Longrightarrow>
    others jobID p P w (bs @ [False]) Q (v\<lparr>sh_reg := upd_prov ReleaseSlot p (sh_reg v)\<rparr>)"
| Others_registry: "others jobID p P w bs Q v \<Longrightarrow> active (prov r p) = active (prov (sh_reg v) p) \<Longrightarrow>
    others jobID p P w bs Q (v\<lparr>sh_reg := r\<rparr>)"
| Others_jobs: "others jobID p P w bs Q v \<Longrightarrow> jstep (jobs_state v Q) l s \<Longrightarrow>
    jm (mgr s) jobID = jm (sh_jobs v) jobID \<Longrightarrow>
    others jobID p P w bs (closing s) (v\<lparr>sh_jobs := mgr s\<rparr>)"

lemma slot_ops_append: "slot_ops (xs @ ys) q = slot_ops ys (slot_ops xs q)"
  by (induction xs arbitrary: q) simp_all

lemma slot_op_cong:
  "active q = active q' \<Longrightarrow> active (AcquireSlot q) = active (AcquireSlot q')"
  "active q = active q' \<Longrightarrow> active (ReleaseSlot q) = active (ReleaseSlot q')"
  by (simp_all add: AcquireSlot_def ReleaseSlot_def addActive_def Let_def)

lemma balanced_Suc: "balanced n bs \<Longrightarrow> balanced (Suc n) bs"
proof (induction bs arbitrary: n)
  case (Cons b bs)
  then show ?case using Cons.IH [of "n - 1"] by (cases n) (auto split: if_splits)
qed simp

lemma balanced_net: "balanced n bs \<Longrightarrow> 0 \<le> int n + int (length (filter id bs)) - int (length (filter Not bs))"
proof (induction bs arbitrary: n)
  case (Cons b bs)
  show ?case
  proof (cases b)
    case True
    then show ?thesis using Cons.IH [of "Suc n"] Cons.prems by simp
  next
    case False
    then show ?thesis using Cons.IH [of "n - 1"] Cons.prems by (cases n) simp_all
  qed
qed simp

lemma others_keep:
  assumes "others jobID p P w bs Q v" "jinv (jobs_state w P)"
  shows "active (prov (sh_reg v) p) = active (slot_ops bs (prov (sh_reg w) p)) \<and>
    jm (sh_jobs v) jobID = jm (sh_jobs w) jobID \<and> jinv (jobs_state v Q)"
  using assms(1)
proof (induction rule: others.induct)
  case (Others_jobs bs Q v l s)
  then have "jinv s" using jinv_step by blast
  then have "s = \<lparr>mgr = mgr s, closing = closing s, panicked = False\<rparr>" by (simp add: jinv_def)
  with \<open>jinv s\<close> Others_jobs show ?case by simp
next
  case (Others_acquire bs Q v)
  then have "active (prov (sh_reg v) p) = active (slot_ops bs (prov (sh_reg w) p))" by blast
  from slot_op_cong(1) [OF this] Others_acquire show ?case by (simp add: upd_prov_def slot_ops_append)
next
  case (Others_release bs Q v)
  then have "active (prov (sh_reg v) p) = active (slot_ops bs (prov (sh_reg w) p))" by blast
  from slot_op_cong(2) [OF this] Others_release show ?case by (simp add: upd_prov_def slot_ops_append)
qed (use assms(2) in simp_all)

text \<open>A job of the manager keeps an open channel under every such step.\<close>

lemma jinv_open: "jinv s \<Longrightarrow> jm (mgr s) j = Some a \<Longrightarrow> \<exists>x. chans (mgr s) (ch a) = Some x \<and> \<not> is_closed x"
  unfolding jinv_def jparts_def by blast

definition started :: "prepared \<Rightarrow> bool" where
  "started r = (case r of Dispatched _ _ _ \<Rightarrow> True | _ \<Rightarrow> False)"

lemma ExecuteOn_exit_ok:
  assumes "jm (sh_jobs w) j = Some a" "chans (sh_jobs w) (ch a) = Some x" "\<not> is_closed x"
    and "0 < active (prov (sh_reg w) p)" "active (prov (sh_reg w) p) < 2 ^ 63"
  shows "\<exists>w'. ExecuteOn_exit p j w = Ok w' \<and> \<not> Has (sh_jobs w') j \<and>
     active (prov (sh_reg w') p) = active (prov (sh_reg w) p) - 1"
  using assms by (simp add: ExecuteOn_exit_def Close_def Close_unlink_def close_chan_def Has_def upd_prov_def
      active_Release)

lemma ExecuteOn_start_shape:
  assumes "ExecuteOn_start c p req onDelta w = r" "r = Dispatched w' n act \<or> r = SendFailed w'"
  shows "sh_reg w' = upd_prov AcquireSlot p (sh_reg w) \<and>
     sh_jobs w' = fst (Register_job (ce_uuid c) (ID (prov (sh_reg w) p)) (sh_jobs w))"
  using assms by (auto simp: ExecuteOn_start_def Let_def Register_job_def split: option.splits if_splits)

text \<open>After the start the call holds one slot more, its job is registered and the manager's
  invariant still holds.\<close>

lemma ExecuteOn_started:
  assumes "ExecuteOn_start c p req onDelta w = r" "r = Dispatched w' n act \<or> r = SendFailed w'"
    and "jinv (jobs_state w P)" "active (prov (sh_reg w) p) = int k" "int k + 1 < 2 ^ 63"
  shows "active (prov (sh_reg w') p) = int (Suc k)" "Has (sh_jobs w') (ce_uuid c)" "jinv (jobs_state w' P)"
proof -
  note sh = ExecuteOn_start_shape [OF assms(1,2)]
  show "active (prov (sh_reg w') p) = int (Suc k)"
    using sh assms(4,5) by (simp add: upd_prov_def active_Acquire)
  show "Has (sh_jobs w') (ce_uuid c)" using sh by (simp add: Has_Register)
  have "jstep (jobs_state w P) (Opened (next_ch (sh_jobs w)) (ce_uuid c) (ID (prov (sh_reg w) p)))
      ((jobs_state w P)\<lparr>mgr := sh_jobs w'\<rparr>)"
    by (rule jstep.Register) (simp add: sh Register_job_def Let_def)
  from jinv_step [OF this assms(3)] show "jinv (jobs_state w' P)" by simp
qed

lemma ExecuteOn_exit_done:
  assumes "jinv (jobs_state w P)" "Has (sh_jobs w) j" "active (prov (sh_reg w) p) = n + 1" "0 \<le> n" "n + 1 < 2 ^ 63"
  shows "\<exists>w'. ExecuteOn_exit p j w = Ok w' \<and> \<not> Has (sh_jobs w') j \<and> active (prov (sh_reg w') p) = n"
proof -
  obtain a where a: "jm (sh_jobs w) j = Some a" using assms(2) by (auto simp: Has_def)
  obtain x where "chans (sh_jobs w) (ch a) = Some x" "\<not> is_closed x"
    using jinv_open [OF assms(1)] a by auto
  from ExecuteOn_exit_ok [OF a this, of p] assms(3-5) show ?thesis by simp
qed

text \<open>C12: every way out of a call (refused before registration, a failed send, client gone, deadline,
  a protocol violation, success) leaves the job unregistered and the provider's slot count
  where the other calls have put it, and the deferred close never panics; a call still waiting
  holds exactly one slot and its job. The job manager starts in a reachable state and takes any of
  its own steps meanwhile, closing other jobs included; the other calls hold \<open>k\<close> slots of the
  provider at the start and never release more than they hold; the counter's width is not reached;
  the job's identifier is new and stays this call's own.\<close>

theorem ExecuteOn_releases:
  assumes "jruns tr (jobs_state w P)" "\<not> Has (sh_jobs w) (ce_uuid c)"
    and "active (prov (sh_reg w) p) = int k" "balanced k bs" "int k + 1 + int (length bs) < 2 ^ 63"
    and "\<And>w1 n act. ExecuteOn_start c p req onDelta w = Dispatched w1 n act \<Longrightarrow>
      \<exists>Q. others (ce_uuid c) p P w1 bs Q (run w1)"
  shows "\<exists>w' r. ExecuteOn c p req onDelta ins run w = Ok (w', r) \<and>
     (let held = int k + (if started (ExecuteOn_start c p req onDelta w)
          then int (length (filter id bs)) - int (length (filter Not bs)) else 0) in
      if r = None then Has (sh_jobs w') (ce_uuid c) \<and> active (prov (sh_reg w') p) = held + 1
      else \<not> Has (sh_jobs w') (ce_uuid c) \<and> active (prov (sh_reg w') p) = held)"
proof (cases "ExecuteOn_start c p req onDelta w")
  case (Refused err)
  then show ?thesis using assms(2,3) by (simp add: ExecuteOn_def started_def)
next
  case (SendFailed w1)
  note st = ExecuteOn_started [OF SendFailed disjI2 [OF refl] jruns_inv [OF assms(1)] assms(3)]
  have "\<exists>w'. ExecuteOn_exit p (ce_uuid c) w1 = Ok w' \<and> \<not> Has (sh_jobs w') (ce_uuid c) \<and>
      active (prov (sh_reg w') p) = int k"
    by (rule ExecuteOn_exit_done) (use st assms(5) in auto)
  with SendFailed show ?thesis by (auto simp: ExecuteOn_def started_def)
next
  case (Dispatched w1 n act)
  note st = ExecuteOn_started [OF Dispatched disjI1 [OF refl] jruns_inv [OF assms(1)] assms(3)]
  obtain Q where Q: "others (ce_uuid c) p P w1 bs Q (run w1)" using assms(6) [OF Dispatched] by blast
  have inv: "jinv (jobs_state w1 P)" using st(3) assms(5) by simp
  define d where "d = int (length (filter id bs)) - int (length (filter Not bs))"
  have held: "active (prov (sh_reg (run w1)) p) = int k + d + 1"
    using others_keep [OF Q inv] slot_ops_active [of _ "Suc k" bs] st(1) balanced_Suc [OF assms(4)] assms(5)
    by (simp add: d_def)
  have has: "Has (sh_jobs (run w1)) (ce_uuid c)" "jinv (jobs_state (run w1) Q)"
    using others_keep [OF Q inv] st(2) assms(5) by (simp_all add: Has_def)
  have "int (length (filter id bs)) \<le> int (length bs)" by simp
  then have d: "0 \<le> int k + d" "int k + d + 1 < 2 ^ 63"
    using balanced_net [OF assms(4)] assms(5) unfolding d_def by linarith+
  obtain w2 where w2: "ExecuteOn_exit p (ce_uuid c) (run w1) = Ok w2" "\<not> Has (sh_jobs w2) (ce_uuid c)"
    "active (prov (sh_reg w2) p) = int k + d"
    using ExecuteOn_exit_done [OF has(2,1) held d] by auto
  show ?thesis
  proof (cases "relay_loop act ins loop_init")
    case (Pair s r)
    then show ?thesis
      using Dispatched w2 has held by (cases r) (simp_all add: ExecuteOn_def started_def d_def)
  qed
qed

text \<open>Another call holds a slot of the provider and has job \<open>o\<close> open. While this one waits for a
  provider that stays silent, the other call ends (its slot is released, its job unlinked and its
  channel closed) and a third one takes a slot and registers \<open>q\<close>.\<close>

definition sample_others :: "shared \<Rightarrow> shared" where
  "sample_others w = \<lparr>sh_reg = upd_prov AcquireSlot 0 (upd_prov ReleaseSlot 0 (sh_reg w)),
     sh_jobs = (case Close ''o'' (sh_jobs w) of Ok m \<Rightarrow> fst (Register_job ''q'' ''dev'' m) | Panic \<Rightarrow> sh_jobs w)\<rparr>"

definition sample_shared :: shared where
  "sample_shared = \<lparr>sh_reg = upd_prov AcquireSlot 0 (sample_registry 0),
     sh_jobs = fst (Register_job ''o'' ''dev'' New_jobs)\<rparr>"

definition silent_call :: call_env where
  "silent_call = \<lparr>ce_key = Some \<lparr>Public = [], Secret = []\<rparr>, ce_uuid = ''j'', ce_marshal = (\<lambda>_. Some []),
    ce_box_seal = (\<lambda>m n r s. m), ce_nonce = Some (replicate 24 (CHR ''n'')), ce_manifest = None,
    ce_send = (\<lambda>_. True), ce_box_open = (\<lambda>c n p s. Some c), ce_parse = (\<lambda>_. None), ce_deadline = 60000\<rparr>"

lemma sample_shared_reachable: "jruns [Opened 0 ''o'' ''dev''] (jobs_state sample_shared [])"
proof -
  have "jstep jinit (Opened 0 ''o'' ''dev'') (jinit\<lparr>mgr := sh_jobs sample_shared\<rparr>)"
    by (rule jstep.Register) (simp add: sample_shared_def Register_job_def jinit_def New_jobs_def Let_def)
  from jruns.Step [OF jruns.Init this] show ?thesis by (simp add: jinit_def)
qed

lemma sample_others_run:
  assumes "sh_jobs v = fst (Register_job ''j'' d (sh_jobs sample_shared))"
  shows "others ''j'' 0 [] v [False, True] [] (sample_others v)"
proof -
  define v2 where "v2 = \<lparr>sh_reg = upd_prov AcquireSlot 0 (upd_prov ReleaseSlot 0 (sh_reg v)), sh_jobs = sh_jobs v\<rparr>"
  have 2: "others ''j'' 0 [] v [False, True] [] v2"
    using Others_acquire [OF Others_release [OF Others_start [of "''j''" 0 "[]" v]]] by (cases v) (simp add: v2_def)
  have jv: "sh_jobs v2 = \<lparr>jm = [''o'' \<mapsto> \<lparr>providerID = ''dev'', ch = 0\<rparr>, ''j'' \<mapsto> \<lparr>providerID = d, ch = 1\<rparr>],
      chans = [0 \<mapsto> \<lparr>buf = [], is_closed = False\<rparr>, 1 \<mapsto> \<lparr>buf = [], is_closed = False\<rparr>], next_ch = 2\<rparr>"
    by (simp add: v2_def assms sample_shared_def Register_job_def New_jobs_def Let_def)
  define m3 where "m3 = (sh_jobs v2)\<lparr>jm := (jm (sh_jobs v2))(''o'' := None)\<rparr>"
  have u: "Close_unlink ''o'' (sh_jobs v2) = (m3, Some 0)" by (simp add: Close_unlink_def m3_def jv)
  have "jstep (jobs_state v2 []) Tau ((jobs_state v2 [])\<lparr>mgr := m3, closing := [0]\<rparr>)"
    using jstep.Unlink [of "''o''" "jobs_state v2 []" m3 0] u by simp
  from Others_jobs [OF 2 this] have 3: "others ''j'' 0 [] v [False, True] [0] (v2\<lparr>sh_jobs := m3\<rparr>)"
    by (simp add: m3_def)
  define m4 where "m4 = m3\<lparr>chans := (chans m3)(0 \<mapsto> \<lparr>buf = [], is_closed = True\<rparr>)\<rparr>"
  have c: "close_chan 0 m3 = Ok m4" by (simp add: close_chan_def m3_def m4_def jv)
  have "jstep (jobs_state (v2\<lparr>sh_jobs := m3\<rparr>) [0]) Tau ((jobs_state (v2\<lparr>sh_jobs := m3\<rparr>) [0])\<lparr>mgr := m4, closing := []\<rparr>)"
    using jstep.Close_chan [of 0 "jobs_state (v2\<lparr>sh_jobs := m3\<rparr>) [0]" m4] c by simp
  from Others_jobs [OF 3 this] have 4: "others ''j'' 0 [] v [False, True] [] (v2\<lparr>sh_jobs := m4\<rparr>)"
    by (simp add: m4_def)
  define m5 where "m5 = fst (Register_job ''q'' ''dev'' m4)"
  have "jstep (jobs_state (v2\<lparr>sh_jobs := m4\<rparr>) []) (Opened (next_ch m4) ''q'' ''dev'')
      ((jobs_state (v2\<lparr>sh_jobs := m4\<rparr>) [])\<lparr>mgr := m5\<rparr>)"
    by (rule jstep.Register) (simp add: m5_def Register_job_def Let_def)
  from Others_jobs [OF 4 this] have 5: "others ''j'' 0 [] v [False, True] [] (v2\<lparr>sh_jobs := m5\<rparr>)"
    by (simp add: m5_def Register_job_def Let_def)
  have "Close ''o'' (sh_jobs v) = Ok m4" using u c by (simp add: Close_def v2_def)
  then have "sample_others v = v2\<lparr>sh_jobs := m5\<rparr>" by (simp add: sample_others_def v2_def m5_def)
  with 5 show ?thesis by simp
qed

lemma ExecuteOn_releases_witness:
  "\<exists>w'. ExecuteOn silent_call 0 (ac_req (sample_act 8)) (\<lambda>_ _. None) [DeadlineFires] sample_others sample_shared
      = Ok (w', Some (Inl (ErrDeadline ''j''))) \<and> active (prov (sh_reg w') 0) = 1 \<and> \<not> Has (sh_jobs w') ''j''"
proof -
  have st: "\<exists>w1 n act. ExecuteOn_start silent_call 0 (ac_req (sample_act 8)) (\<lambda>_ _. None) sample_shared =
      Dispatched w1 n act \<and> ac_jobID act = ''j''"
    by (simp add: ExecuteOn_start_def silent_call_def Seal_def Let_def Register_job_def)
  have u: "ce_uuid silent_call = ''j''" by (simp add: silent_call_def)
  have run: "\<exists>Q. others (ce_uuid silent_call) 0 [] w1 [False, True] Q (sample_others w1)"
    if "ExecuteOn_start silent_call 0 (ac_req (sample_act 8)) (\<lambda>_ _. None) sample_shared = Dispatched w1 n act" for w1 n act
    using ExecuteOn_start_shape [OF that disjI1 [OF refl]] sample_others_run [of w1] u by auto
  have a: "active (prov (sh_reg sample_shared) 0) = int 1"
    by (simp add: sample_shared_def upd_prov_def sample_registry_def sample_provider_def active_Acquire)
  have h: "\<not> Has (sh_jobs sample_shared) (ce_uuid silent_call)"
    by (simp add: u sample_shared_def Has_Register) (simp add: Has_def New_jobs_def)
  have b: "balanced 1 [False, True]" "int 1 + 1 + int (length [False, True]) < 2 ^ 63" by simp_all
  let ?st = "ExecuteOn_start silent_call 0 (ac_req (sample_act 8)) (\<lambda>_ _. None) sample_shared"
  have "\<exists>w' r. ExecuteOn silent_call 0 (ac_req (sample_act 8)) (\<lambda>_ _. None) [DeadlineFires] sample_others
      sample_shared = Ok (w', r) \<and>
     (let held = int 1 + (if started ?st
          then int (length (filter id [False, True])) - int (length (filter Not [False, True])) else 0) in
      if r = None then Has (sh_jobs w') (ce_uuid silent_call) \<and> active (prov (sh_reg w') 0) = held + 1
      else \<not> Has (sh_jobs w') (ce_uuid silent_call) \<and> active (prov (sh_reg w') 0) = held)"
    by (rule ExecuteOn_releases [OF sample_shared_reachable h a b]) (rule run)
  moreover have "started ?st" using st by (auto simp: started_def)
  ultimately obtain w' r where r: "ExecuteOn silent_call 0 (ac_req (sample_act 8)) (\<lambda>_ _. None) [DeadlineFires] sample_others
      sample_shared = Ok (w', r)" "r \<noteq> None \<longrightarrow> active (prov (sh_reg w') 0) = 1 \<and> \<not> Has (sh_jobs w') ''j''"
    by (auto simp: u Let_def split: if_splits)
  have "r = Some (Inl (ErrDeadline ''j''))"
    using st r(1) by (auto simp: ExecuteOn_def split: outcome.splits)
  with r show ?thesis by auto
qed

end
