(* ===== verification/Ratelimit.thy ===== *)
theory Ratelimit
  imports Float64
begin

text \<open>
  Package \<open>ratelimit\<close> (coordinator/internal/ratelimit/ratelimit.go): the token bucket per
  key. Times are nanoseconds (\<open>int64\<close> durations), token counts are \<open>float64\<close>. The clock
  reading is an argument of \<open>Allow\<close>.
\<close>

record bucket =
  tokens :: f64
  last_time :: int

record Limiter =
  ratePerSec :: f64
  burst :: f64
  buckets :: "string \<rightharpoonup> bucket"

definition New_limiter :: "int \<Rightarrow> Limiter" where
  "New_limiter ratePerMin = \<lparr>ratePerSec = f64_of_int ratePerMin / Fin 60,
     burst = f64_of_int ratePerMin, buckets = Map.empty\<rparr>"

text \<open>\<open>Time.Sub\<close> saturates; \<open>Duration.Seconds\<close> adds whole and fractional seconds.\<close>

definition time_sub :: "int \<Rightarrow> int \<Rightarrow> int" where
  "time_sub t u = max int64_min (min int64_max (t - u))"

definition go_rem :: "int \<Rightarrow> int \<Rightarrow> int" where
  "go_rem a b = a - b * go_div a b"

definition seconds :: "int \<Rightarrow> f64" where
  "seconds d = f64_of_int (go_div d 1000000000) + f64_of_int (go_rem d 1000000000) / Fin 1000000000"

definition Allow :: "int \<Rightarrow> string \<Rightarrow> Limiter \<Rightarrow> Limiter \<times> bool \<times> int" where
  "Allow now key l =
    (if ratePerSec l \<le> 0 then (l, True, 0)
     else let
       b = (case buckets l key of None \<Rightarrow> \<lparr>tokens = burst l, last_time = now\<rparr> | Some b \<Rightarrow> b);
       t = tokens b + seconds (time_sub now (last_time b)) * ratePerSec l;
       t = (if t > burst l then burst l else t);
       upd = (\<lambda>t. l\<lparr>buckets := (buckets l)(key \<mapsto> \<lparr>tokens = t, last_time = now\<rparr>)\<rparr>)
     in if t \<ge> 1 then (upd (t - 1), True, 0)
        else (upd t, False,
          wrap64 (f64_to_int64 ((1 - t) / ratePerSec l * Fin 1000000000) + 1000000)))"

subsection \<open>The bucket stays between empty and full\<close>

definition bucket_ok :: "int \<Rightarrow> bucket \<Rightarrow> bool" where
  "bucket_ok n b \<longleftrightarrow> (case tokens b of Fin q \<Rightarrow> 0 \<le> q \<and> q \<le> of_int n | _ \<Rightarrow> False)"

definition limiter_ok :: "int \<Rightarrow> Limiter \<Rightarrow> bool" where
  "limiter_ok n l \<longleftrightarrow> ratePerSec l = ratePerSec (New_limiter n) \<and> burst l = burst (New_limiter n) \<and>
     (\<forall>k b. buckets l k = Some b \<longrightarrow> bucket_ok n b)"

lemma limiter_ok_New: "limiter_ok n (New_limiter n)"
  by (simp add: limiter_ok_def New_limiter_def)

lemma rate_in:
  assumes "1 \<le> n" "n \<le> 2 ^ 53"
  shows "\<exists>q. ratePerSec (New_limiter n) = Fin q \<and> 0 < q \<and> q \<le> 2 ^ 53" "burst (New_limiter n) = Fin (of_int n)"
proof -
  show b: "burst (New_limiter n) = Fin (of_int n)"
    using f64_of_int_exact [of n] assms by (simp add: New_limiter_def)
  have n: "(1::rat) \<le> of_int n" "of_int n \<le> (2::rat) ^ 53" using assms of_int_le_pow2 by simp_all
  have q: "(0::rat) \<le> of_int n / 60" "of_int n / 60 \<le> (2::rat) ^ 53" using n by simp_all
  have "rr (1 / 64) \<le> rr (of_int n / 60)" using n by (intro rr_mono) simp_all
  moreover have "rr (1 / 64) = 1 / 64" using rr_pow2 [of "- 6"] by (simp add: power_int_minus)
  ultimately have "0 < rr (of_int n / 60 :: rat)" by simp
  moreover have "ratePerSec (New_limiter n) = Fin (rr (of_int n / 60))"
    using f64_of_int_exact [of n] assms rnd_Fin [OF q(1)] q(2)
    by (simp add: New_limiter_def divide_f64_def order_trans [OF q(2)])
  ultimately show "\<exists>q. ratePerSec (New_limiter n) = Fin q \<and> 0 < q \<and> q \<le> 2 ^ 53"
    using rr_le_pow2 [OF q] by blast
qed

lemma seconds_in:
  assumes "0 \<le> d" "d < 2 ^ 63"
  shows "f64_in 65 (seconds d)"
proof -
  have g: "0 \<le> go_rem d 1000000000" "go_rem d 1000000000 \<le> 1000000000"
    using assms(1) by (simp_all add: go_rem_def minus_mult_div_eq_mod less_imp_le)
  have a: "f64_in 64 (f64_of_int (go_div d 1000000000))"
    using assms by (intro f64_in_of_int) simp_all
  have "f64_in 64 (f64_of_int (go_rem d 1000000000))"
    using g by (intro f64_in_of_int) simp_all
  then have b: "f64_in 64 (f64_of_int (go_rem d 1000000000) / Fin 1000000000)"
    by (intro f64_in_div) simp_all
  show ?thesis unfolding seconds_def using f64_in_add [OF a b] by simp
qed

lemma Allow_ok:
  assumes "1 \<le> n" "n \<le> 2 ^ 53" "limiter_ok n l" "\<And>b. buckets l key = Some b \<Longrightarrow> last_time b \<le> now"
  shows "limiter_ok n (fst (Allow now key l))"
proof -
  obtain r where r: "ratePerSec l = Fin r" "0 < r" "r \<le> 2 ^ 53"
    using rate_in(1) [OF assms(1,2)] assms(3) by (auto simp: limiter_ok_def)
  have bu: "burst l = Fin (of_int n)" using rate_in(2) [OF assms(1,2)] assms(3) by (simp add: limiter_ok_def)
  define b where "b = (case buckets l key of None \<Rightarrow> \<lparr>tokens = burst l, last_time = now\<rparr> | Some b \<Rightarrow> b)"
  have b: "bucket_ok n b" "last_time b \<le> now"
    using assms(1,3,4) rate_in(2) [OF assms(1,2)] by (auto simp: b_def limiter_ok_def bucket_ok_def split: option.splits)
  obtain q where q: "tokens b = Fin q" "0 \<le> q" "q \<le> of_int n"
    using b(1) by (auto simp: bucket_ok_def split: f64.splits)
  define t0 where "t0 = tokens b + seconds (time_sub now (last_time b)) * ratePerSec l"
  have d: "0 \<le> time_sub now (last_time b)" "time_sub now (last_time b) < 2 ^ 63"
    using b(2) by (auto simp: time_sub_def int64_min_def int64_max_def)
  have "f64_in 53 (ratePerSec l)" using r by simp
  from f64_in_mult [OF seconds_in [OF d] this]
  have m: "f64_in 118 (seconds (time_sub now (last_time b)) * ratePerSec l)" by simp
  have n53: "(of_int n :: rat) \<le> 2 ^ 53" using of_int_le_pow2 [OF assms(2)] .
  have "f64_in 53 (tokens b)" using q n53 by simp
  then have "f64_in 118 (tokens b)" by (rule f64_in_mono) simp
  from f64_in_add [OF this m] have "f64_in 119 t0" by (simp add: t0_def)
  then obtain z where z: "t0 = Fin z" "0 \<le> z" by (auto elim: f64_inE)
  define t where "t = (if t0 > burst l then burst l else t0)"
  obtain y where y: "t = Fin y" "0 \<le> y" "y \<le> of_int n"
    using z bu assms(1) by (cases "of_int n < z") (simp_all add: t_def less_f64_def)
  have dec: "\<exists>w. t - 1 = Fin w \<and> 0 \<le> w \<and> w \<le> of_int n" if "1 \<le> t"
  proof -
    have y1: "1 \<le> y" using that y by (auto simp: less_eq_f64_def one_f64_def)
    have le: "y - 1 \<le> of_int n" "0 \<le> y - 1" using y y1 by simp_all
    have "y - 1 \<le> 2 ^ 53" using le n53 by linarith
    then have "y - 1 \<le> 2 ^ 1000" by (rule order_trans) simp
    then have "t - 1 = Fin (rr (y - 1))"
      using rnd_Fin [OF le(2)] y by (simp add: minus_f64_def one_f64_def)
    then show ?thesis using rr_nonneg [OF le(2)] rr_le_of_int [OF le(2,1) assms(2)] by blast
  qed
  have nr: "\<not> ratePerSec l \<le> 0" using r by (auto simp: less_eq_f64_def zero_f64_def)
  have eq: "fst (Allow now key l) = l\<lparr>buckets := (buckets l)(key \<mapsto>
      \<lparr>tokens = (if t \<ge> 1 then t - 1 else t), last_time = now\<rparr>)\<rparr>"
    unfolding Allow_def Let_def if_not_P [OF nr] b_def [symmetric] t0_def [symmetric] t_def [symmetric] by simp
  show ?thesis
    unfolding eq using assms(3) dec y by (auto simp: limiter_ok_def bucket_ok_def)
qed

subsection \<open>The burst\<close>

text \<open>The number of requests let through among \<open>k\<close> in a row at one instant.\<close>

primrec passes :: "int \<Rightarrow> string \<Rightarrow> nat \<Rightarrow> Limiter \<Rightarrow> nat" where
  "passes now key 0 l = 0"
| "passes now key (Suc k) l = (case Allow now key l of (l', ok, _) \<Rightarrow>
     (if ok then 1 else 0) + passes now key k l')"

lemma rnd_zero [simp]: "rnd 0 = Fin 0"
  using rnd_Fin [of 0] by simp

lemma seconds_zero [simp]: "seconds 0 = Fin 0"
  by (simp add: seconds_def go_div_def go_rem_def f64_of_int_def plus_f64_def divide_f64_def)

text \<open>At the instant of the last request the bucket holds at most \<open>a\<close> tokens.\<close>

definition at_most :: "int \<Rightarrow> int \<Rightarrow> int \<Rightarrow> string \<Rightarrow> Limiter \<Rightarrow> bool" where
  "at_most n a now key l \<longleftrightarrow> limiter_ok n l \<and> 0 \<le> a \<and> a \<le> n \<and>
     (case buckets l key of None \<Rightarrow> a = n
      | Some b \<Rightarrow> last_time b = now \<and> (\<exists>q. tokens b = Fin q \<and> 0 \<le> q \<and> q \<le> of_int a))"

lemma Allow_same_instant:
  assumes "1 \<le> n" "n \<le> 2 ^ 53" "at_most n a now key l" "Allow now key l = (l', ok, w)"
  shows "if ok then 1 \<le> a \<and> at_most n (a - 1) now key l' else at_most n a now key l'"
proof -
  note am = assms(3) [unfolded at_most_def]
  note rate = rate_in [OF assms(1,2)]
  obtain r where r: "ratePerSec l = Fin r" "0 < r" using rate(1) am by (auto simp: limiter_ok_def)
  have bu: "burst l = Fin (of_int n)" using rate(2) am by (simp add: limiter_ok_def)
  define b where "b = (case buckets l key of None \<Rightarrow> \<lparr>tokens = burst l, last_time = now\<rparr> | Some b \<Rightarrow> b)"
  obtain q where q: "tokens b = Fin q" "0 \<le> q" "q \<le> of_int a" "last_time b = now"
    using am bu by (auto simp: b_def split: option.splits)
  have a53: "a \<le> 2 ^ 53" using am assms(2) by simp
  have q53: "q \<le> 2 ^ 53" using q(3) of_int_le_pow2 [OF a53] by (rule order_trans)
  have q1000: "q \<le> 2 ^ 1000" using q53 by (rule order_trans) simp
  define y where "y = rr q"
  have y: "0 \<le> y" "y \<le> of_int a" using rr_nonneg [OF q(2)] rr_le_of_int [OF q(2,3) a53] by (simp_all add: y_def)
  have t0: "tokens b + seconds (time_sub now (last_time b)) * ratePerSec l = Fin y"
    using q r rnd_Fin [OF q(2) q1000]
    by (simp add: time_sub_def int64_min_def int64_max_def times_f64_def plus_f64_def y_def)
  have yn: "y \<le> of_int n" using y am by (meson of_int_le_iff order_trans)
  have cap: "\<not> Fin y > burst l" using yn bu by (simp add: less_f64_def)
  have nr: "\<not> ratePerSec l \<le> 0" using r by (auto simp: less_eq_f64_def zero_f64_def)
  have ok: "ok \<longleftrightarrow> 1 \<le> y" and l': "l' = l\<lparr>buckets := (buckets l)(key \<mapsto>
      \<lparr>tokens = (if 1 \<le> y then Fin y - 1 else Fin y), last_time = now\<rparr>)\<rparr>"
    using assms(4) unfolding Allow_def Let_def if_not_P [OF nr] b_def [symmetric] t0 if_not_P [OF cap]
    by (auto simp: less_eq_f64_def one_f64_def split: if_splits)
  have lok: "limiter_ok n l'"
  proof -
    have "\<And>b. buckets l key = Some b \<Longrightarrow> last_time b \<le> now" using am by (simp split: option.splits)
    then have "limiter_ok n (fst (Allow now key l))" by (rule Allow_ok [OF assms(1,2) conjunct1 [OF am]])
    then show ?thesis using assms(4) by simp
  qed
  show ?thesis
  proof (cases "1 \<le> y")
    case True
    then have a1: "1 \<le> a" using y by (metis of_int_1_le_iff order_trans)
    have s: "0 \<le> y - 1" "y - 1 \<le> of_int (a - 1)" using True y by simp_all
    have s53: "a - 1 \<le> 2 ^ 53" using a53 by simp
    have "y - 1 \<le> 2 ^ 53" using s(2) of_int_le_pow2 [OF s53] by (rule order_trans)
    then have "y - 1 \<le> 2 ^ 1000" by (rule order_trans) simp
    then have "Fin y - 1 = Fin (rr (y - 1))" using rnd_Fin [OF s(1)] by (simp add: minus_f64_def one_f64_def)
    then show ?thesis
      using True ok l' lok am a1 rr_nonneg [OF s(1)] rr_le_of_int [OF s s53] by (simp add: at_most_def)
  next
    case False
    then show ?thesis using ok l' lok am y by (simp add: at_most_def)
  qed
qed

lemma passes_le: "1 \<le> n \<Longrightarrow> n \<le> 2 ^ 53 \<Longrightarrow> at_most n a now key l \<Longrightarrow> int (passes now key k l) \<le> a"
proof (induction k arbitrary: a l)
  case 0
  then show ?case by (simp add: at_most_def)
next
  case (Suc k)
  obtain l' ok w where A: "Allow now key l = (l', ok, w)" by (cases "Allow now key l")
  from Allow_same_instant [OF Suc.prems A] Suc.IH [OF Suc.prems(1,2)] show ?case
    by (cases ok) (fastforce simp: A)+
qed

text \<open>C39: a key that has not been seen gets at most its per-minute quota through in one
  burst: of any number of requests at one instant no more than \<open>ratePerMin\<close> pass, in spite
  of the floating-point token count.\<close>

theorem burst_bounded:
  assumes "1 \<le> ratePerMin" "ratePerMin \<le> 2 ^ 53"
  shows "int (passes now key k (New_limiter ratePerMin)) \<le> ratePerMin"
proof -
  have "at_most ratePerMin ratePerMin now key (New_limiter ratePerMin)"
    using assms(1) limiter_ok_New [of ratePerMin] by (simp add: at_most_def New_limiter_def)
  from passes_le [OF assms this] show ?thesis .
qed

lemma burst_bounded_witness: "int (passes 5 ''key'' 100 (New_limiter 60)) \<le> 60"
  by (rule burst_bounded) simp_all

text \<open>A limiter with a rate of zero or less never refuses.\<close>

lemma Allow_disabled: "ratePerSec l \<le> 0 \<Longrightarrow> Allow now key l = (l, True, 0)"
  by (simp add: Allow_def)

text \<open>Keys do not interfere.\<close>

lemma Allow_other_key: "k \<noteq> key \<Longrightarrow> buckets (fst (Allow now key l)) k = buckets l k"
  by (simp add: Allow_def Let_def)

end
