(* ===== verification/Attest.thy ===== *)
theory Attest
  imports Codec Wire Ratelimit
begin

text \<open>
  Package \<open>attest\<close> (coordinator/internal/attest/attest.go, android.go): which trust tier a
  provider's attestation evidence earns. Certificates are records of what the code reads from
  them; the signature checks of crypto/x509 and crypto/ecdsa, SHA-256 and the cryptobyte reader
  of golang.org/x/crypto are arguments, gathered in \<open>crypto_env\<close>. The scan for a high-tag
  DER element is the code's own and is modelled byte by byte. Times are nanoseconds.
\<close>

definition TierCommunity :: string where "TierCommunity = ''community''"
definition TierDeviceAttested :: string where "TierDeviceAttested = ''device_attested''"

record AndroidKeyResult =
  SecurityLevel :: string
  VerifiedBootState :: string
  DeviceLocked :: bool

record attest_Result =
  Tier :: string
  ar_Kind :: string
  AndroidKey :: "AndroidKeyResult option"

datatype attest_error = ErrUnattested | EvidenceJson | ChainTooShort nat | CertBase64 nat | CertParse nat
  | NotSignedBy nat | OutsideValidity nat | RootValidity | NoPinnedRoot | BindingStale | BadNonce | BadSigBase64
  | LeafNotECDSA | BindingSig | NoExtension | BadKeyDescription string | NotHardwareBacked string
  | BootState string | BootloaderUnlocked

record 'pub Cert =
  cert_raw :: string
  NotBefore :: int
  NotAfter :: int
  Extensions :: "(nat list \<times> string) list"
  ecdsa_key :: "'pub option"

record androidKeyEvidence =
  CertChainDERB64 :: "string list"
  BindingSigB64 :: string
  NonceB64 :: string
  IssuedAt :: int

record keyDescription =
  securityLevel :: int
  verifiedBootState :: int
  deviceLocked :: bool

record 'pub crypto_env =
  parse_cert :: "string \<Rightarrow> 'pub Cert option"
  signed_by :: "'pub Cert \<Rightarrow> 'pub Cert \<Rightarrow> bool"
  verify_asn1 :: "'pub \<Rightarrow> string \<Rightarrow> string \<Rightarrow> bool"
  sha256_sum :: "string \<Rightarrow> string"
  read_asn1 :: "nat \<Rightarrow> string \<Rightarrow> string option \<times> string"
  read_int :: "string \<Rightarrow> int option \<times> string"
  read_bool :: "string \<Rightarrow> bool option \<times> string"

subsection \<open>The DER scan\<close>

definition byte :: "char \<Rightarrow> nat" where "byte c = of_char c"

fun read_tag :: "string \<Rightarrow> nat \<Rightarrow> (nat \<times> string) option" where
  "read_tag [] t = None"
| "read_tag (c # r) t = (let t' = (t * 128 + byte c mod 128) mod 2 ^ 64 in
     if byte c < 128 then Some (t', r) else read_tag r t')"

definition be_nat :: "string \<Rightarrow> nat" where
  "be_nat s = foldl (\<lambda>l c. l * 256 + byte c) 0 s"

fun read_len :: "string \<Rightarrow> (nat \<times> string) option" where
  "read_len [] = None"
| "read_len (c # r) = (if byte c < 128 then Some (byte c, r)
     else (let n = byte c - 128 in
       if n = 0 \<or> n > 4 \<or> n > length r then None else Some (be_nat (take n r), drop n r)))"

lemma read_tag_shorter: "read_tag b t = Some (t', r) \<Longrightarrow> length r < length b"
  by (induction b t rule: read_tag.induct) (auto simp: Let_def split: if_splits)

lemma read_len_shorter: "read_len b = Some (l, r) \<Longrightarrow> length r < length b"
  by (cases b) (auto simp: Let_def split: if_splits)

function findContextTagged :: "string \<Rightarrow> nat \<Rightarrow> string option" where
  "findContextTagged b want =
    (if length b < 2 then None
     else (let first = byte (hd b); cls = first div 64; low = first mod 32 in
       case (if low = 31 then read_tag (tl b) 0 else Some (low, tl b)) of
         None \<Rightarrow> None
       | Some (tagNum, r) \<Rightarrow> (case read_len r of
           None \<Rightarrow> None
         | Some (l, r') \<Rightarrow>
             if l > length r' then None
             else if cls = 2 \<and> tagNum = want then Some (take l r')
             else findContextTagged (drop l r') want)))"
  by pat_completeness auto

termination
proof (relation "measure (\<lambda>(b, _). length b)", goal_cases)
  case 1
  show ?case by simp
next
  case (2 b want first cls low x tagNum r y l r')
  have "length r' < length r" using 2 by (auto dest: read_len_shorter)
  moreover have "length r \<le> length b"
    using 2 read_tag_shorter [of "tl b" 0 tagNum r] by (auto split: if_splits)
  ultimately show ?case by simp
qed

declare findContextTagged.simps [simp del]

subsection \<open>Reading the key description\<close>

text \<open>A reader gives the value, if it succeeds, and what is left of the input in either case: the code
  goes on after some failed reads.\<close>

definition readEnum :: "'pub crypto_env \<Rightarrow> string \<Rightarrow> int option \<times> string" where
  "readEnum e s = (case read_asn1 e 10 s of
     (None, r) \<Rightarrow> (None, r)
   | (Some v, r) \<Rightarrow> (Some (foldl (\<lambda>n c. wrap64 (n * 256 + int (byte c))) 0 v), r))"

definition keyAttestationExtOID :: "nat list" where
  "keyAttestationExtOID = [1, 3, 6, 1, 4, 1, 11129, 2, 1, 17]"

definition rootOfTrustTag :: nat where "rootOfTrustTag = 704"

fun oidString :: "nat list \<Rightarrow> string" where
  "oidString [] = []"
| "oidString [n] = nat_str n"
| "oidString (n # m # r) = nat_str n @ CHR ''.'' # oidString (m # r)"

definition parseRoot :: "'pub crypto_env \<Rightarrow> int \<Rightarrow> string \<Rightarrow> attest_error + keyDescription" where
  "parseRoot e secLevel rot = (case read_asn1 e 48 rot of
     (None, _) \<Rightarrow> Inl (BadKeyDescription ''RootOfTrust is not a SEQUENCE'')
   | (Some rotSeq, _) \<Rightarrow> (case read_asn1 e 4 rotSeq of
       (None, _) \<Rightarrow> Inl (BadKeyDescription ''RootOfTrust missing verifiedBootKey'')
     | (Some _, r1) \<Rightarrow> (case read_bool e r1 of
         (None, _) \<Rightarrow> Inl (BadKeyDescription ''RootOfTrust missing deviceLocked'')
       | (Some lk, r2) \<Rightarrow> (case readEnum e r2 of
           (None, _) \<Rightarrow> Inl (BadKeyDescription ''RootOfTrust missing verifiedBootState'')
         | (Some vb, _) \<Rightarrow> Inr \<lparr>securityLevel = secLevel, verifiedBootState = vb, deviceLocked = lk\<rparr>))))"

definition parseKeyDescription :: "'pub crypto_env \<Rightarrow> 'pub Cert \<Rightarrow> attest_error + keyDescription" where
  "parseKeyDescription e leaf =
    (case find (\<lambda>x. oidString (fst x) = oidString keyAttestationExtOID) (Extensions leaf) of
       None \<Rightarrow> Inl NoExtension
     | Some (_, extn) \<Rightarrow> (case read_asn1 e 48 extn of
         (None, _) \<Rightarrow> Inl (BadKeyDescription ''KeyDescription is not a SEQUENCE'')
       | (Some kd, _) \<Rightarrow> (case read_int e kd of
           (None, _) \<Rightarrow> Inl (BadKeyDescription ''bad attestationVersion'')
         | (Some _, kd1) \<Rightarrow> (case readEnum e kd1 of
             (None, _) \<Rightarrow> Inl (BadKeyDescription ''bad attestationSecurityLevel'')
           | (Some secLevel, kd2) \<Rightarrow>
               (let kd3 = snd (read_int e kd2);
                    kd4 = snd (readEnum e kd3);
                    kd5 = snd (read_asn1 e 4 kd4);
                    kd6 = snd (read_asn1 e 4 kd5) in
                case read_asn1 e 48 kd6 of
                  (None, _) \<Rightarrow> Inl (BadKeyDescription ''bad AuthorizationList'')
                | (Some swEnforced, kd7) \<Rightarrow> (case read_asn1 e 48 kd7 of
                    (None, _) \<Rightarrow> Inl (BadKeyDescription ''bad AuthorizationList'')
                  | (Some teeEnforced, _) \<Rightarrow>
                      (case (case findContextTagged teeEnforced rootOfTrustTag of
                               Some r \<Rightarrow> Some r | None \<Rightarrow> findContextTagged swEnforced rootOfTrustTag) of
                         None \<Rightarrow> Inl (BadKeyDescription ''no RootOfTrust in AuthorizationList'')
                       | Some rot \<Rightarrow> parseRoot e secLevel rot)))))))"

definition securityLevelName :: "int \<Rightarrow> string" where
  "securityLevelName n = (if n = 0 then ''software'' else if n = 1 then ''tee'' else if n = 2 then ''strongbox''
     else ''unknown('' @ int_str n @ '')'')"

definition verifiedBootName :: "int \<Rightarrow> string" where
  "verifiedBootName n = (if n = 0 then ''verified'' else if n = 1 then ''self_signed''
     else if n = 2 then ''unverified'' else if n = 3 then ''failed'' else ''unknown('' @ int_str n @ '')'')"

subsection \<open>Verifying the evidence\<close>

definition evidence_zero :: androidKeyEvidence where
  "evidence_zero = \<lparr>CertChainDERB64 = [], BindingSigB64 = [], NonceB64 = [], IssuedAt = 0\<rparr>"

definition evidence_fields :: "androidKeyEvidence fields" where
  "evidence_fields = [fld ''cert_chain_der_b64'' dec_strings CertChainDERB64 CertChainDERB64_update,
     fld ''binding_sig_b64'' dec_string BindingSigB64 BindingSigB64_update,
     fld ''nonce_b64'' dec_string NonceB64 NonceB64_update,
     fld ''issued_at'' dec_int64 IssuedAt IssuedAt_update]"

fun decode_chain :: "'pub crypto_env \<Rightarrow> nat \<Rightarrow> string list \<Rightarrow> attest_error + 'pub Cert list" where
  "decode_chain e i [] = Inr []"
| "decode_chain e i (b # bs) = (case b64_decode b of
     None \<Rightarrow> Inl (CertBase64 i)
   | Some der \<Rightarrow> (case parse_cert e der of
       None \<Rightarrow> Inl (CertParse i)
     | Some c \<Rightarrow> (case decode_chain e (Suc i) bs of Inl err \<Rightarrow> Inl err | Inr cs \<Rightarrow> Inr (c # cs))))"

text \<open>The two loops of the chain check; \<open>None\<close> is a nil error.\<close>

fun check_links :: "'pub crypto_env \<Rightarrow> int \<Rightarrow> nat \<Rightarrow> 'pub Cert list \<Rightarrow> attest_error option" where
  "check_links e now i (c # d # cs) =
    (if \<not> signed_by e c d then Some (NotSignedBy i)
     else if i > 0 \<and> (now < NotBefore c \<or> now > NotAfter c) then Some (OutsideValidity i)
     else check_links e now (Suc i) (d # cs))"
| "check_links e now i _ = None"

fun check_roots :: "'pub crypto_env \<Rightarrow> int \<Rightarrow> 'pub Cert list \<Rightarrow> 'pub Cert \<Rightarrow> attest_error option" where
  "check_roots e now [] tail = Some NoPinnedRoot"
| "check_roots e now (rt # roots) tail =
    (if cert_raw tail = cert_raw rt then None
     else if signed_by e tail rt then
       (if now < NotBefore rt \<or> now > NotAfter rt then Some RootValidity else None)
     else check_roots e now roots tail)"

definition verifyChainToGoogleRootAt :: "'pub crypto_env \<Rightarrow> 'pub Cert list \<Rightarrow> 'pub Cert list \<Rightarrow> int \<Rightarrow>
    attest_error option" where
  "verifyChainToGoogleRootAt e googleRoots chain now = (case check_links e now 0 chain of
     Some err \<Rightarrow> Some err
   | None \<Rightarrow> check_roots e now googleRoots (last chain))"

definition freshnessWindow :: int where "freshnessWindow = 5 * 60 * 1000000000"

definition bindPrefix :: string where "bindPrefix = ''ayni-bind-v1''"

fun be_bytes :: "nat \<Rightarrow> nat \<Rightarrow> string" where
  "be_bytes 0 n = []"
| "be_bytes (Suc k) n = be_bytes k (n div 256) @ [char_of (n mod 256)]"

definition binding_msg :: "string \<Rightarrow> string \<Rightarrow> int \<Rightarrow> string" where
  "binding_msg staticPK nonce issuedAt =
     bindPrefix @ staticPK @ nonce @ be_bytes 8 (nat (issuedAt mod 2 ^ 64))"

definition verifyBinding :: "'pub crypto_env \<Rightarrow> int \<Rightarrow> 'pub Cert \<Rightarrow> androidKeyEvidence \<Rightarrow> string \<Rightarrow>
    attest_error option" where
  "verifyBinding e now leaf ev staticPK =
    (let d = time_sub now (IssuedAt ev * 1000000000) in
     if d < - freshnessWindow \<or> d > freshnessWindow then Some BindingStale
     else (case b64_decode (NonceB64 ev) of
         None \<Rightarrow> Some BadNonce
       | Some nonce \<Rightarrow>
           if length nonce < 16 then Some BadNonce
           else (case b64_decode (BindingSigB64 ev) of
               None \<Rightarrow> Some BadSigBase64
             | Some sig \<Rightarrow> (case ecdsa_key leaf of
                 None \<Rightarrow> Some LeafNotECDSA
               | Some pub \<Rightarrow>
                   if \<not> verify_asn1 e pub (sha256_sum e (binding_msg staticPK nonce (IssuedAt ev))) sig
                     then Some BindingSig else None))))"

definition verifyAndroidKey :: "'pub crypto_env \<Rightarrow> 'pub Cert list \<Rightarrow> int \<Rightarrow> json \<Rightarrow> string \<Rightarrow>
    AndroidKeyResult option \<times> attest_error option" where
  "verifyAndroidKey e googleRoots now raw staticPK = (case dec_struct evidence_fields raw evidence_zero of
     None \<Rightarrow> (None, Some EvidenceJson)
   | Some ev \<Rightarrow>
       if length (CertChainDERB64 ev) < 2 then (None, Some (ChainTooShort (length (CertChainDERB64 ev))))
       else (case decode_chain e 0 (CertChainDERB64 ev) of
           Inl err \<Rightarrow> (None, Some err)
         | Inr chain \<Rightarrow> (case verifyChainToGoogleRootAt e googleRoots chain now of
             Some err \<Rightarrow> (None, Some err)
           | None \<Rightarrow> (case verifyBinding e now (hd chain) ev staticPK of
               Some err \<Rightarrow> (None, Some err)
             | None \<Rightarrow> (case parseKeyDescription e (hd chain) of
                 Inl err \<Rightarrow> (None, Some err)
               | Inr kd \<Rightarrow>
                   (let res = \<lparr>SecurityLevel = securityLevelName (securityLevel kd),
                          VerifiedBootState = verifiedBootName (verifiedBootState kd),
                          DeviceLocked = deviceLocked kd\<rparr> in
                    if securityLevel kd < 1 then (Some res, Some (NotHardwareBacked (SecurityLevel res)))
                    else if verifiedBootState kd \<noteq> 0 then (Some res, Some (BootState (VerifiedBootState res)))
                    else if \<not> deviceLocked kd then (Some res, Some BootloaderUnlocked)
                    else (Some res, None)))))))"

text \<open>\<open>None\<close> as the evidence is the nil pointer; an absent raw message is not valid JSON.\<close>

definition attest_Verify :: "'pub crypto_env \<Rightarrow> 'pub Cert list \<Rightarrow> int \<Rightarrow> json option Attestation option \<Rightarrow> string \<Rightarrow>
    attest_Result \<times> attest_error option" where
  "attest_Verify e googleRoots now ev staticPK = (case ev of
     None \<Rightarrow> (\<lparr>Tier = TierCommunity, ar_Kind = ''none'', AndroidKey = None\<rparr>, None)
   | Some a \<Rightarrow>
       if Kind a = [] \<or> Kind a = ''none''
         then (\<lparr>Tier = TierCommunity, ar_Kind = ''none'', AndroidKey = None\<rparr>, None)
       else if Kind a = ''android_key'' then
         (case (case Evidence a of None \<Rightarrow> (None, Some EvidenceJson)
                | Some raw \<Rightarrow> verifyAndroidKey e googleRoots now raw staticPK) of
            (_, Some err) \<Rightarrow> (\<lparr>Tier = TierCommunity, ar_Kind = Kind a, AndroidKey = None\<rparr>, Some err)
          | (ak, None) \<Rightarrow> (\<lparr>Tier = TierDeviceAttested, ar_Kind = Kind a, AndroidKey = ak\<rparr>, None))
       else (\<lparr>Tier = TierCommunity, ar_Kind = Kind a, AndroidKey = None\<rparr>, Some ErrUnattested))"

subsection \<open>The scan finds what a DER encoder writes\<close>

text \<open>A reference encoder: identifier octets with the high-tag form from 31 on, and the shortest
  definite length.\<close>

record tlv =
  tlv_class :: nat
  tlv_constructed :: bool
  tlv_num :: nat
  tlv_content :: string

fun b128_high :: "nat \<Rightarrow> string" where
  "b128_high n = (if n = 0 then [] else b128_high (n div 128) @ [char_of (128 + n mod 128)])"

declare b128_high.simps [simp del]

definition der_tag :: "tlv \<Rightarrow> string" where
  "der_tag t = (let first = tlv_class t * 64 + (if tlv_constructed t then 32 else 0) in
     if tlv_num t < 31 then [char_of (first + tlv_num t)]
     else char_of (first + 31) # b128_high (tlv_num t div 128) @ [char_of (tlv_num t mod 128)])"

definition der_len :: "nat \<Rightarrow> string" where
  "der_len n = (if n < 128 then [char_of n] else if n < 256 then char_of (128 + 1 :: nat) # be_bytes 1 n
     else if n < 65536 then char_of (128 + 2 :: nat) # be_bytes 2 n
     else if n < 16777216 then char_of (128 + 3 :: nat) # be_bytes 3 n else char_of (128 + 4 :: nat) # be_bytes 4 n)"

definition der_tlv :: "tlv \<Rightarrow> string" where
  "der_tlv t = der_tag t @ der_len (length (tlv_content t)) @ tlv_content t"

definition tlv_ok :: "tlv \<Rightarrow> bool" where
  "tlv_ok t \<longleftrightarrow> tlv_class t < 4 \<and> tlv_num t < 2 ^ 64 \<and> length (tlv_content t) < 2 ^ 32"

lemma byte_char_of [simp]: "byte (char_of n) = n mod 256"
  by (simp add: byte_def)

lemma read_tag_high: "n < 2 ^ 64 \<Longrightarrow> read_tag (b128_high n @ r) 0 = read_tag r n"
proof (induction n arbitrary: r rule: b128_high.induct)
  case (1 n)
  show ?case
  proof (cases "n = 0")
    case True
    then show ?thesis by (simp add: b128_high.simps [of 0])
  next
    case False
    have b: "byte (char_of (128 + n mod 128)) = 128 + n mod 128" by simp
    have "read_tag (b128_high n @ r) 0 = read_tag (char_of (128 + n mod 128) # r) (n div 128)"
      using 1 False by (simp add: b128_high.simps [of n])
    also have "\<dots> = read_tag r ((n div 128 * 128 + n mod 128) mod 2 ^ 64)"
      unfolding read_tag.simps b by (simp add: Let_def)
    finally show ?thesis using 1(2) by simp
  qed
qed

lemma read_tag_b128:
  assumes "n < 2 ^ 64"
  shows "read_tag (b128_high (n div 128) @ char_of (n mod 128) # r) 0 = Some (n, r)"
proof -
  have b: "byte (char_of (n mod 128)) = n mod 128" by simp
  have "n div 128 < 2 ^ 64" using assms by (meson div_le_dividend le_less_trans)
  then have "read_tag (b128_high (n div 128) @ char_of (n mod 128) # r) 0
      = Some ((n div 128 * 128 + n mod 128) mod 2 ^ 64, r)"
    by (simp only: read_tag_high read_tag.simps b) (simp add: Let_def)
  then show ?thesis using assms by simp
qed

lemma be_nat_snoc: "be_nat (s @ [c]) = be_nat s * 256 + byte c"
  by (simp add: be_nat_def)

lemma length_be_bytes [simp]: "length (be_bytes k n) = k"
  by (induction k n rule: be_bytes.induct) simp_all

lemma be_nat_bytes: "n < 256 ^ k \<Longrightarrow> be_nat (be_bytes k n) = n"
proof (induction k n rule: be_bytes.induct)
  case (2 k n)
  then have "n div 256 < 256 ^ k" by (simp add: div_less_iff_less_mult mult.commute)
  with 2 show ?case by (simp add: be_nat_snoc)
qed (simp add: be_nat_def)

lemma read_len_long:
  assumes "0 < k" "k \<le> 4" "n < 256 ^ k"
  shows "read_len (char_of (128 + k) # be_bytes k n @ r) = Some (n, r)"
proof -
  have "byte (char_of (128 + k)) = 128 + k" using assms by simp
  then show ?thesis using assms by (simp add: Let_def be_nat_bytes)
qed

lemma read_len_der: "n < 2 ^ 32 \<Longrightarrow> read_len (der_len n @ r) = Some (n, r)"
  using read_len_long [of 1 n r] read_len_long [of 2 n r] read_len_long [of 3 n r] read_len_long [of 4 n r]
  by (auto simp: der_len_def simp del: be_bytes.simps)

lemma der_len_not_Nil: "der_len n \<noteq> []"
  by (simp add: der_len_def)

lemma first_octet:
  fixes c k low :: nat
  assumes "c < 4" "low < 32" "k = 0 \<or> k = 32"
  shows "(c * 64 + k + low) mod 256 div 64 = c \<and> (c * 64 + k + low) mod 256 mod 32 = low"
proof -
  have lt: "c * 64 + k + low < 256" using assms by auto
  have "k + low < 64" using assms by auto
  moreover have "(c * 64 + k + low) div 64 = c + (k + low) div 64"
    by (metis add.assoc add.commute div_mult_self1 zero_neq_numeral)
  ultimately have "(c * 64 + k + low) div 64 = c" by simp
  moreover have "(c * 64 + k + low) mod 32 = low"
  proof -
    have "c * 64 + k + low = low + 32 * (c * 2 + k div 32)" using assms(3) by auto
    then show ?thesis using assms(2) by (metis mod_less mod_mult_self2)
  qed
  ultimately show ?thesis using lt by simp
qed

lemma findContextTagged_step:
  assumes "tlv_ok t"
  shows "findContextTagged (der_tlv t @ b) want =
    (if tlv_class t = 2 \<and> tlv_num t = want then Some (tlv_content t) else findContextTagged b want)"
proof -
  let ?k = "if tlv_constructed t then 32 else 0 :: nat"
  let ?low = "if tlv_num t < 31 then tlv_num t else 31"
  let ?rest = "der_len (length (tlv_content t)) @ tlv_content t @ b"
  have cl: "tlv_class t < 4" "tlv_num t < 2 ^ 64" "length (tlv_content t) < 2 ^ 32" using assms by (simp_all add: tlv_ok_def)
  obtain c cs where d: "der_tlv t @ b = c # cs" "byte c div 64 = tlv_class t" "byte c mod 32 = ?low"
    and tag: "(if ?low = 31 then read_tag cs 0 else Some (?low, cs)) = Some (tlv_num t, ?rest)"
  proof (cases "tlv_num t < 31")
    case True
    then show thesis
      using that [of "char_of (tlv_class t * 64 + ?k + tlv_num t)" "?rest"] first_octet [OF cl(1), of "tlv_num t" ?k]
      by (simp add: der_tlv_def der_tag_def Let_def)
  next
    case False
    then show thesis
      using that [of "char_of (tlv_class t * 64 + ?k + 31)" "b128_high (tlv_num t div 128) @ char_of (tlv_num t mod 128) # ?rest"]
        first_octet [OF cl(1), of 31 ?k] read_tag_b128 [OF cl(2)]
      by (simp add: der_tlv_def der_tag_def Let_def)
  qed
  have "cs \<noteq> []" using tag by (auto split: if_splits simp: der_len_not_Nil)
  then have len: "\<not> length (der_tlv t @ b) < 2" using d(1) by (cases cs) auto
  have rl: "read_len ?rest = Some (length (tlv_content t), tlv_content t @ b)" by (rule read_len_der [OF cl(3)])
  have tag': "(if byte c mod 32 = 31 then read_tag cs 0 else Some (byte c mod 32, cs)) = Some (tlv_num t, ?rest)"
    unfolding d(3) by (rule tag)
  have lenc: "\<not> length (c # cs) < 2" using len d(1) by simp
  have "findContextTagged (c # cs) want =
      (if byte c div 64 = 2 \<and> tlv_num t = want then Some (take (length (tlv_content t)) (tlv_content t @ b))
       else findContextTagged (drop (length (tlv_content t)) (tlv_content t @ b)) want)"
    unfolding findContextTagged.simps [of "c # cs"] Let_def list.sel tag' option.case prod.case rl
    using lenc by simp
  then show ?thesis using d(1,2) by simp
qed

text \<open>On every well-formed authorization list (elements of any class and tag number up to
  \<open>2^64\<close>, in the low or the high tag form, with the shortest length octets) the scan returns the
  content of the first context-class element with the wanted number, and nothing else.\<close>

lemma findContextTagged_der:
  assumes "list_all tlv_ok ts"
  shows "findContextTagged (concat (map der_tlv ts)) want =
    map_option tlv_content (find (\<lambda>t. tlv_class t = 2 \<and> tlv_num t = want) ts)"
  using assms
proof (induction ts)
  case Nil
  show ?case by (simp add: findContextTagged.simps [of "[]"])
next
  case (Cons t ts)
  then show ?case by (simp add: findContextTagged_step)
qed

lemma findContextTagged_der_witness:
  "findContextTagged (concat (map der_tlv [\<lparr>tlv_class = 2, tlv_constructed = True, tlv_num = 1, tlv_content = ''x''\<rparr>,
     \<lparr>tlv_class = 2, tlv_constructed = True, tlv_num = 704, tlv_content = ''root''\<rparr>])) rootOfTrustTag = Some ''root''"
  by (subst findContextTagged_der) (simp_all add: tlv_ok_def rootOfTrustTag_def)

subsection \<open>What the higher tier means\<close>

lemma be_bytes_inj: "be_bytes k m = be_bytes k n \<Longrightarrow> m < 256 ^ k \<Longrightarrow> n < 256 ^ k \<Longrightarrow> m = n"
  by (metis be_nat_bytes)

lemma binding_msg_inj:
  assumes "binding_msg pk n t = binding_msg pk' n' t'" "length pk = 32" "length pk' = 32" "is_int64 t" "is_int64 t'"
  shows "pk = pk' \<and> n = n' \<and> t = t'"
proof -
  have e: "pk @ n @ be_bytes 8 (nat (t mod 2 ^ 64)) = pk' @ n' @ be_bytes 8 (nat (t' mod 2 ^ 64))"
    using assms(1) unfolding binding_msg_def by (rule same_append_eq [THEN iffD1])
  then have "pk = pk'" "n @ be_bytes 8 (nat (t mod 2 ^ 64)) = n' @ be_bytes 8 (nat (t' mod 2 ^ 64))"
    using assms(2,3) by simp_all
  moreover from this(2) have "n = n'" "be_bytes 8 (nat (t mod 2 ^ 64)) = be_bytes 8 (nat (t' mod 2 ^ 64))"
    using append_eq_append_conv [of _ _ n n'] by (simp_all del: be_bytes.simps)
  moreover have lt: "nat (x mod 2 ^ 64) < 256 ^ 8" for x :: int
    using pos_mod_bound [of "2 ^ 64" x] pos_mod_sign [of "2 ^ 64" x] by simp
  moreover have "t mod 2 ^ 64 = t' mod 2 ^ 64"
    using be_bytes_inj [OF calculation(4) lt lt] pos_mod_sign [of "2 ^ 64" t] pos_mod_sign [of "2 ^ 64" t'] by simp
  then have "wrap64 t = wrap64 t'" by (rule wrap64_cong)
  ultimately show ?thesis using assms(4,5) by simp
qed

text \<open>The evidence proves: a chain of at least two certificates, each signed by the next, ending at a
  pinned root; a fresh signature with the leaf's key over this provider's key; and a key
  description that is hardware-backed, verified-boot and locked.\<close>

definition links_ok :: "'pub crypto_env \<Rightarrow> int \<Rightarrow> 'pub Cert list \<Rightarrow> bool" where
  "links_ok e now chain \<longleftrightarrow> (\<forall>i. Suc i < length chain \<longrightarrow> signed_by e (chain ! i) (chain ! Suc i) \<and>
     (0 < i \<longrightarrow> NotBefore (chain ! i) \<le> now \<and> now \<le> NotAfter (chain ! i)))"

definition anchored :: "'pub crypto_env \<Rightarrow> int \<Rightarrow> 'pub Cert list \<Rightarrow> 'pub Cert \<Rightarrow> bool" where
  "anchored e now roots c \<longleftrightarrow> (\<exists>r. find (\<lambda>r. cert_raw c = cert_raw r \<or> signed_by e c r) roots = Some r \<and>
     (cert_raw c = cert_raw r \<or> NotBefore r \<le> now \<and> now \<le> NotAfter r))"

definition evidence_holds :: "'pub crypto_env \<Rightarrow> 'pub Cert list \<Rightarrow> int \<Rightarrow> androidKeyEvidence \<Rightarrow> string \<Rightarrow> bool" where
  "evidence_holds e roots now ev pk \<longleftrightarrow> 2 \<le> length (CertChainDERB64 ev) \<and> (\<exists>chain nonce sig pub kd.
     decode_chain e 0 (CertChainDERB64 ev) = Inr chain \<and>
     links_ok e now chain \<and> anchored e now roots (last chain) \<and>
     \<bar>now - IssuedAt ev * 1000000000\<bar> \<le> freshnessWindow \<and>
     b64_decode (NonceB64 ev) = Some nonce \<and> 16 \<le> length nonce \<and> b64_decode (BindingSigB64 ev) = Some sig \<and>
     ecdsa_key (hd chain) = Some pub \<and>
     verify_asn1 e pub (sha256_sum e (binding_msg pk nonce (IssuedAt ev))) sig \<and>
     parseKeyDescription e (hd chain) = Inr kd \<and>
     1 \<le> securityLevel kd \<and> verifiedBootState kd = 0 \<and> deviceLocked kd)"

lemma check_links_iff: "check_links e now k chain = None \<longleftrightarrow>
    (\<forall>i. Suc i < length chain \<longrightarrow> signed_by e (chain ! i) (chain ! Suc i) \<and>
     (0 < k + i \<longrightarrow> NotBefore (chain ! i) \<le> now \<and> now \<le> NotAfter (chain ! i)))"
proof (induction e now k chain rule: check_links.induct)
  case (1 e now k c d cs)
  let ?P = "\<lambda>k cs i. Suc i < length cs \<longrightarrow> signed_by e (cs ! i) (cs ! Suc i) \<and>
     (0 < k + i \<longrightarrow> NotBefore (cs ! i) \<le> now \<and> now \<le> NotAfter (cs ! i))"
  have "(\<forall>i. ?P k (c # d # cs) i) \<longleftrightarrow> ?P k (c # d # cs) 0 \<and> (\<forall>i. ?P k (c # d # cs) (Suc i))"
    by (metis not0_implies_Suc)
  also have "(\<forall>i. ?P k (c # d # cs) (Suc i)) \<longleftrightarrow> (\<forall>i. ?P (Suc k) (d # cs) i)"
    by simp
  finally show ?case using 1 by (auto simp: not_le not_less)
qed auto

lemma check_roots_iff: "check_roots e now roots c = None \<longleftrightarrow> anchored e now roots c"
  by (induction roots) (auto simp: anchored_def not_le not_less)

lemma chain_iff: "verifyChainToGoogleRootAt e roots chain now = None \<longleftrightarrow>
    links_ok e now chain \<and> anchored e now roots (last chain)"
  using check_links_iff [of e now 0 chain] check_roots_iff [of e now roots "last chain"]
  by (auto simp: verifyChainToGoogleRootAt_def links_ok_def split: option.splits)

lemma fresh_iff: "\<not> (time_sub now t < - freshnessWindow \<or> time_sub now t > freshnessWindow) \<longleftrightarrow> \<bar>now - t\<bar> \<le> freshnessWindow"
  by (auto simp: time_sub_def freshnessWindow_def int64_min_def int64_max_def)

lemma binding_iff: "verifyBinding e now leaf ev pk = None \<longleftrightarrow>
    \<bar>now - IssuedAt ev * 1000000000\<bar> \<le> freshnessWindow \<and> (\<exists>nonce sig pub.
     b64_decode (NonceB64 ev) = Some nonce \<and> 16 \<le> length nonce \<and> b64_decode (BindingSigB64 ev) = Some sig \<and>
     ecdsa_key leaf = Some pub \<and> verify_asn1 e pub (sha256_sum e (binding_msg pk nonce (IssuedAt ev))) sig)"
  unfolding fresh_iff [of now "IssuedAt ev * 1000000000", symmetric]
  by (auto simp: verifyBinding_def Let_def not_less split: option.splits)

lemma androidKey_iff: "snd (verifyAndroidKey e roots now raw pk) = None \<longleftrightarrow>
    (\<exists>ev. dec_struct evidence_fields raw evidence_zero = Some ev \<and> evidence_holds e roots now ev pk)"
proof (cases "dec_struct evidence_fields raw evidence_zero")
  case (Some ev)
  show ?thesis
  proof (cases "2 \<le> length (CertChainDERB64 ev)")
    case len: True
    show ?thesis
    proof (cases "decode_chain e 0 (CertChainDERB64 ev)")
      case (Inr chain)
      have "snd (verifyAndroidKey e roots now raw pk) = None \<longleftrightarrow>
          verifyChainToGoogleRootAt e roots chain now = None \<and> verifyBinding e now (hd chain) ev pk = None \<and>
          (\<exists>kd. parseKeyDescription e (hd chain) = Inr kd \<and> 1 \<le> securityLevel kd \<and> verifiedBootState kd = 0 \<and> deviceLocked kd)"
        using Some len Inr
        by (auto simp: verifyAndroidKey_def Let_def not_less split: option.splits sum.splits)
      then show ?thesis
        unfolding chain_iff binding_iff evidence_holds_def using Some len Inr by auto
    qed (use Some len in \<open>auto simp: verifyAndroidKey_def evidence_holds_def\<close>)
  qed (use Some in \<open>auto simp: verifyAndroidKey_def evidence_holds_def\<close>)
qed (simp add: verifyAndroidKey_def)

text \<open>C10: a provider gets the device-attested tier exactly when its evidence is of the Android kind and
  proves all of it: each certificate signed by the next; every certificate strictly between the first
  and the last in its validity window; of the pinned roots the first that the last one
  equals or that has signed it, and in the second case that root in its window; a binding signature dated within five minutes of the
  clock (either way) by the leaf's key over this provider's static key, and a leaf that says hardware-backed,
  verified boot and locked bootloader; in every other case it is a community provider. The windows of the first
  certificate (by intention) and of the last one (against the comment at android.go:137-139, which has CA
  validity enforced) are no part of it: lemma \<open>expired_tail_accepted\<close>.\<close>

theorem attest_tier_iff:
  "Tier (fst (attest_Verify e roots now ev pk)) =
    (if \<exists>a raw x. ev = Some a \<and> Kind a = ''android_key'' \<and> Evidence a = Some raw \<and>
          dec_struct evidence_fields raw evidence_zero = Some x \<and> evidence_holds e roots now x pk
     then TierDeviceAttested else TierCommunity)"
proof (cases ev)
  case (Some a)
  show ?thesis
  proof (cases "Kind a = ''android_key''")
    case k: True
    show ?thesis
    proof (cases "Evidence a")
      case (Some raw)
      show ?thesis
        using androidKey_iff [of e roots now raw pk] \<open>ev = Some a\<close> k Some
        by (cases "verifyAndroidKey e roots now raw pk"; cases "snd (verifyAndroidKey e roots now raw pk)")
          (auto simp: attest_Verify_def)
    qed (use Some k in \<open>auto simp: attest_Verify_def\<close>)
  qed (use Some in \<open>auto simp: attest_Verify_def\<close>)
qed (simp add: attest_Verify_def)

text \<open>The validity of the chain's last certificate is never looked at: a leaf issued by an
  intermediate that a pinned root has signed is accepted at any instant inside the root's
  validity, however long ago the intermediate expired (the comment says CA validity is
  enforced).\<close>

theorem expired_tail_accepted:
  assumes "signed_by e leaf ca" "signed_by e ca rt" "NotBefore rt \<le> now" "now \<le> NotAfter rt" "NotAfter ca < now"
  shows "verifyChainToGoogleRootAt e [rt] [leaf, ca] now = None"
  using assms by (simp add: verifyChainToGoogleRootAt_def)

lemma expired_tail_accepted_witness:
  fixes c :: "string \<Rightarrow> int \<Rightarrow> unit Cert" and e :: "unit crypto_env"
  defines "c \<equiv> \<lambda>r t. \<lparr>cert_raw = r, NotBefore = 0, NotAfter = t, Extensions = [], ecdsa_key = None\<rparr>"
    and "e \<equiv> \<lparr>parse_cert = \<lambda>_. None, signed_by = \<lambda>_ _. True, verify_asn1 = \<lambda>_ _ _. True, sha256_sum = id,
      read_asn1 = \<lambda>_ s. (None, s), read_int = \<lambda>s. (None, s), read_bool = \<lambda>s. (None, s)\<rparr>"
  shows "verifyChainToGoogleRootAt e [c ''r'' 100] [c ''l'' 0, c ''i'' 10] 50 = None"
  by (rule expired_tail_accepted) (simp_all add: e_def c_def)

end
