(* ===== verification/Store.thy ===== *)
theory Store
  imports Float64 "HOL-Library.Word"
begin

text \<open>
  Package \<open>store\<close>, the persistence boundary (coordinator/internal/store/store.go): its row
  types, and the interfaces its two implementations share, stated as locales: an
  idempotent credit book (\<open>credit_book\<close>) and the settlement of provider earnings
  (\<open>earning_book\<close>). Mem (memory.go) and PG (postgres.go, billing_pg.go) are in Store_Mem and
  Store_PG, where the locales are interpreted. Times are integers, 0 is the zero time.
\<close>

subsection \<open>Row types\<close>

record UsageEvent =
  ue_KeyID :: string
  ue_ProviderID :: string
  ue_Model :: string
  ue_Tier :: string
  ue_PromptTokens :: int
  ue_CompletionTokens :: int
  ue_DurationMS :: int
  ue_FinishReason :: string
  ue_CreatedAt :: int

record ProviderRecord =
  pr_ProviderID :: string
  pr_StaticPK :: string
  pr_Platform :: string
  pr_Arch :: string
  pr_Backend :: string
  pr_LastSeen :: int

record KeyInfo =
  ki_ID :: string
  ki_Label :: string
  ki_Disabled :: bool
  ki_CreatedAt :: int

record UsageRow =
  ur_KeyID :: string
  ur_Model :: string
  ur_Requests :: int
  ur_PromptTokens :: int
  ur_CompletionTokens :: int

record EarningEvent =
  ee_JobID :: string
  ee_ProviderID :: string
  ee_StaticPK :: string
  ee_KeyID :: string
  ee_Model :: string
  ee_ModelClass :: string
  ee_Tier :: string
  ee_GrossMicros :: int
  ee_ProviderMicros :: int
  ee_CreatedAt :: int

record ProviderAccrual =
  pa_StaticPK :: string
  pa_Jobs :: int
  pa_OwedMicros :: int

record NodeCapabilityRow =
  nc_StaticPK :: string
  nc_Model :: string
  nc_Backend :: string
  nc_PrefillTPS :: f64
  nc_DecodeTPS :: f64
  nc_SustainedStartTPS :: f64
  nc_SustainedEndTPS :: f64
  nc_MemBandwidthGBps :: f64
  nc_AvailableRAMMB :: "64 word"
  nc_CPUCores :: int
  nc_ThermalState :: string
  nc_UpdatedAt :: int

record PayoutAccount =
  acc_StaticPK :: string
  acc_StripeAccount :: string
  acc_Status :: string

record PayoutRecord =
  po_StaticPK :: string
  po_StripeAccount :: string
  po_AmountMicros :: int
  po_StripeTransfer :: string
  po_State :: string
  po_RemainderMicros :: int

record EarningRow =
  er_ProviderID :: string
  er_Jobs :: int
  er_GrossMicros :: int
  er_ProviderMicros :: int

record WaitlistEntry =
  wl_Email :: string
  wl_Interest :: string
  wl_Note :: string
  wl_IPHash :: string
  wl_CreatedAt :: int

record FeedbackReply =
  rep_ID :: int
  rep_FeedbackID :: int
  rep_Author :: string
  rep_Body :: string
  rep_CreatedAt :: int

record FeedbackEntry =
  fb_ID :: int
  fb_Kind :: string
  fb_Email :: string
  fb_Device :: string
  fb_Message :: string
  fb_App :: string
  fb_Version :: string
  fb_UserID :: string
  fb_IPHash :: string
  fb_CreatedAt :: int
  fb_Replies :: "FeedbackReply list"

record WorkloadRun =
  wr_ID :: string
  wr_KeyID :: string
  wr_WorkloadID :: string
  wr_Model :: string
  wr_Status :: string
  wr_TotalItems :: int
  wr_DoneItems :: int
  wr_OKItems :: int
  wr_FailedItems :: int
  wr_QuotedMicros :: int
  wr_ChargedMicros :: int
  wr_PromptTokens :: int
  wr_CompletionTokens :: int
  wr_WallMS :: int
  wr_Fanout :: int
  wr_WebhookURL :: string
  wr_WebhookState :: string
  wr_Label :: string
  wr_Error :: string
  wr_CreatedAt :: int
  wr_StartedAt :: "int option"
  wr_FinishedAt :: "int option"

record Proposal =
  prop_Name :: string
  prop_Email :: string
  prop_Title :: string
  prop_Summary :: string
  prop_Link :: string
  prop_IPHash :: string
  prop_CreatedAt :: int

datatype store_error = EarningRequiresIds | NoSuchKey string | FeedbackNotFound | DbError string

subsection \<open>Hexadecimal identifiers\<close>

definition hex_digit :: "nat \<Rightarrow> char" where
  "hex_digit n = (if n < 10 then char_of (48 + n) else char_of (87 + n))"

definition hex_encode :: "string \<Rightarrow> string" where
  "hex_encode bs = concat (map (\<lambda>b. let n = of_char b :: nat in [hex_digit (n div 16), hex_digit (n mod 16)]) bs)"

lemma length_hex_encode [simp]: "length (hex_encode bs) = 2 * length bs"
  by (induction bs) (simp_all add: hex_encode_def Let_def)

text \<open>\<open>sha256\<close> is the digest function, an argument of the operations that hash; the random
  bytes of a new key are an argument too.\<close>

definition keyID :: "(string \<Rightarrow> string) \<Rightarrow> string \<Rightarrow> string" where
  "keyID sha256 k = ''key_'' @ hex_encode (take 6 (sha256 k))"

definition randToken :: "string \<Rightarrow> string \<Rightarrow> string" where
  "randToken prefix b = prefix @ hex_encode b"

subsection \<open>The credit book\<close>

text \<open>One movement: account, signed delta, reason, payment reference and job. A top-up with a
  payment reference and a debit with a job id carry an idempotency key.\<close>

record movement =
  mv_key :: string
  mv_delta :: int
  mv_reason :: string
  mv_ref :: string
  mv_job :: string

datatype idem = Topup string | Debit string

definition idem_key :: "movement \<Rightarrow> idem option" where
  "idem_key v = (if mv_reason v = ''topup'' \<and> mv_ref v \<noteq> [] then Some (Topup (mv_ref v))
     else if mv_reason v = ''debit'' \<and> mv_job v \<noteq> [] then Some (Debit (mv_job v)) else None)"

lemma idem_key_iff:
  "idem_key v = Some (Topup r) \<longleftrightarrow> mv_reason v = ''topup'' \<and> mv_ref v = r \<and> r \<noteq> []"
  "idem_key v = Some (Debit j) \<longleftrightarrow> mv_reason v = ''debit'' \<and> mv_job v = j \<and> j \<noteq> []"
  by (auto simp: idem_key_def)

text \<open>The movements that count: of several with the same idempotency key only the first.\<close>

primrec effective :: "idem set \<Rightarrow> movement list \<Rightarrow> movement list" where
  "effective K [] = []"
| "effective K (v # vs) = (case idem_key v of
     None \<Rightarrow> v # effective K vs
   | Some i \<Rightarrow> if i \<in> K then effective K vs else v # effective (insert i K) vs)"

definition total_for :: "string \<Rightarrow> movement list \<Rightarrow> int" where
  "total_for k vs = sum_list (map mv_delta (filter (\<lambda>v. mv_key v = k) vs))"

locale credit_book =
  fixes balance :: "'s \<Rightarrow> string \<Rightarrow> int"
    and add :: "movement \<Rightarrow> 's \<Rightarrow> store_error + 's"
    and seen :: "'s \<Rightarrow> idem \<Rightarrow> bool"
    and wf :: "'s \<Rightarrow> bool"
  assumes wf_add: "wf s \<Longrightarrow> add v s = Inr s' \<Longrightarrow> wf s'"
    and add_duplicate: "wf s \<Longrightarrow> idem_key v = Some i \<Longrightarrow> seen s i \<Longrightarrow> add v s = Inr s"
    and add_fresh: "wf s \<Longrightarrow> (\<And>i. idem_key v = Some i \<Longrightarrow> \<not> seen s i) \<Longrightarrow> add v s = Inr s' \<Longrightarrow>
      balance s' k = (if k = mv_key v then wrap64 (balance s k + mv_delta v) else balance s k)"
    and seen_add: "wf s \<Longrightarrow> add v s = Inr s' \<Longrightarrow> seen s' i \<longleftrightarrow> seen s i \<or> idem_key v = Some i"
    and balance_range: "wf s \<Longrightarrow> is_int64 (balance s k)"
begin

primrec add_all :: "movement list \<Rightarrow> 's \<Rightarrow> store_error + 's" where
  "add_all [] s = Inr s"
| "add_all (v # vs) s = (case add v s of Inl e \<Rightarrow> Inl e | Inr s' \<Rightarrow> add_all vs s')"

lemma add_idempotent:
  assumes "wf s" "add v s = Inr s'" "idem_key v = Some i"
  shows "add v s' = Inr s'"
  using assms wf_add add_duplicate seen_add by blast

lemma add_other_account:
  assumes "wf s" "add v s = Inr s'" "k \<noteq> mv_key v"
  shows "balance s' k = balance s k"
proof (cases "\<exists>i. idem_key v = Some i \<and> seen s i")
  case True
  then show ?thesis using assms add_duplicate by auto
next
  case False
  then show ?thesis using assms add_fresh [of s v s' k] by auto
qed

lemma add_all_balance:
  "wf s \<Longrightarrow> add_all vs s = Inr s' \<Longrightarrow>
   balance s' k = wrap64 (balance s k + total_for k (effective {i. seen s i} vs))"
proof (induction vs arbitrary: s)
  case Nil
  then show ?case using balance_range by (simp add: total_for_def)
next
  case (Cons v vs)
  then obtain t where t: "add v s = Inr t" "add_all vs t = Inr s'" by (auto split: sum.splits)
  note IH = Cons.IH [OF wf_add [OF Cons.prems(1) t(1)] t(2)]
  have seen: "{i. seen t i} = {i. seen s i} \<union> {i. idem_key v = Some i}"
    using seen_add [OF Cons.prems(1) t(1)] by auto
  show ?case
  proof (cases "\<exists>i. idem_key v = Some i \<and> seen s i")
    case True
    then have "t = s" using add_duplicate Cons.prems(1) t(1) by auto
    then show ?thesis using True IH by (auto simp: total_for_def)
  next
    case False
    then have b: "balance t k = (if k = mv_key v then wrap64 (balance s k + mv_delta v) else balance s k)"
      using add_fresh [OF Cons.prems(1) _ t(1)] by auto
    have "effective {i. seen s i} (v # vs) = v # effective {i. seen t i} vs"
      using False seen by (auto split: option.splits)
    then show ?thesis using IH b by (auto simp: total_for_def ac_simps)
  qed
qed

text \<open>Delivering the same movements again after a crash or a retry changes no balance when
  they all carry an idempotency key.\<close>

lemma add_all_replay:
  assumes "wf s" "\<forall>v \<in> set vs. \<exists>i. idem_key v = Some i \<and> seen s i"
  shows "add_all vs s = Inr s"
  using assms by (induction vs) (auto simp: add_duplicate)

lemma add_all_seen:
  "wf s \<Longrightarrow> add_all vs s = Inr s' \<Longrightarrow> seen s' i \<longleftrightarrow> seen s i \<or> (\<exists>v \<in> set vs. idem_key v = Some i)"
proof (induction vs arbitrary: s)
  case (Cons v vs)
  then obtain t where t: "add v s = Inr t" "add_all vs t = Inr s'" by (auto split: sum.splits)
  from Cons.IH [OF wf_add [OF Cons.prems(1) t(1)] t(2)] seen_add [OF Cons.prems(1) t(1)]
  show ?case by auto
qed simp

lemma wf_add_all: "wf s \<Longrightarrow> add_all vs s = Inr s' \<Longrightarrow> wf s'"
  by (induction vs arbitrary: s) (auto split: sum.splits dest: wf_add)

lemma add_all_twice:
  assumes "wf s" "add_all vs s = Inr s'" "\<forall>v \<in> set vs. idem_key v \<noteq> None"
  shows "add_all vs s' = Inr s'"
  using add_all_replay [OF wf_add_all [OF assms(1,2)]] add_all_seen [OF assms(1,2)] assms(3) by blast

end

subsection \<open>The settlement of earnings\<close>

text \<open>What both implementations promise about accruals: exactly one per job and device.\<close>

locale earning_book =
  fixes record_earning :: "EarningEvent \<Rightarrow> 's \<Rightarrow> store_error + 's"
    and settled :: "'s \<Rightarrow> string \<Rightarrow> string \<Rightarrow> bool"
    and ok_event :: "EarningEvent \<Rightarrow> bool"
    and ok_id :: "string \<Rightarrow> bool"
  assumes record_reject: "record_earning ev s = Inl EarningRequiresIds \<longleftrightarrow> ee_JobID ev = [] \<or> ee_StaticPK ev = []"
    and record_duplicate: "ok_event ev \<Longrightarrow> ee_JobID ev \<noteq> [] \<Longrightarrow> ee_StaticPK ev \<noteq> [] \<Longrightarrow>
      settled s (ee_JobID ev) (ee_StaticPK ev) \<Longrightarrow> record_earning ev s = Inr s"
    and settled_record: "ok_id (ee_StaticPK ev) \<Longrightarrow> ok_id pk \<Longrightarrow> record_earning ev s = Inr s' \<Longrightarrow>
      settled s' j pk \<longleftrightarrow> settled s j pk \<or> (j = ee_JobID ev \<and> pk = ee_StaticPK ev)"
    and record_accepts: "ok_event ev \<Longrightarrow> ee_JobID ev \<noteq> [] \<Longrightarrow> ee_StaticPK ev \<noteq> [] \<Longrightarrow>
      \<exists>s'. record_earning ev s = Inr s'"
begin

primrec record_all :: "EarningEvent list \<Rightarrow> 's \<Rightarrow> 's" where
  "record_all [] s = s"
| "record_all (ev # evs) s = (case record_earning ev s of Inl e \<Rightarrow> record_all evs s | Inr s' \<Rightarrow> record_all evs s')"

lemma record_same_settlement:
  assumes "ok_id (ee_StaticPK ev)" "record_earning ev s = Inr s'" "ok_event ev'"
    and "ee_JobID ev' = ee_JobID ev" "ee_StaticPK ev' = ee_StaticPK ev"
  shows "record_earning ev' s' = Inr s'"
proof -
  have ids: "ee_JobID ev' \<noteq> []" "ee_StaticPK ev' \<noteq> []" using assms(2,4,5) record_reject [of ev s] by auto
  have "settled s' (ee_JobID ev') (ee_StaticPK ev')"
    using settled_record [OF assms(1,1,2)] assms(4,5) by simp
  then show ?thesis by (rule record_duplicate [OF assms(3) ids])
qed

lemma record_all_settled:
  assumes "\<forall>ev \<in> set evs. ok_event ev \<and> ok_id (ee_StaticPK ev) \<and> ee_JobID ev \<noteq> [] \<and> ee_StaticPK ev \<noteq> []" "ok_id pk"
  shows "settled (record_all evs s) j pk \<longleftrightarrow>
    settled s j pk \<or> (\<exists>ev \<in> set evs. j = ee_JobID ev \<and> pk = ee_StaticPK ev)"
  using assms(1)
proof (induction evs arbitrary: s)
  case (Cons ev evs)
  then obtain t where t: "record_earning ev s = Inr t" using record_accepts by (metis list.set_intros(1))
  then show ?case using Cons settled_record [OF _ assms(2) t] by auto
qed simp

text \<open>Replaying a batch of events that was already recorded changes nothing.\<close>

lemma record_all_replay:
  assumes "\<forall>ev \<in> set evs. ok_event ev \<and> ok_id (ee_StaticPK ev) \<and> ee_JobID ev \<noteq> [] \<and> ee_StaticPK ev \<noteq> []"
    and "\<forall>ev \<in> set evs. settled s (ee_JobID ev) (ee_StaticPK ev)"
  shows "record_all evs s = s"
  using assms by (induction evs) (auto simp: record_duplicate)

lemma record_all_twice:
  assumes "\<forall>ev \<in> set evs. ok_event ev \<and> ok_id (ee_StaticPK ev) \<and> ee_JobID ev \<noteq> [] \<and> ee_StaticPK ev \<noteq> []"
  shows "record_all evs (record_all evs s) = record_all evs s"
  using record_all_replay [OF assms] record_all_settled [OF assms] assms by blast

end

end
