(* ===== verification/Store_Mem.thy ===== *)
theory Store_Mem
  imports Store
begin

text \<open>
  \<open>Mem\<close> (coordinator/internal/store/memory.go): the store used when no database is
  configured. One record field per field of the struct, one definition per method (each
  holds the mutex for its whole body). The clock, the digest and random bytes are arguments.
  \<open>Migrate\<close> and \<open>Close\<close> do nothing and have no definition. The credit book and the earning
  book of Store are interpreted here; the owed amounts are not the sum of the accruals,
  which \<open>Mem_owed_only_first_job\<close> shows.
\<close>

record Mem =
  keys :: "string \<rightharpoonup> string"
  keyInfo :: "string \<rightharpoonup> KeyInfo"
  tokens :: "string set"
  rawByID :: "string \<rightharpoonup> string"
  providers :: "string \<rightharpoonup> ProviderRecord"
  usageRows :: "UsageRow list"
  earningRows :: "EarningRow list"
  earningEvents :: "string set"
  waitlist :: "WaitlistEntry list"
  feedback :: "FeedbackEntry list"
  runs :: "string \<rightharpoonup> WorkloadRun"
  proposals :: "Proposal list"
  credits :: "string \<rightharpoonup> int"
  topupRefs :: "string set"
  debitJobs :: "string set"
  payoutAccts :: "string \<rightharpoonup> PayoutAccount"
  nodeCaps :: "string \<rightharpoonup> NodeCapabilityRow"
  accrued :: "string \<rightharpoonup> ProviderAccrual"
  nextPayout :: int
  usage :: int

definition NewMem :: "(string \<Rightarrow> string) \<Rightarrow> string list \<Rightarrow> string list \<Rightarrow> Mem" where
  "NewMem sha256 consumerKeys providerTokens = \<lparr>
     keys = map_of (map (\<lambda>k. (k, keyID sha256 k)) consumerKeys), keyInfo = Map.empty,
     tokens = set providerTokens, rawByID = Map.empty, providers = Map.empty, usageRows = [],
     earningRows = [], earningEvents = {}, waitlist = [], feedback = [], runs = Map.empty,
     proposals = [], credits = Map.empty, topupRefs = {}, debitJobs = {}, payoutAccts = Map.empty,
     nodeCaps = Map.empty, accrued = Map.empty, nextPayout = 0, usage = 0\<rparr>"

subsection \<open>Keys, tokens, providers\<close>

definition ValidateConsumerKey :: "string \<Rightarrow> Mem \<Rightarrow> string \<times> bool" where
  "ValidateConsumerKey key m = (case keys m key of
     None \<Rightarrow> ([], False)
   | Some i \<Rightarrow> (case keyInfo m i of
       Some info \<Rightarrow> if ki_Disabled info then ([], False) else (i, True)
     | None \<Rightarrow> (i, True)))"

definition CreateConsumerKey ::
  "(string \<Rightarrow> string) \<Rightarrow> string \<Rightarrow> int \<Rightarrow> string \<Rightarrow> Mem \<Rightarrow> (string \<times> string) \<times> Mem" where
  "CreateConsumerKey sha256 random now label m = (let
     raw = randToken ''sc_live_'' random;
     i = keyID sha256 raw
   in ((i, raw), m\<lparr>keys := (keys m)(raw \<mapsto> i), rawByID := (rawByID m)(i \<mapsto> raw),
        keyInfo := (keyInfo m)(i \<mapsto> \<lparr>ki_ID = i, ki_Label = label, ki_Disabled = False, ki_CreatedAt = now\<rparr>)\<rparr>))"

definition ListConsumerKeys :: "string list \<Rightarrow> Mem \<Rightarrow> KeyInfo list" where
  "ListConsumerKeys order m = range_vals (keyInfo m) order"

definition SetConsumerKeyDisabled :: "string \<Rightarrow> bool \<Rightarrow> Mem \<Rightarrow> store_error + Mem" where
  "SetConsumerKeyDisabled i disabled m = (case keyInfo m i of
     None \<Rightarrow> Inl (NoSuchKey i)
   | Some info \<Rightarrow> Inr (m\<lparr>keyInfo := (keyInfo m)(i \<mapsto> info\<lparr>ki_Disabled := disabled\<rparr>)\<rparr>))"

definition ValidateProviderToken :: "string \<Rightarrow> Mem \<Rightarrow> bool" where
  "ValidateProviderToken token m = (token \<in> tokens m)"

definition UpsertProvider :: "ProviderRecord \<Rightarrow> Mem \<Rightarrow> Mem" where
  "UpsertProvider p m = m\<lparr>providers := (providers m)(pr_ProviderID p \<mapsto> p)\<rparr>"

subsection \<open>Usage\<close>

primrec bump_usage :: "UsageEvent \<Rightarrow> UsageRow list \<Rightarrow> UsageRow list option" where
  "bump_usage ev [] = None"
| "bump_usage ev (r # rs) =
    (if ur_KeyID r = ue_KeyID ev \<and> ur_Model r = ue_Model ev
     then Some (r\<lparr>ur_Requests := wrap64 (ur_Requests r + 1),
       ur_PromptTokens := wrap64 (ur_PromptTokens r + ue_PromptTokens ev),
       ur_CompletionTokens := wrap64 (ur_CompletionTokens r + ue_CompletionTokens ev)\<rparr> # rs)
     else map_option (\<lambda>rs. r # rs) (bump_usage ev rs))"

definition RecordUsage :: "UsageEvent \<Rightarrow> Mem \<Rightarrow> Mem" where
  "RecordUsage ev m = (let m = m\<lparr>usage := wrap64 (usage m + 1)\<rparr> in
     case bump_usage ev (usageRows m) of
       Some rows \<Rightarrow> m\<lparr>usageRows := rows\<rparr>
     | None \<Rightarrow> m\<lparr>usageRows := usageRows m @ [\<lparr>ur_KeyID = ue_KeyID ev, ur_Model = ue_Model ev,
         ur_Requests = 1, ur_PromptTokens = ue_PromptTokens ev,
         ur_CompletionTokens = ue_CompletionTokens ev\<rparr>]\<rparr>)"

definition UsageCount :: "Mem \<Rightarrow> int" where "UsageCount m = usage m"

definition UsageSince :: "int \<Rightarrow> Mem \<Rightarrow> UsageRow list" where "UsageSince t m = usageRows m"

subsection \<open>Earnings and payouts\<close>

primrec bump_earning :: "EarningEvent \<Rightarrow> EarningRow list \<Rightarrow> EarningRow list option" where
  "bump_earning ev [] = None"
| "bump_earning ev (r # rs) =
    (if er_ProviderID r = ee_ProviderID ev
     then Some (r\<lparr>er_Jobs := wrap64 (er_Jobs r + 1),
       er_GrossMicros := wrap64 (er_GrossMicros r + ee_GrossMicros ev),
       er_ProviderMicros := wrap64 (er_ProviderMicros r + ee_ProviderMicros ev)\<rparr> # rs)
     else map_option (\<lambda>rs. r # rs) (bump_earning ev rs))"

definition settlement_key :: "string \<Rightarrow> string \<Rightarrow> string" where
  "settlement_key job pk = job @ [CHR 0x00] @ pk"

definition RecordEarning :: "EarningEvent \<Rightarrow> Mem \<Rightarrow> store_error + Mem" where
  "RecordEarning ev m =
    (if ee_JobID ev = [] \<or> ee_StaticPK ev = [] then Inl EarningRequiresIds
     else let k = settlement_key (ee_JobID ev) (ee_StaticPK ev) in
     if k \<in> earningEvents m then Inr m
     else let m = m\<lparr>earningEvents := insert k (earningEvents m)\<rparr> in
     case bump_earning ev (earningRows m) of
       Some rows \<Rightarrow> Inr (m\<lparr>earningRows := rows\<rparr>)
     | None \<Rightarrow> let
         m = m\<lparr>earningRows := earningRows m @ [\<lparr>er_ProviderID = ee_ProviderID ev, er_Jobs = 1,
               er_GrossMicros = ee_GrossMicros ev, er_ProviderMicros = ee_ProviderMicros ev\<rparr>]\<rparr>
       in if ee_StaticPK ev \<noteq> [] then let
           a = (case accrued m (ee_StaticPK ev) of
                  None \<Rightarrow> \<lparr>pa_StaticPK = ee_StaticPK ev, pa_Jobs = 0, pa_OwedMicros = 0\<rparr> | Some a \<Rightarrow> a);
           a = a\<lparr>pa_Jobs := wrap64 (pa_Jobs a + 1),
                pa_OwedMicros := wrap64 (pa_OwedMicros a + ee_ProviderMicros ev)\<rparr>
         in Inr (m\<lparr>accrued := (accrued m)(ee_StaticPK ev \<mapsto> a)\<rparr>)
       else Inr m)"

definition AccruedByProvider :: "string list \<Rightarrow> Mem \<Rightarrow> ProviderAccrual list" where
  "AccruedByProvider order m = filter (\<lambda>a. pa_OwedMicros a > 0) (range_vals (accrued m) order)"

definition RecordPayoutAndSettle :: "PayoutRecord \<Rightarrow> Mem \<Rightarrow> int \<times> Mem" where
  "RecordPayoutAndSettle po m = (let
     m = m\<lparr>nextPayout := wrap64 (nextPayout m + 1)\<rparr>;
     m = (if po_State po = ''created'' then
            (case accrued m (po_StaticPK po) of
               Some a \<Rightarrow> m\<lparr>accrued := (accrued m)(po_StaticPK po \<mapsto>
                 a\<lparr>pa_Jobs := 0, pa_OwedMicros := po_RemainderMicros po\<rparr>)\<rparr>
             | None \<Rightarrow> m)
          else m)
   in (nextPayout m, m))"

definition EarningsSince :: "int \<Rightarrow> Mem \<Rightarrow> EarningRow list" where "EarningsSince t m = earningRows m"

definition UpsertPayoutAccount :: "PayoutAccount \<Rightarrow> Mem \<Rightarrow> Mem" where
  "UpsertPayoutAccount a m = m\<lparr>payoutAccts := (payoutAccts m)(acc_StaticPK a \<mapsto> a)\<rparr>"

definition GetPayoutAccount :: "string \<Rightarrow> Mem \<Rightarrow> PayoutAccount option" where
  "GetPayoutAccount pk m = payoutAccts m pk"

definition PayoutAccountByStripe :: "string list \<Rightarrow> string \<Rightarrow> Mem \<Rightarrow> PayoutAccount option" where
  "PayoutAccountByStripe order acct m =
     find (\<lambda>a. acc_StripeAccount a = acct) (range_vals (payoutAccts m) order)"

subsection \<open>Credits\<close>

definition CreditBalance :: "Mem \<Rightarrow> string \<Rightarrow> int" where
  "CreditBalance m key = (case credits m key of None \<Rightarrow> 0 | Some c \<Rightarrow> c)"

definition AddCredit :: "movement \<Rightarrow> Mem \<Rightarrow> store_error + Mem" where
  "AddCredit v m =
    (if mv_reason v = ''topup'' \<and> mv_ref v \<noteq> [] \<and> mv_ref v \<in> topupRefs m then Inr m
     else let m = (if mv_reason v = ''topup'' \<and> mv_ref v \<noteq> []
                   then m\<lparr>topupRefs := insert (mv_ref v) (topupRefs m)\<rparr> else m) in
     if mv_reason v = ''debit'' \<and> mv_job v \<noteq> [] \<and> mv_job v \<in> debitJobs m then Inr m
     else let m = (if mv_reason v = ''debit'' \<and> mv_job v \<noteq> []
                   then m\<lparr>debitJobs := insert (mv_job v) (debitJobs m)\<rparr> else m)
     in Inr (m\<lparr>credits := (credits m)(mv_key v \<mapsto> wrap64 (CreditBalance m (mv_key v) + mv_delta v))\<rparr>))"

subsection \<open>Capabilities, waitlist, proposals, feedback, runs\<close>

definition UpsertNodeCapability :: "int \<Rightarrow> NodeCapabilityRow \<Rightarrow> Mem \<Rightarrow> Mem" where
  "UpsertNodeCapability now c m =
     m\<lparr>nodeCaps := (nodeCaps m)(nc_StaticPK c \<mapsto> c\<lparr>nc_UpdatedAt := now\<rparr>)\<rparr>"

definition NodeCapabilities :: "string list \<Rightarrow> Mem \<Rightarrow> NodeCapabilityRow list" where
  "NodeCapabilities order m = range_vals (nodeCaps m) order"

primrec replace_wait :: "WaitlistEntry \<Rightarrow> WaitlistEntry list \<Rightarrow> WaitlistEntry list option" where
  "replace_wait e [] = None"
| "replace_wait e (w # ws) = (if equal_fold (wl_Email w) (wl_Email e) then Some (e # ws)
     else map_option (\<lambda>ws. w # ws) (replace_wait e ws))"

definition AddWaitlist :: "WaitlistEntry \<Rightarrow> Mem \<Rightarrow> Mem" where
  "AddWaitlist e m = (case replace_wait e (waitlist m) of
     Some ws \<Rightarrow> m\<lparr>waitlist := ws\<rparr> | None \<Rightarrow> m\<lparr>waitlist := waitlist m @ [e]\<rparr>)"

definition WaitlistSince :: "int \<Rightarrow> Mem \<Rightarrow> WaitlistEntry list" where "WaitlistSince t m = waitlist m"

definition AddProposal :: "Proposal \<Rightarrow> Mem \<Rightarrow> Mem" where
  "AddProposal p m = m\<lparr>proposals := proposals m @ [p]\<rparr>"

definition ProposalsSince :: "int \<Rightarrow> Mem \<Rightarrow> Proposal list" where "ProposalsSince t m = proposals m"

definition AddFeedback :: "int \<Rightarrow> FeedbackEntry \<Rightarrow> Mem \<Rightarrow> Mem" where
  "AddFeedback now e m = (let
     e = e\<lparr>fb_ID := int (length (feedback m)) + 1\<rparr>;
     e = (if fb_CreatedAt e = 0 then e\<lparr>fb_CreatedAt := now\<rparr> else e)
   in m\<lparr>feedback := feedback m @ [e]\<rparr>)"

definition FeedbackSince :: "int \<Rightarrow> Mem \<Rightarrow> FeedbackEntry list" where "FeedbackSince t m = feedback m"

definition FeedbackForUser :: "string \<Rightarrow> string \<Rightarrow> Mem \<Rightarrow> FeedbackEntry list" where
  "FeedbackForUser userID email m = filter (\<lambda>e. (userID \<noteq> [] \<and> fb_UserID e = userID) \<or>
     (email \<noteq> [] \<and> equal_fold (fb_Email e) email)) (feedback m)"

primrec add_reply :: "int \<Rightarrow> int \<Rightarrow> string \<Rightarrow> string \<Rightarrow> FeedbackEntry list \<Rightarrow>
    (FeedbackReply \<times> FeedbackEntry list) option" where
  "add_reply now i author body [] = None"
| "add_reply now i author body (e # es) =
    (if fb_ID e = i then
       (let r = \<lparr>rep_ID = int (length (fb_Replies e)) + 1, rep_FeedbackID = i, rep_Author = author,
                 rep_Body = body, rep_CreatedAt = now\<rparr>
        in Some (r, e\<lparr>fb_Replies := fb_Replies e @ [r]\<rparr> # es))
     else map_option (\<lambda>(r, es). (r, e # es)) (add_reply now i author body es))"

definition AddFeedbackReply ::
  "int \<Rightarrow> int \<Rightarrow> string \<Rightarrow> string \<Rightarrow> Mem \<Rightarrow> store_error + (FeedbackReply \<times> Mem)" where
  "AddFeedbackReply now i author body m = (case add_reply now i author body (feedback m) of
     None \<Rightarrow> Inl FeedbackNotFound
   | Some (r, es) \<Rightarrow> Inr (r, m\<lparr>feedback := es\<rparr>))"

definition UpsertRun :: "int \<Rightarrow> WorkloadRun \<Rightarrow> Mem \<Rightarrow> Mem" where
  "UpsertRun now r m = (let r = (if wr_CreatedAt r = 0 then r\<lparr>wr_CreatedAt := now\<rparr> else r)
     in m\<lparr>runs := (runs m)(wr_ID r \<mapsto> r)\<rparr>)"

definition GetRun :: "string \<Rightarrow> Mem \<Rightarrow> WorkloadRun option" where "GetRun i m = runs m i"

definition newer :: "WorkloadRun \<Rightarrow> WorkloadRun \<Rightarrow> bool" where
  "newer a b \<longleftrightarrow> wr_CreatedAt b < wr_CreatedAt a"

definition ListRuns :: "string list \<Rightarrow> string \<Rightarrow> int \<Rightarrow> Mem \<Rightarrow> WorkloadRun list" where
  "ListRuns order key limit m = (let
     limit = (if limit \<le> 0 \<or> limit > 200 then 50 else limit);
     out = filter (\<lambda>r. wr_KeyID r = key) (range_vals (runs m) order);
     out = sort_by newer out
   in if int (length out) > limit then take (nat limit) out else out)"

subsection \<open>The credit book of Mem\<close>

definition mem_seen :: "Mem \<Rightarrow> idem \<Rightarrow> bool" where
  "mem_seen m i = (case i of Topup r \<Rightarrow> r \<in> topupRefs m | Debit j \<Rightarrow> j \<in> debitJobs m)"

definition mem_wf :: "Mem \<Rightarrow> bool" where
  "mem_wf m \<longleftrightarrow> (\<forall>k c. credits m k = Some c \<longrightarrow> is_int64 c)"

definition mem_mark :: "idem \<Rightarrow> Mem \<Rightarrow> Mem" where
  "mem_mark i m = (case i of Topup r \<Rightarrow> m\<lparr>topupRefs := insert r (topupRefs m)\<rparr>
     | Debit j \<Rightarrow> m\<lparr>debitJobs := insert j (debitJobs m)\<rparr>)"

definition mem_apply :: "movement \<Rightarrow> Mem \<Rightarrow> Mem" where
  "mem_apply v m = m\<lparr>credits := (credits m)(mv_key v \<mapsto> wrap64 (CreditBalance m (mv_key v) + mv_delta v))\<rparr>"

lemma AddCredit_eq:
  "AddCredit v m = Inr (case idem_key v of None \<Rightarrow> mem_apply v m
     | Some i \<Rightarrow> if mem_seen m i then m else mem_apply v (mem_mark i m))"
proof -
  consider (topup) "mv_reason v = ''topup''" "mv_ref v \<noteq> []" | (debit) "mv_reason v = ''debit''" "mv_job v \<noteq> []"
    | (plain) "\<not> (mv_reason v = ''topup'' \<and> mv_ref v \<noteq> [])" "\<not> (mv_reason v = ''debit'' \<and> mv_job v \<noteq> [])"
    by blast
  then show ?thesis
  proof cases
    case topup
    then have "idem_key v = Some (Topup (mv_ref v))" by (simp add: idem_key_def)
    with topup show ?thesis by (simp add: AddCredit_def mem_seen_def mem_mark_def mem_apply_def Let_def)
  next
    case debit
    then have "idem_key v = Some (Debit (mv_job v))" by (simp add: idem_key_def)
    with debit show ?thesis by (simp add: AddCredit_def mem_seen_def mem_mark_def mem_apply_def Let_def)
  next
    case plain
    then have "idem_key v = None" unfolding idem_key_def by presburger
    moreover have "AddCredit v m = Inr (mem_apply v m)"
      unfolding AddCredit_def Let_def mem_apply_def using plain by presburger
    ultimately show ?thesis by simp
  qed
qed

lemma mem_mark_simps [simp]:
  "credits (mem_mark i m) = credits m" "CreditBalance (mem_mark i m) k = CreditBalance m k"
  "mem_seen (mem_mark i m) j \<longleftrightarrow> mem_seen m j \<or> i = j" "mem_wf (mem_mark i m) = mem_wf m"
  by (auto simp: mem_mark_def CreditBalance_def mem_seen_def mem_wf_def split: idem.splits)

lemma mem_apply_simps [simp]:
  "CreditBalance (mem_apply v m) k =
    (if k = mv_key v then wrap64 (CreditBalance m k + mv_delta v) else CreditBalance m k)"
  "mem_seen (mem_apply v m) j = mem_seen m j" "mem_wf m \<Longrightarrow> mem_wf (mem_apply v m)"
  by (auto simp: mem_apply_def CreditBalance_def mem_seen_def mem_wf_def split: idem.splits)

lemma CreditBalance_int64: "mem_wf m \<Longrightarrow> is_int64 (CreditBalance m k)"
  by (cases "credits m k") (auto simp: mem_wf_def CreditBalance_def is_int64_def)

interpretation mem_credit: credit_book CreditBalance AddCredit mem_seen mem_wf
proof unfold_locales
  show "mem_wf m \<Longrightarrow> AddCredit v m = Inr m' \<Longrightarrow> mem_wf m'" for m m' v
    by (auto simp: AddCredit_eq split: if_splits option.splits)
  show "mem_wf m \<Longrightarrow> idem_key v = Some i \<Longrightarrow> mem_seen m i \<Longrightarrow> AddCredit v m = Inr m" for m v i
    by (auto simp: AddCredit_eq)
  show "mem_wf m \<Longrightarrow> (\<And>i. idem_key v = Some i \<Longrightarrow> \<not> mem_seen m i) \<Longrightarrow> AddCredit v m = Inr m' \<Longrightarrow>
      CreditBalance m' k = (if k = mv_key v then wrap64 (CreditBalance m k + mv_delta v) else CreditBalance m k)"
    for m m' v k
    by (auto simp: AddCredit_eq split: if_splits option.splits)
  show "mem_wf m \<Longrightarrow> AddCredit v m = Inr m' \<Longrightarrow> mem_seen m' i \<longleftrightarrow> mem_seen m i \<or> idem_key v = Some i"
    for m m' v i
    by (auto simp: AddCredit_eq split: if_splits option.splits)
  show "mem_wf m \<Longrightarrow> is_int64 (CreditBalance m k)" for m k
    by (rule CreditBalance_int64)
qed

subsection \<open>The earning book of Mem\<close>

definition mem_settled :: "Mem \<Rightarrow> string \<Rightarrow> string \<Rightarrow> bool" where
  "mem_settled m j pk \<longleftrightarrow> settlement_key j pk \<in> earningEvents m"

definition nul_free :: "string \<Rightarrow> bool" where
  "nul_free s \<longleftrightarrow> CHR 0x00 \<notin> set s"

lemma settlement_key_inj:
  assumes "nul_free p" "nul_free q" "settlement_key j p = settlement_key k q"
  shows "j = k \<and> p = q"
proof -
  have tw: "takeWhile (\<lambda>c. c \<noteq> CHR 0x00) (rev (settlement_key x y)) = rev y" if "nul_free y" for x y
    using that by (auto simp: settlement_key_def nul_free_def takeWhile_append)
  from tw [OF assms(1), of j] tw [OF assms(2), of k] have "p = q" by (simp add: assms(3))
  then show ?thesis using assms(3) by (simp add: settlement_key_def)
qed

lemma settlement_key_iff:
  "nul_free p \<Longrightarrow> nul_free q \<Longrightarrow> settlement_key j p = settlement_key k q \<longleftrightarrow> j = k \<and> p = q"
  using settlement_key_inj by blast

lemma RecordEarning_ok:
  assumes "ee_JobID ev \<noteq> []" "ee_StaticPK ev \<noteq> []"
  shows "\<exists>m'. RecordEarning ev m = Inr m' \<and>
    earningEvents m' = insert (settlement_key (ee_JobID ev) (ee_StaticPK ev)) (earningEvents m)"
proof (cases "settlement_key (ee_JobID ev) (ee_StaticPK ev) \<in> earningEvents m")
  case True
  then show ?thesis using assms by (auto simp: RecordEarning_def)
next
  case False
  then show ?thesis
    using assms by (cases "bump_earning ev (earningRows m)") (simp_all add: RecordEarning_def Let_def)
qed

lemma RecordEarning_reject: "ee_JobID ev = [] \<or> ee_StaticPK ev = [] \<Longrightarrow> RecordEarning ev m = Inl EarningRequiresIds"
  by (simp add: RecordEarning_def)

lemma RecordEarning_cases:
  assumes "RecordEarning ev m = Inr m'"
  shows "ee_JobID ev \<noteq> [] \<and> ee_StaticPK ev \<noteq> [] \<and>
    earningEvents m' = insert (settlement_key (ee_JobID ev) (ee_StaticPK ev)) (earningEvents m)"
  using assms RecordEarning_ok [of ev m] RecordEarning_reject [of ev m] by fastforce

interpretation mem_earning: earning_book RecordEarning mem_settled "\<lambda>_. True" nul_free
proof unfold_locales
  show "RecordEarning ev m = Inl EarningRequiresIds \<longleftrightarrow> ee_JobID ev = [] \<or> ee_StaticPK ev = []" for ev m
    using RecordEarning_ok [of ev m] RecordEarning_reject [of ev m] by fastforce
  show "ee_JobID ev \<noteq> [] \<Longrightarrow> ee_StaticPK ev \<noteq> [] \<Longrightarrow>
      mem_settled m (ee_JobID ev) (ee_StaticPK ev) \<Longrightarrow> RecordEarning ev m = Inr m" for ev m
    by (simp add: RecordEarning_def mem_settled_def)
  show "nul_free (ee_StaticPK ev) \<Longrightarrow> nul_free pk \<Longrightarrow> RecordEarning ev m = Inr m' \<Longrightarrow>
      mem_settled m' j pk \<longleftrightarrow> mem_settled m j pk \<or> (j = ee_JobID ev \<and> pk = ee_StaticPK ev)" for ev m m' j pk
    using RecordEarning_cases [of ev m m'] settlement_key_iff [of pk "ee_StaticPK ev"]
    by (auto simp add: mem_settled_def)
  show "ee_JobID ev \<noteq> [] \<Longrightarrow> ee_StaticPK ev \<noteq> [] \<Longrightarrow> \<exists>m'. RecordEarning ev m = Inr m'" for ev m
    using RecordEarning_ok [of ev m] by blast
qed

subsection \<open>Properties\<close>

lemma Mem_credit_sum:
  "\<exists>m'. mem_credit.add_all vs (NewMem sha256 ks ts) = Inr m' \<and>
    (\<forall>k. CreditBalance m' k = wrap64 (total_for k (effective {} vs)))"
proof -
  have ex: "\<exists>m'. mem_credit.add_all vs m = Inr m'" for m
    by (induction vs arbitrary: m) (simp_all add: AddCredit_eq)
  then obtain m' where m': "mem_credit.add_all vs (NewMem sha256 ks ts) = Inr m'" by blast
  have wf: "mem_wf (NewMem sha256 ks ts)" by (simp add: mem_wf_def NewMem_def)
  have none: "{i. mem_seen (NewMem sha256 ks ts) i} = {}"
    by (auto simp: mem_seen_def NewMem_def split: idem.splits)
  have "CreditBalance m' k = wrap64 (total_for k (effective {} vs))" for k
    using mem_credit.add_all_balance [OF wf m', of k] unfolding none
    by (simp add: CreditBalance_def NewMem_def)
  with m' show ?thesis by blast
qed

text \<open>Crediting the in-memory book with any sequence of movements leaves on every account
  the sum of the movements that count (top-ups once per payment reference, debits once per
  job, everything else every time), computed in 64-bit arithmetic; no movement fails.\<close>

lemma Mem_credit_total:
  "\<exists>m'. mem_credit.add_all vs (NewMem sha256 ks ts) = Inr m' \<and>
    (\<forall>k. CreditBalance m' k = wrap64 (total_for k (effective {} vs)))"
  by (rule Mem_credit_sum)

text \<open>What a provider is owed in the in-memory store is wrong after its second job: the
  loop that updates the provider's earnings row returns before the accrual per payout
  identity is touched, so of any two different jobs of one provider only the first is owed.\<close>

lemma Mem_owed_only_first_job:
  assumes "ee_JobID e1 \<noteq> ee_JobID e2" "ee_JobID e1 \<noteq> []" "ee_JobID e2 \<noteq> []"
    and "ee_StaticPK e1 = pk" "ee_StaticPK e2 = pk" "pk \<noteq> []" "nul_free pk"
    and "ee_ProviderID e1 = ee_ProviderID e2" "0 < ee_ProviderMicros e1" "is_int64 (ee_ProviderMicros e1)"
  shows "\<exists>m1 m2. RecordEarning e1 (NewMem sha256 ks ts) = Inr m1 \<and> RecordEarning e2 m1 = Inr m2 \<and>
    AccruedByProvider [pk] m2 = [\<lparr>pa_StaticPK = pk, pa_Jobs = 1, pa_OwedMicros = ee_ProviderMicros e1\<rparr>] \<and>
    er_ProviderMicros (hd (EarningsSince 0 m2)) = wrap64 (ee_ProviderMicros e1 + ee_ProviderMicros e2)"
proof -
  have ne: "settlement_key (ee_JobID e2) pk \<noteq> settlement_key (ee_JobID e1) pk"
    using settlement_key_inj [OF assms(7,7)] assms(1) by metis
  show ?thesis
    using assms(2-6,8-10) ne
    by (simp add: RecordEarning_def NewMem_def Let_def AccruedByProvider_def range_vals_def
        EarningsSince_def is_int64_def)
qed

definition sample_event :: "string \<Rightarrow> int \<Rightarrow> EarningEvent" where
  "sample_event j a = \<lparr>ee_JobID = j, ee_ProviderID = ''p'', ee_StaticPK = ''k'', ee_KeyID = [], ee_Model = [],
     ee_ModelClass = [], ee_Tier = [], ee_GrossMicros = 10, ee_ProviderMicros = a, ee_CreatedAt = 0\<rparr>"

lemma Mem_owed_only_first_job_witness:
  "\<exists>m1 m2. RecordEarning (sample_event ''a'' 7) (NewMem (\<lambda>x. x) [] []) = Inr m1 \<and>
     RecordEarning (sample_event ''b'' 100) m1 = Inr m2 \<and>
     AccruedByProvider [''k''] m2 = [\<lparr>pa_StaticPK = ''k'', pa_Jobs = 1, pa_OwedMicros = 7\<rparr>]"
  using Mem_owed_only_first_job [of "sample_event ''a'' 7" "sample_event ''b'' 100" "''k''" "\<lambda>x. x" "[]" "[]"]
  by (auto simp: sample_event_def nul_free_def is_int64_def)

lemma Mem_earning_idempotent:
  "nul_free (ee_StaticPK ev) \<Longrightarrow> RecordEarning ev m = Inr m' \<Longrightarrow>
   ee_JobID ev' = ee_JobID ev \<Longrightarrow> ee_StaticPK ev' = ee_StaticPK ev \<Longrightarrow> RecordEarning ev' m' = Inr m'"
  using mem_earning.record_same_settlement by blast

text \<open>Keys: a created key validates until it is disabled.\<close>

lemma Validate_Create:
  "CreateConsumerKey sha256 rnd_bytes now label m = ((i, raw), m') \<Longrightarrow> ValidateConsumerKey raw m' = (i, True)"
  by (auto simp: CreateConsumerKey_def ValidateConsumerKey_def Let_def)

lemma Disabled_iff:
  assumes "SetConsumerKeyDisabled i d m = Inr m'"
  shows "ValidateConsumerKey raw m' = (if keys m raw = Some i then (if d then ([], False) else (i, True))
    else ValidateConsumerKey raw m)"
proof -
  obtain info where m': "keyInfo m i = Some info" "m' = m\<lparr>keyInfo := (keyInfo m)(i \<mapsto> info\<lparr>ki_Disabled := d\<rparr>)\<rparr>"
    using assms by (auto simp: SetConsumerKeyDisabled_def split: option.splits)
  show ?thesis
  proof (cases "keys m raw")
    case (Some j)
    then show ?thesis unfolding m'(2) ValidateConsumerKey_def by (cases "j = i") simp_all
  qed (simp add: m'(2) ValidateConsumerKey_def)
qed

lemma Validate_reenabled:
  assumes "ValidateConsumerKey raw m = (i, True)" "SetConsumerKeyDisabled i d1 m = Inr m1"
    "SetConsumerKeyDisabled i False m1 = Inr m2"
  shows "ValidateConsumerKey raw m2 = (i, True)"
proof -
  have "keys m raw = Some i"
    using assms(1) by (simp add: ValidateConsumerKey_def split: option.splits if_splits)
  moreover have "keys m1 = keys m"
    using assms(2) by (auto simp: SetConsumerKeyDisabled_def split: option.splits)
  ultimately show ?thesis using Disabled_iff [OF assms(3)] by simp
qed

text \<open>Runs: newest first, only the key's own, at most 200.\<close>

interpretation recent: slice_less newer
  unfolding newer_def by (rule slice_less_key_desc)

lemma ListRuns_sorted: "sorted_wrt (\<lambda>a b. wr_CreatedAt b \<le> wr_CreatedAt a) (ListRuns order key limit m)"
proof -
  have "sorted_wrt (\<lambda>a b. wr_CreatedAt b \<le> wr_CreatedAt a) (sort_by newer xs)" for xs
    using recent.sort_by_sorted [of xs] by (simp add: newer_def not_less)
  then show ?thesis by (simp add: ListRuns_def Let_def sorted_wrt_take)
qed

lemma ListRuns_subset: "set (ListRuns order key limit m) \<subseteq> {r \<in> set (range_vals (runs m) order). wr_KeyID r = key}"
proof -
  have "set (if c then take n ys else ys) \<subseteq> set ys" for c n and ys :: "WorkloadRun list"
    by (simp add: set_take_subset)
  then show ?thesis unfolding ListRuns_def Let_def by (rule order_trans) auto
qed

lemma ListRuns_own:
  assumes "iter_order (runs m) order" "r \<in> set (ListRuns order key limit m)"
  shows "wr_KeyID r = key \<and> r \<in> ran (runs m)"
  using subsetD [OF ListRuns_subset assms(2)] set_range_vals [OF assms(1)] by simp

lemma cap_length:
  assumes "0 \<le> l" "l \<le> 200"
  shows "length (if int (length xs) > l then take (nat l) xs else xs) \<le> 200"
  using assms by (cases "int (length xs) > l") (auto simp: nat_le_iff min_def)

lemma ListRuns_length: "length (ListRuns order key limit m) \<le> 200"
  unfolding ListRuns_def Let_def by (rule cap_length) simp_all

lemma GetRun_UpsertRun:
  "wr_CreatedAt r \<noteq> 0 \<Longrightarrow> GetRun i (UpsertRun now r m) = (if i = wr_ID r then Some r else GetRun i m)"
  by (simp add: GetRun_def UpsertRun_def Let_def)

end
