(* ===== verification/Wshub.thy ===== *)
theory Wshub
  imports Relay Attest Store_Mem
begin

text \<open>
  Package \<open>wshub\<close> (coordinator/internal/wshub/wshub.go): a provider's WebSocket session, from
  the register frame to the disconnect. A session owns one provider struct (a pointer of the
  registry's store) and shares the registry, the job manager and the store with everything
  else. Reads of the socket, the clock, the fresh id, the account lookup of package \<open>auth\<close> and
  the success of writes are arguments; the frames and close codes sent are part of the result.
\<close>

record hub =
  hb_reg :: Registry
  hb_jobs :: "json Event Manager"
  hb_store :: Mem
  owners :: "string \<rightharpoonup> string"

datatype out_frame = SendRegisterAck RegisterAck | SendHeartbeatAck HeartbeatAck | CloseSocket string

definition ack_error :: "string \<Rightarrow> out_frame" where
  "ack_error err = SendRegisterAck \<lparr>ra_OK = False, ra_Error = err, ra_ProviderID = [], ra_TrustTier = [],
     ra_AcceptedModels = [], ra_HeartbeatSeconds = 0, ra_CoordinatorPK = []\<rparr>"

text \<open>What a session reads from its surroundings. \<open>account\<close> is \<open>None\<close> when sign-in is not
  configured, otherwise the owner of a provider token.\<close>

record 'pub session_env =
  se_crypto :: "'pub crypto_env"
  se_roots :: "'pub Cert list"
  se_now :: int
  se_uuid :: string
  se_account :: "(string \<Rightarrow> string option) option"
  se_heartbeat :: int

subsection \<open>Registration\<close>

definition register_tier :: "'pub session_env \<Rightarrow> json option Register \<Rightarrow> string \<Rightarrow> string" where
  "register_tier e reg staticPK = (case reg_Attestation reg of
     None \<Rightarrow> TierCommunity
   | Some a \<Rightarrow> if Kind a \<noteq> [] \<and> Kind a \<noteq> ''none''
       then Tier (fst (attest_Verify (se_crypto e) (se_roots e) (se_now e) (Some a) staticPK))
       else TierCommunity)"

definition new_provider :: "'pub session_env \<Rightarrow> json option Register \<Rightarrow> string \<Rightarrow> Provider" where
  "new_provider e reg staticPK = \<lparr>ID = se_uuid e, StaticPKBytes = staticPK, Caps = reg_Capabilities reg,
     TrustTier = register_tier e reg staticPK, Tele = telemetry_zero, ConnectedAt = se_now e,
     LastSeen = se_now e, active = 0, draining = False\<rparr>"

definition provider_record :: "'pub session_env \<Rightarrow> json option Register \<Rightarrow> ProviderRecord" where
  "provider_record e reg = \<lparr>pr_ProviderID = se_uuid e, pr_StaticPK = StaticPK reg,
     pr_Platform = Platform (reg_Capabilities reg), pr_Arch = Arch (reg_Capabilities reg),
     pr_Backend = Backend (reg_Capabilities reg), pr_LastSeen = 0\<rparr>"

definition link_device :: "'pub session_env \<Rightarrow> string \<Rightarrow> string \<Rightarrow> hub \<Rightarrow> hub" where
  "link_device e token pk h = (case se_account e of None \<Rightarrow> h
   | Some user \<Rightarrow> (case user token of None \<Rightarrow> h | Some uid \<Rightarrow> h\<lparr>owners := (owners h)(pk \<mapsto> uid)\<rparr>))"

text \<open>The checks on the first frame: \<open>first\<close> is \<open>None\<close> when the read fails, its content the parsed text.
  The result is what is sent back before giving up, or the decoded frame, whether its token is
  an account's, and the key.\<close>

definition check_register :: "'pub session_env \<Rightarrow> json option option \<Rightarrow> hub \<Rightarrow>
    out_frame list + json option Register \<times> bool \<times> string" where
  "check_register e first h = (case first of
     None \<Rightarrow> Inl [CloseSocket ''no register frame'']
   | Some raw \<Rightarrow> (case Parse raw of
       Inl _ \<Rightarrow> Inl [ack_error ''protocol-version'', CloseSocket ''expected register'']
     | Inr frame \<Rightarrow>
         if env_Type (Env frame) \<noteq> TypeRegister
           then Inl [ack_error ''protocol-version'', CloseSocket ''expected register'']
         else (case dec_struct register_fields (Raw frame) register_zero of
             None \<Rightarrow> Inl [ack_error ''internal'']
           | Some reg \<Rightarrow>
               (let envOK = ValidateProviderToken (RegistrationToken reg) (hb_store h);
                    acctOK = (case se_account e of None \<Rightarrow> False | Some user \<Rightarrow> user (RegistrationToken reg) \<noteq> None) in
                if \<not> envOK \<and> \<not> acctOK then Inl [ack_error ''bad-token'', CloseSocket ''bad token'']
                else (case ParsePublicKey (StaticPK reg) of
                    Inl _ \<Rightarrow> Inl [ack_error ''bad-key'', CloseSocket ''bad key'']
                  | Inr staticPK \<Rightarrow> Inr (reg, acctOK, staticPK))))))"

text \<open>A provider that passes is added under pointer \<open>p\<close>, linked to its account and stored, then
  acknowledged. The flag says whether the session goes on.\<close>

definition admit :: "'pub session_env \<Rightarrow> pref \<Rightarrow> json option Register \<Rightarrow> bool \<Rightarrow> string \<Rightarrow> hub \<Rightarrow> hub" where
  "admit e p reg acctOK staticPK h =
    (let h1 = h\<lparr>hb_reg := Add p (upd_prov (\<lambda>_. new_provider e reg staticPK) p (hb_reg h))\<rparr>;
         h2 = (if acctOK then link_device e (RegistrationToken reg) (EncodeKey staticPK) h1 else h1) in
     h2\<lparr>hb_store := UpsertProvider (provider_record e reg) (hb_store h2)\<rparr>)"

definition register_provider :: "'pub session_env \<Rightarrow> pref \<Rightarrow> json option option \<Rightarrow> hub \<Rightarrow>
    hub \<times> out_frame list \<times> bool" where
  "register_provider e p first h = (case check_register e first h of
     Inl out \<Rightarrow> (h, out, False)
   | Inr (reg, acctOK, staticPK) \<Rightarrow>
       (admit e p reg acctOK staticPK h,
        [SendRegisterAck \<lparr>ra_OK = True, ra_Error = [], ra_ProviderID = se_uuid e,
           ra_TrustTier = register_tier e reg staticPK, ra_AcceptedModels = Models (reg_Capabilities reg),
           ra_HeartbeatSeconds = se_heartbeat e, ra_CoordinatorPK = []\<rparr>], True))"

text \<open>The deferred cleanup of a registered session.\<close>

definition disconnect :: "string \<Rightarrow> hub \<Rightarrow> hub" where
  "disconnect i h = h\<lparr>hb_reg := Remove i (hb_reg h)\<rparr>"

subsection \<open>Frames\<close>

definition probe_fields :: "string fields" where
  "probe_fields = [fld ''job_id'' dec_string (\<lambda>s. s) (\<lambda>f s. f s)]"

definition deliver :: "string \<Rightarrow> json Frame \<Rightarrow> Kind \<Rightarrow> hub \<Rightarrow> hub outcome" where
  "deliver pid frame kind h = (case dec_struct probe_fields (Raw frame) [] of
     None \<Rightarrow> Ok h
   | Some jobID \<Rightarrow>
       if jobID = [] then Ok h
       else (case Deliver jobID pid \<lparr>ev_Kind = kind, ev_Raw = Raw frame\<rparr> (hb_jobs h) of
           Panic \<Rightarrow> Panic | Ok (jobs', _) \<Rightarrow> Ok (h\<lparr>hb_jobs := jobs'\<rparr>)))"

definition report_fingerprint :: "BenchmarkReport \<Rightarrow> Fingerprint" where
  "report_fingerprint br = Sanitize \<lparr>fp_Model = br_Model br, fp_Backend = br_Backend br,
     PrefillTPS = br_PrefillTPS br, DecodeTPS = br_DecodeTPS br, SustainedStartTPS = br_SustainedStartTPS br,
     SustainedEndTPS = br_SustainedEndTPS br, MemBandwidthGBps = br_MemBandwidthGBps br,
     AvailableRAMMB = br_AvailableRAMMB br, CPUCores = br_CPUCores br, fp_ThermalState = br_ThermalState br\<rparr>"

definition capability_row :: "string \<Rightarrow> Fingerprint \<Rightarrow> NodeCapabilityRow" where
  "capability_row pk fp = \<lparr>nc_StaticPK = pk, nc_Model = fp_Model fp, nc_Backend = fp_Backend fp,
     nc_PrefillTPS = PrefillTPS fp, nc_DecodeTPS = DecodeTPS fp, nc_SustainedStartTPS = SustainedStartTPS fp,
     nc_SustainedEndTPS = SustainedEndTPS fp, nc_MemBandwidthGBps = MemBandwidthGBps fp,
     nc_AvailableRAMMB = AvailableRAMMB fp, nc_CPUCores = CPUCores fp, nc_ThermalState = fp_ThermalState fp,
     nc_UpdatedAt = 0\<rparr>"

definition dispatch :: "int \<Rightarrow> pref \<Rightarrow> json Frame \<Rightarrow> hub \<Rightarrow> (hub \<times> out_frame list) outcome" where
  "dispatch now p frame h = (let t = env_Type (Env frame); prv = prov (hb_reg h) p in
     if t = TypeHeartbeat then
       (let h' = (case dec_struct heartbeat_fields (Raw frame) \<lparr>hb_Telemetry = telemetry_zero\<rparr> of
            None \<Rightarrow> h
          | Some hb \<Rightarrow> h\<lparr>hb_reg := upd_prov (\<lambda>x. x\<lparr>Tele := hb_Telemetry hb\<rparr>) p (hb_reg h)\<rparr>) in
        Ok (h', [SendHeartbeatAck \<lparr>ServerTS = now div 1000000000, Directive = []\<rparr>]))
     else if t = TypeModelReady then Ok (h, [])
     else if t = TypeBenchmarkReport then
       (let br = dec_lenient bench_fields (Raw frame) bench_zero;
            fp = report_fingerprint br in
        Ok (h\<lparr>hb_store := UpsertNodeCapability now (capability_row (EncodeKey (StaticPKBytes prv)) fp) (hb_store h)\<rparr>, []))
     else if t = TypeJobChunk then (case deliver (ID prv) frame KindChunk h of Panic \<Rightarrow> Panic | Ok h' \<Rightarrow> Ok (h', []))
     else if t = TypeJobDone then (case deliver (ID prv) frame KindDone h of Panic \<Rightarrow> Panic | Ok h' \<Rightarrow> Ok (h', []))
     else if t = TypeJobError then (case deliver (ID prv) frame KindError h of Panic \<Rightarrow> Panic | Ok h' \<Rightarrow> Ok (h', []))
     else Ok (h, []))"

subsection \<open>The session\<close>

datatype ws_read = ReadTimeout | ReadError | ReadText int "json option"

text \<open>One turn: \<open>None\<close> as the count of missed beats ends the session.\<close>

definition session_turn :: "pref \<Rightarrow> ws_read \<Rightarrow> nat \<Rightarrow> hub \<Rightarrow> (hub \<times> out_frame list \<times> nat option) outcome" where
  "session_turn p rd missed h = (case rd of
     ReadTimeout \<Rightarrow> Ok (h, [], if Suc missed < 2 then Some (Suc missed) else None)
   | ReadError \<Rightarrow> Ok (h, [], None)
   | ReadText now raw \<Rightarrow> (case Parse raw of
       Inl _ \<Rightarrow> Ok (h, [], Some 0)
     | Inr frame \<Rightarrow>
         (case dispatch now p frame (h\<lparr>hb_reg := upd_prov (\<lambda>x. x\<lparr>LastSeen := now\<rparr>) p (hb_reg h)\<rparr>) of
            Panic \<Rightarrow> Panic | Ok (h', out) \<Rightarrow> Ok (h', out, Some 0))))"

fun session_loop :: "pref \<Rightarrow> ws_read list \<Rightarrow> nat \<Rightarrow> hub \<Rightarrow> (hub \<times> out_frame list \<times> bool) outcome" where
  "session_loop p [] missed h = Ok (h, [], False)"
| "session_loop p (r # rs) missed h = (case session_turn p r missed h of
     Panic \<Rightarrow> Panic
   | Ok (h', out, None) \<Rightarrow> Ok (h', out, True)
   | Ok (h', out, Some m) \<Rightarrow> (case session_loop p rs m h' of
       Panic \<Rightarrow> Panic | Ok (h2, out2, fin) \<Rightarrow> Ok (h2, out @ out2, fin)))"

text \<open>The handler: \<open>ack_sent\<close> is whether the acknowledgement could be written. The flag says whether
  the session is over.\<close>

definition HandleProvider :: "'pub session_env \<Rightarrow> pref \<Rightarrow> json option option \<Rightarrow> bool \<Rightarrow> ws_read list \<Rightarrow> hub \<Rightarrow>
    (hub \<times> out_frame list \<times> bool) outcome" where
  "HandleProvider e p first ack_sent rds h = (case register_provider e p first h of
     (h1, out, False) \<Rightarrow> Ok (h1, out, True)
   | (h1, out, True) \<Rightarrow>
       if \<not> ack_sent then Ok (disconnect (se_uuid e) h1, [], True)
       else (case session_loop p rds 0 h1 of
           Panic \<Rightarrow> Panic
         | Ok (h2, out2, fin) \<Rightarrow> Ok (if fin then disconnect (se_uuid e) h2 else h2, out @ out2, fin)))"

subsection \<open>Who gets in\<close>

lemma check_register_refuses: "check_register e first h = Inl out \<Longrightarrow> out \<noteq> []"
  by (auto simp: check_register_def Let_def split: option.splits sum.splits if_splits)

lemma check_register_accepts:
  assumes "check_register e first h = Inr (reg, acct, pk)"
  shows "\<exists>raw frame. first = Some raw \<and> Parse raw = Inr frame \<and> env_Type (Env frame) = TypeRegister \<and>
     dec_struct register_fields (Raw frame) register_zero = Some reg \<and>
     (ValidateProviderToken (RegistrationToken reg) (hb_store h) \<or>
      (\<exists>user uid. se_account e = Some user \<and> user (RegistrationToken reg) = Some uid)) \<and>
     ParsePublicKey (StaticPK reg) = Inr pk \<and> length pk = 32"
proof -
  obtain raw frame where f: "first = Some raw" "Parse raw = Inr frame" "env_Type (Env frame) = TypeRegister"
    using assms by (auto simp: check_register_def split: option.splits sum.splits if_splits)
  then obtain reg' where reg': "dec_struct register_fields (Raw frame) register_zero = Some reg'"
    using assms by (auto simp: check_register_def split: option.splits)
  have "reg' = reg" "ParsePublicKey (StaticPK reg') = Inr pk"
    "ValidateProviderToken (RegistrationToken reg') (hb_store h) \<or>
      (\<exists>user uid. se_account e = Some user \<and> user (RegistrationToken reg') = Some uid)"
    using assms f reg' by (auto simp: check_register_def Let_def split: sum.splits if_splits option.splits)
  with f reg' show ?thesis using ParsePublicKey_length [of "StaticPK reg" pk] by blast
qed

lemma admit_facts: "Get (hb_reg (admit e p reg acct pk h)) = (Get (hb_reg h))(se_uuid e \<mapsto> p) \<and>
    prov (hb_reg (admit e p reg acct pk h)) p = new_provider e reg pk \<and>
    hb_jobs (admit e p reg acct pk h) = hb_jobs h"
proof -
  have l: "hb_reg (link_device e k q x) = hb_reg x" "hb_jobs (link_device e k q x) = hb_jobs x" for k q x
    by (auto simp: link_device_def split: option.splits)
  show ?thesis
    by (cases acct) (auto simp: admit_def Let_def l Get_def Add_def upd_prov_def new_provider_def)
qed

text \<open>C9: a session registers a provider only for a well-formed register frame of the current
  protocol version, with a token of the configured set or of an account, and a key of exactly
  32 bytes; the registry then finds it under its fresh id, idle, with the tier its evidence
  earned. Any other first frame changes nothing.\<close>

theorem registration_gate:
  "case register_provider e p first h of (h', out, ok) \<Rightarrow>
     if ok then (\<exists>raw frame reg pk. first = Some raw \<and> Parse raw = Inr frame \<and>
        env_Type (Env frame) = TypeRegister \<and> dec_struct register_fields (Raw frame) register_zero = Some reg \<and>
        (ValidateProviderToken (RegistrationToken reg) (hb_store h) \<or>
         (\<exists>user uid. se_account e = Some user \<and> user (RegistrationToken reg) = Some uid)) \<and>
        ParsePublicKey (StaticPK reg) = Inr pk \<and> length pk = 32 \<and>
        Get (hb_reg h') = (Get (hb_reg h))(se_uuid e \<mapsto> p) \<and>
        prov (hb_reg h') p = new_provider e reg pk \<and> hb_jobs h' = hb_jobs h)
     else h' = h \<and> out \<noteq> []"
proof (cases "check_register e first h")
  case (Inl out)
  then show ?thesis using check_register_refuses [OF Inl] by (simp add: register_provider_def)
next
  case (Inr r)
  obtain reg acct pk where r: "r = (reg, acct, pk)" by (cases r)
  show ?thesis
    using check_register_accepts [OF Inr [unfolded r]] Inr admit_facts [of e p reg acct pk h]
    by (auto simp: register_provider_def r)
qed

subsection \<open>What a connected provider can reach\<close>

definition jobs_wf :: "hub \<Rightarrow> bool" where
  "jobs_wf h \<longleftrightarrow> (\<exists>cl. jparts (jm (hb_jobs h)) (chans (hb_jobs h)) (next_ch (hb_jobs h)) cl)"

text \<open>The footprint of provider \<open>p\<close>: its own telemetry and last-seen time, its own capability row, and
  the channels of jobs assigned to it.\<close>

definition footprint :: "pref \<Rightarrow> hub \<Rightarrow> hub \<Rightarrow> bool" where
  "footprint p h h' \<longleftrightarrow>
     (\<exists>t l. prov (hb_reg h') = (prov (hb_reg h))(p := (prov (hb_reg h) p)\<lparr>Tele := t, LastSeen := l\<rparr>)) \<and>
     rm (hb_reg h') = rm (hb_reg h) \<and> owners h' = owners h \<and>
     (\<exists>caps. hb_store h' = (hb_store h)\<lparr>nodeCaps := caps\<rparr> \<and>
        (\<forall>k. k \<noteq> EncodeKey (StaticPKBytes (prov (hb_reg h) p)) \<longrightarrow> caps k = nodeCaps (hb_store h) k)) \<and>
     jm (hb_jobs h') = jm (hb_jobs h) \<and>
     (\<forall>j a. jm (hb_jobs h) j = Some a \<longrightarrow> providerID a \<noteq> ID (prov (hb_reg h) p) \<longrightarrow>
        chans (hb_jobs h') (ch a) = chans (hb_jobs h) (ch a))"

lemma same_struct: "\<exists>t l. f = f(p := (f p)\<lparr>Tele := t, LastSeen := l\<rparr>)" for f :: "pref \<Rightarrow> Provider"
  by (intro exI [of _ "Tele (f p)"] exI [of _ "LastSeen (f p)"]) simp

lemma same_caps: "\<exists>caps. m = m\<lparr>nodeCaps := caps\<rparr> \<and> (\<forall>k. k \<noteq> q \<longrightarrow> caps k = nodeCaps m k)"
  by (intro exI [of _ "nodeCaps m"]) simp

lemma footprintI:
  assumes "\<exists>t l. prov (hb_reg h') = (prov (hb_reg h))(p := (prov (hb_reg h) p)\<lparr>Tele := t, LastSeen := l\<rparr>)"
    and "\<exists>caps. hb_store h' = (hb_store h)\<lparr>nodeCaps := caps\<rparr> \<and>
        (\<forall>k. k \<noteq> EncodeKey (StaticPKBytes (prov (hb_reg h) p)) \<longrightarrow> caps k = nodeCaps (hb_store h) k)"
    and "rm (hb_reg h') = rm (hb_reg h)" "owners h' = owners h" "hb_jobs h' = hb_jobs h"
  shows "footprint p h h'"
  unfolding footprint_def assms(3-5) by (intro conjI assms(1,2) refl allI impI)

lemma footprint_refl: "footprint p h h"
  unfolding footprint_def by (intro conjI same_struct same_caps refl allI impI)

lemma footprint_same:
  "footprint p h h' \<Longrightarrow> ID (prov (hb_reg h') p) = ID (prov (hb_reg h) p)"
  "footprint p h h' \<Longrightarrow> StaticPKBytes (prov (hb_reg h') p) = StaticPKBytes (prov (hb_reg h) p)"
  unfolding footprint_def by auto

lemma footprint_trans:
  assumes "footprint p h h'" "footprint p h' h''"
  shows "footprint p h h''"
proof -
  obtain c1 where c1: "hb_store h' = (hb_store h)\<lparr>nodeCaps := c1\<rparr>"
    "\<forall>k. k \<noteq> EncodeKey (StaticPKBytes (prov (hb_reg h) p)) \<longrightarrow> c1 k = nodeCaps (hb_store h) k"
    using assms(1) unfolding footprint_def by blast
  obtain c2 where c2: "hb_store h'' = (hb_store h')\<lparr>nodeCaps := c2\<rparr>"
    "\<forall>k. k \<noteq> EncodeKey (StaticPKBytes (prov (hb_reg h) p)) \<longrightarrow> c2 k = nodeCaps (hb_store h') k"
    using assms(2) footprint_same [OF assms(1)] unfolding footprint_def by auto
  have st: "\<exists>caps. hb_store h'' = (hb_store h)\<lparr>nodeCaps := caps\<rparr> \<and>
      (\<forall>k. k \<noteq> EncodeKey (StaticPKBytes (prov (hb_reg h) p)) \<longrightarrow> caps k = nodeCaps (hb_store h) k)"
    using c1 c2 by (intro exI [of _ c2]) simp
  obtain t l where 1: "prov (hb_reg h') = (prov (hb_reg h))(p := (prov (hb_reg h) p)\<lparr>Tele := t, LastSeen := l\<rparr>)"
    using assms(1) unfolding footprint_def by blast
  obtain t' l' where 2: "prov (hb_reg h'') = (prov (hb_reg h'))(p := (prov (hb_reg h') p)\<lparr>Tele := t', LastSeen := l'\<rparr>)"
    using assms(2) unfolding footprint_def by blast
  have pr: "prov (hb_reg h'') = (prov (hb_reg h))(p := (prov (hb_reg h) p)\<lparr>Tele := t', LastSeen := l'\<rparr>)"
    unfolding 2 1 by simp
  show ?thesis
    using assms footprint_same [OF assms(1)] st pr unfolding footprint_def by auto
qed

text \<open>The steps of a session: changing the own struct, the own capability row, delivering.\<close>

lemma footprint_struct:
  assumes "\<And>x. \<exists>t l. f x = x\<lparr>Tele := t, LastSeen := l\<rparr>"
  shows "footprint p h (h\<lparr>hb_reg := upd_prov f p (hb_reg h)\<rparr>)"
proof -
  obtain t l where "f (prov (hb_reg h) p) = (prov (hb_reg h) p)\<lparr>Tele := t, LastSeen := l\<rparr>" using assms by blast
  then have "prov (upd_prov f p (hb_reg h)) = (prov (hb_reg h))(p := (prov (hb_reg h) p)\<lparr>Tele := t, LastSeen := l\<rparr>)"
    by (simp add: upd_prov_def)
  then have "\<exists>t l. prov (upd_prov f p (hb_reg h)) = (prov (hb_reg h))(p := (prov (hb_reg h) p)\<lparr>Tele := t, LastSeen := l\<rparr>)"
    by (intro exI)
  moreover have "rm (upd_prov f p (hb_reg h)) = rm (hb_reg h)" by (simp add: upd_prov_def)
  ultimately show ?thesis
    by (intro footprintI) (simp_all add: same_caps)
qed

lemma set_tele: "\<exists>t' l. x\<lparr>Tele := t\<rparr> = x\<lparr>Tele := t', LastSeen := l\<rparr>" for x :: Provider
  by (intro exI [of _ t] exI [of _ "LastSeen x"]) simp

lemma set_seen: "\<exists>t l'. x\<lparr>LastSeen := l\<rparr> = x\<lparr>Tele := t, LastSeen := l'\<rparr>" for x :: Provider
  by (intro exI [of _ "Tele x"] exI [of _ l]) simp

lemma footprint_caps:
  "footprint p h (h\<lparr>hb_store := UpsertNodeCapability now
     (capability_row (EncodeKey (StaticPKBytes (prov (hb_reg h) p))) fp) (hb_store h)\<rparr>)"
proof -
  have "\<exists>caps. UpsertNodeCapability now (capability_row k fp) m = m\<lparr>nodeCaps := caps\<rparr> \<and>
      (\<forall>x. x \<noteq> k \<longrightarrow> caps x = nodeCaps m x)" for k m
    unfolding UpsertNodeCapability_def by (intro exI conjI, rule refl) (simp add: capability_row_def)
  then show ?thesis
    by (intro footprintI) (simp_all add: same_struct)
qed

lemma deliver_footprint:
  assumes "jobs_wf h" "pid = ID (prov (hb_reg h) p)"
  shows "\<exists>h'. deliver pid frame kind h = Ok h' \<and> footprint p h h' \<and> jobs_wf h'"
proof (cases "\<exists>jobID. dec_struct probe_fields (Raw frame) [] = Some jobID \<and> jobID \<noteq> []")
  case False
  then have "deliver pid frame kind h = Ok h" by (auto simp: deliver_def split: option.splits)
  then show ?thesis using assms footprint_refl by blast
next
  case True
  then obtain jobID where j: "dec_struct probe_fields (Raw frame) [] = Some jobID" "jobID \<noteq> []" by blast
  let ?ev = "\<lparr>ev_Kind = kind, ev_Raw = Raw frame\<rparr>"
  obtain cl where cl: "jparts (jm (hb_jobs h)) (chans (hb_jobs h)) (next_ch (hb_jobs h)) cl"
    using assms(1) unfolding jobs_wf_def by blast
  then have "jinv \<lparr>mgr = hb_jobs h, closing = cl, panicked = False\<rparr>" by (simp add: jinv_def)
  from Deliver_no_panic [OF this] obtain m' b where d: "Deliver jobID pid ?ev (hb_jobs h) = Ok (m', b)"
    by (metis jstate.select_convs(1) outcome.exhaust surj_pair)
  have res: "deliver pid frame kind h = Ok (h\<lparr>hb_jobs := m'\<rparr>)" by (simp add: deliver_def j d)
  have fp: "footprint p h (h\<lparr>hb_jobs := m'\<rparr>)"
    if "jm m' = jm (hb_jobs h)" "\<And>k a. jm (hb_jobs h) k = Some a \<Longrightarrow> providerID a \<noteq> pid \<Longrightarrow> chans m' (ch a) = chans (hb_jobs h) (ch a)"
    using that footprint_refl [of p h] assms(2) by (auto simp: footprint_def)
  have inj: "ch a \<noteq> ch b" if "jm (hb_jobs h) k = Some a" "jm (hb_jobs h) k' = Some b" "providerID a \<noteq> providerID b" for k k' a b
    using cl that unfolding jparts_def by (metis option.inject)
  have "footprint p h (h\<lparr>hb_jobs := m'\<rparr>) \<and> jobs_wf (h\<lparr>hb_jobs := m'\<rparr>)"
    using d
  proof (cases rule: Deliver_cases)
    case (full a x)
    then have "m' = hb_jobs h" by (cases "hb_jobs h") auto
    then show ?thesis using assms(1) footprint_refl by simp
  next
    case (sent a x)
    have "jparts (jm m') (chans m') (next_ch m') cl"
      using jparts_chan_upd [OF cl sent(3), of "x\<lparr>buf := buf x @ [?ev]\<rparr>"] sent by simp
    then have "jobs_wf (h\<lparr>hb_jobs := m'\<rparr>)" by (auto simp: jobs_wf_def)
    moreover have "footprint p h (h\<lparr>hb_jobs := m'\<rparr>)"
      by (rule fp) (use sent inj in auto)
    ultimately show ?thesis by blast
  qed (use assms(1) footprint_refl in simp_all)
  then show ?thesis using res by blast
qed

lemma dispatch_footprint:
  assumes "jobs_wf h"
  shows "\<exists>h' out. dispatch now p frame h = Ok (h', out) \<and> footprint p h h' \<and> jobs_wf h'"
proof -
  have same_jobs: "jobs_wf (h\<lparr>hb_reg := r\<rparr>)" "jobs_wf (h\<lparr>hb_store := m\<rparr>)" for r m
    using assms by (simp_all add: jobs_wf_def)
  let ?t = "env_Type (Env frame)"
  obtain h1 where h1: "deliver (ID (prov (hb_reg h) p)) frame KindChunk h = Ok h1" "footprint p h h1" "jobs_wf h1"
    using deliver_footprint [OF assms refl] by blast
  obtain h2 where h2: "deliver (ID (prov (hb_reg h) p)) frame KindDone h = Ok h2" "footprint p h h2" "jobs_wf h2"
    using deliver_footprint [OF assms refl] by blast
  obtain h3 where h3: "deliver (ID (prov (hb_reg h) p)) frame KindError h = Ok h3" "footprint p h h3" "jobs_wf h3"
    using deliver_footprint [OF assms refl] by blast
  show ?thesis
  proof (cases "?t = TypeHeartbeat")
    case True
    show ?thesis
    proof (cases "dec_struct heartbeat_fields (Raw frame) \<lparr>hb_Telemetry = telemetry_zero\<rparr>")
      case None
      then show ?thesis using True assms footprint_refl by (simp add: dispatch_def)
    next
      case (Some hb)
      then show ?thesis
        using True same_jobs(1) footprint_struct [of "\<lambda>x. x\<lparr>Tele := hb_Telemetry hb\<rparr>" p h, OF set_tele] by (simp add: dispatch_def)
    qed
  next
    case nh: False
    show ?thesis
    proof (cases "?t = TypeModelReady")
      case True
      then show ?thesis using nh assms footprint_refl by (simp add: dispatch_def)
    next
      case nm: False
      show ?thesis
      proof (cases "?t = TypeBenchmarkReport")
        case True
        then show ?thesis
          using nh nm same_jobs(2) footprint_caps by (simp add: dispatch_def Let_def)
      next
        case nb: False
        then show ?thesis
          using nh nm h1 h2 h3 assms footprint_refl [of p h]
          by (cases "?t = TypeJobChunk"; cases "?t = TypeJobDone"; cases "?t = TypeJobError") (simp_all add: dispatch_def)
      qed
    qed
  qed
qed

lemma session_turn_footprint:
  assumes "jobs_wf h"
  shows "\<exists>h' out m. session_turn p rd missed h = Ok (h', out, m) \<and> footprint p h h' \<and> jobs_wf h'"
proof (cases rd)
  case (ReadText now raw)
  show ?thesis
  proof (cases "Parse raw")
    case (Inr frame)
    let ?h = "h\<lparr>hb_reg := upd_prov (\<lambda>x. x\<lparr>LastSeen := now\<rparr>) p (hb_reg h)\<rparr>"
    have "jobs_wf ?h" using assms by (simp add: jobs_wf_def)
    then obtain h' out where "dispatch now p frame ?h = Ok (h', out)" "footprint p ?h h'" "jobs_wf h'"
      using dispatch_footprint by blast
    then show ?thesis
      using ReadText Inr footprint_trans [OF footprint_struct [of "\<lambda>x. x\<lparr>LastSeen := now\<rparr>" p h, OF set_seen]] by (simp add: session_turn_def)
  qed (use ReadText assms footprint_refl in \<open>simp add: session_turn_def\<close>)
qed (use assms footprint_refl in \<open>simp_all add: session_turn_def\<close>)

text \<open>C4: whatever a connected provider sends, in any order and any number of frames, the handler does
  not crash and the provider changes only its own telemetry and last-seen time, its own
  capability row, and the channels of jobs assigned to it: not another provider's record or
  load, not its own identity, tier or slot count, no assignment, no balance, no key, and not a
  byte in the channel of somebody else's job.\<close>

theorem session_isolated:
  assumes "jobs_wf h"
  shows "\<exists>h' out fin. session_loop p rds missed h = Ok (h', out, fin) \<and> footprint p h h'"
  using assms
proof (induction rds arbitrary: missed h)
  case Nil
  then show ?case using footprint_refl by auto
next
  case (Cons rd rds)
  obtain h1 out m where t: "session_turn p rd missed h = Ok (h1, out, m)" "footprint p h h1" "jobs_wf h1"
    using session_turn_footprint [OF Cons.prems] by blast
  show ?case
  proof (cases m)
    case None
    then show ?thesis using t by auto
  next
    case (Some k)
    obtain h2 out2 fin where "session_loop p rds k h1 = Ok (h2, out2, fin)" "footprint p h1 h2"
      using Cons.IH [OF t(3)] by blast
    moreover from this have "session_loop p (rd # rds) missed h = Ok (h2, out @ out2, fin)" using t Some by simp
    ultimately show ?thesis using footprint_trans [OF t(2)] by blast
  qed
qed

lemma session_isolated_witness:
  "\<exists>h' out fin. session_loop 0 [ReadTimeout, ReadText 5 None, ReadError] 0
     \<lparr>hb_reg = sample_registry 0, hb_jobs = New_jobs, hb_store = NewMem id [] [], owners = Map.empty\<rparr> = Ok (h', out, fin)"
proof -
  have "jobs_wf \<lparr>hb_reg = sample_registry 0, hb_jobs = New_jobs, hb_store = NewMem id [] [], owners = Map.empty\<rparr>"
    by (auto simp: jobs_wf_def New_jobs_def jparts_def intro: exI [of _ "[]"])
  from session_isolated [OF this, of 0] show ?thesis by blast
qed

subsection \<open>A provider that goes away\<close>

text \<open>What the select of the relay finds on a channel: an event, the closed channel, or nothing (the
  relay stays blocked).\<close>

definition chan_ready :: "json Event Manager \<Rightarrow> nat \<Rightarrow> relay_input option" where
  "chan_ready m c = (case chans m c of None \<Rightarrow> None
   | Some x \<Rightarrow> (case buf x of e # _ \<Rightarrow> Some (Got e) | [] \<Rightarrow> if is_closed x then Some ChanClosed else None))"

text \<open>The end of a session takes the provider out of the registry and tells nobody else: in every
  reachable state of the job channels, the channel of a job still assigned to the departed
  provider is not closed, so a relay that has drained it finds nothing to receive. The error
  \<open>ErrProviderGone\<close> documented for a provider that drops mid-job is never reported to it; only
  the deadline or the client ends the wait.\<close>

lemma disconnect_not_signalled:
  assumes "jruns tr s" "hb_jobs h = mgr s" "jm (hb_jobs h) j = Some a" "providerID a = pid"
    and "chans (hb_jobs h) (ch a) = Some x" "buf x = []"
  shows "Get (hb_reg (disconnect pid h)) pid = None \<and> jm (hb_jobs (disconnect pid h)) j = Some a \<and>
    chan_ready (hb_jobs (disconnect pid h)) (ch a) = None"
proof -
  have "\<not> is_closed x"
    using jruns_inv [OF assms(1)] assms(2,3,5) unfolding jinv_def jparts_def by (metis option.inject)
  then show ?thesis
    using assms(3,5,6) by (simp add: disconnect_def Get_def Remove_def chan_ready_def)
qed

lemma disconnect_not_signalled_witness:
  fixes h :: hub
  defines "h \<equiv> \<lparr>hb_reg = sample_registry 0, hb_jobs = fst (Register_job ''j'' ''p1'' New_jobs), hb_store = NewMem id [] [],
    owners = Map.empty\<rparr>"
  shows "chan_ready (hb_jobs (disconnect ''p1'' h)) 0 = None"
proof -
  have "jruns ([] @ [Opened 0 ''j'' ''p1'']) (jinit\<lparr>mgr := hb_jobs h\<rparr>)"
    by (rule jruns.Step [OF jruns.Init jstep.Register]) (simp add: jinit_def h_def Register_job_def Let_def New_jobs_def)
  from disconnect_not_signalled [OF this, of h "''j''" "\<lparr>providerID = ''p1'', ch = 0\<rparr>" "''p1''" "\<lparr>buf = [], is_closed = False\<rparr>"]
  show ?thesis by (simp add: h_def Register_job_def Let_def New_jobs_def)
qed

end
