(* ===== verification/Store_PG.thy ===== *)
theory Store_PG
  imports Store_Mem Codec
begin

text \<open>
  \<open>PG\<close> (coordinator/internal/store/postgres.go and billing_pg.go): the Postgres store. The
  tables are lists of rows in insertion order (or maps where the primary key is all that is
  read); each method is the meaning of its SQL statement or transaction, with the constraints
  of coordinator/migrations: primary keys, the partial unique indexes of 0004 and 0006, BIGINT
  and INTEGER ranges (out of range is an error of the statement, which aborts and rolls back).
  Other database failures are not modelled: they return an error and, as every
  multi-statement method runs in one transaction, change nothing. Group and tie orders the
  SQL leaves open are arguments. The migration runner and the connection set-up are pure
  database I/O and have no definition.
\<close>

subsection \<open>Tables\<close>

record key_row =
  k_id :: string
  k_sha :: string
  k_label :: string
  k_disabled :: bool
  k_created :: int

record earning_row =
  e_job :: string
  e_provider :: "string option"
  e_pk :: string
  e_key :: string
  e_model :: string
  e_class :: string
  e_tier :: string
  e_gross :: int
  e_micros :: int
  e_state :: string
  e_payout :: "int option"
  e_created :: int

record payout_row =
  p_id :: int
  p_pk :: string
  p_account :: string
  p_amount :: int
  p_transfer :: string
  p_state :: string

record PG =
  bootstrapKey :: "string \<rightharpoonup> string"
  bootstrapTok :: "string set"
  consumer_api_keys :: "key_row list"
  provider_tokens :: "string \<rightharpoonup> bool"
  providers_tbl :: "string \<rightharpoonup> ProviderRecord"
  usage_events :: "UsageEvent list"
  provider_earnings :: "earning_row list"
  payouts :: "payout_row list"
  billing_accounts :: "string \<rightharpoonup> int"
  credit_ledger :: "movement list"
  payout_accounts :: "PayoutAccount list"
  node_capabilities :: "NodeCapabilityRow list"
  waitlist_tbl :: "WaitlistEntry list"
  proposals_tbl :: "Proposal list"
  feedback_tbl :: "FeedbackEntry list"
  feedback_replies :: "FeedbackReply list"
  workload_runs :: "string \<rightharpoonup> WorkloadRun"

definition NewPG :: "(string \<Rightarrow> string) \<Rightarrow> string list \<Rightarrow> string list \<Rightarrow> PG" where
  "NewPG sha256 bootKeys bootToks = \<lparr>
     bootstrapKey = map_of (map (\<lambda>k. (k, keyID sha256 k)) bootKeys), bootstrapTok = set bootToks,
     consumer_api_keys = [], provider_tokens = Map.empty, providers_tbl = Map.empty, usage_events = [],
     provider_earnings = [], payouts = [], billing_accounts = Map.empty, credit_ledger = [],
     payout_accounts = [], node_capabilities = [], waitlist_tbl = [], proposals_tbl = [],
     feedback_tbl = [], feedback_replies = [], workload_runs = Map.empty\<rparr>"

definition is_int32 :: "int \<Rightarrow> bool" where
  "is_int32 x \<longleftrightarrow> - (2 ^ 31) \<le> x \<and> x < 2 ^ 31"

definition range_error :: store_error where
  "range_error = DbError ''value out of range''"

text \<open>A TEXT column holds UTF-8 without the byte 0; anything else is an error of the statement. It is
  written out where the program hands on text that was cut at a byte count.\<close>

definition pg_text :: "string \<Rightarrow> bool" where
  "pg_text s \<longleftrightarrow> utf8 s \<and> CHR 0x00 \<notin> set s"

definition text_error :: store_error where
  "text_error = DbError ''invalid byte sequence for encoding''"

definition unique_error :: store_error where
  "unique_error = DbError ''duplicate key value violates unique constraint''"

subsection \<open>Keys, tokens, providers, usage\<close>

definition pg_ValidateConsumerKey :: "(string \<Rightarrow> string) \<Rightarrow> string \<Rightarrow> PG \<Rightarrow> string \<times> bool" where
  "pg_ValidateConsumerKey sha256 key p = (case bootstrapKey p key of
     Some i \<Rightarrow> (i, True)
   | None \<Rightarrow> (case find (\<lambda>r. k_sha r = sha256 key \<and> \<not> k_disabled r) (consumer_api_keys p) of
       Some r \<Rightarrow> (k_id r, True) | None \<Rightarrow> ([], False)))"

definition pg_ValidateProviderToken :: "(string \<Rightarrow> string) \<Rightarrow> string \<Rightarrow> PG \<Rightarrow> bool" where
  "pg_ValidateProviderToken sha256 token p =
    (token \<in> bootstrapTok p \<or> provider_tokens p (sha256 token) = Some False)"

definition pg_UpsertProvider :: "(string \<Rightarrow> bool) \<Rightarrow> int \<Rightarrow> ProviderRecord \<Rightarrow> PG \<Rightarrow> store_error + PG" where
  "pg_UpsertProvider is_uuid now r p = (if \<not> is_uuid (pr_ProviderID r) then Inl (DbError ''invalid uuid'')
     else Inr (p\<lparr>providers_tbl := (providers_tbl p)(pr_ProviderID r \<mapsto> r\<lparr>pr_LastSeen := now\<rparr>)\<rparr>))"

definition pg_RecordUsage :: "(string \<Rightarrow> bool) \<Rightarrow> int \<Rightarrow> UsageEvent \<Rightarrow> PG \<Rightarrow> store_error + PG" where
  "pg_RecordUsage is_uuid now ev p =
    (if ue_ProviderID ev \<noteq> [] \<and> \<not> is_uuid (ue_ProviderID ev) then Inl (DbError ''invalid uuid'')
     else if \<not> is_int32 (ue_PromptTokens ev) \<or> \<not> is_int32 (ue_CompletionTokens ev) then Inl range_error
     else Inr (p\<lparr>usage_events := usage_events p @ [ev\<lparr>ue_CreatedAt := now\<rparr>]\<rparr>))"

definition usage_group :: "int \<Rightarrow> PG \<Rightarrow> string \<times> string \<Rightarrow> UsageRow" where
  "usage_group t p g = (let rows = filter (\<lambda>e. t \<le> ue_CreatedAt e \<and> (ue_KeyID e, ue_Model e) = g) (usage_events p)
     in \<lparr>ur_KeyID = fst g, ur_Model = snd g, ur_Requests = int (length rows),
         ur_PromptTokens = sum_list (map ue_PromptTokens rows),
         ur_CompletionTokens = sum_list (map ue_CompletionTokens rows)\<rparr>)"

definition pg_UsageSince :: "(string \<times> string) list \<Rightarrow> int \<Rightarrow> PG \<Rightarrow> UsageRow list" where
  "pg_UsageSince groups t p =
     sort_by (\<lambda>a b. ur_Requests a > ur_Requests b) (map (usage_group t p) groups)"

definition pg_CreateConsumerKey ::
  "(string \<Rightarrow> string) \<Rightarrow> string \<Rightarrow> int \<Rightarrow> string \<Rightarrow> PG \<Rightarrow> store_error + ((string \<times> string) \<times> PG)" where
  "pg_CreateConsumerKey sha256 random now label p = (let
     raw = randToken ''sc_live_'' random; i = keyID sha256 raw
   in if \<exists>r \<in> set (consumer_api_keys p). k_id r = i \<or> k_sha r = sha256 raw then Inl unique_error
      else Inr ((i, raw), p\<lparr>consumer_api_keys := consumer_api_keys p @
        [\<lparr>k_id = i, k_sha = sha256 raw, k_label = label, k_disabled = False, k_created = now\<rparr>]\<rparr>))"

definition pg_ListConsumerKeys :: "PG \<Rightarrow> KeyInfo list" where
  "pg_ListConsumerKeys p = map (\<lambda>r. \<lparr>ki_ID = k_id r, ki_Label = k_label r, ki_Disabled = k_disabled r,
     ki_CreatedAt = k_created r\<rparr>) (sort_by (\<lambda>a b. k_created a > k_created b) (consumer_api_keys p))"

definition pg_SetConsumerKeyDisabled :: "string \<Rightarrow> bool \<Rightarrow> PG \<Rightarrow> store_error + PG" where
  "pg_SetConsumerKeyDisabled i d p =
    (if \<forall>r \<in> set (consumer_api_keys p). k_id r \<noteq> i then Inl (NoSuchKey i)
     else Inr (p\<lparr>consumer_api_keys := map (\<lambda>r. if k_id r = i then r\<lparr>k_disabled := d\<rparr> else r) (consumer_api_keys p)\<rparr>))"

subsection \<open>Credits\<close>

definition pg_CreditBalance :: "PG \<Rightarrow> string \<Rightarrow> int" where
  "pg_CreditBalance p key = (case billing_accounts p key of None \<Rightarrow> 0 | Some c \<Rightarrow> c)"

definition ledger_count :: "(movement \<Rightarrow> bool) \<Rightarrow> PG \<Rightarrow> nat" where
  "ledger_count P p = length (filter P (credit_ledger p))"

definition pg_AddCredit :: "movement \<Rightarrow> PG \<Rightarrow> store_error + PG" where
  "pg_AddCredit v p =
    (if mv_reason v = ''topup'' \<and> mv_ref v \<noteq> [] \<and>
        ledger_count (\<lambda>r. mv_reason r = ''topup'' \<and> mv_ref r = mv_ref v) p > 0 then Inr p
     else if mv_reason v = ''debit'' \<and> mv_job v \<noteq> [] \<and>
        ledger_count (\<lambda>r. mv_reason r = ''debit'' \<and> mv_job r = mv_job v) p > 0 then Inr p
     else let c = pg_CreditBalance p (mv_key v) + mv_delta v in
       if \<not> is_int64 (mv_delta v) \<or> \<not> is_int64 c then Inl range_error
       else Inr (p\<lparr>billing_accounts := (billing_accounts p)(mv_key v \<mapsto> c),
                   credit_ledger := credit_ledger p @ [v]\<rparr>))"

subsection \<open>Earnings and payouts\<close>

definition pg_RecordEarning ::
  "(string \<Rightarrow> bool) \<Rightarrow> int \<Rightarrow> EarningEvent \<Rightarrow> PG \<Rightarrow> store_error + PG" where
  "pg_RecordEarning is_uuid now ev p =
    (if ee_JobID ev = [] \<or> ee_StaticPK ev = [] then Inl EarningRequiresIds
     else if ee_ProviderID ev \<noteq> [] \<and> \<not> is_uuid (ee_ProviderID ev) then Inl (DbError ''invalid uuid'')
     else if \<not> is_int64 (ee_GrossMicros ev) \<or> \<not> is_int64 (ee_ProviderMicros ev) then Inl range_error
     else if \<exists>r \<in> set (provider_earnings p). e_job r = ee_JobID ev \<and> e_pk r = ee_StaticPK ev then Inr p
     else Inr (p\<lparr>provider_earnings := provider_earnings p @ [\<lparr>e_job = ee_JobID ev,
       e_provider = (if ee_ProviderID ev \<noteq> [] then Some (ee_ProviderID ev) else None),
       e_pk = ee_StaticPK ev, e_key = ee_KeyID ev, e_model = ee_Model ev, e_class = ee_ModelClass ev,
       e_tier = ee_Tier ev, e_gross = ee_GrossMicros ev, e_micros = ee_ProviderMicros ev,
       e_state = ''accrued'', e_payout = None, e_created = now\<rparr>]\<rparr>))"

definition accrued_rows :: "string \<Rightarrow> PG \<Rightarrow> earning_row list" where
  "accrued_rows pk p = filter (\<lambda>r. e_state r = ''accrued'' \<and> e_pk r = pk) (provider_earnings p)"

definition owed :: "PG \<Rightarrow> string \<Rightarrow> int" where
  "owed p pk = sum_list (map e_micros (accrued_rows pk p))"

definition accrual_of :: "PG \<Rightarrow> string \<Rightarrow> ProviderAccrual" where
  "accrual_of p pk = \<lparr>pa_StaticPK = pk, pa_Jobs = int (length (accrued_rows pk p)), pa_OwedMicros = owed p pk\<rparr>"

text \<open>\<open>groups\<close> lists the identities with an accrued row, once each. A sum that does not fit the
  scanned \<open>int64\<close> fails the whole read.\<close>

definition pg_AccruedByProvider :: "string list \<Rightarrow> PG \<Rightarrow> store_error + ProviderAccrual list" where
  "pg_AccruedByProvider groups p =
    (if \<forall>pk \<in> set groups. is_int64 (owed p pk)
     then Inr (sort_by (\<lambda>a b. pa_OwedMicros a > pa_OwedMicros b) (map (accrual_of p) groups))
     else Inl range_error)"

definition settle_row :: "int \<Rightarrow> string \<Rightarrow> earning_row \<Rightarrow> earning_row" where
  "settle_row i pk r = (if e_pk r = pk \<and> e_state r = ''accrued''
     then r\<lparr>e_state := ''paid'', e_payout := Some i\<rparr> else r)"

definition carry_row :: "int \<Rightarrow> string \<Rightarrow> int \<Rightarrow> earning_row" where
  "carry_row now pk micros = \<lparr>e_job = [], e_provider = None, e_pk = pk, e_key = [], e_model = [], e_class = [],
     e_tier = ''carryforward'', e_gross = 0, e_micros = micros, e_state = ''accrued'', e_payout = None,
     e_created = now\<rparr>"

definition pg_RecordPayoutAndSettle :: "int \<Rightarrow> PayoutRecord \<Rightarrow> PG \<Rightarrow> store_error + (int \<times> PG)" where
  "pg_RecordPayoutAndSettle now po p =
    (if \<not> is_int64 (po_AmountMicros po) \<or> \<not> is_int64 (po_RemainderMicros po) then Inl range_error
     else let
       i = int (length (payouts p)) + 1;
       p = p\<lparr>payouts := payouts p @ [\<lparr>p_id = i, p_pk = po_StaticPK po, p_account = po_StripeAccount po,
             p_amount = po_AmountMicros po, p_transfer = po_StripeTransfer po, p_state = po_State po\<rparr>]\<rparr>;
       p = (if po_State po = ''created'' then
              (let p = p\<lparr>provider_earnings := map (settle_row i (po_StaticPK po)) (provider_earnings p)\<rparr>
               in if po_RemainderMicros po > 0
                  then p\<lparr>provider_earnings := provider_earnings p @ [carry_row now (po_StaticPK po) (po_RemainderMicros po)]\<rparr>
                  else p)
            else p)
     in Inr (i, p))"

definition earning_group :: "int \<Rightarrow> PG \<Rightarrow> string option \<Rightarrow> EarningRow" where
  "earning_group t p g = (let rows = filter (\<lambda>r. t \<le> e_created r \<and> e_provider r = g) (provider_earnings p)
     in \<lparr>er_ProviderID = (case g of None \<Rightarrow> [] | Some i \<Rightarrow> i), er_Jobs = int (length rows),
         er_GrossMicros = sum_list (map e_gross rows), er_ProviderMicros = sum_list (map e_micros rows)\<rparr>)"

definition pg_EarningsSince :: "string option list \<Rightarrow> int \<Rightarrow> PG \<Rightarrow> EarningRow list" where
  "pg_EarningsSince groups t p =
     sort_by (\<lambda>a b. er_ProviderMicros a > er_ProviderMicros b) (map (earning_group t p) groups)"

text \<open>An upsert on the primary key keeps the row's place.\<close>

primrec upsert_by :: "('a \<Rightarrow> 'k) \<Rightarrow> ('a \<Rightarrow> 'a) \<Rightarrow> 'a \<Rightarrow> 'a list \<Rightarrow> 'a list" where
  "upsert_by f upd x [] = [x]"
| "upsert_by f upd x (y # ys) = (if f y = f x then upd y # ys else y # upsert_by f upd x ys)"

definition pg_UpsertPayoutAccount :: "PayoutAccount \<Rightarrow> PG \<Rightarrow> PG" where
  "pg_UpsertPayoutAccount a p = p\<lparr>payout_accounts := upsert_by acc_StaticPK (\<lambda>_. a) a (payout_accounts p)\<rparr>"

definition pg_GetPayoutAccount :: "string \<Rightarrow> PG \<Rightarrow> PayoutAccount option" where
  "pg_GetPayoutAccount pk p = find (\<lambda>a. acc_StaticPK a = pk) (payout_accounts p)"

definition pg_PayoutAccountByStripe :: "string \<Rightarrow> PG \<Rightarrow> PayoutAccount option" where
  "pg_PayoutAccountByStripe acct p = find (\<lambda>a. acc_StripeAccount a = acct) (payout_accounts p)"

subsection \<open>Capabilities, intake, runs\<close>

text \<open>RAM is stored as BIGINT: \<open>int64(uint64)\<close> reinterprets the word, and reading it back
  reinterprets again.\<close>

definition pg_UpsertNodeCapability :: "int \<Rightarrow> NodeCapabilityRow \<Rightarrow> PG \<Rightarrow> store_error + PG" where
  "pg_UpsertNodeCapability now c p = (if \<not> is_int32 (nc_CPUCores c) then Inl range_error
     else (let c = c\<lparr>nc_UpdatedAt := now, nc_AvailableRAMMB := word_of_int (sint (nc_AvailableRAMMB c))\<rparr>
       in Inr (p\<lparr>node_capabilities := upsert_by nc_StaticPK (\<lambda>_. c) c (node_capabilities p)\<rparr>)))"

definition pg_NodeCapabilities :: "PG \<Rightarrow> NodeCapabilityRow list" where
  "pg_NodeCapabilities p = sort_by (\<lambda>a b. nc_UpdatedAt a > nc_UpdatedAt b) (node_capabilities p)"

definition pg_AddWaitlist :: "int \<Rightarrow> WaitlistEntry \<Rightarrow> PG \<Rightarrow> store_error + PG" where
  "pg_AddWaitlist now e p = (if \<not> list_all pg_text [wl_Email e, wl_Interest e, wl_Note e, wl_IPHash e] then Inl text_error
     else Inr (p\<lparr>waitlist_tbl := upsert_by (\<lambda>w. to_lower (wl_Email w))
       (\<lambda>w. w\<lparr>wl_Interest := wl_Interest e, wl_Note := wl_Note e\<rparr>) (e\<lparr>wl_CreatedAt := now\<rparr>) (waitlist_tbl p)\<rparr>))"

definition pg_WaitlistSince :: "int \<Rightarrow> PG \<Rightarrow> WaitlistEntry list" where
  "pg_WaitlistSince t p = sort_by (\<lambda>a b. wl_CreatedAt a > wl_CreatedAt b)
     (filter (\<lambda>e. t \<le> wl_CreatedAt e) (waitlist_tbl p))"

definition pg_AddProposal :: "int \<Rightarrow> Proposal \<Rightarrow> PG \<Rightarrow> store_error + PG" where
  "pg_AddProposal now pr p = (if \<not> list_all pg_text [prop_Name pr, prop_Email pr, prop_Title pr, prop_Summary pr,
       prop_Link pr, prop_IPHash pr] then Inl text_error
     else Inr (p\<lparr>proposals_tbl := proposals_tbl p @ [pr\<lparr>prop_CreatedAt := now\<rparr>]\<rparr>))"

definition pg_ProposalsSince :: "int \<Rightarrow> PG \<Rightarrow> Proposal list" where
  "pg_ProposalsSince t p = sort_by (\<lambda>a b. prop_CreatedAt a > prop_CreatedAt b)
     (filter (\<lambda>e. t \<le> prop_CreatedAt e) (proposals_tbl p))"

definition pg_AddFeedback :: "int \<Rightarrow> FeedbackEntry \<Rightarrow> PG \<Rightarrow> store_error + PG" where
  "pg_AddFeedback now e p = (if \<not> list_all pg_text [fb_Kind e, fb_Email e, fb_Device e, fb_Message e, fb_App e,
       fb_Version e, fb_UserID e, fb_IPHash e] then Inl text_error
     else Inr (p\<lparr>feedback_tbl := feedback_tbl p @
       [e\<lparr>fb_ID := int (length (feedback_tbl p)) + 1, fb_CreatedAt := now, fb_Replies := []\<rparr>]\<rparr>))"

definition feedbackQuery :: "(FeedbackEntry \<Rightarrow> bool) \<Rightarrow> nat \<Rightarrow> PG \<Rightarrow> FeedbackEntry list" where
  "feedbackQuery P lmt p = (let
     out = take lmt (sort_by (\<lambda>a b. fb_CreatedAt a > fb_CreatedAt b) (filter P (feedback_tbl p)));
     reps = sort_by (\<lambda>a b. rep_CreatedAt a < rep_CreatedAt b)
       (filter (\<lambda>r. rep_FeedbackID r \<in> fb_ID ` set out) (feedback_replies p))
   in map (\<lambda>e. e\<lparr>fb_Replies := filter (\<lambda>r. rep_FeedbackID r = fb_ID e) reps\<rparr>) out)"

definition pg_FeedbackSince :: "int \<Rightarrow> PG \<Rightarrow> FeedbackEntry list" where
  "pg_FeedbackSince t p = feedbackQuery (\<lambda>e. t \<le> fb_CreatedAt e) 500 p"

definition pg_FeedbackForUser :: "string \<Rightarrow> string \<Rightarrow> PG \<Rightarrow> FeedbackEntry list" where
  "pg_FeedbackForUser userID email p = feedbackQuery (\<lambda>e. (fb_UserID e = userID \<and> userID \<noteq> []) \<or>
     (equal_fold (fb_Email e) email \<and> email \<noteq> [])) 100 p"

definition pg_AddFeedbackReply ::
  "int \<Rightarrow> int \<Rightarrow> string \<Rightarrow> string \<Rightarrow> PG \<Rightarrow> store_error + (FeedbackReply \<times> PG)" where
  "pg_AddFeedbackReply now i author body p =
    (if \<forall>e \<in> set (feedback_tbl p). fb_ID e \<noteq> i then Inl (DbError ''violates foreign key constraint'')
     else if \<not> pg_text body then Inl text_error
     else (let r = \<lparr>rep_ID = int (length (feedback_replies p)) + 1, rep_FeedbackID = i, rep_Author = author,
                    rep_Body = body, rep_CreatedAt = now\<rparr>
           in Inr (r, p\<lparr>feedback_replies := feedback_replies p @ [r]\<rparr>)))"

definition nullTime :: "int \<Rightarrow> int option" where
  "nullTime t = (if t = 0 then None else Some t)"

definition merge_run :: "WorkloadRun \<Rightarrow> WorkloadRun \<Rightarrow> WorkloadRun" where
  "merge_run r old = old\<lparr>wr_Status := wr_Status r, wr_TotalItems := wr_TotalItems r,
     wr_DoneItems := wr_DoneItems r, wr_OKItems := wr_OKItems r, wr_FailedItems := wr_FailedItems r,
     wr_ChargedMicros := wr_ChargedMicros r, wr_PromptTokens := wr_PromptTokens r,
     wr_CompletionTokens := wr_CompletionTokens r, wr_WallMS := wr_WallMS r, wr_Fanout := wr_Fanout r,
     wr_WebhookState := wr_WebhookState r, wr_Error := wr_Error r, wr_StartedAt := wr_StartedAt r,
     wr_FinishedAt := wr_FinishedAt r\<rparr>"

definition pg_UpsertRun :: "int \<Rightarrow> WorkloadRun \<Rightarrow> PG \<Rightarrow> store_error + PG" where
  "pg_UpsertRun now r p =
    (if \<not> (is_int32 (wr_TotalItems r) \<and> is_int32 (wr_DoneItems r) \<and> is_int32 (wr_OKItems r) \<and>
           is_int32 (wr_FailedItems r) \<and> is_int32 (wr_Fanout r)) then Inl range_error
     else if \<not> list_all pg_text [wr_ID r, wr_KeyID r, wr_WorkloadID r, wr_Model r, wr_Status r, wr_WebhookURL r,
           wr_WebhookState r, wr_Label r, wr_Error r] then Inl text_error
     else Inr (p\<lparr>workload_runs := (workload_runs p)(wr_ID r \<mapsto>
       (case workload_runs p (wr_ID r) of Some old \<Rightarrow> merge_run r old
        | None \<Rightarrow> r\<lparr>wr_CreatedAt := (case nullTime (wr_CreatedAt r) of Some t \<Rightarrow> t | None \<Rightarrow> now)\<rparr>))\<rparr>))"

definition pg_GetRun :: "string \<Rightarrow> PG \<Rightarrow> WorkloadRun option" where "pg_GetRun i p = workload_runs p i"

definition pg_ListRuns :: "string list \<Rightarrow> string \<Rightarrow> int \<Rightarrow> PG \<Rightarrow> WorkloadRun list" where
  "pg_ListRuns order key limit p = (let limit = (if limit \<le> 0 \<or> limit > 200 then 50 else limit)
     in take (nat limit) (sort_by newer (filter (\<lambda>r. wr_KeyID r = key) (range_vals (workload_runs p) order))))"

subsection \<open>The credit book of PG\<close>

definition pg_seen :: "PG \<Rightarrow> idem \<Rightarrow> bool" where
  "pg_seen p i \<longleftrightarrow> (\<exists>v \<in> set (credit_ledger p). idem_key v = Some i)"

text \<open>The account table is the running total of the append-only ledger.\<close>

definition pg_credit_wf :: "PG \<Rightarrow> bool" where
  "pg_credit_wf p \<longleftrightarrow> (\<forall>k. is_int64 (pg_CreditBalance p k) \<and> pg_CreditBalance p k = total_for k (credit_ledger p))"

lemma ledger_count_pos: "0 < ledger_count P p \<longleftrightarrow> (\<exists>v \<in> set (credit_ledger p). P v)"
  by (auto simp: ledger_count_def filter_empty_conv)

lemma pg_seen_topup:
  "r \<noteq> [] \<Longrightarrow> pg_seen p (Topup r) \<longleftrightarrow> (\<exists>v \<in> set (credit_ledger p). mv_reason v = ''topup'' \<and> mv_ref v = r)"
  by (auto simp: pg_seen_def idem_key_iff)

lemma pg_seen_debit:
  "j \<noteq> [] \<Longrightarrow> pg_seen p (Debit j) \<longleftrightarrow> (\<exists>v \<in> set (credit_ledger p). mv_reason v = ''debit'' \<and> mv_job v = j)"
  by (auto simp: pg_seen_def idem_key_iff)

definition pg_insert :: "movement \<Rightarrow> PG \<Rightarrow> store_error + PG" where
  "pg_insert v p = (if \<not> is_int64 (mv_delta v) \<or> \<not> is_int64 (pg_CreditBalance p (mv_key v) + mv_delta v) then Inl range_error
     else Inr (p\<lparr>billing_accounts := (billing_accounts p)(mv_key v \<mapsto> pg_CreditBalance p (mv_key v) + mv_delta v),
                 credit_ledger := credit_ledger p @ [v]\<rparr>))"

lemma pg_AddCredit_eq:
  "pg_AddCredit v p = (case idem_key v of None \<Rightarrow> pg_insert v p
     | Some i \<Rightarrow> if pg_seen p i then Inr p else pg_insert v p)"
proof -
  consider (topup) "mv_reason v = ''topup''" "mv_ref v \<noteq> []" | (debit) "mv_reason v = ''debit''" "mv_job v \<noteq> []"
    | (plain) "\<not> (mv_reason v = ''topup'' \<and> mv_ref v \<noteq> [])" "\<not> (mv_reason v = ''debit'' \<and> mv_job v \<noteq> [])"
    by blast
  then show ?thesis
  proof cases
    case topup
    then have "idem_key v = Some (Topup (mv_ref v))" by (simp add: idem_key_def)
    with topup show ?thesis by (auto simp: pg_AddCredit_def ledger_count_pos pg_seen_topup pg_insert_def Let_def)
  next
    case debit
    then have "idem_key v = Some (Debit (mv_job v))" by (simp add: idem_key_def)
    with debit show ?thesis by (auto simp: pg_AddCredit_def ledger_count_pos pg_seen_debit pg_insert_def Let_def)
  next
    case plain
    then have "idem_key v = None" unfolding idem_key_def by presburger
    moreover have "pg_AddCredit v p = pg_insert v p"
      unfolding pg_AddCredit_def Let_def pg_insert_def using plain by presburger
    ultimately show ?thesis by simp
  qed
qed

lemma total_for_snoc: "total_for k (vs @ [v]) = total_for k vs + (if mv_key v = k then mv_delta v else 0)"
  by (simp add: total_for_def)

lemma pg_AddCredit_cases:
  assumes "pg_AddCredit v p = Inr p'"
  obtains (dup) i where "idem_key v = Some i" "pg_seen p i" "p' = p"
  | (new) "\<forall>i. idem_key v = Some i \<longrightarrow> \<not> pg_seen p i" "is_int64 (pg_CreditBalance p (mv_key v) + mv_delta v)"
      "p' = p\<lparr>billing_accounts := (billing_accounts p)(mv_key v \<mapsto> pg_CreditBalance p (mv_key v) + mv_delta v),
             credit_ledger := credit_ledger p @ [v]\<rparr>"
  using assms by (auto simp: pg_AddCredit_eq pg_insert_def split: if_splits option.splits)

interpretation pg_credit: credit_book pg_CreditBalance pg_AddCredit pg_seen pg_credit_wf
proof unfold_locales
  show "pg_credit_wf p'" if "pg_credit_wf p" "pg_AddCredit v p = Inr p'" for p p' v
    using that(2)
  proof (cases rule: pg_AddCredit_cases)
    case new
    then have "pg_CreditBalance p' k = pg_CreditBalance p k + (if mv_key v = k then mv_delta v else 0)" for k
      by (simp add: pg_CreditBalance_def)
    note b = this
    have "is_int64 (pg_CreditBalance p' k) \<and> pg_CreditBalance p' k = total_for k (credit_ledger p')" for k
    proof (cases "mv_key v = k")
      case True
      then show ?thesis
        using that(1) new(2) b [of k] unfolding pg_credit_wf_def by (simp add: new(3) total_for_snoc)
    next
      case False
      then have "pg_CreditBalance p' k = pg_CreditBalance p k" "total_for k (credit_ledger p') = total_for k (credit_ledger p)"
        using b [of k] by (simp_all add: new(3) total_for_snoc)
      then show ?thesis using that(1) unfolding pg_credit_wf_def by metis
    qed
    then show ?thesis unfolding pg_credit_wf_def by blast
  qed (use that(1) in simp)
  show "pg_AddCredit v p = Inr p" if "pg_credit_wf p" "idem_key v = Some i" "pg_seen p i" for p v i
    using that(2,3) by (auto simp: pg_AddCredit_eq)
  show "pg_CreditBalance p' k = (if k = mv_key v then wrap64 (pg_CreditBalance p k + mv_delta v) else pg_CreditBalance p k)"
    if "pg_credit_wf p" "\<And>i. idem_key v = Some i \<Longrightarrow> \<not> pg_seen p i" "pg_AddCredit v p = Inr p'" for p p' v k
    using that(3) by (cases rule: pg_AddCredit_cases) (use that(2) in \<open>auto simp: pg_CreditBalance_def\<close>)
  show "pg_seen p' i \<longleftrightarrow> pg_seen p i \<or> idem_key v = Some i"
    if "pg_credit_wf p" "pg_AddCredit v p = Inr p'" for p p' v i
    using that(2) by (cases rule: pg_AddCredit_cases) (auto simp: pg_seen_def)
  show "is_int64 (pg_CreditBalance p k)" if "pg_credit_wf p" for p k
    using that unfolding pg_credit_wf_def by blast
qed

lemma pg_credit_wf_New: "pg_credit_wf (NewPG sha256 ks ts)"
  by (simp add: pg_credit_wf_def NewPG_def pg_CreditBalance_def total_for_def is_int64_def)

text \<open>C25: the two stores agree on money: any sequence of top-ups, debits and adjustments that
  Postgres accepts leaves the same balance on every account in both, equal to the plain sum of
  the movements that count, and the Postgres ledger rows add up to it.\<close>

theorem Mem_PG_same_balances:
  assumes "pg_credit.add_all vs (NewPG sha256 ks ts) = Inr p"
  shows "\<exists>m. mem_credit.add_all vs (NewMem sha256 ks' ts') = Inr m \<and>
    (\<forall>k. CreditBalance m k = pg_CreditBalance p k \<and> pg_CreditBalance p k = total_for k (credit_ledger p) \<and>
         pg_CreditBalance p k = wrap64 (total_for k (effective {} vs)))"
proof -
  obtain m where m: "mem_credit.add_all vs (NewMem sha256 ks' ts') = Inr m"
    "\<And>k. CreditBalance m k = wrap64 (total_for k (effective {} vs))"
    using Mem_credit_sum by blast
  have none: "{i. pg_seen (NewPG sha256 ks ts) i} = {}" by (simp add: pg_seen_def NewPG_def)
  have "pg_CreditBalance p k = wrap64 (total_for k (effective {} vs))" for k
    using pg_credit.add_all_balance [OF pg_credit_wf_New assms, of k] unfolding none
    by (simp add: pg_CreditBalance_def NewPG_def)
  then show ?thesis using m pg_credit.wf_add_all [OF pg_credit_wf_New assms] by (auto simp: pg_credit_wf_def)
qed

lemma Mem_PG_same_balances_witness:
  "\<exists>p m. pg_credit.add_all [\<lparr>mv_key = ''k'', mv_delta = 5, mv_reason = ''topup'', mv_ref = ''cs_1'', mv_job = []\<rparr>]
      (NewPG (\<lambda>x. x) [] []) = Inr p \<and> CreditBalance m ''k'' = pg_CreditBalance p ''k''"
proof -
  let ?vs = "[\<lparr>mv_key = ''k'', mv_delta = 5, mv_reason = ''topup'', mv_ref = ''cs_1'', mv_job = []\<rparr>]"
  obtain p where p: "pg_credit.add_all ?vs (NewPG (\<lambda>x. x) [] []) = Inr p"
    by (simp add: pg_AddCredit_eq idem_key_def pg_seen_def NewPG_def pg_insert_def is_int64_def pg_CreditBalance_def)
  from Mem_PG_same_balances [OF this] p show ?thesis by blast
qed

subsection \<open>The earning book of PG\<close>

definition pg_settled :: "PG \<Rightarrow> string \<Rightarrow> string \<Rightarrow> bool" where
  "pg_settled p j pk \<longleftrightarrow> (\<exists>r \<in> set (provider_earnings p). e_job r = j \<and> e_pk r = pk)"

definition pg_ok_event :: "(string \<Rightarrow> bool) \<Rightarrow> EarningEvent \<Rightarrow> bool" where
  "pg_ok_event is_uuid ev \<longleftrightarrow> (ee_ProviderID ev = [] \<or> is_uuid (ee_ProviderID ev)) \<and>
     is_int64 (ee_GrossMicros ev) \<and> is_int64 (ee_ProviderMicros ev)"

interpretation pg_earning: earning_book "pg_RecordEarning is_uuid now" pg_settled "pg_ok_event is_uuid" "\<lambda>_. True"
  for is_uuid now
proof unfold_locales
  show "pg_RecordEarning is_uuid now ev p = Inl EarningRequiresIds \<longleftrightarrow> ee_JobID ev = [] \<or> ee_StaticPK ev = []" for ev p
    by (simp add: pg_RecordEarning_def range_error_def)
  show "pg_ok_event is_uuid ev \<Longrightarrow> ee_JobID ev \<noteq> [] \<Longrightarrow> ee_StaticPK ev \<noteq> [] \<Longrightarrow>
      pg_settled p (ee_JobID ev) (ee_StaticPK ev) \<Longrightarrow> pg_RecordEarning is_uuid now ev p = Inr p" for ev p
    by (auto simp: pg_RecordEarning_def pg_settled_def pg_ok_event_def)
  show "pg_RecordEarning is_uuid now ev p = Inr p' \<Longrightarrow>
      pg_settled p' j pk \<longleftrightarrow> pg_settled p j pk \<or> (j = ee_JobID ev \<and> pk = ee_StaticPK ev)" for ev p p' j pk
    by (auto simp: pg_RecordEarning_def pg_settled_def split: if_splits)
  show "pg_ok_event is_uuid ev \<Longrightarrow> ee_JobID ev \<noteq> [] \<Longrightarrow> ee_StaticPK ev \<noteq> [] \<Longrightarrow>
      \<exists>p'. pg_RecordEarning is_uuid now ev p = Inr p'" for ev p
    by (auto simp: pg_RecordEarning_def pg_ok_event_def)
qed

text \<open>The partial unique index of migration 0006 and the sums.\<close>

definition earnings_unique :: "PG \<Rightarrow> bool" where
  "earnings_unique p \<longleftrightarrow>
     distinct (map (\<lambda>r. (e_job r, e_pk r)) (filter (\<lambda>r. e_job r \<noteq> [] \<and> e_pk r \<noteq> []) (provider_earnings p)))"

lemma settle_row_simps [simp]:
  "e_job (settle_row i pk r) = e_job r" "e_pk (settle_row i pk r) = e_pk r" "e_micros (settle_row i pk r) = e_micros r"
  by (simp_all add: settle_row_def)

lemma settle_earnings:
  assumes "pg_RecordPayoutAndSettle now po p = Inr (i, p')"
  shows "provider_earnings p' = (if po_State po = ''created''
    then map (settle_row i (po_StaticPK po)) (provider_earnings p) @
      (if po_RemainderMicros po > 0 then [carry_row now (po_StaticPK po) (po_RemainderMicros po)] else [])
    else provider_earnings p)"
proof -
  have "Inr (i, p') = (pg_RecordPayoutAndSettle now po p)" using assms by simp
  then show ?thesis
    unfolding pg_RecordPayoutAndSettle_def Let_def
    by (cases "po_State po = ''created''"; cases "po_RemainderMicros po > 0") (simp_all split: if_splits)
qed

lemma earnings_unique_settle:
  assumes "earnings_unique p" "pg_RecordPayoutAndSettle now po p = Inr (i, p')"
  shows "earnings_unique p'"
  using assms(1) unfolding earnings_unique_def settle_earnings [OF assms(2)]
  by (simp add: filter_map comp_def carry_row_def)

definition earning_row_of :: "int \<Rightarrow> EarningEvent \<Rightarrow> earning_row" where
  "earning_row_of now ev = \<lparr>e_job = ee_JobID ev,
       e_provider = (if ee_ProviderID ev \<noteq> [] then Some (ee_ProviderID ev) else None),
       e_pk = ee_StaticPK ev, e_key = ee_KeyID ev, e_model = ee_Model ev, e_class = ee_ModelClass ev,
       e_tier = ee_Tier ev, e_gross = ee_GrossMicros ev, e_micros = ee_ProviderMicros ev,
       e_state = ''accrued'', e_payout = None, e_created = now\<rparr>"

lemma record_fresh:
  assumes "pg_RecordEarning is_uuid now ev p = Inr p'" "\<not> pg_settled p (ee_JobID ev) (ee_StaticPK ev)"
  shows "p' = p\<lparr>provider_earnings := provider_earnings p @ [earning_row_of now ev]\<rparr>"
proof -
  have "\<not> (\<exists>r \<in> set (provider_earnings p). e_job r = ee_JobID ev \<and> e_pk r = ee_StaticPK ev)"
    using assms(2) unfolding pg_settled_def .
  then show ?thesis
    using assms(1) unfolding pg_RecordEarning_def earning_row_of_def [symmetric]
    by (auto simp: earning_row_of_def split: if_split_asm)
qed

lemma earnings_unique_record:
  assumes "earnings_unique p" "pg_RecordEarning is_uuid now ev p = Inr p'"
  shows "earnings_unique p'"
proof (cases "pg_settled p (ee_JobID ev) (ee_StaticPK ev)")
  case True
  then have "p' = p"
    using assms(2) unfolding pg_RecordEarning_def pg_settled_def by (simp split: if_split_asm)
  then show ?thesis using assms(1) by simp
next
  case False
  then show ?thesis
    using assms(1) unfolding record_fresh [OF assms(2) False]
    by (auto simp: earnings_unique_def earning_row_of_def pg_settled_def)
qed

lemma owed_record:
  assumes "pg_RecordEarning is_uuid now ev p = Inr p'" "\<not> pg_settled p (ee_JobID ev) (ee_StaticPK ev)"
  shows "owed p' pk = owed p pk + (if pk = ee_StaticPK ev then ee_ProviderMicros ev else 0)"
  unfolding record_fresh [OF assms] by (simp add: owed_def accrued_rows_def earning_row_of_def)

lemma accrued_settled_rows:
  "filter (\<lambda>r. e_state r = ''accrued'' \<and> e_pk r = pk) (map (settle_row i q) rows) =
    (if pk = q then [] else filter (\<lambda>r. e_state r = ''accrued'' \<and> e_pk r = pk) rows)"
proof (induction rows)
  case (Cons r rows)
  have "(e_state (settle_row i q r) = ''accrued'' \<and> e_pk r = pk) \<longleftrightarrow>
      e_state r = ''accrued'' \<and> e_pk r = pk \<and> pk \<noteq> q"
    by (auto simp: settle_row_def)
  moreover have "pk \<noteq> q \<Longrightarrow> e_pk r = pk \<Longrightarrow> settle_row i q r = r"
    by (simp add: settle_row_def)
  ultimately show ?case using Cons.IH by (cases "pk = q") auto
qed simp

lemma owed_settle:
  assumes "pg_RecordPayoutAndSettle now po p = Inr (i, p')"
  shows "owed p' pk = (if po_State po = ''created'' \<and> pk = po_StaticPK po
    then max 0 (po_RemainderMicros po) else owed p pk)"
  unfolding owed_def accrued_rows_def settle_earnings [OF assms]
  by (simp add: accrued_settled_rows carry_row_def max_def)

text \<open>After a successful transfer the provider is owed exactly the sub-cent remainder that
  was carried forward, nobody else's balance moves, a failed transfer leaves every balance
  alone, and the one-accrual-per-job-and-device index still holds.\<close>

lemma payout_settles:
  assumes "earnings_unique p" "pg_RecordPayoutAndSettle now po p = Inr (i, p')" "0 \<le> po_RemainderMicros po"
  shows "owed p' pk = (if po_State po = ''created'' \<and> pk = po_StaticPK po then po_RemainderMicros po else owed p pk) \<and>
    earnings_unique p'"
  using owed_settle [OF assms(2)] earnings_unique_settle [OF assms(1,2)] assms(3) by simp

definition sample_payout :: "string \<Rightarrow> int \<Rightarrow> int \<Rightarrow> PayoutRecord" where
  "sample_payout pk a r = \<lparr>po_StaticPK = pk, po_StripeAccount = ''acct_1'', po_AmountMicros = a,
     po_StripeTransfer = ''tr_1'', po_State = ''created'', po_RemainderMicros = r\<rparr>"

lemma payout_settles_witness:
  "\<exists>i p'. pg_RecordPayoutAndSettle 5 (sample_payout ''k'' 10000 25) (NewPG (\<lambda>x. x) [] []) = Inr (i, p') \<and>
    owed p' ''k'' = 25"
proof -
  obtain i p' where r: "pg_RecordPayoutAndSettle 5 (sample_payout ''k'' 10000 25) (NewPG (\<lambda>x. x) [] []) = Inr (i, p')"
    by (simp add: pg_RecordPayoutAndSettle_def sample_payout_def is_int64_def Let_def)
  have "earnings_unique (NewPG (\<lambda>x. x) [] [])" by (simp add: earnings_unique_def NewPG_def)
  from payout_settles [OF this r] r show ?thesis by (auto simp: sample_payout_def)
qed

text \<open>Replaying earning events, in any order and however often, accrues each (job, device)
  pair once in Postgres: after a batch of valid events, the batch again changes nothing.\<close>

lemma PG_earnings_replay:
  assumes "\<forall>ev \<in> set evs. pg_ok_event is_uuid ev \<and> ee_JobID ev \<noteq> [] \<and> ee_StaticPK ev \<noteq> []"
    and "set evs' \<subseteq> set evs"
  shows "pg_earning.record_all is_uuid now' evs' (pg_earning.record_all is_uuid now evs p) =
    pg_earning.record_all is_uuid now evs p"
proof (rule pg_earning.record_all_replay)
  show "\<forall>ev \<in> set evs'. pg_ok_event is_uuid ev \<and> True \<and> ee_JobID ev \<noteq> [] \<and> ee_StaticPK ev \<noteq> []"
    using assms by blast
  show "\<forall>ev \<in> set evs'. pg_settled (pg_earning.record_all is_uuid now evs p) (ee_JobID ev) (ee_StaticPK ev)"
    using pg_earning.record_all_settled [of evs is_uuid] assms by blast
qed

lemma PG_earnings_replay_witness:
  "pg_earning.record_all (\<lambda>_. True) 9 [sample_event ''a'' 7, sample_event ''a'' 7]
     (pg_earning.record_all (\<lambda>_. True) 1 [sample_event ''a'' 7] (NewPG (\<lambda>x. x) [] [])) =
   pg_earning.record_all (\<lambda>_. True) 1 [sample_event ''a'' 7] (NewPG (\<lambda>x. x) [] [])"
  by (rule PG_earnings_replay) (simp_all add: sample_event_def pg_ok_event_def is_int64_def)

text \<open>Earnings that are recorded between the read of the amounts and the settlement of a
  payout are lost: the transfer pays the amount read, the settlement marks every accrued row
  paid, and the provider is owed only the remainder of the amount read.\<close>

theorem payout_loses_late_earning:
  assumes "owed p pk = a" "0 \<le> r"
    and "pg_RecordEarning is_uuid now ev p = Inr p1" "ee_StaticPK ev = pk" "\<not> pg_settled p (ee_JobID ev) pk"
    and "pg_RecordPayoutAndSettle now' \<lparr>po_StaticPK = pk, po_StripeAccount = acct, po_AmountMicros = a - r,
      po_StripeTransfer = tr, po_State = ''created'', po_RemainderMicros = r\<rparr> p1 = Inr (i, p2)"
  shows "owed p1 pk = a + ee_ProviderMicros ev \<and> owed p2 pk = r"
  using owed_record [OF assms(3), of pk] owed_settle [OF assms(6), of pk] assms(1,2,4,5) by simp

lemma payout_loses_late_earning_witness:
  "\<exists>p1 i p2. pg_RecordEarning (\<lambda>_. True) 1 (sample_event ''late'' 5000) (NewPG (\<lambda>x. x) [] []) = Inr p1 \<and>
    pg_RecordPayoutAndSettle 2 \<lparr>po_StaticPK = ''k'', po_StripeAccount = ''acct_1'', po_AmountMicros = 0 - 0,
      po_StripeTransfer = ''tr_1'', po_State = ''created'', po_RemainderMicros = 0\<rparr> p1 = Inr (i, p2) \<and>
    owed p1 ''k'' = 5000 \<and> owed p2 ''k'' = 0"
proof -
  let ?p = "NewPG (\<lambda>x. x) [] []"
  let ?po = "\<lparr>po_StaticPK = ''k'', po_StripeAccount = ''acct_1'', po_AmountMicros = 0 - 0,
      po_StripeTransfer = ''tr_1'', po_State = ''created'', po_RemainderMicros = 0\<rparr> :: PayoutRecord"
  have ns: "\<not> pg_settled ?p (ee_JobID (sample_event ''late'' 5000)) ''k''" by (simp add: pg_settled_def NewPG_def)
  have o: "owed ?p ''k'' = 0" by (simp add: owed_def accrued_rows_def NewPG_def)
  obtain p1 where p1: "pg_RecordEarning (\<lambda>_. True) 1 (sample_event ''late'' 5000) ?p = Inr p1"
    by (simp add: pg_RecordEarning_def sample_event_def is_int64_def NewPG_def)
  obtain i p2 where p2: "pg_RecordPayoutAndSettle 2 ?po p1 = Inr (i, p2)"
    by (simp add: pg_RecordPayoutAndSettle_def is_int64_def Let_def)
  have "ee_StaticPK (sample_event ''late'' 5000) = ''k''" by (simp add: sample_event_def)
  from payout_loses_late_earning [OF o _ p1 this ns p2] p1 p2 show ?thesis by (auto simp: sample_event_def)
qed

end
