(* ===== verification/Events.thy ===== *)
theory Events
  imports Prelude "HOL-Library.Sublist"
begin

text \<open>
  Package \<open>events\<close> (coordinator/internal/events/events.go): the bounded ring of operational events,
  its queries, and the log handler that fills it. The attributes of an event are an association
  list (a Go map written out in its iteration order). \<open>Push\<close> takes its sequence number before it
  takes the lock, so it is two steps, and concurrent pushes may store their events out of order.
\<close>

record event =
  Seq :: nat
  ev_TS :: int
  Level :: string
  Msg :: string
  Attrs :: "(string \<times> string) list"

record Ring =
  ring_buf :: "event list"
  head :: nat
  full :: bool
  seq_ctr :: nat

definition zero_event :: event where
  "zero_event = \<lparr>Seq = 0, ev_TS = 0, Level = [], Msg = [], Attrs = []\<rparr>"

definition NewRing :: "int \<Rightarrow> Ring" where
  "NewRing capacity = \<lparr>ring_buf = replicate (nat (if capacity < 16 then 16 else capacity)) zero_event,
     head = 0, full = False, seq_ctr = 0\<rparr>"

definition maxAttrLen :: nat where "maxAttrLen = 240"

text \<open>The two halves of \<open>Push\<close>: the counter, and the store under the lock. The counter is a \<open>uint64\<close>.\<close>

definition next_seq :: "Ring \<Rightarrow> Ring \<times> nat" where
  "next_seq r = (let n = (seq_ctr r + 1) mod 2 ^ 64 in (r\<lparr>seq_ctr := n\<rparr>, n))"

definition store_event :: "event \<Rightarrow> Ring \<Rightarrow> Ring" where
  "store_event ev r = (let h = (head r + 1) mod length (ring_buf r) in
     r\<lparr>ring_buf := (ring_buf r)[head r := ev], head := h, full := (if h = 0 then True else full r)\<rparr>)"

definition Push :: "int \<Rightarrow> string \<Rightarrow> string \<Rightarrow> (string \<times> string) list \<Rightarrow> Ring \<Rightarrow> Ring \<times> event" where
  "Push now level msg attrs r = (case next_seq r of (r', n) \<Rightarrow>
     (let ev = \<lparr>Seq = n, ev_TS = now, Level = level, Msg = msg, Attrs = attrs\<rparr> in (store_event ev r', ev)))"

definition snapshot :: "Ring \<Rightarrow> event list" where
  "snapshot r = (if \<not> full r then take (head r) (ring_buf r)
     else drop (head r) (ring_buf r) @ take (head r) (ring_buf r))"

definition contains :: "string \<Rightarrow> string \<Rightarrow> bool" where
  "contains s q = sublist q s"

definition matches :: "event \<Rightarrow> string \<Rightarrow> bool" where
  "matches ev q = (contains (to_lower (Msg ev)) q \<or>
     list_ex (\<lambda>kv. contains (to_lower (fst kv)) q \<or> contains (to_lower (snd kv)) q) (Attrs ev))"

text \<open>The loop of \<open>Recent\<close> over the events, newest first.\<close>

fun recent_loop :: "nat \<Rightarrow> string \<Rightarrow> string \<Rightarrow> nat \<Rightarrow> event list \<Rightarrow> event list \<Rightarrow> event list" where
  "recent_loop limit level q since [] out = out"
| "recent_loop limit level q since (ev # evs) out =
    (if length out \<ge> limit then out
     else if Seq ev \<le> since then out
     else if level \<noteq> [] \<and> Level ev \<noteq> level then recent_loop limit level q since evs out
     else if q \<noteq> [] \<and> \<not> matches ev q then recent_loop limit level q since evs out
     else recent_loop limit level q since evs (out @ [ev]))"

definition recent_limit :: "int \<Rightarrow> nat" where
  "recent_limit limit = nat (if limit \<le> 0 \<or> limit > 1000 then 200 else limit)"

definition Recent :: "int \<Rightarrow> string \<Rightarrow> string \<Rightarrow> nat \<Rightarrow> Ring \<Rightarrow> event list" where
  "Recent limit level q since r =
     recent_loop (recent_limit limit) (to_upper (trim_space level)) (to_lower (trim_space q)) since
       (rev (snapshot r)) []"

fun counts_loop :: "int \<Rightarrow> event list \<Rightarrow> int \<times> int \<times> event option \<Rightarrow> int \<times> int \<times> event option" where
  "counts_loop cutoff [] acc = acc"
| "counts_loop cutoff (ev # evs) (warns, errs, lastErr) =
    (if ev_TS ev < cutoff then (warns, errs, lastErr)
     else if Level ev = ''WARN'' then counts_loop cutoff evs (warns + 1, errs, lastErr)
     else if Level ev = ''ERROR'' then
       counts_loop cutoff evs (warns, errs + 1, if lastErr = None then Some ev else lastErr)
     else counts_loop cutoff evs (warns, errs, lastErr))"

definition Counts :: "int \<Rightarrow> int \<Rightarrow> Ring \<Rightarrow> int \<times> int \<times> event option" where
  "Counts now window r = counts_loop (now - window) (rev (snapshot r)) (0, 0, None)"

definition Len :: "Ring \<Rightarrow> nat" where
  "Len r = (if full r then length (ring_buf r) else head r)"

definition Audit :: "int \<Rightarrow> string \<Rightarrow> (string \<times> string) list \<Rightarrow> Ring \<Rightarrow> Ring \<times> event" where
  "Audit now action attrs r = Push now ''AUDIT'' action attrs r"

subsection \<open>The log handler\<close>

text \<open>A log attribute: a group of attributes or a value, given by its printed form.\<close>

datatype log_attr = Attr string log_value
     and log_value = VGroup "log_attr list" | VText string

record handler =
  h_min :: int
  h_attrs :: "log_attr list"
  h_group :: string

record log_record =
  lr_Level :: int
  lr_Message :: string
  lr_Attrs :: "log_attr list"

definition contentKeys :: "string list" where
  "contentKeys = [''prompt'', ''content'', ''messages'', ''completion'', ''document'', ''text'']"

definition truncate_attr :: "string \<Rightarrow> string" where
  "truncate_attr v = (if length v > maxAttrLen then take maxAttrLen v @ [CHR 0xE2, CHR 0x80, CHR 0xA6] else v)"

definition map_set :: "string \<Rightarrow> string \<Rightarrow> (string \<times> string) list \<Rightarrow> (string \<times> string) list" where
  "map_set k v m = (if k \<in> fst ` set m then map (\<lambda>kv. if fst kv = k then (k, v) else kv) m else m @ [(k, v)])"

fun put :: "string \<Rightarrow> log_attr \<Rightarrow> (string \<times> string) list \<Rightarrow> (string \<times> string) list"
and put_all :: "string \<Rightarrow> log_attr list \<Rightarrow> (string \<times> string) list \<Rightarrow> (string \<times> string) list" where
  "put grp (Attr k v) m = (let key = (if grp \<noteq> [] then grp @ CHR ''.'' # k else k) in
     if to_lower k \<in> set contentKeys then m
     else (case v of VGroup as \<Rightarrow> put_all key as m | VText t \<Rightarrow> map_set key (truncate_attr t) m))"
| "put_all grp [] m = m"
| "put_all grp (a # as) m = put_all grp as (put grp a m)"

definition levelName :: "int \<Rightarrow> string" where
  "levelName l = (if l \<ge> 8 then ''ERROR'' else if l \<ge> 4 then ''WARN'' else if l \<ge> 0 then ''INFO'' else ''DEBUG'')"

definition Handle :: "int \<Rightarrow> handler \<Rightarrow> log_record \<Rightarrow> Ring \<Rightarrow> Ring" where
  "Handle now h rec r = (if lr_Level rec \<ge> h_min h then
       fst (Push now (levelName (lr_Level rec)) (lr_Message rec)
         (put_all (h_group h) (lr_Attrs rec) (put_all (h_group h) (h_attrs h) [])) r)
     else r)"

definition WithAttrs :: "log_attr list \<Rightarrow> handler \<Rightarrow> handler" where
  "WithAttrs as h = h\<lparr>h_attrs := h_attrs h @ as\<rparr>"

definition WithGroup :: "string \<Rightarrow> handler \<Rightarrow> handler" where
  "WithGroup name h = h\<lparr>h_group := (if h_group h \<noteq> [] then h_group h @ CHR ''.'' # name else name)\<rparr>"

subsection \<open>The ring is a bounded queue\<close>

text \<open>The abstract ring: the last \<open>n\<close> events.\<close>

definition keep_last :: "nat \<Rightarrow> 'a list \<Rightarrow> 'a list" where
  "keep_last n xs = drop (length xs - n) xs"

definition ring_wf :: "Ring \<Rightarrow> bool" where
  "ring_wf r \<longleftrightarrow> head r < length (ring_buf r)"

lemma ring_wf_New: "ring_wf (NewRing c)"
  by (simp add: ring_wf_def NewRing_def)

lemma ring_wf_store: "ring_wf r \<Longrightarrow> ring_wf (store_event ev r) \<and> length (ring_buf (store_event ev r)) = length (ring_buf r)"
  by (cases "ring_buf r = []") (simp_all add: ring_wf_def store_event_def Let_def)

lemma length_snapshot: "ring_wf r \<Longrightarrow> length (snapshot r) = Len r \<and> Len r \<le> length (ring_buf r)"
  by (auto simp: snapshot_def Len_def ring_wf_def)

lemma snapshot_store:
  assumes "ring_wf r"
  shows "snapshot (store_event ev r) = keep_last (length (ring_buf r)) (snapshot r @ [ev])"
proof -
  let ?b = "ring_buf r"
  let ?n = "length ?b"
  have h: "head r < ?n" using assms by (simp add: ring_wf_def)
  have upd: "?b[head r := ev] = take (head r) ?b @ ev # drop (Suc (head r)) ?b" by (rule upd_conv_take_nth_drop [OF h])
  show ?thesis
  proof (cases "Suc (head r) = ?n")
    case True
    then have d: "drop (Suc (head r)) ?b = []" by simp
    have dh: "drop (head r) ?b = [?b ! head r]" using Cons_nth_drop_Suc [OF h] d by simp
    have s: "snapshot (store_event ev r) = take (head r) ?b @ [ev]"
      using True by (simp add: snapshot_def store_event_def Let_def upd d)
    show ?thesis
    proof (cases "full r")
      case f: True
      then have "snapshot r = ?b ! head r # take (head r) ?b" by (simp add: snapshot_def dh)
      then show ?thesis using s h True by (simp add: keep_last_def min_def)
    next
      case False
      then show ?thesis using s h True by (simp add: snapshot_def keep_last_def)
    qed
  next
    case False
    then have lt: "Suc (head r) < ?n" using h by simp
    then have m: "Suc (head r) mod ?n = Suc (head r)" by simp
    show ?thesis
    proof (cases "full r")
      case f: True
      have "drop (head r) ?b = ?b ! head r # drop (Suc (head r)) ?b" by (rule Cons_nth_drop_Suc [OF h, symmetric])
      then have "snapshot r = ?b ! head r # drop (Suc (head r)) ?b @ take (head r) ?b" by (simp add: snapshot_def f)
      moreover have "snapshot (store_event ev r) = drop (Suc (head r)) ?b @ take (head r) ?b @ [ev]"
        using h by (simp add: snapshot_def store_event_def Let_def m f upd min_def)
      moreover have one: "length (snapshot r @ [ev]) - ?n = 1" using h by (simp add: snapshot_def f)
      have "keep_last ?n (snapshot r @ [ev]) = drop 1 (snapshot r @ [ev])" unfolding keep_last_def one ..
      ultimately show ?thesis by simp
    next
      case False
      then show ?thesis using h by (simp add: snapshot_def store_event_def Let_def m upd keep_last_def)
    qed
  qed
qed

lemma keep_last_snoc: "keep_last n (keep_last n xs @ [x]) = keep_last n (xs @ [x])"
proof (cases "n \<le> length xs")
  case True
  let ?d = "length xs - n"
  have "keep_last n (keep_last n xs @ [x]) = drop 1 (drop ?d xs @ [x])"
    using True by (simp add: keep_last_def)
  also have "\<dots> = drop 1 (drop ?d (xs @ [x]))" by simp
  also have "\<dots> = keep_last n (xs @ [x])" using True by (simp add: keep_last_def Suc_diff_le)
  finally show ?thesis .
qed (simp add: keep_last_def)

definition push_all :: "(int \<times> string \<times> string \<times> (string \<times> string) list) list \<Rightarrow> Ring \<Rightarrow> Ring" where
  "push_all ps r = fold (\<lambda>(now, l, m, a) r. fst (Push now l m a r)) ps r"

definition numbered :: "nat \<Rightarrow> (int \<times> string \<times> string \<times> (string \<times> string) list) list \<Rightarrow> event list" where
  "numbered n ps = map (\<lambda>(i, now, l, m, a). \<lparr>Seq = i, ev_TS = now, Level = l, Msg = m, Attrs = a\<rparr>)
     (zip [Suc n..<Suc n + length ps] ps)"

lemma numbered_snoc: "numbered n (ps @ [(now, l, m, a)]) =
    numbered n ps @ [\<lparr>Seq = Suc n + length ps, ev_TS = now, Level = l, Msg = m, Attrs = a\<rparr>]"
proof -
  have "[Suc n..<Suc n + length (ps @ [(now, l, m, a)])] = [Suc n..<Suc n + length ps] @ [Suc n + length ps]"
    by simp
  then show ?thesis unfolding numbered_def by (simp only:) (simp del: upt_Suc)
qed

lemma push_all_refines:
  assumes "length ps < 2 ^ 64"
  shows "let r = push_all ps (NewRing c) in ring_wf r \<and> length (ring_buf r) = length (ring_buf (NewRing c)) \<and>
    seq_ctr r = length ps \<and> snapshot r = keep_last (length (ring_buf r)) (numbered 0 ps)"
  using assms
proof (induction ps rule: rev_induct)
  case Nil
  show ?case by (simp add: push_all_def numbered_def keep_last_def ring_wf_New Let_def) (simp add: snapshot_def NewRing_def)
next
  case (snoc p ps)
  obtain now l m a where p: "p = (now, l, m, a)" by (cases p) auto
  let ?r = "push_all ps (NewRing c)"
  have IH: "ring_wf ?r" "length (ring_buf ?r) = length (ring_buf (NewRing c))" "seq_ctr ?r = length ps"
    "snapshot ?r = keep_last (length (ring_buf ?r)) (numbered 0 ps)"
    using snoc by (simp_all add: Let_def)
  let ?ev = "\<lparr>Seq = Suc (length ps), ev_TS = now, Level = l, Msg = m, Attrs = a\<rparr>"
  let ?q = "?r\<lparr>seq_ctr := Suc (length ps)\<rparr>"
  have step: "push_all (ps @ [p]) (NewRing c) = store_event ?ev ?q"
    using snoc.prems IH(3) by (simp add: push_all_def p Push_def next_seq_def Let_def)
  have q: "ring_wf ?q" "snapshot ?q = snapshot ?r" "length (ring_buf ?q) = length (ring_buf ?r)"
    using IH(1) by (simp_all add: ring_wf_def snapshot_def)
  have "seq_ctr (store_event ?ev ?q) = Suc (length ps)" by (simp add: store_event_def Let_def)
  then show ?case
    using ring_wf_store [OF q(1), of ?ev] snapshot_store [OF q(1), of ?ev] IH q
    unfolding step Let_def by (simp add: keep_last_snoc p numbered_snoc)
qed

text \<open>The ring refines a queue bounded by its capacity: after any number of pushes, one after the
  other, the snapshot is the last \<open>capacity\<close> events in the order they were pushed, numbered from 1
  without gaps.\<close>

lemma ring_refines_queue:
  assumes "length ps < 2 ^ 64"
  shows "snapshot (push_all ps (NewRing c)) = keep_last (nat (max 16 c)) (numbered 0 ps) \<and>
    Len (push_all ps (NewRing c)) = min (length ps) (nat (max 16 c))"
proof -
  have r: "ring_wf (push_all ps (NewRing c))" "length (ring_buf (push_all ps (NewRing c))) = nat (max 16 c)"
    "snapshot (push_all ps (NewRing c)) = keep_last (nat (max 16 c)) (numbered 0 ps)"
    using push_all_refines [OF assms, of c] by (simp_all add: Let_def NewRing_def max_def)
  moreover have "length (numbered 0 ps) = length ps" by (simp add: numbered_def del: upt_Suc)
  moreover have "length (snapshot (push_all ps (NewRing c))) = Len (push_all ps (NewRing c))"
    using length_snapshot [OF r(1)] by blast
  ultimately show ?thesis by (auto simp: keep_last_def min_def)
qed

lemma ring_refines_queue_witness:
  "Len (push_all [(1, ''INFO'', ''a'', []), (2, ''WARN'', ''b'', [])] (NewRing 4)) = 2"
  by (subst ring_refines_queue [THEN conjunct2]) simp_all

subsection \<open>Queries\<close>

definition wanted :: "string \<Rightarrow> string \<Rightarrow> event \<Rightarrow> bool" where
  "wanted level q ev \<longleftrightarrow> (level = [] \<or> Level ev = level) \<and> (q = [] \<or> matches ev q)"

lemma recent_loop_spec:
  "length out \<le> limit \<Longrightarrow> recent_loop limit level q since evs out =
    take limit (out @ filter (wanted level q) (takeWhile (\<lambda>ev. since < Seq ev) evs))"
  by (induction limit level q since evs out rule: recent_loop.induct)
    (auto simp: wanted_def)

lemma takeWhile_sorted:
  "sorted_wrt (\<lambda>a b. Seq b < Seq a) evs \<Longrightarrow> takeWhile (\<lambda>ev. since < Seq ev) evs = filter (\<lambda>ev. since < Seq ev) evs"
proof (induction evs)
  case (Cons e evs)
  then show ?case by (cases "since < Seq e") (auto intro!: filter_False [symmetric] simp: filter_empty_conv)
qed simp

text \<open>On a ring whose events are stored in the order of their numbers, \<open>Recent\<close> is the reference
  query: the newest first, all events above the floor that have the level and match the text, up
  to the limit.\<close>

lemma Recent_equals_query:
  assumes "sorted_wrt (\<lambda>a b. Seq a < Seq b) (snapshot r)"
  shows "Recent limit level q since r = take (recent_limit limit)
    (filter (\<lambda>ev. since < Seq ev \<and> wanted (to_upper (trim_space level)) (to_lower (trim_space q)) ev) (rev (snapshot r)))"
proof -
  have "sorted_wrt (\<lambda>a b. Seq b < Seq a) (rev (snapshot r))" using assms by (simp add: sorted_wrt_rev)
  then show ?thesis
    by (simp add: Recent_def recent_loop_spec takeWhile_sorted conj_commute)
qed

lemma Recent_equals_query_witness:
  "map Msg (Recent 10 ''warn'' [] 1 (push_all [(1, ''WARN'', ''a'', []), (2, ''WARN'', ''b'', [])] (NewRing 4))) = [''b'']"
proof -
  have s: "snapshot (push_all [(1, ''WARN'', ''a'', []), (2, ''WARN'', ''b'', [])] (NewRing 4)) =
      [\<lparr>Seq = 1, ev_TS = 1, Level = ''WARN'', Msg = ''a'', Attrs = []\<rparr>,
       \<lparr>Seq = 2, ev_TS = 2, Level = ''WARN'', Msg = ''b'', Attrs = []\<rparr>]"
    using push_all_refines [of "[(1, ''WARN'', ''a'', []), (2, ''WARN'', ''b'', [])]" 4]
    by (simp add: Let_def NewRing_def keep_last_def numbered_def)
  have up: "to_upper (trim_space ''warn'') = ''WARN''" by code_simp
  have lo: "to_lower (trim_space []) = []" by code_simp
  show ?thesis
    by (subst Recent_equals_query) (simp_all add: s up lo recent_limit_def wanted_def)
qed

text \<open>Two pushes that interleave (the second takes its number first to last but stores first) leave
  the events out of order, and a poller that has seen everything up to number 1 is then given
  nothing although event 2 is in the ring: the scan stops at the first event not above the
  floor.\<close>

theorem Recent_misses_concurrent:
  fixes r :: Ring and e1 e2 :: event
  defines "r \<equiv> store_event e1 (store_event e2 (fst (next_seq (fst (next_seq (NewRing 16))))))"
  assumes "Seq e1 = snd (next_seq (NewRing 16))" "Seq e2 = snd (next_seq (fst (next_seq (NewRing 16))))"
  shows "snapshot r = [e2, e1] \<and> Seq e2 = 2 \<and> Recent 0 [] [] 1 r = []"
proof -
  have n: "Seq e1 = 1" "Seq e2 = 2" using assms(2,3) by (simp_all add: next_seq_def NewRing_def Let_def)
  let ?r = "fst (next_seq (fst (next_seq (NewRing 16))))"
  have w: "ring_wf ?r" "snapshot ?r = []" "length (ring_buf ?r) = 16"
    by (simp_all add: ring_wf_def next_seq_def NewRing_def snapshot_def Let_def)
  have s: "snapshot r = [e2, e1]"
    using snapshot_store [OF w(1), of e2] snapshot_store [of "store_event e2 ?r" e1] ring_wf_store [OF w(1), of e2] w
    by (simp add: r_def keep_last_def)
  then show ?thesis using n by (simp add: Recent_def recent_limit_def)
qed

lemma Recent_misses_concurrent_witness:
  "Recent 0 [] [] 1 (store_event (zero_event\<lparr>Seq := 1\<rparr>) (store_event (zero_event\<lparr>Seq := 2\<rparr>)
     (fst (next_seq (fst (next_seq (NewRing 16))))))) = []"
  using Recent_misses_concurrent [of "zero_event\<lparr>Seq := 1\<rparr>" "zero_event\<lparr>Seq := 2\<rparr>"]
  by (simp add: next_seq_def NewRing_def Let_def)

subsection \<open>No content in the ring\<close>

definition clean_entry :: "string \<times> string \<Rightarrow> bool" where
  "clean_entry kv \<longleftrightarrow> (\<exists>leaf. suffix leaf (fst kv) \<and> to_lower leaf \<notin> set contentKeys) \<and> length (snd kv) \<le> maxAttrLen + 3"

lemma clean_map_set: "list_all clean_entry m \<Longrightarrow> clean_entry (k, v) \<Longrightarrow> list_all clean_entry (map_set k v m)"
  by (auto simp: map_set_def list_all_iff)

lemma length_truncate: "length (truncate_attr v) \<le> maxAttrLen + 3"
  by (simp add: truncate_attr_def)

lemma clean_leaf: "to_lower k \<notin> set contentKeys \<Longrightarrow> clean_entry (if grp \<noteq> [] then grp @ CHR ''.'' # k else k, truncate_attr t)"
  by (auto simp: clean_entry_def length_truncate intro!: exI [of _ k] suffix_appendI suffix_ConsI)

lemma put_clean:
  "list_all clean_entry m \<Longrightarrow> list_all clean_entry (put grp a m)"
  "list_all clean_entry m \<Longrightarrow> list_all clean_entry (put_all grp as m)"
proof (induction grp a m and grp as m rule: put_put_all.induct)
  case (1 grp k v m)
  then show ?case
    using clean_map_set [OF _ clean_leaf [of k grp]]
    by (cases v; cases "to_lower k \<in> set contentKeys") (simp_all add: Let_def)
qed simp_all

text \<open>The ring is free of content: whatever is logged, with whatever nesting of groups, every
  attribute the handler stores ends in a key that is not one of the content keys in any
  capitalisation, and no stored value is longer than 240 bytes and the ellipsis.\<close>

theorem ring_content_free:
  assumes "\<And>ev. ev \<in> set (ring_buf r) \<Longrightarrow> list_all clean_entry (Attrs ev)"
    and "ev \<in> set (ring_buf (Handle now h rec r))"
  shows "list_all clean_entry (Attrs ev)"
proof -
  have c: "list_all clean_entry (put_all g as (put_all g bs []))" for g as bs by (simp add: put_clean)
  have "ev \<in> insert x (set (ring_buf r))" if "ev \<in> set ((ring_buf r)[head r := x])" for x
    using that set_update_subset_insert by fastforce
  moreover have "ring_buf (Handle now h rec r) = ring_buf r \<or>
      (\<exists>n. ring_buf (Handle now h rec r) = (ring_buf r)[head r := \<lparr>Seq = n, ev_TS = now, Level = levelName (lr_Level rec),
        Msg = lr_Message rec, Attrs = put_all (h_group h) (lr_Attrs rec) (put_all (h_group h) (h_attrs h) [])\<rparr>])"
    by (simp add: Handle_def Push_def next_seq_def store_event_def Let_def) blast
  ultimately show ?thesis using assms c by fastforce
qed

lemma ring_content_free_witness:
  "\<forall>ev \<in> set (ring_buf (Handle 1 \<lparr>h_min = 0, h_attrs = [], h_group = ''req''\<rparr>
     \<lparr>lr_Level = 4, lr_Message = ''x'', lr_Attrs = [Attr ''Prompt'' (VText ''secret''), Attr ''job'' (VText ''7'')]\<rparr>
     (NewRing 0))). list_all clean_entry (Attrs ev)"
proof
  fix ev assume "ev \<in> set (ring_buf (Handle 1 \<lparr>h_min = 0, h_attrs = [], h_group = ''req''\<rparr>
     \<lparr>lr_Level = 4, lr_Message = ''x'', lr_Attrs = [Attr ''Prompt'' (VText ''secret''), Attr ''job'' (VText ''7'')]\<rparr>
     (NewRing 0)))"
  then show "list_all clean_entry (Attrs ev)"
  proof (rule ring_content_free [rotated])
    show "list_all clean_entry (Attrs e)" if "e \<in> set (ring_buf (NewRing 0))" for e
      using that by (simp add: NewRing_def zero_event_def split: if_splits)
  qed
qed

end
