(* ===== verification/Batch.thy ===== *)
theory Batch
  imports Relay
begin

text \<open>
  Package \<open>batch\<close> (coordinator/internal/batch/batch.go): fan-out of independent items over the
  eligible providers with a bounded pool of workers. The goroutines are a step relation: a
  worker takes the next item (and picks a provider under the mutex, or records the cancelled
  context), or finishes the item it holds. What a provider answers is an argument of the
  finishing step, so every outcome and every interleaving is covered.
\<close>

definition batch_MaxItems :: nat where "batch_MaxItems = 256"
definition DefaultConcurrency :: int where "DefaultConcurrency = 8"
definition MaxConcurrency :: int where "MaxConcurrency = 16"

record Item =
  it_Messages :: "ChatMessage list"
  it_Params :: SamplingParams

record ItemResult =
  ir_Index :: nat
  ir_Content :: string
  ir_Usage :: Usage
  ir_FinishReason :: string
  ir_ProviderID :: string
  ir_ProviderPK :: string
  ir_TrustTier :: string
  ir_JobID :: string
  ir_ErrCode :: string
  ir_ErrMsg :: string
  ir_LatencyMS :: int

record Summary =
  su_Items :: "ItemResult list"
  su_OK :: int
  su_Failed :: int
  su_Providers :: "string \<rightharpoonup> int"
  su_PromptTokens :: int
  su_CompletionTokens :: int
  su_Concurrency :: int
  su_WallMS :: int

record Options =
  op_Model :: string
  op_MinTier :: string
  op_HWClass :: string
  op_MinContext :: int
  op_Concurrency :: int
  op_ACUByPK :: "string \<rightharpoonup> f64"

definition pk :: "Provider \<Rightarrow> string" where
  "pk p = b64_encode (StaticPKBytes p)"

subsection \<open>Candidates and workers\<close>

definition acu_of :: "(string \<rightharpoonup> f64) \<Rightarrow> Provider \<Rightarrow> f64" where
  "acu_of m p = (case m (pk p) of None \<Rightarrow> 0 | Some a \<Rightarrow> a)"

text \<open>Position of a candidate in the scheduler's order, by id; the last one of equal ids counts.\<close>

definition base_of :: "(pref \<Rightarrow> Provider) \<Rightarrow> pref list \<Rightarrow> string \<Rightarrow> nat" where
  "base_of h cands i = the (map_of (rev (zip (map (\<lambda>p. ID (h p)) cands) [0..<length cands])) i)"

definition acu_less :: "(pref \<Rightarrow> Provider) \<Rightarrow> (string \<rightharpoonup> f64) \<Rightarrow> pref list \<Rightarrow> pref \<Rightarrow> pref \<Rightarrow> bool" where
  "acu_less h m cands x y = (let ai = acu_of m (h x); aj = acu_of m (h y) in
     if ai \<noteq> aj then ai > aj else base_of h cands (ID (h x)) < base_of h cands (ID (h y)))"

definition order_candidates :: "(pref \<Rightarrow> Provider) \<Rightarrow> (string \<rightharpoonup> f64) \<Rightarrow> pref list \<Rightarrow> pref list" where
  "order_candidates h m cands = (if m = Map.empty then cands else sort_by (acu_less h m cands) cands)"

definition worker_count :: "int \<Rightarrow> nat \<Rightarrow> int" where
  "worker_count concurrency n =
    (let w = (if concurrency \<le> 0 then DefaultConcurrency else concurrency);
         w = (if w > MaxConcurrency then MaxConcurrency else w) in
     if w > int n then int n else w)"

subsection \<open>The run\<close>

record run_state =
  pending :: "nat list"
  running :: "(nat \<times> pref) list"
  results :: "ItemResult option list"
  inflight :: "string \<Rightarrow> int"
  assigned :: "string \<Rightarrow> int"

definition better :: "(pref \<Rightarrow> string) \<Rightarrow> (string \<Rightarrow> int) \<Rightarrow> (string \<Rightarrow> int) \<Rightarrow> pref \<Rightarrow> pref \<Rightarrow> pref" where
  "better idf infl asg best p = (let bi = infl (idf best); pi = infl (idf p) in
     if pi < bi \<or> (pi = bi \<and> asg (idf p) < asg (idf best)) then p else best)"

definition choose_best :: "(pref \<Rightarrow> string) \<Rightarrow> pref list \<Rightarrow> run_state \<Rightarrow> pref" where
  "choose_best idf cands s = foldl (better idf (inflight s) (assigned s)) (hd cands) (tl cands)"

definition choose_prov :: "(pref \<Rightarrow> string) \<Rightarrow> pref list \<Rightarrow> run_state \<Rightarrow> run_state \<times> pref" where
  "choose_prov idf cands s = (let best = choose_best idf cands s in
     (s\<lparr>inflight := (inflight s)(idf best := inflight s (idf best) + 1),
        assigned := (assigned s)(idf best := assigned s (idf best) + 1)\<rparr>, best))"

definition release :: "(pref \<Rightarrow> string) \<Rightarrow> pref \<Rightarrow> run_state \<Rightarrow> run_state" where
  "release idf p s = s\<lparr>inflight := (inflight s)(idf p := inflight s (idf p) - 1)\<rparr>"

definition empty_result :: "nat \<Rightarrow> ItemResult" where
  "empty_result idx = \<lparr>ir_Index = idx, ir_Content = [], ir_Usage = \<lparr>PromptTokens = 0, CompletionTokens = 0, TotalTokens = 0\<rparr>,
     ir_FinishReason = [], ir_ProviderID = [], ir_ProviderPK = [], ir_TrustTier = [], ir_JobID = [],
     ir_ErrCode = [], ir_ErrMsg = [], ir_LatencyMS = 0\<rparr>"

definition cancelled_result :: "nat \<Rightarrow> relay_error \<Rightarrow> ItemResult" where
  "cancelled_result idx err = (empty_result idx)\<lparr>ir_ErrCode := fst (ErrCode err), ir_ErrMsg := snd (ErrCode err)\<rparr>"

text \<open>What \<open>runOne\<close> makes of the answer of \<open>exec\<close>; the callback has written the deltas in order.\<close>

definition item_result :: "nat \<Rightarrow> string \<Rightarrow> string list \<Rightarrow> int \<Rightarrow> relay_error + Result \<Rightarrow> ItemResult" where
  "item_result idx prov_id ds latency out =
    (let res = (empty_result idx)\<lparr>ir_LatencyMS := latency, ir_ProviderID := prov_id\<rparr> in
     case out of
       Inl err \<Rightarrow> res\<lparr>ir_ErrCode := fst (ErrCode err), ir_ErrMsg := snd (ErrCode err)\<rparr>
     | Inr r \<Rightarrow> res\<lparr>ir_Content := concat ds, ir_Usage := rs_Usage r, ir_FinishReason := rs_FinishReason r,
         ir_ProviderPK := rs_ProviderPK r, ir_TrustTier := rs_TrustTier r, ir_JobID := rs_JobID r,
         ir_ProviderID := (if rs_ProviderID r \<noteq> [] then rs_ProviderID r else prov_id)\<rparr>)"

inductive bstep :: "(pref \<Rightarrow> string) \<Rightarrow> pref list \<Rightarrow> nat \<Rightarrow> run_state \<Rightarrow> run_state \<Rightarrow> bool"
  for idf cands workers where
  Skip: "pending s = i # rest \<Longrightarrow> length (running s) < workers \<Longrightarrow>
    bstep idf cands workers s (s\<lparr>pending := rest, results := (results s)[i := Some (cancelled_result i err)]\<rparr>)"
| Start: "pending s = i # rest \<Longrightarrow> length (running s) < workers \<Longrightarrow> choose_prov idf cands s = (s', p) \<Longrightarrow>
    bstep idf cands workers s (s'\<lparr>pending := rest, running := running s @ [(i, p)]\<rparr>)"
| Finish: "(i, p) \<in> set (running s) \<Longrightarrow>
    bstep idf cands workers s ((release idf p s)\<lparr>running := remove1 (i, p) (running s),
      results := (results s)[i := Some (item_result i (idf p) ds latency out)]\<rparr>)"

definition run_init :: "nat \<Rightarrow> run_state" where
  "run_init n = \<lparr>pending = [0..<n], running = [], results = replicate n None, inflight = (\<lambda>_. 0), assigned = (\<lambda>_. 0)\<rparr>"

inductive bruns :: "(pref \<Rightarrow> string) \<Rightarrow> pref list \<Rightarrow> nat \<Rightarrow> nat \<Rightarrow> nat \<Rightarrow> run_state \<Rightarrow> bool"
  for idf cands workers n where
  Init: "bruns idf cands workers n 0 (run_init n)"
| Step: "bruns idf cands workers n k s \<Longrightarrow> bstep idf cands workers s s' \<Longrightarrow> bruns idf cands workers n (Suc k) s'"

inductive_cases bstepE: "bstep idf cands workers s s'"

definition run_done :: "run_state \<Rightarrow> bool" where
  "run_done s \<longleftrightarrow> pending s = [] \<and> running s = []"

subsection \<open>The summary\<close>

definition count_one :: "ItemResult \<Rightarrow> Summary \<Rightarrow> Summary" where
  "count_one r s =
    (let s = (if ir_ProviderID r \<noteq> []
              then s\<lparr>su_Providers := (su_Providers s)(ir_ProviderID r \<mapsto>
                (case su_Providers s (ir_ProviderID r) of None \<Rightarrow> 0 | Some k \<Rightarrow> k) + 1)\<rparr> else s) in
     if ir_ErrCode r \<noteq> [] then s\<lparr>su_Failed := su_Failed s + 1\<rparr>
     else s\<lparr>su_OK := su_OK s + 1,
            su_PromptTokens := wrap64 (su_PromptTokens s + PromptTokens (ir_Usage r)),
            su_CompletionTokens := wrap64 (su_CompletionTokens s + CompletionTokens (ir_Usage r))\<rparr>)"

definition summarize :: "ItemResult list \<Rightarrow> int \<Rightarrow> int \<Rightarrow> Summary" where
  "summarize rs workers wallMS = fold count_one rs
     \<lparr>su_Items = rs, su_OK = 0, su_Failed = 0, su_Providers = Map.empty, su_PromptTokens = 0,
      su_CompletionTokens = 0, su_Concurrency = workers, su_WallMS = wallMS\<rparr>"

definition Fanout :: "Summary \<Rightarrow> nat" where
  "Fanout s = card (dom (su_Providers s))"

text \<open>The result of \<open>Run\<close> once its run is over: \<open>s\<close> is the final state of the step relation.\<close>

definition batch_candidates :: "Registry \<Rightarrow> string list \<Rightarrow> Options \<Rightarrow> sched_error + pref list" where
  "batch_candidates reg order opt = (case Eligible reg order \<lparr>req_Model = op_Model opt, req_MinTier = op_MinTier opt,
       req_MinContext = op_MinContext opt, req_HWClass = op_HWClass opt\<rparr> of
     Inl e \<Rightarrow> Inl e | Inr cands \<Rightarrow> Inr (order_candidates (prov reg) (op_ACUByPK opt) cands))"

definition batch_Run :: "Registry \<Rightarrow> string list \<Rightarrow> Options \<Rightarrow> Item list \<Rightarrow> (pref list \<Rightarrow> nat \<Rightarrow> run_state) \<Rightarrow> int \<Rightarrow>
    sched_error + Summary" where
  "batch_Run reg order opt items final wallMS = (case batch_candidates reg order opt of
     Inl e \<Rightarrow> Inl e
   | Inr cands \<Rightarrow> (let w = worker_count (op_Concurrency opt) (length items) in
       Inr (summarize (map the (results (final cands (nat w)))) w wallMS)))"

subsection \<open>Choosing a provider\<close>

lemma foldl_better:
  "\<lbrakk>set ps \<subseteq> A; b \<in> A\<rbrakk> \<Longrightarrow> foldl (better idf infl asg) b ps \<in> A \<and>
   (\<forall>q \<in> insert b (set ps). infl (idf (foldl (better idf infl asg) b ps)) < infl (idf q) \<or>
      (infl (idf (foldl (better idf infl asg) b ps)) = infl (idf q) \<and>
       asg (idf (foldl (better idf infl asg) b ps)) \<le> asg (idf q)))"
proof (induction ps arbitrary: b)
  case (Cons p ps)
  let ?b = "better idf infl asg b p"
  have b: "?b \<in> A" using Cons.prems by (auto simp: better_def Let_def)
  note IH = Cons.IH [OF _ b] 
  have bb: "infl (idf ?b) < infl (idf q) \<or> (infl (idf ?b) = infl (idf q) \<and> asg (idf ?b) \<le> asg (idf q))" if "q = b \<or> q = p" for q
    using that by (auto simp: better_def Let_def)
  show ?case
    using IH Cons.prems(1) bb by (force simp: less_le_not_le)
qed simp

lemma choose_best_in: "cands \<noteq> [] \<Longrightarrow> choose_best idf cands s \<in> set cands"
  using foldl_better [of "tl cands" "set cands" "hd cands" idf "inflight s" "assigned s"]
  by (auto simp: choose_best_def dest: list.set_sel(2))

subsection \<open>The invariant of a run\<close>

definition binv :: "(pref \<Rightarrow> string) \<Rightarrow> pref list \<Rightarrow> nat \<Rightarrow> nat \<Rightarrow> run_state \<Rightarrow> bool" where
  "binv idf cands workers n s \<longleftrightarrow> length (results s) = n \<and> length (running s) \<le> workers \<and>
     distinct (pending s @ map fst (running s)) \<and>
     (\<forall>i < n. (i \<in> set (pending s) \<or> i \<in> fst ` set (running s)) \<longleftrightarrow> results s ! i = None) \<and>
     set (pending s) \<subseteq> {..<n} \<and> fst ` set (running s) \<subseteq> {..<n} \<and> snd ` set (running s) \<subseteq> set cands \<and>
     (\<forall>i r. i < n \<longrightarrow> results s ! i = Some r \<longrightarrow> ir_Index r = i) \<and>
     (\<forall>x. inflight s x = int (length (filter (\<lambda>q. idf (snd q) = x) (running s))))"

lemma index_of_results [simp]:
  "ir_Index (cancelled_result i err) = i" "ir_Index (item_result i q ds l out) = i"
  by (simp_all add: cancelled_result_def item_result_def empty_result_def Let_def split: sum.splits)

lemma binv_init: "binv idf cands workers n (run_init n)"
  by (simp add: binv_def run_init_def lessThan_def subset_iff)

lemma binv_Skip:
  assumes inv: "binv idf cands workers n s" and p: "pending s = i # rest"
  shows "binv idf cands workers n (s\<lparr>pending := rest, results := (results s)[i := Some (cancelled_result i err)]\<rparr>)"
proof -
  have i: "i < n" "i \<notin> set rest" "i \<notin> fst ` set (running s)"
    using inv p unfolding binv_def by (auto simp: image_iff)
  show ?thesis
    using inv i unfolding binv_def p by (auto simp: nth_list_update split: if_splits)
qed

lemma binv_Start:
  assumes inv: "binv idf cands workers n s" and p: "pending s = i # rest" and w: "length (running s) < workers"
    and c: "cands \<noteq> []" "choose_prov idf cands s = (s', q)"
  shows "binv idf cands workers n (s'\<lparr>pending := rest, running := running s @ [(i, q)]\<rparr>)"
proof -
  have q: "q \<in> set cands" using c choose_best_in [OF c(1)] by (auto simp: choose_prov_def Let_def)
  have s': "s' = s\<lparr>inflight := (inflight s)(idf q := inflight s (idf q) + 1),
      assigned := (assigned s)(idf q := assigned s (idf q) + 1)\<rparr>"
    using c(2) by (auto simp: choose_prov_def Let_def)
  have i: "i < n" "i \<notin> set rest" "i \<notin> fst ` set (running s)"
    using inv p unfolding binv_def by (auto simp: image_iff)
  show ?thesis
    using inv i q w unfolding binv_def p s' by auto
qed

lemma fst_remove1:
  "distinct (map fst xs) \<Longrightarrow> (i, q) \<in> set xs \<Longrightarrow> fst ` set (remove1 (i, q) xs) = fst ` set xs - {i}"
proof (induction xs)
  case (Cons x xs)
  show ?case
  proof (cases "x = (i, q)")
    case True
    then show ?thesis using Cons.prems by (auto simp: image_iff)
  next
    case False
    then have "fst x \<noteq> i" using Cons.prems by (cases x) (auto simp: image_iff)
    then show ?thesis using False Cons by auto
  qed
qed simp

lemma distinct_fst_remove1: "distinct (map fst xs) \<Longrightarrow> distinct (map fst (remove1 x xs))"
proof (induction xs)
  case (Cons y ys)
  have "fst ` set (remove1 x ys) \<subseteq> fst ` set ys" by (intro image_mono set_remove1_subset)
  with Cons show ?case by auto
qed simp

lemma binv_Finish:
  assumes inv: "binv idf cands workers n s" and p: "(i, q) \<in> set (running s)"
  shows "binv idf cands workers n ((release idf q s)\<lparr>running := remove1 (i, q) (running s),
      results := (results s)[i := Some (item_result i (idf q) ds l out)]\<rparr>)"
proof -
  let ?run = "remove1 (i, q) (running s)"
  have d: "distinct (map fst (running s))" "distinct (pending s)" "set (pending s) \<inter> fst ` set (running s) = {}"
    using inv unfolding binv_def by auto
  have fs: "fst ` set ?run = fst ` set (running s) - {i}" by (rule fst_remove1 [OF d(1) p])
  have im: "i \<in> fst ` set (running s)" using p by (metis fst_conv image_eqI)
  have "fst ` set (running s) \<subseteq> {..<n}" using inv unfolding binv_def by simp
  then have i: "i < n" "i \<notin> set (pending s)" using im d(3) by auto
  have dist: "distinct (pending s @ map fst ?run)"
    using d(2,3) distinct_fst_remove1 [OF d(1)] fs unfolding distinct_append set_map by blast
  have "filter P ?run = remove1 (i, q) (filter P (running s))" for P
    by (simp add: filter_remove1)
  then have "length (filter P ?run) = (if P (i, q) then length (filter P (running s)) - 1 else length (filter P (running s)))" for P
    using p by (simp add: length_remove1)
  moreover have "0 < length (filter P (running s))" if "P (i, q)" for P
    using p that by (simp add: filter_empty_conv) blast
  ultimately have infl: "inflight (release idf q s) x = int (length (filter (\<lambda>y. idf (snd y) = x) ?run))" for x
    using inv unfolding binv_def release_def by (simp add: of_nat_diff Suc_leI)
  have res: "(k \<in> set (pending s) \<or> k \<in> fst ` set ?run) \<longleftrightarrow> (results s)[i := Some (item_result i (idf q) ds l out)] ! k = None" if "k < n" for k
    using inv that fs i unfolding binv_def by (cases "k = i") auto
  have len: "length (results s) = n" "length ?run \<le> workers" using inv p unfolding binv_def by (auto simp: length_remove1)
  have sub: "set (pending s) \<subseteq> {..<n}" "fst ` set ?run \<subseteq> {..<n}" "snd ` set ?run \<subseteq> set cands"
  proof -
    have o: "set (pending s) \<subseteq> {..<n}" "fst ` set (running s) \<subseteq> {..<n}" "snd ` set (running s) \<subseteq> set cands"
      using inv unfolding binv_def by simp_all
    show "set (pending s) \<subseteq> {..<n}" by (rule o(1))
    show "fst ` set ?run \<subseteq> {..<n}" "snd ` set ?run \<subseteq> set cands"
      by (rule subset_trans [OF image_mono [OF set_remove1_subset] o(2)], rule subset_trans [OF image_mono [OF set_remove1_subset] o(3)])
  qed
  have ix: "ir_Index r = k" if "k < n" "(results s)[i := Some (item_result i (idf q) ds l out)] ! k = Some r" for k r
    using inv that len i unfolding binv_def by (cases "k = i") auto
  let ?s' = "(release idf q s)\<lparr>running := ?run, results := (results s)[i := Some (item_result i (idf q) ds l out)]\<rparr>"
  have eq: "pending ?s' = pending s" "running ?s' = ?run" "inflight ?s' = inflight (release idf q s)"
    "results ?s' = (results s)[i := Some (item_result i (idf q) ds l out)]"
    by (simp_all add: release_def)
  show ?thesis
    unfolding binv_def eq length_list_update
    by (intro conjI allI impI len dist res sub ix infl) assumption+
qed

lemma bruns_inv: "bruns idf cands workers n k s \<Longrightarrow> cands \<noteq> [] \<Longrightarrow> binv idf cands workers n s"
proof (induction rule: bruns.induct)
  case (Step k s s')
  then have inv: "binv idf cands workers n s" by blast
  from Step.hyps(2) show ?case
    by (cases rule: bstepE) (auto intro: binv_Skip [OF inv] binv_Start [OF inv _ _ Step.prems] binv_Finish [OF inv])
qed (rule binv_init)

lemma bstep_measure:
  "bstep idf cands workers s s' \<Longrightarrow> 2 * length (pending s') + length (running s') < 2 * length (pending s) + length (running s)"
proof (induction rule: bstep.induct)
  case (Finish i p s ds latency out)
  then show ?case using length_pos_if_in_set [of "(i, p)" "running s"]
    by (simp add: length_remove1 release_def)
qed (auto simp: choose_prov_def Let_def)

lemma bruns_bound: "bruns idf cands workers n k s \<Longrightarrow> k + (2 * length (pending s) + length (running s)) \<le> 2 * n"
proof (induction rule: bruns.induct)
  case (Step k s s')
  then show ?case using bstep_measure [of idf cands workers s s'] by simp
qed (simp add: run_init_def)

lemma bstep_progress:
  assumes "0 < workers" "\<not> run_done s"
  shows "\<exists>s'. bstep idf cands workers s s'"
proof (cases "running s")
  case Nil
  with assms obtain i rest where "pending s = i # rest" by (cases "pending s") (auto simp: run_done_def)
  then show ?thesis using bstep.Skip [of s i rest workers] Nil assms(1) by auto
next
  case (Cons x xs)
  then have "(fst x, snd x) \<in> set (running s)" by simp
  from bstep.Finish [OF this] show ?thesis by blast
qed

text \<open>C23: however the workers interleave and whatever the providers answer, a batch of \<open>n\<close> items is
  over after at most \<open>2 n\<close> steps and never stuck before; at every point at most \<open>workers\<close> items
  are out, and when it is over every item has exactly one result, in submission order, and no
  provider is left with an item in flight.\<close>

theorem batch_completes:
  assumes "bruns idf cands workers n k s" "cands \<noteq> []" "0 < workers"
  shows "k \<le> 2 * n \<and> length (running s) \<le> workers \<and>
    (if run_done s then \<exists>rs. results s = map Some rs \<and> length rs = n \<and> (\<forall>i. i < n \<longrightarrow> ir_Index (rs ! i) = i) \<and>
        (\<forall>x. inflight s x = 0)
     else \<exists>s'. bstep idf cands workers s s')"
proof -
  note inv = bruns_inv [OF assms(1,2)]
  have fin: "\<exists>rs. results s = map Some rs \<and> length rs = n \<and> (\<forall>i. i < n \<longrightarrow> ir_Index (rs ! i) = i) \<and> (\<forall>x. inflight s x = 0)"
    if d: "run_done s"
  proof -
    let ?rs = "map the (results s)"
    have r: "length (results s) = n" "\<forall>i < n. results s ! i \<noteq> None" "\<forall>x. inflight s x = 0"
      using inv d unfolding binv_def run_done_def by auto
    have "results s = map Some ?rs" using r by (intro nth_equalityI) auto
    moreover have "ir_Index (?rs ! i) = i" if lt: "i < n" for i
    proof -
      from r(2) lt obtain x where "results s ! i = Some x" by auto
      then show ?thesis using inv lt r(1) unfolding binv_def by auto
    qed
    ultimately show ?thesis using r(1,3) by (intro exI [of _ ?rs]) auto
  qed
  show ?thesis
    using bruns_bound [OF assms(1)] inv fin bstep_progress [OF assms(3), of s idf cands]
    unfolding binv_def by auto
qed

lemma batch_completes_witness:
  "\<exists>s. bruns (\<lambda>_. ''p'') [0] 1 1 0 s \<and> \<not> run_done s \<and> (\<exists>s'. bstep (\<lambda>_. ''p'') [0] 1 s s')"
proof -
  have r: "bruns (\<lambda>_. ''p'') [0] 1 1 0 (run_init 1)" by (rule bruns.Init)
  moreover have "\<not> run_done (run_init 1)" by (simp add: run_done_def run_init_def)
  ultimately show ?thesis using batch_completes [OF r] by auto
qed

subsection \<open>The totals of a summary\<close>

definition ok_results :: "ItemResult list \<Rightarrow> ItemResult list" where
  "ok_results rs = filter (\<lambda>r. ir_ErrCode r = []) rs"

definition wsum :: "int \<Rightarrow> ItemResult list \<Rightarrow> int" where
  "wsum a rs = wrap64 (a + (\<Sum>r\<leftarrow>ok_results rs. CompletionTokens (ir_Usage r)))"

lemma count_one_fields:
  "su_OK (count_one r s) = su_OK s + (if ir_ErrCode r = [] then 1 else 0)"
  "su_Failed (count_one r s) = su_Failed s + (if ir_ErrCode r = [] then 0 else 1)"
  "su_Items (count_one r s) = su_Items s"
  "wsum (su_CompletionTokens (count_one r s)) rs = wsum (su_CompletionTokens s) (r # rs)"
  "dom (su_Providers (count_one r s)) = dom (su_Providers s) \<union> ({ir_ProviderID r} - {[]})"
  by (auto simp: count_one_def Let_def wsum_def ok_results_def add.assoc)

lemma fold_count:
  "su_OK (fold count_one rs s) = su_OK s + int (length (ok_results rs))"
  "su_Failed (fold count_one rs s) = su_Failed s + int (length (filter (\<lambda>r. ir_ErrCode r \<noteq> []) rs))"
  "su_Items (fold count_one rs s) = su_Items s"
  "wsum (su_CompletionTokens (fold count_one rs s)) [] = wsum (su_CompletionTokens s) rs"
  "dom (su_Providers (fold count_one rs s)) = dom (su_Providers s) \<union> (ir_ProviderID ` set rs - {[]})"
  by (induction rs arbitrary: s) (auto simp: count_one_fields ok_results_def simp del: fun_upd_apply)

text \<open>The summary accounts for every item: successes and failures add up to the items, the
  completion total is the sum over the successes, and the fan-out is the number of distinct
  providers that handled an item.\<close>

theorem summary_accounts:
  fixes rs :: "ItemResult list" and w t :: int
  defines "S \<equiv> summarize rs w t"
  shows "su_OK S + su_Failed S = int (length rs) \<and> su_OK S = int (length (ok_results rs)) \<and> su_Items S = rs \<and>
    su_CompletionTokens S mod 2 ^ 64 = (\<Sum>r\<leftarrow>ok_results rs. CompletionTokens (ir_Usage r)) mod 2 ^ 64 \<and>
    Fanout S = card (ir_ProviderID ` set rs - {[]})"
proof -
  let ?z = "\<lparr>su_Items = rs, su_OK = 0, su_Failed = 0, su_Providers = Map.empty, su_PromptTokens = 0,
      su_CompletionTokens = 0, su_Concurrency = w, su_WallMS = t\<rparr>"
  have "length (ok_results rs) + length (filter (\<lambda>r. ir_ErrCode r \<noteq> []) rs) = length rs"
    unfolding ok_results_def by (rule sum_length_filter_compl)
  moreover have "wrap64 (su_CompletionTokens S) = wrap64 (\<Sum>r\<leftarrow>ok_results rs. CompletionTokens (ir_Usage r))"
    using fold_count(4) [of rs ?z] by (simp add: S_def summarize_def wsum_def ok_results_def)
  then have "su_CompletionTokens S mod 2 ^ 64 = (\<Sum>r\<leftarrow>ok_results rs. CompletionTokens (ir_Usage r)) mod 2 ^ 64"
    by (metis wrap64_mod)
  ultimately show ?thesis
    unfolding S_def summarize_def Fanout_def by (simp add: fold_count flip: of_nat_add)
qed

end
