(* ===== verification/Marketplace.thy ===== *)
theory Marketplace
  imports Batch Pricing Store
begin

text \<open>
  Package \<open>marketplace\<close> (coordinator/internal/marketplace/marketplace.go): the volume and time
  estimate of a workload in binary64 arithmetic, and the in-memory store of outstanding quotes.
  Every method of the store holds its mutex, so it is one atomic operation here; the clock
  reading and the random id are arguments. The outcome of a council review, which the api layer
  attaches to a quote, is a type parameter.
\<close>

definition mk_MaxItems :: nat where "mk_MaxItems = 5000"
definition MaxRedundancy :: int where "MaxRedundancy = 3"
definition DefaultCompletionTokens :: int where "DefaultCompletionTokens = 512"
definition ReferenceNodeTPS :: f64 where "ReferenceNodeTPS = Fin 18"
definition SpotSupplyFraction :: f64 where "SpotSupplyFraction = Fin (1 / 2)"
definition SpotMaxConcurrency :: int where "SpotMaxConcurrency = 4"

record Spec =
  sp_Model :: string
  sp_ModelClass :: string
  sp_Tier :: string
  Redundancy :: int
  Spot :: bool
  sp_Items :: "Item list"
  EstimateCount :: int
  AvgPromptTokens :: int
  AvgCompletionTokens :: int

definition service_class :: "Spec \<Rightarrow> string" where
  "service_class s = (if Spot s then ''spot'' else ''on_demand'')"

definition Runnable :: "Spec \<Rightarrow> bool" where "Runnable s = (length (sp_Items s) > 0)"

record Supply =
  Nodes :: int
  AggregateTPS :: f64
  TopACU :: f64

record Estimate =
  es_Items :: int
  es_PromptTokens :: int
  es_CompletionTokens :: int
  es_EligibleNodes :: int
  es_AggregateTPS :: f64
  ETASeconds :: int

subsection \<open>The estimate\<close>

definition round1 :: "f64 \<Rightarrow> f64" where
  "round1 v = math_Round (v * Fin 10) / Fin 10"

definition estPromptTokens :: "ChatMessage list \<Rightarrow> int" where
  "estPromptTokens msgs =
    (let chars = foldl (\<lambda>n m. n + (int (length (Content m)) + int (length (Role m)) + 4)) 0 msgs;
         t = f64_to_int64 (math_Ceil (f64_of_int chars / Fin 4)) in
     if t < 1 then 1 else t)"

definition item_completion :: "Item \<Rightarrow> int" where
  "item_completion it = (let c = MaxTokens (it_Params it) in if c \<le> 0 then DefaultCompletionTokens else c)"

text \<open>(items, prompt, completion)\<close>

definition workload_volume :: "Spec \<Rightarrow> int \<times> int \<times> int" where
  "workload_volume spec =
    (if length (sp_Items spec) > 0 then
       (int (length (sp_Items spec)),
        foldl (\<lambda>a it. wrap64 (a + estPromptTokens (it_Messages it))) 0 (sp_Items spec),
        foldl (\<lambda>a it. wrap64 (a + item_completion it)) 0 (sp_Items spec))
     else (let n = EstimateCount spec;
               p = (if AvgPromptTokens spec < 0 then 0 else AvgPromptTokens spec);
               c = (if AvgCompletionTokens spec \<le> 0 then DefaultCompletionTokens else AvgCompletionTokens spec) in
       (n, wrap64 (n * p), wrap64 (n * c))))"

definition eta_seconds :: "int \<Rightarrow> int \<Rightarrow> int \<Rightarrow> int \<Rightarrow> f64 \<Rightarrow> int \<Rightarrow> int" where
  "eta_seconds prompt completion items red tps nodes =
    (let gen = f64_of_int (wrap64 (completion * red)) / tps;
         prefill = f64_of_int (wrap64 (prompt * red)) / (tps * Fin 8);
         coord = (if nodes > 0 then math_Ceil (f64_of_int items / f64_of_int nodes) * rnd (3 / 100) else 0) in
     wrap64 (f64_to_int64 (gen + prefill + coord) + 1))"

definition EstimateWorkload :: "Spec \<Rightarrow> Supply \<Rightarrow> Estimate" where
  "EstimateWorkload spec supply =
    (let red = (if Redundancy spec < 1 then 1 else Redundancy spec) in
     case workload_volume spec of (items, prompt, completion) \<Rightarrow>
       (let tps = (if AggregateTPS supply < 1 then 1 else AggregateTPS supply) in
        \<lparr>es_Items = items, es_PromptTokens = prompt, es_CompletionTokens = completion,
         es_EligibleNodes = Nodes supply, es_AggregateTPS = round1 tps,
         ETASeconds = eta_seconds prompt completion items red tps (Nodes supply)\<rparr>))"

definition NormalizeTier :: "string \<Rightarrow> string" where
  "NormalizeTier t = (let t = to_lower (trim_space t) in if t = [] then ''community'' else t)"

subsection \<open>The quote store\<close>

record 'c WorkloadQuote =
  wq_ID :: string
  wq_KeyID :: string
  wq_Model :: string
  wq_Spec :: Spec
  wq_Estimate :: Estimate
  wq_Cost :: WorkloadCost
  wq_Council :: "'c option"
  wq_CreatedAt :: int
  wq_ExpiresAt :: int
  Accepted :: bool
  AcceptedAt :: int

definition Expired :: "'c WorkloadQuote \<Rightarrow> int \<Rightarrow> bool" where
  "Expired q now = (now > wq_ExpiresAt q)"

record 'c QuoteStore =
  qm :: "string \<rightharpoonup> 'c WorkloadQuote"
  qs_ttl :: int
  qs_max :: nat

definition NewQuoteStore :: "int \<Rightarrow> 'c QuoteStore" where
  "NewQuoteStore ttl = \<lparr>qm = Map.empty, qs_ttl = (if ttl \<le> 0 then 10 * 60 * 1000000000 else ttl), qs_max = 2048\<rparr>"

definition randID :: "string \<Rightarrow> string" where "randID b9 = hex_encode b9"

definition gcLocked :: "int \<Rightarrow> (string \<rightharpoonup> 'c WorkloadQuote) \<Rightarrow> string \<rightharpoonup> 'c WorkloadQuote" where
  "gcLocked now m = (\<lambda>i. case m i of None \<Rightarrow> None | Some q \<Rightarrow> if Expired q now then None else Some q)"

text \<open>The scan for the oldest entry, over the map in some order.\<close>

fun oldest_loop :: "(string \<rightharpoonup> 'c WorkloadQuote) \<Rightarrow> string list \<Rightarrow> string \<times> int \<Rightarrow> string" where
  "oldest_loop m [] acc = fst acc"
| "oldest_loop m (i # is) (oldest, oldestAt) =
    (let t = wq_CreatedAt (the (m i)) in
     oldest_loop m is (if oldest = [] \<or> t < oldestAt then (i, t) else (oldest, oldestAt)))"

definition Create :: "string list \<Rightarrow> int \<Rightarrow> string \<Rightarrow> string \<Rightarrow> string \<Rightarrow> Spec \<Rightarrow> Estimate \<Rightarrow> WorkloadCost \<Rightarrow>
    'c QuoteStore \<Rightarrow> 'c QuoteStore \<times> 'c WorkloadQuote" where
  "Create order now b9 keyOwner model spec est cost s =
    (let q = \<lparr>wq_ID = ''wl_'' @ randID b9, wq_KeyID = keyOwner, wq_Model = model, wq_Spec = spec, wq_Estimate = est,
           wq_Cost = cost, wq_Council = None, wq_CreatedAt = now, wq_ExpiresAt = now + qs_ttl s,
           Accepted = False, AcceptedAt = 0\<rparr>;
         m = gcLocked now (qm s);
         m = (if card (dom m) \<ge> qs_max s then m(oldest_loop m order ([], 0) := None) else m) in
     (s\<lparr>qm := m(wq_ID q \<mapsto> q)\<rparr>, q))"

definition Get_quote :: "int \<Rightarrow> string \<Rightarrow> 'c QuoteStore \<Rightarrow> 'c WorkloadQuote option" where
  "Get_quote now i s = (case qm s i of None \<Rightarrow> None | Some q \<Rightarrow> if Expired q now then None else Some q)"

text \<open>Two clock readings: the expiry check and the stamp.\<close>

definition MarkAccepted :: "int \<Rightarrow> int \<Rightarrow> string \<Rightarrow> 'c QuoteStore \<Rightarrow> 'c QuoteStore \<times> 'c WorkloadQuote option" where
  "MarkAccepted now now' i s = (case qm s i of
     None \<Rightarrow> (s, None)
   | Some q \<Rightarrow> if Expired q now \<or> Accepted q then (s, None)
       else (let q' = q\<lparr>Accepted := True, AcceptedAt := now'\<rparr> in (s\<lparr>qm := (qm s)(i \<mapsto> q')\<rparr>, Some q')))"

subsection \<open>The estimate is positive\<close>

lemma go_fold_nonneg: "0 \<le> a \<Longrightarrow> 0 \<le> foldl (\<lambda>n m. n + (int (length (Content m)) + int (length (Role m)) + 4)) a msgs"
  by (induction msgs arbitrary: a) auto

lemma estPromptTokens_pos: "1 \<le> estPromptTokens msgs"
  by (simp add: estPromptTokens_def Let_def)

lemma fin_ge_one:
  assumes "1 \<le> t" "t \<le> 2 ^ 100"
  shows "\<exists>d. Fin t * Fin 8 = Fin d \<and> 1 \<le> d"
proof -
  have "Fin t * Fin 8 = Fin (rr (t * 8))"
    using assms rnd_Fin [of "t * 8"] by (simp add: times_f64_def)
  moreover have "rr 8 \<le> rr (t * 8)" using assms by (intro rr_mono) auto
  moreover have "rr 8 = 8" using rr_of_int [of 8] by simp
  ultimately show ?thesis by (intro exI [of _ "rr (t * 8)"]) simp
qed

lemma ceil_in:
  assumes "f64_in k x"
  shows "f64_in k (math_Ceil x)"
proof -
  obtain q where q: "x = Fin q" "0 \<le> q" "q \<le> 2 ^ k" using assms by (rule f64_inE)
  have "\<lceil>q\<rceil> \<le> 2 ^ k" using q(3) by (simp add: ceiling_le_iff)
  then have "(of_int \<lceil>q\<rceil> :: rat) \<le> 2 ^ k" by (metis of_int_le_iff of_int_numeral of_int_power)
  moreover have "0 \<le> \<lceil>q\<rceil>" using q(2) by (metis ceiling_mono ceiling_zero)
  ultimately show ?thesis using q(1) by simp
qed

lemma eta_bounds:
  assumes "0 \<le> prompt * red" "prompt * red \<le> 2 ^ 50" "0 \<le> completion * red" "completion * red \<le> 2 ^ 50"
    and "0 \<le> items" "items \<le> 2 ^ 40" "nodes \<le> 2 ^ 40" "1 \<le> t" "t \<le> 2 ^ 100"
  shows "1 \<le> eta_seconds prompt completion items red (Fin t) nodes"
proof -
  have i: "is_int64 (prompt * red)" "is_int64 (completion * red)" using assms(1-4) by (auto simp: is_int64_def)
  obtain d where d: "Fin t * Fin 8 = Fin d" "1 \<le> d" using fin_ge_one [OF assms(8,9)] by blast
  have g: "f64_in 50 (f64_of_int (completion * red) / Fin t)" "f64_in 50 (f64_of_int (prompt * red) / Fin d)"
    using assms d by (auto intro!: f64_in_div f64_in_of_int)
  have c: "f64_in 51 (if nodes > 0 then math_Ceil (f64_of_int items / f64_of_int nodes) * rnd (3 / 100) else 0)"
  proof (cases "nodes > 0")
    case True
    have "f64_of_int nodes = Fin (of_int nodes)" using True assms(7) by (intro f64_of_int_exact) auto
    then have "f64_in 40 (f64_of_int items / f64_of_int nodes)"
      using True assms by (auto intro!: f64_in_div f64_in_of_int)
    moreover have "f64_in 0 (rnd (3 / 100))" by (rule f64_in_rnd) simp_all
    ultimately have "f64_in (40 + 0) (math_Ceil (f64_of_int items / f64_of_int nodes) * rnd (3 / 100))"
      by (intro f64_in_mult ceil_in) simp_all
    then show ?thesis using True by (auto intro: f64_in_mono)
  qed (simp add: zero_f64_def)
  have s: "f64_in (Suc 51) (f64_of_int (completion * red) / Fin t + f64_of_int (prompt * red) / Fin d +
      (if nodes > 0 then math_Ceil (f64_of_int items / f64_of_int nodes) * rnd (3 / 100) else 0))"
    using f64_in_add [OF g(1) g(2)] c by (intro f64_in_add) simp_all
  then obtain q where q: "f64_of_int (completion * red) / Fin t + f64_of_int (prompt * red) / Fin d +
      (if nodes > 0 then math_Ceil (f64_of_int items / f64_of_int nodes) * rnd (3 / 100) else 0) = Fin q"
    "0 \<le> q" "q \<le> 2 ^ 52" by (rule f64_inE) simp_all
  have tr: "f64_to_int64 (Fin q) = trunc q" "0 \<le> trunc q" "trunc q \<le> 2 ^ 52"
    using f64_to_int64_Fin [OF q(2), of "2 ^ 52"] trunc_nonneg [OF q(2)] trunc_le [OF q(2), of "2 ^ 52"] q(3) by simp_all
  then have "is_int64 (trunc q + 1)" by (simp add: is_int64_def)
  then show ?thesis
    unfolding eta_seconds_def Let_def wrap64_id [OF i(1)] wrap64_id [OF i(2)] d(1) q(1) tr(1) using tr(2) by simp
qed

text \<open>For every workload the api admits (at most 5,000 items, up to three runs of each, volumes below
  \<open>2^48\<close>) the estimate keeps its floor: the quote never promises less than one second, whatever
  the measured supply, with no overflow on the way.\<close>

lemma ETA_positive:
  assumes "workload_volume spec = (items, prompt, completion)" "Redundancy spec \<le> MaxRedundancy"
    and "0 \<le> prompt" "prompt \<le> 2 ^ 48" "0 \<le> completion" "completion \<le> 2 ^ 48" "0 \<le> items" "items \<le> 2 ^ 40"
    and "AggregateTPS supply = Fin t" "t \<le> 2 ^ 100" "Nodes supply \<le> 2 ^ 40"
  shows "1 \<le> ETASeconds (EstimateWorkload spec supply)"
proof -
  let ?red = "if Redundancy spec < 1 then 1 else Redundancy spec"
  have red: "1 \<le> ?red" "?red \<le> 3" using assms(2) by (auto simp: MaxRedundancy_def)
  have mult: "0 \<le> x * ?red \<and> x * ?red \<le> 2 ^ 50" if "0 \<le> x" "x \<le> 2 ^ 48" for x
  proof -
    have "x * ?red \<le> 2 ^ 48 * 3" using red that by (intro mult_mono) auto
    then show ?thesis using red that by simp
  qed
  obtain u where u: "(if AggregateTPS supply < 1 then 1 else AggregateTPS supply) = Fin u" "1 \<le> u" "u \<le> 2 ^ 100"
  proof (cases "t < 1")
    case True
    then show ?thesis using that [of 1] assms(9) by (simp add: less_f64_def one_f64_def)
  next
    case False
    then show ?thesis using that [of t] assms(9,10) by (simp add: less_f64_def one_f64_def)
  qed
  have "1 \<le> eta_seconds prompt completion items ?red (Fin u) (Nodes supply)"
    by (rule eta_bounds) (use mult [OF assms(3,4)] mult [OF assms(5,6)] assms(7,8,11) u in auto)
  then show ?thesis by (simp add: EstimateWorkload_def assms(1) Let_def u(1))
qed

definition sample_spec :: Spec where
  "sample_spec = \<lparr>sp_Model = ''m'', sp_ModelClass = ''MICRO'', sp_Tier = ''community'', Redundancy = 2, Spot = False,
     sp_Items = [], EstimateCount = 100, AvgPromptTokens = 50, AvgCompletionTokens = 0\<rparr>"

lemma ETA_positive_witness:
  "1 \<le> ETASeconds (EstimateWorkload sample_spec \<lparr>Nodes = 3, AggregateTPS = Fin 0, TopACU = Fin 1\<rparr>)"
  by (rule ETA_positive [of sample_spec 100 5000 51200 _ 0])
    (simp_all add: workload_volume_def sample_spec_def MaxRedundancy_def DefaultCompletionTokens_def is_int64_def)

subsection \<open>A quote is accepted once\<close>

datatype 'c quote_op = QCreate string string string Spec Estimate WorkloadCost | QGet string | QAccept string
  | QReview string 'c

text \<open>One request against the store at a time \<open>now\<close>; the flag says whether it accepted a quote.
  \<open>ordf\<close> gives the iteration order of a map.\<close>

fun quote_step :: "((string \<rightharpoonup> 'c WorkloadQuote) \<Rightarrow> string list) \<Rightarrow> int \<times> 'c quote_op \<Rightarrow> 'c QuoteStore \<Rightarrow>
    'c QuoteStore \<times> bool" where
  "quote_step ordf (now, QCreate b9 k m sp e c) s = (fst (Create (ordf (gcLocked now (qm s))) now b9 k m sp e c s), False)"
| "quote_step ordf (now, QGet i) s = (s, False)"
| "quote_step ordf (now, QAccept i) s = (case MarkAccepted now now i s of (s', r) \<Rightarrow> (s', r \<noteq> None))"
| "quote_step ordf (now, QReview i c) s = (case qm s i of None \<Rightarrow> (s, False)
     | Some q \<Rightarrow> (s\<lparr>qm := (qm s)(i \<mapsto> q\<lparr>wq_Council := Some c\<rparr>)\<rparr>, False))"

fun accept_count :: "((string \<rightharpoonup> 'c WorkloadQuote) \<Rightarrow> string list) \<Rightarrow> string \<Rightarrow> (int \<times> 'c quote_op) list \<Rightarrow> 'c QuoteStore \<Rightarrow> nat" where
  "accept_count ordf i [] s = 0"
| "accept_count ordf i (op # ops) s = (case quote_step ordf op s of (s', ok) \<Rightarrow>
     (if ok \<and> snd op = QAccept i then 1 else 0) + accept_count ordf i ops s')"

fun quote_run :: "((string \<rightharpoonup> 'c WorkloadQuote) \<Rightarrow> string list) \<Rightarrow> (int \<times> 'c quote_op) list \<Rightarrow> 'c QuoteStore \<Rightarrow> 'c QuoteStore" where
  "quote_run ordf [] s = s"
| "quote_run ordf (op # ops) s = quote_run ordf ops (fst (quote_step ordf op s))"

definition creates :: "string \<Rightarrow> int \<times> 'c quote_op \<Rightarrow> bool" where
  "creates i op = (case snd op of QCreate b9 _ _ _ _ _ \<Rightarrow> ''wl_'' @ randID b9 = i | _ \<Rightarrow> False)"

definition create_count :: "string \<Rightarrow> (int \<times> 'c quote_op) list \<Rightarrow> nat" where
  "create_count i ops = length (filter (creates i) ops)"

definition open_quote :: "string \<Rightarrow> 'c QuoteStore \<Rightarrow> nat" where
  "open_quote i s = (case qm s i of None \<Rightarrow> 0 | Some q \<Rightarrow> if Accepted q then 0 else 1)"

lemma gc_open: "(case gcLocked now m i of None \<Rightarrow> 0 | Some q \<Rightarrow> if Accepted q then 0 else 1) \<le>
    (case m i of None \<Rightarrow> 0 | Some q \<Rightarrow> if Accepted q then 0 else (1 :: nat))"
  by (auto simp: gcLocked_def split: option.splits)

lemma quote_step_open:
  "(if snd (quote_step ordf op s) \<and> snd op = QAccept i then 1 else 0) + open_quote i (fst (quote_step ordf op s))
    \<le> open_quote i s + (if creates i op then 1 else 0)"
proof (cases op)
  case (Pair now req)
  show ?thesis
  proof (cases req)
    case (QCreate b9 k m sp e c)
    let ?id = "''wl_'' @ randID b9"
    have "open_quote i (fst (quote_step ordf op s)) \<le> (if i = ?id then 1 else open_quote i s)"
      using gc_open [of now "qm s" i]
      by (auto simp: Pair QCreate Create_def Let_def open_quote_def)
    then show ?thesis by (auto simp: Pair QCreate creates_def)
  next
    case (QAccept j)
    then show ?thesis
      by (cases "qm s j") (auto simp: Pair MarkAccepted_def open_quote_def creates_def Let_def)
  next
    case (QReview j c)
    then show ?thesis
      by (cases "qm s j") (auto simp: Pair open_quote_def creates_def)
  qed (auto simp: Pair creates_def)
qed

lemma accept_count_bound: "accept_count ordf i ops s \<le> open_quote i s + create_count i ops"
proof (induction ops arbitrary: s)
  case (Cons op ops)
  have "accept_count ordf i ops (fst (quote_step ordf op s)) \<le> open_quote i (fst (quote_step ordf op s)) + create_count i ops"
    by (rule Cons.IH)
  then show ?case
    using quote_step_open [of ordf op s i] by (cases "quote_step ordf op s") (auto simp: create_count_def)
qed simp

lemma oldest_in: "oldest_loop m is (x, t) \<in> insert x (set is)"
proof (induction "is" arbitrary: x t)
  case (Cons i "is")
  show ?case using Cons.IH [of i "wq_CreatedAt (the (m i))"] Cons.IH [of x t] by (auto simp: Let_def)
qed simp

lemma oldest_in_nonempty: "is \<noteq> [] \<Longrightarrow> [] \<notin> set is \<Longrightarrow> oldest_loop m is ([], t) \<in> set is"
  using oldest_in [of m "tl is" "hd is" "wq_CreatedAt (the (m (hd is)))"] by (cases "is") (auto simp: Let_def)

definition store_ok :: "'c QuoteStore \<Rightarrow> bool" where
  "store_ok s \<longleftrightarrow> finite (dom (qm s)) \<and> card (dom (qm s)) \<le> qs_max s \<and> 0 < qs_max s \<and> [] \<notin> dom (qm s)"

lemma store_ok_Create:
  assumes "store_ok s" "iter_order (gcLocked now (qm s)) order"
  shows "store_ok (fst (Create order now b9 k m sp e c s))"
proof -
  let ?g = "gcLocked now (qm s)"
  have sub: "dom ?g \<subseteq> dom (qm s)" by (auto simp: gcLocked_def split: option.splits if_splits)
  then have fin: "finite (dom ?g)" "[] \<notin> dom ?g" "card (dom ?g) \<le> qs_max s"
    using assms(1) card_mono [OF _ sub] unfolding store_ok_def by (auto intro: finite_subset order_trans)
  let ?m = "if card (dom ?g) \<ge> qs_max s then ?g(oldest_loop ?g order ([], 0) := None) else ?g"
  have m: "finite (dom ?m)" "card (dom ?m) < qs_max s" "[] \<notin> dom ?m"
  proof -
    show "finite (dom ?m)" "[] \<notin> dom ?m" using fin by auto
    show "card (dom ?m) < qs_max s"
    proof (cases "card (dom ?g) \<ge> qs_max s")
      case True
      then have "dom ?g \<noteq> {}" using assms(1) by (auto simp: store_ok_def)
      then have "oldest_loop ?g order ([], 0) \<in> dom ?g"
        using oldest_in_nonempty [of order ?g 0] assms(2) fin(2) unfolding iter_order_def by (metis list.set(1))
      then have "card (dom ?g - {oldest_loop ?g order ([], 0)}) < card (dom ?g)" using fin(1) by (rule card_Diff1_less [rotated])
      then show ?thesis using True fin(3) by simp
    qed simp
  qed
  have "card (insert x (dom ?m)) \<le> qs_max s" for x using m by (simp add: card_insert_if)
  then show ?thesis
    using m assms(1) by (auto simp: store_ok_def Create_def Let_def)
qed

lemma store_ok_step:
  assumes "store_ok s" "\<And>m. finite (dom m) \<Longrightarrow> iter_order m (ordf m)"
  shows "store_ok (fst (quote_step ordf op s))"
proof (cases op)
  case (Pair now req)
  have dom_upd: "store_ok (s\<lparr>qm := (qm s)(j \<mapsto> q)\<rparr>)" if "qm s j = Some p" for j p q
  proof -
    have "dom ((qm s)(j \<mapsto> q)) = dom (qm s)" using that by auto
    then show ?thesis using assms(1) unfolding store_ok_def by simp
  qed
  show ?thesis
  proof (cases req)
    case (QCreate b9 k m sp e c)
    have "finite (dom (gcLocked now (qm s)))"
      using assms(1) unfolding store_ok_def
      by (auto intro: finite_subset [of _ "dom (qm s)"] simp: gcLocked_def split: option.splits if_splits)
    then show ?thesis using store_ok_Create [OF assms(1) assms(2)] by (simp add: Pair QCreate)
  next
    case (QAccept j)
    then show ?thesis using assms(1) dom_upd by (cases "qm s j") (auto simp: Pair MarkAccepted_def Let_def)
  next
    case (QReview j c)
    then show ?thesis using assms(1) dom_upd by (cases "qm s j") (auto simp: Pair)
  qed (use assms(1) in \<open>simp add: Pair\<close>)
qed

lemma store_ok_run:
  "store_ok s \<Longrightarrow> (\<And>m. finite (dom m) \<Longrightarrow> iter_order m (ordf m)) \<Longrightarrow> store_ok (quote_run ordf ops s)"
  by (induction ops arbitrary: s) (auto intro: store_ok_step)

lemma quote_step_max: "qs_max (fst (quote_step ordf op s)) = qs_max s"
  by (cases "(ordf, op, s)" rule: quote_step.cases)
    (auto simp: Create_def MarkAccepted_def Let_def split: option.splits)

lemma quote_run_max: "qs_max (quote_run ordf ops s) = qs_max s"
  by (induction ops arbitrary: s) (auto simp: quote_step_max)

text \<open>C13: over any sequence of requests and clock readings a quote is accepted at most once for each
  time it was created (ids are nine random bytes, so once), and the store never holds more than
  2,048 quotes.\<close>

theorem quote_accepted_once:
  assumes "\<And>m :: string \<rightharpoonup> 'c WorkloadQuote. finite (dom m) \<Longrightarrow> iter_order m (ordf m)"
  shows "accept_count ordf i ops (NewQuoteStore ttl) \<le> create_count i ops \<and>
    card (dom (qm (quote_run ordf ops (NewQuoteStore ttl)))) \<le> 2048"
proof -
  have "store_ok (NewQuoteStore ttl :: 'c QuoteStore)" by (simp add: store_ok_def NewQuoteStore_def)
  then have "store_ok (quote_run ordf ops (NewQuoteStore ttl))" using store_ok_run assms by blast
  then have "card (dom (qm (quote_run ordf ops (NewQuoteStore ttl)))) \<le> 2048"
    unfolding store_ok_def quote_run_max by (simp add: NewQuoteStore_def)
  then show ?thesis
    using accept_count_bound [of ordf i ops "NewQuoteStore ttl"] by (simp add: open_quote_def NewQuoteStore_def)
qed

lemma quote_accepted_once_witness:
  "\<exists>ordf. accept_count ordf ''wl_'' [(5, QCreate [] ''k'' ''m'' sample_spec
      (EstimateWorkload sample_spec \<lparr>Nodes = 1, AggregateTPS = 1, TopACU = 1\<rparr>) (QuoteWorkload ''MICRO'' [] 1 1 1 0 1)),
      (6, QAccept ''wl_''), (7, QAccept ''wl_'' :: nat quote_op)] (NewQuoteStore 100) \<le> 1"
proof -
  define ordf where "ordf = (\<lambda>m :: string \<rightharpoonup> nat WorkloadQuote. SOME ks. iter_order m ks)"
  have "iter_order m (ordf m)" if "finite (dom m)" for m
  proof -
    have "\<exists>ks. iter_order m ks" using finite_distinct_list [OF that] by (auto simp: iter_order_def)
    then show ?thesis unfolding ordf_def by (rule someI_ex)
  qed
  then have o: "\<And>m. finite (dom m) \<Longrightarrow> iter_order m (ordf m)" .
  show ?thesis
    using quote_accepted_once [OF o, of "''wl_''" "[(5, QCreate [] ''k'' ''m'' sample_spec
      (EstimateWorkload sample_spec \<lparr>Nodes = 1, AggregateTPS = 1, TopACU = 1\<rparr>) (QuoteWorkload ''MICRO'' [] 1 1 1 0 1)),
      (6, QAccept ''wl_''), (7, QAccept ''wl_'' :: nat quote_op)]" 100]
    by (intro exI [of _ ordf]) (simp add: create_count_def creates_def randID_def hex_encode_def)
qed

end
