(* ===== verification/Council.thy ===== *)
theory Council
  imports Codec Wire Marketplace
begin

text \<open>
  Package \<open>council\<close> (coordinator/internal/council/council.go, evaluate.go, persist.go): the review of a
  workload from structured facts by a panel of reviewers under a fixed policy, the reviewers
  that run in process, the parsing of a model's answer, the public hash-chained ledger of
  decisions and the post-run review. SHA-256, the text of a JSON number, the parser of JSON text,
  the model call, the clock, the order in which Go visits a map and the embedded constitution
  and demo ledger texts are arguments.
\<close>

datatype Verdict = Approve | Conditional | Block

datatype Severity = LowSev | MediumSev | HighSev | CriticalSev

fun verdict_str :: "Verdict \<Rightarrow> string" where
  "verdict_str Approve = ''APPROVE''" | "verdict_str Conditional = ''CONDITIONAL''" | "verdict_str Block = ''BLOCK''"

fun severity_str :: "Severity \<Rightarrow> string" where
  "severity_str LowSev = ''LOW''" | "severity_str MediumSev = ''MEDIUM''" | "severity_str HighSev = ''HIGH''"
| "severity_str CriticalSev = ''CRITICAL''"

definition RiskNormal :: string where "RiskNormal = ''normal''"
definition RiskHigh :: string where "RiskHigh = ''high''"
definition RiskCritical :: string where "RiskCritical = ''security_critical''"

text \<open>The dynamic types a fact may have.\<close>

datatype fact = FInt int | FInt64 int | FFloat f64 | FStr string | FBool bool | FNumber "int option"

record ReviewProposal =
  prop_ID :: string
  prop_Title :: string
  prop_RiskClass :: string
  Facts :: "string \<rightharpoonup> fact"
  SourceDigest :: string

record Review =
  rv_Seat :: string
  rv_Role :: string
  rv_Decision :: Verdict
  rv_Severity :: Severity
  Confidence :: f64
  AttackScenarios :: "string list"
  RequiredControls :: "string list"
  rv_Note :: string

record Outcome =
  oc_ProposalID :: string
  oc_RiskClass :: string
  oc_Decision :: Verdict
  oc_Reviews :: "Review list"
  oc_RequiredControls :: "string list"
  Dissent :: "Review list"
  Missing :: "string list"
  AuditHash :: string
  EvaluatedAt :: int

definition Acceptable :: "Outcome option \<Rightarrow> bool" where
  "Acceptable o1 = (case o1 of None \<Rightarrow> False | Some x \<Rightarrow> oc_Decision x \<noteq> Block)"

text \<open>A reviewer: seat, role, and its answer to a proposal (\<open>None\<close> is an error).\<close>

record Reviewer =
  seat :: string
  role :: string
  review :: "ReviewProposal \<Rightarrow> Review option"

record Policy =
  Normal :: int
  High :: int
  Critical :: int
  CriticalBlocks :: int
  HighBlocks :: int

definition DefaultPolicy :: Policy where
  "DefaultPolicy = \<lparr>Normal = 3, High = 5, Critical = 10, CriticalBlocks = 2, HighBlocks = 2\<rparr>"

definition policy_count :: "Policy \<Rightarrow> string \<Rightarrow> int" where
  "policy_count p risk = (if risk = RiskCritical then Critical p else if risk = RiskHigh then High p else Normal p)"

subsection \<open>Canonical JSON and hashes\<close>

definition html_esc :: "char \<Rightarrow> string" where
  "html_esc c = (let n = of_char c :: nat in
     if n = 60 \<or> n = 62 \<or> n = 38 then CHR 0x5C # ''u00'' @ [hexd (n div 16), hexd (n mod 16)] else json_esc c)"

definition json_string :: "string \<Rightarrow> string" where
  "json_string s = CHR 0x22 # json_text html_esc s @ [CHR 0x22]"

fun join :: "string \<Rightarrow> string list \<Rightarrow> string" where
  "join sep [] = []"
| "join sep [x] = x"
| "join sep (x # y # r) = x @ sep @ join sep (y # r)"

fun compact_json :: "(rat \<Rightarrow> string) \<Rightarrow> json \<Rightarrow> string" where
  "compact_json num JNull = ''null''"
| "compact_json num (JBool b) = (if b then ''true'' else ''false'')"
| "compact_json num (JNum q) = num q"
| "compact_json num (JStr s) = json_string s"
| "compact_json num (JArr vs) = ''['' @ join '','' (map (compact_json num) vs) @ '']''"
| "compact_json num (JObj m) = ''{'' @ join '','' (map (\<lambda>kv. json_string (fst kv) @ '':'' @ snd kv)
     (sort_by (\<lambda>a b. str_less (fst a) (fst b)) (map (\<lambda>kv. (fst kv, compact_json num (snd kv))) m))) @ ''}''"

record hash_env =
  he_sha256 :: "string \<Rightarrow> string"
  he_num :: "rat \<Rightarrow> string"

text \<open>The value is marshalled, read back and marshalled again with its keys sorted.\<close>

definition recordHash :: "hash_env \<Rightarrow> json \<Rightarrow> string" where
  "recordHash e v = hex_encode (he_sha256 e (compact_json (he_num e) (clean_json v)))"

definition shortHash :: "hash_env \<Rightarrow> string \<Rightarrow> string" where
  "shortHash e s = take 12 (hex_encode (he_sha256 e s))"

definition jint_val :: "int \<Rightarrow> json" where "jint_val i = JNum (of_int i)"

text \<open>A nil slice is null, an empty one is [].\<close>

definition jstrs :: "string list \<Rightarrow> json" where "jstrs xs = JArr (map JStr xs)"
definition jstrs_nil :: "string list \<Rightarrow> json" where "jstrs_nil xs = (if xs = [] then JNull else jstrs xs)"

subsection \<open>Evaluation\<close>

definition rank_less :: "hash_env \<Rightarrow> string \<Rightarrow> Reviewer \<Rightarrow> Reviewer \<Rightarrow> bool" where
  "rank_less e i a b = (let seed = he_sha256 e i in
     str_less (he_sha256 e (seed @ seat a)) (he_sha256 e (seed @ seat b)))"

definition select :: "hash_env \<Rightarrow> Policy \<Rightarrow> ReviewProposal \<Rightarrow> Reviewer list \<Rightarrow> Reviewer list" where
  "select e pol p reviewers = (let want = policy_count pol (prop_RiskClass p);
       want = (if want > int (length reviewers) then int (length reviewers) else want) in
     take (nat want) (sort_by (rank_less e (prop_ID p)) reviewers))"

text \<open>One pass over the panel; a reviewer's empty decision does not occur, the type has none.\<close>

fun collect :: "ReviewProposal \<Rightarrow> Reviewer list \<Rightarrow> Review list \<times> string list" where
  "collect p [] = ([], [])"
| "collect p (rv # rs) = (case collect p rs of (reviews, missing) \<Rightarrow>
     (case review rv p of
        None \<Rightarrow> (reviews, seat rv # missing)
      | Some out \<Rightarrow> (out\<lparr>rv_Seat := seat rv, rv_Role := role rv\<rparr> # reviews, missing)))"

definition critical_block :: "Review \<Rightarrow> bool" where
  "critical_block r = (rv_Decision r = Block \<and> rv_Severity r = CriticalSev)"

definition high_block :: "Review \<Rightarrow> bool" where
  "high_block r = (rv_Decision r = Block \<and> (rv_Severity r = HighSev \<or> rv_Severity r = CriticalSev))"

definition count_reviews :: "(Review \<Rightarrow> bool) \<Rightarrow> Review list \<Rightarrow> int" where
  "count_reviews P rs = foldl (\<lambda>n r. if P r then n + 1 else n) 0 rs"

definition decide :: "Policy \<Rightarrow> Review list \<Rightarrow> string list \<Rightarrow> Verdict" where
  "decide pol reviews missing =
    (if length missing > 0 then Block
     else if count_reviews critical_block reviews \<ge> CriticalBlocks pol then Block
     else if count_reviews high_block reviews \<ge> HighBlocks pol then Block
     else if list_ex (\<lambda>r. rv_Decision r \<noteq> Approve) reviews then Conditional else Approve)"

definition controls :: "Review list \<Rightarrow> string list" where
  "controls reviews = sort_by str_less (remdups (concat (map RequiredControls reviews)))"

text \<open>The plurality is found by a range over the map of counts, in the order \<open>order\<close>.\<close>

definition votes_for :: "Review list \<Rightarrow> Verdict \<Rightarrow> int" where
  "votes_for reviews d = count_reviews (\<lambda>r. rv_Decision r = d) reviews"

definition plurality :: "Verdict list \<Rightarrow> Review list \<Rightarrow> Verdict" where
  "plurality order reviews = foldl (\<lambda>p d. if votes_for reviews d > votes_for reviews p then d else p) Approve order"

definition Evaluate :: "hash_env \<Rightarrow> Verdict list \<Rightarrow> int \<Rightarrow> Policy \<Rightarrow> Reviewer list \<Rightarrow> ReviewProposal \<Rightarrow> Outcome" where
  "Evaluate e order now pol reviewers p = (let selected = select e pol p reviewers in
     case collect p selected of (reviews, missing) \<Rightarrow>
       (let decision = decide pol reviews missing;
            ctl = controls reviews;
            dis = filter (\<lambda>r. rv_Decision r \<noteq> plurality order reviews) reviews in
        \<lparr>oc_ProposalID = prop_ID p, oc_RiskClass = prop_RiskClass p, oc_Decision = decision, oc_Reviews = reviews,
         oc_RequiredControls = ctl, Dissent = dis, Missing = missing,
         AuditHash = recordHash e (JObj [(''proposal_id'', JStr (prop_ID p)), (''source_digest'', JStr (SourceDigest p)),
           (''risk_class'', JStr (prop_RiskClass p)), (''decision'', JStr (verdict_str decision)),
           (''selected'', jstrs (map seat selected)), (''missing'', jstrs_nil missing),
           (''required_controls'', jstrs ctl)]),
         EvaluatedAt = now\<rparr>))"

subsection \<open>The workload proposal\<close>

definition ForWorkload :: "hash_env \<Rightarrow> (f64 \<Rightarrow> json) \<Rightarrow> int \<Rightarrow> string \<Rightarrow> string \<Rightarrow> string \<Rightarrow> int \<Rightarrow> int \<Rightarrow> int \<Rightarrow> int \<Rightarrow> bool \<Rightarrow>
    f64 \<Rightarrow> int \<Rightarrow> ReviewProposal" where
  "ForWorkload e jfloat now model modelClass tier items promptTok complTok redundancy spot priceUSD etaSec =
    (let risk = (if items > 2000 \<or> redundancy \<ge> 3 \<or> modelClass = [] then RiskHigh else RiskNormal) in
     \<lparr>prop_ID = ''wl-review-'' @ shortHash e (model @ ''|'' @ int_str items @ ''|'' @ int_str complTok @ ''|'' @ int_str now),
      prop_Title = ''Workload: '' @ int_str items @ [CHR 0xC3, CHR 0x97, CHR '' ''] @ model @ '' inference ('' @ tier @ '' tier)'',
      prop_RiskClass = risk,
      Facts = [''model'' \<mapsto> FStr model, ''model_class'' \<mapsto> FStr modelClass, ''tier'' \<mapsto> FStr tier,
        ''items'' \<mapsto> FInt items, ''prompt_tokens'' \<mapsto> FInt64 promptTok, ''completion_tokens'' \<mapsto> FInt64 complTok,
        ''redundancy'' \<mapsto> FInt redundancy, ''spot'' \<mapsto> FBool spot, ''price_usd'' \<mapsto> FFloat priceUSD,
        ''eta_seconds'' \<mapsto> FInt64 etaSec],
      SourceDigest = recordHash e (JObj [(''model'', JStr model), (''model_class'', JStr modelClass), (''tier'', JStr tier),
        (''items'', jint_val items), (''prompt_tokens'', jint_val promptTok), (''completion_tokens'', jint_val complTok),
        (''redundancy'', jint_val redundancy), (''spot'', JBool spot), (''price_usd'', jfloat priceUSD),
        (''eta_seconds'', jint_val etaSec)])\<rparr>)"

subsection \<open>Reviewers\<close>

text \<open>The first result of \<open>toInt\<close>; the callers drop the second.\<close>

fun toInt :: "fact option \<Rightarrow> int" where
  "toInt (Some (FInt n)) = n"
| "toInt (Some (FInt64 n)) = n"
| "toInt (Some (FFloat x)) = f64_to_int64 x"
| "toInt (Some (FNumber (Some n))) = n"
| "toInt _ = 0"

fun fact_str :: "fact option \<Rightarrow> string" where
  "fact_str (Some (FStr s)) = s" | "fact_str _ = []"

fun fact_bool :: "fact option \<Rightarrow> bool" where
  "fact_bool (Some (FBool b)) = b" | "fact_bool _ = False"

fun fact_float :: "fact option \<Rightarrow> f64" where
  "fact_float (Some (FFloat x)) = x" | "fact_float _ = 0"

definition mk_review :: "Verdict \<Rightarrow> Severity \<Rightarrow> f64 \<Rightarrow> string list \<Rightarrow> string list \<Rightarrow> string \<Rightarrow> Review" where
  "mk_review d s c atk ctl note = \<lparr>rv_Seat = [], rv_Role = [], rv_Decision = d, rv_Severity = s, Confidence = c,
     AttackScenarios = atk, RequiredControls = ctl, rv_Note = note\<rparr>"

definition Deterministic_Review :: "ReviewProposal \<Rightarrow> Review option" where
  "Deterministic_Review p = (let items = toInt (Facts p ''items''); red = toInt (Facts p ''redundancy'');
       ct = toInt (Facts p ''completion_tokens''); pt = toInt (Facts p ''prompt_tokens'') in
     if items \<le> 0 \<or> ct < 0 \<or> pt < 0 \<or> red < 1 \<or> red > 3 \<or> items > 5000 then
       Some (mk_review Block HighSev 1 [''malformed or out-of-bounds workload parameters'']
         [''reject workloads outside item/redundancy bounds''] ''structural bounds check failed'')
     else (let rv = mk_review Approve LowSev (rnd (9 / 10)) [] []
              ''ordinary allow-listed inference batch; no prompt content in scope'' in
       Some (if prop_RiskClass p = RiskHigh then rv\<lparr>rv_Severity := MediumSev,
           RequiredControls := [''operator visibility on high-volume / high-redundancy workloads'']\<rparr> else rv)))"

definition NodeSafety_Review :: "ReviewProposal \<Rightarrow> Review option" where
  "NodeSafety_Review p = (let items = toInt (Facts p ''items''); red = toInt (Facts p ''redundancy'');
       tier = fact_str (Facts p ''tier''); spot = fact_bool (Facts p ''spot'') in
     if tier = ''community'' \<and> items > 1000 \<and> red < 2 then
       Some (mk_review Conditional MediumSev (rnd (85 / 100))
         [''one unattested device serving a large batch alone can silently corrupt every item in it'']
         [''require redundancy >= 2 for community-tier batches over 1000 items'']
         ''large single-redundancy batch on an unattested tier'')
     else if spot \<and> red \<ge> 3 then
       Some (mk_review Conditional LowSev (rnd (8 / 10)) []
         [''cap spot redundancy at 2; route anything needing 3x confirmation to on-demand'']
         ''high redundancy requested on interruptible spot capacity'')
     else Some (mk_review Approve LowSev (rnd (9 / 10)) [] []
       ''device-trust tier and redundancy are proportionate to the workload''))"

definition low_price_note :: string where
  "low_price_note = ''price looks too low for the quoted token volume '' @ [CHR 0xE2, CHR 0x80, CHR 0x94] @
     '' possible pricing-path bug''"

definition CostGovernance_Review :: "ReviewProposal \<Rightarrow> Review option" where
  "CostGovernance_Review p = (let price = fact_float (Facts p ''price_usd'');
       ct = toInt (Facts p ''completion_tokens''); pt = toInt (Facts p ''prompt_tokens'');
       items = toInt (Facts p ''items''); items = (if items < 1 then 1 else items) in
     if price \<le> 0 then
       Some (mk_review Block HighSev 1 [''a zero or negative quote would run real compute for free, or at negative revenue'']
         [''reject any quote that doesn't clear the pricing floor''] ''non-positive price on a real workload'')
     else let totalTok = wrap64 (wrap64 (ct + pt) * items) in
       if totalTok > 0 \<and> price * Fin 1000000 / f64_of_int totalTok < rnd (1 / 100) then
         Some (mk_review Conditional MediumSev (rnd (7 / 10)) []
           [''operator review before running a workload priced this far under its token volume''] low_price_note)
       else Some (mk_review Approve LowSev (rnd (9 / 10)) [] [] ''price is proportionate to the quoted token volume''))"

text \<open>A model's answer, cut to its outermost braces and decoded strictly.\<close>

record model_answer =
  ma_decision :: string
  ma_severity :: string
  ma_confidence :: f64
  ma_attacks :: "string list"
  ma_controls :: "string list"

definition answer_fields :: "model_answer fields" where
  "answer_fields = [fld ''decision'' dec_string ma_decision ma_decision_update,
     fld ''severity'' dec_string ma_severity ma_severity_update,
     fld ''confidence'' dec_f64 ma_confidence ma_confidence_update,
     fld ''attack_scenarios'' dec_strings ma_attacks ma_attacks_update,
     fld ''required_controls'' dec_strings ma_controls ma_controls_update]"

definition cut_answer :: "string \<Rightarrow> string" where
  "cut_answer s0 = (let s = trim_space s0;
       s = (if CHR ''{'' \<in> set s then dropWhile (\<lambda>c. c \<noteq> CHR ''{'') s else s) in
     if CHR ''}'' \<in> set s then rev (dropWhile (\<lambda>c. c \<noteq> CHR ''}'') (rev s)) else s)"

definition parse_verdict :: "string \<Rightarrow> Verdict option" where
  "parse_verdict s = (let u = to_upper s in if u = ''APPROVE'' then Some Approve
     else if u = ''CONDITIONAL'' then Some Conditional else if u = ''BLOCK'' then Some Block else None)"

definition parse_severity :: "string \<Rightarrow> Severity" where
  "parse_severity s = (let u = to_upper s in if u = ''LOW'' then LowSev else if u = ''HIGH'' then HighSev
     else if u = ''CRITICAL'' then CriticalSev else MediumSev)"

definition parseReview :: "(string \<Rightarrow> json option) \<Rightarrow> string \<Rightarrow> Review option" where
  "parseReview parse s = (case Option.bind (parse (cut_answer s)) (\<lambda>j. dec_struct answer_fields j
       \<lparr>ma_decision = [], ma_severity = [], ma_confidence = 0, ma_attacks = [], ma_controls = []\<rparr>) of
     None \<Rightarrow> None
   | Some d \<Rightarrow> (case parse_verdict (ma_decision d) of
       None \<Rightarrow> None
     | Some dec \<Rightarrow>
         if length (ma_attacks d) > 20 \<or> length (ma_controls d) > 20 then None
         else Some (mk_review dec (parse_severity (ma_severity d))
           (if ma_confidence d < 0 \<or> ma_confidence d > 1 then Fin (1 / 2) else ma_confidence d)
           (ma_attacks d) (ma_controls d) [])))"

text \<open>\<open>call\<close> is the request to the model's api: the text of its answer, or an error.\<close>

definition Model_Review :: "(string \<Rightarrow> json option) \<Rightarrow> string \<Rightarrow> (ReviewProposal \<Rightarrow> string option) \<Rightarrow> ReviewProposal \<Rightarrow> Review option" where
  "Model_Review parse api call p = (if api = ''anthropic'' \<or> api = ''openai'' then
     (case call p of None \<Rightarrow> None | Some raw \<Rightarrow> parseReview parse raw) else None)"

text \<open>The panel the server installs.\<close>

definition server_panel :: "Reviewer option \<Rightarrow> Reviewer list" where
  "server_panel model = [\<lparr>seat = ''security_critic'', role = ''Chief Security Critic'', review = Deterministic_Review\<rparr>,
     \<lparr>seat = ''node_safety'', role = ''Node and Provider Safety Guardian'', review = NodeSafety_Review\<rparr>,
     \<lparr>seat = ''cost_governance'', role = ''Cost & Pricing Governance'', review = CostGovernance_Review\<rparr>]
     @ (case model of None \<Rightarrow> [] | Some m \<Rightarrow> [m])"

end
