(* ===== verification/Council_Ledger.thy ===== *)
theory Council_Ledger
  imports Council
begin

text \<open>
  The public ledger of the Council (coordinator/internal/council/council.go, the recording half
  of evaluate.go, persist.go and coordinator/internal/api/council_persist.go): the roster, the
  seeded demonstration records, the hash chain and its check, the recording of a decision, the
  capped in-process tail, what is stored and loaded back, and the review of a finished run.
  \<open>md\<close> is the embedded text of the constitution. A nil slice and an empty one are one list here:
  the records the code builds have no nil slice.
\<close>

subsection \<open>Roster and constitution\<close>

definition PublicRecordProtocol :: string where "PublicRecordProtocol = ''ayni-council-public-record-v1''"

record Seat =
  st_Seat :: string
  st_Role :: string
  ModelID :: string
  st_Provider :: string
  OpenWeight :: bool
  st_Status :: string

definition seatRoles :: "(string \<times> string) list" where
  "seatRoles =
    [(''security_critic'', ''Chief Security Critic''), (''red_team'', ''Red Team Director''),
     (''privacy'', ''Privacy Guardian''), (''financial_integrity'', ''Financial Integrity Guardian''),
     (''node_safety'', ''Node and Provider Safety Guardian''), (''renter_abuse'', ''Renter Abuse Guardian''),
     (''reliability'', ''Architecture and Reliability Advisor''), (''human_impact'', ''Human Impact and Rights Advisor''),
     (''ai_stewardship'', ''AI Stewardship Advisor''), (''dissenter'', ''Independent Dissenter'')]"

definition demoRoster :: "(string \<times> string \<times> bool) list" where
  "demoRoster =
    [(''model-alpha'', ''provider-1'', False), (''model-bravo'', ''provider-1'', False),
     (''model-charlie'', ''provider-2'', False), (''model-delta'', ''provider-2'', False),
     (''model-echo'', ''provider-3'', True), (''model-foxtrot'', ''provider-3'', True),
     (''model-golf'', ''provider-4'', False), (''model-hotel'', ''provider-4'', True),
     (''model-india'', ''provider-5'', False), (''model-juliet'', ''provider-5'', False)]"

record RosterView =
  seat_count :: nat
  seats :: "Seat list"
  providers :: nat
  open_weight :: nat
  max_per_provider :: nat
  selection_digest :: string

definition roster_seats :: "Seat list" where
  "roster_seats = map (\<lambda>(sr, d). \<lparr>st_Seat = fst sr, st_Role = snd sr, ModelID = fst d, st_Provider = fst (snd d),
     OpenWeight = snd (snd d), st_Status = ''active''\<rparr>) (zip seatRoles demoRoster)"

definition Roster :: "hash_env \<Rightarrow> RosterView" where
  "Roster e = \<lparr>seat_count = length roster_seats, seats = roster_seats,
     providers = length (remdups (map st_Provider roster_seats)),
     open_weight = length (filter OpenWeight roster_seats), max_per_provider = 2,
     selection_digest = recordHash e (JArr (map (\<lambda>s. JObj [(''seat'', JStr (st_Seat s)),
       (''model_id'', JStr (ModelID s)), (''provider'', JStr (st_Provider s))]) roster_seats))\<rparr>"

definition ConstitutionDigest :: "hash_env \<Rightarrow> string \<Rightarrow> string" where
  "ConstitutionDigest e md = hex_encode (he_sha256 e md)"

definition allDigits :: "string \<Rightarrow> bool" where
  "allDigits s = (s \<noteq> [] \<and> list_all is_digit s)"

text \<open>\<open>strings.Index\<close>.\<close>

fun str_index :: "string \<Rightarrow> string \<Rightarrow> nat option" where
  "str_index s sub = (if take (length sub) s = sub then Some 0
     else case s of [] \<Rightarrow> None | c # r \<Rightarrow> map_option Suc (str_index r sub))"

definition principle_of :: "string \<Rightarrow> string option" where
  "principle_of line = (let t = trim_space line in
     case str_index t ''. **'' of
       None \<Rightarrow> None
     | Some dot \<Rightarrow>
         if dot \<le> 0 \<or> \<not> allDigits (take dot t) then None
         else (let seg = drop (dot + 4) t in
           case str_index seg ''**'' of None \<Rightarrow> None | Some e \<Rightarrow> if e > 0 then Some (take e seg) else None))"

definition principles :: "string \<Rightarrow> string list" where
  "principles md = List.map_filter principle_of (split_on (CHR 0x0A) md)"

subsection \<open>Decision records\<close>

record PublicDecision =
  pd_Protocol :: string
  pd_DecisionID :: string
  pd_ProposalID :: string
  pd_Title :: string
  pd_RiskClass :: string
  pd_Decision :: string
  pd_Severity :: string
  pd_Votes :: "(string \<times> int) list"
  pd_RequiredControls :: "string list"
  pd_Dissent :: "json list"
  pd_Actions :: "json list"
  pd_EvidenceDigests :: "string list"
  pd_RosterDigest :: string
  pd_ConstitutionDigest :: string
  pd_PreviousRecordHash :: string
  pd_PublishedAt :: int
  pd_RecordHash :: string

definition decision_json :: "PublicDecision \<Rightarrow> json" where
  "decision_json d = JObj
    [(''protocol'', JStr (pd_Protocol d)), (''decision_id'', JStr (pd_DecisionID d)),
     (''proposal_id'', JStr (pd_ProposalID d)), (''title'', JStr (pd_Title d)),
     (''risk_class'', JStr (pd_RiskClass d)), (''decision'', JStr (pd_Decision d)),
     (''severity'', JStr (pd_Severity d)),
     (''votes'', JObj (map (\<lambda>(k, n). (k, jint_val n)) (pd_Votes d))),
     (''required_controls'', jstrs (pd_RequiredControls d)), (''dissent'', JArr (pd_Dissent d)),
     (''actions'', JArr (pd_Actions d)), (''evidence_digests'', jstrs (pd_EvidenceDigests d)),
     (''roster_digest'', JStr (pd_RosterDigest d)), (''constitution_digest'', JStr (pd_ConstitutionDigest d)),
     (''previous_record_hash'', JStr (pd_PreviousRecordHash d)), (''published_at'', jint_val (pd_PublishedAt d)),
     (''record_hash'', JStr (pd_RecordHash d))]"

definition canonicalDecision :: "PublicDecision \<Rightarrow> json" where
  "canonicalDecision d = decision_json (d\<lparr>pd_RecordHash := []\<rparr>)"

fun chain_from :: "hash_env \<Rightarrow> string \<Rightarrow> PublicDecision list \<Rightarrow> bool" where
  "chain_from e prev [] = True"
| "chain_from e prev (r # rs) =
    (if pd_PreviousRecordHash r \<noteq> prev then False
     else if recordHash e (canonicalDecision r) \<noteq> pd_RecordHash r then False
     else chain_from e (pd_RecordHash r) rs)"

definition verifyChain :: "hash_env \<Rightarrow> PublicDecision list \<Rightarrow> bool" where
  "verifyChain e recs = chain_from e [] recs"

subsection \<open>The seeded records\<close>

definition demo_vote :: "int \<Rightarrow> int \<Rightarrow> (string \<times> int) list" where
  "demo_vote a c = [(''approve'', a), (''conditional'', c), (''block'', 0), (''missing'', 0)]"

definition demo_action :: "string \<Rightarrow> string \<Rightarrow> string \<Rightarrow> json" where
  "demo_action i c own = JObj [(''action_id'', JStr i), (''control'', JStr c), (''owner_role'', JStr own), (''status'', JStr ''OPEN'')]"

definition demo_base :: "hash_env \<Rightarrow> PublicDecision list" where
  "demo_base e =
    [\<lparr>pd_Protocol = [], pd_DecisionID = ''dec-0001'', pd_ProposalID = ''prop-manifest-v1'',
      pd_Title = ''Adopt signed Workload Manifest v1 for all dispatched jobs'',
      pd_RiskClass = ''security_critical'', pd_Decision = ''APPROVE'', pd_Severity = ''HIGH'',
      pd_Votes = demo_vote 9 1,
      pd_RequiredControls = [''isolated manifest signer'', ''node signature + ceiling verification'', ''expiry and nonce''],
      pd_Dissent = [JObj [(''seat'', JStr ''dissenter''), (''decision'', JStr ''CONDITIONAL''), (''severity'', JStr ''MEDIUM''),
        (''summary'', JStr ''approve only alongside a persisted nonce store and KMS custody of the signer key'')]],
      pd_Actions = [demo_action ''act-01'' ''persist single-use nonces across node restarts'' ''node_safety'',
        demo_action ''act-02'' ''move signer key to KMS/HSM with rotation'' ''security_critic''],
      pd_EvidenceDigests = [recordHash e (JObj [(''artifact'', JStr ''docs/WORKLOAD-MANIFEST.md'')])],
      pd_RosterDigest = [], pd_ConstitutionDigest = [], pd_PreviousRecordHash = [], pd_PublishedAt = 0, pd_RecordHash = []\<rparr>,
     \<lparr>pd_Protocol = [], pd_DecisionID = ''dec-0002'', pd_ProposalID = ''prop-spot-tier'',
      pd_Title = ''Enable the spot service class (interruptible, discounted)'',
      pd_RiskClass = ''high'', pd_Decision = ''CONDITIONAL'', pd_Severity = ''MEDIUM'',
      pd_Votes = demo_vote 3 2,
      pd_RequiredControls = [''spot batches run at a capped worker pool'', ''spot accruals priced at the quoted factor''],
      pd_Dissent = [],
      pd_Actions = [demo_action ''act-03'' ''publish provider opt-out of spot before GA'' ''node_safety''],
      pd_EvidenceDigests = [recordHash e (JObj [(''artifact'', JStr ''docs/ROADMAP.md#m10.5'')])],
      pd_RosterDigest = [], pd_ConstitutionDigest = [], pd_PreviousRecordHash = [], pd_PublishedAt = 0, pd_RecordHash = []\<rparr>]"

text \<open>The last two steps of sealing a record, at a demonstration record and at a live one.\<close>

definition seal :: "hash_env \<Rightarrow> string \<Rightarrow> PublicDecision \<Rightarrow> PublicDecision" where
  "seal e prev r0 = (let r = r0\<lparr>pd_PreviousRecordHash := prev\<rparr> in
     r\<lparr>pd_RecordHash := recordHash e (canonicalDecision r)\<rparr>)"

fun demo_seal :: "hash_env \<Rightarrow> string \<Rightarrow> string \<Rightarrow> int \<Rightarrow> string \<Rightarrow> PublicDecision list \<Rightarrow> PublicDecision list" where
  "demo_seal e rd cd i prev [] = []"
| "demo_seal e rd cd i prev (r # rs) =
    (let r' = seal e prev (r\<lparr>pd_Protocol := PublicRecordProtocol, pd_RosterDigest := rd,
       pd_ConstitutionDigest := cd, pd_PublishedAt := 1788000000 + i * 3600\<rparr>) in
     r' # demo_seal e rd cd (i + 1) (pd_RecordHash r') rs)"

definition demoDecisions :: "hash_env \<Rightarrow> string \<Rightarrow> PublicDecision list" where
  "demoDecisions e md = demo_seal e (selection_digest (Roster e)) (ConstitutionDigest e md) 0 [] (demo_base e)"

definition lastDemoHash :: "hash_env \<Rightarrow> string \<Rightarrow> string" where
  "lastDemoHash e md = (let d = demoDecisions e md in if d = [] then [] else pd_RecordHash (last d))"

subsection \<open>Recording\<close>

definition maxRecent :: nat where "maxRecent = 50"

definition sevRank :: "Severity \<Rightarrow> int" where
  "sevRank s = (case s of CriticalSev \<Rightarrow> 3 | HighSev \<Rightarrow> 2 | MediumSev \<Rightarrow> 1 | LowSev \<Rightarrow> 0)"

definition max_severity :: "Review list \<Rightarrow> Severity" where
  "max_severity rs = foldl (\<lambda>sev r. if sevRank (rv_Severity r) > sevRank sev then rv_Severity r else sev) LowSev rs"

definition decision_votes :: "Outcome \<Rightarrow> (string \<times> int) list" where
  "decision_votes oc = [(''approve'', votes_for (oc_Reviews oc) Approve), (''conditional'', votes_for (oc_Reviews oc) Conditional),
     (''block'', votes_for (oc_Reviews oc) Block), (''missing'', int (length (Missing oc)))]"

definition workload_record :: "hash_env \<Rightarrow> string \<Rightarrow> Outcome \<Rightarrow> string \<Rightarrow> PublicDecision" where
  "workload_record e md oc title =
    \<lparr>pd_Protocol = PublicRecordProtocol, pd_DecisionID = ''wl-'' @ shortHash e (AuditHash oc), pd_ProposalID = oc_ProposalID oc,
     pd_Title = title, pd_RiskClass = oc_RiskClass oc, pd_Decision = verdict_str (oc_Decision oc),
     pd_Severity = severity_str (max_severity (oc_Reviews oc)), pd_Votes = decision_votes oc,
     pd_RequiredControls = oc_RequiredControls oc,
     pd_Dissent = map (\<lambda>r. JObj [(''seat'', JStr (rv_Seat r)), (''decision'', JStr (verdict_str (rv_Decision r))),
       (''severity'', JStr (severity_str (rv_Severity r))), (''summary'', JStr (rv_Note r))]) (Dissent oc),
     pd_Actions = [], pd_EvidenceDigests = [AuditHash oc],
     pd_RosterDigest = selection_digest (Roster e), pd_ConstitutionDigest = ConstitutionDigest e md,
     pd_PreviousRecordHash = [], pd_PublishedAt = EvaluatedAt oc div 1000000000, pd_RecordHash = []\<rparr>"

text \<open>Keep the newest \<open>maxRecent\<close>.\<close>

definition cap_recent :: "'a list \<Rightarrow> 'a list" where
  "cap_recent xs = (if length xs > maxRecent then drop (length xs - maxRecent) xs else xs)"

text \<open>The record appended (which is also the one persisted) and the new in-process tail.\<close>

definition RecordWorkloadDecision ::
    "hash_env \<Rightarrow> string \<Rightarrow> Outcome \<Rightarrow> string \<Rightarrow> PublicDecision list \<Rightarrow> PublicDecision \<times> PublicDecision list" where
  "RecordWorkloadDecision e md oc title recent =
    (let prev = (if length recent > 0 then pd_RecordHash (last recent) else lastDemoHash e md);
         r = seal e prev (workload_record e md oc title)
     in (r, cap_recent (recent @ [r])))"

definition allDecisions :: "hash_env \<Rightarrow> string \<Rightarrow> PublicDecision list \<Rightarrow> PublicDecision list" where
  "allDecisions e md recent = demoDecisions e md @ recent"

record DecisionsView =
  dv_count :: nat
  live_count :: nat
  chain_valid :: bool
  decisions :: "PublicDecision list"

definition Decisions :: "hash_env \<Rightarrow> string \<Rightarrow> PublicDecision list \<Rightarrow> DecisionsView" where
  "Decisions e md recent = (let recs = allDecisions e md recent in
     \<lparr>dv_count = length recs, live_count = length recs - length (demoDecisions e md),
      chain_valid = verifyChain e recs, decisions = recs\<rparr>)"

definition Decision :: "hash_env \<Rightarrow> string \<Rightarrow> PublicDecision list \<Rightarrow> string \<Rightarrow> PublicDecision option" where
  "Decision e md recent i = find (\<lambda>r. pd_DecisionID r = i) (allDecisions e md recent)"

subsection \<open>Persistence\<close>

text \<open>
  The table \<open>council_decisions\<close> as its rows, newest insert last: id, record and \<open>recorded_at\<close>
  in nanoseconds. \<open>clock\<close> is the time of the insert.
\<close>

record decision_row =
  dr_id :: string
  dr_record :: PublicDecision
  dr_at :: int

text \<open>A TIMESTAMPTZ column keeps microseconds; times here are in nanoseconds.\<close>

definition pg_micros :: "int \<Rightarrow> int" where "pg_micros t = t div 1000 * 1000"

definition SaveDecision :: "int \<Rightarrow> PublicDecision \<Rightarrow> decision_row list \<Rightarrow> decision_row list" where
  "SaveDecision clock r rows =
    (let t = (if pd_PublishedAt r > 0 then pd_PublishedAt r * 1000000000 else clock) in
     if \<exists>w \<in> set rows. dr_id w = pd_DecisionID r then rows
     else rows @ [\<lparr>dr_id = pd_DecisionID r, dr_record = r, dr_at = pg_micros t\<rparr>])"

definition row_newer :: "decision_row \<Rightarrow> decision_row \<Rightarrow> bool" where
  "row_newer a b = (dr_at b < dr_at a \<or> dr_at a = dr_at b \<and> str_less (dr_id b) (dr_id a))"

definition LoadDecisions :: "nat \<Rightarrow> decision_row list \<Rightarrow> PublicDecision list" where
  "LoadDecisions n rows = rev (map dr_record (take n (sort_by row_newer rows)))"

text \<open>A load that fails leaves the tail as it is.\<close>

definition Hydrate_decisions :: "PublicDecision list option \<Rightarrow> PublicDecision list \<Rightarrow> PublicDecision list" where
  "Hydrate_decisions loaded recent = (case loaded of None \<Rightarrow> recent | Some ds \<Rightarrow> ds)"

subsection \<open>Post-run review\<close>

record RunStats =
  rs_WorkloadID :: string
  rs_Model :: string
  rs_Items :: int
  rs_OK :: int
  rs_Failed :: int
  rs_Fanout :: int
  rs_Concurrency :: int
  rs_WallMS :: int
  rs_PromptTokens :: int
  rs_CompletionTokens :: int
  rs_QuotedUSD :: f64
  rs_ChargedUSD :: f64

record Finding =
  fi_Severity :: Severity
  Issue :: string
  fi_Action :: string

record RunReview =
  rr_WorkloadID :: string
  rr_Model :: string
  rr_Verdict :: string
  rr_Findings :: "Finding list"
  rr_Stats :: RunStats
  rr_AuditHash :: string
  rr_RecordedAt :: int

definition fail_severity :: "int \<Rightarrow> int \<Rightarrow> Severity" where
  "fail_severity failed tot =
    (if tot > 0 \<and> f64_of_int failed / f64_of_int tot > rnd (1 / 10) then HighSev else MediumSev)"

text \<open>\<open>fmt4\<close> is \<open>Sprintf\<close>'s \<open>%.4f\<close>.\<close>

definition run_findings :: "(f64 \<Rightarrow> string) \<Rightarrow> RunStats \<Rightarrow> Finding list" where
  "run_findings fmt4 s = (let tot = wrap64 (rs_OK s + rs_Failed s) in
     (if rs_Failed s > 0 then [\<lparr>fi_Severity = fail_severity (rs_Failed s) tot,
        Issue = int_str (rs_Failed s) @ '' of '' @ int_str tot @ '' items failed'',
        fi_Action = ''raise redundancy or add speculative straggler re-dispatch for this model class''\<rparr>] else [])
     @ (if rs_Fanout s \<le> 1 \<and> rs_OK s > 4 then [\<lparr>fi_Severity = LowSev,
        Issue = ''the whole batch ran on a single provider'',
        fi_Action = ''recruit more supply so items run in parallel and wall time drops''\<rparr>] else [])
     @ (if tot > 0 \<and> go_div (rs_WallMS s) tot > 4000 then [\<lparr>fi_Severity = LowSev,
        Issue = ''~'' @ int_str (go_div (rs_WallMS s) tot) @ '' ms per item'',
        fi_Action = ''offer a faster model class or GPU-class providers for latency-sensitive callers''\<rparr>] else [])
     @ (if rs_ChargedUSD s > rs_QuotedUSD s * rnd (1001 / 1000) then [\<lparr>fi_Severity = MediumSev,
        Issue = ''charged $'' @ fmt4 (rs_ChargedUSD s) @ '' exceeded the quote $'' @ fmt4 (rs_QuotedUSD s),
        fi_Action = ''investigate the settlement path '' @ [CHR 0xE2, CHR 0x80, CHR 0x94] @
          '' the customer must never pay above the accepted quote''\<rparr>] else []))"

definition run_verdict :: "Finding list \<Rightarrow> string" where
  "run_verdict f = (if list_ex (\<lambda>x. fi_Severity x = HighSev \<or> fi_Severity x = CriticalSev) f then ''REVIEW'' else ''CLEAN'')"

text \<open>The review returned (and persisted) and the new list of reviews.\<close>

definition ReviewRun :: "hash_env \<Rightarrow> (f64 \<Rightarrow> string) \<Rightarrow> int \<Rightarrow> RunStats \<Rightarrow> RunReview list \<Rightarrow> RunReview \<times> RunReview list" where
  "ReviewRun e fmt4 now s reviews =
    (let f = run_findings fmt4 s; verdict = run_verdict f;
         rr = \<lparr>rr_WorkloadID = rs_WorkloadID s, rr_Model = rs_Model s, rr_Verdict = verdict, rr_Findings = f,
           rr_Stats = s, rr_AuditHash = recordHash e (JObj [(''workload_id'', JStr (rs_WorkloadID s)),
             (''verdict'', JStr verdict), (''findings'', jint_val (int (length f))), (''ok'', jint_val (rs_OK s)),
             (''failed'', jint_val (rs_Failed s)), (''fanout'', jint_val (rs_Fanout s)),
             (''wall_ms'', jint_val (rs_WallMS s))]), rr_RecordedAt = now\<rparr>
     in (rr, cap_recent (reviews @ [rr])))"

definition RunReviews :: "RunReview list \<Rightarrow> nat \<times> RunReview list" where
  "RunReviews reviews = (length reviews, reviews)"

subsection \<open>The chain\<close>

fun seal_all :: "hash_env \<Rightarrow> string \<Rightarrow> PublicDecision list \<Rightarrow> PublicDecision list" where
  "seal_all e prev [] = []"
| "seal_all e prev (r # rs) = seal e prev r # seal_all e (pd_RecordHash (seal e prev r)) rs"

definition tip :: "string \<Rightarrow> PublicDecision list \<Rightarrow> string" where
  "tip prev rs = (if rs = [] then prev else pd_RecordHash (last rs))"

lemma tip_Nil [simp]: "tip p [] = p"
  by (simp add: tip_def)

lemma tip_Cons [simp]: "tip p (r # rs) = tip (pd_RecordHash r) rs"
  by (simp add: tip_def)

lemma seal_links [simp]:
  "pd_PreviousRecordHash (seal e p r) = p"
  "recordHash e (canonicalDecision (seal e p r)) = pd_RecordHash (seal e p r)"
  by (simp_all add: seal_def Let_def canonicalDecision_def)

lemma chain_append: "chain_from e p (xs @ ys) \<longleftrightarrow> chain_from e p xs \<and> chain_from e (tip p xs) ys"
  by (induction xs arbitrary: p) auto

lemma seal_all_chain [simp]: "chain_from e p (seal_all e p rs)"
  by (induction rs arbitrary: p) auto

lemma seal_all_append: "seal_all e p (xs @ ys) = seal_all e p xs @ seal_all e (tip p (seal_all e p xs)) ys"
  by (induction xs arbitrary: p) auto

lemma length_seal_all [simp]: "length (seal_all e p rs) = length rs"
  by (induction rs arbitrary: p) auto

lemma chain_restart:
  assumes "chain_from e p rs" "rs \<noteq> []"
  shows "chain_from e q rs \<longleftrightarrow> q = p"
  using assms by (cases rs) (auto split: if_splits)

lemma demo_chain: "verifyChain e (demoDecisions e md)"
proof -
  have "chain_from e p (demo_seal e rd cd i p rs)" for rd cd i p rs
    by (induction rs arbitrary: i p) (auto simp: Let_def)
  then show ?thesis by (simp add: verifyChain_def demoDecisions_def)
qed

lemma demo_nonempty: "demoDecisions e md \<noteq> []"
  by (simp add: demoDecisions_def demo_base_def Let_def)

lemma tip_demo: "tip [] (demoDecisions e md) = lastDemoHash e md"
  by (simp add: tip_def lastDemoHash_def Let_def)

lemma verify_all: "verifyChain e (allDecisions e md rs) \<longleftrightarrow> chain_from e (lastDemoHash e md) rs"
  using demo_chain by (simp add: verifyChain_def allDecisions_def chain_append tip_demo)

fun record_run :: "hash_env \<Rightarrow> string \<Rightarrow> (Outcome \<times> string) list \<Rightarrow> PublicDecision list \<Rightarrow> PublicDecision list" where
  "record_run e md [] rs = rs"
| "record_run e md ((oc, t) # os) rs = record_run e md os (snd (RecordWorkloadDecision e md oc t rs))"

definition live_chain :: "hash_env \<Rightarrow> string \<Rightarrow> (Outcome \<times> string) list \<Rightarrow> PublicDecision list" where
  "live_chain e md os = seal_all e (lastDemoHash e md) (map (\<lambda>(oc, t). workload_record e md oc t) os)"

lemma cap_cap: "cap_recent (cap_recent xs @ [r]) = cap_recent (xs @ [r])"
proof -
  have "50 < n \<Longrightarrow> Suc (n - 50) = n - 49" for n :: nat by arith
  then show ?thesis by (auto simp: cap_recent_def maxRecent_def)
qed

lemma tip_cap: "tip p (cap_recent xs) = tip p xs"
  by (auto simp: tip_def cap_recent_def maxRecent_def last_drop)

lemma record_step:
  "snd (RecordWorkloadDecision e md oc t (cap_recent xs)) =
   cap_recent (xs @ [seal e (tip (lastDemoHash e md) xs) (workload_record e md oc t)])"
proof -
  have "(if length zs > 0 then pd_RecordHash (last zs) else lastDemoHash e md) = tip (lastDemoHash e md) zs" for zs
    by (simp add: tip_def)
  then show ?thesis by (simp add: RecordWorkloadDecision_def Let_def cap_cap tip_cap del: length_greater_0_conv)
qed

lemma record_run_live:
  "record_run e md os2 (cap_recent (live_chain e md os1)) = cap_recent (live_chain e md (os1 @ os2))"
proof (induction os2 arbitrary: os1)
  case (Cons a os2)
  obtain oc t where [simp]: "a = (oc, t)" by force
  have "live_chain e md (os1 @ [a]) = live_chain e md os1 @
      [seal e (tip (lastDemoHash e md) (live_chain e md os1)) (workload_record e md oc t)]"
    by (simp add: live_chain_def seal_all_append)
  with Cons [of "os1 @ [a]"] show ?case by (simp add: record_step)
qed simp

lemma record_run_empty: "record_run e md os [] = cap_recent (live_chain e md os)"
  using record_run_live [of e md os "[]"] by (simp add: live_chain_def cap_recent_def)

text \<open>The public ledger's own check of its hash chain. After any number of recorded
  decisions, starting from an empty tail, the ledger of demonstration records and live tail
  verifies exactly while at most 50 decisions have been recorded; from the 51st on the oldest
  live record has been dropped, and the check reports a valid chain only if the hash of the last
  dropped record happens to be the hash of the last demonstration record.\<close>

lemma chain_valid_iff:
  "chain_valid (Decisions e md (record_run e md os [])) \<longleftrightarrow>
   length os \<le> 50 \<or> pd_RecordHash (live_chain e md os ! (length os - 51)) = lastDemoHash e md"
proof -
  let ?L = "live_chain e md os" and ?h = "lastDemoHash e md"
  have len: "length ?L = length os" and ch: "chain_from e ?h ?L" by (simp_all add: live_chain_def)
  have "chain_from e ?h (cap_recent ?L) \<longleftrightarrow> pd_RecordHash (?L ! (length os - 51)) = ?h" if long: "50 < length os"
  proof -
    define k where "k = length os - 50"
    have k: "0 < k" "k < length ?L" "k - 1 = length os - 51" using long by (auto simp: k_def len)
    have split: "take k ?L @ drop k ?L = ?L" by simp
    have tk: "tip ?h (take k ?L) = pd_RecordHash (?L ! (k - 1))"
      using k by (auto simp: tip_def last_conv_nth min_def)
    have "chain_from e (tip ?h (take k ?L)) (drop k ?L)"
      using ch chain_append [of e ?h "take k ?L" "drop k ?L"] by simp
    then have "chain_from e ?h (drop k ?L) \<longleftrightarrow> ?h = tip ?h (take k ?L)"
      by (rule chain_restart) (use k in simp)
    moreover have "cap_recent ?L = drop k ?L" using long by (simp add: cap_recent_def maxRecent_def len k_def)
    ultimately show ?thesis using tk k by auto
  qed
  moreover have "cap_recent ?L = ?L" if "length os \<le> 50" using that by (simp add: cap_recent_def maxRecent_def len)
  ultimately have "chain_from e ?h (cap_recent ?L) \<longleftrightarrow>
      length os \<le> 50 \<or> pd_RecordHash (?L ! (length os - 51)) = ?h"
    using ch by (cases "length os \<le> 50") auto
  then show ?thesis by (simp add: Decisions_def Let_def verify_all record_run_empty)
qed

text \<open>
  Two decisions recorded in the same second are stored with the same time, and the load breaks
  the tie by id, so a restart can read them back swapped.
\<close>

lemma same_second_swapped:
  assumes "pd_PublishedAt a = pd_PublishedAt b" "0 < pd_PublishedAt a"
    "str_less (pd_DecisionID b) (pd_DecisionID a)" "\<not> str_less (pd_DecisionID a) (pd_DecisionID b)"
  shows "LoadDecisions 50 (SaveDecision c2 b (SaveDecision c1 a [])) = [b, a]"
  using assms by (auto simp: LoadDecisions_def SaveDecision_def row_newer_def)

subsection \<open>The verdict of a run\<close>

lemma rr_tenth: "rr (1 / 10) < rr (1 / 10 + 1 / (10 * 2 ^ 40))"
  by code_simp

lemma fail_ratio:
  assumes "0 \<le> failed" "0 < tot" "failed \<le> tot" "tot \<le> 2 ^ 40"
  shows "fail_severity failed tot = (if 10 * failed > tot then HighSev else MediumSev)"
proof -
  let ?q = "of_int failed / of_int tot :: rat"
  have q: "0 \<le> ?q" "?q \<le> 1" using assms by (auto simp: divide_le_eq)
  have fl: "f64_of_int failed = Fin (of_int failed)" "f64_of_int tot = Fin (of_int tot)"
    using assms by (auto intro!: f64_of_int_exact)
  have div: "f64_of_int failed / f64_of_int tot = Fin (rr ?q)"
  proof -
    have "?q \<le> 2 ^ 1000" using q(2) by (rule order_trans) simp
    with q(1) have "rnd ?q = Fin (rr ?q)" by (rule rnd_Fin)
    with assms show ?thesis by (simp add: fl f64_ops)
  qed
  have tenth: "rnd (1 / 10) = Fin (rr (1 / 10))" by (simp add: rnd_Fin)
  have "rr (1 / 10) < rr ?q \<longleftrightarrow> 10 * failed > tot"
  proof (cases "10 * failed > tot")
    case True
    have "(of_int tot :: rat) \<le> 2 ^ 40" using assms of_int_le_pow2 by blast
    moreover have "(of_int tot :: rat) + 1 \<le> 10 * of_int failed" using True
      by (metis (mono_tags) of_int_1 of_int_add of_int_le_iff of_int_mult of_int_numeral zless_imp_add1_zle)
    ultimately have "1 / 10 + 1 / (10 * 2 ^ 40) \<le> ?q" using assms
      by (simp add: field_simps)
    then have "rr (1 / 10 + 1 / (10 * 2 ^ 40)) \<le> rr ?q" by (intro rr_mono) auto
    with rr_tenth True show ?thesis by linarith
  next
    case False
    then have "10 * (of_int failed :: rat) \<le> of_int tot"
      by (metis linorder_not_less of_int_le_iff of_int_mult of_int_numeral)
    then have "?q \<le> 1 / 10" using assms by (simp add: field_simps)
    then have "rr ?q \<le> rr (1 / 10)" using q by (intro rr_mono)
    with False show ?thesis by simp
  qed
  then show ?thesis using assms by (simp add: fail_severity_def div tenth less_f64_def)
qed

text \<open>The verdict the Council posts for a finished run of at most 2 ^ 40 items is REVIEW
  exactly when strictly more than one item in ten failed, the double-precision quotient
  notwithstanding; nothing else raises it, not even a charge above the accepted quote.\<close>

theorem run_verdict_iff:
  assumes "0 \<le> rs_OK s" "0 \<le> rs_Failed s" "rs_OK s + rs_Failed s \<le> 2 ^ 40"
  shows "rr_Verdict (fst (ReviewRun e fmt4 now s reviews)) =
    (if 10 * rs_Failed s > rs_OK s + rs_Failed s then ''REVIEW'' else ''CLEAN'')"
proof -
  have w: "wrap64 (rs_OK s + rs_Failed s) = rs_OK s + rs_Failed s"
    using assms by (intro wrap64_id) (simp add: is_int64_def int64_min_def int64_max_def)
  have "fail_severity (rs_Failed s) (rs_OK s + rs_Failed s) =
      (if 10 * rs_Failed s > rs_OK s + rs_Failed s then HighSev else MediumSev)" if "0 < rs_Failed s"
    using that assms by (intro fail_ratio) auto
  then show ?thesis using assms
    by (cases "0 < rs_Failed s") (auto simp: ReviewRun_def Let_def run_verdict_def run_findings_def w)
qed

definition sample_stats :: RunStats where
  "sample_stats = \<lparr>rs_WorkloadID = ''w'', rs_Model = ''m'', rs_Items = 10, rs_OK = 8, rs_Failed = 2, rs_Fanout = 1,
     rs_Concurrency = 1, rs_WallMS = 100, rs_PromptTokens = 5, rs_CompletionTokens = 5, rs_QuotedUSD = 1, rs_ChargedUSD = Fin 2\<rparr>"

lemma run_verdict_iff_witness:
  "rr_Verdict (fst (ReviewRun \<lparr>he_sha256 = id, he_num = (\<lambda>q. ''0'')\<rparr> (\<lambda>x. ''0'') 0 sample_stats [])) = ''REVIEW''"
  by (subst run_verdict_iff) (simp_all add: sample_stats_def)

end
