(* ===== verification/Council_Props.thy ===== *)
theory Council_Props
  imports Council_Ledger
begin

text \<open>
  Theorems on the Council: what the server's panel decides, and tamper evidence of the public
  ledger, from the unique readability of the canonical JSON text.
\<close>

subsection \<open>Unique readability of canonical JSON\<close>

text \<open>The text up to the first comma or closing bracket outside every string and bracket.\<close>

fun scan_val :: "bool \<Rightarrow> nat \<Rightarrow> string \<Rightarrow> string" where
  "scan_val instr d [] = []"
| "scan_val True d (c # cs) = (if c = CHR 0x22 then c # scan_val False d cs
     else if c = CHR 0x5C then (case cs of [] \<Rightarrow> [c] | x # r \<Rightarrow> c # x # scan_val True d r)
     else c # scan_val True d cs)"
| "scan_val False d (c # cs) = (if c = CHR 0x22 then c # scan_val True d cs
     else if c = CHR ''['' \<or> c = CHR ''{'' then c # scan_val False (Suc d) cs
     else if c = CHR '']'' \<or> c = CHR ''}'' then (case d of 0 \<Rightarrow> [] | Suc k \<Rightarrow> c # scan_val False k cs)
     else if c = CHR '','' \<and> d = 0 then [] else c # scan_val False d cs)"

definition plain_char :: "char \<Rightarrow> bool" where
  "plain_char c = (c \<notin> {CHR 0x22, CHR 0x5C, CHR ''['', CHR '']'', CHR ''{'', CHR ''}'', CHR '',''})"

text \<open>What Go prints for a number: digits, a sign, a point, an exponent.\<close>

definition plain_num :: "(rat \<Rightarrow> string) \<Rightarrow> bool" where
  "plain_num num = (\<forall>q. list_all plain_char (num q))"

lemma scan_plain: "list_all plain_char xs \<Longrightarrow> scan_val False d (xs @ r) = xs @ scan_val False d r"
  by (induction xs) (auto simp: plain_char_def)

lemma hexd_in_string [simp]: "n < 16 \<Longrightarrow> hexd n \<noteq> CHR 0x22 \<and> hexd n \<noteq> CHR 0x5C"
proof -
  assume "n < 16"
  then have "of_char (hexd n) = (if n < 10 then 48 + n else 87 + n :: nat)" by (simp add: hexd_def)
  then have "of_char (hexd n) \<noteq> (34 :: nat) \<and> of_char (hexd n) \<noteq> (92 :: nat)" using \<open>n < 16\<close> by presburger
  then show ?thesis by auto
qed

lemma char_code_lt: "(of_char (c :: char) :: nat) div 16 < 16" "(of_char (c :: char) :: nat) mod 16 < 16"
  using of_char_lt [of c] by (simp_all add: div_less_iff_less_mult)

lemma scan_html: "scan_val True d (html_esc c @ r) = html_esc c @ scan_val True d r"
proof -
  let ?h = "CHR 0x5C # ''u00'' @ [hexd (of_char c div 16), hexd (of_char c mod 16)]"
  have h: "scan_val True d (?h @ r) = ?h @ scan_val True d r" by (simp add: char_code_lt)
  show ?thesis
  proof (cases "esc_pair (of_char c)")
    case None
    then have "html_esc c = ?h \<or> html_esc c = [c] \<and> c \<noteq> CHR 0x22 \<and> c \<noteq> CHR 0x5C"
      using esc_pair_none [OF None] by (simp add: html_esc_def json_esc_cases Let_def)
    then show ?thesis
    proof
      assume "html_esc c = ?h"
      with h show ?thesis by (simp only:)
    qed simp
  next
    case (Some x)
    then have "html_esc c = ?h \<or> html_esc c = [CHR 0x5C, x]"
      by (simp add: html_esc_def json_esc_cases Let_def)
    then show ?thesis
    proof
      assume "html_esc c = ?h"
      with h show ?thesis by (simp only:)
    qed simp
  qed
qed

lemma scan_high: "list_all (\<lambda>c. 128 \<le> (of_char c :: nat)) xs \<Longrightarrow> scan_val True d (xs @ r) = xs @ scan_val True d r"
  by (induction xs) auto

lemma rune_high: "rune_width (c # s) \<noteq> 0 \<Longrightarrow> \<not> of_char c < (128 :: nat) \<Longrightarrow>
    list_all (\<lambda>c. 128 \<le> (of_char c :: nat)) (take (rune_width (c # s)) (c # s))"
  by (auto simp: rune_width_def cont_def between_def list_all_iff split: if_splits)

lemma scan_body: "scan_val True d (json_text html_esc s @ r) = json_text html_esc s @ scan_val True d r"
proof (induction "length s" arbitrary: s rule: less_induct)
  case less
  show ?case
  proof (cases s)
    case (Cons c t)
    let ?w = "rune_width s"
    show ?thesis
    proof (cases "of_char c < (128 :: nat)")
      case True
      with less [of t] show ?thesis by (simp add: Cons scan_html)
    next
      case high: False
      have rest: "scan_val True d (json_text html_esc t @ r) = json_text html_esc t @ scan_val True d r"
        "?w \<noteq> 0 \<Longrightarrow> scan_val True d (json_text html_esc (drop ?w s) @ r) = json_text html_esc (drop ?w s) @ scan_val True d r"
        by (rule less; simp add: Cons)+
      show ?thesis
      proof (cases "?w = 0")
        case True
        with high rest(1) show ?thesis by (simp add: json_text.simps [of _ s]) (simp add: Cons)
      next
        case False
        have ru: "list_all (\<lambda>c. 128 \<le> (of_char c :: nat)) (take ?w s)" using False high rune_high [of c t] by (simp add: Cons)
        have "hd (take ?w s) = c" using False by (simp add: Cons hd_take)
        with high rest(2) [OF False] scan_high [OF ru] show ?thesis
          by (simp add: json_text_rune [OF _ False] Cons [THEN arg_cong [where f = "\<lambda>x. x \<noteq> []"], simplified] rune_text_def)
      qed
    qed
  qed simp
qed

lemma scan_string: "scan_val False d (json_string s @ r) = json_string s @ scan_val False d r"
  by (simp add: json_string_def scan_body)

definition reads :: "string \<Rightarrow> bool" where
  "reads t = (\<forall>d r. scan_val False d (t @ r) = t @ scan_val False d r)"

lemma reads_join:
  assumes "\<forall>t \<in> set ts. reads t"
  shows "scan_val False (Suc d) (join '','' ts @ r) = join '','' ts @ scan_val False (Suc d) r"
  using assms by (induction "'',''" ts rule: join.induct) (auto simp: reads_def)

lemma reads_bracket: "\<forall>t \<in> set ts. reads t \<Longrightarrow> reads (''['' @ join '','' ts @ '']'')"
  using reads_join by (simp add: reads_def)

lemma reads_brace: "\<forall>t \<in> set ts. reads t \<Longrightarrow> reads (''{'' @ join '','' ts @ ''}'')"
  using reads_join by (simp add: reads_def)

lemma reads_member: "reads t \<Longrightarrow> reads (json_string k @ '':'' @ t)"
  by (simp add: reads_def scan_string)

lemma compact_reads:
  assumes "plain_num num"
  shows "reads (compact_json num v)"
proof (induction v)
  case (JNum q)
  then show ?case using assms by (auto simp: reads_def plain_num_def intro!: scan_plain)
next
  case (JStr s)
  then show ?case by (simp add: reads_def scan_string)
next
  case (JArr vs)
  then show ?case by (simp only: compact_json.simps) (rule reads_bracket, auto)
next
  case (JObj m)
  show ?case
  proof -
    have "reads (compact_json num (snd kv))" if "kv \<in> set m" for kv
      using JObj [of kv "snd kv"] that by (cases kv) auto
    then have "\<forall>t \<in> set (map (\<lambda>kv. json_string (fst kv) @ '':'' @ snd kv)
        (sort_by (\<lambda>a b. str_less (fst a) (fst b)) (map (\<lambda>kv. (fst kv, compact_json num (snd kv))) m))). reads t"
      using reads_member by auto
    then show ?thesis by (simp only: compact_json.simps reads_brace)
  qed
qed (auto simp: reads_def)

lemma reads_stop:
  assumes "reads a" "reads b" "a @ '','' @ r = b @ '','' @ r'"
  shows "a = b \<and> r = r'"
proof -
  have "scan_val False 0 (a @ '','' @ r) = a" "scan_val False 0 (b @ '','' @ r') = b"
    using assms(1,2) by (simp_all add: reads_def)
  with assms(3) show ?thesis by auto
qed

subsection \<open>Tamper evidence\<close>

lemma hex_digit_plain: "n < 16 \<Longrightarrow> html_esc (hex_digit n) = [hex_digit n]"
proof -
  assume n: "n < 16"
  then have v: "of_char (hex_digit n) = (if n < 10 then 48 + n else 87 + n :: nat)" by (simp add: hex_digit_def)
  show ?thesis using n by (cases "n < 10") (simp_all add: html_esc_def json_esc_def Let_def v)
qed

lemma hex_digit_ascii: "n < 16 \<Longrightarrow> of_char (hex_digit n) < (128 :: nat)"
proof -
  assume "n < 16"
  then have "of_char (hex_digit n) = (if n < 10 then 48 + n else 87 + n :: nat)" by (simp add: hex_digit_def)
  with \<open>n < 16\<close> show ?thesis by simp
qed

lemma html_hex: "json_text html_esc (hex_encode bs) = hex_encode bs"
  by (induction bs) (simp_all add: hex_encode_def Let_def hex_digit_plain hex_digit_ascii char_code_lt)

lemma utf8_hex: "utf8 (hex_encode bs)"
  by (induction bs) (simp_all add: hex_encode_def Let_def hex_digit_ascii char_code_lt)

lemma json_hex_inj: "json_string (hex_encode a) = json_string (hex_encode b) \<Longrightarrow> hex_encode a = hex_encode b"
  by (simp add: json_string_def html_hex)

lemma hex_digit_inj: "m < 16 \<Longrightarrow> n < 16 \<Longrightarrow> hex_digit m = hex_digit n \<Longrightarrow> m = n"
  using hexd_inj by (simp add: hexd_def hex_digit_def)

lemma hex_encode_inj: "hex_encode a = hex_encode b \<Longrightarrow> a = b"
proof (induction a arbitrary: b)
  case Nil
  then show ?case by (cases b) (simp_all add: hex_encode_def Let_def)
next
  case (Cons x a)
  then obtain y c where b: "b = y # c" by (cases b) (auto simp: hex_encode_def Let_def)
  from Cons.prems have "hex_digit (of_char x div 16) = hex_digit (of_char y div 16)"
    "hex_digit (of_char x mod 16) = hex_digit (of_char y mod 16)" "hex_encode a = hex_encode c"
    by (simp_all add: b hex_encode_def Let_def)
  then have "of_char x div 16 = (of_char y div 16 :: nat)" "of_char x mod 16 = (of_char y mod 16 :: nat)" "a = c"
    using hex_digit_inj char_code_lt Cons.IH by metis+
  then have "of_char x = (of_char y :: nat)" by (metis div_mult_mod_eq)
  with \<open>a = c\<close> b show ?case by simp
qed

text \<open>The text hashed for a record, and the members in front of its link.\<close>

definition canon_text :: "hash_env \<Rightarrow> PublicDecision \<Rightarrow> string" where
  "canon_text e r = compact_json (he_num e) (clean_json (canonicalDecision r))"

definition head_members :: "hash_env \<Rightarrow> PublicDecision \<Rightarrow> (string \<times> json) list" where
  "head_members e r = map (\<lambda>(k, v). (k, clean_json v))
    [(''actions'', JArr (pd_Actions r)), (''constitution_digest'', JStr (pd_ConstitutionDigest r)),
     (''decision'', JStr (pd_Decision r)), (''decision_id'', JStr (pd_DecisionID r)), (''dissent'', JArr (pd_Dissent r)),
     (''evidence_digests'', jstrs (pd_EvidenceDigests r)), (''previous_record_hash'', JStr (pd_PreviousRecordHash r))]"

definition member_text :: "hash_env \<Rightarrow> string \<times> json \<Rightarrow> string" where
  "member_text e kv = json_string (fst kv) @ '':'' @ compact_json (he_num e) (snd kv)"

lemma canon_text_head:
  "\<exists>rest. canon_text e r = ''{'' @ concat (map (\<lambda>kv. member_text e kv @ '','') (head_members e r)) @ rest"
  by (simp add: canon_text_def canonicalDecision_def decision_json_def jstrs_def head_members_def member_text_def)

lemma members_stop:
  assumes "length ts = length us" "\<forall>t \<in> set ts \<union> set us. reads t"
    "concat (map (\<lambda>t. t @ '','') ts) @ r = concat (map (\<lambda>t. t @ '','') us) @ r'"
  shows "ts = us"
  using assms
proof (induction ts us arbitrary: r r' rule: list_induct2)
  case (Cons t ts u us)
  have "t = u \<and> concat (map (\<lambda>t. t @ '','') ts) @ r = concat (map (\<lambda>t. t @ '','') us) @ r'"
    using Cons.prems by (intro reads_stop) simp_all
  with Cons.IH [of r r'] Cons.prems(1) show ?case by simp
qed simp

lemma text_heads:
  assumes num: "plain_num (he_num e)" and eq: "canon_text e a = canon_text e b"
  shows "map (member_text e) (head_members e a) = map (member_text e) (head_members e b)"
proof -
  let ?ts = "\<lambda>r. map (member_text e) (head_members e r)"
  have m: "reads (member_text e kv)" for kv
    unfolding member_text_def by (intro reads_member compact_reads num)
  obtain ra where ra: "canon_text e a = ''{'' @ concat (map (\<lambda>t. t @ '','') (?ts a)) @ ra"
    using canon_text_head [of e a] by (auto simp: comp_def)
  obtain rb where rb: "canon_text e b = ''{'' @ concat (map (\<lambda>t. t @ '','') (?ts b)) @ rb"
    using canon_text_head [of e b] by (auto simp: comp_def)
  have "concat (map (\<lambda>t. t @ '','') (?ts a)) @ ra = concat (map (\<lambda>t. t @ '','') (?ts b)) @ rb"
    using eq unfolding ra rb by (rule same_append_eq [THEN iffD1])
  then show ?thesis
    using m by (intro members_stop) (auto simp: head_members_def)
qed

lemma text_link:
  assumes num: "plain_num (he_num e)" and eq: "canon_text e a = canon_text e b"
    and hex: "pd_PreviousRecordHash a = hex_encode x" "pd_PreviousRecordHash b = hex_encode y"
  shows "pd_PreviousRecordHash a = pd_PreviousRecordHash b"
proof -
  have "last (map (member_text e) (head_members e a)) = last (map (member_text e) (head_members e b))"
    using text_heads [OF num eq] by (rule arg_cong)
  then have "json_string (hex_encode x) = json_string (hex_encode y)"
    by (simp add: head_members_def member_text_def hex utf8_hex)
  then show ?thesis using hex json_hex_inj by simp
qed

lemma chain_link:
  assumes "chain_from e p (r # rs)"
  shows "pd_PreviousRecordHash r = p" "pd_RecordHash r = hex_encode (he_sha256 e (canon_text e r))"
    "chain_from e (pd_RecordHash r) rs"
  using assms by (auto simp: recordHash_def canon_text_def split: if_splits)

text \<open>Two different hashed texts at one place of the two ledgers under one SHA-256 value.\<close>

definition forged_at :: "hash_env \<Rightarrow> PublicDecision \<times> PublicDecision \<Rightarrow> bool" where
  "forged_at e ru = (canon_text e (fst ru) \<noteq> canon_text e (snd ru) \<and>
     he_sha256 e (canon_text e (fst ru)) = he_sha256 e (canon_text e (snd ru)))"

lemma chains_agree:
  assumes num: "plain_num (he_num e)" and free: "\<not> list_ex (forged_at e) (zip rs us)"
    and "length rs = length us" "chain_from e (hex_encode x) rs" "chain_from e (hex_encode y) us"
    "tip (hex_encode x) rs = tip (hex_encode y) us"
  shows "hex_encode x = hex_encode y \<and> map (canon_text e) rs = map (canon_text e) us \<and>
    map pd_RecordHash rs = map pd_RecordHash us"
  using assms(3,2,4-)
proof (induction rs us arbitrary: x y rule: list_induct2)
  case (Cons r rs u us)
  note r = chain_link [OF Cons.prems(2)] and u = chain_link [OF Cons.prems(3)]
  have "tip (pd_RecordHash r) rs = tip (pd_RecordHash u) us" using Cons.prems(4) by simp
  moreover have "\<not> list_ex (forged_at e) (zip rs us)" and fr: "\<not> forged_at e (r, u)" using Cons.prems(1) by simp_all
  ultimately have ih: "pd_RecordHash r = pd_RecordHash u"
    "map (canon_text e) rs = map (canon_text e) us" "map pd_RecordHash rs = map pd_RecordHash us"
    using Cons.IH r(3) u(3) unfolding r(2) u(2) by blast+
  then have "canon_text e r = canon_text e u"
    using fr hex_encode_inj r(2) u(2) unfolding forged_at_def by (metis fst_conv snd_conv)
  with text_link [OF num this r(1) u(1)] r(1) u(1) ih show ?case by simp
qed simp

text \<open>C17: tamper evidence of the ledger. Two ledgers of the same length that both pass the check and end
  in the same record hash agree, record by record, on the hashed text of every record and on every record
  hash, unless these very ledgers hold, at one and the same place, two different texts with one SHA-256
  value: whoever keeps the last hash detects any later change of an earlier record that does not come
  with such a collision.\<close>

theorem tamper_evident:
  assumes "plain_num (he_num e)" "verifyChain e rs" "verifyChain e us" "length rs = length us"
    "tip [] rs = tip [] us"
  shows "list_ex (forged_at e) (zip rs us) \<or>
    map (canon_text e) rs = map (canon_text e) us \<and> map pd_RecordHash rs = map pd_RecordHash us"
  using assms chains_agree [of e rs us "[]" "[]"] by (auto simp: verifyChain_def hex_encode_def)

text \<open>A hash that tells no two texts apart. Under it a BLOCK turned into an APPROVE passes the check
  with the same last hash, and the theorem names the place; the seeded ledger has no such place.\<close>

definition sample_hash :: hash_env where
  "sample_hash = \<lparr>he_sha256 = (\<lambda>s. replicate 32 (CHR ''h'')), he_num = (\<lambda>q. int_str \<lfloor>q\<rfloor>)\<rparr>"

definition sample_record :: "string \<Rightarrow> PublicDecision" where
  "sample_record d = \<lparr>pd_Protocol = [], pd_DecisionID = ''d'', pd_ProposalID = ''p'', pd_Title = ''t'', pd_RiskClass = ''high'',
     pd_Decision = d, pd_Severity = ''HIGH'', pd_Votes = [], pd_RequiredControls = [], pd_Dissent = [], pd_Actions = [],
     pd_EvidenceDigests = [], pd_RosterDigest = [], pd_ConstitutionDigest = [], pd_PreviousRecordHash = [], pd_PublishedAt = 1,
     pd_RecordHash = hex_encode (replicate 32 (CHR ''h''))\<rparr>"

lemma plain_digit: "is_digit c \<Longrightarrow> plain_char c"
  by (auto simp: plain_char_def is_digit_def)

lemma sample_plain: "plain_num (he_num sample_hash)"
proof -
  have "list_all plain_char (nat_str n)" for n
    using nat_str_digits plain_digit by (auto simp: list_all_iff)
  then show ?thesis by (simp add: plain_num_def sample_hash_def int_str_def plain_char_def)
qed

lemma sample_texts: "canon_text sample_hash (sample_record ''BLOCK'') \<noteq> canon_text sample_hash (sample_record ''APPROVE'')"
proof
  assume "canon_text sample_hash (sample_record ''BLOCK'') = canon_text sample_hash (sample_record ''APPROVE'')"
  then have "map (member_text sample_hash) (head_members sample_hash (sample_record ''BLOCK'')) =
      map (member_text sample_hash) (head_members sample_hash (sample_record ''APPROVE''))"
    by (rule text_heads [OF sample_plain])
  then show False
    by (simp add: head_members_def sample_record_def member_text_def json_string_def html_esc_def json_esc_def Let_def)
qed

lemma sample_chain: "verifyChain sample_hash [sample_record d]"
  by (simp add: verifyChain_def recordHash_def sample_hash_def sample_record_def)

lemma tamper_evident_witness:
  "list_ex (forged_at sample_hash) (zip [sample_record ''BLOCK''] [sample_record ''APPROVE'']) \<and>
   \<not> list_ex (forged_at sample_hash) (zip (demoDecisions sample_hash ''x'') (demoDecisions sample_hash ''x''))"
proof -
  have "length [sample_record ''BLOCK''] = length [sample_record ''APPROVE'']"
    "tip [] [sample_record ''BLOCK''] = tip [] [sample_record ''APPROVE'']" by (simp_all add: sample_record_def)
  from tamper_evident [OF sample_plain sample_chain sample_chain this] sample_texts
  have "list_ex (forged_at sample_hash) (zip [sample_record ''BLOCK''] [sample_record ''APPROVE''])" by auto
  then show ?thesis by (auto simp: list_ex_iff forged_at_def zip_same_conv_map)
qed

subsection \<open>The server's panel\<close>

lemma count_reviews_filter: "count_reviews P rs = int (length (filter P rs))"
proof -
  have "foldl (\<lambda>n r. if P r then n + 1 else n) a rs = a + int (length (filter P rs))" for a
    by (induction rs arbitrary: a) auto
  then show ?thesis by (simp add: count_reviews_def)
qed

lemma count_reviews_perm:
  assumes "mset xs = mset ys"
  shows "count_reviews P (map f xs) = count_reviews P (map f ys)"
proof -
  have "mset (filter P (map f xs)) = mset (filter P (map f ys))" using assms by (simp add: mset_filter mset_map)
  then show ?thesis unfolding count_reviews_filter by (metis size_mset)
qed

lemma list_ex_perm: "mset xs = mset ys \<Longrightarrow> list_ex P (map f xs) = list_ex P (map f ys)"
  by (metis list_ex_iff mset_map set_mset_mset)

definition seated :: "ReviewProposal \<Rightarrow> Reviewer \<Rightarrow> Review" where
  "seated p rv = (the (review rv p))\<lparr>rv_Seat := seat rv, rv_Role := role rv\<rparr>"

lemma collect_total: "\<forall>rv \<in> set rs. review rv p \<noteq> None \<Longrightarrow> collect p rs = (map (seated p) rs, [])"
  by (induction rs) (auto simp: seated_def split: option.splits)

lemma decide_perm:
  assumes "mset xs = mset ys"
  shows "decide pol (map f xs) ms = decide pol (map f ys) ms"
  by (simp only: decide_def count_reviews_perm [OF assms] list_ex_perm [OF assms])

text \<open>A panel no larger than the policy asks for sits whole, whatever order the hashes give it.\<close>

lemma Evaluate_whole_panel:
  assumes "int (length panel) \<le> policy_count pol (prop_RiskClass p)" "\<forall>rv \<in> set panel. review rv p \<noteq> None"
  shows "oc_Decision (Evaluate e order now pol panel p) = decide pol (map (seated p) panel) []"
proof -
  have sel: "select e pol p panel = sort_by (rank_less e (prop_ID p)) panel"
    using assms(1) by (auto simp: select_def Let_def intro!: take_all)
  have "collect p (select e pol p panel) = (map (seated p) (select e pol p panel), [])"
    using assms(2) by (intro collect_total) (simp add: sel)
  moreover have "mset (select e pol p panel) = mset panel" by (simp add: sel)
  ultimately show ?thesis
    by (simp add: Evaluate_def Let_def decide_perm [where xs = "select e pol p panel" and ys = panel])
qed

definition malformed :: "int \<Rightarrow> int \<Rightarrow> int \<Rightarrow> int \<Rightarrow> bool" where
  "malformed items pt ct red = (items \<le> 0 \<or> ct < 0 \<or> pt < 0 \<or> red < 1 \<or> red > 3 \<or> items > 5000)"

lemma workload_facts:
  assumes "p = ForWorkload e jf now model cls tier items pt ct red spot price eta"
  shows "Facts p ''items'' = Some (FInt items)" "Facts p ''redundancy'' = Some (FInt red)"
    "Facts p ''completion_tokens'' = Some (FInt64 ct)" "Facts p ''prompt_tokens'' = Some (FInt64 pt)"
    "Facts p ''price_usd'' = Some (FFloat price)" "prop_RiskClass p \<in> {RiskHigh, RiskNormal}"
    "Facts p ''tier'' = Some (FStr tier)" "Facts p ''spot'' = Some (FBool spot)"
  using assms by (simp_all add: ForWorkload_def Let_def)

text \<open>What the other two seats flag: a large community batch on one device or triple redundancy on spot
  capacity; a price under a cent for a million tokens, the token counts times the items.\<close>

definition node_flagged :: "int \<Rightarrow> int \<Rightarrow> string \<Rightarrow> bool \<Rightarrow> bool" where
  "node_flagged items red tier spot = (tier = ''community'' \<and> items > 1000 \<and> red < 2 \<or> spot \<and> red \<ge> 3)"

definition under_priced :: "int \<Rightarrow> int \<Rightarrow> int \<Rightarrow> f64 \<Rightarrow> bool" where
  "under_priced items pt ct price = (let tot = wrap64 (wrap64 (ct + pt) * max 1 items) in
     tot > 0 \<and> price * Fin 1000000 / f64_of_int tot < rnd (1 / 100))"

lemma deterministic_verdict:
  assumes "p = ForWorkload e jf now model cls tier items pt ct red spot price eta"
  shows "\<exists>r. Deterministic_Review p = Some r \<and> \<not> critical_block r \<and> high_block r = malformed items pt ct red
    \<and> (rv_Decision r = Approve) = (\<not> malformed items pt ct red)"
  using workload_facts [OF assms]
  by (auto simp: Deterministic_Review_def Let_def malformed_def mk_review_def high_block_def critical_block_def)

lemma cost_verdict:
  assumes "p = ForWorkload e jf now model cls tier items pt ct red spot price eta"
  shows "\<exists>r. CostGovernance_Review p = Some r \<and> \<not> critical_block r \<and> high_block r = (price \<le> 0)
    \<and> (rv_Decision r = Approve) = (\<not> price \<le> 0 \<and> \<not> under_priced items pt ct price)"
  using workload_facts [OF assms]
  by (auto simp: CostGovernance_Review_def Let_def mk_review_def high_block_def critical_block_def under_priced_def max_def)

lemma safety_soft: "\<exists>r. NodeSafety_Review p = Some r \<and> \<not> critical_block r \<and> \<not> high_block r"
  by (auto simp: NodeSafety_Review_def Let_def mk_review_def high_block_def critical_block_def)

lemma safety_verdict:
  assumes "p = ForWorkload e jf now model cls tier items pt ct red spot price eta"
  shows "\<exists>r. NodeSafety_Review p = Some r \<and> \<not> critical_block r \<and> \<not> high_block r
    \<and> (rv_Decision r = Approve) = (\<not> node_flagged items red tier spot)"
  using workload_facts [OF assms]
  by (auto simp: NodeSafety_Review_def Let_def mk_review_def high_block_def critical_block_def node_flagged_def)

lemma block_flags_seated [simp]:
  "critical_block (r\<lparr>rv_Seat := a, rv_Role := b\<rparr>) = critical_block r"
  "high_block (r\<lparr>rv_Seat := a, rv_Role := b\<rparr>) = high_block r"
  by (simp_all add: critical_block_def high_block_def)

text \<open>C16: what the server's own panel decides. For every workload it is asked about, with the default policy
  and no model seat, the outcome is BLOCK exactly when the parameters are out of bounds and at the same
  time the price is not positive; it is CONDITIONAL when only one of the two holds, or when the node-safety
  or the pricing rule flags the workload; otherwise it is APPROVE. Only BLOCK is not acceptable, so one
  structural BLOCK alone, a price of zero or less included, passes (docs/GO-TO-MARKET.md:134 says a
  non-positive price blocks).\<close>

theorem server_panel_blocks_iff:
  "let outc = Evaluate e order now DefaultPolicy (server_panel None)
      (ForWorkload e jf t model cls tier items pt ct red spot price eta) in
   oc_Decision outc =
     (if malformed items pt ct red \<and> price \<le> 0 then Block
      else if malformed items pt ct red \<or> price \<le> 0 \<or> node_flagged items red tier spot \<or> under_priced items pt ct price
        then Conditional
      else Approve) \<and>
   (Acceptable (Some outc) \<longleftrightarrow> \<not> (malformed items pt ct red \<and> price \<le> 0))"
proof -
  define p where "p = ForWorkload e jf t model cls tier items pt ct red spot price eta"
  obtain a where a: "Deterministic_Review p = Some a" "\<not> critical_block a" "high_block a = malformed items pt ct red"
    "(rv_Decision a = Approve) = (\<not> malformed items pt ct red)"
    using deterministic_verdict [OF p_def] by blast
  obtain b where b: "NodeSafety_Review p = Some b" "\<not> critical_block b" "\<not> high_block b"
    "(rv_Decision b = Approve) = (\<not> node_flagged items red tier spot)"
    using safety_verdict [OF p_def] by blast
  obtain c where c: "CostGovernance_Review p = Some c" "\<not> critical_block c" "high_block c = (price \<le> 0)"
    "(rv_Decision c = Approve) = (\<not> price \<le> 0 \<and> \<not> under_priced items pt ct price)"
    using cost_verdict [OF p_def] by blast
  have "int (length (server_panel None)) \<le> policy_count DefaultPolicy (prop_RiskClass p)"
    using workload_facts(6) [OF p_def]
    by (auto simp: server_panel_def policy_count_def DefaultPolicy_def RiskHigh_def RiskNormal_def RiskCritical_def)
  then have "oc_Decision (Evaluate e order now DefaultPolicy (server_panel None) p) =
      decide DefaultPolicy (map (seated p) (server_panel None)) []"
    using a b c by (intro Evaluate_whole_panel) (auto simp: server_panel_def)
  then show ?thesis using a b c
    by (simp add: Let_def Acceptable_def p_def [symmetric] server_panel_def seated_def decide_def count_reviews_filter
      DefaultPolicy_def)
qed

text \<open>
  \<open>CostGovernance\<close> multiplies token counts by the number of items, but the quote handler passes
  the totals of the whole workload. One cent for 50 items of 30,600 tokens in all, 0.33 dollars a
  million tokens and above the whole SMALL price list, is flagged as priced under 0.01.
\<close>

lemma cent_values:
  "rnd (1 / 100) = Fin (5764607523034235 / 576460752303423488)"
  "rnd (5764607523034235 / 576460752303423488 * 1000000) = Fin 10000"
  "rnd (10000 / 1530000) = Fin (7535434670632987 / 1152921504606846976)"
  "rnd (10000 / 30600) = Fin (5887058336432021 / 18014398509481984)"
  "f64_of_int 1530000 = Fin 1530000" "f64_of_int 30600 = Fin 30600"
  by (simp_all add: f64_eval f64_of_int_exact)

lemma fair_price_flagged:
  assumes "p = ForWorkload e jf now model cls tier 50 5000 25600 1 spot (rnd (1 / 100)) eta"
  shows "map_option rv_Decision (CostGovernance_Review p) = Some Conditional"
    "Fin (32 / 100) < rnd (1 / 100) * Fin 1000000 / f64_of_int (5000 + 25600)"
proof -
  note ev = cent_values [simplified]
  have "rnd (1 / 100) * Fin 1000000 / f64_of_int 1530000 < rnd (1 / 100) \<and> \<not> rnd (1 / 100) \<le> 0"
    by (simp add: f64_ops ev)
  then show "map_option rv_Decision (CostGovernance_Review p) = Some Conditional"
    by (simp add: CostGovernance_Review_def Let_def workload_facts [OF assms] wrap64_def mk_review_def)
  show "Fin (32 / 100) < rnd (1 / 100) * Fin 1000000 / f64_of_int (5000 + 25600)"
    by (simp add: f64_ops ev)
qed

end
