(* ===== verification/Config.thy ===== *)
theory Config
  imports Codec Float64
begin

text \<open>
  Package \<open>config\<close> (coordinator/internal/config/config.go): the coordinator's configuration, read
  from the environment. \<open>env k\<close> is what \<open>os.Getenv\<close> returns (the empty string when unset);
  \<open>parseF\<close> is \<open>strconv.ParseFloat\<close>, \<open>None\<close> for an error.
\<close>

record Config =
  cf_HTTPAddr :: string
  cf_ConsumerAPIKeys :: "string set"
  cf_ProviderRegistrationTokens :: "string set"
  cf_HeartbeatSeconds :: int
  cf_ManifestURL :: string
  cf_RegistryPubKey :: string
  cf_JobDeadlineMS :: int
  cf_DatabaseURL :: string
  cf_RatePerMin :: int
  cf_AdminToken :: string
  cf_StripeSecretKey :: string
  cf_StripeWebhookSecret :: string
  cf_StripeConnectWebhookSecret :: string
  cf_PublicBaseURL :: string
  cf_BillingEnforce :: bool
  cf_PriceMultiplier :: f64
  cf_MarketplaceMargin :: f64
  cf_QuoteTTLSeconds :: int
  cf_RunResultsTTLSeconds :: int
  cf_MaxAsyncRunsPerKey :: int
  cf_AllowInsecureWebhooks :: bool
  cf_GitHubClientID :: string
  cf_GitHubClientSecret :: string
  cf_GoogleClientID :: string
  cf_GoogleClientSecret :: string
  cf_AuthCallbackBase :: string
  cf_AppURL :: string
  cf_CookieDomain :: string
  cf_ManifestSigningKey :: string
  cf_ManifestSignerID :: string
  cf_ManifestKMSKey :: string
  cf_SpotPriceFactor :: f64
  cf_SpotEtaSlack :: f64
  cf_DemoEnabled :: bool
  cf_ConnectDemoEnabled :: bool
  cf_CouncilModelAPI :: string
  cf_CouncilModelKey :: string
  cf_CouncilModelID :: string

datatype config_error = NoConsumerKeys | NoProviderTokens | HeartbeatRange

definition getenv :: "(string \<Rightarrow> string) \<Rightarrow> string \<Rightarrow> string \<Rightarrow> string" where
  "getenv env k def = (let v = env k in if v \<noteq> [] then v else def)"

text \<open>\<open>strconv.Atoi\<close>: an optional sign and decimal digits, in the range of a 64-bit int.\<close>

definition Atoi :: "string \<Rightarrow> int option" where
  "Atoi s = (let neg = (s \<noteq> [] \<and> hd s = CHR ''-'');
       ds = (if s \<noteq> [] \<and> (hd s = CHR ''-'' \<or> hd s = CHR ''+'') then tl s else s);
       v = (if neg then - int (dec_val ds) else int (dec_val ds)) in
     if ds = [] \<or> \<not> list_all is_digit ds \<or> \<not> is_int64 v then None else Some v)"

definition getenvInt :: "(string \<Rightarrow> string) \<Rightarrow> string \<Rightarrow> int \<Rightarrow> int" where
  "getenvInt env k def = (let v = env k in
     if v \<noteq> [] then (case Atoi v of Some n \<Rightarrow> n | None \<Rightarrow> def) else def)"

definition getenvFloat :: "(string \<Rightarrow> f64 option) \<Rightarrow> (string \<Rightarrow> string) \<Rightarrow> string \<Rightarrow> f64 \<Rightarrow> f64" where
  "getenvFloat parseF env k def = (let v = env k in
     if v \<noteq> [] then (case parseF v of Some f \<Rightarrow> if f > 0 then f else def | None \<Rightarrow> def) else def)"

definition csv_set :: "string \<Rightarrow> string set" where
  "csv_set csv = set (filter (\<lambda>p. p \<noteq> []) (map trim_space (split_on (CHR '','') csv)))"

definition trim_slashes :: "string \<Rightarrow> string" where
  "trim_slashes s = rev (dropWhile (\<lambda>c. c = CHR ''/'') (rev s))"

definition read_env :: "(string \<Rightarrow> f64 option) \<Rightarrow> (string \<Rightarrow> string) \<Rightarrow> Config" where
  "read_env parseF env = \<lparr>
     cf_HTTPAddr = getenv env ''SC_HTTP_ADDR'' '':8080'',
     cf_ConsumerAPIKeys = csv_set (getenv env ''SC_CONSUMER_API_KEYS'' ''dev-consumer-key''),
     cf_ProviderRegistrationTokens = csv_set (getenv env ''SC_PROVIDER_TOKENS'' ''dev-provider-token''),
     cf_HeartbeatSeconds = getenvInt env ''SC_HEARTBEAT_SECONDS'' 15,
     cf_ManifestURL = getenv env ''SC_MANIFEST_URL'' [],
     cf_RegistryPubKey = getenv env ''SC_REGISTRY_PUBKEY'' [],
     cf_JobDeadlineMS = getenvInt env ''SC_JOB_DEADLINE_MS'' 120000,
     cf_DatabaseURL = getenv env ''SC_DATABASE_URL'' [],
     cf_RatePerMin = getenvInt env ''SC_RATE_PER_MIN'' 120,
     cf_AdminToken = getenv env ''SC_ADMIN_TOKEN'' [],
     cf_StripeSecretKey = getenv env ''SC_STRIPE_SECRET_KEY'' [],
     cf_StripeWebhookSecret = getenv env ''SC_STRIPE_WEBHOOK_SECRET'' [],
     cf_StripeConnectWebhookSecret = getenv env ''SC_STRIPE_CONNECT_WEBHOOK_SECRET'' [],
     cf_PublicBaseURL = trim_slashes (getenv env ''SC_PUBLIC_BASE_URL'' ''https://ayni-ai.com''),
     cf_BillingEnforce = (getenv env ''SC_BILLING_ENFORCE'' [] = ''1''),
     cf_PriceMultiplier = getenvFloat parseF env ''SC_PRICE_MULTIPLIER'' 1,
     cf_MarketplaceMargin = getenvFloat parseF env ''SC_MARKETPLACE_MARGIN'' (rnd (30 / 100)),
     cf_QuoteTTLSeconds = getenvInt env ''SC_QUOTE_TTL_SECONDS'' 600,
     cf_RunResultsTTLSeconds = getenvInt env ''SC_RUN_RESULTS_TTL_SECONDS'' 3600,
     cf_MaxAsyncRunsPerKey = getenvInt env ''SC_MAX_ASYNC_RUNS_PER_KEY'' 4,
     cf_AllowInsecureWebhooks = (getenv env ''SC_ALLOW_INSECURE_WEBHOOKS'' [] = ''1''),
     cf_GitHubClientID = getenv env ''SC_GITHUB_CLIENT_ID'' [],
     cf_GitHubClientSecret = getenv env ''SC_GITHUB_CLIENT_SECRET'' [],
     cf_GoogleClientID = getenv env ''SC_GOOGLE_CLIENT_ID'' [],
     cf_GoogleClientSecret = getenv env ''SC_GOOGLE_CLIENT_SECRET'' [],
     cf_AuthCallbackBase = trim_slashes (getenv env ''SC_AUTH_CALLBACK_BASE'' ''https://api.ayni-ai.com''),
     cf_AppURL = trim_slashes (getenv env ''SC_APP_URL'' ''https://app.ayni-ai.com''),
     cf_CookieDomain = getenv env ''SC_COOKIE_DOMAIN'' ''.ayni-ai.com'',
     cf_ManifestSigningKey = getenv env ''SC_MANIFEST_SIGNING_KEY'' [],
     cf_ManifestSignerID = getenv env ''SC_MANIFEST_SIGNER_ID'' ''signer-v1'',
     cf_ManifestKMSKey = getenv env ''SC_MANIFEST_KMS_KEY'' [],
     cf_SpotPriceFactor = getenvFloat parseF env ''SC_SPOT_PRICE_FACTOR'' (rnd (6 / 10)),
     cf_SpotEtaSlack = getenvFloat parseF env ''SC_SPOT_ETA_SLACK'' (Fin 3),
     cf_DemoEnabled = (getenv env ''SC_DEMO_ENABLED'' [] = ''1''),
     cf_ConnectDemoEnabled = (getenv env ''SC_CONNECT_DEMO_ENABLED'' [] = ''1''),
     cf_CouncilModelAPI = getenv env ''SC_COUNCIL_MODEL_API'' [],
     cf_CouncilModelKey = getenv env ''SC_COUNCIL_MODEL_KEY'' [],
     cf_CouncilModelID = getenv env ''SC_COUNCIL_MODEL_ID'' []\<rparr>"

definition Load :: "(string \<Rightarrow> f64 option) \<Rightarrow> (string \<Rightarrow> string) \<Rightarrow> config_error + Config" where
  "Load parseF env = (let c = read_env parseF env in
     if cf_ConsumerAPIKeys c = {} then Inl NoConsumerKeys
     else if cf_ProviderRegistrationTokens c = {} then Inl NoProviderTokens
     else if cf_HeartbeatSeconds c < 5 \<or> cf_HeartbeatSeconds c > 120 then Inl HeartbeatRange
     else Inr c)"

lemma getenvFloat_pos: "def > 0 \<Longrightarrow> getenvFloat parseF env k def > 0"
  by (auto simp: getenvFloat_def Let_def split: option.splits)

lemma csv_set_trimmed: "[] \<notin> csv_set s"
  by (auto simp: csv_set_def)

lemma float_defaults: "0 < (1 :: f64)" "0 < rnd (3 / 10)" "0 < rnd (3 / 5)" "0 < Fin 3"
  by (simp_all add: f64_eval)

text \<open>Whatever the environment holds, a configuration that loads has at least one accepted
  consumer key and one provider token, none of them empty, a heartbeat of 5 to 120 seconds, and
  strictly positive price multiplier, margin, spot factor and spot slack: the values the
  pricing and quoting code multiplies with.\<close>

lemma Load_ok:
  assumes "Load parseF env = Inr c"
  shows "cf_ConsumerAPIKeys c \<noteq> {} \<and> [] \<notin> cf_ConsumerAPIKeys c \<and>
    cf_ProviderRegistrationTokens c \<noteq> {} \<and> [] \<notin> cf_ProviderRegistrationTokens c \<and>
    5 \<le> cf_HeartbeatSeconds c \<and> cf_HeartbeatSeconds c \<le> 120 \<and>
    0 < cf_PriceMultiplier c \<and> 0 < cf_MarketplaceMargin c \<and> 0 < cf_SpotPriceFactor c \<and> 0 < cf_SpotEtaSlack c"
proof -
  have c: "c = read_env parseF env" "cf_ConsumerAPIKeys c \<noteq> {}" "cf_ProviderRegistrationTokens c \<noteq> {}"
    "5 \<le> cf_HeartbeatSeconds c" "cf_HeartbeatSeconds c \<le> 120"
    using assms by (auto simp: Load_def Let_def split: if_splits)
  then show ?thesis
    by (simp add: read_env_def csv_set_trimmed getenvFloat_pos float_defaults)
qed

lemma default_keys: "csv_set ''dev-consumer-key'' = {''dev-consumer-key''}" "csv_set ''dev-provider-token'' = {''dev-provider-token''}"
  by (simp_all add: csv_set_def trim_space_def is_space_def)

text \<open>Keys that are not configured at all do not stop the server: it accepts the development keys.\<close>

lemma Load_unset:
  "cf_ConsumerAPIKeys (read_env parseF (\<lambda>_. [])) = {''dev-consumer-key''}"
  "cf_ProviderRegistrationTokens (read_env parseF (\<lambda>_. [])) = {''dev-provider-token''}"
  "cf_HeartbeatSeconds (read_env parseF (\<lambda>_. [])) = 15"
  "Load parseF (\<lambda>_. []) = Inr (read_env parseF (\<lambda>_. []))"
proof -
  show k: "cf_ConsumerAPIKeys (read_env parseF (\<lambda>_. [])) = {''dev-consumer-key''}"
    "cf_ProviderRegistrationTokens (read_env parseF (\<lambda>_. [])) = {''dev-provider-token''}"
    "cf_HeartbeatSeconds (read_env parseF (\<lambda>_. [])) = 15"
    by (simp_all only: read_env_def Config.simps getenv_def getenvInt_def Let_def default_keys if_False simp_thms)
  show "Load parseF (\<lambda>_. []) = Inr (read_env parseF (\<lambda>_. []))" by (simp add: Load_def Let_def k)
qed

lemma Load_ok_witness: "0 < cf_PriceMultiplier (read_env (\<lambda>_. None) (\<lambda>_. []))"
  using Load_ok [OF Load_unset(4) [of "\<lambda>_. None"]] by simp

end
