(* ===== verification/Catalog.thy ===== *)
theory Catalog
  imports Codec Wire
begin

text \<open>
  Package \<open>catalog\<close> (coordinator/internal/catalog/catalog.go): the signed model registry. The
  HTTP fetches, Ed25519 verification, the canonical text (\<open>canonicalJSON\<close>: encoding/json decodes
  with literal numbers and prints back with sorted keys) and the parser of JSON text are
  arguments.
\<close>

record ManifestFile =
  mf_Name :: string
  mf_SHA256 :: string
  mf_Bytes :: int

record Model =
  md_ModelID :: string
  md_Architecture :: string
  md_Quantization :: string
  md_HardwareClass :: string
  md_ContextLength :: int
  md_AggregateSHA256 :: string
  md_Files :: "ManifestFile list"
  md_TotalBytes :: int

record registry_manifest =
  rm_Version :: int
  rm_GeneratedAt :: string
  rm_Models :: "Model list"

record Catalog =
  baseURL :: string
  pub :: string
  cat_models :: "Model list"
  cat_loaded :: "int option"

datatype catalog_error = BadRegistryKey | FetchManifest | FetchSignature | DecodeSignature | Canonicalize
  | SignatureInvalid | ParseManifest

definition NewCatalog :: "string \<Rightarrow> string \<Rightarrow> catalog_error + Catalog" where
  "NewCatalog url pubKeyB64 = (if url = [] then Inr \<lparr>baseURL = url, pub = [], cat_models = [], cat_loaded = None\<rparr>
     else (case b64_decode pubKeyB64 of
       None \<Rightarrow> Inl BadRegistryKey
     | Some raw \<Rightarrow> if length raw \<noteq> 32 then Inl BadRegistryKey
         else Inr \<lparr>baseURL = url, pub = raw, cat_models = [], cat_loaded = None\<rparr>))"

definition cat_Enabled :: "Catalog \<Rightarrow> bool" where "cat_Enabled c = (baseURL c \<noteq> [])"

definition ClassOf :: "string \<Rightarrow> Catalog \<Rightarrow> string" where
  "ClassOf model c = (case find (\<lambda>m. md_ModelID m = model) (cat_models c) of Some m \<Rightarrow> md_HardwareClass m | None \<Rightarrow> [])"

definition Has_model :: "string \<Rightarrow> Catalog \<Rightarrow> bool" where
  "Has_model model c = list_ex (\<lambda>m. md_ModelID m = model) (cat_models c)"

subsection \<open>Decoding the manifest\<close>

text \<open>A JSON array decodes into a slice element by element; an element the slice already has is
  decoded on top of its old value.\<close>

fun dec_elems :: "(json \<Rightarrow> 'a \<Rightarrow> 'a option) \<Rightarrow> 'a \<Rightarrow> json list \<Rightarrow> 'a list \<Rightarrow> 'a list option" where
  "dec_elems dec z [] old = Some []"
| "dec_elems dec z (v # vs) old = (case dec v (case old of [] \<Rightarrow> z | x # _ \<Rightarrow> x) of
     None \<Rightarrow> None
   | Some y \<Rightarrow> map_option (\<lambda>ys. y # ys) (dec_elems dec z vs (tl old)))"

fun dec_slice :: "(json \<Rightarrow> 'a \<Rightarrow> 'a option) \<Rightarrow> 'a \<Rightarrow> json \<Rightarrow> 'a list \<Rightarrow> 'a list option" where
  "dec_slice dec z (JArr vs) old = dec_elems dec z vs old"
| "dec_slice dec z JNull old = Some []"
| "dec_slice dec z _ old = None"

definition file_fields :: "ManifestFile fields" where
  "file_fields = [fld ''name'' dec_string mf_Name mf_Name_update, fld ''sha256'' dec_string mf_SHA256 mf_SHA256_update,
     fld ''bytes'' dec_int64 mf_Bytes mf_Bytes_update]"

definition model_fields :: "Model fields" where
  "model_fields = [fld ''model_id'' dec_string md_ModelID md_ModelID_update,
     fld ''architecture'' dec_string md_Architecture md_Architecture_update,
     fld ''quantization'' dec_string md_Quantization md_Quantization_update,
     fld ''hardware_class'' dec_string md_HardwareClass md_HardwareClass_update,
     fld ''context_length'' dec_int64 md_ContextLength md_ContextLength_update,
     fld ''aggregate_sha256'' dec_string md_AggregateSHA256 md_AggregateSHA256_update,
     fld ''files'' (dec_slice (dec_struct file_fields) \<lparr>mf_Name = [], mf_SHA256 = [], mf_Bytes = 0\<rparr>) md_Files md_Files_update,
     fld ''total_bytes'' dec_int64 md_TotalBytes md_TotalBytes_update]"

definition model_zero :: Model where
  "model_zero = \<lparr>md_ModelID = [], md_Architecture = [], md_Quantization = [], md_HardwareClass = [], md_ContextLength = 0,
     md_AggregateSHA256 = [], md_Files = [], md_TotalBytes = 0\<rparr>"

definition manifest_fields :: "registry_manifest fields" where
  "manifest_fields = [fld ''version'' dec_int64 rm_Version rm_Version_update,
     fld ''generated_at'' dec_string rm_GeneratedAt rm_GeneratedAt_update,
     fld ''models'' (dec_slice (dec_struct model_fields) model_zero) rm_Models rm_Models_update]"

definition dec_manifest :: "(string \<Rightarrow> json option) \<Rightarrow> string \<Rightarrow> registry_manifest option" where
  "dec_manifest parse raw = Option.bind (parse raw) (\<lambda>j. dec_struct manifest_fields j
     \<lparr>rm_Version = 0, rm_GeneratedAt = [], rm_Models = []\<rparr>)"

subsection \<open>Refresh\<close>

record catalog_env =
  ce_verify :: "string \<Rightarrow> string \<Rightarrow> string \<Rightarrow> bool"
  ce_canonical :: "string \<Rightarrow> string option"
  ce_parse :: "string \<Rightarrow> json option"

text \<open>\<open>get path\<close> is the fetched body, \<open>None\<close> for a failed request or a status other than 200.\<close>

definition Refresh :: "catalog_env \<Rightarrow> (string \<Rightarrow> string option) \<Rightarrow> int \<Rightarrow> Catalog \<Rightarrow> Catalog \<times> catalog_error option" where
  "Refresh e get now c = (if \<not> cat_Enabled c then (c, None)
     else (case get ''/manifest.json'' of None \<Rightarrow> (c, Some FetchManifest)
     | Some mBytes \<Rightarrow> (case get ''/manifest.json.sig'' of None \<Rightarrow> (c, Some FetchSignature)
     | Some sigB64 \<Rightarrow> (case b64_decode (trim_space sigB64) of None \<Rightarrow> (c, Some DecodeSignature)
     | Some sig \<Rightarrow> (case ce_canonical e mBytes of None \<Rightarrow> (c, Some Canonicalize)
     | Some canon \<Rightarrow> if \<not> ce_verify e (pub c) canon sig then (c, Some SignatureInvalid)
         else (case dec_manifest (ce_parse e) mBytes of None \<Rightarrow> (c, Some ParseManifest)
         | Some m \<Rightarrow> (c\<lparr>cat_models := rm_Models m, cat_loaded := Some now\<rparr>, None)))))))"

definition RunRefreshLoop :: "catalog_env \<Rightarrow> ((string \<Rightarrow> string option) \<times> int) list \<Rightarrow> Catalog \<Rightarrow> Catalog" where
  "RunRefreshLoop e ticks c = foldl (\<lambda>c (get, now). fst (Refresh e get now c)) c ticks"

lemma ClassOf_Has: "ClassOf m c \<noteq> [] \<Longrightarrow> Has_model m c"
  by (auto simp: ClassOf_def Has_model_def list_ex_iff find_Some_iff split: option.splits)

text \<open>Where the models of a catalog may come from.\<close>

definition authentic :: "catalog_env \<Rightarrow> string \<Rightarrow> Model list \<Rightarrow> bool" where
  "authentic e key ms = (\<exists>raw canon sig m. ce_canonical e raw = Some canon \<and> ce_verify e key canon sig \<and>
     dec_manifest (ce_parse e) raw = Some m \<and> rm_Models m = ms)"

lemma Refresh_step:
  "pub (fst (Refresh e get now c)) = pub c \<and> baseURL (fst (Refresh e get now c)) = baseURL c \<and>
   (fst (Refresh e get now c) = c \<or> authentic e (pub c) (cat_models (fst (Refresh e get now c))))"
  by (auto simp: Refresh_def authentic_def split: option.splits)

text \<open>C14: however the registry host answers, over any number of refreshes, the catalog keeps its
  pinned key, and the models it serves are the ones it started with or those of a document whose
  canonical form carries a valid signature under that key. A refresh that reports an error, whichever,
  changes nothing; one that reports none has stamped the models of such a document with its time, or the
  catalog is disabled and stays as it is.\<close>

theorem catalog_authentic:
  "pub (RunRefreshLoop e ticks c) = pub c \<and>
   (RunRefreshLoop e ticks c = c \<or> authentic e (pub c) (cat_models (RunRefreshLoop e ticks c))) \<and>
   (case Refresh e get now c of
      (c', Some err) \<Rightarrow> c' = c
    | (c', None) \<Rightarrow> if cat_Enabled c
        then cat_loaded c' = Some now \<and> authentic e (pub c) (cat_models c') \<and> pub c' = pub c \<and> baseURL c' = baseURL c
        else c' = c)"
proof -
  have "pub (RunRefreshLoop e ticks c) = pub c \<and>
   (RunRefreshLoop e ticks c = c \<or> authentic e (pub c) (cat_models (RunRefreshLoop e ticks c)))"
  proof (induction ticks rule: rev_induct)
    case (snoc t ticks)
    obtain get now where t: "t = (get, now)" by force
    have "RunRefreshLoop e (ticks @ [t]) c = fst (Refresh e get now (RunRefreshLoop e ticks c))"
      by (simp add: RunRefreshLoop_def t)
    with snoc Refresh_step [of e get now "RunRefreshLoop e ticks c"] show ?case by metis
  qed (simp add: RunRefreshLoop_def)
  moreover have "case Refresh e get now c of
      (c', Some err) \<Rightarrow> c' = c
    | (c', None) \<Rightarrow> if cat_Enabled c
        then cat_loaded c' = Some now \<and> authentic e (pub c) (cat_models c') \<and> pub c' = pub c \<and> baseURL c' = baseURL c
        else c' = c"
    by (auto simp: Refresh_def authentic_def split: option.splits)
  ultimately show ?thesis by blast
qed

text \<open>
  The signature covers the canonical form, where the last of two members of one name wins; the
  struct decoder applies both. A host can put an unsigned \<open>models\<close> member in front of the signed
  one and fill every field the signed entries leave out.
\<close>

lemma duplicate_member_smuggles:
  "dec_struct manifest_fields (JObj
     [(''models'', JArr [JObj [(''hardware_class'', JStr ''XL'')]]), (''models'', JArr [JObj [(''model_id'', JStr ''m'')]])])
     \<lparr>rm_Version = 0, rm_GeneratedAt = [], rm_Models = []\<rparr> =
   Some \<lparr>rm_Version = 0, rm_GeneratedAt = [], rm_Models = [model_zero\<lparr>md_ModelID := ''m'', md_HardwareClass := ''XL''\<rparr>]\<rparr>"
  by code_simp

end
