(* ===== verification/Api.thy ===== *)
theory Api
  imports Config Catalog Store_PG Ratelimit Relay Capability
begin

text \<open>
  Package \<open>api\<close>, what its handlers share (coordinator/internal/api/server.go, util.go, chat.go,
  intake.go, batch.go, workloads.go): responses, the middleware in front of every route, model
  lookup in the signed catalog, the mapping of relay errors and the small helpers. A response is
  its status with an error code or a body; the human-readable message of an error is left out.
  Sessions, SHA-256 and the parsing of an address are arguments.
\<close>

datatype 'b resp = Reject int string | Reply int 'b

subsection \<open>Middleware\<close>

record http_req =
  hr_Method :: string
  hr_Header :: "string \<Rightarrow> string"
  hr_ContentLength :: int
  hr_HasBody :: bool
  hr_RemoteAddr :: string

definition has_prefix :: "string \<Rightarrow> string \<Rightarrow> bool" where
  "has_prefix s p = (take (length p) s = p)"

definition bearer :: "http_req \<Rightarrow> string" where
  "bearer r = (let h = hr_Header r ''Authorization'' in
     if has_prefix (to_lower h) ''bearer '' then trim_space (drop 7 h) else [])"

text \<open>\<open>session\<close> is \<open>KeyIDForRequest\<close> of the signed-in app, \<open>None\<close> when accounts are off.\<close>

definition withAuth :: "(string \<Rightarrow> string) \<Rightarrow> int \<Rightarrow> (http_req \<Rightarrow> string \<times> bool) option \<Rightarrow> PG \<Rightarrow> http_req \<Rightarrow> Limiter \<Rightarrow>
    Limiter \<times> (int \<times> string + string)" where
  "withAuth sha256 now session p r l =
    (let key = bearer r;
         (keyOwner, ok) = (if key \<noteq> [] then pg_ValidateConsumerKey sha256 key p
           else case session of Some f \<Rightarrow> f r | None \<Rightarrow> ([], False)) in
     if key \<noteq> [] \<and> \<not> ok then (l, Inl (401, ''invalid_api_key''))
     else if \<not> ok \<or> keyOwner = [] then (l, Inl (401, ''missing_api_key''))
     else (case Allow now keyOwner l of (l', allowed, retry) \<Rightarrow>
       if \<not> allowed then (l', Inl (429, ''rate_limited'')) else (l', Inr keyOwner)))"

definition maxRequestBytes :: int where "maxRequestBytes = 12 * 2 ^ 20"

text \<open>\<open>None\<close>: the request goes on, its body cut off (with an error) at \<open>n\<close> bytes.\<close>

definition limitBody :: "int \<Rightarrow> http_req \<Rightarrow> (int \<times> string) option" where
  "limitBody n r = (if hr_HasBody r \<and> hr_Method r \<noteq> ''GET'' \<and> hr_Method r \<noteq> ''HEAD'' \<and> hr_ContentLength r > n
     then Some (413, ''payload_too_large'') else None)"

record cors_headers =
  AllowOrigin :: string
  AllowCredentials :: bool
  Preflight :: bool

definition withCORS :: "string \<Rightarrow> http_req \<Rightarrow> cors_headers" where
  "withCORS appURL r = (let origin = hr_Header r ''Origin'';
       credentialed = (origin \<noteq> [] \<and> (origin = appURL \<or> has_prefix origin ''http://localhost:'' \<or>
         has_prefix origin ''http://127.0.0.1:'')) in
     \<lparr>AllowOrigin = (if credentialed then origin else ''*''), AllowCredentials = credentialed,
      Preflight = (hr_Method r = ''OPTIONS'')\<rparr>)"

definition clientIP :: "(string \<Rightarrow> string option) \<Rightarrow> http_req \<Rightarrow> string" where
  "clientIP splitHostPort r =
    (if hr_Header r ''Fly-Client-IP'' \<noteq> [] then hr_Header r ''Fly-Client-IP''
     else if hr_Header r ''X-Forwarded-For'' \<noteq> [] then trim_space (hd (split_on (CHR '','') (hr_Header r ''X-Forwarded-For'')))
     else case splitHostPort (hr_RemoteAddr r) of None \<Rightarrow> hr_RemoteAddr r | Some h \<Rightarrow> h)"

definition ipHash :: "(string \<Rightarrow> string) \<Rightarrow> string \<Rightarrow> string" where
  "ipHash sha256 ip = hex_encode (take 8 (sha256 (''ayni-ip:'' @ ip)))"

definition intakeAllowed :: "(string \<Rightarrow> string option) \<Rightarrow> int \<Rightarrow> http_req \<Rightarrow> Limiter \<Rightarrow> Limiter \<times> bool" where
  "intakeAllowed splitHostPort now r l = (case Allow now (''intake:'' @ clientIP splitHostPort r) l of (l', ok, _) \<Rightarrow> (l', ok))"

subsection \<open>Helpers\<close>

definition byte_index :: "string \<Rightarrow> char \<Rightarrow> int" where
  "byte_index s c = (if c \<in> set s then int (length (takeWhile (\<lambda>x. x \<noteq> c) s)) else - 1)"

definition looksLikeEmail :: "string \<Rightarrow> bool" where
  "looksLikeEmail s = (let a = byte_index s (CHR ''@'') in
     a > 0 \<and> a < int (length s) - 3 \<and> byte_index (drop (nat a + 1) s) (CHR ''.'') > 0 \<and>
     \<not> list_ex (\<lambda>c. c \<in> {CHR '' '', CHR 0x09, CHR 0x0D, CHR 0x0A}) s)"

definition clip :: "string \<Rightarrow> nat \<Rightarrow> string" where
  "clip s0 n = (let s = trim_space s0 in if length s > n then take n s else s)"

definition shortID :: "string \<Rightarrow> string" where "shortID i = (if length i > 8 then take 8 i else i)"

definition shortPK :: "string \<Rightarrow> string" where "shortPK i = (if length i > 8 then take 8 i else i)"

definition round2usd :: "int \<Rightarrow> f64" where
  "round2usd micros = Round2 (f64_of_int micros / Fin 1000000)"

definition round4usd :: "int \<Rightarrow> f64" where
  "round4usd micros = f64_of_int (f64_to_int64 (f64_of_int micros / Fin 1000000 * Fin 10000 + Fin (1 / 2))) / Fin 10000"

definition maxPromptChars :: int where "maxPromptChars = 256 * 1024"

fun too_big_from :: "int \<Rightarrow> ChatMessage list \<Rightarrow> bool" where
  "too_big_from n [] = False"
| "too_big_from n (m # ms) = (let n = n + int (length (Content m)) in
     if n > maxPromptChars then True else too_big_from n ms)"

definition messagesTooBig :: "ChatMessage list \<Rightarrow> bool" where
  "messagesTooBig msgs = too_big_from 0 msgs"

definition resolveModel :: "Catalog option \<Rightarrow> string \<Rightarrow> string \<times> bool" where
  "resolveModel cat model = (case cat of None \<Rightarrow> ([], True)
   | Some c \<Rightarrow> if \<not> cat_Enabled c \<or> length (cat_models c) = 0 then ([], True)
       else (case find (\<lambda>m. md_ModelID m = model) (cat_models c) of
         Some m \<Rightarrow> (md_HardwareClass m, True) | None \<Rightarrow> ([], False)))"

definition classOf :: "Catalog option \<Rightarrow> string \<Rightarrow> string" where
  "classOf cat model = (case cat of Some c \<Rightarrow> ClassOf model c | None \<Rightarrow> [])"

definition hwClassOf :: "Catalog option \<Rightarrow> string \<Rightarrow> string" where
  "hwClassOf cat model = fst (resolveModel cat model)"

text \<open>Metric label, status and code of a relay error.\<close>

fun relayErrInfo :: "relay_error \<Rightarrow> string \<times> int \<times> string" where
  "relayErrInfo (Sched ErrNoProvider) = (''no_provider'', 503, fst (ErrCode (Sched ErrNoProvider)))"
| "relayErrInfo (Sched ErrTierUnmet) = (''tier_unmet'', 409, fst (ErrCode (Sched ErrTierUnmet)))"
| "relayErrInfo (Sched ErrCapsUnmet) = (''caps_unmet'', 503, fst (ErrCode (Sched ErrCapsUnmet)))"
| "relayErrInfo ErrProviderGone = (''provider_gone'', 502, fst (ErrCode ErrProviderGone))"
| "relayErrInfo ErrInvalidProviderResult = (''invalid_provider_result'', 502, fst (ErrCode ErrInvalidProviderResult))"
| "relayErrInfo (ErrDeadline j) = (''deadline'', 504, fst (ErrCode (ErrDeadline j)))"
| "relayErrInfo CtxCanceled = (''client_cancel'', 499, fst (ErrCode CtxCanceled))"
| "relayErrInfo e = (''error'', 500, fst (ErrCode e))"

text \<open>A request the client has given up gets no response.\<close>

definition mapRelayErr :: "relay_error \<Rightarrow> 'b resp option" where
  "mapRelayErr e = (case relayErrInfo e of (_, status, code) \<Rightarrow>
     if status \<noteq> 499 then Some (Reject status code) else None)"

subsection \<open>Facts\<close>

lemma messagesTooBig_iff: "messagesTooBig msgs \<longleftrightarrow> (\<Sum>m \<leftarrow> msgs. int (length (Content m))) > maxPromptChars"
proof -
  have "too_big_from n ms \<longleftrightarrow> n + (\<Sum>m \<leftarrow> ms. int (length (Content m))) > maxPromptChars" if "n \<le> maxPromptChars" for n ms
    using that
  proof (induction ms arbitrary: n)
    case (Cons m ms)
    have "0 \<le> (\<Sum>m \<leftarrow> ms. int (length (Content m)))" by (induction ms) auto
    then show ?case using Cons by (auto simp: Let_def add.assoc)
  qed simp
  then show ?thesis by (simp add: messagesTooBig_def maxPromptChars_def)
qed

lemma resolveModel_known:
  assumes "resolveModel (Some c) model = (hw, True)" "cat_Enabled c" "cat_models c \<noteq> []"
  shows "Has_model model c \<and> hw = ClassOf model c"
proof (cases "find (\<lambda>m. md_ModelID m = model) (cat_models c)")
  case (Some a)
  then have "a \<in> set (cat_models c) \<and> md_ModelID a = model" by (auto simp: find_Some_iff)
  with Some assms show ?thesis by (auto simp: resolveModel_def ClassOf_def Has_model_def list_ex_iff)
qed (use assms in \<open>simp add: resolveModel_def\<close>)

lemma mapRelayErr_status: "mapRelayErr e = Some (Reject st code) \<Longrightarrow> 409 \<le> st \<and> st \<le> 504 \<and> code = fst (ErrCode e)"
  by (cases e rule: relayErrInfo.cases) (auto simp: mapRelayErr_def)

text \<open>C7: a consumer route runs only for a key that is valid now (a Bearer key the store
  accepts, or, without one, the key of the signed-in session) and that has a token left in its
  rate bucket; the route sees exactly that key, which is never empty.\<close>

theorem auth_gate:
  assumes "withAuth sha256 now session p r l = (l', Inr k)"
  shows "k \<noteq> [] \<and> l' = fst (Allow now k l) \<and> fst (snd (Allow now k l)) \<and>
    (if bearer r \<noteq> [] then pg_ValidateConsumerKey sha256 (bearer r) p = (k, True)
     else \<exists>f. session = Some f \<and> f r = (k, True))"
  using assms by (auto simp: withAuth_def Let_def split: if_splits prod.splits option.splits)

definition sample_req_get :: http_req where
  "sample_req_get = \<lparr>hr_Method = ''GET'', hr_Header = (\<lambda>k. if k = ''Authorization'' then ''Bearer k1'' else []),
     hr_ContentLength = 0, hr_HasBody = False, hr_RemoteAddr = []\<rparr>"

lemma auth_gate_witness:
  "pg_ValidateConsumerKey (\<lambda>x. x) ''k1'' (NewPG (\<lambda>x. x) [''k1''] []) = (keyID (\<lambda>x. x) ''k1'', True)"
proof -
  let ?p = "NewPG (\<lambda>x. x) [''k1''] []" and ?l = "New_limiter 0"
  have "to_lower ''Bearer k1'' = ''bearer k1''" "trim_space ''k1'' = ''k1''" by code_simp+
  then have b: "bearer sample_req_get = ''k1''"
    by (simp add: bearer_def sample_req_get_def has_prefix_def Let_def)
  have z: "ratePerSec ?l \<le> 0" by (simp add: New_limiter_def f64_eval)
  have "withAuth (\<lambda>x. x) 0 None ?p sample_req_get ?l = (?l, Inr (keyID (\<lambda>x. x) ''k1''))"
    by (simp add: withAuth_def b pg_ValidateConsumerKey_def NewPG_def Allow_def z keyID_def)
  from auth_gate [OF this] show ?thesis by (simp add: b)
qed

end
