(* ===== verification/Metering.thy ===== *)
theory Metering
  imports Api Batch Pricing
begin

text \<open>
  Package \<open>api\<close>, metered inference (coordinator/internal/api/chat.go, batch.go): the chat completion
  route (blocking and streamed), the batch route, and what every finished job writes into the
  store: a usage event, the provider's earning and the debit of the customer's balance. What the
  relay makes of a request (\<open>exec\<close>: its result and the deltas it forwarded) and what a batch run
  returns are arguments, as is the text parser of the request body (\<open>None\<close> is a body that does
  not parse). A store call that fails is logged and leaves the store as it is.
\<close>

record server_env =
  sv_cfg :: Config
  sv_cat :: "Catalog option"
  sv_is_uuid :: "string \<Rightarrow> bool"
  sv_now :: int

definition keep :: "store_error + PG \<Rightarrow> PG \<Rightarrow> PG" where
  "keep r p = (case r of Inl _ \<Rightarrow> p | Inr p' \<Rightarrow> p')"

subsection \<open>Recording a finished job\<close>

definition usage_event :: "string \<Rightarrow> string \<Rightarrow> Result \<Rightarrow> UsageEvent" where
  "usage_event keyOwner model res = \<lparr>ue_KeyID = keyOwner, ue_ProviderID = rs_ProviderID res, ue_Model = model,
     ue_Tier = rs_TrustTier res, ue_PromptTokens = PromptTokens (rs_Usage res),
     ue_CompletionTokens = CompletionTokens (rs_Usage res), ue_DurationMS = 0,
     ue_FinishReason = rs_FinishReason res, ue_CreatedAt = 0\<rparr>"

definition job_quote :: "server_env \<Rightarrow> string \<Rightarrow> Result \<Rightarrow> f64 \<Rightarrow> Quote" where
  "job_quote e model res priceMult =
    (let pm = (if priceMult \<le> 0 then cf_PriceMultiplier (sv_cfg e) else priceMult) in
     QuoteJob (classOf (sv_cat e) model) (rs_TrustTier res) (PromptTokens (rs_Usage res))
       (CompletionTokens (rs_Usage res)) pm 1)"

definition earning_event :: "string \<Rightarrow> string \<Rightarrow> Result \<Rightarrow> Quote \<Rightarrow> EarningEvent" where
  "earning_event keyOwner model res q = \<lparr>ee_JobID = rs_JobID res, ee_ProviderID = rs_ProviderID res,
     ee_StaticPK = rs_ProviderPK res, ee_KeyID = keyOwner, ee_Model = model, ee_ModelClass = ModelClass q,
     ee_Tier = rs_TrustTier res, ee_GrossMicros = GrossMicros q, ee_ProviderMicros = ProviderMicros q, ee_CreatedAt = 0\<rparr>"

definition recordJob :: "server_env \<Rightarrow> string \<Rightarrow> string \<Rightarrow> Result \<Rightarrow> f64 \<Rightarrow> PG \<Rightarrow> Quote \<times> PG" where
  "recordJob e keyOwner model res priceMult p =
    (let p = keep (pg_RecordUsage (sv_is_uuid e) (sv_now e) (usage_event keyOwner model res) p) p;
         q = job_quote e model res priceMult;
         p = keep (pg_RecordEarning (sv_is_uuid e) (sv_now e) (earning_event keyOwner model res q) p) p
     in (q, p))"

definition debit_of :: "string \<Rightarrow> Result \<Rightarrow> Quote \<Rightarrow> movement" where
  "debit_of keyOwner res q = \<lparr>mv_key = keyOwner, mv_delta = wrap64 (- GrossMicros q), mv_reason = ''debit'',
     mv_ref = [], mv_job = rs_JobID res\<rparr>"

definition meter :: "server_env \<Rightarrow> string \<Rightarrow> string \<Rightarrow> Result \<Rightarrow> PG \<Rightarrow> PG" where
  "meter e keyOwner model res p =
    (case recordJob e keyOwner model res (cf_PriceMultiplier (sv_cfg e)) p of
       (q, p) \<Rightarrow> keep (pg_AddCredit (debit_of keyOwner res q) p) p)"

subsection \<open>Chat completions\<close>

record chatRequest =
  cr_Model :: string
  cr_Messages :: "ChatMessage list"
  cr_Stream :: bool
  cr_MaxTokens :: "int option"
  cr_Temperature :: "f64 option"
  cr_TopP :: "f64 option"
  cr_TopK :: "int option"
  cr_Stop :: "string list"
  cr_Seed :: "int option"

definition defaultMaxTokens :: int where "defaultMaxTokens = 512"

definition positive_or :: "int option \<Rightarrow> int \<Rightarrow> int" where
  "positive_or v d = (case v of Some n \<Rightarrow> if n > 0 then n else d | None \<Rightarrow> d)"

definition relay_request :: "chatRequest \<Rightarrow> string \<Rightarrow> string \<Rightarrow> Request" where
  "relay_request req tier hw = \<lparr>rq_Model = cr_Model req, rq_Messages = cr_Messages req,
     rq_Params = \<lparr>MaxTokens = positive_or (cr_MaxTokens req) defaultMaxTokens, Temperature = cr_Temperature req,
       TopP = cr_TopP req, TopK = cr_TopK req, RepeatPenalty = None, Stop = cr_Stop req, Seed = cr_Seed req\<rparr>,
     rq_MinTier = trim_space tier, rq_MinContext = 0, rq_HWClass = hw\<rparr>"

datatype sse = Delta string | Finish string | StreamError string | Done

datatype chat_body = Blocking string string Usage string | Stream "sse list"

definition blockingChat :: "server_env \<Rightarrow> string \<Rightarrow> Request \<Rightarrow> (relay_error + Result) \<times> string list \<Rightarrow> PG \<Rightarrow>
    chat_body resp option \<times> PG" where
  "blockingChat e keyOwner rq out p = (case out of (res, ds) \<Rightarrow> (case res of
     Inl err \<Rightarrow> (mapRelayErr err, p)
   | Inr r \<Rightarrow> (Some (Reply 200 (Blocking (concat ds) (rs_FinishReason r) (rs_Usage r) (rs_TrustTier r))),
       meter e keyOwner (rq_Model rq) r p)))"

text \<open>A stream has answered 200 before the relay runs; the first event is the empty role primer.\<close>

definition streamChat :: "server_env \<Rightarrow> string \<Rightarrow> Request \<Rightarrow> (relay_error + Result) \<times> string list \<Rightarrow> PG \<Rightarrow>
    chat_body resp option \<times> PG" where
  "streamChat e keyOwner rq out p = (case out of (res, ds) \<Rightarrow> (case res of
     Inl err \<Rightarrow> (case relayErrInfo err of (_, _, code) \<Rightarrow>
       (Some (Reply 200 (Stream (Delta [] # map Delta ds @ [StreamError code]))), p))
   | Inr r \<Rightarrow> (let fin = (if rs_FinishReason r = [] then ''stop'' else rs_FinishReason r) in
       (Some (Reply 200 (Stream (Delta [] # map Delta ds @ [Finish fin, Done]))), meter e keyOwner (rq_Model rq) r p))))"

definition handleChatCompletions :: "server_env \<Rightarrow> string \<Rightarrow> string \<Rightarrow> chatRequest option \<Rightarrow>
    (Request \<Rightarrow> (relay_error + Result) \<times> string list) \<Rightarrow> PG \<Rightarrow> chat_body resp option \<times> PG" where
  "handleChatCompletions e keyOwner tier body exec p = (case body of
     None \<Rightarrow> (Some (Reject 400 ''invalid_json''), p)
   | Some req \<Rightarrow>
       if cr_Model req = [] \<or> length (cr_Messages req) = 0 then (Some (Reject 400 ''invalid_request''), p)
       else if messagesTooBig (cr_Messages req) then (Some (Reject 413 ''prompt_too_large''), p)
       else (case resolveModel (sv_cat e) (cr_Model req) of (hw, ok) \<Rightarrow>
         if \<not> ok then (Some (Reject 404 ''model_not_found''), p)
         else let rq = relay_request req tier hw in
           if cf_BillingEnforce (sv_cfg e) \<and> pg_CreditBalance p keyOwner \<le> 0
             then (Some (Reject 402 ''insufficient_credit''), p)
           else if cr_Stream req then streamChat e keyOwner rq (exec rq) p
           else blockingChat e keyOwner rq (exec rq) p))"

subsection \<open>Batches\<close>

record batchItemReq =
  bi_Messages :: "ChatMessage list"
  bi_MaxTokens :: "int option"
  bi_Temperature :: "f64 option"
  bi_TopP :: "f64 option"
  bi_TopK :: "int option"
  bi_Stop :: "string list"
  bi_Seed :: "int option"

record batchRequest =
  br_Model :: string
  br_Items :: "batchItemReq list"
  br_MaxTokens :: "int option"
  br_Temperature :: "f64 option"
  br_Concurrency :: int

text \<open>The first item the request is rejected for.\<close>

fun bad_batch_item :: "batchItemReq list \<Rightarrow> (int \<times> string) option" where
  "bad_batch_item [] = None"
| "bad_batch_item (it # r) = (if length (bi_Messages it) = 0 then Some (400, ''invalid_request'')
     else if messagesTooBig (bi_Messages it) then Some (413, ''prompt_too_large'') else bad_batch_item r)"

definition batch_item :: "batchRequest \<Rightarrow> batchItemReq \<Rightarrow> Item" where
  "batch_item req it = \<lparr>it_Messages = bi_Messages it,
     it_Params = \<lparr>MaxTokens = positive_or (bi_MaxTokens it) (positive_or (br_MaxTokens req) defaultMaxTokens),
       Temperature = (case bi_Temperature it of Some t \<Rightarrow> Some t | None \<Rightarrow> br_Temperature req),
       TopP = bi_TopP it, TopK = bi_TopK it, RepeatPenalty = None, Stop = bi_Stop it, Seed = bi_Seed it\<rparr>\<rparr>"

text \<open>The map from identities to scores, built row by row; nil when there are no rows.\<close>

definition row_acu :: "NodeCapabilityRow \<Rightarrow> f64" where
  "row_acu c = ACU \<lparr>fp_Model = nc_Model c, fp_Backend = nc_Backend c, PrefillTPS = nc_PrefillTPS c, DecodeTPS = nc_DecodeTPS c,
     SustainedStartTPS = nc_SustainedStartTPS c, SustainedEndTPS = nc_SustainedEndTPS c,
     MemBandwidthGBps = nc_MemBandwidthGBps c, AvailableRAMMB = nc_AvailableRAMMB c, CPUCores = nc_CPUCores c,
     fp_ThermalState = nc_ThermalState c\<rparr>"

definition acuByPK :: "PG \<Rightarrow> string \<rightharpoonup> f64" where
  "acuByPK p = foldl (\<lambda>m c. m(nc_StaticPK c \<mapsto> row_acu c)) Map.empty (pg_NodeCapabilities p)"

definition item_relay_result :: "ItemResult \<Rightarrow> Result" where
  "item_relay_result it = \<lparr>rs_Usage = ir_Usage it, rs_FinishReason = ir_FinishReason it, rs_ProviderID = ir_ProviderID it,
     rs_ProviderPK = ir_ProviderPK it, rs_TrustTier = ir_TrustTier it, rs_JobID = ir_JobID it\<rparr>"

definition meter_items :: "server_env \<Rightarrow> string \<Rightarrow> string \<Rightarrow> ItemResult list \<Rightarrow> PG \<Rightarrow> PG" where
  "meter_items e keyOwner model its p =
    foldl (\<lambda>p it. if ir_ErrCode it \<noteq> [] then p else meter e keyOwner model (item_relay_result it) p) p its"

definition handleBatch :: "server_env \<Rightarrow> string \<Rightarrow> string \<Rightarrow> batchRequest option \<Rightarrow>
    (Item list \<Rightarrow> Options \<Rightarrow> sched_error + Summary) \<Rightarrow> PG \<Rightarrow> Summary resp option \<times> PG" where
  "handleBatch e keyOwner tier body run p = (case body of
     None \<Rightarrow> (Some (Reject 400 ''invalid_json''), p)
   | Some req \<Rightarrow>
       if br_Model req = [] \<or> length (br_Items req) = 0 then (Some (Reject 400 ''invalid_request''), p)
       else if length (br_Items req) > batch_MaxItems then (Some (Reject 413 ''too_many_items''), p)
       else (case bad_batch_item (br_Items req) of
         Some (st, code) \<Rightarrow> (Some (Reject st code), p)
       | None \<Rightarrow> (case resolveModel (sv_cat e) (br_Model req) of (hw, ok) \<Rightarrow>
           if \<not> ok then (Some (Reject 404 ''model_not_found''), p)
           else if cf_BillingEnforce (sv_cfg e) \<and> pg_CreditBalance p keyOwner \<le> 0
             then (Some (Reject 402 ''insufficient_credit''), p)
           else (case run (map (batch_item req) (br_Items req))
               \<lparr>op_Model = br_Model req, op_MinTier = trim_space tier, op_HWClass = hw, op_MinContext = 0,
                op_Concurrency = br_Concurrency req, op_ACUByPK = acuByPK p\<rparr> of
             Inl err \<Rightarrow> (mapRelayErr (Sched err), p)
           | Inr s \<Rightarrow> (Some (Reply 200 s), meter_items e keyOwner (br_Model req) (su_Items s) p)))))"

subsection \<open>What a metered job costs and earns\<close>

lemma keep_usage:
  "pg_CreditBalance (keep (pg_RecordUsage u now ev p) p) k = pg_CreditBalance p k"
  "provider_earnings (keep (pg_RecordUsage u now ev p) p) = provider_earnings p"
  "credit_ledger (keep (pg_RecordUsage u now ev p) p) = credit_ledger p"
  "billing_accounts (keep (pg_RecordUsage u now ev p) p) = billing_accounts p"
  by (simp_all add: keep_def pg_RecordUsage_def pg_CreditBalance_def split: sum.splits)

lemma keep_earning:
  "pg_CreditBalance (keep (pg_RecordEarning u now ev p) p) k = pg_CreditBalance p k"
  "credit_ledger (keep (pg_RecordEarning u now ev p) p) = credit_ledger p"
  "billing_accounts (keep (pg_RecordEarning u now ev p) p) = billing_accounts p"
  by (simp_all add: keep_def pg_RecordEarning_def pg_CreditBalance_def split: sum.splits)

lemma keep_credit:
  "provider_earnings (keep (pg_AddCredit v p) p) = provider_earnings p"
  by (simp add: keep_def pg_AddCredit_def Let_def split: sum.splits)

lemma keep_credit_balance:
  assumes "is_int64 (mv_delta v)" "is_int64 (pg_CreditBalance p (mv_key v) + mv_delta v)"
  shows "pg_CreditBalance (keep (pg_AddCredit v p) p) k = pg_CreditBalance p k +
      (if k = mv_key v \<and> \<not> (\<exists>i. idem_key v = Some i \<and> pg_seen p i) then mv_delta v else 0)"
    "idem_key v = Some i \<Longrightarrow> pg_seen (keep (pg_AddCredit v p) p) i"
  using assms
  by (auto simp: keep_def pg_AddCredit_eq pg_insert_def pg_CreditBalance_def pg_seen_def split: option.splits sum.splits)

lemma owed_cong: "provider_earnings p = provider_earnings q \<Longrightarrow> owed p k = owed q k \<and> pg_settled p j k = pg_settled q j k"
  by (simp add: owed_def accrued_rows_def pg_settled_def)

lemma keep_earning_owed:
  assumes "ee_JobID ev \<noteq> []" "ee_StaticPK ev \<noteq> []" "ee_ProviderID ev = [] \<or> u (ee_ProviderID ev)"
    "is_int64 (ee_GrossMicros ev)" "is_int64 (ee_ProviderMicros ev)"
  shows "owed (keep (pg_RecordEarning u now ev p) p) k = owed p k +
      (if k = ee_StaticPK ev \<and> \<not> pg_settled p (ee_JobID ev) k then ee_ProviderMicros ev else 0)"
    "pg_settled (keep (pg_RecordEarning u now ev p) p) (ee_JobID ev) (ee_StaticPK ev)"
proof -
  have "\<exists>p'. pg_RecordEarning u now ev p = Inr p'" using assms by (auto simp: pg_RecordEarning_def)
  then obtain p' where p': "pg_RecordEarning u now ev p = Inr p'" by blast
  have "owed p' k = owed p k + (if k = ee_StaticPK ev \<and> \<not> pg_settled p (ee_JobID ev) k then ee_ProviderMicros ev else 0)
      \<and> pg_settled p' (ee_JobID ev) (ee_StaticPK ev)"
  proof (cases "pg_settled p (ee_JobID ev) (ee_StaticPK ev)")
    case True
    then have "p' = p" using p' assms unfolding pg_RecordEarning_def pg_settled_def by (simp split: if_split_asm)
    with True show ?thesis by auto
  next
    case False
    with owed_record [OF p' False, of k] record_fresh [OF p' False] show ?thesis
      by (auto simp: pg_settled_def earning_row_of_def)
  qed
  then show "owed (keep (pg_RecordEarning u now ev p) p) k = owed p k +
      (if k = ee_StaticPK ev \<and> \<not> pg_settled p (ee_JobID ev) k then ee_ProviderMicros ev else 0)"
    "pg_settled (keep (pg_RecordEarning u now ev p) p) (ee_JobID ev) (ee_StaticPK ev)"
    by (simp_all add: keep_def p')
qed

text \<open>A result the relay can return: ids set, token counts as the wire carries them.\<close>

definition billable :: "server_env \<Rightarrow> Result \<Rightarrow> bool" where
  "billable e r = (rs_JobID r \<noteq> [] \<and> rs_ProviderPK r \<noteq> [] \<and> (rs_ProviderID r = [] \<or> sv_is_uuid e (rs_ProviderID r)) \<and>
     0 \<le> PromptTokens (rs_Usage r) \<and> PromptTokens (rs_Usage r) \<le> 2 ^ 31 \<and>
     0 \<le> CompletionTokens (rs_Usage r) \<and> CompletionTokens (rs_Usage r) \<le> 2 ^ 31)"

definition price_ok :: "f64 \<Rightarrow> bool" where
  "price_ok x = (case x of Fin q \<Rightarrow> 0 < q \<and> q \<le> 100 | _ \<Rightarrow> False)"

lemma job_quote_bounds:
  assumes "billable e r" "price_ok pm"
  shows "0 \<le> ProviderMicros (job_quote e model r pm) \<and> ProviderMicros (job_quote e model r pm) \<le> GrossMicros (job_quote e model r pm)
    \<and> GrossMicros (job_quote e model r pm) \<le> 2 ^ 53"
proof -
  obtain q where q: "pm = Fin q" "0 < q" "q \<le> 100" using assms(2) by (cases pm) (auto simp: price_ok_def)
  then have "\<not> pm \<le> 0" by (simp add: f64_ops)
  then show ?thesis
    using assms(1) q provider_bounds [where p = "PromptTokens (rs_Usage r)" and c = "CompletionTokens (rs_Usage r)" and pm = q
        and q = 1 and cls = "classOf (sv_cat e) model" and tier = "rs_TrustTier r"]
    by (simp add: job_quote_def billable_def Let_def one_f64_def)
qed

lemma int64_small: "0 \<le> x \<Longrightarrow> x \<le> 2 ^ 53 \<Longrightarrow> is_int64 x \<and> is_int64 (- x)"
  by (simp add: is_int64_def)

lemma recordJob_effect:
  assumes "billable e r" "price_ok pm"
  shows "fst (recordJob e key model r pm p) = job_quote e model r pm"
    "pg_CreditBalance (snd (recordJob e key model r pm p)) k = pg_CreditBalance p k"
    "credit_ledger (snd (recordJob e key model r pm p)) = credit_ledger p"
    "owed (snd (recordJob e key model r pm p)) k = owed p k +
       (if k = rs_ProviderPK r \<and> \<not> pg_settled p (rs_JobID r) k then ProviderMicros (job_quote e model r pm) else 0)"
    "pg_settled (snd (recordJob e key model r pm p)) (rs_JobID r) (rs_ProviderPK r)"
proof -
  let ?q = "job_quote e model r pm"
  define p1 where "p1 = keep (pg_RecordUsage (sv_is_uuid e) (sv_now e) (usage_event key model r) p) p"
  define ev where "ev = earning_event key model r ?q"
  have p2: "recordJob e key model r pm p = (?q, keep (pg_RecordEarning (sv_is_uuid e) (sv_now e) ev p1) p1)"
    by (simp add: recordJob_def p1_def ev_def Let_def)
  have ev: "ee_JobID ev = rs_JobID r" "ee_StaticPK ev = rs_ProviderPK r" "ee_ProviderMicros ev = ProviderMicros ?q"
    "ee_ProviderID ev = rs_ProviderID r" "ee_GrossMicros ev = GrossMicros ?q"
    by (simp_all add: ev_def earning_event_def)
  have b: "is_int64 (GrossMicros ?q)" "is_int64 (ProviderMicros ?q)"
    using job_quote_bounds [OF assms, of model] int64_small by (auto intro: order_trans)
  have p1: "provider_earnings p1 = provider_earnings p" by (simp add: p1_def keep_usage)
  note own = owed_cong [OF p1]
  note eff = keep_earning_owed [of ev "sv_is_uuid e" "sv_now e" p1]
  show "fst (recordJob e key model r pm p) = ?q" by (simp add: p2)
  show "pg_CreditBalance (snd (recordJob e key model r pm p)) k = pg_CreditBalance p k"
    "credit_ledger (snd (recordJob e key model r pm p)) = credit_ledger p"
    by (simp_all add: p2 keep_earning p1_def keep_usage)
  show "owed (snd (recordJob e key model r pm p)) k = owed p k +
       (if k = rs_ProviderPK r \<and> \<not> pg_settled p (rs_JobID r) k then ProviderMicros ?q else 0)"
    "pg_settled (snd (recordJob e key model r pm p)) (rs_JobID r) (rs_ProviderPK r)"
    using eff(1) [of k] eff(2) assms(1) b own by (auto simp: p2 ev billable_def)
qed

lemma pg_seen_cong: "credit_ledger p = credit_ledger q \<Longrightarrow> pg_seen p i = pg_seen q i"
  by (simp add: pg_seen_def)

text \<open>C6: what one finished job of the pay-as-you-go routes does to the money. The customer's
  balance falls by exactly the gross of the job's quote and the serving device is owed exactly
  its provider share, which is at most that gross; no other account and no other device moves;
  a job that was already debited, or already accrued to that device, is not charged or paid
  twice; and metering the same result again changes neither.\<close>

theorem meter_exact:
  assumes b: "billable e r" "price_ok (cf_PriceMultiplier (sv_cfg e))"
    and rng: "is_int64 (pg_CreditBalance p key - GrossMicros (job_quote e model r (cf_PriceMultiplier (sv_cfg e))))"
  shows "let q = job_quote e model r (cf_PriceMultiplier (sv_cfg e)); p' = meter e key model r p in
    pg_CreditBalance p' k = pg_CreditBalance p k - (if k = key \<and> \<not> pg_seen p (Debit (rs_JobID r)) then GrossMicros q else 0) \<and>
    owed p' d = owed p d + (if d = rs_ProviderPK r \<and> \<not> pg_settled p (rs_JobID r) d then ProviderMicros q else 0) \<and>
    0 \<le> ProviderMicros q \<and> ProviderMicros q \<le> GrossMicros q \<and>
    pg_CreditBalance (meter e key model r p') k = pg_CreditBalance p' k \<and> owed (meter e key model r p') d = owed p' d"
proof -
  let ?pm = "cf_PriceMultiplier (sv_cfg e)"
  let ?q = "job_quote e model r ?pm"
  let ?v = "debit_of key r ?q"
  note qb = job_quote_bounds [OF b, of model]
  have w: "wrap64 (- GrossMicros ?q) = - GrossMicros ?q" using qb int64_small [of "GrossMicros ?q"] by simp
  have v: "idem_key ?v = Some (Debit (rs_JobID r))" "mv_key ?v = key" "mv_delta ?v = - GrossMicros ?q"
    using b(1) by (simp_all add: debit_of_def idem_key_def billable_def w)
  have m: "meter e key model r p0 = keep (pg_AddCredit ?v (snd (recordJob e key model r ?pm p0)))
      (snd (recordJob e key model r ?pm p0))" for p0
    using recordJob_effect(1) [OF b, of key model p0] by (auto simp: meter_def split: prod.split)
  note rj = recordJob_effect [OF b, where key = key and model = model]
  have credit: "pg_CreditBalance (meter e key model r p0) k0 = pg_CreditBalance p0 k0 -
      (if k0 = key \<and> \<not> pg_seen p0 (Debit (rs_JobID r)) then GrossMicros ?q else 0)"
    "pg_seen (meter e key model r p0) (Debit (rs_JobID r))"
    if "is_int64 (pg_CreditBalance p0 key - GrossMicros ?q)" for p0 k0
  proof -
    let ?p1 = "snd (recordJob e key model r ?pm p0)"
    have "is_int64 (mv_delta ?v)" "is_int64 (pg_CreditBalance ?p1 (mv_key ?v) + mv_delta ?v)"
      using that qb int64_small [of "GrossMicros ?q"] by (simp_all add: v rj)
    note kc = keep_credit_balance [OF this]
    show "pg_CreditBalance (meter e key model r p0) k0 = pg_CreditBalance p0 k0 -
        (if k0 = key \<and> \<not> pg_seen p0 (Debit (rs_JobID r)) then GrossMicros ?q else 0)"
      using kc(1) [of k0] by (simp add: m v rj pg_seen_cong [OF rj(3)])
    show "pg_seen (meter e key model r p0) (Debit (rs_JobID r))"
      using kc(2) v(1) by (simp add: m)
  qed
  have own: "owed (meter e key model r p0) d0 = owed p0 d0 +
      (if d0 = rs_ProviderPK r \<and> \<not> pg_settled p0 (rs_JobID r) d0 then ProviderMicros ?q else 0)"
    "pg_settled (meter e key model r p0) (rs_JobID r) (rs_ProviderPK r)" for p0 d0
    using rj(4) [of p0 d0] rj(5) [of p0] owed_cong [OF keep_credit [of ?v "snd (recordJob e key model r ?pm p0)"]]
    by (simp_all add: m)
  have again: "pg_CreditBalance (meter e key model r (meter e key model r p)) k = pg_CreditBalance (meter e key model r p) k"
  proof -
    let ?p' = "meter e key model r p"
    have seen: "pg_seen ?p' (Debit (rs_JobID r))" using credit(2) [OF rng] .
    then have "keep (pg_AddCredit ?v (snd (recordJob e key model r ?pm ?p'))) (snd (recordJob e key model r ?pm ?p')) =
        snd (recordJob e key model r ?pm ?p')"
      by (simp add: keep_def pg_AddCredit_eq v pg_seen_cong [OF rj(3)])
    then show ?thesis by (simp add: m [of ?p'] rj)
  qed
  show ?thesis
    using credit(1) [OF rng, of k] own [of p] own [of "meter e key model r p"] qb again by (auto simp: Let_def)
qed

definition sample_env :: server_env where
  "sample_env = \<lparr>sv_cfg = read_env (\<lambda>_. None) (\<lambda>_. []), sv_cat = None, sv_is_uuid = (\<lambda>_. True), sv_now = 7\<rparr>"

definition sample_result :: Result where
  "sample_result = \<lparr>rs_Usage = \<lparr>PromptTokens = 100, CompletionTokens = 50, TotalTokens = 150\<rparr>, rs_FinishReason = ''stop'',
     rs_ProviderID = ''p'', rs_ProviderPK = ''d'', rs_TrustTier = ''community'', rs_JobID = ''j''\<rparr>"

lemma sample_price: "price_ok (cf_PriceMultiplier (sv_cfg sample_env))"
  by (simp add: sample_env_def read_env_def getenvFloat_def price_ok_def one_f64_def)

lemma sample_billable: "billable sample_env sample_result"
  by (simp add: billable_def sample_result_def sample_env_def)

lemma new_pg_balance: "pg_CreditBalance (NewPG h ks ts) k = 0" "\<not> pg_seen (NewPG h ks ts) i"
    "\<not> pg_settled (NewPG h ks ts) j d" "owed (NewPG h ks ts) d = 0"
  by (simp_all add: pg_CreditBalance_def NewPG_def pg_seen_def pg_settled_def owed_def accrued_rows_def)

lemma meter_exact_witness:
  "owed (meter sample_env ''k'' ''m'' sample_result (NewPG (\<lambda>x. x) [] [])) ''d'' =
     ProviderMicros (job_quote sample_env ''m'' sample_result (cf_PriceMultiplier (sv_cfg sample_env))) \<and>
   pg_CreditBalance (meter sample_env ''k'' ''m'' sample_result (NewPG (\<lambda>x. x) [] [])) ''k'' =
     - GrossMicros (job_quote sample_env ''m'' sample_result (cf_PriceMultiplier (sv_cfg sample_env)))"
proof -
  have "is_int64 (pg_CreditBalance (NewPG (\<lambda>x. x) [] []) ''k'' -
      GrossMicros (job_quote sample_env ''m'' sample_result (cf_PriceMultiplier (sv_cfg sample_env))))"
    using job_quote_bounds [OF sample_billable sample_price, of "''m''"] int64_small by (auto simp: new_pg_balance)
  from meter_exact [OF sample_billable sample_price this, of "''k''" "''d''"] show ?thesis
    by (simp add: Let_def new_pg_balance sample_result_def)
qed

subsection \<open>The routes\<close>

lemma meter_items_snoc:
  "meter_items e key model (its @ [it]) p =
   (if ir_ErrCode it \<noteq> [] then meter_items e key model its p
    else meter e key model (item_relay_result it) (meter_items e key model its p))"
  by (simp add: meter_items_def)

text \<open>A route charges only for what it delivers: a chat request moves the store exactly when the
  relay returned a result, and then as \<open>meter\<close> does; every error leaves the store as it was.\<close>

theorem chat_charges_delivered:
  "handleChatCompletions e key tier body exec p = (resp, p') \<Longrightarrow> p' \<noteq> p \<Longrightarrow>
   \<exists>req hw r ds. body = Some req \<and> exec (relay_request req tier hw) = (Inr r, ds) \<and>
     resolveModel (sv_cat e) (cr_Model req) = (hw, True) \<and> \<not> messagesTooBig (cr_Messages req) \<and>
     (cf_BillingEnforce (sv_cfg e) \<longrightarrow> 0 < pg_CreditBalance p key) \<and>
     p' = meter e key (cr_Model req) r p \<and> (\<exists>b. resp = Some (Reply 200 b))"
  by (auto simp: handleChatCompletions_def streamChat_def blockingChat_def relay_request_def Let_def
      split: option.splits if_splits prod.splits sum.splits)

end
