(* ===== verification/Workloads.thy ===== *)
theory Workloads
  imports Metering Marketplace Council_Ledger
begin

text \<open>
  Package \<open>api\<close>, the marketplace routes up to the acceptance of a quote
  (coordinator/internal/api/workloads.go): supply of a model, quote creation with the Council
  review, the public preview, the view of a quote, and the pieces of execution that cut a
  workload into batches and merge the summaries. Clock readings, random ids, map orders, hashes
  and the reviewers are arguments; a body that does not parse is \<open>None\<close>.
\<close>

record workloadEstimateReq =
  we_Count :: int
  we_AvgPromptTokens :: int
  we_AvgCompletionTokens :: int

record workloadRequest =
  wq_reqModel :: string
  wq_reqItems :: "batchItemReq list"
  wq_reqEstimate :: "workloadEstimateReq option"
  wq_reqRedundancy :: int
  wq_reqMaxPriceUSD :: f64
  wq_reqSpot :: bool

definition spotPriceMult :: "Config \<Rightarrow> bool \<Rightarrow> f64" where
  "spotPriceMult cfg spot = (if spot then cf_PriceMultiplier cfg * cf_SpotPriceFactor cfg else cf_PriceMultiplier cfg)"

definition spotSupply :: "Supply \<Rightarrow> bool \<Rightarrow> Supply" where
  "spotSupply s spot = (if spot then s\<lparr>AggregateTPS := AggregateTPS s * SpotSupplyFraction\<rparr> else s)"

definition spotEtaSlack :: "Config \<Rightarrow> f64" where
  "spotEtaSlack cfg = (if cf_SpotEtaSlack cfg > 1 then cf_SpotEtaSlack cfg else Fin 3)"

subsection \<open>Items\<close>

fun toBatchItems :: "batchItemReq list \<Rightarrow> Item list option" where
  "toBatchItems [] = Some []"
| "toBatchItems (it # r) =
    (if length (bi_Messages it) = 0 then None
     else if messagesTooBig (bi_Messages it) then None
     else map_option (\<lambda>items. \<lparr>it_Messages = bi_Messages it,
       it_Params = \<lparr>MaxTokens = positive_or (bi_MaxTokens it) defaultMaxTokens, Temperature = bi_Temperature it,
         TopP = bi_TopP it, TopK = bi_TopK it, RepeatPenalty = None, Stop = bi_Stop it, Seed = bi_Seed it\<rparr>\<rparr> # items)
       (toBatchItems r))"

function chunk_from :: "Item list \<Rightarrow> nat \<Rightarrow> Item list list" where
  "chunk_from items n = (if items = [] \<or> n = 0 then [] else take n items # chunk_from (drop n items) n)"
  by pat_completeness auto
termination
  by (relation "measure (\<lambda>(items, n). length items)") auto

declare chunk_from.simps [simp del]

definition chunkItems :: "Item list \<Rightarrow> nat \<Rightarrow> Item list list" where
  "chunkItems items n = (if length items \<le> n then [items] else chunk_from items n)"

definition add_counts :: "(string \<rightharpoonup> int) \<Rightarrow> (string \<rightharpoonup> int) \<Rightarrow> string \<rightharpoonup> int" where
  "add_counts dst src = (\<lambda>i. case src i of None \<Rightarrow> dst i
     | Some n \<Rightarrow> Some ((case dst i of None \<Rightarrow> 0 | Some k \<Rightarrow> k) + n))"

definition mergeSummary :: "Summary \<Rightarrow> Summary \<Rightarrow> nat \<Rightarrow> Summary" where
  "mergeSummary dst src offset = dst\<lparr>
     su_Items := su_Items dst @ map (\<lambda>it. it\<lparr>ir_Index := ir_Index it + offset\<rparr>) (su_Items src),
     su_Providers := add_counts (su_Providers dst) (su_Providers src),
     su_OK := su_OK dst + su_OK src, su_Failed := su_Failed dst + su_Failed src,
     su_PromptTokens := wrap64 (su_PromptTokens dst + su_PromptTokens src),
     su_CompletionTokens := wrap64 (su_CompletionTokens dst + su_CompletionTokens src),
     su_Concurrency := (if su_Concurrency src > su_Concurrency dst then su_Concurrency src else su_Concurrency dst)\<rparr>"

subsection \<open>Supply\<close>

definition row_tps :: "NodeCapabilityRow \<Rightarrow> f64" where
  "row_tps c = (if nc_SustainedEndTPS c \<le> 0 then nc_DecodeTPS c else nc_SustainedEndTPS c)"

definition tpsByPK :: "PG \<Rightarrow> string \<rightharpoonup> f64" where
  "tpsByPK p = foldl (\<lambda>m c. m(nc_StaticPK c \<mapsto> row_tps c)) Map.empty (pg_NodeCapabilities p)"

definition add_supply :: "(string \<rightharpoonup> f64) \<Rightarrow> (string \<rightharpoonup> f64) \<Rightarrow> Provider \<Rightarrow> Supply \<Rightarrow> Supply" where
  "add_supply tps acu pr s =
    (let k = pk pr;
         s = s\<lparr>AggregateTPS := AggregateTPS s + (case tps k of Some t \<Rightarrow> if t > 0 then t else Fin 10 | None \<Rightarrow> Fin 10)\<rparr>;
         a = (case acu k of Some a \<Rightarrow> a | None \<Rightarrow> 0) in
     if a > TopACU s then s\<lparr>TopACU := a\<rparr> else s)"

definition supplyFor :: "Registry \<Rightarrow> string list \<Rightarrow> PG \<Rightarrow> string \<Rightarrow> string \<Rightarrow> string \<Rightarrow> sched_error + Supply" where
  "supplyFor reg order p model tier hw = (case Eligible reg order \<lparr>req_Model = model, req_MinTier = tier,
       req_MinContext = 0, req_HWClass = hw\<rparr> of
     Inl err \<Rightarrow> Inl err
   | Inr cands \<Rightarrow> Inr (foldl (\<lambda>s c. add_supply (tpsByPK p) (acuByPK p) (prov reg c) s)
       \<lparr>Nodes = int (length cands), AggregateTPS = 0, TopACU = 0\<rparr> cands))"

subsection \<open>Quotes\<close>

text \<open>What the route reads of the outside world.\<close>

record market_env =
  mk_srv :: server_env
  mk_hash :: hash_env
  mk_jfloat :: "f64 \<Rightarrow> json"
  mk_md :: string
  mk_votes :: "Verdict list"
  mk_reviewers :: "Reviewer list"
  mk_clock :: int
  mk_rand :: string
  mk_quote_order :: "string list"

record market_state =
  ms_quotes :: "Outcome QuoteStore"
  ms_recent :: "PublicDecision list"

datatype created = BadRequest int string | Blocked Outcome | Unservable relay_error | Quoted "Outcome WorkloadQuote"

definition workload_spec :: "server_env \<Rightarrow> string \<Rightarrow> workloadRequest \<Rightarrow> Spec" where
  "workload_spec e tier req = \<lparr>sp_Model = wq_reqModel req, sp_ModelClass = classOf (sv_cat e) (wq_reqModel req),
     sp_Tier = NormalizeTier tier, Redundancy = (if wq_reqRedundancy req = 0 then 1 else wq_reqRedundancy req),
     Spot = wq_reqSpot req, sp_Items = [], EstimateCount = 0, AvgPromptTokens = 0, AvgCompletionTokens = 0\<rparr>"

definition with_volume :: "workloadRequest \<Rightarrow> Spec \<Rightarrow> int \<times> string + Spec" where
  "with_volume req spec =
    (if length (wq_reqItems req) > 0 then
       (if length (wq_reqItems req) > mk_MaxItems then Inl (413, ''too_many_items'')
        else case toBatchItems (wq_reqItems req) of
          None \<Rightarrow> Inl (400, ''invalid_request'') | Some items \<Rightarrow> Inr (spec\<lparr>sp_Items := items\<rparr>))
     else (case wq_reqEstimate req of None \<Rightarrow> Inr spec
       | Some est \<Rightarrow> if we_Count est > int mk_MaxItems then Inl (413, ''too_many_items'')
           else Inr (spec\<lparr>EstimateCount := we_Count est, AvgPromptTokens := we_AvgPromptTokens est,
             AvgCompletionTokens := we_AvgCompletionTokens est\<rparr>)))"

definition quote_cost :: "server_env \<Rightarrow> Spec \<Rightarrow> Estimate \<Rightarrow> WorkloadCost" where
  "quote_cost e spec est = QuoteWorkload (sp_ModelClass spec) (sp_Tier spec) (es_PromptTokens est) (es_CompletionTokens est)
     (Redundancy spec) (cf_MarketplaceMargin (sv_cfg e)) (spotPriceMult (sv_cfg e) (Spot spec))"

definition cost_usd :: "WorkloadCost \<Rightarrow> f64" where
  "cost_usd c = f64_of_int (TotalMicros c) / Fin 1000000"

definition review_workload :: "market_env \<Rightarrow> Spec \<Rightarrow> Estimate \<Rightarrow> WorkloadCost \<Rightarrow> ReviewProposal" where
  "review_workload m spec est cost = ForWorkload (mk_hash m) (mk_jfloat m) (mk_clock m) (sp_Model spec) (sp_ModelClass spec)
     (sp_Tier spec) (es_Items est) (es_PromptTokens est) (es_CompletionTokens est) (Redundancy spec) (Spot spec)
     (cost_usd cost) (ETASeconds est)"

definition handleCreateWorkload :: "market_env \<Rightarrow> Registry \<Rightarrow> string list \<Rightarrow> PG \<Rightarrow> string \<Rightarrow> string \<Rightarrow>
    workloadRequest option \<Rightarrow> market_state \<Rightarrow> created \<times> market_state" where
  "handleCreateWorkload m reg order p keyOwner tier body s = (case body of
     None \<Rightarrow> (BadRequest 400 ''invalid_json'', s)
   | Some req \<Rightarrow>
      (let e = mk_srv m; hasItems = length (wq_reqItems req) > 0;
           hasEstimate = (case wq_reqEstimate req of None \<Rightarrow> False | Some est \<Rightarrow> we_Count est > 0);
           red = (if wq_reqRedundancy req = 0 then 1 else wq_reqRedundancy req) in
       if wq_reqModel req = [] then (BadRequest 400 ''invalid_request'', s)
       else if hasItems = hasEstimate then (BadRequest 400 ''invalid_request'', s)
       else if red < 1 \<or> red > MaxRedundancy then (BadRequest 400 ''invalid_request'', s)
       else (case resolveModel (sv_cat e) (wq_reqModel req) of (hw, ok) \<Rightarrow>
         if \<not> ok then (BadRequest 404 ''model_not_found'', s)
         else (case with_volume req (workload_spec e tier req) of
           Inl (st, code) \<Rightarrow> (BadRequest st code, s)
         | Inr spec \<Rightarrow> (case supplyFor reg order p (wq_reqModel req) (NormalizeTier tier) hw of
             Inl err \<Rightarrow> (Unservable (Sched err), s)
           | Inr supply \<Rightarrow>
              (let est = EstimateWorkload spec (spotSupply supply (Spot spec));
                   cost = quote_cost e spec est in
               if wq_reqMaxPriceUSD req > 0 \<and> cost_usd cost > wq_reqMaxPriceUSD req then (BadRequest 409 ''over_budget'', s)
               else let prop = review_workload m spec est cost;
                        outc = Evaluate (mk_hash m) (mk_votes m) (mk_clock m) DefaultPolicy (mk_reviewers m) prop;
                        s = s\<lparr>ms_recent := snd (RecordWorkloadDecision (mk_hash m) (mk_md m) outc (prop_Title prop) (ms_recent s))\<rparr>
                    in if oc_Decision outc = Block then (Blocked outc, s)
                       else (case Create (mk_quote_order m) (mk_clock m) (mk_rand m) keyOwner (wq_reqModel req) spec est cost (ms_quotes s) of
                         (qs, q) \<Rightarrow> (let q = q\<lparr>wq_Council := Some outc\<rparr> in
                           (Quoted q, s\<lparr>ms_quotes := qs\<lparr>qm := (qm qs)(wq_ID q \<mapsto> q)\<rparr>\<rparr>)))))))))"

text \<open>A quote is visible to the key that asked for it only.\<close>

definition own_quote :: "int \<Rightarrow> string \<Rightarrow> string \<Rightarrow> Outcome QuoteStore \<Rightarrow> Outcome WorkloadQuote option" where
  "own_quote now i keyOwner qs = (case Get_quote now i qs of None \<Rightarrow> None
     | Some q \<Rightarrow> if wq_KeyID q \<noteq> keyOwner then None else Some q)"

definition handleGetWorkload :: "int \<Rightarrow> string \<Rightarrow> string \<Rightarrow> Outcome QuoteStore \<Rightarrow> Outcome WorkloadQuote resp" where
  "handleGetWorkload now i keyOwner qs = (case own_quote now i keyOwner qs of
     None \<Rightarrow> Reject 404 ''not_found'' | Some q \<Rightarrow> Reply 200 q)"

subsection \<open>The public preview\<close>

record previewRequest =
  pv_Model :: string
  pv_Estimate :: "workloadEstimateReq option"
  pv_Redundancy :: int
  pv_Tier :: string
  pv_Spot :: bool

record preview =
  pw_Spec :: Spec
  pw_SupplyOnline :: bool
  pw_Estimate :: Estimate
  pw_ETAMax :: "int option"
  pw_TotalUSD :: f64
  pw_Cost :: WorkloadCost

definition eta_max :: "Config \<Rightarrow> bool \<Rightarrow> Estimate \<Rightarrow> int option" where
  "eta_max cfg spot est = (if spot then Some (f64_to_int64 (f64_of_int (ETASeconds est) * spotEtaSlack cfg)) else None)"

definition handleQuotePreview :: "server_env \<Rightarrow> bool \<Rightarrow> Registry \<Rightarrow> string list \<Rightarrow> PG \<Rightarrow> string \<Rightarrow> previewRequest option \<Rightarrow> preview resp" where
  "handleQuotePreview e allowed reg order p trust body =
    (if \<not> allowed then Reject 429 ''rate_limited''
     else (case body of None \<Rightarrow> Reject 400 ''invalid_json''
     | Some req \<Rightarrow> (case pv_Estimate req of None \<Rightarrow> Reject 400 ''invalid_request''
       | Some est \<Rightarrow>
          (let red = (if pv_Redundancy req = 0 then 1 else pv_Redundancy req) in
           if pv_Model req = [] \<or> we_Count est \<le> 0 then Reject 400 ''invalid_request''
           else if we_Count est > int mk_MaxItems then Reject 413 ''too_many_items''
           else if red < 1 \<or> red > MaxRedundancy then Reject 400 ''invalid_request''
           else (case resolveModel (sv_cat e) (pv_Model req) of (hw, ok) \<Rightarrow>
             if \<not> ok then Reject 404 ''model_not_found''
             else let h = NormalizeTier trust; tier = (if h \<noteq> ''community'' then h else NormalizeTier (pv_Tier req));
                      supply = (case supplyFor reg order p (pv_Model req) tier hw of Inr s \<Rightarrow> s
                        | Inl _ \<Rightarrow> \<lparr>Nodes = 0, AggregateTPS = ReferenceNodeTPS, TopACU = 0\<rparr>);
                      spec = \<lparr>sp_Model = pv_Model req, sp_ModelClass = classOf (sv_cat e) (pv_Model req), sp_Tier = tier,
                        Redundancy = red, Spot = pv_Spot req, sp_Items = [], EstimateCount = we_Count est,
                        AvgPromptTokens = we_AvgPromptTokens est, AvgCompletionTokens = we_AvgCompletionTokens est\<rparr>;
                      es = EstimateWorkload spec (spotSupply supply (Spot spec)); cost = quote_cost e spec es
                  in Reply 200 \<lparr>pw_Spec = spec, pw_SupplyOnline = (Nodes supply > 0), pw_Estimate = es,
                    pw_ETAMax = eta_max (sv_cfg e) (Spot spec) es, pw_TotalUSD = round2usd (TotalMicros cost),
                    pw_Cost = cost\<rparr>)))))"

text \<open>What a quote shows: id, status, class, the upper end of the spot window, price and whether it can be run.\<close>

record quote_view =
  qv_ID :: string
  qv_Status :: string
  qv_Class :: string
  qv_Runnable :: bool
  qv_ETAMax :: "int option"
  qv_TotalUSD :: f64
  qv_Breakdown :: "f64 list"
  qv_AcceptURL :: "string option"

definition renderQuote :: "Config \<Rightarrow> Outcome WorkloadQuote \<Rightarrow> quote_view" where
  "renderQuote cfg q = \<lparr>qv_ID = wq_ID q, qv_Status = (if Accepted q then ''accepted'' else ''quoted''),
     qv_Class = service_class (wq_Spec q), qv_Runnable = Runnable (wq_Spec q),
     qv_ETAMax = eta_max cfg (Spot (wq_Spec q)) (wq_Estimate q), qv_TotalUSD = round2usd (TotalMicros (wq_Cost q)),
     qv_Breakdown = map round4usd [ComputeMicros (wq_Cost q), CoordinationMicros (wq_Cost q), FailureMicros (wq_Cost q),
       PaymentMicros (wq_Cost q), MarginMicros (wq_Cost q)],
     qv_AcceptURL = (if Runnable (wq_Spec q) then Some (''/v1/workloads/'' @ wq_ID q @ ''/accept'') else None)\<rparr>"

subsection \<open>Batches of a workload\<close>

lemma chunk_from_concat: "0 < n \<Longrightarrow> concat (chunk_from items n) = items"
proof (induction items n rule: chunk_from.induct)
  case (1 items n)
  then show ?case by (cases "items = []") (simp_all add: chunk_from.simps [of items n] chunk_from.simps [of "[]" n])
qed

lemma chunk_from_small: "c \<in> set (chunk_from items n) \<Longrightarrow> 0 < length c \<and> length c \<le> n"
proof (induction items n rule: chunk_from.induct)
  case (1 items n)
  then show ?case by (subst (asm) (2) chunk_from.simps) (auto split: if_splits)
qed

lemma chunkItems_concat: "0 < n \<Longrightarrow> concat (chunkItems items n) = items"
  by (simp add: chunkItems_def chunk_from_concat)

lemma chunkItems_small: "c \<in> set (chunkItems items n) \<Longrightarrow> length c \<le> n"
  using chunk_from_small by (auto simp: chunkItems_def split: if_splits)

lemma toBatchItems_length: "toBatchItems its = Some items \<Longrightarrow> length items = length its"
  by (induction its arbitrary: items) (auto split: if_splits)

lemma toBatchItems_positive: "toBatchItems its = Some items \<Longrightarrow> it \<in> set items \<Longrightarrow> 0 < MaxTokens (it_Params it)"
  by (induction its arbitrary: items) (auto simp: positive_or_def defaultMaxTokens_def split: if_splits option.splits)

text \<open>The sum of the requested completion tokens wraps at 64 bits: four items of 2 ^ 62 tokens are
  estimated, and priced, as no completion at all.\<close>

definition huge_item :: batchItemReq where
  "huge_item = \<lparr>bi_Messages = [\<lparr>Role = ''user'', Content = ''hi''\<rparr>], bi_MaxTokens = Some (2 ^ 62), bi_Temperature = None,
     bi_TopP = None, bi_TopK = None, bi_Stop = [], bi_Seed = None\<rparr>"

lemma huge_workload_is_free:
  assumes "toBatchItems [huge_item, huge_item, huge_item, huge_item] = Some items"
  shows "length items = 4 \<and> es_CompletionTokens (EstimateWorkload (spec\<lparr>sp_Items := items\<rparr>) supply) = 0"
proof -
  have tb: "toBatchItems [huge_item, huge_item, huge_item, huge_item] = Some (replicate 4
      \<lparr>it_Messages = [\<lparr>Role = ''user'', Content = ''hi''\<rparr>], it_Params = \<lparr>MaxTokens = 2 ^ 62, Temperature = None, TopP = None,
        TopK = None, RepeatPenalty = None, Stop = [], Seed = None\<rparr>\<rparr>)"
    by (simp add: huge_item_def positive_or_def messagesTooBig_def maxPromptChars_def Let_def numeral_eq_Suc)
  then have "items = replicate 4
      \<lparr>it_Messages = [\<lparr>Role = ''user'', Content = ''hi''\<rparr>], it_Params = \<lparr>MaxTokens = 2 ^ 62, Temperature = None, TopP = None,
        TopK = None, RepeatPenalty = None, Stop = [], Seed = None\<rparr>\<rparr>" using assms by simp
  then have "length items = 4 \<and> snd (snd (workload_volume (spec\<lparr>sp_Items := items\<rparr>))) = 0"
    by (simp add: workload_volume_def item_completion_def wrap64_def numeral_eq_Suc)
  then show ?thesis by (auto simp: EstimateWorkload_def Let_def split: prod.split)
qed

subsection \<open>A quote that was given\<close>

lemma Create_fields:
  assumes "Create order now b9 key model spec est cost qs = (qs', q)"
  shows "wq_KeyID q = key" "\<not> Accepted q" "wq_Spec q = spec" "wq_Cost q = cost" "wq_ExpiresAt q = now + qs_ttl qs"
    "wq_Estimate q = est" "qs_ttl qs' = qs_ttl qs"
  using assms by (auto simp: Create_def Let_def)

lemma at_least_floor: "(a::int) \<le> (if t < a then a else t)"
  by simp

lemma QuoteWorkload_floor: "MinWorkloadMicros \<le> TotalMicros (QuoteWorkload c t p ct red mr pm)"
  by (simp only: QuoteWorkload_def Let_def WorkloadCost.simps at_least_floor)

lemma with_volume_bounds:
  assumes "with_volume req spec = Inr spec'" "sp_Items spec = []"
  shows "Redundancy spec' = Redundancy spec" "length (sp_Items spec') \<le> mk_MaxItems"
    "Spot spec' = Spot spec" "sp_Tier spec' = sp_Tier spec" "sp_Model spec' = sp_Model spec"
  using assms toBatchItems_length by (auto simp: with_volume_def split: if_splits option.splits)

lemma created_quote:
  assumes "handleCreateWorkload m reg order p key tier (Some req) s = (Quoted q, s')"
  obtains spec est cost outc qs q0 where
    "with_volume req (workload_spec (mk_srv m) tier req) = Inr spec" "1 \<le> Redundancy spec" "Redundancy spec \<le> MaxRedundancy"
    "cost = quote_cost (mk_srv m) spec est" "\<not> (wq_reqMaxPriceUSD req > 0 \<and> cost_usd cost > wq_reqMaxPriceUSD req)"
    "outc = Evaluate (mk_hash m) (mk_votes m) (mk_clock m) DefaultPolicy (mk_reviewers m) (review_workload m spec est cost)"
    "oc_Decision outc \<noteq> Block"
    "Create (mk_quote_order m) (mk_clock m) (mk_rand m) key (wq_reqModel req) spec est cost (ms_quotes s) = (qs, q0)"
    "q = q0\<lparr>wq_Council := Some outc\<rparr>"
    "s' = s\<lparr>ms_recent := snd (RecordWorkloadDecision (mk_hash m) (mk_md m) outc (prop_Title (review_workload m spec est cost)) (ms_recent s)),
            ms_quotes := qs\<lparr>qm := (qm qs)(wq_ID q0 \<mapsto> q)\<rparr>\<rparr>"
proof -
  let ?red = "if wq_reqRedundancy req = 0 then 1 else wq_reqRedundancy req"
  from assms obtain hw spec sply where a: "1 \<le> ?red" "?red \<le> MaxRedundancy"
    "resolveModel (sv_cat (mk_srv m)) (wq_reqModel req) = (hw, True)"
    "with_volume req (workload_spec (mk_srv m) tier req) = Inr spec"
    "supplyFor reg order p (wq_reqModel req) (NormalizeTier tier) hw = Inr sply"
    unfolding handleCreateWorkload_def Let_def
    by (auto split: if_split_asm sum.split_asm prod.split_asm)
  define est where "est = EstimateWorkload spec (spotSupply sply (Spot spec))"
  define cost where "cost = quote_cost (mk_srv m) spec est"
  define outc where "outc = Evaluate (mk_hash m) (mk_votes m) (mk_clock m) DefaultPolicy (mk_reviewers m) (review_workload m spec est cost)"
  obtain qs q0 where c: "Create (mk_quote_order m) (mk_clock m) (mk_rand m) key (wq_reqModel req) spec est cost (ms_quotes s) = (qs, q0)"
    by force
  have red: "Redundancy spec = ?red"
    using with_volume_bounds(1) [OF a(4)] by (simp add: workload_spec_def)
  have "\<not> (wq_reqMaxPriceUSD req > 0 \<and> cost_usd cost > wq_reqMaxPriceUSD req)" "oc_Decision outc \<noteq> Block"
    "q = q0\<lparr>wq_Council := Some outc\<rparr>"
    "s' = s\<lparr>ms_recent := snd (RecordWorkloadDecision (mk_hash m) (mk_md m) outc (prop_Title (review_workload m spec est cost)) (ms_recent s)),
            ms_quotes := qs\<lparr>qm := (qm qs)(wq_ID q0 \<mapsto> q)\<rparr>\<rparr>"
    using assms a c unfolding handleCreateWorkload_def Let_def
    by (auto simp: est_def [symmetric] cost_def [symmetric] outc_def [symmetric] split: if_split_asm)
  with a(1,2,4) red c show ?thesis
    by (intro that [of spec cost est outc qs q0]) (simp_all add: cost_def outc_def)
qed

lemma handleCreateWorkload_else:
  assumes "handleCreateWorkload m reg order p key tier body s = (r, s')" "\<And>q. r \<noteq> Quoted q"
  shows "ms_quotes s' = ms_quotes s"
  using assms unfolding handleCreateWorkload_def Let_def
  by (auto split: if_split_asm sum.split_asm prod.split_asm option.split_asm)

lemma quoted_terms:
  assumes "handleCreateWorkload m reg order p key tier (Some req) s = (Quoted q, s')"
  shows "wq_KeyID q = key \<and> \<not> Accepted q \<and> MinWorkloadMicros \<le> TotalMicros (wq_Cost q) \<and>
    \<not> (wq_reqMaxPriceUSD req > 0 \<and> cost_usd (wq_Cost q) > wq_reqMaxPriceUSD req) \<and>
    1 \<le> Redundancy (wq_Spec q) \<and> Redundancy (wq_Spec q) \<le> 3 \<and> length (sp_Items (wq_Spec q)) \<le> 5000 \<and>
    Acceptable (wq_Council q) \<and>
    (\<exists>r rest. ms_recent s' = rest @ [r] \<and> [AuditHash (the (wq_Council q))] = pd_EvidenceDigests r) \<and>
    own_quote now (wq_ID q) k (ms_quotes s') = (if k = key \<and> now \<le> mk_clock m + qs_ttl (ms_quotes s) then Some q else None)"
  using assms
proof (rule created_quote)
  fix spec est cost outc qs q0
  assume a: "with_volume req (workload_spec (mk_srv m) tier req) = Inr spec" "1 \<le> Redundancy spec" "Redundancy spec \<le> MaxRedundancy"
    "cost = quote_cost (mk_srv m) spec est" "\<not> (wq_reqMaxPriceUSD req > 0 \<and> cost_usd cost > wq_reqMaxPriceUSD req)"
    "oc_Decision outc \<noteq> Block"
    and c: "Create (mk_quote_order m) (mk_clock m) (mk_rand m) key (wq_reqModel req) spec est cost (ms_quotes s) = (qs, q0)"
    and q: "q = q0\<lparr>wq_Council := Some outc\<rparr>"
    and s': "s' = s\<lparr>ms_recent := snd (RecordWorkloadDecision (mk_hash m) (mk_md m) outc (prop_Title (review_workload m spec est cost)) (ms_recent s)),
            ms_quotes := qs\<lparr>qm := (qm qs)(wq_ID q0 \<mapsto> q)\<rparr>\<rparr>"
  note f = Create_fields [OF c]
  have "length (sp_Items spec) \<le> 5000"
    using with_volume_bounds(2) [OF a(1)] by (simp add: workload_spec_def mk_MaxItems_def)
  moreover have "\<exists>r rest. snd (RecordWorkloadDecision (mk_hash m) (mk_md m) outc t rec) = rest @ [r] \<and>
      [AuditHash outc] = pd_EvidenceDigests r" for t rec
  proof -
    have cap: "\<exists>rest. cap_recent (xs @ [r]) = rest @ [r]" for xs :: "PublicDecision list" and r
      by (auto simp: cap_recent_def maxRecent_def)
    obtain r where "snd (RecordWorkloadDecision (mk_hash m) (mk_md m) outc t rec) = cap_recent (rec @ [r])"
      "pd_EvidenceDigests r = [AuditHash outc]"
      by (auto simp: RecordWorkloadDecision_def Let_def seal_def workload_record_def)
    with cap [of rec r] show ?thesis by auto
  qed
  moreover have "own_quote now (wq_ID q) k (ms_quotes s') = (if k = key \<and> now \<le> mk_clock m + qs_ttl (ms_quotes s) then Some q else None)"
    using f by (auto simp: own_quote_def Get_quote_def s' q Expired_def)
  ultimately show ?thesis
    using a f QuoteWorkload_floor by (simp add: q s' quote_cost_def Acceptable_def MaxRedundancy_def)
qed

lemma quoted_row:
  assumes "handleCreateWorkload m reg order p key tier (Some req) s = (Quoted q, s')"
  shows "qm (ms_quotes s') (wq_ID q) = Some q \<and> wq_ExpiresAt q = mk_clock m + qs_ttl (ms_quotes s) \<and> wq_KeyID q = key"
  using assms
proof (rule created_quote)
  fix spec est cost outc qs q0
  assume c: "Create (mk_quote_order m) (mk_clock m) (mk_rand m) key (wq_reqModel req) spec est cost (ms_quotes s) = (qs, q0)"
    and q: "q = q0\<lparr>wq_Council := Some outc\<rparr>"
    and s': "s' = s\<lparr>ms_recent := snd (RecordWorkloadDecision (mk_hash m) (mk_md m) outc (prop_Title (review_workload m spec est cost)) (ms_recent s)),
            ms_quotes := qs\<lparr>qm := (qm qs)(wq_ID q0 \<mapsto> q)\<rparr>\<rparr>"
  from Create_fields [OF c] show ?thesis by (auto simp: q s')
qed

text \<open>Later requests: which of them make a quote, and which name a given one.\<close>

definition is_create :: "'c quote_op \<Rightarrow> bool" where
  "is_create op = (case op of QCreate _ _ _ _ _ _ \<Rightarrow> True | _ \<Rightarrow> False)"

definition writes_quote :: "string \<Rightarrow> 'c quote_op \<Rightarrow> bool" where
  "writes_quote i op = (case op of QCreate b9 _ _ _ _ _ \<Rightarrow> ''wl_'' @ randID b9 = i | QGet j \<Rightarrow> False
     | QAccept j \<Rightarrow> j = i | QReview j _ \<Rightarrow> j = i)"

lemma quote_step_other:
  assumes "qm s i = Some q" "finite (dom (qm s))" "card (dom (qm s)) + (if is_create (snd op) then 1 else 0) \<le> qs_max s"
    "fst op \<le> wq_ExpiresAt q" "\<not> writes_quote i (snd op)"
  shows "qm (fst (quote_step ordf op s)) i = Some q \<and> finite (dom (qm (fst (quote_step ordf op s)))) \<and>
    card (dom (qm (fst (quote_step ordf op s)))) \<le> card (dom (qm s)) + (if is_create (snd op) then 1 else 0)"
proof (cases op)
  case (Pair now req)
  have upd: "finite (dom ((qm s)(j \<mapsto> x))) \<and> card (dom ((qm s)(j \<mapsto> x))) \<le> card (dom (qm s))" if "qm s j = Some y" for j x y
  proof -
    have "dom ((qm s)(j \<mapsto> x)) = dom (qm s)" using that by auto
    then show ?thesis using assms(2) by simp
  qed
  show ?thesis
  proof (cases req)
    case (QCreate b9 k m sp e c)
    let ?g = "gcLocked now (qm s)" and ?id = "''wl_'' @ randID b9"
    have sub: "dom ?g \<subseteq> dom (qm s)" by (auto simp: gcLocked_def split: option.splits if_splits)
    have fin: "finite (dom ?g)" and le: "card (dom ?g) \<le> card (dom (qm s))"
      using sub assms(2) by (auto intro: finite_subset card_mono)
    have "\<not> qs_max s \<le> card (dom ?g)" using le assms(3) by (simp add: Pair QCreate is_create_def)
    then have m: "qm (fst (quote_step ordf op s)) = ?g(?id \<mapsto> snd (Create (ordf ?g) now b9 k m sp e c s))"
      by (simp add: Pair QCreate Create_def Let_def)
    have "?g i = Some q" using assms(1,4) by (simp add: gcLocked_def Expired_def Pair)
    moreover have "i \<noteq> ?id" using assms(5) by (auto simp: Pair QCreate writes_quote_def)
    moreover have "card (insert ?id (dom ?g)) \<le> Suc (card (dom ?g))" using fin by (simp add: card_insert_if)
    ultimately show ?thesis unfolding m using fin le by (simp add: Pair QCreate is_create_def)
  next
    case (QAccept j)
    then show ?thesis using assms(1,2,5) upd
      by (cases "qm s j") (auto simp: Pair MarkAccepted_def Let_def is_create_def writes_quote_def)
  next
    case (QReview j c)
    then show ?thesis using assms(1,2,5) upd by (cases "qm s j") (auto simp: Pair is_create_def writes_quote_def)
  qed (use assms in \<open>simp add: Pair is_create_def\<close>)
qed

lemma quote_kept:
  assumes "qm s i = Some q" "finite (dom (qm s))" "card (dom (qm s)) + length (filter (\<lambda>op. is_create (snd op)) ops) \<le> qs_max s"
    "list_all (\<lambda>op. fst op \<le> wq_ExpiresAt q \<and> \<not> writes_quote i (snd op)) ops"
  shows "qm (quote_run ordf ops s) i = Some q"
  using assms
proof (induction ops arbitrary: s)
  case (Cons op ops)
  have "card (dom (qm s)) + (if is_create (snd op) then 1 else 0) \<le> qs_max s" using Cons.prems(3) by (simp split: if_splits)
  note st = quote_step_other [OF Cons.prems(1,2) this, of ordf]
  show ?case unfolding quote_run.simps
    by (rule Cons.IH) (use st Cons.prems(3,4) quote_step_max [of ordf op s] in \<open>auto split: if_splits\<close>)
qed simp


end
