(* ===== verification/Net.thy ===== *)
theory Net
  imports Codec "HOL-Library.Word"
begin

text \<open>
  What the coordinator uses of Go's package net: the text of an IP address (ParseIP, with IPv4,
  IPv6, the double colon, an embedded IPv4 tail and the rejection of zones), the address classes of
  net.IP, SplitHostPort, and the rule \<open>isPublicIP\<close> of coordinator/internal/api/runs.go built on the
  classes. An address is its 16 bytes, IPv4 in the mapped form, as ParseIP returns it.
\<close>

type_synonym ip = "8 word list"

subsection \<open>IPv4\<close>

definition octet :: "string \<Rightarrow> 8 word option" where
  "octet s = (if s \<noteq> [] \<and> list_all is_digit s \<and> (length s = 1 \<or> hd s \<noteq> CHR ''0'') \<and> dec_val s \<le> 255
     then Some (word_of_nat (dec_val s)) else None)"

definition parse_v4 :: "string \<Rightarrow> ip option" where
  "parse_v4 s = (case map octet (split_on (CHR ''.'') s) of
     [Some a, Some b, Some c, Some d] \<Rightarrow> Some [a, b, c, d] | _ \<Rightarrow> None)"

definition v4_prefix :: ip where "v4_prefix = replicate 10 0 @ [0xFF, 0xFF]"

definition To4 :: "ip \<Rightarrow> ip option" where
  "To4 a = (if length a = 4 then Some a
     else if length a = 16 \<and> take 12 a = v4_prefix then Some (drop 12 a) else None)"

subsection \<open>IPv6\<close>

definition hex_val :: "char \<Rightarrow> nat option" where
  "hex_val c = (let n = of_char c :: nat in
     if 48 \<le> n \<and> n \<le> 57 then Some (n - 48) else if 97 \<le> n \<and> n \<le> 102 then Some (n - 87)
     else if 65 \<le> n \<and> n \<le> 70 then Some (n - 55) else None)"

definition group16 :: "string \<Rightarrow> ip" where
  "group16 h = (let v = foldl (\<lambda>n c. n * 16 + the (hex_val c)) 0 h in [word_of_nat (v div 256), word_of_nat (v mod 256)])"

lemma rest_shorter: "drop n s = c # t \<Longrightarrow> length t < length s"
  by (metis length_drop diff_le_self length_Cons Suc_le_eq)

text \<open>The bytes read so far, the position of the double colon, and the rest of the text.\<close>

function v6_loop :: "ip \<Rightarrow> nat option \<Rightarrow> string \<Rightarrow> (ip \<times> nat option \<times> string) option" where
  "v6_loop bs ell s =
    (if length bs \<ge> 16 then Some (bs, ell, s)
     else let h = takeWhile (\<lambda>c. hex_val c \<noteq> None) s in
       if h = [] \<or> length h > 4 then None
       else (case drop (length h) s of
         [] \<Rightarrow> Some (bs @ group16 h, ell, [])
       | c # t \<Rightarrow>
          if c = CHR ''.'' then
            (if (ell = None \<and> length bs \<noteq> 12) \<or> length bs + 4 > 16 then None
             else case parse_v4 s of None \<Rightarrow> None | Some q \<Rightarrow> Some (bs @ q, ell, []))
          else if c \<noteq> CHR '':'' \<or> t = [] then None
          else if hd t = CHR '':'' then
            (if ell \<noteq> None then None
             else if tl t = [] then Some (bs @ group16 h, Some (length bs + 2), [])
             else v6_loop (bs @ group16 h) (Some (length bs + 2)) (tl t))
          else v6_loop (bs @ group16 h) ell t))"
  by pat_completeness auto
termination
  by (relation "measure (\<lambda>(_, _, s). length s)") (auto dest!: rest_shorter simp: less_diff_conv)

declare v6_loop.simps [simp del]

definition parse_v6 :: "string \<Rightarrow> ip option" where
  "parse_v6 s0 =
    (let (s, ell) = (if take 2 s0 = ''::'' then (drop 2 s0, Some 0) else (s0, None)) in
     if s = [] \<and> ell \<noteq> None then Some (replicate 16 0)
     else case v6_loop [] ell s of None \<Rightarrow> None
       | Some (bs, ell, rest) \<Rightarrow>
          if rest \<noteq> [] then None
          else if length bs < 16 then (case ell of None \<Rightarrow> None
            | Some k \<Rightarrow> Some (take k bs @ replicate (16 - length bs) 0 @ drop k bs))
          else if ell \<noteq> None then None else Some bs)"

text \<open>The first of the three characters decides the family; an address with a zone is no IP.\<close>

definition ParseIP :: "string \<Rightarrow> ip option" where
  "ParseIP s = (case find (\<lambda>c. c = CHR ''.'' \<or> c = CHR '':'' \<or> c = CHR ''%'') s of
     None \<Rightarrow> None
   | Some c \<Rightarrow>
      if c = CHR ''.'' then (case parse_v4 s of None \<Rightarrow> None | Some q \<Rightarrow> Some (v4_prefix @ q))
      else if c = CHR '':'' then (if CHR ''%'' \<in> set s then None else parse_v6 s)
      else None)"

subsection \<open>Address classes\<close>

definition IsUnspecified :: "ip \<Rightarrow> bool" where
  "IsUnspecified a = (To4 a = Some [0, 0, 0, 0] \<or> a = replicate 16 0)"

definition IsLoopback :: "ip \<Rightarrow> bool" where
  "IsLoopback a = (case To4 a of Some q \<Rightarrow> q ! 0 = 127 | None \<Rightarrow> a = replicate 15 0 @ [1])"

definition IsPrivate :: "ip \<Rightarrow> bool" where
  "IsPrivate a = (case To4 a of
     Some q \<Rightarrow> q ! 0 = 10 \<or> (q ! 0 = 172 \<and> and (q ! 1) 0xF0 = 16) \<or> (q ! 0 = 192 \<and> q ! 1 = 168)
   | None \<Rightarrow> length a = 16 \<and> and (a ! 0) 0xFE = 0xFC)"

definition IsMulticast :: "ip \<Rightarrow> bool" where
  "IsMulticast a = (case To4 a of Some q \<Rightarrow> and (q ! 0) 0xF0 = 0xE0 | None \<Rightarrow> length a = 16 \<and> a ! 0 = 0xFF)"

definition IsInterfaceLocalMulticast :: "ip \<Rightarrow> bool" where
  "IsInterfaceLocalMulticast a = (length a = 16 \<and> a ! 0 = 0xFF \<and> and (a ! 1) 0x0F = 1)"

definition IsLinkLocalMulticast :: "ip \<Rightarrow> bool" where
  "IsLinkLocalMulticast a = (case To4 a of Some q \<Rightarrow> q ! 0 = 224 \<and> q ! 1 = 0 \<and> q ! 2 = 0
   | None \<Rightarrow> length a = 16 \<and> a ! 0 = 0xFF \<and> and (a ! 1) 0x0F = 2)"

definition IsLinkLocalUnicast :: "ip \<Rightarrow> bool" where
  "IsLinkLocalUnicast a = (case To4 a of Some q \<Rightarrow> q ! 0 = 169 \<and> q ! 1 = 254
   | None \<Rightarrow> length a = 16 \<and> a ! 0 = 0xFE \<and> and (a ! 1) 0xC0 = 0x80)"

definition isPublicIP :: "ip \<Rightarrow> bool" where
  "isPublicIP a = (\<not> (IsLoopback a \<or> IsPrivate a \<or> IsLinkLocalUnicast a \<or> IsLinkLocalMulticast a \<or>
     IsInterfaceLocalMulticast a \<or> IsMulticast a \<or> IsUnspecified a))"

subsection \<open>Host and port\<close>

definition SplitHostPort :: "string \<Rightarrow> string option" where
  "SplitHostPort a =
    (if CHR '':'' \<notin> set a then None
     else let host = rev (tl (dropWhile (\<lambda>c. c \<noteq> CHR '':'') (rev a)));
              port = rev (takeWhile (\<lambda>c. c \<noteq> CHR '':'') (rev a)) in
       if hd a = CHR ''['' then
         (let h = takeWhile (\<lambda>c. c \<noteq> CHR '']'') a in
          if h @ '']'' \<noteq> host \<or> CHR ''['' \<in> set (tl a) \<or> CHR '']'' \<in> set port then None else Some (tl h))
       else if CHR '':'' \<in> set host \<or> CHR ''['' \<in> set a \<or> CHR '']'' \<in> set a then None else Some host)"

definition JoinHostPort :: "string \<Rightarrow> string \<Rightarrow> string" where
  "JoinHostPort host port = (if CHR '':'' \<in> set host then ''['' @ host @ '']:'' @ port else host @ '':'' @ port)"

subsection \<open>The classes as ranges\<close>

lemma byte_ranges:
  "list_all (\<lambda>n. (and (word_of_nat n :: 8 word) 0xF0 = 16 \<longleftrightarrow> 16 \<le> n \<and> n \<le> 31) \<and>
      (and (word_of_nat n :: 8 word) 0xF0 = 0xE0 \<longleftrightarrow> 224 \<le> n \<and> n \<le> 239) \<and>
      (and (word_of_nat n :: 8 word) 0xFE = 0xFC \<longleftrightarrow> 252 \<le> n \<and> n \<le> 253) \<and>
      (and (word_of_nat n :: 8 word) 0xC0 = 0x80 \<longleftrightarrow> 128 \<le> n \<and> n \<le> 191)) [0..<256]"
  by code_simp

lemma byte_bound: "unat b < 256" for b :: "8 word"
proof -
  have "unat b < 2 ^ LENGTH(8)" by (rule unsigned_less)
  then show ?thesis by simp
qed

lemma byte_masks:
  fixes b :: "8 word"
  shows "and b 0xF0 = 16 \<longleftrightarrow> 16 \<le> unat b \<and> unat b \<le> 31"
    "and b 0xF0 = 0xE0 \<longleftrightarrow> 224 \<le> unat b \<and> unat b \<le> 239"
    "and b 0xFE = 0xFC \<longleftrightarrow> 252 \<le> unat b \<and> unat b \<le> 253"
    "and b 0xC0 = 0x80 \<longleftrightarrow> 128 \<le> unat b \<and> unat b \<le> 191"
proof -
  have "unat b \<in> set [0..<256]" using byte_bound [of b] by simp
  then have "let n = unat b in (and (word_of_nat n :: 8 word) 0xF0 = 16 \<longleftrightarrow> 16 \<le> n \<and> n \<le> 31) \<and>
      (and (word_of_nat n :: 8 word) 0xF0 = 0xE0 \<longleftrightarrow> 224 \<le> n \<and> n \<le> 239) \<and>
      (and (word_of_nat n :: 8 word) 0xFE = 0xFC \<longleftrightarrow> 252 \<le> n \<and> n \<le> 253) \<and>
      (and (word_of_nat n :: 8 word) 0xC0 = 0x80 \<longleftrightarrow> 128 \<le> n \<and> n \<le> 191)"
    using byte_ranges unfolding list_all_iff Let_def by blast
  then show "and b 0xF0 = 16 \<longleftrightarrow> 16 \<le> unat b \<and> unat b \<le> 31"
    "and b 0xF0 = 0xE0 \<longleftrightarrow> 224 \<le> unat b \<and> unat b \<le> 239"
    "and b 0xFE = 0xFC \<longleftrightarrow> 252 \<le> unat b \<and> unat b \<le> 253"
    "and b 0xC0 = 0x80 \<longleftrightarrow> 128 \<le> unat b \<and> unat b \<le> 191"
    by (simp_all add: Let_def)
qed

definition private_v4 :: "8 word \<Rightarrow> 8 word \<Rightarrow> 8 word \<Rightarrow> 8 word \<Rightarrow> bool" where
  "private_v4 a b c d \<longleftrightarrow> a = 127 \<or> a = 10 \<or> (a = 172 \<and> 16 \<le> unat b \<and> unat b \<le> 31) \<or> (a = 192 \<and> b = 168) \<or>
     (a = 169 \<and> b = 254) \<or> (224 \<le> unat a \<and> unat a \<le> 239) \<or> (a = 0 \<and> b = 0 \<and> c = 0 \<and> d = 0)"

lemma To4_v4: "To4 (v4_prefix @ [a, b, c, d]) = Some [a, b, c, d]"
  by (simp add: To4_def v4_prefix_def)

lemma v4_not_v6: "(v4_prefix @ [a, b, c, d]) ! 0 = 0" "v4_prefix @ [a, b, c, d] \<noteq> replicate 16 0"
proof -
  show "(v4_prefix @ [a, b, c, d]) ! 0 = 0" by (simp add: v4_prefix_def nth_append)
  have "(v4_prefix @ [a, b, c, d]) ! 10 = 0xFF" by (simp add: v4_prefix_def nth_append)
  then show "v4_prefix @ [a, b, c, d] \<noteq> replicate 16 0" by force
qed

lemma isPublicIP_v4: "isPublicIP (v4_prefix @ [a, b, c, d]) \<longleftrightarrow> \<not> private_v4 a b c d"
proof -
  have m: "a = 224 \<Longrightarrow> 224 \<le> unat a \<and> unat a \<le> 239" by simp
  show ?thesis
    unfolding isPublicIP_def IsLoopback_def IsPrivate_def IsLinkLocalUnicast_def IsLinkLocalMulticast_def
      IsInterfaceLocalMulticast_def IsMulticast_def IsUnspecified_def To4_v4 v4_not_v6 private_v4_def
    using m by (auto simp: byte_masks v4_not_v6)
qed

subsection \<open>Reading back a printed address\<close>

lemma split_on_append: "c \<notin> set x \<Longrightarrow> split_on c (x @ c # y) = x # split_on c y"
  by (induction x) auto

lemma split_on_single: "c \<notin> set x \<Longrightarrow> split_on c x = [x]"
  by (induction x) auto

definition dotted :: "8 word \<Rightarrow> 8 word \<Rightarrow> 8 word \<Rightarrow> 8 word \<Rightarrow> string" where
  "dotted a b c d = nat_str (unat a) @ ''.'' @ nat_str (unat b) @ ''.'' @ nat_str (unat c) @ ''.'' @ nat_str (unat d)"

lemma not_digit: "\<not> is_digit (CHR ''.'')" "\<not> is_digit (CHR '':'')" "\<not> is_digit (CHR ''%'')" "\<not> is_digit (CHR ''['')" "\<not> is_digit (CHR '']'')"
  by (simp_all add: is_digit_def)

lemma nat_str_no: "\<not> is_digit c \<Longrightarrow> c \<notin> set (nat_str n)"
  using nat_str_digits by blast

lemma nat_str_head: "0 < n \<Longrightarrow> hd (nat_str n) \<noteq> CHR ''0''"
proof (induction n rule: nat_str.induct)
  case (1 n)
  show ?case
  proof (cases "n < 10")
    case True
    then have "of_char (hd (nat_str n)) = 48 + n" by (simp add: nat_str.simps [of n])
    with 1(2) show ?thesis by auto
  next
    case False
    with 1 show ?thesis by (simp add: nat_str.simps [of n])
  qed
qed

lemma octet_nat_str: "octet (nat_str (unat b)) = Some b"
proof -
  note byte_bound [of b]
  moreover have "list_all is_digit (nat_str (unat b))" by (simp add: list_all_iff nat_str_digits)
  moreover have "length (nat_str (unat b)) = 1 \<or> hd (nat_str (unat b)) \<noteq> CHR ''0''"
    using nat_str_head [of "unat b"] by (cases "unat b = 0") (simp_all add: nat_str.simps [of 0])
  ultimately show ?thesis by (simp add: octet_def dec_val_nat_str)
qed

lemma parse_v4_dotted: "parse_v4 (dotted a b c d) = Some [a, b, c, d]"
  by (simp add: parse_v4_def dotted_def split_on_append split_on_single nat_str_no not_digit octet_nat_str)

lemma find_append: "find P (xs @ ys) = (case find P xs of None \<Rightarrow> find P ys | Some x \<Rightarrow> Some x)"
  by (induction xs) auto

lemma ParseIP_dotted: "ParseIP (dotted a b c d) = Some (v4_prefix @ [a, b, c, d])"
proof -
  have "find (\<lambda>c. c = CHR ''.'' \<or> c = CHR '':'' \<or> c = CHR ''%'') (nat_str n) = None" for n
    using nat_str_digits not_digit by (auto simp: find_None_iff)
  then have "find (\<lambda>c. c = CHR ''.'' \<or> c = CHR '':'' \<or> c = CHR ''%'') (dotted a b c d) = Some (CHR ''.'')"
    by (simp add: dotted_def find_append)
  then show ?thesis by (simp add: ParseIP_def parse_v4_dotted)
qed

lemma dotted_plain: "CHR '':'' \<notin> set (dotted a b c d)" "CHR ''['' \<notin> set (dotted a b c d)" "CHR '']'' \<notin> set (dotted a b c d)"
  by (simp_all add: dotted_def nat_str_no not_digit)

lemma Split_Join:
  assumes "CHR '':'' \<notin> set host" "CHR ''['' \<notin> set (host @ port)" "CHR '']'' \<notin> set (host @ port)" "CHR '':'' \<notin> set port"
  shows "SplitHostPort (JoinHostPort host port) = Some host"
proof -
  have "takeWhile (\<lambda>c. c \<noteq> CHR '':'') (rev port @ CHR '':'' # x) = rev port"
    "dropWhile (\<lambda>c. c \<noteq> CHR '':'') (rev port @ CHR '':'' # x) = CHR '':'' # x" for x
    using assms(4) by (auto simp: takeWhile_append dropWhile_append)
  with assms show ?thesis by (cases host) (auto simp: SplitHostPort_def JoinHostPort_def Let_def)
qed

text \<open>Some addresses: the loopback address, one with a zone, a host name, a mapped one, a leading zero.\<close>

lemma ParseIP_loopback: "ParseIP ''::1'' = Some (replicate 14 0 @ [0, 1])"
  by (simp add: ParseIP_def parse_v6_def v6_loop.simps hex_val_def group16_def Let_def)

lemma ParseIP_zone: "ParseIP ''fe80::1%eth0'' = None"
  by (simp add: ParseIP_def)

lemma ParseIP_name: "ParseIP ''example.com'' = None"
  by (simp add: ParseIP_def parse_v4_def octet_def is_digit_def)

lemma ParseIP_leading_zero: "ParseIP ''1.2.3.04'' = None"
  by (simp add: ParseIP_def parse_v4_def octet_def is_digit_def)

lemma ParseIP_mapped: "ParseIP ''::ffff:10.0.0.1'' = Some (replicate 10 0 @ [255, 255, 10, 0, 0, 1])"
  by (simp add: ParseIP_def parse_v6_def v6_loop.simps hex_val_def group16_def parse_v4_def octet_def is_digit_def dec_val_def v4_prefix_def Let_def)

end
