(* ===== verification/Runs.thy ===== *)
theory Runs
  imports Workloads Net
begin

text \<open>
  Package \<open>api\<close>, running a workload (coordinator/internal/api/runs.go and the accept route of
  workloads.go): the in-memory run registry, the chunked execution with its settlement, the
  asynchronous run with its row in the store, its completion webhook, the routes that read runs,
  and the webhook address rules. What the batch runner returns for a chunk, HMAC, the URL parser
  and the reply of the webhook receiver are arguments; every clock reading is one. A panic inside
  a run is not modelled. Times are shown in nanoseconds where the code prints RFC 3339.
\<close>

subsection \<open>The run registry\<close>

record runOutcome =
  ro_summary :: Summary
  ro_charged :: int
  ro_review :: RunReview

record runResults =
  rt_summary :: Summary
  rt_review :: RunReview
  rt_quoted :: int
  rt_charged :: int
  rt_expiresAt :: int

record runRegistry =
  rg_results :: "string \<rightharpoonup> runResults"
  rg_inflight :: "string \<rightharpoonup> int"
  rg_secrets :: "string \<rightharpoonup> string"

definition newRunRegistry :: runRegistry where
  "newRunRegistry = \<lparr>rg_results = Map.empty, rg_inflight = Map.empty, rg_secrets = Map.empty\<rparr>"

definition inflightFor :: "string \<Rightarrow> runRegistry \<Rightarrow> int" where
  "inflightFor k g = (case rg_inflight g k of None \<Rightarrow> 0 | Some n \<Rightarrow> n)"

definition addInflight :: "string \<Rightarrow> int \<Rightarrow> runRegistry \<Rightarrow> runRegistry" where
  "addInflight k delta g = (let n = inflightFor k g + delta in
     g\<lparr>rg_inflight := (rg_inflight g)(k := (if n \<le> 0 then None else Some n))\<rparr>)"

definition gcRuns :: "int \<Rightarrow> runRegistry \<Rightarrow> runRegistry" where
  "gcRuns now g = (let gone = (\<lambda>i. case rg_results g i of None \<Rightarrow> False | Some r \<Rightarrow> now > rt_expiresAt r) in
     g\<lparr>rg_results := (\<lambda>i. if gone i then None else rg_results g i),
       rg_secrets := (\<lambda>i. if gone i then None else rg_secrets g i)\<rparr>)"

definition put_run :: "int \<Rightarrow> string \<Rightarrow> runResults \<Rightarrow> runRegistry \<Rightarrow> runRegistry" where
  "put_run now i res g = (let g = gcRuns now g in g\<lparr>rg_results := (rg_results g)(i \<mapsto> res)\<rparr>)"

definition get_run :: "int \<Rightarrow> string \<Rightarrow> runRegistry \<Rightarrow> runRegistry \<times> runResults option" where
  "get_run now i g = (let g = gcRuns now g in (g, rg_results g i))"

definition setSecret :: "string \<Rightarrow> string \<Rightarrow> runRegistry \<Rightarrow> runRegistry" where
  "setSecret i secret g = g\<lparr>rg_secrets := (rg_secrets g)(i \<mapsto> secret)\<rparr>"

definition secret_of :: "string \<Rightarrow> runRegistry \<Rightarrow> string" where
  "secret_of i g = (case rg_secrets g i of None \<Rightarrow> [] | Some s \<Rightarrow> s)"

definition newRunID :: "string \<Rightarrow> string" where "newRunID b9 = ''run_'' @ hex_encode b9"

definition newWebhookSecret :: "string \<Rightarrow> string" where "newWebhookSecret b24 = ''whsec_'' @ hex_encode b24"

definition runResultsTTL :: "Config \<Rightarrow> int" where
  "runResultsTTL cfg = (if cf_RunResultsTTLSeconds cfg > 0 then wrap64 (cf_RunResultsTTLSeconds cfg * 1000000000)
     else 3600 * 1000000000)"

definition maxAsyncRunsPerKey :: "Config \<Rightarrow> int" where
  "maxAsyncRunsPerKey cfg = (if cf_MaxAsyncRunsPerKey cfg > 0 then cf_MaxAsyncRunsPerKey cfg else 4)"

subsection \<open>Executing a workload\<close>

text \<open>What a run reads of the outside world.\<close>

record run_env =
  rn_mkt :: market_env
  rn_fmt4 :: "f64 \<Rightarrow> string"
  rn_hmac :: "string \<Rightarrow> string \<Rightarrow> string"
  rn_url :: "string \<Rightarrow> (string \<times> string) option"
  rn_post :: "string \<Rightarrow> string \<Rightarrow> string \<Rightarrow> int option"

type_synonym progress = "int \<times> int \<times> int"

text \<open>The loop over the chunks, with the progress callback on a state of its own.\<close>

fun run_chunks :: "(nat \<Rightarrow> Item list \<Rightarrow> sched_error + Summary) \<Rightarrow> (nat \<Rightarrow> progress \<Rightarrow> 's \<Rightarrow> 's) \<Rightarrow> nat \<Rightarrow> Summary \<Rightarrow> int \<Rightarrow>
    Item list list \<Rightarrow> 's \<Rightarrow> (sched_error + Summary \<times> int) \<times> 's" where
  "run_chunks run onp k merged wall [] s = (Inr (merged, wall), s)"
| "run_chunks run onp k merged wall (c # cs) s = (case run k c of
     Inl err \<Rightarrow> (Inl err, s)
   | Inr sm \<Rightarrow>
      (let merged = mergeSummary merged sm (length (su_Items merged));
           wall = (if su_WallMS sm > wall then su_WallMS sm else wall);
           s = onp k (int (length (su_Items merged)), su_OK merged, su_Failed merged) s
       in run_chunks run onp (Suc k) merged wall cs s))"

definition empty_summary :: Summary where
  "empty_summary = \<lparr>su_Items = [], su_OK = 0, su_Failed = 0, su_Providers = Map.empty, su_PromptTokens = 0,
     su_CompletionTokens = 0, su_Concurrency = 0, su_WallMS = 0\<rparr>"

definition run_options :: "server_env \<Rightarrow> PG \<Rightarrow> Outcome WorkloadQuote \<Rightarrow> Options" where
  "run_options e p q = \<lparr>op_Model = wq_Model q, op_MinTier = sp_Tier (wq_Spec q),
     op_HWClass = hwClassOf (sv_cat e) (wq_Model q), op_MinContext = 0,
     op_Concurrency = (if Spot (wq_Spec q) then SpotMaxConcurrency else 0), op_ACUByPK = acuByPK p\<rparr>"

definition record_items :: "server_env \<Rightarrow> string \<Rightarrow> string \<Rightarrow> f64 \<Rightarrow> ItemResult list \<Rightarrow> PG \<Rightarrow> PG" where
  "record_items e keyOwner model pm its p =
    foldl (\<lambda>p it. if ir_ErrCode it \<noteq> [] then p else snd (recordJob e keyOwner model (item_relay_result it) pm p)) p its"

definition run_charge :: "Outcome WorkloadQuote \<Rightarrow> Summary \<Rightarrow> int" where
  "run_charge q merged = (if su_OK merged = 0 then 0 else TotalMicros (wq_Cost q))"

definition workload_debit :: "string \<Rightarrow> Outcome WorkloadQuote \<Rightarrow> int \<Rightarrow> movement" where
  "workload_debit keyOwner q charge = \<lparr>mv_key = keyOwner, mv_delta = wrap64 (- charge), mv_reason = ''workload'',
     mv_ref = [], mv_job = wq_ID q\<rparr>"

definition run_stats :: "Outcome WorkloadQuote \<Rightarrow> Summary \<Rightarrow> int \<Rightarrow> RunStats" where
  "run_stats q merged charge = \<lparr>rs_WorkloadID = wq_ID q, rs_Model = wq_Model q,
     rs_Items = int (length (sp_Items (wq_Spec q))), rs_OK = su_OK merged, rs_Failed = su_Failed merged,
     rs_Fanout = int (Fanout merged), rs_Concurrency = su_Concurrency merged, rs_WallMS = su_WallMS merged,
     rs_PromptTokens = su_PromptTokens merged, rs_CompletionTokens = su_CompletionTokens merged,
     rs_QuotedUSD = f64_of_int (TotalMicros (wq_Cost q)) / Fin 1000000,
     rs_ChargedUSD = f64_of_int charge / Fin 1000000\<rparr>"

text \<open>Metering and the one settlement of a run whose chunks are done.\<close>

definition settle_run :: "server_env \<Rightarrow> string \<Rightarrow> Outcome WorkloadQuote \<Rightarrow> Summary \<Rightarrow> PG \<Rightarrow> PG" where
  "settle_run e keyOwner q merged p =
    (let p = record_items e keyOwner (wq_Model q) (spotPriceMult (sv_cfg e) (Spot (wq_Spec q))) (su_Items merged) p;
         charge = run_charge q merged
     in if charge > 0 then keep (pg_AddCredit (workload_debit keyOwner q charge) p) p else p)"

definition executeWorkload :: "run_env \<Rightarrow> int \<Rightarrow> (nat \<Rightarrow> Options \<Rightarrow> Item list \<Rightarrow> sched_error + Summary) \<Rightarrow>
    (nat \<Rightarrow> progress \<Rightarrow> 'c \<times> PG \<Rightarrow> 'c \<times> PG) \<Rightarrow> Outcome WorkloadQuote \<Rightarrow> string \<Rightarrow> 'c \<times> PG \<Rightarrow> RunReview list \<Rightarrow>
    (sched_error + runOutcome) \<times> ('c \<times> PG) \<times> RunReview list" where
  "executeWorkload v now run onp q keyOwner cp reviews =
    (let e = mk_srv (rn_mkt v); opt = run_options e (snd cp) q in
     case run_chunks (\<lambda>k. run k opt) onp 0 empty_summary 0 (chunkItems (sp_Items (wq_Spec q)) batch_MaxItems) cp of
       (Inl err, cp) \<Rightarrow> (Inl err, cp, reviews)
     | (Inr (merged, wall), c, p) \<Rightarrow>
        (let merged = merged\<lparr>su_WallMS := wall\<rparr>;
             charge = run_charge q merged;
             p = settle_run e keyOwner q merged p;
             (review, reviews) = ReviewRun (mk_hash (rn_mkt v)) (rn_fmt4 v) now (run_stats q merged charge) reviews
         in (Inr \<lparr>ro_summary = merged, ro_charged = charge, ro_review = review\<rparr>, (c, p), reviews)))"

subsection \<open>Webhook addresses\<close>

text \<open>The check at submission; \<open>parse\<close> is url.Parse, its scheme and host name.\<close>

definition validateWebhookURL :: "(string \<Rightarrow> (string \<times> string) option) \<Rightarrow> string \<Rightarrow> bool \<Rightarrow> bool" where
  "validateWebhookURL parse raw allowInsecure = (case parse raw of None \<Rightarrow> False
   | Some (scheme, host) \<Rightarrow>
      (scheme = ''https'' \<or> (scheme = ''http'' \<and> allowInsecure)) \<and> host \<noteq> [] \<and>
      (allowInsecure \<or> (case ParseIP host of None \<Rightarrow> True | Some a \<Rightarrow> isPublicIP a)))"

text \<open>The dialer of the webhook client: the address it connects to, or a refusal. The transport
  hands it the host of the URL with the port, not a resolved address.\<close>

definition safe_dial :: "bool \<Rightarrow> string \<Rightarrow> string option" where
  "safe_dial allowInsecure addr =
    (if allowInsecure then Some addr
     else case SplitHostPort addr of None \<Rightarrow> None
       | Some host \<Rightarrow> (case ParseIP host of None \<Rightarrow> None
         | Some a \<Rightarrow> if isPublicIP a then Some addr else None))"

subsection \<open>The completion webhook\<close>

definition webhook_body :: "hash_env \<Rightarrow> (f64 \<Rightarrow> json) \<Rightarrow> Config \<Rightarrow> int \<Rightarrow> WorkloadRun \<Rightarrow> string" where
  "webhook_body h jfloat cfg unix r = compact_json (he_num h) (JObj [
     (''type'', JStr (''workload_run.'' @ wr_Status r)), (''run_id'', JStr (wr_ID r)),
     (''workload_id'', JStr (wr_WorkloadID r)), (''label'', JStr (wr_Label r)), (''status'', JStr (wr_Status r)),
     (''model'', JStr (wr_Model r)),
     (''items'', JObj [(''total'', jint_val (wr_TotalItems r)), (''ok'', jint_val (wr_OKItems r)),
       (''failed'', jint_val (wr_FailedItems r))]),
     (''charged_usd'', jfloat (round2usd (wr_ChargedMicros r))), (''error'', JStr (wr_Error r)),
     (''results_url'', JStr (trim_slashes (cf_AuthCallbackBase cfg) @ ''/v1/runs/'' @ wr_ID r @ ''/results'')),
     (''created'', jint_val unix)])"

definition webhook_signature :: "(string \<Rightarrow> string \<Rightarrow> string) \<Rightarrow> string \<Rightarrow> int \<Rightarrow> string \<Rightarrow> string" where
  "webhook_signature hmac secret unix body =
    ''t='' @ int_str unix @ '',v1='' @ hex_encode (hmac secret (int_str unix @ ''.'' @ body))"

definition deliverRunWebhook :: "run_env \<Rightarrow> int \<Rightarrow> WorkloadRun \<Rightarrow> runRegistry \<Rightarrow> bool" where
  "deliverRunWebhook v unix r g =
    (let body = webhook_body (mk_hash (rn_mkt v)) (mk_jfloat (rn_mkt v)) (sv_cfg (mk_srv (rn_mkt v))) unix r in
     case rn_post v (wr_WebhookURL r) body (webhook_signature (rn_hmac v) (secret_of (wr_ID r) g) unix body) of
       None \<Rightarrow> False | Some status \<Rightarrow> status < 300)"

subsection \<open>Asynchronous runs\<close>

record run_server =
  rv_store :: PG
  rv_runs :: runRegistry
  rv_quotes :: "Outcome QuoteStore"
  rv_reviews :: "RunReview list"

definition saveRun :: "int \<Rightarrow> WorkloadRun \<Rightarrow> PG \<Rightarrow> PG" where
  "saveRun now r p = keep (pg_UpsertRun now r p) p"

definition queued_run :: "int \<Rightarrow> string \<Rightarrow> Outcome WorkloadQuote \<Rightarrow> string \<Rightarrow> string \<Rightarrow> string \<Rightarrow> WorkloadRun" where
  "queued_run now b9 q keyOwner url label = \<lparr>wr_ID = newRunID b9, wr_KeyID = keyOwner, wr_WorkloadID = wq_ID q,
     wr_Model = wq_Model q, wr_Status = ''queued'', wr_TotalItems = int (length (sp_Items (wq_Spec q))), wr_DoneItems = 0,
     wr_OKItems = 0, wr_FailedItems = 0, wr_QuotedMicros = TotalMicros (wq_Cost q), wr_ChargedMicros = 0,
     wr_PromptTokens = 0, wr_CompletionTokens = 0, wr_WallMS = 0, wr_Fanout = 0, wr_WebhookURL = url,
     wr_WebhookState = (if url \<noteq> [] then ''pending'' else []), wr_Label = label, wr_Error = [], wr_CreatedAt = now,
     wr_StartedAt = None, wr_FinishedAt = None\<rparr>"

text \<open>The run to execute in the background, its one-time secret, and the state left behind.\<close>

definition startAsyncRun :: "int \<Rightarrow> string \<Rightarrow> string \<Rightarrow> Outcome WorkloadQuote \<Rightarrow> string \<Rightarrow> string \<Rightarrow> string \<Rightarrow> run_server \<Rightarrow>
    WorkloadRun \<times> string \<times> run_server" where
  "startAsyncRun now b9 b24 q keyOwner url label s =
    (let r = queued_run now b9 q keyOwner url label;
         secret = (if url \<noteq> [] then newWebhookSecret b24 else []);
         g = (if url \<noteq> [] then setSecret (wr_ID r) secret (rv_runs s) else rv_runs s)
     in (r, secret, s\<lparr>rv_store := saveRun now r (rv_store s), rv_runs := addInflight keyOwner 1 g\<rparr>))"

text \<open>End state, results in memory, webhook, last save.\<close>

definition finishRun :: "run_env \<Rightarrow> int \<Rightarrow> WorkloadRun \<Rightarrow> runOutcome option \<Rightarrow> run_server \<Rightarrow> run_server" where
  "finishRun v fin r out s =
    (let r = r\<lparr>wr_FinishedAt := Some fin\<rparr>;
         g = (case out of None \<Rightarrow> rv_runs s
           | Some x \<Rightarrow> put_run fin (wr_ID r) \<lparr>rt_summary = ro_summary x, rt_review = ro_review x, rt_quoted = wr_QuotedMicros r,
               rt_charged = ro_charged x, rt_expiresAt = fin + runResultsTTL (sv_cfg (mk_srv (rn_mkt v)))\<rparr> (rv_runs s));
         r = (if wr_WebhookURL r \<noteq> [] then r\<lparr>wr_WebhookState :=
             (if deliverRunWebhook v (fin div 1000000000) r g then ''delivered'' else ''failed'')\<rparr> else r)
     in s\<lparr>rv_store := saveRun fin r (rv_store s), rv_runs := g\<rparr>)"

text \<open>The row follows the progress; it is written when two seconds have passed since the last
  write. \<open>clk k\<close> are the two readings at the \<open>k\<close>-th report.\<close>

definition run_progress :: "(nat \<Rightarrow> int \<times> int) \<Rightarrow> nat \<Rightarrow> progress \<Rightarrow> (WorkloadRun \<times> int option) \<times> PG \<Rightarrow>
    (WorkloadRun \<times> int option) \<times> PG" where
  "run_progress clk k pr st = (case (pr, st) of ((done1, ok, failed), (r, lastSave), p) \<Rightarrow>
     (let r = r\<lparr>wr_DoneItems := done1, wr_OKItems := ok, wr_FailedItems := failed\<rparr> in
      if (case lastSave of None \<Rightarrow> True | Some t \<Rightarrow> fst (clk k) - t > 2 * 1000000000)
      then ((r, Some (snd (clk k))), saveRun (snd (clk k)) r p) else ((r, lastSave), p)))"

fun sched_text :: "sched_error \<Rightarrow> string" where
  "sched_text ErrNoProvider = ''no provider available for model''"
| "sched_text ErrTierUnmet = ''no provider meets the requested trust tier''"
| "sched_text ErrCapsUnmet = ''no provider meets the model's resource requirements''"

definition relayErrMessage :: "string \<Rightarrow> string" where
  "relayErrMessage msg = (if length msg > 300 then take 300 msg else msg)"

definition succeeded_run :: "runOutcome \<Rightarrow> WorkloadRun \<Rightarrow> WorkloadRun" where
  "succeeded_run x r = r\<lparr>wr_Status := ''succeeded'', wr_DoneItems := int (length (su_Items (ro_summary x))),
     wr_OKItems := su_OK (ro_summary x), wr_FailedItems := su_Failed (ro_summary x),
     wr_PromptTokens := su_PromptTokens (ro_summary x), wr_CompletionTokens := su_CompletionTokens (ro_summary x),
     wr_WallMS := su_WallMS (ro_summary x), wr_Fanout := int (Fanout (ro_summary x)), wr_ChargedMicros := ro_charged x\<rparr>"

definition executeAsyncRun :: "run_env \<Rightarrow> int \<Rightarrow> (nat \<Rightarrow> int \<times> int) \<Rightarrow> int \<Rightarrow>
    (nat \<Rightarrow> Options \<Rightarrow> Item list \<Rightarrow> sched_error + Summary) \<Rightarrow> WorkloadRun \<Rightarrow> Outcome WorkloadQuote \<Rightarrow> run_server \<Rightarrow> run_server" where
  "executeAsyncRun v started clk fin run r q s =
    (let r = r\<lparr>wr_Status := ''running'', wr_StartedAt := Some started\<rparr>;
         p = saveRun started r (rv_store s);
         s = (case executeWorkload v fin run (run_progress clk) q (wr_KeyID r) ((r, None), p) (rv_reviews s) of
           (out, ((r, _), p), reviews) \<Rightarrow>
             (let s = s\<lparr>rv_store := p, rv_reviews := reviews\<rparr> in
              case out of
                Inl err \<Rightarrow> finishRun v fin (r\<lparr>wr_Status := ''failed'', wr_Error := relayErrMessage (sched_text err)\<rparr>) None s
              | Inr x \<Rightarrow> finishRun v fin (succeeded_run x r) (Some x) s))
     in s\<lparr>rv_runs := addInflight (wr_KeyID r) (- 1) (rv_runs s)\<rparr>)"

subsection \<open>Reading runs\<close>

text \<open>The view of a run: its row, the amounts in dollars, usage once it is finished, and for a
  succeeded one whether the results are still there (with their expiry).\<close>

record run_view =
  vw_run :: WorkloadRun
  vw_QuotedUSD :: f64
  vw_ChargedUSD :: f64
  vw_Usage :: "(int \<times> int \<times> int) option"
  vw_Results :: "int option option"

definition renderRun :: "int \<Rightarrow> WorkloadRun \<Rightarrow> runRegistry \<Rightarrow> runRegistry \<times> run_view" where
  "renderRun now r g =
    (let usage = (case wr_FinishedAt r of None \<Rightarrow> None
         | Some _ \<Rightarrow> Some (wr_PromptTokens r, wr_CompletionTokens r, wrap64 (wr_PromptTokens r + wr_CompletionTokens r)));
         (g, results) = (if wr_Status r = ''succeeded'' then (case get_run now (wr_ID r) g of
           (g, res) \<Rightarrow> (g, Some (map_option rt_expiresAt res))) else (g, None))
     in (g, \<lparr>vw_run = r, vw_QuotedUSD = round2usd (wr_QuotedMicros r), vw_ChargedUSD = round2usd (wr_ChargedMicros r),
       vw_Usage = usage, vw_Results = results\<rparr>))"

fun render_runs :: "int \<Rightarrow> WorkloadRun list \<Rightarrow> runRegistry \<Rightarrow> runRegistry \<times> run_view list" where
  "render_runs now [] g = (g, [])"
| "render_runs now (r # rs) g = (case renderRun now r g of (g, vw) \<Rightarrow>
     (case render_runs now rs g of (g, vs) \<Rightarrow> (g, vw # vs)))"

text \<open>A limit that is not a number counts as none, one out of range as too big.\<close>

definition handleListRuns :: "int \<Rightarrow> string list \<Rightarrow> string \<Rightarrow> string \<Rightarrow> PG \<Rightarrow> runRegistry \<Rightarrow> runRegistry \<times> run_view list resp" where
  "handleListRuns now order keyOwner limit p g =
    (let n = (case Atoi limit of None \<Rightarrow> 0 | Some n \<Rightarrow> n) in
     case render_runs now (pg_ListRuns order keyOwner n p) g of (g, vs) \<Rightarrow> (g, Reply 200 vs))"

text \<open>The same answer for a run that does not exist and for one of another key.\<close>

definition lookupRun :: "string \<Rightarrow> string \<Rightarrow> PG \<Rightarrow> WorkloadRun option" where
  "lookupRun i keyOwner p = (case pg_GetRun i p of None \<Rightarrow> None
     | Some r \<Rightarrow> if wr_KeyID r \<noteq> keyOwner then None else Some r)"

definition handleGetRun :: "int \<Rightarrow> string \<Rightarrow> string \<Rightarrow> PG \<Rightarrow> runRegistry \<Rightarrow> runRegistry \<times> run_view resp" where
  "handleGetRun now i keyOwner p g = (case lookupRun i keyOwner p of
     None \<Rightarrow> (g, Reject 404 ''not_found'')
   | Some r \<Rightarrow> (case renderRun now r g of (g, vw) \<Rightarrow> (g, Reply 200 vw)))"

definition handleGetRunResults :: "int \<Rightarrow> string \<Rightarrow> string \<Rightarrow> PG \<Rightarrow> runRegistry \<Rightarrow>
    runRegistry \<times> (WorkloadRun \<times> runResults) resp" where
  "handleGetRunResults now i keyOwner p g = (case lookupRun i keyOwner p of
     None \<Rightarrow> (g, Reject 404 ''not_found'')
   | Some r \<Rightarrow>
      if wr_Status r = ''queued'' \<or> wr_Status r = ''running'' then (g, Reject 409 ''not_finished'')
      else if wr_Status r = ''failed'' then (g, Reject 409 ''run_failed'')
      else (case get_run now (wr_ID r) g of
        (g, None) \<Rightarrow> (g, Reject 410 ''results_expired'')
      | (g, Some res) \<Rightarrow> (g, Reply 200 (r, res))))"

subsection \<open>Accepting a quote\<close>

record acceptRequest =
  ar_Async :: bool
  ar_WebhookURL :: string
  ar_Label :: string

datatype accept_body = Queued run_view string | Ran runOutcome

text \<open>The readings of one request: the clock at the two quote look-ups, at the stamp and at the
  start of the run, and the random bytes.\<close>

record accept_clock =
  ak_get :: int
  ak_mark :: int
  ak_stamp :: int
  ak_run :: int
  ak_id :: string
  ak_secret :: string

text \<open>The checks in front of the acceptance, in the order of the code; the quote when all pass.\<close>

definition accept_checks :: "run_env \<Rightarrow> int \<Rightarrow> string \<Rightarrow> string \<Rightarrow> acceptRequest \<Rightarrow> run_server \<Rightarrow>
    (int \<times> string) + Outcome WorkloadQuote" where
  "accept_checks v now i keyOwner opts s =
    (let cfg = sv_cfg (mk_srv (rn_mkt v)) in
     case own_quote now i keyOwner (rv_quotes s) of
       None \<Rightarrow> Inl (404, ''not_found'')
     | Some q \<Rightarrow>
        if Accepted q then Inl (409, ''already_accepted'')
        else if \<not> Runnable (wq_Spec q) then Inl (400, ''estimate_only'')
        else if wq_Council q \<noteq> None \<and> \<not> Acceptable (wq_Council q) then Inl (409, ''council_blocked'')
        else if cf_BillingEnforce cfg \<and> pg_CreditBalance (rv_store s) keyOwner < TotalMicros (wq_Cost q)
          then Inl (402, ''insufficient_credit'')
        else if ar_WebhookURL opts \<noteq> [] \<and>
            \<not> validateWebhookURL (rn_url v) (ar_WebhookURL opts) (cf_AllowInsecureWebhooks cfg) then Inl (400, ''bad_webhook'')
        else if ar_Async opts \<and> inflightFor keyOwner (rv_runs s) \<ge> maxAsyncRunsPerKey cfg then Inl (429, ''too_many_runs'')
        else Inr q)"

text \<open>The answer, the state, and the run to execute in the background if there is one. \<open>opts\<close> is
  what the decoder has filled in; its error is ignored, so for an empty body it is the zero value.\<close>

definition handleAcceptWorkload :: "run_env \<Rightarrow> accept_clock \<Rightarrow> (nat \<Rightarrow> Options \<Rightarrow> Item list \<Rightarrow> sched_error + Summary) \<Rightarrow>
    string \<Rightarrow> string \<Rightarrow> acceptRequest \<Rightarrow> run_server \<Rightarrow>
    accept_body resp option \<times> run_server \<times> (WorkloadRun \<times> Outcome WorkloadQuote) option" where
  "handleAcceptWorkload v ak run i keyOwner opts s =
    (case accept_checks v (ak_get ak) i keyOwner opts s of
       Inl (st, code) \<Rightarrow> (Some (Reject st code), s, None)
     | Inr q \<Rightarrow> (case MarkAccepted (ak_mark ak) (ak_stamp ak) i (rv_quotes s) of
         (qs, None) \<Rightarrow> (Some (Reject 409 ''already_accepted''), s\<lparr>rv_quotes := qs\<rparr>, None)
       | (qs, Some q') \<Rightarrow>
          (let s = s\<lparr>rv_quotes := qs\<rparr> in
           if ar_Async opts then
             (case startAsyncRun (ak_run ak) (ak_id ak) (ak_secret ak) q' keyOwner (ar_WebhookURL opts) (clip (ar_Label opts) 120) s of
               (r, secret, s) \<Rightarrow> (case renderRun (ak_run ak) r (rv_runs s) of
                 (g, vw) \<Rightarrow> (Some (Reply 202 (Queued vw secret)), s\<lparr>rv_runs := g\<rparr>, Some (r, q'))))
           else (case executeWorkload v (ak_run ak) run (\<lambda>_ _ cp. cp) q' keyOwner ((), rv_store s) (rv_reviews s) of
               (Inl err, (_, p), reviews) \<Rightarrow> (mapRelayErr (Sched err), s\<lparr>rv_store := p, rv_reviews := reviews\<rparr>, None)
             | (Inr x, (_, p), reviews) \<Rightarrow>
                (Some (Reply 200 (Ran x)), s\<lparr>rv_store := p, rv_reviews := reviews\<rparr>, None)))))"

end
