(* ===== verification/Runs_Props.thy ===== *)
theory Runs_Props
  imports Runs
begin

text \<open>
  What the run component guarantees: every item of a workload is answered at its place, the
  customer pays the quote once and the devices get their shares, the registry counts the runs in
  flight, a finished run is settled in the store, runs are visible to their key only, a quote is
  run once, and the webhook client connects to public addresses only.
\<close>

subsection \<open>The chunks of a run\<close>

text \<open>What a summary says about a list of items: one result per item, in order, each counted.\<close>

definition chunk_ok :: "Item list \<Rightarrow> Summary \<Rightarrow> bool" where
  "chunk_ok c s \<longleftrightarrow> map ir_Index (su_Items s) = [0..<length c] \<and> su_OK s = int (length (ok_results (su_Items s))) \<and>
     su_OK s + su_Failed s = int (length c) \<and> finite (dom (su_Providers s)) \<and> card (dom (su_Providers s)) \<le> length c"

text \<open>The runner answers with the summary of a finished run of the batch step relation, for some
  interleaving of its workers and some answers of the providers.\<close>

definition batch_answers :: "(nat \<Rightarrow> Options \<Rightarrow> Item list \<Rightarrow> sched_error + Summary) \<Rightarrow> bool" where
  "batch_answers run \<longleftrightarrow> (\<forall>k opt c s. run k opt c = Inr s \<longrightarrow> (\<exists>idf cands workers n st w t.
     bruns idf cands workers (length c) n st \<and> cands \<noteq> [] \<and> run_done st \<and> s = summarize (map the (results st)) w t))"

lemma index_map_upt: "(\<And>i. i < length rs \<Longrightarrow> ir_Index (rs ! i) = i) \<Longrightarrow> map ir_Index rs = [0..<length rs]"
  by (intro nth_equalityI) auto

lemma batch_chunk_ok:
  assumes "batch_answers run" "run k opt c = Inr s"
  shows "chunk_ok c s"
proof -
  from assms obtain idf cands workers n st w t where b: "bruns idf cands workers (length c) n st" "cands \<noteq> []" "run_done st"
    and s: "s = summarize (map the (results st)) w t" unfolding batch_answers_def by blast
  let ?rs = "map the (results st)"
  note inv = bruns_inv [OF b(1,2)]
  have len: "length ?rs = length c" using inv by (simp add: binv_def)
  have "ir_Index (?rs ! i) = i" if "i < length ?rs" for i
    using inv b(3) that len unfolding binv_def run_done_def by fastforce
  then have "map ir_Index ?rs = [0..<length c]" using index_map_upt [of ?rs] len by simp
  moreover have "length (ok_results ?rs) + length (filter (\<lambda>r. ir_ErrCode r \<noteq> []) ?rs) = length c"
    unfolding ok_results_def using sum_length_filter_compl [of "\<lambda>r. ir_ErrCode r = []" ?rs] len by simp
  moreover have "card (ir_ProviderID ` set ?rs - {[]}) \<le> length c"
    using card_image_le [of "set ?rs" ir_ProviderID] card_length [of ?rs] len
      card_mono [of "ir_ProviderID ` set ?rs" "ir_ProviderID ` set ?rs - {[]}"] by fastforce
  ultimately show ?thesis
    by (simp add: chunk_ok_def s summarize_def fold_count flip: of_nat_add)
qed

lemma mergeSummary_fields [simp]:
  "su_Items (mergeSummary m s k) = su_Items m @ map (\<lambda>it. it\<lparr>ir_Index := ir_Index it + k\<rparr>) (su_Items s)"
  "su_OK (mergeSummary m s k) = su_OK m + su_OK s" "su_Failed (mergeSummary m s k) = su_Failed m + su_Failed s"
  "su_Providers (mergeSummary m s k) = add_counts (su_Providers m) (su_Providers s)"
  by (simp_all add: mergeSummary_def)

lemma dom_add_counts [simp]: "dom (add_counts a b) = dom a \<union> dom b"
  by (auto simp: add_counts_def split: option.splits)

lemma merge_ok:
  assumes "chunk_ok a m" "chunk_ok c s"
  shows "chunk_ok (a @ c) (mergeSummary m s (length (su_Items m)))"
proof -
  have idx: "ok_results (map (\<lambda>it. it\<lparr>ir_Index := ir_Index it + n\<rparr>) xs) = map (\<lambda>it. it\<lparr>ir_Index := ir_Index it + n\<rparr>) (ok_results xs)" for n xs
    by (simp add: ok_results_def filter_map comp_def)
  then have cnt: "length (ok_results (su_Items m @ map (\<lambda>it. it\<lparr>ir_Index := ir_Index it + n\<rparr>) xs)) =
      length (ok_results (su_Items m)) + length (ok_results xs)" for n xs
    using idx by (simp add: ok_results_def)
  have len: "length (su_Items m) = length a" using assms(1) by (metis chunk_ok_def length_map length_upt diff_zero)
  have "map ir_Index (map (\<lambda>it. it\<lparr>ir_Index := ir_Index it + n\<rparr>) xs) = map (\<lambda>i. i + n) (map ir_Index xs)" for n and xs :: "ItemResult list"
    by simp
  then have "map ir_Index (su_Items (mergeSummary m s (length (su_Items m)))) = [0..<length (a @ c)]"
    using assms by (simp add: chunk_ok_def len map_add_upt upt_add_eq_append [of 0 "length a" "length c", simplified] del: map_map)
      (simp add: add.commute)
  moreover have "card (dom (su_Providers m) \<union> dom (su_Providers s)) \<le> length a + length c"
    using assms card_Un_le [of "dom (su_Providers m)" "dom (su_Providers s)"] by (auto simp: chunk_ok_def)
  ultimately show ?thesis using assms by (simp add: chunk_ok_def cnt)
qed

lemma run_chunks_ok:
  assumes "run_chunks run onp k merged wall cs s = (Inr (m, w), s')" "chunk_ok a merged"
    "\<And>k c sm. c \<in> set cs \<Longrightarrow> run k c = Inr sm \<Longrightarrow> chunk_ok c sm"
  shows "chunk_ok (a @ concat cs) m"
  using assms
proof (induction run onp k merged wall cs s arbitrary: a rule: run_chunks.induct)
  case (2 run onp k merged wall c cs s)
  then obtain sm where sm: "run k c = Inr sm" by (cases "run k c") auto
  with 2(2,3) 2(4) [of c] have "chunk_ok (a @ c) (mergeSummary merged sm (length (su_Items merged)))"
    by (intro merge_ok) auto
  from 2(1) [OF sm refl refl refl _ this] 2(2,4) sm show ?case by (simp add: Let_def)
qed simp

lemma chunk_ok_empty: "chunk_ok [] empty_summary"
  by (simp add: chunk_ok_def empty_summary_def ok_results_def)

text \<open>What \<open>executeWorkload\<close> does, in its two outcomes.\<close>

lemma executeWorkload_cases:
  assumes "executeWorkload v now run onp q key cp reviews = (out, cp', reviews')"
  obtains (err) err where "out = Inl err" "reviews' = reviews"
      "run_chunks (\<lambda>k. run k (run_options (mk_srv (rn_mkt v)) (snd cp) q)) onp 0 empty_summary 0
        (chunkItems (sp_Items (wq_Spec q)) batch_MaxItems) cp = (Inl err, cp')"
  | (ok) m w c p review where "out = Inr \<lparr>ro_summary = m\<lparr>su_WallMS := w\<rparr>, ro_charged = run_charge q m, ro_review = review\<rparr>"
      "cp' = (c, settle_run (mk_srv (rn_mkt v)) key q m p)"
      "run_chunks (\<lambda>k. run k (run_options (mk_srv (rn_mkt v)) (snd cp) q)) onp 0 empty_summary 0
        (chunkItems (sp_Items (wq_Spec q)) batch_MaxItems) cp = (Inr (m, w), (c, p))"
proof -
  have w: "run_charge q (m\<lparr>su_WallMS := w\<rparr>) = run_charge q m" "settle_run e key q (m\<lparr>su_WallMS := w\<rparr>) p = settle_run e key q m p" for m w e p
    by (simp_all add: run_charge_def settle_run_def)
  show ?thesis using assms that unfolding executeWorkload_def Let_def
    by (auto simp: w split: prod.splits sum.splits)
qed

lemma run_chunks_id:
  assumes "run_chunks run onp k m w cs s = (r, s')" "\<And>k pr s. onp k pr s = s"
  shows "s' = s"
  using assms by (induction run onp k m w cs s rule: run_chunks.induct) (auto simp: Let_def split: sum.splits)

lemma executeWorkload_ok:
  assumes "executeWorkload v now run onp q key cp reviews = (Inr x, cp', reviews')" "batch_answers run"
  shows "chunk_ok (sp_Items (wq_Spec q)) (ro_summary x)" "ro_charged x = run_charge q (ro_summary x)"
proof -
  from assms(1) have "chunk_ok (sp_Items (wq_Spec q)) (ro_summary x) \<and> ro_charged x = run_charge q (ro_summary x)"
  proof (cases rule: executeWorkload_cases)
    case (ok m w c p review)
    from run_chunks_ok [OF ok(3) chunk_ok_empty] batch_chunk_ok [OF assms(2)]
    have "chunk_ok ([] @ concat (chunkItems (sp_Items (wq_Spec q)) batch_MaxItems)) m" by blast
    then show ?thesis using ok(1) by (simp add: chunk_ok_def chunkItems_concat batch_MaxItems_def run_charge_def)
  qed simp
  then show "chunk_ok (sp_Items (wq_Spec q)) (ro_summary x)" "ro_charged x = run_charge q (ro_summary x)" by auto
qed

subsection \<open>What a run costs and earns\<close>

lemma recordJob_settled_other:
  assumes "(j, d) \<noteq> (rs_JobID r, rs_ProviderPK r)"
  shows "pg_settled (snd (recordJob e key model r pm p)) j d = pg_settled p j d"
proof -
  have "provider_earnings (keep (pg_RecordUsage u now ev p) p) = provider_earnings p" for u now ev
    by (rule keep_usage(2))
  then show ?thesis using assms
    by (auto simp: recordJob_def Let_def keep_def pg_RecordEarning_def pg_settled_def earning_event_def split: sum.splits)
qed

definition job_key :: "ItemResult \<Rightarrow> string \<times> string" where
  "job_key it = (ir_JobID it, ir_ProviderPK it)"

definition share_of :: "server_env \<Rightarrow> string \<Rightarrow> f64 \<Rightarrow> string \<Rightarrow> ItemResult \<Rightarrow> int" where
  "share_of e model pm d it = (if ir_ProviderPK it = d then ProviderMicros (job_quote e model (item_relay_result it) pm) else 0)"

text \<open>Results the relay can return, of jobs that were not paid before.\<close>

definition fresh_results :: "server_env \<Rightarrow> PG \<Rightarrow> ItemResult list \<Rightarrow> bool" where
  "fresh_results e p its \<longleftrightarrow> (\<forall>it \<in> set (ok_results its). billable e (item_relay_result it) \<and> \<not> pg_settled p (ir_JobID it) (ir_ProviderPK it)) \<and>
     distinct (map job_key (ok_results its))"

lemma record_items_effect:
  assumes "price_ok pm" "fresh_results e p its"
  shows "pg_CreditBalance (record_items e key model pm its p) k = pg_CreditBalance p k \<and>
    owed (record_items e key model pm its p) d = owed p d + (\<Sum>it\<leftarrow>ok_results its. share_of e model pm d it)"
  using assms(2)
proof (induction its arbitrary: p)
  case (Cons it its)
  let ?r = "item_relay_result it"
  show ?case
  proof (cases "ir_ErrCode it = []")
    case False
    then have "ok_results (it # its) = ok_results its" by (simp add: ok_results_def)
    with False Cons show ?thesis by (simp add: record_items_def fresh_results_def)
  next
    case True
    then have ok: "ok_results (it # its) = it # ok_results its" by (simp add: ok_results_def)
    let ?p = "snd (recordJob e key model ?r pm p)"
    have b: "billable e ?r" "\<not> pg_settled p (ir_JobID it) (ir_ProviderPK it)"
      using Cons.prems by (simp_all add: fresh_results_def ok)
    have r: "rs_JobID ?r = ir_JobID it" "rs_ProviderPK ?r = ir_ProviderPK it" by (simp_all add: item_relay_result_def)
    have "pg_settled ?p (ir_JobID x) (ir_ProviderPK x) = pg_settled p (ir_JobID x) (ir_ProviderPK x)" if "x \<in> set (ok_results its)" for x
    proof (rule recordJob_settled_other)
      have "job_key it \<notin> job_key ` set (ok_results its)" using Cons.prems by (simp add: fresh_results_def ok)
      then have "job_key x \<noteq> job_key it" using that by (metis image_eqI)
      then show "(ir_JobID x, ir_ProviderPK x) \<noteq> (rs_JobID ?r, rs_ProviderPK ?r)" by (simp add: job_key_def r)
    qed
    then have "fresh_results e ?p its" using Cons.prems by (auto simp: fresh_results_def ok)
    from Cons.IH [OF this] recordJob_effect [OF b(1) assms(1), where key = key and model = model and p = p] b(2) True
    show ?thesis by (auto simp: record_items_def ok r share_of_def)
  qed
qed (simp add: record_items_def ok_results_def)

lemma settle_run_effect:
  assumes "price_ok (spotPriceMult (sv_cfg e) (Spot (wq_Spec q)))" "fresh_results e p (su_Items m)"
    and "0 \<le> TotalMicros (wq_Cost q)" "is_int64 (TotalMicros (wq_Cost q))" "is_int64 (pg_CreditBalance p key - TotalMicros (wq_Cost q))"
  shows "pg_CreditBalance (settle_run e key q m p) k = pg_CreditBalance p k - (if k = key then run_charge q m else 0) \<and>
    owed (settle_run e key q m p) d = owed p d +
      (\<Sum>it\<leftarrow>ok_results (su_Items m). share_of e (wq_Model q) (spotPriceMult (sv_cfg e) (Spot (wq_Spec q))) d it)"
proof -
  let ?pm = "spotPriceMult (sv_cfg e) (Spot (wq_Spec q))"
  let ?p = "record_items e key (wq_Model q) ?pm (su_Items m) p" and ?v = "workload_debit key q (run_charge q m)"
  note eff = record_items_effect [OF assms(1,2), of key "wq_Model q"]
  have c: "0 \<le> run_charge q m" "is_int64 (- run_charge q m)" "is_int64 (pg_CreditBalance p key - run_charge q m)" if "run_charge q m > 0"
    using assms(3-5) that by (auto simp: run_charge_def is_int64_def split: if_splits)
  have v: "mv_key ?v = key" "idem_key ?v = None" by (simp_all add: workload_debit_def idem_key_def)
  show ?thesis
  proof (cases "run_charge q m > 0")
    case True
    then have d: "mv_delta ?v = - run_charge q m" using c by (simp add: workload_debit_def)
    have "is_int64 (mv_delta ?v)" "is_int64 (pg_CreditBalance ?p (mv_key ?v) + mv_delta ?v)"
      using c True eff by (simp_all add: d v)
    from keep_credit_balance(1) [OF this, of k] owed_cong [OF keep_credit [of ?v ?p], of d] eff True
    show ?thesis by (simp add: settle_run_def Let_def v d)
  next
    case False
    then have "run_charge q m = 0" using assms(3) by (simp add: run_charge_def split: if_splits)
    with eff show ?thesis by (simp add: settle_run_def Let_def)
  qed
qed

text \<open>C1: what a synchronous run of an accepted quote comes to. Every item of the request has one
  result, at its place, whatever the chunks and the interleaving of the workers; the customer pays
  exactly the quoted price, once, or nothing when no item succeeded; each device is owed its
  provider share of every item it completed; and a run that ends with an error has moved nothing
  at all in the store.\<close>

theorem workload_settled:
  assumes "executeWorkload v now run (\<lambda>_ _ cp. cp) q key (c, p) reviews = (out, (c', p'), reviews')" "batch_answers run"
    and e: "e = mk_srv (rn_mkt v)" "pm = spotPriceMult (sv_cfg e) (Spot (wq_Spec q))" "price_ok pm"
    and price: "0 \<le> TotalMicros (wq_Cost q)" "is_int64 (TotalMicros (wq_Cost q))"
      "is_int64 (pg_CreditBalance p key - TotalMicros (wq_Cost q))"
  shows "case out of
     Inl err \<Rightarrow> p' = p \<and> reviews' = reviews
   | Inr x \<Rightarrow> map ir_Index (su_Items (ro_summary x)) = [0..<length (sp_Items (wq_Spec q))] \<and>
       su_OK (ro_summary x) = int (length (ok_results (su_Items (ro_summary x)))) \<and>
       ro_charged x = (if ok_results (su_Items (ro_summary x)) = [] then 0 else TotalMicros (wq_Cost q)) \<and>
       (fresh_results e p (su_Items (ro_summary x)) \<longrightarrow>
         pg_CreditBalance p' k = pg_CreditBalance p k - (if k = key then ro_charged x else 0) \<and>
         owed p' d = owed p d + (\<Sum>it\<leftarrow>ok_results (su_Items (ro_summary x)). share_of e (wq_Model q) pm d it))"
  using assms(1)
proof (cases rule: executeWorkload_cases)
  case (err error)
  then show ?thesis using run_chunks_id [OF err(3)] by simp
next
  case (ok m w c0 p0 review)
  have p0: "p0 = p" using run_chunks_id [OF ok(3)] by simp
  let ?x = "\<lparr>ro_summary = m\<lparr>su_WallMS := w\<rparr>, ro_charged = run_charge q m, ro_review = review\<rparr>"
  have m: "su_Items (ro_summary ?x) = su_Items m" "ro_charged ?x = run_charge q m" by simp_all
  have res: "executeWorkload v now run (\<lambda>_ _ cp. cp) q key (c, p) reviews = (Inr ?x, (c', p'), reviews')"
    using assms(1) ok(1) by simp
  note ok_m = executeWorkload_ok [OF res assms(2)]
  then have "su_OK m = int (length (ok_results (su_Items m)))" by (simp add: chunk_ok_def)
  then have ch: "run_charge q m = (if ok_results (su_Items m) = [] then 0 else TotalMicros (wq_Cost q))"
    by (simp add: run_charge_def)
  have "fresh_results e p (su_Items m) \<longrightarrow>
         pg_CreditBalance p' k = pg_CreditBalance p k - (if k = key then run_charge q m else 0) \<and>
         owed p' d = owed p d + (\<Sum>it\<leftarrow>ok_results (su_Items m). share_of e (wq_Model q) pm d it)"
    using settle_run_effect [of e q p m key k d] price e ok(2) p0 by auto
  then show ?thesis using ok(1) ok_m ch by (simp add: chunk_ok_def)
qed

text \<open>A workload of one item, answered by one provider.\<close>

definition sample_item :: Item where
  "sample_item = \<lparr>it_Messages = [\<lparr>Role = ''user'', Content = ''hi''\<rparr>], it_Params = \<lparr>MaxTokens = 50, Temperature = None, TopP = None,
     TopK = None, RepeatPenalty = None, Stop = [], Seed = None\<rparr>\<rparr>"

definition sample_quote :: "Outcome WorkloadQuote" where
  "sample_quote = \<lparr>wq_ID = ''wl_1'', wq_KeyID = ''k'', wq_Model = ''m'',
     wq_Spec = \<lparr>sp_Model = ''m'', sp_ModelClass = [], sp_Tier = ''community'', Redundancy = 1, Spot = False,
       sp_Items = [sample_item], EstimateCount = 0, AvgPromptTokens = 0, AvgCompletionTokens = 0\<rparr>,
     wq_Estimate = \<lparr>es_Items = 1, es_PromptTokens = 6, es_CompletionTokens = 50, es_EligibleNodes = 1, es_AggregateTPS = 1, ETASeconds = 1\<rparr>,
     wq_Cost = \<lparr>ComputeMicros = 0, CoordinationMicros = 0, FailureMicros = 0, PaymentMicros = 0, MarginMicros = 0, TotalMicros = 5000\<rparr>,
     wq_Council = None, wq_CreatedAt = 0, wq_ExpiresAt = 100, Accepted = False, AcceptedAt = 0\<rparr>"

definition sample_answer :: ItemResult where
  "sample_answer = item_result 0 ''p'' [''hi''] 5 (Inr sample_result)"

definition sample_batch :: "nat \<Rightarrow> Options \<Rightarrow> Item list \<Rightarrow> sched_error + Summary" where
  "sample_batch k opt c = (if length c = 1 then Inr (summarize [sample_answer] 1 9) else Inl ErrNoProvider)"

definition sample_run_env :: run_env where
  "sample_run_env = \<lparr>rn_mkt = \<lparr>mk_srv = sample_env, mk_hash = \<lparr>he_sha256 = id, he_num = (\<lambda>_. [])\<rparr>, mk_jfloat = (\<lambda>_. JNull), mk_md = [],
     mk_votes = [], mk_reviewers = [], mk_clock = 0, mk_rand = [], mk_quote_order = []\<rparr>, rn_fmt4 = (\<lambda>_. []), rn_hmac = (\<lambda>_ _. []),
     rn_url = (\<lambda>_. None), rn_post = (\<lambda>_ _ _. None)\<rparr>"

lemma summarize_items: "su_Items (summarize rs w t) = rs"
  by (simp add: summarize_def fold_count)

lemma sample_batch_answers: "batch_answers sample_batch"
proof -
  let ?idf = "\<lambda>_::nat. ''p''" and ?i = "run_init 1"
  obtain s1 where s1: "choose_prov ?idf [0] ?i = (s1, 0)" "results s1 = [None]"
    by (auto simp: choose_prov_def Let_def choose_best_def run_init_def)
  let ?s2 = "s1\<lparr>pending := [], running := running ?i @ [(0, 0)]\<rparr>"
  let ?s3 = "(release ?idf 0 ?s2)\<lparr>running := remove1 (0, 0) (running ?s2), results := (results ?s2)[0 := Some sample_answer]\<rparr>"
  have "bstep ?idf [0] 1 ?i ?s2"
    by (rule bstep.Start [OF _ _ s1(1)]) (simp_all add: run_init_def)
  moreover have "bstep ?idf [0] 1 ?s2 ?s3"
    unfolding sample_answer_def by (rule bstep.Finish) (simp add: run_init_def)
  ultimately have "bruns ?idf [0] 1 1 2 ?s3"
    by (metis (no_types, lifting) bruns.Init bruns.Step numeral_2_eq_2 One_nat_def)
  moreover have "run_done ?s3" "map the (results ?s3) = [sample_answer]"
    by (simp_all add: run_done_def release_def run_init_def s1(2))
  ultimately show ?thesis
    unfolding batch_answers_def sample_batch_def by (auto split: if_splits intro!: exI)
qed

lemma workload_settled_witness:
  "\<exists>x p' r'. executeWorkload sample_run_env 0 sample_batch (\<lambda>_ _ cp. cp) sample_quote ''k'' ((), NewPG (\<lambda>x. x) [] []) [] = (Inr x, ((), p'), r') \<and>
     ro_charged x = 5000 \<and> pg_CreditBalance p' ''k'' = - 5000 \<and>
     owed p' ''d'' = ProviderMicros (job_quote sample_env ''m'' sample_result (cf_PriceMultiplier (sv_cfg sample_env)))"
proof -
  let ?p = "NewPG (\<lambda>x. x) [] []"
  have a: "ir_ErrCode sample_answer = []" "item_relay_result sample_answer = sample_result" "ir_Index sample_answer = 0"
    "ir_ProviderPK sample_answer = ''d''"
    by (simp_all add: sample_answer_def item_result_def item_relay_result_def sample_result_def empty_result_def Let_def)
  let ?m = "mergeSummary empty_summary (summarize [sample_answer] 1 9) 0"
  have ch: "chunkItems (sp_Items (wq_Spec sample_quote)) batch_MaxItems = [[sample_item]]"
    by (simp add: chunkItems_def sample_quote_def batch_MaxItems_def)
  have rc: "\<exists>w. run_chunks (\<lambda>k. sample_batch k opt) (\<lambda>_ _ cp. cp) 0 empty_summary 0 [[sample_item]] cp = (Inr (?m, w), cp)" for opt cp
    by (simp add: sample_batch_def Let_def empty_summary_def)
  define opt where "opt = run_options (mk_srv (rn_mkt sample_run_env)) (snd ((), ?p)) sample_quote"
  obtain w where w: "run_chunks (\<lambda>k. sample_batch k opt) (\<lambda>_ _ cp. cp) 0 empty_summary 0 [[sample_item]] ((), ?p) = (Inr (?m, w), ((), ?p))"
    by (rule exE [OF rc [of opt "((), ?p)"]])
  have items: "su_Items ?m = [sample_answer\<lparr>ir_Index := 0\<rparr>]"
    by (simp add: summarize_items a empty_summary_def)
  obtain out p' r' where E: "executeWorkload sample_run_env 0 sample_batch (\<lambda>_ _ cp. cp) sample_quote ''k'' ((), ?p) [] = (out, ((), p'), r')"
    by (cases "executeWorkload sample_run_env 0 sample_batch (\<lambda>_ _ cp. cp) sample_quote ''k'' ((), ?p) []") auto
  then have "\<exists>x. out = Inr x \<and> su_Items (ro_summary x) = [sample_answer\<lparr>ir_Index := 0\<rparr>]"
  proof (cases rule: executeWorkload_cases)
    case (ok m w' c p review)
    from ok(3) have "m = ?m" unfolding ch opt_def [symmetric] w by simp
    with ok(1) items show ?thesis by simp
  next
    case (err error)
    from err(3) show ?thesis unfolding ch opt_def [symmetric] w by simp
  qed
  with E have "\<exists>x p' r'. executeWorkload sample_run_env 0 sample_batch (\<lambda>_ _ cp. cp) sample_quote ''k'' ((), ?p) [] = (Inr x, ((), p'), r') \<and>
      su_Items (ro_summary x) = [sample_answer\<lparr>ir_Index := 0\<rparr>]" by blast
  then obtain x p' r' where ex: "executeWorkload sample_run_env 0 sample_batch (\<lambda>_ _ cp. cp) sample_quote ''k'' ((), ?p) [] = (Inr x, ((), p'), r')"
    and its: "su_Items (ro_summary x) = [sample_answer\<lparr>ir_Index := 0\<rparr>]" by blast
  have ok: "ok_results (su_Items (ro_summary x)) = [sample_answer\<lparr>ir_Index := 0\<rparr>]" by (simp add: its ok_results_def a)
  have "fresh_results sample_env ?p (su_Items (ro_summary x))"
    using sample_billable a by (simp add: fresh_results_def ok new_pg_balance item_relay_result_def)
  moreover have "mk_srv (rn_mkt sample_run_env) = sample_env" by (simp add: sample_run_env_def)
  moreover have "spotPriceMult (sv_cfg sample_env) (Spot (wq_Spec sample_quote)) = cf_PriceMultiplier (sv_cfg sample_env)"
    by (simp add: spotPriceMult_def sample_quote_def)
  ultimately show ?thesis
    using workload_settled [OF ex sample_batch_answers refl refl, of "''k''" "''d''"] sample_price ex a
    by (auto simp: ok share_of_def new_pg_balance sample_quote_def is_int64_def item_relay_result_def)
qed

subsection \<open>The end of an asynchronous run\<close>

lemma run_chunks_inv:
  assumes "run_chunks run onp k merged wall cs s = (out, s')" "chunk_ok a merged" "P s" "length (a @ concat cs) \<le> n"
    and run: "\<And>k c sm. run k c = Inr sm \<Longrightarrow> chunk_ok c sm"
    and step: "\<And>k d ok f s. P s \<Longrightarrow> {d, ok, f} \<subseteq> {0..int n} \<Longrightarrow> P (onp k (d, ok, f) s)"
  shows "P s'"
  using assms(1-4)
proof (induction cs arbitrary: k merged wall a s)
  case (Cons c cs)
  show ?case
  proof (cases "run k c")
    case (Inr sm)
    let ?m = "mergeSummary merged sm (length (su_Items merged))"
    have m: "chunk_ok (a @ c) ?m" using merge_ok [OF Cons.prems(2) run [OF Inr]] .
    have "length (su_Items ?m) = length (a @ c)" using m by (metis chunk_ok_def length_map length_upt diff_zero)
    then have "{int (length (su_Items ?m)), su_OK ?m, su_Failed ?m} \<subseteq> {0..int n}"
      using m Cons.prems(4) length_filter_le [of "\<lambda>r. ir_ErrCode r = []" "su_Items ?m"]
      unfolding chunk_ok_def ok_results_def by auto
    from Cons.IH [OF _ m step [OF Cons.prems(3) this]] Cons.prems(1,4) Inr show ?thesis by (simp add: Let_def)
  qed (use Cons.prems in simp)
qed simp

lemma settle_run_runs: "workload_runs (settle_run e key q m p) = workload_runs p"
proof -
  have rj: "workload_runs (snd (recordJob e key model r pm p)) = workload_runs p" for model r pm p
    by (auto simp: recordJob_def Let_def keep_def pg_RecordUsage_def pg_RecordEarning_def split: sum.splits if_splits)
  have "workload_runs (record_items e key model pm its p) = workload_runs p" for model pm its
    unfolding record_items_def by (induction its arbitrary: p) (auto simp: rj)
  then show ?thesis
    by (auto simp: settle_run_def Let_def keep_def pg_AddCredit_def split: sum.splits if_splits)
qed

text \<open>The texts of a run that its row keeps and no later step changes; the database takes them or not.\<close>

definition run_text :: "WorkloadRun \<Rightarrow> bool" where
  "run_text r \<longleftrightarrow> list_all pg_text [wr_ID r, wr_KeyID r, wr_WorkloadID r, wr_Model r, wr_WebhookURL r, wr_Label r]"

definition row_fits :: "WorkloadRun \<Rightarrow> bool" where
  "row_fits r \<longleftrightarrow> list_all is_int32 [wr_TotalItems r, wr_DoneItems r, wr_OKItems r, wr_FailedItems r, wr_Fanout r] \<and>
     run_text r \<and> list_all pg_text [wr_Status r, wr_WebhookState r, wr_Error r]"

lemma saveRun_refused: "\<not> run_text r \<Longrightarrow> saveRun now r p = p"
  by (auto simp: saveRun_def keep_def pg_UpsertRun_def run_text_def)

lemma pg_text_words [simp]:
  "pg_text []" "pg_text ''queued''" "pg_text ''running''" "pg_text ''succeeded''" "pg_text ''failed''" "pg_text ''delivered''" "pg_text ''pending''"
  "pg_text (relayErrMessage (sched_text err))"
  by (cases err; simp add: pg_text_def relayErrMessage_def)+

text \<open>What the store shows of a run that was just saved.\<close>

definition shows_run :: "WorkloadRun option \<Rightarrow> WorkloadRun \<Rightarrow> bool" where
  "shows_run row r \<longleftrightarrow> (\<exists>x. row = Some x \<and> wr_Status x = wr_Status r \<and> wr_FinishedAt x = wr_FinishedAt r \<and>
     wr_DoneItems x = wr_DoneItems r \<and> wr_OKItems x = wr_OKItems r \<and> wr_FailedItems x = wr_FailedItems r \<and>
     wr_ChargedMicros x = wr_ChargedMicros r \<and> wr_Error x = wr_Error r)"

lemma saveRun_shows: "row_fits r \<Longrightarrow> shows_run (workload_runs (saveRun now r p) (wr_ID r)) r"
  by (auto simp: saveRun_def keep_def pg_UpsertRun_def row_fits_def run_text_def shows_run_def merge_run_def split: option.splits)

lemma finishRun_runs:
  "rg_inflight (rv_runs (finishRun v fin r out s)) = rg_inflight (rv_runs s)"
  "rg_results (rv_runs (finishRun v fin r out s)) (wr_ID r) \<noteq> None \<longleftrightarrow> out \<noteq> None \<or> rg_results (rv_runs s) (wr_ID r) \<noteq> None"
  by (auto simp: finishRun_def Let_def put_run_def gcRuns_def split: option.splits)

lemma finishRun_effect:
  assumes "row_fits r"
  shows "shows_run (workload_runs (rv_store (finishRun v fin r out s)) (wr_ID r)) (r\<lparr>wr_FinishedAt := Some fin\<rparr>)"
proof -
  obtain r' where r': "r' = r\<lparr>wr_FinishedAt := Some fin\<rparr> \<or> (\<exists>w. pg_text w \<and> r' = r\<lparr>wr_FinishedAt := Some fin, wr_WebhookState := w\<rparr>)"
    "rv_store (finishRun v fin r out s) = saveRun fin r' (rv_store s)"
  proof (cases "wr_WebhookURL r = []")
    case True
    then show ?thesis by (intro that [of "r\<lparr>wr_FinishedAt := Some fin\<rparr>"]) (simp_all add: finishRun_def Let_def)
  next
    case False
    define w where "w = (if deliverRunWebhook v (fin div 1000000000) (r\<lparr>wr_FinishedAt := Some fin\<rparr>)
      (rv_runs (finishRun v fin r out s)) then ''delivered'' else ''failed'')"
    have "rv_store (finishRun v fin r out s) = saveRun fin (r\<lparr>wr_FinishedAt := Some fin, wr_WebhookState := w\<rparr>) (rv_store s)"
      by (simp add: finishRun_def Let_def False w_def)
    moreover have "pg_text w" by (simp add: w_def)
    ultimately show ?thesis by (intro that [of "r\<lparr>wr_FinishedAt := Some fin, wr_WebhookState := w\<rparr>"]) blast+
  qed
  have "row_fits r'" "wr_ID r' = wr_ID r" using assms r'(1) by (auto simp: row_fits_def run_text_def)
  from saveRun_shows [OF this(1), of fin "rv_store s"] this(2) r'
  show ?thesis by (auto simp: shows_run_def)
qed

lemma finishRun_refused: "\<not> run_text r \<Longrightarrow> rv_store (finishRun v fin r out s) = rv_store s"
proof -
  assume no: "\<not> run_text r"
  have "\<not> run_text (r\<lparr>wr_FinishedAt := Some fin\<rparr>)" "\<not> run_text (r\<lparr>wr_FinishedAt := Some fin, wr_WebhookState := w\<rparr>)" for w
    using no by (simp_all add: run_text_def)
  then show ?thesis by (simp add: finishRun_def Let_def saveRun_refused)
qed

text \<open>The row while the chunks are done: only the progress has moved.\<close>

definition in_progress :: "nat \<Rightarrow> WorkloadRun \<Rightarrow> WorkloadRun \<Rightarrow> bool" where
  "in_progress n r0 r \<longleftrightarrow> (\<exists>d ok f. {d, ok, f} \<subseteq> {0..int n} \<and> r = r0\<lparr>wr_DoneItems := d, wr_OKItems := ok, wr_FailedItems := f\<rparr>)"

lemma in_progress_text: "in_progress n r0 r \<Longrightarrow> run_text r = run_text r0"
  by (auto simp: in_progress_def run_text_def)

text \<open>The progress kept by one report, for the rows \<open>W\<close> of before.\<close>

definition progress_ok :: "nat \<Rightarrow> WorkloadRun \<Rightarrow> (string \<rightharpoonup> WorkloadRun) \<Rightarrow> (WorkloadRun \<times> int option) \<times> PG \<Rightarrow> bool" where
  "progress_ok n r0 W st \<longleftrightarrow> in_progress n r0 (fst (fst st)) \<and> (\<not> run_text r0 \<longrightarrow> workload_runs (snd st) = W)"

lemma run_progress_in:
  assumes "progress_ok n r0 W st" "{d, ok, f} \<subseteq> {0..int n}"
  shows "progress_ok n r0 W (run_progress clk k (d, ok, f) st)"
proof -
  obtain r ls p where st: "st = ((r, ls), p)" by (metis prod.collapse)
  have ip: "in_progress n r0 (r\<lparr>wr_DoneItems := d, wr_OKItems := ok, wr_FailedItems := f\<rparr>)"
    using assms(1) unfolding in_progress_def st progress_ok_def
    by (elim exE conjE, intro exI [of _ d] exI [of _ ok] exI [of _ f]) (use assms(2) in simp)
  then show ?thesis using assms(1) in_progress_text [OF ip]
    by (auto simp: run_progress_def st Let_def progress_ok_def saveRun_refused)
qed

lemma executeWorkload_progress:
  assumes "executeWorkload v now run (run_progress clk) q key ((r0, None), p) reviews = (out, ((r, ls), p'), reviews')"
    and "batch_answers run" "in_progress (length (sp_Items (wq_Spec q))) r0 r0"
  shows "in_progress (length (sp_Items (wq_Spec q))) r0 r" "\<not> run_text r0 \<Longrightarrow> workload_runs p' = workload_runs p"
proof -
  let ?n = "length (sp_Items (wq_Spec q))"
  have inv: "progress_ok ?n r0 (workload_runs p) st'"
    if "run_chunks (\<lambda>k. run k opt) (run_progress clk) 0 empty_summary 0 (chunkItems (sp_Items (wq_Spec q)) batch_MaxItems)
      ((r0, None), p) = (o', st')" for opt o' st'
  proof (rule run_chunks_inv [OF that chunk_ok_empty, where P = "progress_ok ?n r0 (workload_runs p)" and n = ?n])
    show "progress_ok ?n r0 (workload_runs p) ((r0, None), p)" using assms(3) by (simp add: progress_ok_def)
    show "progress_ok ?n r0 (workload_runs p) (run_progress clk k (d, ok, f) s)"
      if "progress_ok ?n r0 (workload_runs p) s" "{d, ok, f} \<subseteq> {0..int ?n}" for k d ok f s
      using that by (rule run_progress_in)
  qed (use batch_chunk_ok [OF assms(2)] in \<open>auto simp: chunkItems_concat batch_MaxItems_def\<close>)
  have "progress_ok ?n r0 (workload_runs p) ((r, ls), p')"
    using assms(1)
  proof (cases rule: executeWorkload_cases)
    case (err e)
    then show ?thesis by (auto dest: inv)
  next
    case (ok m w c p0 review)
    from inv [OF ok(3)] ok(2) show ?thesis by (simp add: progress_ok_def settle_run_runs)
  qed
  then show "in_progress ?n r0 r" "\<not> run_text r0 \<Longrightarrow> workload_runs p' = workload_runs p" by (simp_all add: progress_ok_def)
qed

definition async_status :: "WorkloadRun \<Rightarrow> sched_error + runOutcome \<Rightarrow> WorkloadRun" where
  "async_status r out = (case out of
     Inl err \<Rightarrow> r\<lparr>wr_Status := ''failed'', wr_Error := relayErrMessage (sched_text err)\<rparr>
   | Inr x \<Rightarrow> succeeded_run x r)"

lemma executeAsyncRun_eq:
  "executeAsyncRun v started clk fin run r0 q s =
    (case executeWorkload v fin run (run_progress clk) q (wr_KeyID r0)
        ((r0\<lparr>wr_Status := ''running'', wr_StartedAt := Some started\<rparr>, None),
          saveRun started (r0\<lparr>wr_Status := ''running'', wr_StartedAt := Some started\<rparr>) (rv_store s)) (rv_reviews s) of
      (out, ((r, _), p), reviews) \<Rightarrow>
        let s' = finishRun v fin (async_status r out) (case out of Inl _ \<Rightarrow> None | Inr x \<Rightarrow> Some x) (s\<lparr>rv_store := p, rv_reviews := reviews\<rparr>)
        in s'\<lparr>rv_runs := addInflight (wr_KeyID r0) (- 1) (rv_runs s')\<rparr>)"
  by (simp add: executeAsyncRun_def async_status_def Let_def split: prod.split sum.split)


definition sample_server :: run_server where
  "sample_server = \<lparr>rv_store = NewPG (\<lambda>x. x) [] [], rv_runs = addInflight ''k'' 1 newRunRegistry, rv_quotes = NewQuoteStore 0, rv_reviews = []\<rparr>"

lemma pg_text_ascii: "list_all (\<lambda>c. of_char c < (128 :: nat) \<and> c \<noteq> CHR 0x00) s \<Longrightarrow> pg_text s"
  by (induction s) (auto simp: pg_text_def)

lemma sample_run_text: "run_text (queued_run 0 ''x'' sample_quote ''k'' [] label) = pg_text label"
proof -
  have "pg_text (newRunID ''x'')" by (rule pg_text_ascii) code_simp
  then show ?thesis by (simp add: run_text_def queued_run_def sample_quote_def) (simp add: pg_text_def)
qed

text \<open>A label of 121 bytes whose last rune has two: the cut at 120 leaves half of it.\<close>

definition cut_label :: string where
  "cut_label = clip (replicate 119 (CHR ''a'') @ [CHR 0xC3, CHR 0xA9]) 120"

lemma cut_label_bad: "\<not> pg_text cut_label"
proof -
  have no: "\<not> utf8 (replicate n (CHR ''a'') @ [CHR 0xC3])" for n
    by (induction n) (simp_all add: utf8.simps [of "[CHR 0xC3]"] rune_width_def between_def)
  have cut: "cut_label = replicate 119 (CHR ''a'') @ [CHR 0xC3]" by code_simp
  show ?thesis unfolding pg_text_def cut using no by blast
qed


text \<open>The request that carries it is answered 202 with the id of a run that no route knows.\<close>

lemma cut_label_lost:
  "case startAsyncRun now b9 b24 q key url cut_label s of (r, secret, s') \<Rightarrow> wr_Label r = cut_label \<and> rv_store s' = rv_store s"
  using saveRun_refused [of "queued_run now b9 q key url cut_label"] cut_label_bad
  by (simp add: startAsyncRun_def Let_def run_text_def) (simp add: queued_run_def)

subsection \<open>Runs in flight\<close>

text \<open>The registry as the handlers and the background runs use it: a run starts, a run ends, and
  the routes look runs up in between.\<close>

inductive registry_runs :: "run_env \<Rightarrow> (string \<times> string) list \<Rightarrow> run_server \<Rightarrow> bool" for v where
  New: "rv_runs s = newRunRegistry \<Longrightarrow> registry_runs v [] s"
| Start: "registry_runs v ongoing s \<Longrightarrow> startAsyncRun now b9 b24 q key url label s = (r, secret, s') \<Longrightarrow>
    registry_runs v ((wr_ID r, key) # ongoing) s'"
| Finish: "registry_runs v ongoing s \<Longrightarrow> (wr_ID r, wr_KeyID r) \<in> set ongoing \<Longrightarrow>
    s' = executeAsyncRun v started clk fin run r q s \<Longrightarrow> registry_runs v (remove1 (wr_ID r, wr_KeyID r) ongoing) s'"
| Look: "registry_runs v ongoing s \<Longrightarrow> renderRun now r (rv_runs s) = (g, vw) \<Longrightarrow> registry_runs v ongoing (s\<lparr>rv_runs := g\<rparr>)"

lemma inflight_add:
  assumes "0 \<le> inflightFor k g + d"
  shows "inflightFor k' (addInflight k d g) = inflightFor k' g + (if k' = k then d else 0)"
  using assms by (auto simp: addInflight_def inflightFor_def Let_def)

lemma executeAsyncRun_inflight:
  "rg_inflight (rv_runs (executeAsyncRun v started clk fin run r q s)) = rg_inflight (addInflight (wr_KeyID r) (- 1) (rv_runs s))"
proof -
  have "rg_inflight (rv_runs (finishRun v fin r out s)) = rg_inflight (rv_runs s)" for r out s
    by (simp add: finishRun_def Let_def put_run_def gcRuns_def split: option.split)
  then show ?thesis by (simp add: executeAsyncRun_eq addInflight_def inflightFor_def Let_def split: prod.split)
qed

text \<open>C21: the count of runs in flight, which caps the asynchronous runs of a key, is exact at any
  time: it is the number of runs of that key that have started and not ended.\<close>

theorem inflight_exact:
  assumes "registry_runs v ongoing s"
  shows "inflightFor k (rv_runs s) = int (length (filter (\<lambda>x. snd x = k) ongoing))"
  using assms
proof (induction arbitrary: k)
  case (New s)
  then show ?case by (simp add: inflightFor_def newRunRegistry_def)
next
  case (Start ongoing s now b9 b24 q key url label r secret s')
  then have "inflightFor k (rv_runs s') = inflightFor k (addInflight key 1 (rv_runs s))"
    by (auto simp: startAsyncRun_def Let_def setSecret_def addInflight_def inflightFor_def)
  then show ?case using Start.IH by (simp add: inflight_add)
next
  case (Finish ongoing s r s' started clk fin run q)
  let ?c = "\<lambda>k xs. length (filter (\<lambda>x. snd x = k) xs)"
  have pos: "0 < ?c (wr_KeyID r) ongoing"
    using Finish.hyps(2) by (auto simp: filter_empty_conv intro: bexI [of _ "(wr_ID r, wr_KeyID r)"])
  then have c: "int (?c k (remove1 (wr_ID r, wr_KeyID r) ongoing)) = int (?c k ongoing) - (if k = wr_KeyID r then 1 else 0)"
    using Finish.hyps(2) by (auto simp: filter_remove1 length_remove1 of_nat_diff Suc_le_eq)
  from pos have "0 \<le> inflightFor (wr_KeyID r) (rv_runs s) + - 1" using Finish.IH [of "wr_KeyID r"] by simp
  from inflight_add [OF this, of k] show ?case
    using Finish.IH [of k] Finish.hyps(3) c executeAsyncRun_inflight [of v started clk fin run r q s]
    by (auto simp: inflightFor_def)
next
  case (Look ongoing s now r g vw)
  then show ?case by (auto simp: renderRun_def get_run_def gcRuns_def inflightFor_def Let_def split: if_splits)
qed

lemma inflight_exact_witness:
  "inflightFor ''k'' (rv_runs (snd (snd (startAsyncRun 0 ''x'' ''y'' sample_quote ''k'' [] [] (sample_server\<lparr>rv_runs := newRunRegistry\<rparr>))))) = 1"
proof -
  let ?s = "sample_server\<lparr>rv_runs := newRunRegistry\<rparr>"
  obtain r secret s' where st: "startAsyncRun 0 ''x'' ''y'' sample_quote ''k'' [] [] ?s = (r, secret, s')" by (metis prod.collapse)
  have "registry_runs sample_run_env [(wr_ID r, ''k'')] s'" by (rule registry_runs.Start [OF registry_runs.New st]) simp
  from inflight_exact [OF this, of "''k''"] show ?thesis by (simp add: st)
qed

text \<open>The cap itself is checked before the count moves: two requests that both see the key below
  its limit both start a run.\<close>

lemma cap_not_atomic:
  assumes "inflightFor k (rv_runs s) = maxAsyncRunsPerKey cfg - 1"
    "startAsyncRun n1 i1 w1 q1 k u1 l1 s = (r1, x1, s1)" "startAsyncRun n2 i2 w2 q2 k u2 l2 s1 = (r2, x2, s2)"
  shows "inflightFor k (rv_runs s) < maxAsyncRunsPerKey cfg \<and> inflightFor k (rv_runs s2) = maxAsyncRunsPerKey cfg + 1"
proof -
  have st: "rg_inflight (rv_runs s') = rg_inflight (addInflight k 1 (rv_runs s0))"
    if "startAsyncRun n i w q k u l s0 = (r, x, s')" for n i w q u l s0 r x s'
    using that by (auto simp: startAsyncRun_def Let_def setSecret_def addInflight_def inflightFor_def)
  have "1 \<le> maxAsyncRunsPerKey cfg" by (simp add: maxAsyncRunsPerKey_def)
  then have one: "inflightFor k (rv_runs s1) = inflightFor k (rv_runs s) + 1"
    using st [OF assms(2)] assms(1) inflight_add [of k "rv_runs s" 1 k] by (simp add: inflightFor_def)
  then have "inflightFor k (rv_runs s2) = inflightFor k (rv_runs s1) + 1"
    using st [OF assms(3)] assms(1) \<open>1 \<le> _\<close> inflight_add [of k "rv_runs s1" 1 k] by (simp add: inflightFor_def)
  with one assms(1) show ?thesis by simp
qed

text \<open>The signing secret of a run goes with its results, so the one of a failed run stays.\<close>

lemma failed_run_keeps_secret:
  assumes "rg_results g i = None"
  shows "rg_secrets (gcRuns now g) i = rg_secrets g i"
    "rg_secrets (rv_runs (finishRun v fin r None s)) = rg_secrets (rv_runs s)"
  using assms by (simp_all add: gcRuns_def finishRun_def Let_def)

subsection \<open>Who sees a run\<close>

definition own_run :: "string \<Rightarrow> WorkloadRun option \<Rightarrow> WorkloadRun option" where
  "own_run k r = (case r of None \<Rightarrow> None | Some x \<Rightarrow> if wr_KeyID x = k then Some x else None)"

lemma lookupRun_own: "lookupRun i k p = own_run k (workload_runs p i)"
  by (simp add: lookupRun_def own_run_def pg_GetRun_def split: option.split)

lemma render_runs_rows: "map vw_run (snd (render_runs now rs g)) = rs"
  by (induction rs arbitrary: g) (simp_all add: renderRun_def Let_def case_prod_unfold)

text \<open>C20: a key learns nothing about the runs of other keys. Two stores that agree on the runs of
  a key answer its requests for a run and for results alike, whatever the other keys have run,
  so a run of another key looks exactly like one that does not exist; and a list holds runs of
  the asking key only.\<close>

theorem runs_isolated:
  assumes "\<And>i. own_run k (workload_runs p i) = own_run k (workload_runs p' i)" "iter_order (workload_runs p) order"
  shows "handleGetRun now i k p g = handleGetRun now i k p' g \<and>
    handleGetRunResults now i k p g = handleGetRunResults now i k p' g \<and>
    (case handleListRuns now order k limit p g of
       (_, Reply _ vs) \<Rightarrow> \<forall>vw \<in> set vs. wr_KeyID (vw_run vw) = k \<and> vw_run vw \<in> ran (workload_runs p) | _ \<Rightarrow> False)"
proof -
  have look: "lookupRun i k p = lookupRun i k p'" using assms(1) by (simp add: lookupRun_own)
  have "wr_KeyID (vw_run vw) = k \<and> vw_run vw \<in> ran (workload_runs p)"
    if "vw \<in> set (snd (render_runs now (pg_ListRuns order k n p) g))" for vw n
  proof -
    have "vw_run vw \<in> set (pg_ListRuns order k n p)" using that by (metis render_runs_rows image_eqI set_map)
    then have "vw_run vw \<in> set (filter (\<lambda>r. wr_KeyID r = k) (range_vals (workload_runs p) order))"
      unfolding pg_ListRuns_def Let_def by (metis in_set_takeD set_sort_by)
    then show ?thesis using set_range_vals [OF assms(2)] by simp
  qed
  then have rows: "case handleListRuns now order k limit p g of
      (_, Reply _ vs) \<Rightarrow> \<forall>vw \<in> set vs. wr_KeyID (vw_run vw) = k \<and> vw_run vw \<in> ran (workload_runs p) | _ \<Rightarrow> False"
    unfolding handleListRuns_def Let_def by (simp add: case_prod_unfold)
  moreover have "handleGetRun now i k p g = handleGetRun now i k p' g" "handleGetRunResults now i k p g = handleGetRunResults now i k p' g"
    unfolding handleGetRun_def handleGetRunResults_def look by (rule refl)+
  ultimately show ?thesis by simp
qed

lemma runs_isolated_witness:
  "handleGetRun 0 (newRunID ''x'') ''other'' (saveRun 0 (queued_run 0 ''x'' sample_quote ''k'' [] []) (NewPG (\<lambda>x. x) [] [])) newRunRegistry =
   handleGetRun 0 (newRunID ''x'') ''other'' (NewPG (\<lambda>x. x) [] []) newRunRegistry"
proof -
  let ?p = "NewPG (\<lambda>x. x) [] []" and ?r = "queued_run 0 ''x'' sample_quote ''k'' [] []"
  have "own_run ''other'' (workload_runs ?p i) = own_run ''other'' (workload_runs (saveRun 0 ?r ?p) i)" for i
    by (auto simp: own_run_def saveRun_def keep_def pg_UpsertRun_def NewPG_def queued_run_def is_int32_def)
  moreover have "iter_order (workload_runs ?p) []" by (simp add: iter_order_def NewPG_def)
  ultimately show ?thesis
    using runs_isolated [of "''other''" ?p "saveRun 0 ?r ?p" "[]" 0 "newRunID ''x''" newRunRegistry "[]"] by simp
qed

subsection \<open>Where a webhook may go\<close>

text \<open>The classes that do not count as public, on the bytes: of IPv4 (mapped addresses included) loopback,
  10/8, 172.16/12, 192.168/16, 169.254/16, 224/4 and 0.0.0.0; of IPv6 the unspecified and the loopback
  address, fc00::/7, fe80::/10 and ff00::/8.\<close>

definition internal_ip :: "ip \<Rightarrow> bool" where
  "internal_ip a \<longleftrightarrow> (case To4 a of
     Some q \<Rightarrow> private_v4 (q ! 0) (q ! 1) (q ! 2) (q ! 3)
   | None \<Rightarrow> a = replicate 16 0 \<or> a = replicate 15 0 @ [1] \<or>
       length a = 16 \<and> ((252 \<le> unat (a ! 0) \<and> unat (a ! 0) \<le> 253) \<or>
         a ! 0 = 0xFE \<and> 128 \<le> unat (a ! 1) \<and> unat (a ! 1) \<le> 191 \<or> a ! 0 = 0xFF))"

lemma To4_bytes: "To4 a = Some q \<Longrightarrow> q = [q ! 0, q ! 1, q ! 2, q ! 3]"
proof -
  assume "To4 a = Some q"
  then have "length q = 4" by (auto simp: To4_def split: if_splits)
  then show ?thesis by (auto simp: numeral_eq_Suc length_Suc_conv)
qed

lemma isPublicIP_iff: "isPublicIP a \<longleftrightarrow> \<not> internal_ip a"
proof (cases "To4 a")
  case None
  show ?thesis
    unfolding isPublicIP_def IsLoopback_def IsPrivate_def IsLinkLocalUnicast_def IsLinkLocalMulticast_def
      IsInterfaceLocalMulticast_def IsMulticast_def IsUnspecified_def internal_ip_def None byte_masks
    by auto
next
  case (Some q)
  then have q4: "q = [q ! 0, q ! 1, q ! 2, q ! 3]" by (rule To4_bytes)
  show ?thesis
  proof (cases "length a = 4")
    case True
    then have "a = q" using Some by (simp add: To4_def)
    have m: "q ! 0 = 224 \<Longrightarrow> 224 \<le> unat (q ! 0) \<and> unat (q ! 0) \<le> 239" by simp
    have n: "a \<noteq> replicate 16 0" using True by auto
    have "q = [0, 0, 0, 0] \<longleftrightarrow> q ! 0 = 0 \<and> q ! 1 = 0 \<and> q ! 2 = 0 \<and> q ! 3 = 0" by (subst q4) simp
    then show ?thesis
      unfolding isPublicIP_def IsLoopback_def IsPrivate_def IsLinkLocalUnicast_def IsLinkLocalMulticast_def
        IsInterfaceLocalMulticast_def IsMulticast_def IsUnspecified_def internal_ip_def Some private_v4_def
      using m n True by (auto simp: byte_masks)
  next
    case False
    then have "length a = 16" "take 12 a = v4_prefix" "drop 12 a = q" using Some by (auto simp: To4_def split: if_splits)
    then have a: "a = v4_prefix @ [q ! 0, q ! 1, q ! 2, q ! 3]" using q4 by (metis append_take_drop_id)
    show ?thesis unfolding internal_ip_def Some by (subst a) (simp add: isPublicIP_v4)
  qed
qed

text \<open>C22: outside the insecure mode the webhook client connects to literal addresses only, and to those
  outside a fixed list of classes (\<open>internal_ip\<close>): it dials an address exactly when the host part parses as
  an IP that is not loopback, private (RFC 1918, fc00::/7), link-local, multicast or unspecified. For a printed
  IPv4 target that is a test on its four numbers, so the metadata address 169.254.169.254 is refused, and
  the shared space 100.64/10 and the reserved 240/4 are dialled, although the comment at runs.go:549 speaks
  of addresses routable on the public internet. A host name is always refused, although runs.go:561-566 and
  docs/WORKLOAD-RUNNERS.md mean names to work.\<close>

theorem webhook_dials_public:
  assumes "list_all is_digit port"
  shows "safe_dial False (JoinHostPort (dotted a b c d) port) =
      (if private_v4 a b c d then None else Some (JoinHostPort (dotted a b c d) port)) \<and>
    safe_dial False addr = (case SplitHostPort addr of None \<Rightarrow> None
      | Some host \<Rightarrow> (case ParseIP host of None \<Rightarrow> None | Some x \<Rightarrow> if internal_ip x then None else Some addr)) \<and>
    (if ParseIP name = None \<and> CHR '':'' \<notin> set name \<and> CHR ''['' \<notin> set name \<and> CHR '']'' \<notin> set name
     then safe_dial False (JoinHostPort name port) = None else True)"
proof -
  have p: "\<not> is_digit c \<Longrightarrow> c \<notin> set port" for c using assms by (auto simp: list_all_iff)
  have "SplitHostPort (JoinHostPort (dotted a b c d) port) = Some (dotted a b c d)"
    by (rule Split_Join) (simp_all add: dotted_plain p not_digit)
  moreover have "SplitHostPort (JoinHostPort name port) = Some name"
    if "CHR '':'' \<notin> set name" "CHR ''['' \<notin> set name" "CHR '']'' \<notin> set name"
    by (rule Split_Join) (use that in \<open>simp_all add: p not_digit\<close>)
  moreover have "internal_ip x = (\<not> isPublicIP x)" for x by (simp add: isPublicIP_iff)
  ultimately show ?thesis
    by (intro conjI) (simp_all add: safe_dial_def ParseIP_dotted isPublicIP_v4 split: option.split)
qed

lemma webhook_dials_public_witness:
  "safe_dial False (JoinHostPort (dotted 169 254 169 254) ''443'') = None \<and>
   safe_dial False (JoinHostPort (dotted 8 8 8 8) ''443'') = Some (JoinHostPort (dotted 8 8 8 8) ''443'') \<and>
   safe_dial False (JoinHostPort (dotted 100 64 0 1) ''443'') = Some (JoinHostPort (dotted 100 64 0 1) ''443'') \<and>
   safe_dial False (JoinHostPort ''example.com'' ''443'') = None"
proof -
  have "list_all is_digit ''443''" by (simp add: is_digit_def)
  note w = webhook_dials_public [OF this]
  have "safe_dial False (JoinHostPort ''example.com'' ''443'') = None"
    using w [of 0 0 0 0 "[]" "''example.com''"] by (simp add: ParseIP_name)
  moreover note w [THEN conjunct1, of 169 254 169 254] w [THEN conjunct1, of 8 8 8 8] w [THEN conjunct1, of 100 64 0 1]
  ultimately show ?thesis by (simp add: private_v4_def)
qed

text \<open>A webhook at a host name passes the check at submission but is never connected to: the dialer
  gets the name itself and takes it for a non-public address.\<close>

lemma named_host_refused:
  "validateWebhookURL (\<lambda>_. Some (''https'', ''example.com'')) raw False \<and>
   safe_dial False (JoinHostPort ''example.com'' ''443'') = None"
proof -
  have "SplitHostPort (JoinHostPort ''example.com'' ''443'') = Some ''example.com''"
    by (rule Split_Join) simp_all
  then show ?thesis by (simp add: validateWebhookURL_def safe_dial_def ParseIP_name)
qed

text \<open>The carrier-grade range and the reserved class E count as public.\<close>

lemma shared_space_public: "isPublicIP (v4_prefix @ [100, 64, 0, 1])" "isPublicIP (v4_prefix @ [240, 0, 0, 1])"
  by (simp_all add: isPublicIP_v4 private_v4_def)

subsection \<open>Accepting\<close>

lemma MarkAccepted_some:
  assumes "MarkAccepted now now' i qs = (qs', Some q')"
  obtains q where "qm qs i = Some q" "\<not> Accepted q" "\<not> Expired q now" "q' = q\<lparr>Accepted := True, AcceptedAt := now'\<rparr>"
    "qs' = qs\<lparr>qm := (qm qs)(i \<mapsto> q')\<rparr>"
  using assms by (auto simp: MarkAccepted_def Let_def split: option.splits if_splits)

lemma accept_checks_ok:
  assumes "accept_checks v now i key opts s = Inr q"
  shows "own_quote now i key (rv_quotes s) = Some q" "\<not> Accepted q" "Runnable (wq_Spec q)"
    "wq_Council q = None \<or> Acceptable (wq_Council q)"
    "cf_BillingEnforce (sv_cfg (mk_srv (rn_mkt v))) \<longrightarrow> TotalMicros (wq_Cost q) \<le> pg_CreditBalance (rv_store s) key"
    "ar_WebhookURL opts = [] \<or> validateWebhookURL (rn_url v) (ar_WebhookURL opts) (cf_AllowInsecureWebhooks (sv_cfg (mk_srv (rn_mkt v))))"
    "ar_Async opts \<longrightarrow> inflightFor key (rv_runs s) < maxAsyncRunsPerKey (sv_cfg (mk_srv (rn_mkt v)))"
  using assms by (auto simp: accept_checks_def Let_def split: option.splits if_splits)

lemma accepted_refuses:
  assumes "qm (rv_quotes s) i = Some q" "Accepted q"
  shows "\<exists>st code. handleAcceptWorkload v ak run i key opts s = (Some (Reject st code), s, None)"
proof -
  have "\<exists>st code. accept_checks v (ak_get ak) i key opts s = Inl (st, code)"
    using assms by (simp add: accept_checks_def own_quote_def Get_quote_def)
  then show ?thesis by (auto simp: handleAcceptWorkload_def)
qed

lemma handleAcceptWorkload_reply:
  assumes "handleAcceptWorkload v ak run i key opts s = (Some (Reply st b), s', bg)"
  obtains q q' where "accept_checks v (ak_get ak) i key opts s = Inr q" "qm (rv_quotes s) i = Some q"
    "qm (rv_quotes s') i = Some q'" "Accepted q'" "wq_Spec q' = wq_Spec q" "wq_Cost q' = wq_Cost q"
proof -
  from assms obtain q where q: "accept_checks v (ak_get ak) i key opts s = Inr q"
    by (auto simp: handleAcceptWorkload_def split: sum.splits)
  from assms q obtain qs q' where m: "MarkAccepted (ak_mark ak) (ak_stamp ak) i (rv_quotes s) = (qs, Some q')" "rv_quotes s' = qs"
    by (auto simp: handleAcceptWorkload_def startAsyncRun_def Let_def split: prod.splits option.splits if_splits sum.splits)
  have "qm (rv_quotes s) i = Some q"
    using accept_checks_ok(1) [OF q] by (auto simp: own_quote_def Get_quote_def split: option.splits if_splits)
  moreover from m(1) obtain q0 where "qm (rv_quotes s) i = Some q0" "q' = q0\<lparr>Accepted := True, AcceptedAt := ak_stamp ak\<rparr>"
    "qs = (rv_quotes s)\<lparr>qm := (qm (rv_quotes s))(i \<mapsto> q')\<rparr>" by (rule MarkAccepted_some)
  ultimately show ?thesis using q m(2) by (intro that [of q q']) simp_all
qed

text \<open>C5: a quote is run only for its owner, once, and only when it may be. A positive answer of the
  accept route (a result, or a queued run) means that the quote is the asking key's, was open, has
  items, was not blocked by the Council, was covered by the balance where billing is enforced, and
  that the webhook and the number of runs in flight were admissible; from then on the quote is
  accepted at the same terms and every further request for it is refused without any effect. A
  refusal starts nothing.\<close>

theorem accept_gate:
  "case handleAcceptWorkload v ak run i key opts s of
     (Some (Reply st b), s', bg) \<Rightarrow>
       (\<exists>q q'. own_quote (ak_get ak) i key (rv_quotes s) = Some q \<and> \<not> Accepted q \<and> Runnable (wq_Spec q) \<and>
         (case wq_Council q of None \<Rightarrow> True | Some oc \<Rightarrow> oc_Decision oc \<noteq> Block) \<and>
         (if cf_BillingEnforce (sv_cfg (mk_srv (rn_mkt v))) then TotalMicros (wq_Cost q) \<le> pg_CreditBalance (rv_store s) key else True) \<and>
         (if ar_WebhookURL opts = [] then True
          else validateWebhookURL (rn_url v) (ar_WebhookURL opts) (cf_AllowInsecureWebhooks (sv_cfg (mk_srv (rn_mkt v))))) \<and>
         (if ar_Async opts then inflightFor key (rv_runs s) < maxAsyncRunsPerKey (sv_cfg (mk_srv (rn_mkt v))) else True) \<and>
         qm (rv_quotes s') i = Some q' \<and> Accepted q' \<and> wq_Spec q' = wq_Spec q \<and> wq_Cost q' = wq_Cost q) \<and>
       (\<forall>ak2 run2 k2 opts2. \<exists>st2 code. handleAcceptWorkload v ak2 run2 i k2 opts2 s' = (Some (Reject st2 code), s', None))
   | (_, s', bg) \<Rightarrow> bg = None"
proof (cases "handleAcceptWorkload v ak run i key opts s")
  case (fields r s' bg)
  show ?thesis
  proof (cases "\<exists>st b. r = Some (Reply st b)")
    case True
    then obtain st b where r: "r = Some (Reply st b)" by blast
    from fields [unfolded r] obtain q q' where q: "accept_checks v (ak_get ak) i key opts s = Inr q" and
      q': "qm (rv_quotes s') i = Some q'" "Accepted q'" "wq_Spec q' = wq_Spec q" "wq_Cost q' = wq_Cost q"
      by (rule handleAcceptWorkload_reply)
    have "case wq_Council q of None \<Rightarrow> True | Some oc \<Rightarrow> oc_Decision oc \<noteq> Block"
      using accept_checks_ok(4) [OF q] by (auto simp: Acceptable_def split: option.splits)
    with accept_checks_ok(1-3,5-7) [OF q] q' accepted_refuses [OF q'(1,2)] show ?thesis
      by (simp add: fields r) blast
  next
    case False
    have "bg = None" using fields False
      by (auto simp: handleAcceptWorkload_def mapRelayErr_def Let_def split: sum.splits prod.splits option.splits if_splits)
    with False show ?thesis by (simp add: fields split: option.split resp.split)
  qed
qed

end
