(* ===== verification/Billing.thy ===== *)
theory Billing
  imports Metering
begin

text \<open>
  Package \<open>api\<close>, money in and out (coordinator/internal/api/billing.go): the balance route, the
  top-up by Stripe Checkout and its webhook, the providers' payout accounts and the payout run.
  Stripe is an argument everywhere: what a call answers (\<open>None\<close> is an error), and the verified
  content of a webhook. The store is the Postgres one. The calls to Stripe that move money are
  recorded in the result of the payout run.
\<close>

subsection \<open>Balance and top-up\<close>

record balance_view =
  bv_KeyID :: string
  bv_Micros :: int
  bv_USD :: f64
  bv_Enforced :: bool

definition handleBalance :: "Config \<Rightarrow> string \<Rightarrow> PG \<Rightarrow> balance_view resp" where
  "handleBalance cfg keyOwner p = (let bal = pg_CreditBalance p keyOwner in
     Reply 200 \<lparr>bv_KeyID = keyOwner, bv_Micros = bal, bv_USD = f64_of_int bal / Fin 1000000, bv_Enforced = cf_BillingEnforce cfg\<rparr>)"

text \<open>What the coordinator asks of a checkout session.\<close>

record checkout_params =
  co_ClientReferenceID :: string
  co_SuccessURL :: string
  co_CancelURL :: string
  co_UnitAmount :: int
  co_Metadata :: "string \<rightharpoonup> string"

definition checkout_cents :: "f64 \<Rightarrow> int" where
  "checkout_cents amountUSD = f64_to_int64 (amountUSD * Fin 100 + Fin (1 / 2))"

definition checkout_session :: "Config \<Rightarrow> string \<Rightarrow> int \<Rightarrow> checkout_params" where
  "checkout_session cfg keyOwner cents = \<lparr>co_ClientReferenceID = keyOwner,
     co_SuccessURL = cf_PublicBaseURL cfg @ ''/billing/?topup=success'',
     co_CancelURL = cf_PublicBaseURL cfg @ ''/billing/?topup=cancel'', co_UnitAmount = cents,
     co_Metadata = [''key_id'' \<mapsto> keyOwner, ''credit_micros'' \<mapsto> int_str (wrap64 (cents * 10000))]\<rparr>"

text \<open>\<open>configured\<close>: a Stripe key is set. \<open>create\<close> answers with the URL and the id of the session.\<close>

definition handleCheckout :: "Config \<Rightarrow> bool \<Rightarrow> (checkout_params \<Rightarrow> (string \<times> string) option) \<Rightarrow> string \<Rightarrow> f64 option \<Rightarrow>
    (string \<times> string) resp" where
  "handleCheckout cfg configured create keyOwner body =
    (if \<not> configured then Reject 501 ''billing_not_configured''
     else case body of None \<Rightarrow> Reject 400 ''bad_json''
     | Some amountUSD \<Rightarrow>
        (let cents = checkout_cents amountUSD in
         if cents < 50 \<or> cents > 50000000 then Reject 400 ''bad_amount''
         else case create (checkout_session cfg keyOwner cents) of
           None \<Rightarrow> Reject 502 ''stripe_error'' | Some s \<Rightarrow> Reply 200 s))"

record CheckoutSession =
  cs_ID :: string
  cs_PaymentStatus :: string
  cs_ClientReferenceID :: string
  cs_Metadata :: "string \<rightharpoonup> string"
  cs_AmountTotal :: int

text \<open>The value of \<open>strconv.ParseInt(s, 10, 64)\<close> when its error is dropped: 0 for a text that is no
  number, the nearest int64 for one out of range.\<close>

definition parse_int_value :: "string \<Rightarrow> int" where
  "parse_int_value s = (let neg = (s \<noteq> [] \<and> hd s = CHR ''-'');
       ds = (if s \<noteq> [] \<and> (hd s = CHR ''-'' \<or> hd s = CHR ''+'') then tl s else s);
       v = (if neg then - int (dec_val ds) else int (dec_val ds)) in
     if ds = [] \<or> \<not> list_all is_digit ds then 0
     else if v < int64_min then int64_min else if v > int64_max then int64_max else v)"

definition md_get :: "(string \<rightharpoonup> string) \<Rightarrow> string \<Rightarrow> string" where
  "md_get m k = (case m k of None \<Rightarrow> [] | Some v \<Rightarrow> v)"

definition topup_key :: "CheckoutSession \<Rightarrow> string" where
  "topup_key cs = (if cs_ClientReferenceID cs = [] then md_get (cs_Metadata cs) ''key_id'' else cs_ClientReferenceID cs)"

definition topup_micros :: "CheckoutSession \<Rightarrow> int" where
  "topup_micros cs = (let micros = parse_int_value (md_get (cs_Metadata cs) ''credit_micros'') in
     if micros = 0 then wrap64 (cs_AmountTotal cs * 10000) else micros)"

definition topup_movement :: "CheckoutSession \<Rightarrow> movement" where
  "topup_movement cs = \<lparr>mv_key = topup_key cs, mv_delta = topup_micros cs, mv_reason = ''topup'', mv_ref = cs_ID cs, mv_job = []\<rparr>"

datatype webhook_answer = Received | Ignored string

text \<open>A verified event: its type and, when its object parses as one, the checkout session.\<close>

definition handleStripeWebhook :: "Config \<Rightarrow> (string \<Rightarrow> string \<Rightarrow> string \<Rightarrow> (string \<times> CheckoutSession option) option) \<Rightarrow>
    string option \<Rightarrow> string \<Rightarrow> PG \<Rightarrow> webhook_answer resp \<times> PG" where
  "handleStripeWebhook cfg constructEvent payload signature p =
    (if cf_StripeWebhookSecret cfg = [] then (Reject 501 ''webhook_not_configured'', p)
     else case payload of None \<Rightarrow> (Reject 400 ''read_failed'', p)
     | Some body \<Rightarrow> (case constructEvent body signature (cf_StripeWebhookSecret cfg) of
         None \<Rightarrow> (Reject 400 ''bad_signature'', p)
       | Some (etype, obj) \<Rightarrow>
          (if etype = ''checkout.session.completed'' \<or> etype = ''checkout.session.async_payment_succeeded'' then
             (case obj of None \<Rightarrow> (Reject 400 ''bad_event'', p)
              | Some cs \<Rightarrow>
                 if cs_PaymentStatus cs \<noteq> ''paid'' then (Reply 200 (Ignored ''not paid''), p)
                 else if topup_key cs = [] \<or> topup_micros cs \<le> 0 then (Reply 200 (Ignored ''missing key_id/amount''), p)
                 else (case pg_AddCredit (topup_movement cs) p of
                   Inl _ \<Rightarrow> (Reject 500 ''credit_failed'', p)
                 | Inr p' \<Rightarrow> (Reply 200 Received, p')))
           else (Reply 200 Received, p))))"

subsection \<open>Payout accounts\<close>

record connectBody =
  cb_StaticPK :: string
  cb_Email :: string

text \<open>What Stripe reports of an account: the status of its transfers capability and of its next
  deadline, where it reports them.\<close>

type_synonym account_report = "string option \<times> string option"

definition v2AccountReady :: "account_report \<Rightarrow> bool \<times> string" where
  "v2AccountReady r = ((case fst r of None \<Rightarrow> False | Some s \<Rightarrow> s = ''active''), (case snd r of None \<Rightarrow> [] | Some s \<Rightarrow> s))"

definition with_status :: "bool \<Rightarrow> PayoutAccount \<Rightarrow> PayoutAccount" where
  "with_status ready a = a\<lparr>acc_Status := (if ready then ''enabled'' else ''pending'')\<rparr>"

text \<open>\<open>create\<close> opens a recipient account for a label and an email, \<open>link\<close> is the onboarding link of
  an account.\<close>

definition adminPayoutConnect :: "bool \<Rightarrow> (string \<Rightarrow> string \<Rightarrow> string option) \<Rightarrow> (string \<Rightarrow> string option) \<Rightarrow> connectBody option \<Rightarrow> PG \<Rightarrow>
    (string \<times> string) resp \<times> PG" where
  "adminPayoutConnect configured create link body p =
    (if \<not> configured then (Reject 501 ''billing_not_configured'', p)
     else case body of None \<Rightarrow> (Reject 400 ''bad_request'', p)
     | Some b \<Rightarrow>
        if trim_space (cb_StaticPK b) = [] \<or> CHR ''@'' \<notin> set (cb_Email b) then (Reject 400 ''bad_request'', p)
        else (let reply = (\<lambda>acct p. case link acct of None \<Rightarrow> (Reject 502 ''stripe_error'', p) | Some url \<Rightarrow> (Reply 200 (acct, url), p));
                  known = (case pg_GetPayoutAccount (cb_StaticPK b) p of None \<Rightarrow> [] | Some a \<Rightarrow> acc_StripeAccount a) in
          if known \<noteq> [] then reply known p
          else (case create (''Ayni provider '' @ shortPK (cb_StaticPK b)) (cb_Email b) of
            None \<Rightarrow> (Reject 502 ''stripe_error'', p)
          | Some acct \<Rightarrow> reply acct (pg_UpsertPayoutAccount
              \<lparr>acc_StaticPK = cb_StaticPK b, acc_StripeAccount = acct, acc_Status = ''pending''\<rparr> p))))"

definition adminPayoutRefresh :: "bool \<Rightarrow> (string \<Rightarrow> account_report option) \<Rightarrow> connectBody option \<Rightarrow> PG \<Rightarrow> (PayoutAccount \<times> string) resp \<times> PG" where
  "adminPayoutRefresh configured report body p =
    (if \<not> configured then (Reject 501 ''billing_not_configured'', p)
     else case body of None \<Rightarrow> (Reject 400 ''bad_request'', p)
     | Some b \<Rightarrow>
        if cb_StaticPK b = [] then (Reject 400 ''bad_request'', p)
        else (case pg_GetPayoutAccount (cb_StaticPK b) p of None \<Rightarrow> (Reject 404 ''no_account'', p)
          | Some a \<Rightarrow> (case report (acc_StripeAccount a) of None \<Rightarrow> (Reject 502 ''stripe_error'', p)
            | Some r \<Rightarrow> (case v2AccountReady r of (ready, reqs) \<Rightarrow>
                (let a = with_status ready a in (Reply 200 (a, reqs), pg_UpsertPayoutAccount a p))))))"

text \<open>The account a thin event is about: the related object of an unknown event, else the last
  account among the segments of its context.\<close>

definition event_account :: "string option \<Rightarrow> string list \<Rightarrow> string" where
  "event_account related segments = (case related of
     Some i \<Rightarrow> if has_prefix i ''acct_'' then i else foldl (\<lambda>a s. if has_prefix s ''acct_'' then s else a) [] segments
   | None \<Rightarrow> foldl (\<lambda>a s. if has_prefix s ''acct_'' then s else a) [] segments)"

definition handlePayoutWebhook :: "Config \<Rightarrow> bool \<Rightarrow> (string \<Rightarrow> string \<Rightarrow> string \<Rightarrow> (string option \<times> string list) option) \<Rightarrow>
    (string \<Rightarrow> account_report option) \<Rightarrow> string option \<Rightarrow> string \<Rightarrow> PG \<Rightarrow> unit resp \<times> PG" where
  "handlePayoutWebhook cfg configured parseEvent report payload signature p =
    (if \<not> configured \<or> cf_StripeConnectWebhookSecret cfg = [] then (Reject 501 ''webhook_not_configured'', p)
     else case payload of None \<Rightarrow> (Reject 400 ''read_failed'', p)
     | Some body \<Rightarrow> (case parseEvent body signature (cf_StripeConnectWebhookSecret cfg) of
         None \<Rightarrow> (Reject 400 ''bad_signature'', p)
       | Some (related, segments) \<Rightarrow>
          (let acct = event_account related segments in
           (Reply 200 (), if acct = [] then p else
             (case pg_PayoutAccountByStripe acct p of None \<Rightarrow> p
              | Some a \<Rightarrow> (case report acct of None \<Rightarrow> p
                | Some r \<Rightarrow> pg_UpsertPayoutAccount (with_status (fst (v2AccountReady r)) a) p))))))"

subsection \<open>Paying out\<close>

record pending_line =
  pl_StaticPK :: string
  pl_Jobs :: int
  pl_OwedUSD :: f64
  pl_Account :: string
  pl_Status :: string
  pl_Payable :: bool

definition pending_of :: "PG \<Rightarrow> ProviderAccrual \<Rightarrow> pending_line" where
  "pending_of p a = (let l = \<lparr>pl_StaticPK = pa_StaticPK a, pl_Jobs = pa_Jobs a,
       pl_OwedUSD = f64_of_int (pa_OwedMicros a) / Fin 1000000, pl_Account = [], pl_Status = [], pl_Payable = False\<rparr> in
     case pg_GetPayoutAccount (pa_StaticPK a) p of None \<Rightarrow> l
     | Some acc \<Rightarrow> l\<lparr>pl_Account := acc_StripeAccount acc, pl_Status := acc_Status acc, pl_Payable := (acc_Status acc = ''enabled'')\<rparr>)"

definition adminPayoutsPending :: "string list \<Rightarrow> PG \<Rightarrow> pending_line list resp" where
  "adminPayoutsPending groups p = (case pg_AccruedByProvider groups p of
     Inl _ \<Rightarrow> Reject 500 ''read_failed'' | Inr rows \<Rightarrow> Reply 200 (map (pending_of p) rows))"

record payout_line =
  ln_StaticPK :: string
  ln_AmountUSD :: f64
  ln_Account :: string
  ln_Transfer :: string
  ln_Skipped :: string

text \<open>A transfer asked of Stripe, with its answer.\<close>

record transfer_call =
  tc_pk :: string
  tc_account :: string
  tc_cents :: int
  tc_answer :: "string option"

record payout_run =
  pr_results :: "payout_line list"
  pr_total :: int
  pr_calls :: "transfer_call list"
  pr_store :: PG

text \<open>The payout is recorded; an error of the store is dropped.\<close>

definition settle :: "int \<Rightarrow> PayoutRecord \<Rightarrow> PG \<Rightarrow> PG" where
  "settle now po p = (case pg_RecordPayoutAndSettle now po p of Inl _ \<Rightarrow> p | Inr (_, p') \<Rightarrow> p')"

text \<open>The committed half of one provider's turn: the transfer of \<open>cents\<close>, then its record. \<open>transfer k\<close>
  is the answer to the \<open>k\<close>-th transfer; the text of Stripe's error in a skipped line is left out.\<close>

definition payout_transfer :: "int \<Rightarrow> (nat \<Rightarrow> string \<Rightarrow> int \<Rightarrow> string option) \<Rightarrow> ProviderAccrual \<Rightarrow> PayoutAccount \<Rightarrow> int \<Rightarrow> payout_line \<Rightarrow>
    payout_run \<Rightarrow> payout_run" where
  "payout_transfer now transfer a acc cents res s =
    (let payMicros = wrap64 (cents * 10000);
         po = \<lparr>po_StaticPK = pa_StaticPK a, po_StripeAccount = acc_StripeAccount acc, po_AmountMicros = payMicros,
           po_StripeTransfer = [], po_State = ''failed'', po_RemainderMicros = 0\<rparr>;
         answer = transfer (length (pr_calls s)) (acc_StripeAccount acc) cents;
         calls = pr_calls s @ [\<lparr>tc_pk = pa_StaticPK a, tc_account = acc_StripeAccount acc, tc_cents = cents, tc_answer = answer\<rparr>] in
     case answer of
       None \<Rightarrow> s\<lparr>pr_calls := calls, pr_store := settle now po (pr_store s),
         pr_results := pr_results s @ [res\<lparr>ln_Skipped := ''transfer failed''\<rparr>]\<rparr>
     | Some t \<Rightarrow> s\<lparr>pr_calls := calls, pr_store := settle now (po\<lparr>po_StripeTransfer := t, po_State := ''created'',
           po_RemainderMicros := wrap64 (pa_OwedMicros a - payMicros)\<rparr>) (pr_store s),
         pr_results := pr_results s @ [res\<lparr>ln_Transfer := t\<rparr>], pr_total := wrap64 (pr_total s + payMicros)\<rparr>)"

text \<open>One provider of the run.\<close>

definition payout_step :: "int \<Rightarrow> bool \<Rightarrow> int \<Rightarrow> (nat \<Rightarrow> string \<Rightarrow> int \<Rightarrow> string option) \<Rightarrow> ProviderAccrual \<Rightarrow> payout_run \<Rightarrow> payout_run" where
  "payout_step now commit minMicros transfer a s =
    (let res = \<lparr>ln_StaticPK = pa_StaticPK a, ln_AmountUSD = f64_of_int (pa_OwedMicros a) / Fin 1000000,
           ln_Account = [], ln_Transfer = [], ln_Skipped = []\<rparr>;
         skip = (\<lambda>res why. s\<lparr>pr_results := pr_results s @ [res\<lparr>ln_Skipped := why\<rparr>]\<rparr>) in
     if pa_OwedMicros a < minMicros then skip res ''below min''
     else case pg_GetPayoutAccount (pa_StaticPK a) (pr_store s) of
       None \<Rightarrow> skip res ''no enabled payout account''
     | Some acc \<Rightarrow>
        if acc_Status acc \<noteq> ''enabled'' then skip res ''no enabled payout account''
        else let res = res\<lparr>ln_Account := acc_StripeAccount acc\<rparr>; cents = go_div (pa_OwedMicros a) 10000 in
          if cents < 1 then skip res ''below 1 cent''
          else let res = res\<lparr>ln_AmountUSD := f64_of_int (wrap64 (cents * 10000)) / Fin 1000000\<rparr> in
            if \<not> commit then s\<lparr>pr_results := pr_results s @ [res], pr_total := wrap64 (pr_total s + wrap64 (cents * 10000))\<rparr>
            else payout_transfer now transfer a acc cents res s)"

text \<open>\<open>parseF\<close> is the value of \<open>strconv.ParseFloat\<close>, its error dropped.\<close>

definition min_micros :: "(string \<Rightarrow> f64) \<Rightarrow> string \<Rightarrow> int" where
  "min_micros parseF v = f64_to_int64 ((if v \<noteq> [] then parseF v else 0) * Fin 1000000)"

definition run_payouts :: "int \<Rightarrow> bool \<Rightarrow> int \<Rightarrow> (nat \<Rightarrow> string \<Rightarrow> int \<Rightarrow> string option) \<Rightarrow> ProviderAccrual list \<Rightarrow> PG \<Rightarrow> payout_run" where
  "run_payouts now commit minMicros transfer rows p =
    fold (payout_step now commit minMicros transfer) rows \<lparr>pr_results = [], pr_total = 0, pr_calls = [], pr_store = p\<rparr>"

definition adminPayoutsRun :: "bool \<Rightarrow> int \<Rightarrow> (string \<Rightarrow> f64) \<Rightarrow> (nat \<Rightarrow> string \<Rightarrow> int \<Rightarrow> string option) \<Rightarrow> string list \<Rightarrow> string \<Rightarrow> string \<Rightarrow> PG \<Rightarrow>
    payout_line list resp \<times> payout_run" where
  "adminPayoutsRun configured now parseF transfer groups commit minUSD p =
    (let none = \<lparr>pr_results = [], pr_total = 0, pr_calls = [], pr_store = p\<rparr> in
     if \<not> configured then (Reject 501 ''billing_not_configured'', none)
     else case pg_AccruedByProvider groups p of Inl _ \<Rightarrow> (Reject 500 ''read_failed'', none)
     | Inr rows \<Rightarrow> (let s = run_payouts now (commit = ''1'') (min_micros parseF minUSD) transfer rows p in
         (Reply 200 (pr_results s), s)))"

subsection \<open>The payout run keeps the books\<close>

lemma settle_accounts: "pg_RecordPayoutAndSettle now po p = Inr (i, p') \<Longrightarrow> payout_accounts p' = payout_accounts p"
  by (auto simp: pg_RecordPayoutAndSettle_def Let_def split: if_splits)

lemma settle_ok: "is_int64 (po_AmountMicros po) \<Longrightarrow> is_int64 (po_RemainderMicros po) \<Longrightarrow> \<exists>i p'. pg_RecordPayoutAndSettle now po p = Inr (i, p')"
  by (simp add: pg_RecordPayoutAndSettle_def Let_def)

lemma settle_effect:
  assumes "is_int64 (po_AmountMicros po)" "is_int64 (po_RemainderMicros po)"
  shows "payout_accounts (settle now po p) = payout_accounts p"
    "owed (settle now po p) k = (if po_State po = ''created'' \<and> k = po_StaticPK po then max 0 (po_RemainderMicros po) else owed p k)"
proof -
  obtain i p' where r: "pg_RecordPayoutAndSettle now po p = Inr (i, p')" using settle_ok [OF assms] by blast
  show "payout_accounts (settle now po p) = payout_accounts p"
    "owed (settle now po p) k = (if po_State po = ''created'' \<and> k = po_StaticPK po then max 0 (po_RemainderMicros po) else owed p k)"
    using settle_accounts [OF r] owed_settle [OF r] by (simp_all add: settle_def r)
qed

text \<open>What one provider's turn does: nothing, or one transfer of whole cents of what is owed.\<close>

lemma payout_step_effect:
  assumes s'_def: "s' = payout_step now commit minMicros transfer a s"
    and "pa_OwedMicros a = owed (pr_store s) (pa_StaticPK a)" "is_int64 (pa_OwedMicros a)"
  obtains (skip) "pr_calls s' = pr_calls s" "pr_store s' = pr_store s"
  | (call) c acc where "commit" "pr_calls s' = pr_calls s @ [c]" "tc_pk c = pa_StaticPK a" "1 \<le> tc_cents c" "minMicros \<le> pa_OwedMicros a"
      "pg_GetPayoutAccount (pa_StaticPK a) (pr_store s) = Some acc" "acc_Status acc = ''enabled''" "tc_account c = acc_StripeAccount acc"
      "tc_cents c = pa_OwedMicros a div 10000" "payout_accounts (pr_store s') = payout_accounts (pr_store s)"
      "\<And>k. owed (pr_store s') k = owed (pr_store s) k - (if k = pa_StaticPK a \<and> tc_answer c \<noteq> None then 10000 * tc_cents c else 0)"
proof -
  let ?o = "pa_OwedMicros a" and ?acc = "pg_GetPayoutAccount (pa_StaticPK a) (pr_store s)" and ?cents = "go_div (pa_OwedMicros a) 10000"
  consider (low) "?o < minMicros" | (none) "\<not> ?o < minMicros" "?acc = None"
    | (off) acc where "\<not> ?o < minMicros" "?acc = Some acc" "acc_Status acc \<noteq> ''enabled''"
    | (dust) acc where "\<not> ?o < minMicros" "?acc = Some acc" "acc_Status acc = ''enabled''" "?cents < 1"
    | (dry) acc where "\<not> ?o < minMicros" "?acc = Some acc" "acc_Status acc = ''enabled''" "\<not> ?cents < 1" "\<not> commit"
    | (pay) acc where "\<not> ?o < minMicros" "?acc = Some acc" "acc_Status acc = ''enabled''" "\<not> ?cents < 1" "commit"
    by (cases ?acc) blast+
  then show ?thesis
  proof cases
    case (pay acc)
    have pos: "0 \<le> ?o" using pay(4) by (auto simp: go_div_def split: if_splits)
    then have c: "?cents = ?o div 10000" "1 \<le> ?o div 10000" using pay(4) by simp_all
    have small: "is_int64 (?o div 10000 * 10000)" "is_int64 (?o - ?o div 10000 * 10000)" "0 \<le> ?o - ?o div 10000 * 10000"
      using pos assms(3) by (auto simp: is_int64_def minus_div_mult_eq_mod)
    let ?ans = "transfer (length (pr_calls s)) (acc_StripeAccount acc) ?cents"
    let ?c = "\<lparr>tc_pk = pa_StaticPK a, tc_account = acc_StripeAccount acc, tc_cents = ?o div 10000, tc_answer = ?ans\<rparr>"
    let ?po = "\<lparr>po_StaticPK = pa_StaticPK a, po_StripeAccount = acc_StripeAccount acc, po_AmountMicros = ?o div 10000 * 10000,
      po_StripeTransfer = (case ?ans of None \<Rightarrow> [] | Some t \<Rightarrow> t), po_State = (if ?ans = None then ''failed'' else ''created''),
      po_RemainderMicros = (if ?ans = None then 0 else ?o - ?o div 10000 * 10000)\<rparr>"
    obtain res where res: "s' = payout_transfer now transfer a acc (?o div 10000) res s"
      by (rule that) (simp add: s'_def payout_step_def Let_def pay flip: c(1))
    have s': "pr_calls s' = pr_calls s @ [?c]" "pr_store s' = settle now ?po (pr_store s)"
      unfolding res payout_transfer_def Let_def wrap64_id [OF small(1)] wrap64_id [OF small(2)] c(1)
      by (cases "transfer (length (pr_calls s)) (acc_StripeAccount acc) (?o div 10000)"; simp)+
    have "is_int64 (po_AmountMicros ?po)" "is_int64 (po_RemainderMicros ?po)" using small by (simp_all add: is_int64_def)
    note eff = settle_effect [OF this, of now "pr_store s"]
    have "owed (settle now ?po (pr_store s)) k =
        owed (pr_store s) k - (if k = pa_StaticPK a \<and> ?ans \<noteq> None then 10000 * (?o div 10000) else 0)" for k
      using eff(2) [of k] small(3) assms(2) by (cases "?ans = None") (simp_all add: max_def)
    then show ?thesis
      by (intro call [of ?c acc]) (use pay c eff(1) in \<open>simp_all add: s'\<close>)
  qed (rule skip; simp add: s'_def payout_step_def Let_def)+
qed

definition paid_cents :: "string \<Rightarrow> transfer_call list \<Rightarrow> int" where
  "paid_cents d calls = (\<Sum>c\<leftarrow>filter (\<lambda>c. tc_pk c = d \<and> tc_answer c \<noteq> None) calls. tc_cents c)"

definition call_ok :: "int \<Rightarrow> PG \<Rightarrow> transfer_call \<Rightarrow> bool" where
  "call_ok minMicros p c \<longleftrightarrow> 1 \<le> tc_cents c \<and> minMicros \<le> owed p (tc_pk c) \<and> 10000 * tc_cents c \<le> owed p (tc_pk c) \<and>
     (\<exists>acc. pg_GetPayoutAccount (tc_pk c) p = Some acc \<and> acc_Status acc = ''enabled'' \<and> acc_StripeAccount acc = tc_account c)"

text \<open>The books after the providers done so far, against the store \<open>p\<close> at the start.\<close>

definition books :: "bool \<Rightarrow> int \<Rightarrow> PG \<Rightarrow> string list \<Rightarrow> payout_run \<Rightarrow> bool" where
  "books commit minMicros p todo s \<longleftrightarrow> (\<forall>d. owed (pr_store s) d + 10000 * paid_cents d (pr_calls s) = owed p d) \<and>
     payout_accounts (pr_store s) = payout_accounts p \<and> (\<forall>c \<in> set (pr_calls s). call_ok minMicros p c \<and> tc_pk c \<notin> set todo) \<and>
     distinct (map tc_pk (pr_calls s)) \<and> (if commit then True else pr_calls s = [] \<and> pr_store s = p)"

lemma paid_cents_snoc: "paid_cents d (cs @ [c]) = paid_cents d cs + (if tc_pk c = d \<and> tc_answer c \<noteq> None then tc_cents c else 0)"
  by (auto simp: paid_cents_def)

lemma paid_cents_absent: "d \<notin> tc_pk ` set cs \<Longrightarrow> paid_cents d cs = 0"
  by (induction cs) (auto simp: paid_cents_def)

lemma books_step:
  assumes b: "books commit minMicros p (pa_StaticPK a # todo) s" and a: "pa_OwedMicros a = owed p (pa_StaticPK a)" "is_int64 (pa_OwedMicros a)"
    and d: "pa_StaticPK a \<notin> set todo"
  shows "books commit minMicros p todo (payout_step now commit minMicros transfer a s)"
proof -
  have new: "pa_StaticPK a \<notin> tc_pk ` set (pr_calls s)" using b by (auto simp: books_def)
  then have o: "pa_OwedMicros a = owed (pr_store s) (pa_StaticPK a)"
    using b a(1) paid_cents_absent [OF new] by (simp add: books_def) (metis add.right_neutral mult_zero_right)
  have acc: "pg_GetPayoutAccount d (pr_store s) = pg_GetPayoutAccount d p" for d
    using b by (simp add: books_def pg_GetPayoutAccount_def)
  show ?thesis
  proof (cases rule: payout_step_effect [OF refl o a(2), of now commit minMicros transfer])
    case 1
    then show ?thesis using b by (auto simp: books_def)
  next
    case (2 c acc')
    have "call_ok minMicros p c" using 2 acc a by (auto simp: call_ok_def)
    moreover have "owed (pr_store (payout_step now commit minMicros transfer a s)) d +
        10000 * paid_cents d (pr_calls s @ [c]) = owed p d" for d
    proof -
      have "owed (pr_store s) d + 10000 * paid_cents d (pr_calls s) = owed p d" using b by (simp add: books_def)
      then show ?thesis using 2(3) 2(11) [of d] by (auto simp: paid_cents_snoc split: if_splits)
    qed
    ultimately show ?thesis using b 2 d new by (auto simp: books_def)
  qed
qed

lemma books_run:
  assumes "books commit minMicros p (map pa_StaticPK rows) s" "distinct (map pa_StaticPK rows)"
    "\<forall>a \<in> set rows. pa_OwedMicros a = owed p (pa_StaticPK a) \<and> is_int64 (pa_OwedMicros a)"
  shows "books commit minMicros p [] (fold (payout_step now commit minMicros transfer) rows s)"
  using assms
proof (induction rows arbitrary: s)
  case (Cons a rows)
  from Cons.prems have "books commit minMicros p (map pa_StaticPK rows) (payout_step now commit minMicros transfer a s)"
    by (intro books_step) auto
  moreover have "distinct (map pa_StaticPK rows)" "\<forall>a \<in> set rows. pa_OwedMicros a = owed p (pa_StaticPK a) \<and> is_int64 (pa_OwedMicros a)"
    using Cons.prems(2,3) by auto
  ultimately show ?case unfolding fold_simps by (rule Cons.IH)
qed simp

text \<open>C2: a payout run neither loses nor invents money. For every device, what it is still owed
  after the run plus what was transferred to it (in whole cents, successful transfers only) is
  what it was owed before; each device gets at most one transfer, of at least a cent and at least
  the minimum, never more than it is owed, and only to its own enabled account; and a dry run
  calls nobody and changes nothing.\<close>

theorem payouts_balance:
  assumes "pg_AccruedByProvider groups p = Inr rows" "distinct groups"
  shows "let s = run_payouts now commit minMicros transfer rows p in
    (\<forall>d. owed (pr_store s) d + 10000 * paid_cents d (pr_calls s) = owed p d) \<and>
    (\<forall>c. if c \<in> set (pr_calls s) then call_ok minMicros p c else True) \<and> distinct (map tc_pk (pr_calls s)) \<and>
    (if commit then True else pr_calls s = [] \<and> pr_store s = p)"
proof -
  have rows: "mset rows = mset (map (accrual_of p) groups)" "\<forall>k \<in> set groups. is_int64 (owed p k)"
    using assms(1) by (auto simp: pg_AccruedByProvider_def split: if_splits)
  then have "mset (map pa_StaticPK rows) = mset groups"
    by (metis (no_types, lifting) accrual_of_def list.map_comp comp_apply map_idI mset_map ProviderAccrual.select_convs(1))
  then have "distinct (map pa_StaticPK rows)" using assms(2) by (metis mset_eq_imp_distinct_iff)
  moreover have "\<forall>a \<in> set rows. pa_OwedMicros a = owed p (pa_StaticPK a) \<and> is_int64 (pa_OwedMicros a)"
    using rows mset_eq_setD [OF rows(1)] by (auto simp: accrual_of_def)
  moreover have "books commit minMicros p (map pa_StaticPK rows) \<lparr>pr_results = [], pr_total = 0, pr_calls = [], pr_store = p\<rparr>"
    by (simp add: books_def paid_cents_def)
  ultimately have "books commit minMicros p [] (run_payouts now commit minMicros transfer rows p)"
    unfolding run_payouts_def by (intro books_run)
  then show ?thesis by (auto simp: books_def Let_def)
qed

definition sample_owing :: PG where
  "sample_owing = (NewPG (\<lambda>x. x) [] [])\<lparr>provider_earnings := [carry_row 0 ''d'' 25000],
     payout_accounts := [\<lparr>acc_StaticPK = ''d'', acc_StripeAccount = ''acct_1'', acc_Status = ''enabled''\<rparr>]\<rparr>"

lemma sample_owing_rows: "pg_AccruedByProvider [''d''] sample_owing = Inr [accrual_of sample_owing ''d'']"
    "pa_OwedMicros (accrual_of sample_owing ''d'') = 25000" "pa_StaticPK (accrual_of sample_owing ''d'') = ''d''"
  by (simp_all add: pg_AccruedByProvider_def accrual_of_def owed_def accrued_rows_def sample_owing_def carry_row_def is_int64_def)

lemma sample_owing_run:
  "run_payouts 5 True 0 transfer [accrual_of sample_owing ''d''] sample_owing =
   payout_transfer 5 transfer (accrual_of sample_owing ''d'') \<lparr>acc_StaticPK = ''d'', acc_StripeAccount = ''acct_1'', acc_Status = ''enabled''\<rparr> 2
     \<lparr>ln_StaticPK = ''d'', ln_AmountUSD = f64_of_int 20000 / Fin 1000000, ln_Account = ''acct_1'', ln_Transfer = [], ln_Skipped = []\<rparr>
     \<lparr>pr_results = [], pr_total = 0, pr_calls = [], pr_store = sample_owing\<rparr>"
proof -
  have "pg_GetPayoutAccount ''d'' sample_owing = Some \<lparr>acc_StaticPK = ''d'', acc_StripeAccount = ''acct_1'', acc_Status = ''enabled''\<rparr>"
    by (simp add: pg_GetPayoutAccount_def sample_owing_def)
  then show ?thesis
    by (simp add: run_payouts_def payout_step_def Let_def sample_owing_rows is_int64_def)
qed

lemma payouts_balance_witness:
  "owed (pr_store (run_payouts 5 True 0 (\<lambda>_ _ _. Some ''tr'') [accrual_of sample_owing ''d''] sample_owing)) ''d'' = 5000"
proof -
  let ?s = "run_payouts 5 True 0 (\<lambda>_ _ _. Some ''tr'') [accrual_of sample_owing ''d''] sample_owing"
  have "pr_calls ?s = [\<lparr>tc_pk = ''d'', tc_account = ''acct_1'', tc_cents = 2, tc_answer = Some ''tr''\<rparr>]"
    by (simp add: sample_owing_run payout_transfer_def Let_def sample_owing_rows)
  moreover have "owed sample_owing ''d'' = 25000" using sample_owing_rows(2) by (simp add: accrual_of_def)
  moreover have "distinct [''d'']" by simp
  note payouts_balance [OF sample_owing_rows(1) this, of 5 True 0 "\<lambda>_ _ _. Some ''tr''", unfolded Let_def, THEN conjunct1]
  then have "owed (pr_store ?s) ''d'' + 10000 * paid_cents ''d'' (pr_calls ?s) = owed sample_owing ''d''" by blast
  ultimately show ?thesis by (simp add: paid_cents_def)
qed

text \<open>A transfer whose answer is lost counts as failed: the device is still owed everything, and the
  next run asks for the same transfer again, with nothing that ties the two together.\<close>

lemma lost_answer_pays_again:
  "let s1 = run_payouts 5 True 0 (\<lambda>_ _ _. None) [accrual_of sample_owing ''d''] sample_owing in
   map (\<lambda>c. (tc_pk c, tc_account c, tc_cents c)) (pr_calls s1) = [(''d'', ''acct_1'', 2)] \<and>
   owed (pr_store s1) ''d'' = owed sample_owing ''d'' \<and> payout_accounts (pr_store s1) = payout_accounts sample_owing"
proof -
  let ?s = "run_payouts 5 True 0 (\<lambda>_ _ _. None) [accrual_of sample_owing ''d''] sample_owing"
  let ?po = "\<lparr>po_StaticPK = ''d'', po_StripeAccount = ''acct_1'', po_AmountMicros = 20000, po_StripeTransfer = [], po_State = ''failed'',
    po_RemainderMicros = 0\<rparr>"
  have s: "pr_calls ?s = [\<lparr>tc_pk = ''d'', tc_account = ''acct_1'', tc_cents = 2, tc_answer = None\<rparr>]"
    "pr_store ?s = settle 5 ?po sample_owing"
    by (simp_all add: sample_owing_run payout_transfer_def Let_def sample_owing_rows is_int64_def)
  have "is_int64 (po_AmountMicros ?po)" "is_int64 (po_RemainderMicros ?po)" by (simp_all add: is_int64_def)
  from settle_effect [OF this, of 5 sample_owing] show ?thesis by (simp add: s Let_def)
qed

subsection \<open>The top-up reaches the balance\<close>

lemma parse_int_str:
  assumes "0 < n" "is_int64 n"
  shows "parse_int_value (int_str n) = n"
proof -
  have d: "list_all is_digit (nat_str (nat n))" by (simp add: list_all_iff nat_str_digits)
  have "is_digit (hd (nat_str (nat n)))" using d by (cases "nat_str (nat n)") auto
  then have "hd (nat_str (nat n)) \<noteq> CHR ''-''" "hd (nat_str (nat n)) \<noteq> CHR ''+''" by (auto simp: is_digit_def)
  then show ?thesis
    using assms d by (simp add: parse_int_value_def int_str_def dec_val_nat_str Let_def is_int64_def int64_min_def int64_max_def)
qed

text \<open>C8: a top-up arrives, once. When Stripe reports as paid a session the coordinator opened for
  a key and an amount it accepts, the key's balance rises by exactly that amount in micro-dollars,
  whatever the session's own total; no other balance moves; and the same session reported again,
  under either event type, changes nothing.\<close>

theorem topup_arrives:
  assumes "50 \<le> cents" "cents \<le> 50000000" "key \<noteq> []" "cs_ID cs \<noteq> []" "cs_PaymentStatus cs = ''paid''"
    and cs: "cs_ClientReferenceID cs = co_ClientReferenceID (checkout_session cfg key cents)"
      "cs_Metadata cs = co_Metadata (checkout_session cfg key cents)"
    and ev: "cf_StripeWebhookSecret cfg \<noteq> []" "t \<in> {''checkout.session.completed'', ''checkout.session.async_payment_succeeded''}"
      "t' \<in> {''checkout.session.completed'', ''checkout.session.async_payment_succeeded''}"
    and rng: "is_int64 (pg_CreditBalance p key + cents * 10000)"
  shows "case handleStripeWebhook cfg (\<lambda>_ _ _. Some (t, Some cs)) (Some body) sig p of (r, p') \<Rightarrow>
    r = Reply 200 Received \<and>
    pg_CreditBalance p' k = pg_CreditBalance p k + (if k = key \<and> \<not> pg_seen p (Topup (cs_ID cs)) then cents * 10000 else 0) \<and>
    handleStripeWebhook cfg (\<lambda>_ _ _. Some (t', Some cs)) (Some body') sig' p' = (Reply 200 Received, p')"
proof -
  have m: "is_int64 (cents * 10000)" using assms(1,2) by (simp add: is_int64_def)
  have key: "topup_key cs = key" using assms(3) by (simp add: topup_key_def cs checkout_session_def)
  have mic: "topup_micros cs = cents * 10000"
    using assms(1) m parse_int_str [of "cents * 10000"] by (simp add: topup_micros_def cs checkout_session_def md_get_def Let_def)
  let ?v = "topup_movement cs"
  have v: "mv_key ?v = key" "mv_delta ?v = cents * 10000" "idem_key ?v = Some (Topup (cs_ID cs))"
    using assms(4) by (simp_all add: topup_movement_def key mic idem_key_def)
  have h: "handleStripeWebhook cfg (\<lambda>_ _ _. Some (t0, Some cs)) (Some b) sg p0 =
      (case pg_AddCredit ?v p0 of Inl _ \<Rightarrow> (Reject 500 ''credit_failed'', p0) | Inr p' \<Rightarrow> (Reply 200 Received, p'))"
    if "t0 \<in> {''checkout.session.completed'', ''checkout.session.async_payment_succeeded''}" for t0 b sg p0
    using that ev(1) assms(1,3,5) by (auto simp: handleStripeWebhook_def key mic)
  have ok: "\<exists>p'. pg_AddCredit ?v p = Inr p'" using m rng by (simp add: pg_AddCredit_eq v pg_insert_def)
  then obtain p' where p': "pg_AddCredit ?v p = Inr p'" by blast
  then have kp: "keep (pg_AddCredit ?v p) p = p'" by (simp add: keep_def)
  note kc = keep_credit_balance [of ?v p, unfolded v, OF m rng, unfolded kp]
  have "pg_AddCredit ?v p' = Inr p'" using kc(2) by (simp add: pg_AddCredit_eq v)
  then show ?thesis using kc(1) [of k] by (simp add: h [OF ev(2)] h [OF ev(3)] p')
qed

lemma topup_arrives_witness:
  "\<exists>cs. pg_CreditBalance (snd (handleStripeWebhook ((read_env (\<lambda>_. None) (\<lambda>_. []))\<lparr>cf_StripeWebhookSecret := ''w''\<rparr>)
     (\<lambda>_ _ _. Some (''checkout.session.completed'', Some cs)) (Some []) [] (NewPG (\<lambda>x. x) [] []))) ''k'' = 5000000"
proof -
  define cfg where "cfg = (read_env (\<lambda>_. None) (\<lambda>_. []))\<lparr>cf_StripeWebhookSecret := ''w''\<rparr>"
  define cs where "cs = \<lparr>cs_ID = ''cs_1'', cs_PaymentStatus = ''paid'', cs_ClientReferenceID = co_ClientReferenceID (checkout_session cfg ''k'' 500),
    cs_Metadata = co_Metadata (checkout_session cfg ''k'' 500), cs_AmountTotal = 500\<rparr>"
  let ?p = "NewPG (\<lambda>x. x) [] []" and ?t = "''checkout.session.completed''"
  have pre: "50 \<le> (500 :: int)" "(500 :: int) \<le> 50000000" "''k'' \<noteq> []" "cs_ID cs \<noteq> []" "cs_PaymentStatus cs = ''paid''"
    "cs_ClientReferenceID cs = co_ClientReferenceID (checkout_session cfg ''k'' 500)"
    "cs_Metadata cs = co_Metadata (checkout_session cfg ''k'' 500)" "cf_StripeWebhookSecret cfg \<noteq> []"
    "?t \<in> {''checkout.session.completed'', ''checkout.session.async_payment_succeeded''}"
    "?t \<in> {''checkout.session.completed'', ''checkout.session.async_payment_succeeded''}"
    "is_int64 (pg_CreditBalance ?p ''k'' + 500 * 10000)"
    by (simp_all add: cs_def cfg_def new_pg_balance is_int64_def)
  have "cs_ID cs = ''cs_1''" by (simp add: cs_def)
  with topup_arrives [OF pre, where body = "[]" and sig = "[]" and k = "''k''"]
  have "pg_CreditBalance (snd (handleStripeWebhook cfg (\<lambda>_ _ _. Some (?t, Some cs)) (Some []) [] ?p)) ''k'' = 5000000"
    by (simp add: new_pg_balance case_prod_unfold)
  then show ?thesis unfolding cfg_def by blast
qed

subsection \<open>Accounts\<close>

text \<open>No money is credited without a verified event for a paid session.\<close>

lemma credit_only_verified:
  assumes "handleStripeWebhook cfg constructEvent payload sig p = (r, p')" "p' \<noteq> p"
  shows "\<exists>body t cs. payload = Some body \<and> constructEvent body sig (cf_StripeWebhookSecret cfg) = Some (t, Some cs) \<and>
    cf_StripeWebhookSecret cfg \<noteq> [] \<and> cs_PaymentStatus cs = ''paid'' \<and> 0 < topup_micros cs \<and> pg_AddCredit (topup_movement cs) p = Inr p'"
  using assms by (auto simp: handleStripeWebhook_def split: if_splits option.splits sum.splits)

text \<open>Connecting a device again reuses its account, whatever Stripe would create.\<close>

lemma connect_again:
  assumes "adminPayoutConnect True create link (Some b) p = (Reply 200 (acct, url), p')" "acct \<noteq> []"
  shows "adminPayoutConnect True create2 (\<lambda>_. Some url2) (Some b) p' = (Reply 200 (acct, url2), p')"
proof -
  have up: "pg_GetPayoutAccount (acc_StaticPK x) (pg_UpsertPayoutAccount x p) = Some x" for x p
  proof -
    have "find (\<lambda>a. acc_StaticPK a = acc_StaticPK x) (upsert_by acc_StaticPK (\<lambda>_. x) x xs) = Some x" for xs
      by (induction xs) auto
    then show ?thesis by (simp add: pg_GetPayoutAccount_def pg_UpsertPayoutAccount_def)
  qed
  from assms have ok: "\<not> (trim_space (cb_StaticPK b) = [] \<or> CHR ''@'' \<notin> set (cb_Email b))"
    by (auto simp: adminPayoutConnect_def split: if_split_asm)
  have "\<exists>x. pg_GetPayoutAccount (cb_StaticPK b) p' = Some x \<and> acc_StripeAccount x = acct"
  proof (cases "(case pg_GetPayoutAccount (cb_StaticPK b) p of None \<Rightarrow> [] | Some a \<Rightarrow> acc_StripeAccount a) = []")
    case True
    with assms(1) ok have "p' = pg_UpsertPayoutAccount \<lparr>acc_StaticPK = cb_StaticPK b, acc_StripeAccount = acct, acc_Status = ''pending''\<rparr> p"
      by (simp add: adminPayoutConnect_def Let_def split: option.split_asm)
    with up [of "\<lparr>acc_StaticPK = cb_StaticPK b, acc_StripeAccount = acct, acc_Status = ''pending''\<rparr>" p] show ?thesis by simp
  next
    case False
    with assms(1) ok show ?thesis
      by (simp add: adminPayoutConnect_def Let_def split: option.split_asm)
  qed
  with ok assms(2) show ?thesis by (auto simp: adminPayoutConnect_def Let_def)
qed

end
