(* ===== verification/Auth.thy ===== *)
theory Auth
  imports Api
begin

text \<open>
  Package \<open>auth\<close> (coordinator/internal/auth/auth.go, pair.go, referral.go): accounts, OAuth
  sign-in, cookie sessions, the consumer key and the provider token of an account, device
  ownership, pairing codes, referrals and the leaderboard. The tables are those of
  migrations 0007, 0009 and 0012 with their keys and unique indexes; a violation is an error of
  the statement and rolls its transaction back. SQL \<open>lower\<close> is ASCII here. Random bytes, UUIDs,
  SHA-256, the clock, the HTTP transport to the identity providers and the JSON text parser are
  arguments. The consumer keys and the ledger are in the main store (\<open>PG\<close>).
\<close>

subsection \<open>Tables\<close>

record User =
  us_ID :: string
  us_Email :: string
  us_Name :: string
  us_AvatarURL :: string

record user_row =
  u_prof :: User
  u_created :: int
  u_code :: "string option"
  u_by :: string
  u_display :: string
  u_optin :: bool

record owner_row =
  o_pk :: string
  o_user :: string
  o_first :: int
  o_seen :: int

record pair_row =
  pc_hash :: string
  pc_user :: string
  pc_created :: int
  pc_expires :: int
  pc_used :: "int option"

record accounts =
  users :: "user_row list"
  identities :: "string \<times> string \<rightharpoonup> string"
  sessions :: "string \<rightharpoonup> string \<times> int"
  user_api_keys :: "string \<rightharpoonup> string"
  user_tokens :: "string \<rightharpoonup> string"
  provider_owners :: "owner_row list"
  pairing_codes :: "pair_row list"

abbreviation u_id :: "user_row \<Rightarrow> string" where "u_id u \<equiv> us_ID (u_prof u)"

definition empty_accounts :: accounts where
  "empty_accounts = \<lparr>users = [], identities = Map.empty, sessions = Map.empty, user_api_keys = Map.empty,
     user_tokens = Map.empty, provider_owners = [], pairing_codes = []\<rparr>"

definition find_user :: "string \<Rightarrow> accounts \<Rightarrow> user_row option" where
  "find_user i a = find (\<lambda>u. u_id u = i) (users a)"

definition upd_user :: "string \<Rightarrow> (user_row \<Rightarrow> user_row) \<Rightarrow> accounts \<Rightarrow> accounts" where
  "upd_user i f a = a\<lparr>users := map (\<lambda>u. if u_id u = i then f u else u) (users a)\<rparr>"

subsection \<open>Configuration\<close>

record AuthConfig =
  GitHubClientID :: string
  GitHubSecret :: string
  GoogleClientID :: string
  GoogleSecret :: string
  CallbackBase :: string
  AppURL :: string
  CookieDomain :: string
  Secure :: bool

record Auth =
  au_cfg :: AuthConfig
  au_prov :: "string \<rightharpoonup> bool"

definition configured :: "AuthConfig \<Rightarrow> string \<rightharpoonup> bool" where
  "configured cfg =
    (let m = (if GitHubClientID cfg \<noteq> [] \<and> GitHubSecret cfg \<noteq> [] then Map.empty(''github'' \<mapsto> True) else Map.empty) in
     if GoogleClientID cfg \<noteq> [] \<and> GoogleSecret cfg \<noteq> [] then m(''google'' \<mapsto> True) else m)"

text \<open>\<open>reachable\<close>: the pool connects and answers the ping. \<open>Inr None\<close>: accounts are off.\<close>

definition New_auth :: "string \<Rightarrow> AuthConfig \<Rightarrow> bool \<Rightarrow> string + Auth option" where
  "New_auth dbURL cfg reachable =
    (if dbURL = [] then Inr None
     else if configured cfg ''github'' = None \<and> configured cfg ''google'' = None then Inr None
     else if \<not> reachable then Inl ''auth pool''
     else Inr (Some \<lparr>au_cfg = cfg
         \<lparr>CallbackBase := (if CallbackBase cfg = [] then ''https://api.ayni-ai.com'' else CallbackBase cfg),
          AppURL := (if AppURL cfg = [] then ''https://app.ayni-ai.com'' else AppURL cfg)\<rparr>,
       au_prov = configured cfg\<rparr>))"

definition has_prov :: "Auth \<Rightarrow> string \<Rightarrow> bool" where
  "has_prov au p = (au_prov au p = Some True)"

definition Providers :: "string list \<Rightarrow> Auth \<Rightarrow> string list" where
  "Providers order au = filter (\<lambda>p. au_prov au p \<noteq> None) order"

subsection \<open>Requests, cookies, tokens\<close>

record web_req =
  wq_Cookie :: "string \<rightharpoonup> string"
  wq_Query :: "string \<Rightarrow> string"

datatype same_site = NoneMode | LaxMode

record Cookie =
  ck_Name :: string
  ck_Value :: string
  ck_Expires :: int
  ck_Domain :: string
  ck_Secure :: bool
  ck_SameSite :: same_site
  ck_MaxAge :: int

datatype web = HttpError int string | Redirect string

definition sessionCookie :: string where "sessionCookie = ''ayni_session''"
definition stateCookie :: string where "stateCookie = ''ayni_oauth_state''"

definition hour :: int where "hour = 3600 * 1000000000"

definition sessionTTL :: int where "sessionTTL = 30 * 24 * hour"

definition cookie :: "Auth \<Rightarrow> int \<Rightarrow> string \<Rightarrow> string \<Rightarrow> int \<Rightarrow> Cookie" where
  "cookie au now name value ttl = \<lparr>ck_Name = name, ck_Value = value, ck_Expires = now + ttl,
     ck_Domain = CookieDomain (au_cfg au), ck_Secure = Secure (au_cfg au),
     ck_SameSite = (if Secure (au_cfg au) then NoneMode else LaxMode),
     ck_MaxAge = (if ttl < 0 then - 1 else 0)\<rparr>"

text \<open>\<open>b\<close> are the 32 random bytes.\<close>

definition auth_token :: "string \<Rightarrow> string" where "auth_token b = hex_encode b"

definition hashToken :: "(string \<Rightarrow> string) \<Rightarrow> string \<Rightarrow> string" where
  "hashToken sha256 s = hex_encode (sha256 s)"

text \<open>\<open>r.Cookie(name)\<close> with the test for the empty value every caller adds.\<close>

definition cookie_value :: "web_req \<Rightarrow> string \<Rightarrow> string option" where
  "cookie_value r name = (case wq_Cookie r name of None \<Rightarrow> None | Some v \<Rightarrow> if v = [] then None else Some v)"

text \<open>\<open>url.Values.Encode\<close>: keys in byte order, \<open>QueryEscape\<close> on both sides.\<close>

definition hex_upper :: "nat \<Rightarrow> char" where
  "hex_upper n = (if n < 10 then char_of (48 + n) else char_of (55 + n))"

definition query_escape :: "string \<Rightarrow> string" where
  "query_escape s = concat (map (\<lambda>c. let n = of_char c :: nat in
     if is_digit c \<or> 65 \<le> n \<and> n \<le> 90 \<or> 97 \<le> n \<and> n \<le> 122 \<or> c \<in> {CHR ''-'', CHR ''_'', CHR ''.'', CHR ''~''} then [c]
     else if c = CHR '' '' then ''+'' else [CHR ''%'', hex_upper (n div 16), hex_upper (n mod 16)]) s)"

definition join_amp :: "string list \<Rightarrow> string" where
  "join_amp ps = (case ps of [] \<Rightarrow> [] | p # qs \<Rightarrow> p @ concat (map (\<lambda>q. ''&'' @ q) qs))"

definition encode_values :: "(string \<times> string) list \<Rightarrow> string" where
  "encode_values kvs = join_amp (map (\<lambda>(k, v). query_escape k @ ''='' @ query_escape v)
     (sort_by (\<lambda>a b. str_less (fst a) (fst b)) kvs))"

subsection \<open>Identity of a signed-in person\<close>

text \<open>The transport answers a status and a body, or fails; the body is cut at one megabyte. \<open>ox_num\<close>
  prints a JSON number as it was written.\<close>

datatype http_call = PostForm string string | GetJSON string string

record oauth_env =
  ox_http :: "http_call \<Rightarrow> (int \<times> string) option"
  ox_parse :: "string \<Rightarrow> json option"
  ox_num :: "json \<Rightarrow> string"

definition read_answer :: "oauth_env \<Rightarrow> http_call \<Rightarrow> 's fields \<Rightarrow> 's \<Rightarrow> 's option" where
  "read_answer e c fs z = (case ox_http e c of None \<Rightarrow> None
   | Some (status, body) \<Rightarrow> if go_div status 100 \<noteq> 2 then None
       else Option.bind (ox_parse e (take (2 ^ 20) body)) (\<lambda>j. dec_struct fs j z))"

definition postForm :: "oauth_env \<Rightarrow> string \<Rightarrow> (string \<times> string) list \<Rightarrow> 's fields \<Rightarrow> 's \<Rightarrow> 's option" where
  "postForm e endpoint form = read_answer e (PostForm endpoint (encode_values form))"

definition getJSON :: "oauth_env \<Rightarrow> string \<Rightarrow> string \<Rightarrow> 's fields \<Rightarrow> 's \<Rightarrow> 's option" where
  "getJSON e endpoint token = read_answer e (GetJSON endpoint token)"

record gh_user =
  gh_ID :: string
  gh_Login :: string
  gh_Name :: string
  gh_Email :: string
  gh_Avatar :: string

record gh_email =
  ge_Email :: string
  ge_Primary :: bool
  ge_Verified :: bool

record google_user =
  go_Sub :: string
  go_ID :: string
  go_Email :: string
  go_VerifiedEmail :: bool
  go_Name :: string
  go_Picture :: string

record identity =
  id_ID :: string
  id_Email :: string
  id_Name :: string
  id_Avatar :: string

text \<open>\<open>json.Number\<close> also takes a string holding a number; an id printed that way is kept as it is.\<close>

fun dec_number :: "(json \<Rightarrow> string) \<Rightarrow> (string \<Rightarrow> bool) \<Rightarrow> json \<Rightarrow> string \<Rightarrow> string option" where
  "dec_number num ok (JNum q) _ = Some (num (JNum q))"
| "dec_number num ok (JStr s) _ = (if ok s then Some s else None)"
| "dec_number num ok JNull old = Some old"
| "dec_number num ok _ _ = None"

definition digits :: "string \<Rightarrow> string option" where
  "digits s = (let r = dropWhile is_digit s in if length r < length s then Some r else None)"

text \<open>encoding/json \<open>isValidNumber\<close>.\<close>

definition valid_number :: "string \<Rightarrow> bool" where
  "valid_number s0 = (let
     s = (case s0 of c # r \<Rightarrow> if c = CHR ''-'' then r else s0 | [] \<Rightarrow> []);
     i = (case s of [] \<Rightarrow> None | c # r \<Rightarrow> if c = CHR ''0'' then Some r else digits s);
     f = Option.bind i (\<lambda>r. case r of d # c # r' \<Rightarrow> if d = CHR ''.'' \<and> is_digit c then digits (c # r') else Some r | _ \<Rightarrow> Some r);
     x = Option.bind f (\<lambda>r. case r of d # c # r' \<Rightarrow> if d \<in> {CHR ''e'', CHR ''E''} then
           (if c \<in> {CHR ''+'', CHR ''-''} then (if r' = [] then None else Some (dropWhile is_digit r')) else Some (dropWhile is_digit (c # r'))) else Some r
         | _ \<Rightarrow> Some r)
   in x = Some [])"

definition gh_fields :: "oauth_env \<Rightarrow> gh_user fields" where
  "gh_fields e = [fld ''id'' (dec_number (ox_num e) valid_number) gh_ID gh_ID_update,
     fld ''login'' dec_string gh_Login gh_Login_update, fld ''name'' dec_string gh_Name gh_Name_update,
     fld ''email'' dec_string gh_Email gh_Email_update, fld ''avatar_url'' dec_string gh_Avatar gh_Avatar_update]"

definition ge_fields :: "gh_email fields" where
  "ge_fields = [fld ''email'' dec_string ge_Email ge_Email_update, fld ''primary'' dec_bool ge_Primary ge_Primary_update,
     fld ''verified'' dec_bool ge_Verified ge_Verified_update]"

definition google_fields :: "google_user fields" where
  "google_fields = [fld ''sub'' dec_string go_Sub go_Sub_update, fld ''id'' dec_string go_ID go_ID_update,
     fld ''email'' dec_string go_Email go_Email_update,
     fld ''verified_email'' dec_bool go_VerifiedEmail go_VerifiedEmail_update,
     fld ''name'' dec_string go_Name go_Name_update, fld ''picture'' dec_string go_Picture go_Picture_update]"

definition tok_fields :: "string fields" where
  "tok_fields = [(''access_token'', dec_string)]"

text \<open>The list of addresses is a JSON array.\<close>

fun dec_emails :: "json \<Rightarrow> gh_email list option" where
  "dec_emails (JArr vs) = those (map (\<lambda>v. dec_struct ge_fields v \<lparr>ge_Email = [], ge_Primary = False, ge_Verified = False\<rparr>) vs)"
| "dec_emails JNull = Some []"
| "dec_emails _ = None"

definition gh_emails :: "oauth_env \<Rightarrow> string \<Rightarrow> gh_email list option" where
  "gh_emails e token = (case ox_http e (GetJSON ''https://api.github.com/user/emails'' token) of None \<Rightarrow> None
   | Some (status, body) \<Rightarrow> if go_div status 100 \<noteq> 2 then None
       else Option.bind (ox_parse e (take (2 ^ 20) body)) dec_emails)"

definition token_form :: "AuthConfig \<Rightarrow> string \<Rightarrow> (string \<times> string) list" where
  "token_form cfg code = [(''client_id'', GitHubClientID cfg), (''client_secret'', GitHubSecret cfg), (''code'', code),
     (''redirect_uri'', CallbackBase cfg @ ''/auth/github/callback'')]"

definition githubIdentity :: "oauth_env \<Rightarrow> Auth \<Rightarrow> string \<Rightarrow> identity option" where
  "githubIdentity e au code =
    (case postForm e ''https://github.com/login/oauth/access_token'' (token_form (au_cfg au) code) tok_fields [] of
       None \<Rightarrow> None
     | Some token \<Rightarrow> if token = [] then None
       else (case getJSON e ''https://api.github.com/user'' token (gh_fields e)
           \<lparr>gh_ID = [], gh_Login = [], gh_Name = [], gh_Email = [], gh_Avatar = []\<rparr> of
         None \<Rightarrow> None
       | Some u \<Rightarrow>
           (let email = (if gh_Email u \<noteq> [] then gh_Email u
              else case gh_emails e token of None \<Rightarrow> []
                | Some ems \<Rightarrow> (case find (\<lambda>x. ge_Primary x \<and> ge_Verified x) ems of None \<Rightarrow> [] | Some x \<Rightarrow> ge_Email x)) in
            Some \<lparr>id_ID = gh_ID u, id_Email = email,
              id_Name = (if gh_Name u = [] then gh_Login u else gh_Name u), id_Avatar = gh_Avatar u\<rparr>)))"

definition google_form :: "AuthConfig \<Rightarrow> string \<Rightarrow> (string \<times> string) list" where
  "google_form cfg code = [(''client_id'', GoogleClientID cfg), (''client_secret'', GoogleSecret cfg), (''code'', code),
     (''grant_type'', ''authorization_code''), (''redirect_uri'', CallbackBase cfg @ ''/auth/google/callback'')]"

definition googleIdentity :: "oauth_env \<Rightarrow> Auth \<Rightarrow> string \<Rightarrow> identity option" where
  "googleIdentity e au code =
    (case postForm e ''https://oauth2.googleapis.com/token'' (google_form (au_cfg au) code) tok_fields [] of
       None \<Rightarrow> None
     | Some token \<Rightarrow> if token = [] then None
       else (case getJSON e ''https://www.googleapis.com/oauth2/v2/userinfo'' token google_fields
           \<lparr>go_Sub = [], go_ID = [], go_Email = [], go_VerifiedEmail = False, go_Name = [], go_Picture = []\<rparr> of
         None \<Rightarrow> None
       | Some u \<Rightarrow> Some \<lparr>id_ID = (if go_Sub u = [] then go_ID u else go_Sub u), id_Email = go_Email u,
            id_Name = go_Name u, id_Avatar = go_Picture u\<rparr>))"

subsection \<open>Accounts and sessions\<close>

definition db_error :: store_error where "db_error = DbError ''constraint''"

text \<open>\<open>users\<close> has the primary key \<open>id\<close> and a unique index on the lower-cased address.\<close>

definition insert_user :: "int \<Rightarrow> string \<Rightarrow> identity \<Rightarrow> accounts \<Rightarrow> accounts option" where
  "insert_user now uid idn a =
    (if list_ex (\<lambda>u. u_id u = uid \<or> to_lower (us_Email (u_prof u)) = to_lower (id_Email idn)) (users a) then None
     else Some (a\<lparr>users := users a @ [\<lparr>u_prof = \<lparr>us_ID = uid, us_Email = id_Email idn, us_Name = id_Name idn,
       us_AvatarURL = id_Avatar idn\<rparr>, u_created = now, u_code = None, u_by = [], u_display = [], u_optin = False\<rparr>]\<rparr>))"

definition insert_identity :: "string \<Rightarrow> string \<Rightarrow> string \<Rightarrow> accounts \<Rightarrow> accounts option" where
  "insert_identity provider puid uid a =
    (if identities a (provider, puid) \<noteq> None \<or> find_user uid a = None then None
     else Some (a\<lparr>identities := (identities a)((provider, puid) \<mapsto> uid)\<rparr>))"

definition new_uid :: "string \<Rightarrow> string" where
  "new_uid uuid = ''usr_'' @ take 20 (filter (\<lambda>c. c \<noteq> CHR ''-'') uuid)"

text \<open>A new identity is linked to the account of its address, or to a new account.\<close>

definition link_identity :: "int \<Rightarrow> string \<Rightarrow> string \<Rightarrow> identity \<Rightarrow> accounts \<Rightarrow> (string \<times> accounts) option" where
  "link_identity now uuid provider idn a =
    (case find (\<lambda>u. to_lower (us_Email (u_prof u)) = to_lower (id_Email idn)) (users a) of
       Some u \<Rightarrow> map_option (Pair (u_id u)) (insert_identity provider (id_ID idn) (u_id u) a)
     | None \<Rightarrow> (case insert_user now (new_uid uuid) idn a of None \<Rightarrow> None
         | Some a1 \<Rightarrow> map_option (Pair (new_uid uuid)) (insert_identity provider (id_ID idn) (new_uid uuid) a1)))"

text \<open>The texts of the statements the transaction runs: the first that the database refuses ends it, the
  profile update too, whose own error is dropped but which leaves the transaction aborted.\<close>

definition identity_text :: "string \<Rightarrow> identity \<Rightarrow> accounts \<Rightarrow> bool" where
  "identity_text provider idn a = (pg_text (id_ID idn) \<and>
     (case identities a (provider, id_ID idn) of
        Some _ \<Rightarrow> pg_text (id_Name idn) \<and> pg_text (id_Avatar idn)
      | None \<Rightarrow> pg_text (id_Email idn) \<and>
          (case find (\<lambda>u. to_lower (us_Email (u_prof u)) = to_lower (id_Email idn)) (users a) of
             Some _ \<Rightarrow> True | None \<Rightarrow> pg_text (id_Name idn) \<and> pg_text (id_Avatar idn))))"

definition upsertUser :: "int \<Rightarrow> string \<Rightarrow> string \<Rightarrow> identity \<Rightarrow> accounts \<Rightarrow> (User \<times> accounts) option" where
  "upsertUser now uuid provider idn a = (if \<not> identity_text provider idn a then None else
    (case (case identities a (provider, id_ID idn) of
         Some uid \<Rightarrow> Some (uid, upd_user uid (\<lambda>u. u\<lparr>u_prof := (u_prof u)\<lparr>us_Name := id_Name idn, us_AvatarURL := id_Avatar idn\<rparr>\<rparr>) a)
       | None \<Rightarrow> link_identity now uuid provider idn a) of
       None \<Rightarrow> None
     | Some (uid, a1) \<Rightarrow> map_option (\<lambda>u. (u_prof u, a1)) (find_user uid a1)))"

text \<open>One consumer key and one provider token per account; \<open>token\<close> is unique.\<close>

definition mint_key :: "(string \<Rightarrow> string) \<Rightarrow> string \<Rightarrow> int \<Rightarrow> User \<Rightarrow> accounts \<times> PG \<Rightarrow> store_error + accounts \<times> PG" where
  "mint_key sha256 b now u s = (case s of (a, p) \<Rightarrow>
     case user_api_keys a (us_ID u) of Some _ \<Rightarrow> Inr (a, p)
     | None \<Rightarrow> (case pg_CreateConsumerKey sha256 b now (''app:'' @ us_Email u) p of
         Inl e \<Rightarrow> Inl e
       | Inr ((i, _), p') \<Rightarrow> Inr (a\<lparr>user_api_keys := (user_api_keys a)(us_ID u \<mapsto> i)\<rparr>, p')))"

definition mint_token :: "string \<Rightarrow> User \<Rightarrow> accounts \<Rightarrow> accounts" where
  "mint_token b u a =
    (let t = ''sc_prov_'' @ auth_token b in
     if user_tokens a (us_ID u) \<noteq> None \<or> list_ex (\<lambda>v. user_tokens a (u_id v) = Some t) (users a) then a
     else a\<lparr>user_tokens := (user_tokens a)(us_ID u \<mapsto> t)\<rparr>)"

text \<open>The caller logs an error and goes on.\<close>

definition ensureUserCredentials :: "(string \<Rightarrow> string) \<Rightarrow> string \<Rightarrow> string \<Rightarrow> int \<Rightarrow> User \<Rightarrow> accounts \<times> PG \<Rightarrow> accounts \<times> PG" where
  "ensureUserCredentials sha256 b b' now u s =
    (case mint_key sha256 b now u s of Inl _ \<Rightarrow> s | Inr (a, p) \<Rightarrow> (mint_token b' u a, p))"

definition keyIDForUser :: "accounts \<Rightarrow> string \<Rightarrow> string option" where "keyIDForUser a uid = user_api_keys a uid"

definition providerTokenForUser :: "accounts \<Rightarrow> string \<Rightarrow> string option" where
  "providerTokenForUser a uid = user_tokens a uid"

definition userForProviderToken :: "accounts \<Rightarrow> string \<Rightarrow> string option" where
  "userForProviderToken a raw =
    map_option u_id (find (\<lambda>u. user_tokens a (u_id u) = Some (trim_space raw)) (users a))"

definition ValidProviderToken :: "accounts \<Rightarrow> string \<Rightarrow> bool" where
  "ValidProviderToken a raw = (userForProviderToken a raw \<noteq> None)"

definition createSession :: "(string \<Rightarrow> string) \<Rightarrow> int \<Rightarrow> string \<Rightarrow> string \<Rightarrow> accounts \<Rightarrow> accounts option" where
  "createSession sha256 now raw uid a =
    (if sessions a (hashToken sha256 raw) \<noteq> None \<or> find_user uid a = None then None
     else Some (a\<lparr>sessions := (sessions a)(hashToken sha256 raw \<mapsto> (uid, now + sessionTTL))\<rparr>))"

definition SessionUser :: "(string \<Rightarrow> string) \<Rightarrow> int \<Rightarrow> web_req \<Rightarrow> accounts \<Rightarrow> User option" where
  "SessionUser sha256 now r a = (case cookie_value r sessionCookie of None \<Rightarrow> None
     | Some v \<Rightarrow> (case sessions a (hashToken sha256 v) of None \<Rightarrow> None
       | Some (uid, expires) \<Rightarrow> if expires > now then map_option u_prof (find_user uid a) else None))"

definition KeyIDForRequest :: "(string \<Rightarrow> string) \<Rightarrow> int \<Rightarrow> accounts \<Rightarrow> web_req \<Rightarrow> string \<times> bool" where
  "KeyIDForRequest sha256 now a r = (case SessionUser sha256 now r a of None \<Rightarrow> ([], False)
     | Some u \<Rightarrow> (case keyIDForUser a (us_ID u) of None \<Rightarrow> ([], False) | Some k \<Rightarrow> (k, True)))"

subsection \<open>Signing in and out\<close>

text \<open>The clock is read once per use: \<open>clk n\<close> is its \<open>n\<close>-th reading in the handler.\<close>

definition start_url :: "AuthConfig \<Rightarrow> string \<Rightarrow> string \<Rightarrow> string" where
  "start_url cfg p state =
    (if p = ''github'' then ''https://github.com/login/oauth/authorize?'' @ encode_values
       [(''client_id'', GitHubClientID cfg), (''redirect_uri'', CallbackBase cfg @ ''/auth/github/callback''),
        (''scope'', ''read:user user:email''), (''state'', state)]
     else if p = ''google'' then ''https://accounts.google.com/o/oauth2/v2/auth?'' @ encode_values
       [(''client_id'', GoogleClientID cfg), (''redirect_uri'', CallbackBase cfg @ ''/auth/google/callback''),
        (''response_type'', ''code''), (''scope'', ''openid email profile''), (''state'', state)]
     else [])"

definition handleStart :: "Auth \<Rightarrow> string \<Rightarrow> int \<Rightarrow> string \<Rightarrow> web \<times> Cookie list" where
  "handleStart au b now p =
    (if \<not> has_prov au p then (HttpError 404 ''unknown provider'', [])
     else (Redirect (start_url (au_cfg au) p (auth_token b)), [cookie au now stateCookie (auth_token b) (10 * 60 * 1000000000)]))"

record callback_env =
  cb_sha256 :: "string \<Rightarrow> string"
  cb_oauth :: oauth_env
  cb_uuid :: string
  cb_random :: "nat \<Rightarrow> string"
  cb_clk :: "nat \<Rightarrow> int"

definition fetch_identity :: "oauth_env \<Rightarrow> Auth \<Rightarrow> string \<Rightarrow> string \<Rightarrow> identity option" where
  "fetch_identity e au p code = (if p = ''github'' then githubIdentity e au code
     else if p = ''google'' then googleIdentity e au code
     else Some \<lparr>id_ID = [], id_Email = [], id_Name = [], id_Avatar = []\<rparr>)"

text \<open>The account of the identity, with its credentials, and a session for it.\<close>

definition sign_in :: "callback_env \<Rightarrow> Auth \<Rightarrow> string \<Rightarrow> identity \<Rightarrow> accounts \<times> PG \<Rightarrow> (web \<times> Cookie list) \<times> accounts \<times> PG" where
  "sign_in v au p idn s = (case s of (a, m) \<Rightarrow>
     case upsertUser (cb_clk v 1) (cb_uuid v) p idn a of
       None \<Rightarrow> ((HttpError 500 ''account error'', []), s)
     | Some (u, a1) \<Rightarrow> (case ensureUserCredentials (cb_sha256 v) (cb_random v 0) (cb_random v 1) (cb_clk v 2) u (a1, m) of (a2, m2) \<Rightarrow>
         let raw = auth_token (cb_random v 2) in
         (case createSession (cb_sha256 v) (cb_clk v 3) raw (us_ID u) a2 of
            None \<Rightarrow> ((HttpError 500 ''session error'', []), (a2, m2))
          | Some a3 \<Rightarrow> ((Redirect (AppURL (au_cfg au) @ ''/dashboard/''), [cookie au (cb_clk v 4) sessionCookie raw sessionTTL]), (a3, m2)))))"

definition handleCallback :: "callback_env \<Rightarrow> Auth \<Rightarrow> string \<Rightarrow> web_req \<Rightarrow> accounts \<times> PG \<Rightarrow> (web \<times> Cookie list) \<times> accounts \<times> PG" where
  "handleCallback v au p r s =
    (if \<not> has_prov au p then ((HttpError 404 ''unknown provider'', []), s)
     else if cookie_value r stateCookie = None \<or> cookie_value r stateCookie \<noteq> Some (wq_Query r ''state'')
       then ((HttpError 400 ''bad oauth state'', []), s)
     else let clear = cookie au (cb_clk v 0) stateCookie [] (- hour); code = wq_Query r ''code'' in
       if code = [] then ((HttpError 400 ''missing code'', [clear]), s)
       else (case fetch_identity (cb_oauth v) au p code of
           None \<Rightarrow> ((HttpError 502 ''sign-in failed'', [clear]), s)
         | Some idn \<Rightarrow> if id_Email idn = [] then ((HttpError 400 ''no email'', [clear]), s)
             else (case sign_in v au p idn s of ((w, cs), s') \<Rightarrow> ((w, clear # cs), s'))))"

definition handleLogout :: "(string \<Rightarrow> string) \<Rightarrow> Auth \<Rightarrow> int \<Rightarrow> web_req \<Rightarrow> accounts \<Rightarrow> Cookie \<times> accounts" where
  "handleLogout sha256 au now r a = (cookie au now sessionCookie [] (- hour),
     case cookie_value r sessionCookie of None \<Rightarrow> a
     | Some v \<Rightarrow> a\<lparr>sessions := (sessions a)(hashToken sha256 v := None)\<rparr>)"

record me_view =
  me_User :: User
  me_KeyID :: string
  me_Token :: string
  me_CreditUSD :: f64

definition handleMe :: "(string \<Rightarrow> string) \<Rightarrow> int \<Rightarrow> web_req \<Rightarrow> accounts \<Rightarrow> PG \<Rightarrow> me_view resp" where
  "handleMe sha256 now r a p = (case SessionUser sha256 now r a of None \<Rightarrow> Reject 401 ''not signed in''
     | Some u \<Rightarrow>
       (let k = (case keyIDForUser a (us_ID u) of None \<Rightarrow> [] | Some k \<Rightarrow> k);
            t = (case providerTokenForUser a (us_ID u) of None \<Rightarrow> [] | Some t \<Rightarrow> t);
            balance = (if k \<noteq> [] then pg_CreditBalance p k else 0) in
        Reply 200 \<lparr>me_User = u, me_KeyID = k, me_Token = t, me_CreditUSD = f64_of_int balance / Fin 1000000\<rparr>))"

subsection \<open>Devices and earnings\<close>

definition LinkProviderDevice :: "int \<Rightarrow> string \<Rightarrow> string \<Rightarrow> accounts \<Rightarrow> accounts" where
  "LinkProviderDevice now raw pk a = (case userForProviderToken a raw of None \<Rightarrow> a
   | Some uid \<Rightarrow>
       if list_ex (\<lambda>o'. o_pk o' = pk) (provider_owners a)
       then a\<lparr>provider_owners := map (\<lambda>o'. if o_pk o' = pk then o'\<lparr>o_user := uid, o_seen := now\<rparr> else o') (provider_owners a)\<rparr>
       else a\<lparr>provider_owners := provider_owners a @ [\<lparr>o_pk = pk, o_user = uid, o_first = now, o_seen = now\<rparr>]\<rparr>)"

definition devices_of :: "string \<Rightarrow> accounts \<Rightarrow> owner_row list" where
  "devices_of uid a = filter (\<lambda>o'. o_user o' = uid) (provider_owners a)"

record earnings =
  en_OwedMicros :: int
  en_Jobs :: int
  en_Devices :: int

definition EarningsForUser :: "string \<Rightarrow> accounts \<Rightarrow> PG \<Rightarrow> store_error + earnings" where
  "EarningsForUser uid a p =
    (let pks = map o_pk (devices_of uid a); micros = (\<Sum>k\<leftarrow>pks. owed p k) in
     if \<not> is_int64 micros then Inl range_error
     else Inr \<lparr>en_OwedMicros = micros, en_Jobs = (\<Sum>k\<leftarrow>pks. int (length (accrued_rows k p))),
       en_Devices = int (length (remdups pks))\<rparr>)"

definition handleMyEarnings :: "(string \<Rightarrow> string) \<Rightarrow> int \<Rightarrow> web_req \<Rightarrow> accounts \<Rightarrow> PG \<Rightarrow> (f64 \<times> int \<times> int) resp" where
  "handleMyEarnings sha256 now r a p = (case SessionUser sha256 now r a of None \<Rightarrow> Reject 401 ''not signed in''
     | Some u \<Rightarrow> (case EarningsForUser (us_ID u) a p of
         Inl _ \<Rightarrow> Reply 200 (Fin 0, 0, 0)
       | Inr e \<Rightarrow> Reply 200 (f64_of_int (en_OwedMicros e) / Fin 1000000, en_Jobs e, en_Devices e)))"

record AdminUser =
  ad_User :: User
  ad_CreatedAt :: int
  ad_APIKeyID :: string
  ad_Devices :: int

definition ListUsers :: "accounts \<Rightarrow> AdminUser list" where
  "ListUsers a = map (\<lambda>u. \<lparr>ad_User = u_prof u, ad_CreatedAt = u_created u,
       ad_APIKeyID = (case user_api_keys a (u_id u) of None \<Rightarrow> [] | Some k \<Rightarrow> k),
       ad_Devices = int (length (devices_of (u_id u) a))\<rparr>)
     (sort_by (\<lambda>u v. u_created u > u_created v) (users a))"

definition OwnersByStaticPK :: "accounts \<Rightarrow> string \<rightharpoonup> User" where
  "OwnersByStaticPK a = map_of (concat (map (\<lambda>o'. case find_user (o_user o') a of None \<Rightarrow> []
     | Some u \<Rightarrow> [(o_pk o', (u_prof u)\<lparr>us_AvatarURL := []\<rparr>)]) (provider_owners a)))"

definition DevicePKsForUser :: "string \<Rightarrow> accounts \<Rightarrow> string list" where
  "DevicePKsForUser uid a = map o_pk (sort_by (\<lambda>x y. o_seen x > o_seen y) (devices_of uid a))"

subsection \<open>Pairing codes\<close>

definition PairCodeTTL :: int where "PairCodeTTL = 10 * 60 * 1000000000"
definition pairCodeLen :: nat where "pairCodeLen = 6"
definition pairCodeAlpha :: string where "pairCodeAlpha = ''ABCDEFGHJKLMNPQRSTUVWXYZ23456789''"
definition pairCodeMaxAge :: int where "pairCodeMaxAge = 24 * hour"

definition NormalizePairCode :: "string \<Rightarrow> string" where
  "NormalizePairCode code = filter (\<lambda>c. c \<notin> {CHR '' '', CHR ''-'', CHR ''_''}) (to_upper (trim_space code))"

definition hashPairCode :: "(string \<Rightarrow> string) \<Rightarrow> string \<Rightarrow> string" where
  "hashPairCode sha256 code = hex_encode (sha256 (NormalizePairCode code))"

text \<open>\<open>None\<close>: the random source fails.\<close>

definition alpha_code :: "string \<Rightarrow> nat \<Rightarrow> string option \<Rightarrow> string option" where
  "alpha_code alpha n b = map_option (\<lambda>b. map (\<lambda>v. alpha ! (of_char v mod length alpha)) (take n b)) b"

definition newPairCode :: "string option \<Rightarrow> string option" where
  "newPairCode = alpha_code pairCodeAlpha pairCodeLen"

text \<open>\<open>now\<close> stamps the expiry, \<open>now'\<close> is the database's clock for the row and the clean-up.\<close>

definition CreatePairCode :: "(string \<Rightarrow> string) \<Rightarrow> string option \<Rightarrow> int \<Rightarrow> int \<Rightarrow> string \<Rightarrow> accounts \<Rightarrow>
    (string \<times> int) option \<times> accounts" where
  "CreatePairCode sha256 b now now' uid a = (case newPairCode b of None \<Rightarrow> (None, a)
   | Some code \<Rightarrow> (let expires = now + PairCodeTTL; h = hashPairCode sha256 code in
       if list_ex (\<lambda>c. pc_hash c = h) (pairing_codes a) \<or> find_user uid a = None then (None, a)
       else (Some (code, expires), a\<lparr>pairing_codes := filter (\<lambda>c. \<not> pc_created c < now' - pairCodeMaxAge)
         (pairing_codes a @ [\<lparr>pc_hash = h, pc_user = uid, pc_created = now', pc_expires = expires, pc_used = None\<rparr>])\<rparr>)))"

datatype pair_error = ErrPairCode | NoProviderToken

definition live_code :: "int \<Rightarrow> string \<Rightarrow> pair_row \<Rightarrow> bool" where
  "live_code now h c = (pc_hash c = h \<and> pc_used c = None \<and> pc_expires c > now)"

definition RedeemPairCode :: "(string \<Rightarrow> string) \<Rightarrow> int \<Rightarrow> string \<Rightarrow> accounts \<Rightarrow> (pair_error + string \<times> string) \<times> accounts" where
  "RedeemPairCode sha256 now code a =
    (if length (NormalizePairCode code) \<noteq> pairCodeLen then (Inl ErrPairCode, a)
     else let h = hashPairCode sha256 code in
       case find (live_code now h) (pairing_codes a) of None \<Rightarrow> (Inl ErrPairCode, a)
     | Some c \<Rightarrow>
       (let a' = a\<lparr>pairing_codes := map (\<lambda>c. if live_code now h c then c\<lparr>pc_used := Some now\<rparr> else c) (pairing_codes a)\<rparr> in
        case providerTokenForUser a' (pc_user c) of None \<Rightarrow> (Inl NoProviderToken, a')
        | Some t \<Rightarrow> if t = [] then (Inl NoProviderToken, a')
            else (Inr (t, case find_user (pc_user c) a' of None \<Rightarrow> [] | Some u \<Rightarrow> us_Email (u_prof u)), a')))"

definition handlePairCreate :: "(string \<Rightarrow> string) \<Rightarrow> string option \<Rightarrow> int \<Rightarrow> int \<Rightarrow> int \<Rightarrow> web_req \<Rightarrow> accounts \<Rightarrow>
    (string \<times> int \<times> int) resp \<times> accounts" where
  "handlePairCreate sha256 b now0 now now' r a = (case SessionUser sha256 now0 r a of
     None \<Rightarrow> (Reject 401 ''not signed in'', a)
   | Some u \<Rightarrow> (case CreatePairCode sha256 b now now' (us_ID u) a of
       (None, a') \<Rightarrow> (Reject 500 ''could not create code'', a')
     | (Some (code, expires), a') \<Rightarrow> (Reply 200 (code, expires div 1000000000, PairCodeTTL div 1000000000), a')))"

subsection \<open>Referrals and the leaderboard\<close>

definition referralAlphabet :: string where "referralAlphabet = ''abcdefghjkmnpqrstuvwxyz23456789''"

definition newReferralCode :: "string option \<Rightarrow> string option" where
  "newReferralCode = alpha_code referralAlphabet 8"

text \<open>One attempt: the update changes a row whose code is still null, or violates the unique index
  and is an error. \<open>other n\<close> is what other requests do to the tables between the two statements
  of attempt \<open>n\<close>.\<close>

definition set_code :: "string \<Rightarrow> string \<Rightarrow> accounts \<Rightarrow> (bool \<times> accounts) option" where
  "set_code uid c a = (case find_user uid a of None \<Rightarrow> Some (False, a)
   | Some u \<Rightarrow> if u_code u \<noteq> None then Some (False, a)
       else if list_ex (\<lambda>v. u_code v = Some c) (users a) then None
       else Some (True, upd_user uid (\<lambda>u. u\<lparr>u_code := Some c\<rparr>) a))"

fun mint_code :: "nat \<Rightarrow> (nat \<Rightarrow> string option) \<Rightarrow> (nat \<Rightarrow> accounts \<Rightarrow> accounts) \<Rightarrow> string \<Rightarrow> accounts \<Rightarrow> string option \<times> accounts" where
  "mint_code 0 random other uid a = (None, a)"
| "mint_code (Suc n) random other uid a = (case newReferralCode (random n) of None \<Rightarrow> (None, a)
   | Some c \<Rightarrow> (case set_code uid c a of
       None \<Rightarrow> mint_code n random other uid (other n a)
     | Some (True, a') \<Rightarrow> (Some c, a')
     | Some (False, a') \<Rightarrow> (let a2 = other n a' in
         case find_user uid a2 of
           Some u \<Rightarrow> (case u_code u of Some c' \<Rightarrow> (Some c', a2) | None \<Rightarrow> mint_code n random other uid a2)
         | None \<Rightarrow> mint_code n random other uid a2)))"

text \<open>\<open>other 5\<close> is what happens between the first read and the first attempt.\<close>

definition ReferralCode :: "(nat \<Rightarrow> string option) \<Rightarrow> (nat \<Rightarrow> accounts \<Rightarrow> accounts) \<Rightarrow> string \<Rightarrow> accounts \<Rightarrow> string option \<times> accounts" where
  "ReferralCode random other uid a = (case find_user uid a of None \<Rightarrow> (None, a)
   | Some u \<Rightarrow> (case u_code u of
       Some c \<Rightarrow> if c \<noteq> [] then (Some c, a) else mint_code 5 random other uid (other 5 a)
     | None \<Rightarrow> mint_code 5 random other uid (other 5 a)))"

definition ClaimReferral :: "string \<Rightarrow> string \<Rightarrow> accounts \<Rightarrow> bool \<times> accounts" where
  "ClaimReferral uid code0 a =
    (let code = to_lower (trim_space code0) in
     if code = [] then (False, a)
     else (case find (\<lambda>u. u_code u = Some code) (users a) of None \<Rightarrow> (False, a)
       | Some ref \<Rightarrow> if u_id ref = uid then (False, a)
           else (list_ex (\<lambda>u. u_id u = uid \<and> u_by u = []) (users a),
             upd_user uid (\<lambda>u. if u_by u = [] then u\<lparr>u_by := u_id ref\<rparr> else u) a)))"

definition referred :: "string \<Rightarrow> accounts \<Rightarrow> user_row list" where
  "referred uid a = filter (\<lambda>r. u_by r = uid) (users a)"

definition referred_devices :: "string \<Rightarrow> accounts \<Rightarrow> nat" where
  "referred_devices uid a = (\<Sum>r\<leftarrow>referred uid a. length (devices_of (u_id r) a))"

definition ReferralStats :: "string \<Rightarrow> accounts \<Rightarrow> int \<times> int" where
  "ReferralStats uid a = (int (length (referred uid a)), int (referred_devices uid a))"

definition GetProfile :: "string \<Rightarrow> accounts \<Rightarrow> (string \<times> bool) option" where
  "GetProfile uid a = map_option (\<lambda>u. (u_display u, u_optin u)) (find_user uid a)"

text \<open>The name is cut at a byte; the column refuses what is no text then.\<close>

definition SetProfile :: "string \<Rightarrow> string \<Rightarrow> bool \<Rightarrow> accounts \<Rightarrow> accounts option" where
  "SetProfile uid display optIn a =
    (let n = trim_space display; n = (if length n > 40 then take 40 n else n) in
     if \<not> pg_text n then None else Some (upd_user uid (\<lambda>u. u\<lparr>u_display := n, u_optin := optIn\<rparr>) a))"

record LeaderRow =
  lr_Rank :: int
  lr_DisplayName :: string
  lr_Devices :: int
  lr_ReferredUsers :: int
  lr_ReferredDevices :: int

text \<open>The order of the leaderboard: referred devices, referred accounts, own devices, seniority.\<close>

definition leader_key :: "accounts \<Rightarrow> user_row \<Rightarrow> nat \<times> nat \<times> nat" where
  "leader_key a u = (referred_devices (u_id u) a, length (referred (u_id u) a), length (devices_of (u_id u) a))"

definition leads :: "accounts \<Rightarrow> user_row \<Rightarrow> user_row \<Rightarrow> bool" where
  "leads a u v = (case (leader_key a u, leader_key a v) of ((x, y, z), (x', y', z')) \<Rightarrow>
     x > x' \<or> x = x' \<and> (y > y' \<or> y = y' \<and> (z > z' \<or> z = z' \<and> u_created u < u_created v)))"

definition Leaderboard :: "int \<Rightarrow> accounts \<Rightarrow> LeaderRow list" where
  "Leaderboard limit0 a =
    (let limit = (if limit0 \<le> 0 \<or> limit0 > 200 then 50 else limit0);
         us = take (nat limit) (sort_by (leads a) (filter (\<lambda>u. u_optin u \<and> u_display u \<noteq> []) (users a))) in
     map (\<lambda>(i, u). case leader_key a u of (x, y, z) \<Rightarrow> \<lparr>lr_Rank = int i + 1, lr_DisplayName = u_display u,
       lr_Devices = int z, lr_ReferredUsers = int y, lr_ReferredDevices = int x\<rparr>) (enumerate 0 us))"

definition FoundingDevices :: "accounts \<Rightarrow> int" where
  "FoundingDevices a = int (length (provider_owners a))"

definition FoundingRank :: "string \<Rightarrow> accounts \<Rightarrow> int" where
  "FoundingRank uid a = (case map o_first (devices_of uid a) of [] \<Rightarrow> 0
     | t # ts \<Rightarrow> int (length (filter (\<lambda>o'. o_first o' \<le> fold min ts t) (provider_owners a))))"

end
