(* ===== verification/Auth_Props.thy ===== *)
theory Auth_Props
  imports Auth
begin

text \<open>
  What the account tables promise over any sequence of requests: every row belongs to one
  existing account, a session is its owner's until it ends or is ended, a pairing code is
  redeemed at most once and in time, an account is referred at most once and not by itself.
  \<open>acct_run\<close> is the runs of the package over the tables and the main store with the events
  that matter.
\<close>

subsection \<open>Well-formed tables\<close>

definition user_ids :: "accounts \<Rightarrow> string set" where "user_ids a = u_id ` set (users a)"

definition k_ids :: "PG \<Rightarrow> string set" where "k_ids p = k_id ` set (consumer_api_keys p)"

definition low_email :: "user_row \<Rightarrow> string" where "low_email u = to_lower (us_Email (u_prof u))"

definition users_wf :: "user_row list \<Rightarrow> bool" where
  "users_wf us \<longleftrightarrow> distinct (map u_id us) \<and> distinct (map low_email us) \<and>
     (\<forall>u \<in> set us. u_id u \<noteq> [] \<and> u_by u \<noteq> u_id u \<and> u_by u \<in> insert [] (u_id ` set us)) \<and>
     (\<forall>u \<in> set us. \<forall>v \<in> set us. u_code u \<noteq> None \<longrightarrow> u_code u = u_code v \<longrightarrow> u_id u = u_id v)"

definition refs_wf :: "accounts \<Rightarrow> bool" where
  "refs_wf a \<longleftrightarrow> ran (identities a) \<subseteq> user_ids a \<and> fst ` ran (sessions a) \<subseteq> user_ids a \<and>
     dom (user_api_keys a) \<subseteq> user_ids a \<and> dom (user_tokens a) \<subseteq> user_ids a \<and>
     o_user ` set (provider_owners a) \<subseteq> user_ids a \<and> pc_user ` set (pairing_codes a) \<subseteq> user_ids a"

definition uniq_wf :: "accounts \<times> PG \<Rightarrow> bool" where
  "uniq_wf s \<longleftrightarrow> (case s of (a, p) \<Rightarrow> inj_on (user_tokens a) (dom (user_tokens a)) \<and>
     inj_on (user_api_keys a) (dom (user_api_keys a)) \<and> ran (user_api_keys a) \<subseteq> k_ids p \<and>
     distinct (map o_pk (provider_owners a)) \<and> distinct (map pc_hash (pairing_codes a)))"

definition acct_wf :: "accounts \<times> PG \<Rightarrow> bool" where
  "acct_wf s \<longleftrightarrow> users_wf (users (fst s)) \<and> refs_wf (fst s) \<and> uniq_wf s"

lemmas wf_defs = acct_wf_def users_wf_def refs_wf_def uniq_wf_def

text \<open>Finding and updating a row.\<close>

lemma find_SomeD: "find P xs = Some x \<Longrightarrow> x \<in> set xs \<and> P x"
  by (induction xs) (auto split: if_splits)

lemma find_user_Some: "find_user i a = Some u \<Longrightarrow> u \<in> set (users a) \<and> u_id u = i"
  by (auto simp: find_user_def find_Some_iff)

lemma find_user_None: "find_user i a = None \<longleftrightarrow> i \<notin> user_ids a"
  by (auto simp: find_user_def find_None_iff user_ids_def)

lemma users_upd: "users (upd_user i f a) = map (\<lambda>u. if u_id u = i then f u else u) (users a)"
  by (simp add: upd_user_def)

lemma user_ids_set: "user_ids a = set (map u_id (users a))"
  by (simp add: user_ids_def)

lemma user_ids_upd: "(\<And>u. u_id (f u) = u_id u) \<Longrightarrow> user_ids (upd_user i f a) = user_ids a"
proof -
  assume "\<And>u. u_id (f u) = u_id u"
  then have "map u_id (map (\<lambda>u. if u_id u = i then f u else u) (users a)) = map u_id (users a)" by simp
  then show ?thesis by (simp only: user_ids_set users_upd)
qed

lemma find_user_upd:
  assumes "\<And>u. u_id (f u) = u_id u"
  shows "find_user j (upd_user i f a) = map_option (\<lambda>u. if u_id u = i then f u else u) (find_user j a)"
proof -
  have "find (\<lambda>u. u_id u = j) (map (\<lambda>u. if u_id u = i then f u else u) us) =
      map_option (\<lambda>u. if u_id u = i then f u else u) (find (\<lambda>u. u_id u = j) us)" for us
    by (induction us) (auto simp: assms)
  then show ?thesis by (simp add: find_user_def upd_user_def)
qed

lemma find_user_in: "distinct (map u_id (users a)) \<Longrightarrow> u \<in> set (users a) \<Longrightarrow> find_user (u_id u) a = Some u"
proof -
  have "distinct (map u_id us) \<Longrightarrow> u \<in> set us \<Longrightarrow> find (\<lambda>v. u_id v = u_id u) us = Some u" for us
    by (induction us) (auto intro: rev_image_eqI)
  then show "distinct (map u_id (users a)) \<Longrightarrow> u \<in> set (users a) \<Longrightarrow> find_user (u_id u) a = Some u"
    by (simp add: find_user_def)
qed

text \<open>An update that keeps the identifying fields keeps the table well-formed.\<close>

lemma users_wf_map:
  assumes "users_wf us" "\<And>u. u \<in> set us \<Longrightarrow> u_id (f u) = u_id u \<and> low_email (f u) = low_email u"
    and by': "\<And>u. u \<in> set us \<Longrightarrow> u_by (f u) = u_by u \<or> u_by (f u) \<noteq> u_id u \<and> u_by (f u) \<in> u_id ` set us"
    and code: "\<And>u. u \<in> set us \<Longrightarrow> u_code (f u) = u_code u \<or> (\<forall>v \<in> set us. u_id v \<noteq> u_id u \<longrightarrow> u_code (f v) \<noteq> u_code (f u))"
  shows "users_wf (map f us)"
proof -
  have ids: "map u_id (map f us) = map u_id us" "map low_email (map f us) = map low_email us"
    using assms(2) by simp_all
  from arg_cong [OF ids(1), of set] have img: "u_id ` f ` set us = u_id ` set us" by (simp add: image_image)
  show ?thesis
    unfolding users_wf_def set_map img
  proof (intro conjI ballI impI)
    show "distinct (map u_id (map f us))" "distinct (map low_email (map f us))"
      unfolding ids using assms(1) by (simp_all add: users_wf_def)
  next
    fix u assume "u \<in> f ` set us"
    then obtain w where w: "w \<in> set us" "u = f w" by auto
    show "u_id u \<noteq> []" using w assms(1) assms(2) [OF w(1)] by (simp add: users_wf_def)
    show "u_by u \<noteq> u_id u" using w assms(1) assms(2) [OF w(1)] by' [OF w(1)] by (auto simp: users_wf_def)
    show "u_by u \<in> insert [] (u_id ` set us)" using w assms(1) by' [OF w(1)] by (auto simp: users_wf_def)
    fix v assume "v \<in> f ` set us" "u_code u \<noteq> None" "u_code u = u_code v"
    then obtain x where x: "x \<in> set us" "v = f x" by auto
    have "u_id w = u_id x"
      using assms(1) w x code [OF w(1)] code [OF x(1)] \<open>u_code u \<noteq> None\<close> \<open>u_code u = u_code v\<close>
      by (metis (no_types, lifting) users_wf_def)
    then show "u_id u = u_id v" using w x assms(2) by simp
  qed
qed

lemma acct_wf_upd_user:
  assumes "acct_wf (a, p)" "\<And>u. u_id (f u) = u_id u" "\<And>u. low_email (f u) = low_email u"
    "\<And>u. u_by (f u) = u_by u" "\<And>u. u_code (f u) = u_code u"
  shows "acct_wf (upd_user i f a, p)"
proof -
  have "users_wf (users (upd_user i f a))"
    unfolding users_upd
    by (rule users_wf_map) (use assms in \<open>auto simp: acct_wf_def\<close>)
  moreover have "refs_wf (upd_user i f a)"
    using assms(1) user_ids_upd [of f i a] assms(2) by (simp add: acct_wf_def refs_wf_def) (simp add: upd_user_def)
  ultimately show ?thesis using assms(1) by (simp add: acct_wf_def uniq_wf_def) (simp add: upd_user_def)
qed

subsection \<open>Every operation keeps the tables well-formed\<close>

text \<open>A change of the referring tables only.\<close>

lemma refs_wf_users: "users a' = users a \<Longrightarrow> user_ids a' = user_ids a"
  by (simp add: user_ids_def)

lemma new_uid_ne: "new_uid x \<noteq> []"
  by (simp add: new_uid_def)

lemma users_wf_snoc:
  assumes w: "users_wf us" and n: "\<And>u. u \<in> set us \<Longrightarrow> u_id u \<noteq> u_id v \<and> low_email u \<noteq> low_email v"
    and v: "u_id v \<noteq> []" "u_code v = None" "u_by v = []"
  shows "users_wf (us @ [v])"
proof -
  have "u_id v \<notin> u_id ` set us" "low_email v \<notin> low_email ` set us" using n by force+
  then have d: "distinct (map u_id (us @ [v]))" "distinct (map low_email (us @ [v]))"
    using w by (simp_all add: users_wf_def)
  have r: "u_id u \<noteq> [] \<and> u_by u \<noteq> u_id u \<and> u_by u \<in> insert [] (u_id ` set (us @ [v]))" if "u \<in> set (us @ [v])" for u
    using that w v by (cases "u = v") (auto simp: users_wf_def)
  have c: "u_id u = u_id x" if "u \<in> set (us @ [v])" "x \<in> set (us @ [v])" "u_code u \<noteq> None" "u_code u = u_code x" for u x
  proof -
    have "u \<in> set us" "x \<in> set us" using that v(2) by auto
    then show ?thesis using w that(3,4) unfolding users_wf_def by blast
  qed
  show ?thesis unfolding users_wf_def using d r c by blast
qed

lemma insert_user_wf:
  assumes "insert_user now uid idn a = Some a'" "acct_wf (a, p)" "uid \<noteq> []"
  shows "acct_wf (a', p) \<and> user_ids a' = insert uid (user_ids a) \<and> user_ids a \<subseteq> user_ids a' \<and>
    (\<exists>u. find_user uid a' = Some u \<and> low_email u = to_lower (id_Email idn)) \<and> identities a' = identities a"
proof -
  let ?u = "\<lparr>u_prof = \<lparr>us_ID = uid, us_Email = id_Email idn, us_Name = id_Name idn,
       us_AvatarURL = id_Avatar idn\<rparr>, u_created = now, u_code = None, u_by = [], u_display = [], u_optin = False\<rparr>"
  have n: "\<forall>u \<in> set (users a). u_id u \<noteq> uid \<and> low_email u \<noteq> to_lower (id_Email idn)"
    and a': "a' = a\<lparr>users := users a @ [?u]\<rparr>"
    using assms(1) by (auto simp: insert_user_def list_ex_iff low_email_def split: if_splits)
  have u: "users a' = users a @ [?u]" by (simp add: a')
  have ids: "user_ids a' = insert uid (user_ids a)" by (auto simp: user_ids_def u)
  have "users_wf (users a')"
    unfolding u by (rule users_wf_snoc) (use assms(2,3) n in \<open>auto simp: acct_wf_def low_email_def\<close>)
  moreover have "refs_wf a'" using assms(2) ids by (auto simp: acct_wf_def refs_wf_def a')
  moreover have "uniq_wf (a', p)" using assms(2) by (simp add: acct_wf_def uniq_wf_def a')
  moreover have "find_user uid a' = Some ?u"
  proof -
    have "find (\<lambda>v. u_id v = uid) (us @ [?u]) = Some ?u" if "\<forall>u \<in> set us. u_id u \<noteq> uid" for us
      using that by (induction us) auto
    then show ?thesis using n by (simp add: find_user_def u)
  qed
  ultimately show ?thesis using ids by (auto simp: acct_wf_def low_email_def a')
qed

lemma insert_identity_wf:
  assumes "insert_identity pr i uid a = Some a'" "acct_wf (a, p)"
  shows "acct_wf (a', p) \<and> users a' = users a \<and> identities a' (pr, i) = Some uid"
proof -
  have c: "uid \<in> user_ids a" "a' = a\<lparr>identities := (identities a)((pr, i) \<mapsto> uid)\<rparr>"
    using assms(1) find_user_None [of uid a] by (auto simp: insert_identity_def split: if_splits)
  have "refs_wf a'" using assms(2) c by (auto simp: acct_wf_def refs_wf_def user_ids_def ran_def split: if_splits)
  then show ?thesis using assms(2) c by (simp add: acct_wf_def uniq_wf_def)
qed

lemma find_user_ids: "users a' = users a \<Longrightarrow> find_user i a' = find_user i a"
  by (simp add: find_user_def)

lemma link_identity_cases:
  assumes "link_identity now uuid pr idn a = Some (uid, a')"
  obtains u where "find (\<lambda>u. to_lower (us_Email (u_prof u)) = to_lower (id_Email idn)) (users a) = Some u"
      "insert_identity pr (id_ID idn) uid a = Some a'" "uid = u_id u"
  | a1 where "find (\<lambda>u. to_lower (us_Email (u_prof u)) = to_lower (id_Email idn)) (users a) = None"
      "insert_user now (new_uid uuid) idn a = Some a1" "insert_identity pr (id_ID idn) uid a1 = Some a'" "uid = new_uid uuid"
proof (cases "find (\<lambda>u. to_lower (us_Email (u_prof u)) = to_lower (id_Email idn)) (users a)")
  case (Some u)
  show ?thesis by (rule that(1) [OF Some]) (use assms in \<open>auto simp only: link_identity_def Some option.case map_option_eq_Some prod.inject\<close>)
next
  case None
  show ?thesis
  proof (cases "insert_user now (new_uid uuid) idn a")
    case (Some a1)
    show ?thesis by (rule that(2) [OF None Some])
      (use assms in \<open>auto simp only: link_identity_def None Some option.case map_option_eq_Some prod.inject\<close>)
  next
    case n: None
    show ?thesis using assms by (simp add: link_identity_def None n)
  qed
qed

lemma link_identity_wf:
  assumes "link_identity now uuid pr idn a = Some (uid, a')" "acct_wf (a, p)"
  shows "acct_wf (a', p) \<and> user_ids a \<subseteq> user_ids a' \<and> identities a' (pr, id_ID idn) = Some uid \<and>
    (\<exists>u. find_user uid a' = Some u \<and> low_email u = to_lower (id_Email idn))"
proof (cases "find (\<lambda>u. to_lower (us_Email (u_prof u)) = to_lower (id_Email idn)) (users a)")
  case (Some u)
  then have c: "uid = u_id u" "insert_identity pr (id_ID idn) uid a = Some a'" "u \<in> set (users a)"
    "low_email u = to_lower (id_Email idn)"
    using assms(1) find_SomeD [OF Some] unfolding link_identity_def Some
    by (auto simp: low_email_def)
  note w = insert_identity_wf [OF c(2) assms(2)]
  then have "find_user uid a' = Some u"
    using find_user_in [of a u] c(1,3) assms(2) find_user_ids [of a' a] by (simp add: acct_wf_def users_wf_def)
  then show ?thesis using w c(4) by (auto simp: user_ids_def)
next
  case None
  then obtain a1 where c: "insert_user now uid idn a = Some a1" "insert_identity pr (id_ID idn) uid a1 = Some a'"
    "uid = new_uid uuid"
    using assms(1) None by (elim link_identity_cases) simp_all
  note w = insert_user_wf [OF c(1) assms(2)] new_uid_ne [of uuid]
  then have w1: "acct_wf (a1, p)" using c(3) by simp
  note w2 = insert_identity_wf [OF c(2) w1]
  show ?thesis using w w2 c(3) find_user_ids [of a' a1] by (auto simp: user_ids_def)
qed

lemma upsertUser_wf:
  assumes "upsertUser now uuid pr idn a = Some (u, a')" "acct_wf (a, p)"
  shows "acct_wf (a', p) \<and> user_ids a \<subseteq> user_ids a' \<and> identities a' (pr, id_ID idn) = Some (us_ID u) \<and>
    map_option u_prof (find_user (us_ID u) a') = Some u \<and>
    (case identities a (pr, id_ID idn) of Some uid \<Rightarrow> us_ID u = uid | None \<Rightarrow> to_lower (us_Email u) = to_lower (id_Email idn))"
proof (cases "identities a (pr, id_ID idn)")
  case (Some uid)
  define f where "f = (\<lambda>u :: user_row. u\<lparr>u_prof := (u_prof u)\<lparr>us_Name := id_Name idn, us_AvatarURL := id_Avatar idn\<rparr>\<rparr>)"
  obtain r where c: "a' = upd_user uid f a" "find_user uid a' = Some r" "u = u_prof r"
    using assms(1) Some by (auto simp: upsertUser_def f_def split: if_splits)
  have "acct_wf (a', p)" unfolding c(1) by (rule acct_wf_upd_user [OF assms(2)]) (simp_all add: f_def low_email_def)
  moreover have "user_ids a' = user_ids a" unfolding c(1) by (rule user_ids_upd) (simp add: f_def)
  ultimately show ?thesis using c find_user_Some [OF c(2)] Some by (simp add: upd_user_def)
next
  case None
  then obtain uid r where c: "link_identity now uuid pr idn a = Some (uid, a')" "find_user uid a' = Some r" "u = u_prof r"
    using assms(1) by (auto simp: upsertUser_def split: option.splits if_splits)
  show ?thesis using link_identity_wf [OF c(1) assms(2)] find_user_Some [OF c(2)] c(2,3) None by (auto simp: low_email_def)
qed

lemma mint_key_wf:
  assumes "mint_key sha b now u (a, p) = Inr (a', p')" "acct_wf (a, p)" "us_ID u \<in> user_ids a"
  shows "acct_wf (a', p') \<and> users a' = users a \<and> identities a' = identities a \<and> sessions a' = sessions a \<and>
    user_tokens a' = user_tokens a \<and> k_ids p \<subseteq> k_ids p' \<and> user_api_keys a' (us_ID u) \<noteq> None"
proof (cases "user_api_keys a (us_ID u)")
  case (Some k)
  then show ?thesis using assms by (simp add: mint_key_def)
next
  case None
  then obtain i raw where c: "pg_CreateConsumerKey sha b now (''app:'' @ us_Email u) p = Inr ((i, raw), p')"
    "a' = a\<lparr>user_api_keys := (user_api_keys a)(us_ID u \<mapsto> i)\<rparr>"
    using assms(1) by (auto simp: mint_key_def split: sum.splits)
  have k: "i \<notin> k_ids p" "k_ids p' = insert i (k_ids p)"
    using c(1) by (auto simp: pg_CreateConsumerKey_def Let_def k_ids_def split: if_splits)
  have "refs_wf a'" using assms(2,3) by (auto simp: acct_wf_def refs_wf_def c(2) user_ids_def)
  moreover have "i \<notin> ran (user_api_keys a)" using k(1) assms(2) by (auto simp: acct_wf_def uniq_wf_def)
  then have "inj_on (user_api_keys a') (dom (user_api_keys a'))"
    using assms(2) None by (auto simp: acct_wf_def uniq_wf_def c(2) inj_on_def ran_def)
  moreover have "ran (user_api_keys a') \<subseteq> k_ids p'"
    using assms(2) k(2) None by (auto simp: acct_wf_def uniq_wf_def c(2))
  ultimately show ?thesis using assms(2) k(2) by (auto simp: acct_wf_def uniq_wf_def c(2))
qed

lemma mint_token_wf:
  assumes "acct_wf (a, p)" "us_ID u \<in> user_ids a"
  shows "acct_wf (mint_token b u a, p) \<and> users (mint_token b u a) = users a \<and> identities (mint_token b u a) = identities a \<and>
    sessions (mint_token b u a) = sessions a \<and> user_api_keys (mint_token b u a) = user_api_keys a"
proof -
  let ?t = "''sc_prov_'' @ auth_token b"
  show ?thesis
  proof (cases "user_tokens a (us_ID u) \<noteq> None \<or> list_ex (\<lambda>v. user_tokens a (u_id v) = Some ?t) (users a)")
    case True
    then show ?thesis using assms(1) by (auto simp: mint_token_def Let_def)
  next
    case False
    then have m: "mint_token b u a = a\<lparr>user_tokens := (user_tokens a)(us_ID u \<mapsto> ?t)\<rparr>"
      by (simp add: mint_token_def Let_def)
    have "?t \<notin> ran (user_tokens a)"
    proof
      assume "?t \<in> ran (user_tokens a)"
      then obtain x where x: "user_tokens a x = Some ?t" by (auto simp: ran_def)
      then have "x \<in> user_ids a" using assms(1) by (auto simp: acct_wf_def refs_wf_def)
      then show False using x False by (auto simp: user_ids_def list_ex_iff)
    qed
    then have "inj_on (user_tokens (mint_token b u a)) (dom (user_tokens (mint_token b u a)))"
      using assms(1) False by (auto simp: m acct_wf_def uniq_wf_def inj_on_def ran_def)
    moreover have "refs_wf (mint_token b u a)" using assms by (auto simp: m acct_wf_def refs_wf_def user_ids_def)
    ultimately show ?thesis using assms(1) by (simp add: acct_wf_def uniq_wf_def m)
  qed
qed

lemma createSession_wf:
  assumes "createSession sha now raw uid a = Some a'" "acct_wf (a, p)"
  shows "acct_wf (a', p) \<and> users a' = users a \<and> identities a' = identities a \<and>
    sessions a' = (sessions a)(hashToken sha raw \<mapsto> (uid, now + sessionTTL)) \<and> sessions a (hashToken sha raw) = None"
proof -
  have c: "uid \<in> user_ids a" "a' = a\<lparr>sessions := (sessions a)(hashToken sha raw \<mapsto> (uid, now + sessionTTL))\<rparr>"
    "sessions a (hashToken sha raw) = None"
    using assms(1) find_user_None [of uid a]
    by (cases "sessions a (hashToken sha raw)"; auto simp: createSession_def split: if_splits)+
  have "fst ` ran (sessions a') \<subseteq> insert uid (fst ` ran (sessions a))"
  proof -
    have "ran ((sessions a)(h \<mapsto> x)) \<subseteq> insert x (ran (sessions a))" for h x by (auto simp: ran_def)
    from image_mono [OF this, of fst "hashToken sha raw" "(uid, now + sessionTTL)"] show ?thesis by (simp add: c(2))
  qed
  moreover have "refs_wf a" using assms(2) by (simp add: acct_wf_def)
  ultimately have "refs_wf a'" using c unfolding refs_wf_def user_ids_def by auto
  then show ?thesis using assms(2) c by (simp add: acct_wf_def uniq_wf_def)
qed

lemma ensureUserCredentials_wf:
  assumes "ensureUserCredentials sha b b' now u (a, p) = (a', p')" "acct_wf (a, p)" "us_ID u \<in> user_ids a"
  shows "acct_wf (a', p') \<and> users a' = users a \<and> identities a' = identities a \<and> sessions a' = sessions a \<and> k_ids p \<subseteq> k_ids p'"
proof (cases "mint_key sha b now u (a, p)")
  case (Inl e)
  then show ?thesis using assms by (simp add: ensureUserCredentials_def)
next
  case (Inr s)
  obtain a1 p1 where s: "s = (a1, p1)" by (cases s)
  note w = mint_key_wf [OF Inr [unfolded s] assms(2,3)]
  have u: "us_ID u \<in> user_ids a1" using w assms(3) by (simp add: user_ids_def)
  have e: "a' = mint_token b' u a1" "p' = p1" using assms(1) Inr s by (auto simp: ensureUserCredentials_def)
  show ?thesis using w mint_token_wf [of a1 p1 u b'] u by (simp add: e)
qed

text \<open>What a sign-in that ends in a session has done.\<close>

lemma sign_in_cases:
  assumes "sign_in v au pr idn (a, m) = ((w, cs), (a', m'))" "acct_wf (a, m)"
  obtains (fail) "\<exists>st e. w = HttpError st e" "acct_wf (a', m')" "k_ids m \<subseteq> k_ids m'" "cs = []" "sessions a' = sessions a"
      "user_ids a \<subseteq> user_ids a'"
  | (ok) u where "acct_wf (a', m')" "k_ids m \<subseteq> k_ids m'" "user_ids a \<subseteq> user_ids a'"
      "cs = [cookie au (cb_clk v 4) sessionCookie (auth_token (cb_random v 2)) sessionTTL]"
      "sessions a' = (sessions a)(hashToken (cb_sha256 v) (auth_token (cb_random v 2)) \<mapsto> (us_ID u, cb_clk v 3 + sessionTTL))"
      "sessions a (hashToken (cb_sha256 v) (auth_token (cb_random v 2))) = None"
      "map_option u_prof (find_user (us_ID u) a') = Some u" "identities a' (pr, id_ID idn) = Some (us_ID u)"
      "case identities a (pr, id_ID idn) of Some uid \<Rightarrow> us_ID u = uid | None \<Rightarrow> to_lower (us_Email u) = to_lower (id_Email idn)"
proof (cases "upsertUser (cb_clk v 1) (cb_uuid v) pr idn a")
  case None
  then have "w = HttpError 500 ''account error'' \<and> cs = [] \<and> a' = a \<and> m' = m"
    using assms(1) unfolding sign_in_def prod.case None option.case by simp
  then show ?thesis using assms(2) by (intro fail) auto
next
  case (Some x)
  obtain u a1 where x: "x = (u, a1)" by (cases x)
  note w1 = upsertUser_wf [OF Some [unfolded x] assms(2)]
  then obtain r where r: "find_user (us_ID u) a1 = Some r" by (cases "find_user (us_ID u) a1") auto
  then have u: "us_ID u \<in> user_ids a1" using find_user_None [of "us_ID u" a1] by auto
  obtain a2 m2 where e: "ensureUserCredentials (cb_sha256 v) (cb_random v 0) (cb_random v 1) (cb_clk v 2) u (a1, m) = (a2, m2)"
    by (cases "ensureUserCredentials (cb_sha256 v) (cb_random v 0) (cb_random v 1) (cb_clk v 2) u (a1, m)")
  have w1': "acct_wf (a1, m)" using w1 by simp
  note w2 = ensureUserCredentials_wf [OF e w1' u]
  have s1: "sessions a1 = sessions a"
    using Some [unfolded x] by (auto simp: upsertUser_def upd_user_def insert_user_def insert_identity_def
      elim!: link_identity_cases split: option.splits if_splits)
  show ?thesis
  proof (cases "createSession (cb_sha256 v) (cb_clk v 3) (auth_token (cb_random v 2)) (us_ID u) a2")
    case None
    then have "w = HttpError 500 ''session error'' \<and> cs = [] \<and> a' = a2 \<and> m' = m2"
      using assms(1) unfolding sign_in_def prod.case Some x option.case e None Let_def by simp
    then show ?thesis using fail w1 w2 s1 by (simp add: user_ids_def)
  next
    case c: (Some a3)
    have w2': "acct_wf (a2, m2)" using w2 by simp
    note w3 = createSession_wf [OF c w2']
    have "cs = [cookie au (cb_clk v 4) sessionCookie (auth_token (cb_random v 2)) sessionTTL] \<and> a' = a3 \<and> m' = m2"
      using assms(1) unfolding sign_in_def prod.case Some x option.case e c Let_def by simp
    then show ?thesis using ok [of u] w1 w2 w3 s1 find_user_ids [of a3 a1] by (simp add: user_ids_def)
  qed
qed

lemma handleCallback_cases:
  assumes "handleCallback v au pr r s = ((w, cs), s')"
  obtains (refused) st e where "w = HttpError st e" "s' = s" "list_all (\<lambda>c. ck_Value c = []) cs"
  | (signed) idn cs1 where "fetch_identity (cb_oauth v) au pr (wq_Query r ''code'') = Some idn" "has_prov au pr"
      "cookie_value r stateCookie = Some (wq_Query r ''state'')" "wq_Query r ''code'' \<noteq> []" "id_Email idn \<noteq> []"
      "sign_in v au pr idn s = ((w, cs1), s')" "cs = cookie au (cb_clk v 0) stateCookie [] (- hour) # cs1"
proof (cases "has_prov au pr \<and> cookie_value r stateCookie = Some (wq_Query r ''state'') \<and> wq_Query r ''code'' \<noteq> []")
  case False
  then show ?thesis using assms refused by (auto simp: handleCallback_def Let_def cookie_def split: if_splits)
next
  case True
  show ?thesis
  proof (cases "fetch_identity (cb_oauth v) au pr (wq_Query r ''code'')")
    case None
    then show ?thesis using True assms refused by (auto simp: handleCallback_def Let_def cookie_def)
  next
    case (Some idn)
    then show ?thesis using True assms refused signed
      by (cases "sign_in v au pr idn s") (auto simp: handleCallback_def Let_def cookie_def split: if_splits)
  qed
qed

lemma handleCallback_wf:
  assumes "handleCallback v au pr r (a, m) = (resp, (a', m'))" "acct_wf (a, m)"
  shows "acct_wf (a', m') \<and> k_ids m \<subseteq> k_ids m' \<and> user_ids a \<subseteq> user_ids a'"
proof -
  obtain w cs where resp: "resp = (w, cs)" by (cases resp)
  show ?thesis using assms(1) unfolding resp
  proof (cases rule: handleCallback_cases)
    case (refused st e)
    then show ?thesis using assms(2) by simp
  next
    case (signed idn cs1)
    show ?thesis by (rule sign_in_cases [OF signed(6) assms(2)]) simp_all
  qed
qed

lemma handleLogout_wf: "acct_wf (a, p) \<Longrightarrow> acct_wf (snd (handleLogout sha au now r a), p)"
proof -
  assume w: "acct_wf (a, p)"
  have "fst ` ran ((sessions a)(h := None)) \<subseteq> fst ` ran (sessions a)" for h by (auto simp: ran_def)
  then have "fst ` ran ((sessions a)(h := None)) \<subseteq> user_ids a" for h
    by (rule order_trans) (use w in \<open>simp add: acct_wf_def refs_wf_def\<close>)
  then show ?thesis using w
    by (auto simp: handleLogout_def acct_wf_def refs_wf_def uniq_wf_def user_ids_def split: option.split)
qed

lemma userForProviderToken_ids: "userForProviderToken a raw = Some uid \<Longrightarrow> uid \<in> user_ids a \<and> user_tokens a uid = Some (trim_space raw)"
  by (auto simp: userForProviderToken_def user_ids_def dest!: find_SomeD)

lemma LinkProviderDevice_wf:
  assumes "acct_wf (a, p)"
  shows "acct_wf (LinkProviderDevice now raw pk a, p)"
proof (cases "userForProviderToken a raw")
  case None
  then show ?thesis using assms by (simp add: LinkProviderDevice_def)
next
  case (Some uid)
  note u = userForProviderToken_ids [OF Some]
  define g where "g = (\<lambda>o' :: owner_row. if o_pk o' = pk then o'\<lparr>o_user := uid, o_seen := now\<rparr> else o')"
  let ?os = "provider_owners a"
  show ?thesis
  proof (cases "list_ex (\<lambda>o'. o_pk o' = pk) ?os")
    case True
    then have l: "LinkProviderDevice now raw pk a = a\<lparr>provider_owners := map g ?os\<rparr>"
      using Some by (simp add: LinkProviderDevice_def g_def)
    have m: "map o_pk (map g ?os) = map o_pk ?os" by (simp add: g_def)
    have "o_user ` set (map g ?os) \<subseteq> insert uid (o_user ` set ?os)" by (auto simp: g_def)
    moreover have "o_user ` set ?os \<subseteq> user_ids a" using assms by (simp add: acct_wf_def refs_wf_def)
    ultimately have "o_user ` set (map g ?os) \<subseteq> user_ids a" using u by blast
    moreover have "distinct (map o_pk (map g ?os))" unfolding m using assms by (simp add: acct_wf_def uniq_wf_def)
    ultimately show ?thesis using assms unfolding l
      by (simp add: acct_wf_def refs_wf_def uniq_wf_def user_ids_def)
  next
    case False
    then show ?thesis using Some u assms
      by (auto simp: LinkProviderDevice_def acct_wf_def refs_wf_def uniq_wf_def user_ids_def list_ex_iff)
  qed
qed

lemma CreatePairCode_cases:
  assumes "CreatePairCode sha b now now' uid a = (res, a')"
  obtains (none) "res = None" "a' = a"
  | (some) code where "res = Some (code, now + PairCodeTTL)" "uid \<in> user_ids a"
      "hashPairCode sha code \<notin> pc_hash ` set (pairing_codes a)" "users a' = users a"
      "a' = a\<lparr>pairing_codes := filter (\<lambda>c. \<not> pc_created c < now' - pairCodeMaxAge) (pairing_codes a @
         [\<lparr>pc_hash = hashPairCode sha code, pc_user = uid, pc_created = now', pc_expires = now + PairCodeTTL, pc_used = None\<rparr>])\<rparr>"
proof (cases "newPairCode b")
  case None
  then show ?thesis using assms none by (simp add: CreatePairCode_def)
next
  case (Some code)
  show ?thesis
  proof (cases "list_ex (\<lambda>c. pc_hash c = hashPairCode sha code) (pairing_codes a) \<or> find_user uid a = None")
    case True
    then show ?thesis using assms none Some by (auto simp: CreatePairCode_def Let_def)
  next
    case False
    then have "uid \<in> user_ids a" "hashPairCode sha code \<notin> pc_hash ` set (pairing_codes a)"
      using find_user_None [of uid a] by (auto simp: list_ex_iff)
    moreover have "res = Some (code, now + PairCodeTTL) \<and> a' = a\<lparr>pairing_codes := filter (\<lambda>c. \<not> pc_created c < now' - pairCodeMaxAge) (pairing_codes a @
         [\<lparr>pc_hash = hashPairCode sha code, pc_user = uid, pc_created = now', pc_expires = now + PairCodeTTL, pc_used = None\<rparr>])\<rparr>"
      using assms Some False unfolding CreatePairCode_def by (simp add: Let_def)
    ultimately show ?thesis using some by simp
  qed
qed

lemma pairing_wf:
  assumes "acct_wf (a, p)" "pc_user ` set cs \<subseteq> user_ids a" "distinct (map pc_hash cs)"
  shows "acct_wf (a\<lparr>pairing_codes := cs\<rparr>, p)"
  using assms by (simp add: acct_wf_def refs_wf_def uniq_wf_def user_ids_def)

lemma CreatePairCode_wf:
  assumes "CreatePairCode sha b now now' uid a = (res, a')" "acct_wf (a, p)"
  shows "acct_wf (a', p)"
  using assms(1)
proof (cases rule: CreatePairCode_cases)
  case none
  then show ?thesis using assms(2) by simp
next
  case (some code)
  show ?thesis unfolding some(5)
    by (rule pairing_wf [OF assms(2)])
      (use assms(2) some(2,3) in \<open>auto simp: acct_wf_def refs_wf_def uniq_wf_def distinct_map_filter\<close>)
qed

text \<open>The table after a code was taken: that row is used, the others are as before.\<close>

lemma RedeemPairCode_cases:
  assumes "RedeemPairCode sha now code a = (res, a')"
  obtains (bad) "res = Inl ErrPairCode" "a' = a"
  | (hit) c where "c \<in> set (pairing_codes a)" "live_code now (hashPairCode sha code) c"
      "a' = a\<lparr>pairing_codes := map (\<lambda>c. if live_code now (hashPairCode sha code) c then c\<lparr>pc_used := Some now\<rparr> else c) (pairing_codes a)\<rparr>"
      "case res of Inl e \<Rightarrow> e = NoProviderToken | Inr (t, em) \<Rightarrow> user_tokens a (pc_user c) = Some t \<and> t \<noteq> []"
proof (cases "length (NormalizePairCode code) \<noteq> pairCodeLen \<or> find (live_code now (hashPairCode sha code)) (pairing_codes a) = None")
  case True
  then have "res = Inl ErrPairCode \<and> a' = a"
    using assms unfolding RedeemPairCode_def Let_def by (cases "length (NormalizePairCode code) = pairCodeLen") auto
  then show ?thesis using bad by simp
next
  case False
  then obtain c where c: "find (live_code now (hashPairCode sha code)) (pairing_codes a) = Some c" by auto
  from False c have "a' = a\<lparr>pairing_codes := map (\<lambda>c. if live_code now (hashPairCode sha code) c then c\<lparr>pc_used := Some now\<rparr> else c) (pairing_codes a)\<rparr>
    \<and> (case res of Inl e \<Rightarrow> e = NoProviderToken | Inr (t, em) \<Rightarrow> user_tokens a (pc_user c) = Some t \<and> t \<noteq> [])"
    using assms by (cases "user_tokens a (pc_user c)")
      (auto simp: RedeemPairCode_def Let_def providerTokenForUser_def split: if_splits)
  then show ?thesis using hit find_SomeD [OF c] by blast
qed

lemma RedeemPairCode_wf:
  assumes "RedeemPairCode sha now code a = (res, a')" "acct_wf (a, p)"
  shows "acct_wf (a', p)"
  using assms(1)
proof (cases rule: RedeemPairCode_cases)
  case bad
  then show ?thesis using assms(2) by simp
next
  case (hit c)
  let ?f = "\<lambda>c. if live_code now (hashPairCode sha code) c then c\<lparr>pc_used := Some now\<rparr> else c"
  have m: "map pc_hash (map ?f cs) = map pc_hash cs" "map pc_user (map ?f cs) = map pc_user cs" for cs by simp_all
  from arg_cong [OF m(2), of set] have "pc_user ` set (map ?f cs) = pc_user ` set cs" for cs by (metis list.set_map m(2))
  then show ?thesis unfolding hit(3)
    by (intro pairing_wf [OF assms(2)]) (use assms(2) in \<open>simp_all only: m acct_wf_def refs_wf_def uniq_wf_def prod.case fst_conv\<close>)
qed

lemma set_code_cases:
  assumes "set_code uid c a = Some (b, a')"
  obtains (kept) "b = False" "a' = a"
  | (minted) u where "b = True" "find_user uid a = Some u" "u_code u = None" "\<forall>v \<in> set (users a). u_code v \<noteq> Some c"
      "a' = upd_user uid (\<lambda>u. u\<lparr>u_code := Some c\<rparr>) a"
proof (cases "find_user uid a")
  case None
  then show ?thesis using assms kept by (simp add: set_code_def)
next
  case (Some u)
  show ?thesis
  proof (cases "u_code u")
    case None
    with Some assms have "\<not> list_ex (\<lambda>v. u_code v = Some c) (users a)" "b = True" "a' = upd_user uid (\<lambda>u. u\<lparr>u_code := Some c\<rparr>) a"
      by (auto simp: set_code_def split: if_splits)
    then show ?thesis using minted [of u] Some None by (auto simp: list_ex_iff)
  next
    case c: (Some x)
    then show ?thesis using assms kept Some by (simp add: set_code_def)
  qed
qed

lemma acct_wf_users:
  assumes "acct_wf (a, p)" "users_wf (users (upd_user i f a))" "\<And>u. u_id (f u) = u_id u"
  shows "acct_wf (upd_user i f a, p)"
proof -
  have "refs_wf (upd_user i f a)"
    using assms(1) user_ids_upd [of f i a] assms(3) by (simp add: acct_wf_def refs_wf_def) (simp add: upd_user_def)
  then show ?thesis using assms(1,2) by (simp add: acct_wf_def uniq_wf_def) (simp add: upd_user_def)
qed

lemma set_code_wf:
  assumes "set_code uid c a = Some (b, a')" "acct_wf (a, p)"
  shows "acct_wf (a', p)"
  using assms(1)
proof (cases rule: set_code_cases)
  case kept
  then show ?thesis using assms(2) by simp
next
  case (minted u)
  let ?g = "\<lambda>u. if u_id u = uid then u\<lparr>u_code := Some c\<rparr> else u"
  have "users_wf (map ?g (users a))"
  proof (rule users_wf_map)
    show "users_wf (users a)" using assms(2) by (simp add: acct_wf_def)
    show "u_code (?g w) = u_code w \<or> (\<forall>v \<in> set (users a). u_id v \<noteq> u_id w \<longrightarrow> u_code (?g v) \<noteq> u_code (?g w))"
      if "w \<in> set (users a)" for w
      using minted(4) by simp
  qed (simp_all add: low_email_def)
  then show ?thesis unfolding minted(5) by (intro acct_wf_users [OF assms(2)]) (simp_all add: users_upd)
qed

lemma ClaimReferral_cases:
  assumes "ClaimReferral uid code a = (b, a')"
  obtains (refused) "b = False" "a' = a"
  | (claimed) ref where "ref \<in> set (users a)" "u_code ref = Some (to_lower (trim_space code))" "u_id ref \<noteq> uid"
      "b = list_ex (\<lambda>u. u_id u = uid \<and> u_by u = []) (users a)"
      "a' = upd_user uid (\<lambda>u. if u_by u = [] then u\<lparr>u_by := u_id ref\<rparr> else u) a"
proof (cases "to_lower (trim_space code) = []")
  case True
  then show ?thesis using assms refused by (simp add: ClaimReferral_def)
next
  case False
  show ?thesis
  proof (cases "find (\<lambda>u. u_code u = Some (to_lower (trim_space code))) (users a)")
    case None
    then show ?thesis using assms refused by (simp add: ClaimReferral_def Let_def split: if_splits)
  next
    case (Some ref)
    note f = find_SomeD [OF Some]
    show ?thesis
    proof (cases "u_id ref = uid")
      case True
      then show ?thesis using assms refused Some False by (simp add: ClaimReferral_def Let_def)
    next
      case ne: False
      then show ?thesis using claimed [of ref] f assms Some False by (simp add: ClaimReferral_def Let_def)
    qed
  qed
qed

lemma ClaimReferral_wf:
  assumes "ClaimReferral uid code a = (b, a')" "acct_wf (a, p)"
  shows "acct_wf (a', p)"
  using assms(1)
proof (cases rule: ClaimReferral_cases)
  case refused
  then show ?thesis using assms(2) by simp
next
  case (claimed ref)
  let ?f = "\<lambda>u. if u_by u = [] then u\<lparr>u_by := u_id ref\<rparr> else u"
  have "users_wf (map (\<lambda>u. if u_id u = uid then ?f u else u) (users a))"
    by (rule users_wf_map) (use assms(2) claimed(1,3) in \<open>auto simp: acct_wf_def low_email_def\<close>)
  then show ?thesis unfolding claimed(5) by (intro acct_wf_users [OF assms(2)]) (simp_all add: users_upd)
qed

lemma SetProfile_cases: "SetProfile uid n oi a = Some a' \<Longrightarrow> \<exists>d. a' = upd_user uid (\<lambda>u. u\<lparr>u_display := d, u_optin := oi\<rparr>) a"
  by (auto simp: SetProfile_def Let_def split: if_splits)

lemma SetProfile_wf: "SetProfile uid n oi a = Some a' \<Longrightarrow> acct_wf (a, p) \<Longrightarrow> acct_wf (a', p)"
  using SetProfile_cases [of uid n oi a a'] by (auto simp: low_email_def intro!: acct_wf_upd_user)

subsection \<open>Runs\<close>

text \<open>The events that matter: a code minted for an account at a time, a code redeemed for a token at a
  time, and a claim that was applied.\<close>

datatype acct_ev = Minted string string int | Paired string string int | Claimed string string

text \<open>Other packages change the main store but never drop a consumer key. Reading a referral code
  changes the tables only through \<open>set_code\<close>.\<close>

inductive acct_run :: "(string \<Rightarrow> string) \<Rightarrow> acct_ev list \<Rightarrow> accounts \<times> PG \<Rightarrow> bool" for sha where
  Start: "acct_run sha [] (empty_accounts, p)"
| Main: "acct_run sha tr (a, p) \<Longrightarrow> k_ids p \<subseteq> k_ids p' \<Longrightarrow> acct_run sha tr (a, p')"
| Callback: "acct_run sha tr s \<Longrightarrow> cb_sha256 v = sha \<Longrightarrow> handleCallback v au pr r s = (resp, s') \<Longrightarrow> acct_run sha tr s'"
| Logout: "acct_run sha tr (a, p) \<Longrightarrow> handleLogout sha au now r a = (ck, a') \<Longrightarrow> acct_run sha tr (a', p)"
| Link: "acct_run sha tr (a, p) \<Longrightarrow> acct_run sha tr (LinkProviderDevice now raw pk a, p)"
| Mint: "acct_run sha tr (a, p) \<Longrightarrow> CreatePairCode sha b now now' uid a = (res, a') \<Longrightarrow>
    acct_run sha (tr @ (case res of None \<Rightarrow> [] | Some (code, _) \<Rightarrow> [Minted code uid now])) (a', p)"
| Redeem: "acct_run sha tr (a, p) \<Longrightarrow> RedeemPairCode sha now code a = (res, a') \<Longrightarrow>
    acct_run sha (tr @ (case res of Inl _ \<Rightarrow> [] | Inr (token, _) \<Rightarrow> [Paired code token now])) (a', p)"
| Code: "acct_run sha tr (a, p) \<Longrightarrow> set_code uid c a = Some (b, a') \<Longrightarrow> acct_run sha tr (a', p)"
| Claim: "acct_run sha tr (a, p) \<Longrightarrow> ClaimReferral uid code a = (b, a') \<Longrightarrow>
    acct_run sha (tr @ (if b then [Claimed uid code] else [])) (a', p)"
| Profile: "acct_run sha tr (a, p) \<Longrightarrow> SetProfile uid n oi a = Some a' \<Longrightarrow> acct_run sha tr (a', p)"

lemma acct_run_wf: "acct_run sha tr s \<Longrightarrow> acct_wf s"
proof (induction rule: acct_run.induct)
  case (Start p)
  show ?case by (simp add: wf_defs empty_accounts_def)
next
  case (Main tr a p p')
  then show ?case by (auto simp: acct_wf_def uniq_wf_def)
next
  case (Callback tr s v au pr r resp s')
  then show ?case by (cases s; cases s') (simp add: handleCallback_wf)
next
  case (Logout tr a p au now r ck a')
  then show ?case using handleLogout_wf [of a p sha au now r] by simp
qed (auto intro: LinkProviderDevice_wf CreatePairCode_wf RedeemPairCode_wf set_code_wf ClaimReferral_wf SetProfile_wf)

subsection \<open>What no operation takes back\<close>

text \<open>An account stays, its referral code and its referrer stay once set, a provider token stays.\<close>

definition keeps :: "accounts \<Rightarrow> accounts \<Rightarrow> bool" where
  "keeps a a' \<longleftrightarrow> (\<forall>i u. find_user i a = Some u \<longrightarrow> (\<exists>u'. find_user i a' = Some u' \<and>
      (u_code u \<noteq> None \<longrightarrow> u_code u' = u_code u) \<and> (u_by u \<noteq> [] \<longrightarrow> u_by u' = u_by u))) \<and>
     user_tokens a \<subseteq>\<^sub>m user_tokens a'"

lemma keeps_refl [simp]: "keeps a a"
  by (simp add: keeps_def)

lemma keeps_trans: "keeps a b \<Longrightarrow> keeps b c \<Longrightarrow> keeps a c"
proof -
  assume ab: "keeps a b" and bc: "keeps b c"
  have "\<exists>w. find_user i c = Some w \<and> (u_code u \<noteq> None \<longrightarrow> u_code w = u_code u) \<and> (u_by u \<noteq> [] \<longrightarrow> u_by w = u_by u)"
    if "find_user i a = Some u" for i u
  proof -
    from ab that obtain v where v: "find_user i b = Some v" "u_code u \<noteq> None \<longrightarrow> u_code v = u_code u" "u_by u \<noteq> [] \<longrightarrow> u_by v = u_by u"
      unfolding keeps_def by blast
    from bc v(1) obtain w where "find_user i c = Some w" "u_code v \<noteq> None \<longrightarrow> u_code w = u_code v" "u_by v \<noteq> [] \<longrightarrow> u_by w = u_by v"
      unfolding keeps_def by blast
    then show ?thesis using v by (intro exI [of _ w]) simp
  qed
  moreover have "user_tokens a \<subseteq>\<^sub>m user_tokens c" using ab bc unfolding keeps_def by (meson map_le_trans)
  ultimately show ?thesis unfolding keeps_def by blast
qed

lemma upd_user_pairing [simp]: "pairing_codes (upd_user i f a) = pairing_codes a" "user_tokens (upd_user i f a) = user_tokens a"
  by (simp_all add: upd_user_def)

lemma keeps_users: "users a' = users a \<Longrightarrow> user_tokens a \<subseteq>\<^sub>m user_tokens a' \<Longrightarrow> keeps a a'"
  unfolding keeps_def find_user_def by simp

lemma keeps_upd:
  assumes "\<And>u. u_id (f u) = u_id u" "\<And>u. u_code u \<noteq> None \<Longrightarrow> find_user i a = Some u \<Longrightarrow> u_code (f u) = u_code u"
    "\<And>u. u_by u \<noteq> [] \<Longrightarrow> u_by (f u) = u_by u"
  shows "keeps a (upd_user i f a)"
proof -
  have "\<exists>u'. find_user j (upd_user i f a) = Some u' \<and> (u_code u \<noteq> None \<longrightarrow> u_code u' = u_code u) \<and> (u_by u \<noteq> [] \<longrightarrow> u_by u' = u_by u)"
    if "find_user j a = Some u" for j u
  proof (cases "j = i")
    case True
    then show ?thesis using that assms(2) [of u] assms(3) [of u] find_user_Some [OF that]
      by (cases "u_code u") (simp_all add: find_user_upd [OF assms(1)])
  next
    case False
    then show ?thesis using that find_user_Some [OF that] by (simp add: find_user_upd [OF assms(1)])
  qed
  then show ?thesis by (simp add: keeps_def)
qed

lemma insert_user_keeps:
  assumes "insert_user now uid idn a = Some a'"
  shows "keeps a a' \<and> pairing_codes a' = pairing_codes a"
proof -
  have c: "\<exists>x. a' = a\<lparr>users := users a @ [x]\<rparr>" using assms by (auto simp: insert_user_def split: if_splits)
  then obtain x where x: "a' = a\<lparr>users := users a @ [x]\<rparr>" ..
  have "find P us = Some u \<Longrightarrow> find P (us @ [x]) = Some u" for P us and u :: user_row by (induction us) auto
  then have "find_user i a = Some u \<Longrightarrow> find_user i a' = Some u" for i u by (simp add: find_user_def x)
  then show ?thesis by (simp add: keeps_def) (simp add: x)
qed

lemma insert_identity_keeps:
  assumes "insert_identity pr i uid a = Some a'"
  shows "keeps a a' \<and> pairing_codes a' = pairing_codes a"
proof -
  have "a' = a\<lparr>identities := (identities a)((pr, i) \<mapsto> uid)\<rparr>" using assms by (auto simp: insert_identity_def split: if_splits)
  then show ?thesis by (simp add: keeps_users)
qed

lemma upsertUser_keeps:
  assumes "upsertUser now uuid pr idn a = Some (u, a')"
  shows "keeps a a' \<and> pairing_codes a' = pairing_codes a"
proof (cases "identities a (pr, id_ID idn)")
  case (Some uid)
  then have "a' = upd_user uid (\<lambda>u. u\<lparr>u_prof := (u_prof u)\<lparr>us_Name := id_Name idn, us_AvatarURL := id_Avatar idn\<rparr>\<rparr>) a"
    using assms by (auto simp: upsertUser_def split: if_splits)
  then show ?thesis by (simp add: keeps_upd)
next
  case None
  then obtain uid where "link_identity now uuid pr idn a = Some (uid, a')"
    using assms by (auto simp: upsertUser_def split: option.splits if_splits)
  then show ?thesis
    by (cases rule: link_identity_cases) (use insert_identity_keeps insert_user_keeps keeps_trans in \<open>metis\<close>)+
qed

lemma ensureUserCredentials_keeps:
  assumes "ensureUserCredentials sha b b' now u (a, p) = (a', p')"
  shows "keeps a a' \<and> pairing_codes a' = pairing_codes a"
proof (cases "mint_key sha b now u (a, p)")
  case (Inl e)
  then show ?thesis using assms by (simp add: ensureUserCredentials_def)
next
  case (Inr s)
  obtain a1 p1 where s: "s = (a1, p1)" by (cases s)
  have "users a1 = users a \<and> user_tokens a1 = user_tokens a \<and> pairing_codes a1 = pairing_codes a"
    using Inr s by (auto simp: mint_key_def split: option.splits sum.splits)
  moreover have "a' = mint_token b' u a1" using assms Inr s by (auto simp: ensureUserCredentials_def)
  moreover have "users (mint_token b' u a1) = users a1 \<and> user_tokens a1 \<subseteq>\<^sub>m user_tokens (mint_token b' u a1) \<and>
      pairing_codes (mint_token b' u a1) = pairing_codes a1"
    by (auto simp: mint_token_def Let_def map_le_def)
  ultimately show ?thesis using keeps_users [of a' a] by simp
qed

lemma sign_in_keeps:
  assumes "sign_in v au pr idn (a, m) = (resp, (a', m'))"
  shows "keeps a a' \<and> pairing_codes a' = pairing_codes a"
proof (cases "upsertUser (cb_clk v 1) (cb_uuid v) pr idn a")
  case None
  then show ?thesis using assms unfolding sign_in_def prod.case None option.case by simp
next
  case (Some x)
  obtain u a1 where x: "x = (u, a1)" by (cases x)
  obtain a2 m2 where e: "ensureUserCredentials (cb_sha256 v) (cb_random v 0) (cb_random v 1) (cb_clk v 2) u (a1, m) = (a2, m2)"
    by (cases "ensureUserCredentials (cb_sha256 v) (cb_random v 0) (cb_random v 1) (cb_clk v 2) u (a1, m)")
  have k: "keeps a a2 \<and> pairing_codes a2 = pairing_codes a"
    using upsertUser_keeps [OF Some [unfolded x]] ensureUserCredentials_keeps [OF e] keeps_trans by metis
  show ?thesis
  proof (cases "createSession (cb_sha256 v) (cb_clk v 3) (auth_token (cb_random v 2)) (us_ID u) a2")
    case None
    then show ?thesis using k assms unfolding sign_in_def prod.case Some x option.case e None Let_def by simp
  next
    case c: (Some a3)
    then have "a' = a3" using assms unfolding sign_in_def prod.case Some x option.case e c Let_def by simp
    moreover have "users a3 = users a2 \<and> user_tokens a3 = user_tokens a2 \<and> pairing_codes a3 = pairing_codes a2"
      using c by (auto simp: createSession_def split: if_splits)
    ultimately show ?thesis using k keeps_users [of a3 a2] keeps_trans by auto
  qed
qed

lemma handleCallback_keeps:
  assumes "handleCallback v au pr r (a, m) = (resp, (a', m'))"
  shows "keeps a a' \<and> pairing_codes a' = pairing_codes a"
proof -
  obtain w cs where resp: "resp = (w, cs)" by (cases resp)
  show ?thesis using assms unfolding resp
    by (cases rule: handleCallback_cases) (use sign_in_keeps in auto)
qed

lemma set_code_keeps:
  assumes "set_code uid c a = Some (b, a')"
  shows "keeps a a' \<and> pairing_codes a' = pairing_codes a"
  using assms
proof (cases rule: set_code_cases)
  case kept
  then show ?thesis by simp
next
  case (minted u)
  have "keeps a (upd_user uid (\<lambda>u. u\<lparr>u_code := Some c\<rparr>) a)" by (rule keeps_upd) (use minted in auto)
  then show ?thesis by (simp add: minted(5))
qed

lemma ClaimReferral_keeps:
  assumes "ClaimReferral uid code a = (b, a')"
  shows "keeps a a' \<and> pairing_codes a' = pairing_codes a"
  using assms
proof (cases rule: ClaimReferral_cases)
  case refused
  then show ?thesis by simp
next
  case (claimed ref)
  have "keeps a (upd_user uid (\<lambda>u. if u_by u = [] then u\<lparr>u_by := u_id ref\<rparr> else u) a)" by (rule keeps_upd) simp_all
  then show ?thesis by (simp add: claimed(5))
qed

subsection \<open>Accounts, sessions\<close>

text \<open>Whose session a request carries.\<close>

definition session_id :: "(string \<Rightarrow> string) \<Rightarrow> int \<Rightarrow> web_req \<Rightarrow> accounts \<Rightarrow> string option" where
  "session_id sha now r a = map_option us_ID (SessionUser sha now r a)"

lemma session_id_row:
  assumes "acct_wf (a, p)"
  shows "session_id sha now r a = (case cookie_value r sessionCookie of None \<Rightarrow> None
     | Some v \<Rightarrow> (case sessions a (hashToken sha v) of None \<Rightarrow> None
       | Some (uid, expires) \<Rightarrow> if expires > now then Some uid else None))"
proof -
  have "\<exists>u. find_user uid a = Some u" if "sessions a h = Some (uid, e)" for h uid e
  proof -
    have "uid \<in> fst ` ran (sessions a)" using that by (force simp: ran_def)
    then have "uid \<in> user_ids a" using assms by (auto simp: acct_wf_def refs_wf_def)
    then show ?thesis using find_user_None [of uid a] by auto
  qed
  then show ?thesis
    by (fastforce simp: session_id_def SessionUser_def dest: find_user_Some split: option.split)
qed

lemma KeyID_of_session: "KeyIDForRequest sha now a r = (k, True) \<Longrightarrow>
    \<exists>uid. session_id sha now r a = Some uid \<and> user_api_keys a uid = Some k"
  by (auto simp: KeyIDForRequest_def session_id_def keyIDForUser_def split: option.splits)

text \<open>C34: over any sequence of sign-ins, sign-outs, device links, pairings and referrals the account
  tables stay consistent. An address belongs to one account, whatever its case; a consumer key
  reached through a session is a key of the main store and of one account only, so two accounts
  never share a balance; a provider token names one account; a device has one owner, who exists;
  and nobody is their own referrer.\<close>

theorem accounts_consistent:
  assumes "acct_run sha tr (a, p)"
  shows "(\<forall>u v. u \<in> set (users a) \<and> v \<in> set (users a) \<and> (low_email u = low_email v \<or> u_id u = u_id v) \<longrightarrow> u = v) \<and>
    (\<forall>now now' r r' k. KeyIDForRequest sha now a r = (k, True) \<and> KeyIDForRequest sha now' a r' = (k, True) \<longrightarrow>
       k \<in> k_ids p \<and> session_id sha now r a = session_id sha now' r' a) \<and>
    (\<forall>raw uid. userForProviderToken a raw = Some uid \<longleftrightarrow> user_tokens a uid = Some (trim_space raw)) \<and>
    distinct (map o_pk (provider_owners a)) \<and> (\<forall>o' \<in> set (provider_owners a). OwnersByStaticPK a (o_pk o') \<noteq> None) \<and>
    (\<forall>u \<in> set (users a). u_by u \<noteq> u_id u)"
proof -
  have w: "acct_wf (a, p)" by (rule acct_run_wf [OF assms])
  then have uw: "users_wf (users a)" and rw: "refs_wf a" and xw: "uniq_wf (a, p)" by (simp_all add: acct_wf_def)
  have inj: "inj_on u_id (set (users a))" "inj_on low_email (set (users a))"
    using uw by (auto simp: users_wf_def distinct_map)
  have emails: "\<forall>u v. u \<in> set (users a) \<and> v \<in> set (users a) \<and> (low_email u = low_email v \<or> u_id u = u_id v) \<longrightarrow> u = v"
    using inj by (auto dest: inj_onD)
  have keys: "k \<in> k_ids p \<and> session_id sha now r a = session_id sha now' r' a"
    if k: "KeyIDForRequest sha now a r = (k, True)" "KeyIDForRequest sha now' a r' = (k, True)" for now now' r r' k
  proof -
    obtain i j where ij: "session_id sha now r a = Some i" "user_api_keys a i = Some k"
      "session_id sha now' r' a = Some j" "user_api_keys a j = Some k"
      using KeyID_of_session [OF k(1)] KeyID_of_session [OF k(2)] by blast
    have inj: "inj_on (user_api_keys a) (dom (user_api_keys a))" and r: "ran (user_api_keys a) \<subseteq> k_ids p"
      using xw by (simp_all add: uniq_wf_def)
    have "i = j" by (rule inj_onD [OF inj]) (use ij in auto)
    then show ?thesis using ij ranI [of "user_api_keys a" i k] r by auto
  qed
  have toks: "userForProviderToken a raw = Some uid \<longleftrightarrow> user_tokens a uid = Some (trim_space raw)" for raw uid
  proof
    assume t: "user_tokens a uid = Some (trim_space raw)"
    then have "uid \<in> user_ids a" using rw by (auto simp: refs_wf_def)
    then obtain u where "u \<in> set (users a)" "u_id u = uid" by (auto simp: user_ids_def)
    then obtain v where v: "userForProviderToken a raw = Some v"
      using t by (cases "userForProviderToken a raw") (auto simp: userForProviderToken_def find_None_iff)
    have inj: "inj_on (user_tokens a) (dom (user_tokens a))" using xw by (simp add: uniq_wf_def)
    have "v = uid" by (rule inj_onD [OF inj]) (use userForProviderToken_ids [OF v] t in auto)
    with v show "userForProviderToken a raw = Some uid" by simp
  qed (use userForProviderToken_ids in auto)
  have owners: "OwnersByStaticPK a (o_pk x) \<noteq> None" if "x \<in> set (provider_owners a)" for x
  proof -
    have "o_user x \<in> user_ids a" using that rw by (auto simp: refs_wf_def)
    then obtain u where "find_user (o_user x) a = Some u" using find_user_None [of "o_user x" a] by auto
    then have "o_pk x \<in> fst ` set (concat (map (\<lambda>o'. case find_user (o_user o') a of None \<Rightarrow> []
        | Some u \<Rightarrow> [(o_pk o', (u_prof u)\<lparr>us_AvatarURL := []\<rparr>)]) (provider_owners a)))"
      using that by (auto intro!: bexI [of _ x] simp: image_iff)
    then show ?thesis unfolding OwnersByStaticPK_def map_of_eq_None_iff by simp
  qed
  have rest: "distinct (map o_pk (provider_owners a))" "\<forall>u \<in> set (users a). u_by u \<noteq> u_id u"
    using uw xw by (simp_all add: users_wf_def uniq_wf_def)
  have keys': "\<forall>now now' r r' k. KeyIDForRequest sha now a r = (k, True) \<and> KeyIDForRequest sha now' a r' = (k, True) \<longrightarrow>
      k \<in> k_ids p \<and> session_id sha now r a = session_id sha now' r' a" using keys by blast
  have toks': "\<forall>raw uid. userForProviderToken a raw = Some uid \<longleftrightarrow> user_tokens a uid = Some (trim_space raw)" using toks by blast
  have owners': "\<forall>o' \<in> set (provider_owners a). OwnersByStaticPK a (o_pk o') \<noteq> None" using owners by blast
  show ?thesis by (rule conjI [OF emails conjI [OF keys' conjI [OF toks' conjI [OF rest(1) conjI [OF owners' rest(2)]]]]])
qed

text \<open>C35: a sign-in that succeeds carried the state of the browser's own cookie and a code for which the
  identity provider named the person; its cookie is a session of that person's account (the account
  of the identity, or else of its address) until thirty days have passed or it signs out. Sessions
  of other browsers, before and after, are whose they were.\<close>

theorem sign_in_session:
  assumes run: "acct_run (cb_sha256 v) tr (a, m)" "cb_random v 2 \<noteq> []"
    and cb: "handleCallback v au pr r (a, m) = ((Redirect url, cs), (a', m'))"
  shows "let raw = auth_token (cb_random v 2); sha = cb_sha256 v in
    \<exists>idn u. wq_Query r ''state'' \<noteq> [] \<and> wq_Cookie r stateCookie = Some (wq_Query r ''state'') \<and> has_prov au pr \<and>
     fetch_identity (cb_oauth v) au pr (wq_Query r ''code'') = Some idn \<and>
     (case identities a (pr, id_ID idn) of Some uid \<Rightarrow> us_ID u = uid
      | None \<Rightarrow> to_lower (us_Email u) = to_lower (id_Email idn)) \<and>
     map ck_Value cs = [[], raw] \<and>
     (\<forall>now now' r' au'. wq_Cookie r' sessionCookie = Some raw \<longrightarrow>
       SessionUser sha now r' a' = (if now < cb_clk v 3 + sessionTTL then Some u else None) \<and>
       SessionUser sha now' r' (snd (handleLogout sha au' now r' a')) = None) \<and>
     (\<forall>now r'. (case wq_Cookie r' sessionCookie of None \<Rightarrow> True | Some x \<Rightarrow> hashToken sha x \<noteq> hashToken sha raw) \<longrightarrow>
       session_id sha now r' a' = session_id sha now r' a)"
proof -
  have w: "acct_wf (a, m)" by (rule acct_run_wf [OF run(1)])
  have w': "acct_wf (a', m')" using handleCallback_wf [OF cb w] by simp
  define raw where "raw = auth_token (cb_random v 2)"
  have ne: "raw \<noteq> []" unfolding raw_def auth_token_def
    using run(2) length_hex_encode [of "cb_random v 2"] by (metis length_0_conv mult_eq_0_iff zero_neq_numeral)
  show ?thesis using cb
  proof (cases rule: handleCallback_cases)
    case (refused st e)
    then show ?thesis by simp
  next
    case (signed idn cs1)
    show ?thesis
    proof (rule sign_in_cases [OF signed(6) w])
      assume "\<exists>st e. Redirect url = HttpError st e"
      then show ?thesis by simp
    next
      fix u
      assume u: "cs1 = [cookie au (cb_clk v 4) sessionCookie (auth_token (cb_random v 2)) sessionTTL]"
        "sessions a' = (sessions a)(hashToken (cb_sha256 v) (auth_token (cb_random v 2)) \<mapsto> (us_ID u, cb_clk v 3 + sessionTTL))"
        "map_option u_prof (find_user (us_ID u) a') = Some u"
        "case identities a (pr, id_ID idn) of Some uid \<Rightarrow> us_ID u = uid | None \<Rightarrow> to_lower (us_Email u) = to_lower (id_Email idn)"
      have c: "cookie_value r' sessionCookie = Some raw" if "wq_Cookie r' sessionCookie = Some raw" for r'
        using that ne by (simp add: cookie_value_def)
      have live: "SessionUser (cb_sha256 v) now r' a' = (if now < cb_clk v 3 + sessionTTL then Some u else None)"
        if "wq_Cookie r' sessionCookie = Some raw" for now r'
        using u(3) by (simp add: SessionUser_def c [OF that] u(2) raw_def)
      have dead: "SessionUser (cb_sha256 v) now' r' (snd (handleLogout (cb_sha256 v) au' now r' a')) = None"
        if "wq_Cookie r' sessionCookie = Some raw" for now now' r' au'
        by (simp add: SessionUser_def handleLogout_def c [OF that])
      have others: "session_id (cb_sha256 v) now r' a' = session_id (cb_sha256 v) now r' a"
        if "case wq_Cookie r' sessionCookie of None \<Rightarrow> True | Some x \<Rightarrow> hashToken (cb_sha256 v) x \<noteq> hashToken (cb_sha256 v) raw" for now r'
        unfolding session_id_row [OF w] session_id_row [OF w']
        using that by (auto simp: cookie_value_def u(2) raw_def split: option.splits)
      have st: "wq_Query r ''state'' \<noteq> [] \<and> wq_Cookie r stateCookie = Some (wq_Query r ''state'')"
        using signed(3) by (auto simp: cookie_value_def split: option.splits if_splits)
      have vals: "map ck_Value cs = [[], raw]" unfolding signed(7) u(1) raw_def by (simp add: cookie_def)
      show ?thesis unfolding Let_def raw_def [symmetric]
        by (rule exI [of _ idn], rule exI [of _ u]) (use st signed(1,2) u(4) vals live dead others in simp)
    qed
  qed
qed

subsection \<open>Pairing\<close>

definition minted_as :: "(string \<Rightarrow> string) \<Rightarrow> string \<Rightarrow> acct_ev \<Rightarrow> bool" where
  "minted_as sha h e = (case e of Minted code _ _ \<Rightarrow> hashPairCode sha code = h | _ \<Rightarrow> False)"

definition paired_as :: "(string \<Rightarrow> string) \<Rightarrow> string \<Rightarrow> acct_ev \<Rightarrow> bool" where
  "paired_as sha h e = (case e of Paired code _ _ \<Rightarrow> hashPairCode sha code = h | _ \<Rightarrow> False)"

definition occurs :: "('e \<Rightarrow> bool) \<Rightarrow> 'e list \<Rightarrow> nat" where "occurs P tr = length (filter P tr)"

lemma occurs_append [simp]: "occurs P (xs @ ys) = occurs P xs + occurs P ys"
  by (simp add: occurs_def)

definition unused :: "string \<Rightarrow> pair_row \<Rightarrow> bool" where "unused h c = (pc_hash c = h \<and> pc_used c = None)"

text \<open>Each code in the table was minted; a code was taken at most as often as it was minted, minus the
  rows still to be taken; and whoever took one got the token of the account it was minted for.\<close>

definition pair_inv :: "(string \<Rightarrow> string) \<Rightarrow> acct_ev list \<Rightarrow> accounts \<Rightarrow> bool" where
  "pair_inv sha tr a \<longleftrightarrow>
     (\<forall>h. occurs (paired_as sha h) tr + occurs (unused h) (pairing_codes a) \<le> occurs (minted_as sha h) tr) \<and>
     (\<forall>c \<in> set (pairing_codes a). \<exists>code t. Minted code (pc_user c) t \<in> set tr \<and> hashPairCode sha code = pc_hash c \<and>
        pc_expires c = t + PairCodeTTL) \<and>
     (\<forall>code tok t. Paired code tok t \<in> set tr \<longrightarrow> (\<exists>code' uid t0. Minted code' uid t0 \<in> set tr \<and>
        hashPairCode sha code' = hashPairCode sha code \<and> t < t0 + PairCodeTTL \<and> user_tokens a uid = Some tok))"

lemma pair_inv_keeps:
  assumes "pair_inv sha tr a" "pairing_codes a' = pairing_codes a" "keeps a a'"
    "\<And>h. occurs (paired_as sha h) evs = 0" "\<And>code tok t. Paired code tok t \<notin> set evs"
  shows "pair_inv sha (tr @ evs) a'"
proof -
  have tok: "user_tokens a u = Some t \<Longrightarrow> user_tokens a' u = Some t" for u t
    using assms(3) unfolding keeps_def map_le_def by (metis domI)
  have "occurs (paired_as sha h) (tr @ evs) + occurs (unused h) (pairing_codes a') \<le> occurs (minted_as sha h) (tr @ evs)" for h
    using assms(1,2,4) unfolding pair_inv_def by (simp add: trans_le_add1)
  moreover have "\<exists>code t. Minted code (pc_user c) t \<in> set (tr @ evs) \<and> hashPairCode sha code = pc_hash c \<and> pc_expires c = t + PairCodeTTL"
    if "c \<in> set (pairing_codes a')" for c
  proof -
    have "c \<in> set (pairing_codes a)" using that assms(2) by simp
    then obtain cd t where "Minted cd (pc_user c) t \<in> set tr" "hashPairCode sha cd = pc_hash c" "pc_expires c = t + PairCodeTTL"
      using assms(1) unfolding pair_inv_def by blast
    then show ?thesis by auto
  qed
  moreover have "\<exists>code' uid t0. Minted code' uid t0 \<in> set (tr @ evs) \<and>
      hashPairCode sha code' = hashPairCode sha code \<and> t < t0 + PairCodeTTL \<and> user_tokens a' uid = Some tok"
    if "Paired code tok t \<in> set (tr @ evs)" for code tok t
  proof -
    have "Paired code tok t \<in> set tr" using that assms(5) by auto
    then obtain code' uid t0 where "Minted code' uid t0 \<in> set tr" "hashPairCode sha code' = hashPairCode sha code"
      "t < t0 + PairCodeTTL" "user_tokens a uid = Some tok"
      using assms(1) unfolding pair_inv_def by blast
    then show ?thesis using tok [of uid tok] by auto
  qed
  ultimately show ?thesis unfolding pair_inv_def by blast
qed

lemma occurs_filter_le: "occurs P (filter Q xs) \<le> occurs P xs"
  by (induction xs) (simp_all add: occurs_def)

lemma pair_inv_mint:
  assumes "pair_inv sha tr a" "CreatePairCode sha b now now' uid a = (res, a')"
  shows "pair_inv sha (tr @ (case res of None \<Rightarrow> [] | Some (code, _) \<Rightarrow> [Minted code uid now])) a'"
  using assms(2)
proof (cases rule: CreatePairCode_cases)
  case none
  then show ?thesis using assms(1) by simp
next
  case (some code)
  let ?h = "hashPairCode sha code"
  let ?row = "\<lparr>pc_hash = ?h, pc_user = uid, pc_created = now', pc_expires = now + PairCodeTTL, pc_used = None\<rparr>"
  let ?tr = "tr @ [Minted code uid now]"
  have pcs: "pairing_codes a' = filter (\<lambda>c. \<not> pc_created c < now' - pairCodeMaxAge) (pairing_codes a @ [?row])"
    and toks: "user_tokens a' = user_tokens a"
    by (simp_all add: some(5))
  have sub: "set (pairing_codes a') \<subseteq> insert ?row (set (pairing_codes a))" unfolding pcs by auto
  have "occurs (paired_as sha h) ?tr + occurs (unused h) (pairing_codes a') \<le> occurs (minted_as sha h) ?tr" for h
  proof -
    have "occurs (unused h) (pairing_codes a') \<le> occurs (unused h) (pairing_codes a) + (if h = ?h then 1 else 0)"
      unfolding pcs by (rule order_trans [OF occurs_filter_le]) (simp add: occurs_def unused_def)
    moreover have "occurs (paired_as sha h) tr + occurs (unused h) (pairing_codes a) \<le> occurs (minted_as sha h) tr"
      using assms(1) unfolding pair_inv_def by blast
    moreover have "occurs (paired_as sha h) [Minted code uid now] = 0"
      "occurs (minted_as sha h) [Minted code uid now] = (if h = ?h then 1 else 0)"
      by (auto simp: occurs_def paired_as_def minted_as_def)
    ultimately show ?thesis by simp
  qed
  moreover have "\<exists>code t. Minted code (pc_user c) t \<in> set ?tr \<and> hashPairCode sha code = pc_hash c \<and> pc_expires c = t + PairCodeTTL"
    if "c \<in> set (pairing_codes a')" for c
  proof (cases "c = ?row")
    case True
    then show ?thesis by auto
  next
    case False
    then have "c \<in> set (pairing_codes a)" using that sub by auto
    then obtain cd t where "Minted cd (pc_user c) t \<in> set tr" "hashPairCode sha cd = pc_hash c" "pc_expires c = t + PairCodeTTL"
      using assms(1) unfolding pair_inv_def by blast
    then show ?thesis by auto
  qed
  moreover have "\<exists>code' uid t0. Minted code' uid t0 \<in> set ?tr \<and>
      hashPairCode sha code' = hashPairCode sha cd \<and> t < t0 + PairCodeTTL \<and> user_tokens a' uid = Some tok"
    if "Paired cd tok t \<in> set ?tr" for cd tok t
  proof -
    have "Paired cd tok t \<in> set tr" using that by simp
    then obtain c' i t0 where "Minted c' i t0 \<in> set tr" "hashPairCode sha c' = hashPairCode sha cd"
      "t < t0 + PairCodeTTL" "user_tokens a i = Some tok"
      using assms(1) unfolding pair_inv_def by blast
    then show ?thesis unfolding toks by auto
  qed
  ultimately have "pair_inv sha ?tr a'" unfolding pair_inv_def by blast
  then show ?thesis by (simp add: some(1))
qed

definition take_code :: "int \<Rightarrow> string \<Rightarrow> pair_row \<Rightarrow> pair_row" where
  "take_code now h c = (if live_code now h c then c\<lparr>pc_used := Some now\<rparr> else c)"

lemma take_code_simps [simp]: "pc_hash (take_code now h c) = pc_hash c" "pc_user (take_code now h c) = pc_user c"
    "pc_expires (take_code now h c) = pc_expires c" "unused h' (take_code now h c) \<longleftrightarrow> unused h' c \<and> \<not> live_code now h c"
  by (auto simp: take_code_def unused_def)

lemma occurs_take_le: "occurs (unused h') (map (take_code now h) cs) \<le> occurs (unused h') cs"
  by (induction cs) (simp_all add: occurs_def)

lemma occurs_take_less:
  "c \<in> set cs \<Longrightarrow> live_code now h c \<Longrightarrow> occurs (unused h) (map (take_code now h) cs) < occurs (unused h) cs"
proof (induction cs)
  case (Cons x xs)
  have "occurs (unused h) (map (take_code now h) xs) \<le> occurs (unused h) xs" by (rule occurs_take_le)
  moreover have "live_code now h x \<Longrightarrow> unused h x" by (simp add: live_code_def unused_def)
  ultimately show ?case using Cons by (cases "x = c") (auto simp: occurs_def)
qed simp

lemma pair_inv_redeem:
  assumes "pair_inv sha tr a" "RedeemPairCode sha now code a = (res, a')"
  shows "pair_inv sha (tr @ (case res of Inl _ \<Rightarrow> [] | Inr (token, _) \<Rightarrow> [Paired code token now])) a'"
  using assms(2)
proof (cases rule: RedeemPairCode_cases)
  case bad
  then show ?thesis using assms(1) by simp
next
  case (hit c)
  let ?h = "hashPairCode sha code"
  let ?evs = "case res of Inl _ \<Rightarrow> [] | Inr (token, _) \<Rightarrow> [Paired code token now]"
  have pcs: "pairing_codes a' = map (take_code now ?h) (pairing_codes a)" and toks: "user_tokens a' = user_tokens a"
    by (simp_all add: hit(3) take_code_def [abs_def])
  obtain cd t where c: "Minted cd (pc_user c) t \<in> set tr" "hashPairCode sha cd = pc_hash c" "pc_expires c = t + PairCodeTTL"
    using assms(1) hit(1) unfolding pair_inv_def by blast
  have lc: "pc_hash c = ?h" "now < pc_expires c" using hit(2) by (simp_all add: live_code_def)
  have "occurs (paired_as sha h) (tr @ ?evs) + occurs (unused h) (pairing_codes a') \<le> occurs (minted_as sha h) (tr @ ?evs)" for h
  proof -
    have b: "occurs (paired_as sha h) tr + occurs (unused h) (pairing_codes a) \<le> occurs (minted_as sha h) tr"
      using assms(1) unfolding pair_inv_def by blast
    have e: "occurs (paired_as sha h) ?evs \<le> (if h = ?h then 1 else 0)"
      by (auto simp: occurs_def paired_as_def split: sum.split)
    show ?thesis
    proof (cases "h = ?h")
      case True
      then show ?thesis using b e occurs_take_less [OF hit(1,2)] by (simp add: pcs)
    next
      case False
      then show ?thesis using b e occurs_take_le [of h now ?h "pairing_codes a"] by (simp add: pcs)
    qed
  qed
  moreover have "\<exists>code t. Minted code (pc_user x) t \<in> set (tr @ ?evs) \<and> hashPairCode sha code = pc_hash x \<and> pc_expires x = t + PairCodeTTL"
    if x: "x \<in> set (pairing_codes a')" for x
  proof -
    obtain y where y: "y \<in> set (pairing_codes a)" "x = take_code now ?h y" using x unfolding pcs by auto
    then obtain cd t where "Minted cd (pc_user y) t \<in> set tr" "hashPairCode sha cd = pc_hash y" "pc_expires y = t + PairCodeTTL"
      using assms(1) unfolding pair_inv_def by blast
    then show ?thesis using y(2) by auto
  qed
  moreover have "\<exists>code' uid t0. Minted code' uid t0 \<in> set (tr @ ?evs) \<and>
      hashPairCode sha code' = hashPairCode sha k \<and> t' < t0 + PairCodeTTL \<and> user_tokens a' uid = Some tok"
    if p: "Paired k tok t' \<in> set (tr @ ?evs)" for k tok t'
  proof (cases "Paired k tok t' \<in> set tr")
    case True
    then obtain c' i t0 where "Minted c' i t0 \<in> set tr" "hashPairCode sha c' = hashPairCode sha k"
      "t' < t0 + PairCodeTTL" "user_tokens a i = Some tok"
      using assms(1) unfolding pair_inv_def by blast
    then show ?thesis unfolding toks by auto
  next
    case False
    then have "k = code \<and> t' = now \<and> (\<exists>em. res = Inr (tok, em))" using p by (auto split: sum.splits prod.splits)
    then have k: "k = code" "t' = now" "user_tokens a (pc_user c) = Some tok" using hit(4) by auto
    show ?thesis
      by (rule exI [of _ cd], rule exI [of _ "pc_user c"], rule exI [of _ t]) (use c lc k in \<open>simp add: toks\<close>)
  qed
  ultimately show ?thesis unfolding pair_inv_def by blast
qed

lemma LinkProviderDevice_keeps: "keeps a (LinkProviderDevice now raw pk a) \<and> pairing_codes (LinkProviderDevice now raw pk a) = pairing_codes a"
proof -
  have "users (LinkProviderDevice now raw pk a) = users a \<and> user_tokens (LinkProviderDevice now raw pk a) = user_tokens a \<and>
      pairing_codes (LinkProviderDevice now raw pk a) = pairing_codes a"
    by (simp add: LinkProviderDevice_def split: option.split)
  then show ?thesis by (simp add: keeps_users)
qed

lemma SetProfile_keeps: "SetProfile uid n oi a = Some a' \<Longrightarrow> keeps a a' \<and> pairing_codes a' = pairing_codes a"
  using SetProfile_cases [of uid n oi a a'] by (auto simp: keeps_upd)

lemma handleLogout_keeps: "keeps a (snd (handleLogout sha au now r a)) \<and> pairing_codes (snd (handleLogout sha au now r a)) = pairing_codes a"
proof -
  have "users (snd (handleLogout sha au now r a)) = users a \<and> user_tokens (snd (handleLogout sha au now r a)) = user_tokens a \<and>
      pairing_codes (snd (handleLogout sha au now r a)) = pairing_codes a"
    by (simp add: handleLogout_def split: option.split)
  then show ?thesis by (simp add: keeps_users)
qed

lemma acct_run_pairing: "acct_run sha tr s \<Longrightarrow> pair_inv sha tr (fst s)"
proof (induction rule: acct_run.induct)
  case (Start p)
  show ?case by (simp add: pair_inv_def empty_accounts_def occurs_def)
next
  case (Main tr a p p')
  then show ?case by simp
next
  case (Callback tr s v au pr r resp s')
  then show ?case using handleCallback_keeps [of v au pr r "fst s" "snd s" resp "fst s'" "snd s'"]
      pair_inv_keeps [of sha tr "fst s" "fst s'" "[]"] by (simp add: occurs_def)
next
  case (Logout tr a p au now r ck a')
  then show ?case using handleLogout_keeps [of a sha au now r] pair_inv_keeps [of sha tr a a' "[]"] by (simp add: occurs_def)
next
  case (Link tr a p now raw pk)
  then show ?case using LinkProviderDevice_keeps [of a now raw pk] pair_inv_keeps [of sha tr a _ "[]"] by (simp add: occurs_def)
next
  case (Mint tr a p b now now' uid res a')
  then show ?case using pair_inv_mint by simp
next
  case (Redeem tr a p now code res a')
  then show ?case using pair_inv_redeem by simp
next
  case (Code tr a p uid c b a')
  then show ?case using set_code_keeps [of uid c a b a'] pair_inv_keeps [of sha tr a a' "[]"] by (simp add: occurs_def)
next
  case (Claim tr a p uid code b a')
  then show ?case using ClaimReferral_keeps [of uid code a b a']
      pair_inv_keeps [of sha tr a a' "if b then [Claimed uid code] else []"] by (simp add: occurs_def paired_as_def)
next
  case (Profile tr a p uid n oi a')
  then show ?case using SetProfile_keeps [of uid n oi a a'] pair_inv_keeps [of sha tr a a' "[]"] by (simp add: occurs_def)
qed

text \<open>C36: pairing. Over any run of the package a code is redeemed at most as often as it was minted, so
  each minting gives one device at most; a redeemed code was minted for the account whose provider
  token the device receives, less than ten minutes before. (A code is what it hashes to, with case,
  spaces, dashes and underscores ignored.)\<close>

theorem pairing_once:
  assumes "acct_run sha tr (a, p)"
  shows "occurs (paired_as sha h) tr \<le> occurs (minted_as sha h) tr \<and>
    (\<forall>code tok t. Paired code tok t \<in> set tr \<longrightarrow> (\<exists>code' uid t0. Minted code' uid t0 \<in> set tr \<and>
       hashPairCode sha code' = hashPairCode sha code \<and> t < t0 + PairCodeTTL \<and> user_tokens a uid = Some tok))"
proof -
  have "pair_inv sha tr a" using acct_run_pairing [OF assms] by simp
  then show ?thesis unfolding pair_inv_def by (metis add_leD1)
qed

subsection \<open>Referrals\<close>

definition claimed_by :: "string \<Rightarrow> acct_ev \<Rightarrow> bool" where
  "claimed_by uid e = (case e of Claimed i _ \<Rightarrow> i = uid | _ \<Rightarrow> False)"

definition referral_of :: "accounts \<Rightarrow> string \<Rightarrow> string \<Rightarrow> bool" where
  "referral_of a uid code \<longleftrightarrow> (\<exists>u ref. find_user uid a = Some u \<and> u_by u \<noteq> [] \<and> u_by u \<noteq> uid \<and>
     find_user (u_by u) a = Some ref \<and> u_code ref = Some (to_lower (trim_space code)))"

definition ref_inv :: "acct_ev list \<Rightarrow> accounts \<Rightarrow> bool" where
  "ref_inv tr a \<longleftrightarrow> (\<forall>uid. occurs (claimed_by uid) tr \<le> 1) \<and> (\<forall>uid code. Claimed uid code \<in> set tr \<longrightarrow> referral_of a uid code)"

lemma referral_keeps: "referral_of a uid code \<Longrightarrow> keeps a a' \<Longrightarrow> referral_of a' uid code"
proof -
  assume r: "referral_of a uid code" and k: "keeps a a'"
  then obtain u ref where u: "find_user uid a = Some u" "u_by u \<noteq> []" "u_by u \<noteq> uid"
    "find_user (u_by u) a = Some ref" "u_code ref = Some (to_lower (trim_space code))"
    unfolding referral_of_def by blast
  obtain u' where "find_user uid a' = Some u'" "u_by u' = u_by u" using k u(1,2) unfolding keeps_def by blast
  moreover obtain ref' where "find_user (u_by u) a' = Some ref'" "u_code ref' = u_code ref"
    using k u(4,5) unfolding keeps_def by (metis option.distinct(1))
  ultimately show ?thesis unfolding referral_of_def using u by auto
qed

lemma ref_inv_keeps:
  assumes "ref_inv tr a" "keeps a a'" "\<And>uid. occurs (claimed_by uid) evs = 0" "\<And>uid code. Claimed uid code \<notin> set evs"
  shows "ref_inv (tr @ evs) a'"
  using assms referral_keeps [OF _ assms(2)] unfolding ref_inv_def by auto

lemma occurs_pos: "0 < occurs P tr \<longleftrightarrow> (\<exists>e \<in> set tr. P e)"
  by (auto simp: occurs_def filter_empty_conv)

lemma ref_inv_claim:
  assumes "ref_inv tr a" "ClaimReferral uid code a = (b, a')" "acct_wf (a, p)"
  shows "ref_inv (tr @ (if b then [Claimed uid code] else [])) a'"
  using assms(2)
proof (cases rule: ClaimReferral_cases)
  case refused
  then show ?thesis using assms(1) by simp
next
  case (claimed ref)
  have k: "keeps a a'" using ClaimReferral_keeps [OF assms(2)] by simp
  show ?thesis
  proof (cases b)
    case False
    then show ?thesis using ref_inv_keeps [OF assms(1) k, of "[]"] by (simp add: occurs_def)
  next
    case True
    then obtain u where u: "u \<in> set (users a)" "u_id u = uid" "u_by u = []" using claimed(4) by (auto simp: list_ex_iff)
    have d: "distinct (map u_id (users a))" and ne: "u_id ref \<noteq> []"
      using assms(3) claimed(1) by (auto simp: acct_wf_def users_wf_def)
    let ?f = "\<lambda>u. if u_by u = [] then u\<lparr>u_by := u_id ref\<rparr> else u"
    have fu: "find_user uid a = Some u" using find_user_in [OF d u(1)] u(2) by simp
    have fr: "find_user (u_id ref) a = Some ref" by (rule find_user_in [OF d claimed(1)])
    have fs: "find_user j a' = map_option (\<lambda>u. if u_id u = uid then ?f u else u) (find_user j a)" for j
      unfolding claimed(5) by (rule find_user_upd) simp
    have new: "referral_of a' uid code"
      unfolding referral_of_def
      by (rule exI [of _ "?f u"], rule exI [of _ ref]) (simp add: fs fu fr u claimed(2,3) ne)
    have "\<not> referral_of a uid c" for c using fu u(3) by (auto simp: referral_of_def)
    then have "\<not> claimed_by uid e" if "e \<in> set tr" for e
      using assms(1) that unfolding ref_inv_def by (cases e) (auto simp: claimed_by_def)
    then have "occurs (claimed_by uid) tr = 0" using occurs_pos [of "claimed_by uid" tr] by auto
    then have "occurs (claimed_by i) (tr @ [Claimed uid code]) \<le> 1" for i
      using assms(1) unfolding ref_inv_def by (auto simp: occurs_def claimed_by_def)
    moreover have "referral_of a' i c" if "Claimed i c \<in> set (tr @ [Claimed uid code])" for i c
      using that new assms(1) referral_keeps [OF _ k] unfolding ref_inv_def by auto
    ultimately show ?thesis using True unfolding ref_inv_def by simp
  qed
qed

lemma acct_run_referral: "acct_run sha tr s \<Longrightarrow> ref_inv tr (fst s)"
proof (induction rule: acct_run.induct)
  case (Start p)
  show ?case by (simp add: ref_inv_def occurs_def)
next
  case (Main tr a p p')
  then show ?case by simp
next
  case (Callback tr s v au pr r resp s')
  then show ?case using handleCallback_keeps [of v au pr r "fst s" "snd s" resp "fst s'" "snd s'"]
      ref_inv_keeps [of tr "fst s" "fst s'" "[]"] by (simp add: occurs_def)
next
  case (Logout tr a p au now r ck a')
  then show ?case using handleLogout_keeps [of a sha au now r] ref_inv_keeps [of tr a a' "[]"] by (simp add: occurs_def)
next
  case (Link tr a p now raw pk)
  then show ?case using LinkProviderDevice_keeps [of a now raw pk] ref_inv_keeps [of tr a _ "[]"] by (simp add: occurs_def)
next
  case (Mint tr a p b now now' uid res a')
  have "keeps a a'" using Mint.hyps(2) by (cases rule: CreatePairCode_cases) (simp_all add: keeps_users)
  then show ?case using Mint.IH
    by (intro ref_inv_keeps [of tr a]) (auto simp: occurs_def claimed_by_def split: option.splits)
next
  case (Redeem tr a p now code res a')
  have "keeps a a'" using Redeem.hyps(2) by (cases rule: RedeemPairCode_cases) (simp_all add: keeps_users)
  then show ?case using Redeem.IH
    by (intro ref_inv_keeps [of tr a]) (auto simp: occurs_def claimed_by_def split: sum.splits)
next
  case (Code tr a p uid c b a')
  then show ?case using set_code_keeps [of uid c a b a'] ref_inv_keeps [of tr a a' "[]"] by (simp add: occurs_def)
next
  case (Claim tr a p uid code b a')
  then show ?case using ref_inv_claim [of tr a uid code b a' p] acct_run_wf [OF Claim.hyps(1)] by simp
next
  case (Profile tr a p uid n oi a')
  then show ?case using SetProfile_keeps [of uid n oi a a'] ref_inv_keeps [of tr a _ "[]"] by (simp add: occurs_def)
qed

text \<open>An account is referred once. Over any run at most one claim of an account is applied, it
  names the account whose code was given, which is another one, and it stands from then on,
  whatever the account or its referrer do later.\<close>

lemma referral_once:
  assumes "acct_run sha tr (a, p)"
  shows "occurs (claimed_by uid) tr \<le> 1 \<and>
    (\<forall>code. Claimed uid code \<in> set tr \<longrightarrow> (\<exists>u ref. find_user uid a = Some u \<and> u_by u \<noteq> uid \<and>
       find_user (u_by u) a = Some ref \<and> u_code ref = Some (to_lower (trim_space code))))"
proof -
  have "ref_inv tr a" using acct_run_referral [OF assms] by simp
  then show ?thesis unfolding ref_inv_def referral_of_def by meson
qed

subsection \<open>Sample runs\<close>

text \<open>Two people sign in with Google; the transport answers every call with the same document.\<close>

definition sample_auth :: Auth where
  "sample_auth = \<lparr>au_cfg = \<lparr>GitHubClientID = [], GitHubSecret = [], GoogleClientID = ''g'', GoogleSecret = ''s'',
     CallbackBase = ''https://api'', AppURL = ''https://app'', CookieDomain = [], Secure = True\<rparr>,
     au_prov = [''google'' \<mapsto> True]\<rparr>"

definition sample_google :: "string \<Rightarrow> string \<Rightarrow> bool \<Rightarrow> oauth_env" where
  "sample_google sub email verified = \<lparr>ox_http = (\<lambda>_. Some (200, [])),
     ox_parse = (\<lambda>_. Some (JObj [(''access_token'', JStr ''t''), (''id'', JStr sub), (''email'', JStr email),
       (''verified_email'', JBool verified)])), ox_num = (\<lambda>_. [])\<rparr>"

definition sample_env :: "string \<Rightarrow> string \<Rightarrow> bool \<Rightarrow> string \<Rightarrow> callback_env" where
  "sample_env sub email verified r = \<lparr>cb_sha256 = rev, cb_oauth = sample_google sub email verified, cb_uuid = r,
     cb_random = (\<lambda>_. r), cb_clk = (\<lambda>_. 0)\<rparr>"

definition sample_web :: web_req where
  "sample_web = \<lparr>wq_Cookie = [stateCookie \<mapsto> ''z''], wq_Query = (\<lambda>_. ''z'')\<rparr>"

lemma sample_identity: "googleIdentity (sample_google sub email verified) sample_auth code =
    Some \<lparr>id_ID = sub, id_Email = email, id_Name = [], id_Avatar = []\<rparr>"
  by (simp add: googleIdentity_def sample_google_def postForm_def getJSON_def read_answer_def go_div_def tok_fields_def
      google_fields_def find_field_def fld_def string_eval)

lemma sample_lower [simp]: "to_lower ''a@x.co'' = ''a@x.co''" "to_lower ''A@x.co'' = ''a@x.co''" "to_lower ''b@x.co'' = ''b@x.co''"
    "to_lower (trim_space '' ABC'') = ''abc''"
  by code_simp+

lemma char_B [simp]: "(char_of (66 :: nat) :: char) = CHR ''B''"
  by code_simp

definition sample_cb :: "string \<Rightarrow> string \<Rightarrow> bool \<Rightarrow> string \<Rightarrow> accounts \<times> PG \<Rightarrow> (web \<times> Cookie list) \<times> accounts \<times> PG" where
  "sample_cb sub email verified r = handleCallback (sample_env sub email verified r) sample_auth ''google'' sample_web"

lemmas sample_eval = identity_text_def pg_text_def sign_in_def sample_env_def sample_auth_def upsertUser_def link_identity_def insert_user_def
  insert_identity_def new_uid_def find_user_def ensureUserCredentials_def mint_key_def mint_token_def
  pg_CreateConsumerKey_def keyID_def Store.randToken_def createSession_def hashToken_def cookie_def upd_user_def Let_def hour_def

lemma sample_cb_sign_in: "email \<noteq> [] \<Longrightarrow> sample_cb sub email verified r s =
   (case sign_in (sample_env sub email verified r) sample_auth ''google'' \<lparr>id_ID = sub, id_Email = email, id_Name = [], id_Avatar = []\<rparr> s of
     ((w, cs), s') \<Rightarrow> ((w, cookie sample_auth 0 stateCookie [] (- hour) # cs), s'))"
  using sample_identity [of sub email verified]
  by (simp add: sample_cb_def handleCallback_def has_prov_def cookie_value_def sample_web_def fetch_identity_def)
     (simp add: sample_env_def sample_auth_def)

definition ann_accounts :: accounts where
  "ann_accounts = \<lparr>users = [\<lparr>u_prof = \<lparr>us_ID = ''usr_a'', us_Email = ''a@x.co'', us_Name = [], us_AvatarURL = []\<rparr>,
       u_created = 0, u_code = None, u_by = [], u_display = [], u_optin = False\<rparr>],
     identities = [(''google'', ''1'') \<mapsto> ''usr_a''], sessions = [hashToken rev (auth_token ''a'') \<mapsto> (''usr_a'', sessionTTL)],
     user_api_keys = [''usr_a'' \<mapsto> keyID rev (Store.randToken ''sc_live_'' ''a'')],
     user_tokens = [''usr_a'' \<mapsto> ''sc_prov_'' @ auth_token ''a''], provider_owners = [], pairing_codes = []\<rparr>"

definition ann_pg :: PG where "ann_pg = snd (snd (sample_cb ''1'' ''a@x.co'' True ''a'' (empty_accounts, NewPG rev [] [])))"

lemma ann_signs_in: "\<exists>cs. sample_cb ''1'' ''a@x.co'' True ''a'' (empty_accounts, NewPG rev [] []) =
    ((Redirect ''https://app/dashboard/'', cs), (ann_accounts, ann_pg))"
proof -
  have "\<exists>cs m. sample_cb ''1'' ''a@x.co'' True ''a'' (empty_accounts, NewPG rev [] []) =
      ((Redirect ''https://app/dashboard/'', cs), (ann_accounts, m))"
    by (simp add: sample_cb_sign_in) (simp add: sample_eval empty_accounts_def ann_accounts_def NewPG_def)
  then show ?thesis unfolding ann_pg_def by auto
qed

lemma ann_run: "acct_run rev [] (ann_accounts, ann_pg)"
proof -
  obtain cs where "sample_cb ''1'' ''a@x.co'' True ''a'' (empty_accounts, NewPG rev [] []) =
      ((Redirect ''https://app/dashboard/'', cs), (ann_accounts, ann_pg))" using ann_signs_in by blast
  then show ?thesis unfolding sample_cb_def
    by (rule Callback [OF Start, rotated]) (simp add: sample_env_def)
qed

text \<open>Ann registers a device, and mints a code that a phone redeems, typed in lower case with a dash.\<close>

definition ann_linked :: accounts where
  "ann_linked = LinkProviderDevice 7 (''sc_prov_'' @ auth_token ''a'') ''pk'' ann_accounts"

lemma accounts_consistent_witness:
  "acct_run rev [] (ann_linked, ann_pg) \<and> distinct (map o_pk (provider_owners ann_linked)) \<and>
   (\<forall>raw uid. userForProviderToken ann_linked raw = Some uid \<longleftrightarrow> user_tokens ann_linked uid = Some (trim_space raw))"
proof -
  have r: "acct_run rev [] (ann_linked, ann_pg)" unfolding ann_linked_def by (rule Link [OF ann_run])
  from accounts_consistent [OF r] r show ?thesis by blast
qed

definition browser :: "string \<Rightarrow> web_req" where
  "browser c = \<lparr>wq_Cookie = [sessionCookie \<mapsto> c], wq_Query = (\<lambda>_. [])\<rparr>"

lemma sign_in_session_witness:
  "let r = browser (auth_token ''a'') in
   SessionUser rev 5 r ann_accounts \<noteq> None \<and> SessionUser rev sessionTTL r ann_accounts = None \<and>
   SessionUser rev 5 r (snd (handleLogout rev sample_auth 4 r ann_accounts)) = None"
proof -
  obtain cs where c: "handleCallback (sample_env ''1'' ''a@x.co'' True ''a'') sample_auth ''google'' sample_web
      (empty_accounts, NewPG rev [] []) = ((Redirect ''https://app/dashboard/'', cs), (ann_accounts, ann_pg))"
    using ann_signs_in unfolding sample_cb_def by blast
  have e: "cb_sha256 (sample_env ''1'' ''a@x.co'' True ''a'') = rev" "cb_random (sample_env ''1'' ''a@x.co'' True ''a'') 2 = ''a''"
    "cb_clk (sample_env ''1'' ''a@x.co'' True ''a'') 3 = 0"
    by (simp_all add: sample_env_def)
  have p1: "acct_run (cb_sha256 (sample_env ''1'' ''a@x.co'' True ''a'')) [] (empty_accounts, NewPG rev [] [])" by (rule Start)
  have p2: "cb_random (sample_env ''1'' ''a@x.co'' True ''a'') 2 \<noteq> []" by (simp add: e)
  have "\<exists>u. \<forall>now now' r' au'. wq_Cookie r' sessionCookie = Some (auth_token ''a'') \<longrightarrow>
       SessionUser rev now r' ann_accounts = (if now < 0 + sessionTTL then Some u else None) \<and>
       SessionUser rev now' r' (snd (handleLogout rev au' now r' ann_accounts)) = None"
    using sign_in_session [OF p1 p2 c, unfolded Let_def e] by (elim exE conjE) (intro exI, assumption)
  then obtain u where u: "\<forall>now now' r' au'. wq_Cookie r' sessionCookie = Some (auth_token ''a'') \<longrightarrow>
       SessionUser rev now r' ann_accounts = (if now < 0 + sessionTTL then Some u else None) \<and>
       SessionUser rev now' r' (snd (handleLogout rev au' now r' ann_accounts)) = None"
    by blast
  have "wq_Cookie (browser (auth_token ''a'')) sessionCookie = Some (auth_token ''a'')" by (simp add: browser_def)
  with u show ?thesis by (simp add: Let_def sessionTTL_def hour_def)
qed

definition ann_minted :: accounts where
  "ann_minted = snd (CreatePairCode rev (Some ''aaaaaa'') 0 0 ''usr_a'' ann_accounts)"

lemma ann_mints: "CreatePairCode rev (Some ''aaaaaa'') 0 0 ''usr_a'' ann_accounts = (Some (''BBBBBB'', PairCodeTTL), ann_minted)"
  by (simp add: ann_minted_def CreatePairCode_def newPairCode_def alpha_code_def pairCodeAlpha_def pairCodeLen_def
      ann_accounts_def find_user_def Let_def)

lemma ann_pairs: "fst (RedeemPairCode rev 5 ''bbb-bbb'' ann_minted) = Inr (''sc_prov_'' @ auth_token ''a'', ''a@x.co'')"
proof -
  have n: "NormalizePairCode ''bbb-bbb'' = ''BBBBBB''" "NormalizePairCode ''BBBBBB'' = ''BBBBBB''"
    by (simp_all add: NormalizePairCode_def string_eval)
  show ?thesis
    by (simp add: ann_minted_def CreatePairCode_def newPairCode_def alpha_code_def pairCodeAlpha_def pairCodeLen_def
      ann_accounts_def find_user_def Let_def RedeemPairCode_def n hashPairCode_def live_code_def PairCodeTTL_def
      pairCodeMaxAge_def hour_def providerTokenForUser_def)
qed

lemma pairing_once_witness:
  "\<exists>a. acct_run rev [Minted ''BBBBBB'' ''usr_a'' 0, Paired ''bbb-bbb'' (''sc_prov_'' @ auth_token ''a'') 5] (a, ann_pg) \<and>
     occurs (paired_as rev (hashPairCode rev ''BBBBBB'')) [Minted ''BBBBBB'' ''usr_a'' 0, Paired ''bbb-bbb'' (''sc_prov_'' @ auth_token ''a'') 5]
       \<le> occurs (minted_as rev (hashPairCode rev ''BBBBBB'')) [Minted ''BBBBBB'' ''usr_a'' 0, Paired ''bbb-bbb'' (''sc_prov_'' @ auth_token ''a'') 5] \<and>
     user_tokens a ''usr_a'' = Some (''sc_prov_'' @ auth_token ''a'')"
proof -
  obtain res a where ra: "RedeemPairCode rev 5 ''bbb-bbb'' ann_minted = (res, a)" by (cases "RedeemPairCode rev 5 ''bbb-bbb'' ann_minted")
  have res: "res = Inr (''sc_prov_'' @ auth_token ''a'', ''a@x.co'')" using ann_pairs unfolding ra by simp
  have m: "acct_run rev [Minted ''BBBBBB'' ''usr_a'' 0] (ann_minted, ann_pg)" using Mint [OF ann_run ann_mints] by simp
  have r: "acct_run rev [Minted ''BBBBBB'' ''usr_a'' 0, Paired ''bbb-bbb'' (''sc_prov_'' @ auth_token ''a'') 5] (a, ann_pg)"
    using Redeem [OF m ra] by (simp add: res)
  from pairing_once [OF r] obtain uid where "user_tokens a uid = Some (''sc_prov_'' @ auth_token ''a'')" "uid = ''usr_a''"
    by fastforce
  with pairing_once [OF r] r show ?thesis by blast
qed

text \<open>Bob signs in, and claims the code Ann minted.\<close>

definition ann_code :: accounts where "ann_code = upd_user ''usr_a'' (\<lambda>u. u\<lparr>u_code := Some ''abc''\<rparr>) ann_accounts"

definition bob_accounts :: accounts where
  "bob_accounts = fst (snd (sample_cb ''2'' ''b@x.co'' True ''b'' (ann_code, ann_pg)))"

definition bob_pg :: PG where
  "bob_pg = snd (snd (sample_cb ''2'' ''b@x.co'' True ''b'' (ann_code, ann_pg)))"

lemma bob_run: "acct_run rev [] (bob_accounts, bob_pg)"
proof -
  have c: "acct_run rev [] (ann_code, ann_pg)"
  proof (rule Code [OF ann_run])
    show "set_code ''usr_a'' ''abc'' ann_accounts = Some (True, ann_code)"
      by (simp add: set_code_def ann_accounts_def ann_code_def find_user_def)
  qed
  obtain resp where "sample_cb ''2'' ''b@x.co'' True ''b'' (ann_code, ann_pg) = (resp, (bob_accounts, bob_pg))"
    unfolding bob_accounts_def bob_pg_def by (metis prod.collapse)
  then show ?thesis unfolding sample_cb_def by (rule Callback [OF c, rotated]) (simp add: sample_env_def)
qed

lemma bob_users: "\<exists>s t. users bob_accounts = users ann_code @ [\<lparr>u_prof = \<lparr>us_ID = ''usr_b'', us_Email = ''b@x.co'', us_Name = [],
     us_AvatarURL = []\<rparr>, u_created = 0, u_code = None, u_by = [], u_display = [], u_optin = False\<rparr>] \<and>
     sessions bob_accounts = s \<and> user_tokens bob_accounts = t"
proof -
  have "auth_token ''b'' \<noteq> auth_token ''a''" by (simp add: auth_token_def hex_encode_def hex_digit_def)
  then show ?thesis
    unfolding bob_accounts_def
    by (simp add: sample_cb_sign_in) (simp add: sample_eval ann_code_def ann_accounts_def split: option.split sum.split)
qed

lemma bob_claims: "\<exists>a'. ClaimReferral ''usr_b'' '' ABC'' bob_accounts = (True, a')"
proof -
  obtain s t where "users bob_accounts = users ann_code @ [\<lparr>u_prof = \<lparr>us_ID = ''usr_b'', us_Email = ''b@x.co'', us_Name = [],
     us_AvatarURL = []\<rparr>, u_created = 0, u_code = None, u_by = [], u_display = [], u_optin = False\<rparr>]"
    using bob_users by blast
  then show ?thesis by (simp add: ClaimReferral_def ann_code_def ann_accounts_def upd_user_def)
qed

lemma referral_once_witness:
  "\<exists>a. acct_run rev [Claimed ''usr_b'' '' ABC''] (a, bob_pg) \<and>
     (\<exists>u ref. find_user ''usr_b'' a = Some u \<and> u_by u \<noteq> ''usr_b'' \<and> find_user (u_by u) a = Some ref \<and>
        u_code ref = Some (to_lower (trim_space '' ABC'')))"
proof -
  obtain a where a: "ClaimReferral ''usr_b'' '' ABC'' bob_accounts = (True, a)" using bob_claims by blast
  have r: "acct_run rev [Claimed ''usr_b'' '' ABC''] (a, bob_pg)" using Claim [OF bob_run a] by simp
  with referral_once [OF r, of "''usr_b''"] show ?thesis by (metis list.set_intros(1))
qed

subsection \<open>What the tables do not promise\<close>

text \<open>Google's answer says whether the address was verified; nobody looks. Someone who signs in with an
  unverified address of Ann's (whatever its case) gets a session of Ann's account.\<close>

lemma unverified_address_signs_in:
  "case sample_cb ''9'' ''A@x.co'' False ''b'' (ann_accounts, ann_pg) of ((w, cs), (a, m)) \<Rightarrow>
     w = Redirect ''https://app/dashboard/'' \<and> sessions a (hashToken rev (auth_token ''b'')) = Some (''usr_a'', sessionTTL) \<and>
     identities a (''google'', ''9'') = Some ''usr_a''"
proof -
  have n: "hashToken rev (auth_token ''b'') \<noteq> hashToken rev (auth_token ''a'')"
    by (simp add: hashToken_def auth_token_def hex_encode_def hex_digit_def Let_def)
  show ?thesis
    by (simp add: sample_cb_sign_in) (use n in \<open>simp add: sample_eval ann_accounts_def split: option.split sum.split\<close>)
qed

text \<open>The owner of a device is whoever registered its public key last: any account with a provider
  token becomes the owner of a device somebody else linked, and of what it is still owed.\<close>

lemma device_taken_over:
  assumes "userForProviderToken a raw = Some uid" "x \<in> set (provider_owners (LinkProviderDevice now raw pk a))" "o_pk x = pk"
  shows "o_user x = uid"
proof (cases "list_ex (\<lambda>o'. o_pk o' = pk) (provider_owners a)")
  case True
  then have "provider_owners (LinkProviderDevice now raw pk a) =
      map (\<lambda>o'. if o_pk o' = pk then o'\<lparr>o_user := uid, o_seen := now\<rparr> else o') (provider_owners a)"
    using assms(1) by (simp add: LinkProviderDevice_def)
  then have "x \<in> (\<lambda>o'. if o_pk o' = pk then o'\<lparr>o_user := uid, o_seen := now\<rparr> else o') ` set (provider_owners a)"
    using assms(2) by (simp only: set_map)
  then obtain y where "x = (if o_pk y = pk then y\<lparr>o_user := uid, o_seen := now\<rparr> else y)" by (rule imageE)
  then show ?thesis using assms(3) by (cases "o_pk y = pk") simp_all
next
  case False
  then have "provider_owners (LinkProviderDevice now raw pk a) =
      provider_owners a @ [\<lparr>o_pk = pk, o_user = uid, o_first = now, o_seen = now\<rparr>]"
    using assms(1) by (simp add: LinkProviderDevice_def)
  then have "x = \<lparr>o_pk = pk, o_user = uid, o_first = now, o_seen = now\<rparr>"
    using assms(2,3) False by (auto simp: list_ex_iff)
  from arg_cong [OF this, of o_user] show ?thesis by simp
qed

end
