(* ===== verification/Onboard.thy ===== *)
theory Onboard
  imports Auth Net Events
begin

text \<open>
  The public intake and the account routes of package \<open>api\<close> (coordinator/internal/api/intake.go,
  onboard.go, referral.go): waiting list, initiative proposals, redeeming a pairing code,
  feedback threads and their replies, the referral and profile routes, and the cached
  leaderboard. A body is \<open>None\<close> when it does not decode. Accounts are \<open>None\<close> when they are off.
  The device list of the Share page is in \<open>Console\<close>.
\<close>

subsection \<open>Waiting list and initiatives\<close>

definition maxEmail :: nat where "maxEmail = 254"
definition maxNote :: nat where "maxNote = 2000"
definition maxTitle :: nat where "maxTitle = 200"
definition maxSummary :: nat where "maxSummary = 4000"
definition maxLink :: nat where "maxLink = 500"
definition maxName :: nat where "maxName = 120"

definition ip_hash :: "(string \<Rightarrow> string) \<Rightarrow> http_req \<Rightarrow> string" where
  "ip_hash sha256 r = ipHash sha256 (clientIP SplitHostPort r)"

definition intake_ok :: "int \<Rightarrow> http_req \<Rightarrow> Limiter \<Rightarrow> Limiter \<times> bool" where
  "intake_ok now r l = intakeAllowed SplitHostPort now r l"

record waitlistBody =
  wb_Email :: string
  wb_Interest :: string
  wb_Note :: string
  wb_HP :: string

definition handleWaitlist :: "(string \<Rightarrow> string) \<Rightarrow> int \<Rightarrow> http_req \<Rightarrow> waitlistBody option \<Rightarrow> Limiter \<times> PG \<Rightarrow>
    unit resp \<times> Limiter \<times> PG" where
  "handleWaitlist sha256 now r body s = (case s of (l, p) \<Rightarrow> (case intake_ok now r l of (l, allowed) \<Rightarrow>
     if \<not> allowed then (Reject 429 ''rate_limited'', (l, p))
     else case body of None \<Rightarrow> (Reject 400 ''bad_json'', (l, p))
     | Some b \<Rightarrow> if wb_HP b \<noteq> [] then (Reply 200 (), (l, p))
       else let email = clip (wb_Email b) maxEmail in
         if \<not> looksLikeEmail email then (Reject 400 ''bad_email'', (l, p))
         else let i = clip (wb_Interest b) 20;
             interest = (if i \<in> {''share'', ''rent'', ''both'', ''initiatives''} then i else ''both'') in
           (case pg_AddWaitlist now \<lparr>wl_Email = email, wl_Interest = interest,
               wl_Note = clip (wb_Note b) maxNote, wl_IPHash = ip_hash sha256 r, wl_CreatedAt = 0\<rparr> p of
             Inl _ \<Rightarrow> (Reject 500 ''store_failed'', (l, p)) | Inr p' \<Rightarrow> (Reply 200 (), (l, p')))))"

record initiativeBody =
  ib_Name :: string
  ib_Email :: string
  ib_Title :: string
  ib_Summary :: string
  ib_Link :: string
  ib_HP :: string

definition handleInitiative :: "(string \<Rightarrow> string) \<Rightarrow> int \<Rightarrow> http_req \<Rightarrow> initiativeBody option \<Rightarrow> Limiter \<times> PG \<Rightarrow>
    unit resp \<times> Limiter \<times> PG" where
  "handleInitiative sha256 now r body s = (case s of (l, p) \<Rightarrow> (case intake_ok now r l of (l, allowed) \<Rightarrow>
     if \<not> allowed then (Reject 429 ''rate_limited'', (l, p))
     else case body of None \<Rightarrow> (Reject 400 ''bad_json'', (l, p))
     | Some b \<Rightarrow> if ib_HP b \<noteq> [] then (Reply 200 (), (l, p))
       else let email = clip (ib_Email b) maxEmail; title = clip (ib_Title b) maxTitle;
           summary = clip (ib_Summary b) maxSummary in
         if \<not> looksLikeEmail email \<or> title = [] \<or> length summary < 20 then (Reject 400 ''incomplete'', (l, p))
         else (case pg_AddProposal now \<lparr>prop_Name = clip (ib_Name b) maxName, prop_Email = email,
               prop_Title = title, prop_Summary = summary, prop_Link = clip (ib_Link b) maxLink,
               prop_IPHash = ip_hash sha256 r, prop_CreatedAt = 0\<rparr> p of
             Inl _ \<Rightarrow> (Reject 500 ''store_failed'', (l, p)) | Inr p' \<Rightarrow> (Reply 200 (), (l, p')))))"

text \<open>\<open>ago\<close> is the time ten years back (\<open>AddDate(-10, 0, 0)\<close>).\<close>

definition adminWaitlist :: "int \<Rightarrow> PG \<Rightarrow> (int \<times> WaitlistEntry list) resp" where
  "adminWaitlist ago p = (let rows = pg_WaitlistSince ago p in Reply 200 (int (length rows), rows))"

definition adminProposals :: "int \<Rightarrow> PG \<Rightarrow> (int \<times> Proposal list) resp" where
  "adminProposals ago p = (let rows = pg_ProposalsSince ago p in Reply 200 (int (length rows), rows))"

subsection \<open>Pairing\<close>

text \<open>The ellipsis is the three bytes of its UTF-8 form.\<close>

definition maskEmail :: "string \<Rightarrow> string" where
  "maskEmail e = (let i = byte_index e (CHR ''@'') in
     if i \<le> 1 then e else take 1 e @ [CHR 0xE2, CHR 0x80, CHR 0xA6] @ drop (nat i - 1) e)"

text \<open>\<open>strings.Replace(s, old, new, 1)\<close>.\<close>

fun replace_first :: "string \<Rightarrow> string \<Rightarrow> string \<Rightarrow> string" where
  "replace_first old new [] = (if old = [] then new else [])"
| "replace_first old new (c # cs) = (if has_prefix (c # cs) old then new @ drop (length old) (c # cs)
     else c # replace_first old new cs)"

record pair_view =
  pv_token :: string
  pv_account :: string
  pv_url :: string

definition handlePairRedeem :: "(string \<Rightarrow> string) \<Rightarrow> Config \<Rightarrow> int \<Rightarrow> int \<Rightarrow> http_req \<Rightarrow> string \<Rightarrow>
    Limiter \<times> accounts option \<times> Ring \<Rightarrow> pair_view resp \<times> Limiter \<times> accounts option \<times> Ring" where
  "handlePairRedeem sha256 cfg now now' r code s = (case s of (l, None, ring) \<Rightarrow> (Reject 404 ''accounts_disabled'', s)
   | (l, Some a, ring) \<Rightarrow> (case intake_ok now r l of (l', allowed) \<Rightarrow>
       if \<not> allowed then (Reject 429 ''rate_limited'', (l', Some a, ring))
       else (case RedeemPairCode sha256 now' code a of
         (Inl ErrPairCode, a') \<Rightarrow> (Reject 404 ''bad_code'', (l', Some a', ring))
       | (Inl NoProviderToken, a') \<Rightarrow> (Reject 500 ''pair_failed'', (l', Some a', ring))
       | (Inr (token, email), a') \<Rightarrow> (Reply 200 \<lparr>pv_token = token, pv_account = maskEmail email,
           pv_url = replace_first ''https://'' ''wss://'' (cf_AuthCallbackBase cfg) @ ''/ws/provider''\<rparr>,
           (l', Some a', fst (Audit now' ''device paired'' [(''account'', maskEmail email), (''ip_hash'', ip_hash sha256 r)] ring))))))"

subsection \<open>Feedback\<close>

record feedbackBody =
  fe_Kind :: string
  fe_Email :: string
  fe_Device :: string
  fe_Message :: string
  fe_App :: string
  fe_Version :: string
  fe_HP :: string

text \<open>The visitor of a request: the signed-in user, where accounts are on.\<close>

definition visitor :: "(string \<Rightarrow> string) \<Rightarrow> int \<Rightarrow> web_req \<Rightarrow> accounts option \<Rightarrow> User option" where
  "visitor sha256 now c acc = (case acc of None \<Rightarrow> None | Some a \<Rightarrow> SessionUser sha256 now c a)"

definition feedback_kind :: "string \<Rightarrow> string" where
  "feedback_kind k = (let kind = clip (to_lower k) 24 in
     if kind \<in> {''feedback'', ''bug'', ''tester_request'', ''idea''} then kind else ''feedback'')"

definition handleFeedback :: "(string \<Rightarrow> string) \<Rightarrow> int \<Rightarrow> http_req \<Rightarrow> web_req \<Rightarrow> feedbackBody option \<Rightarrow> accounts option \<Rightarrow>
    Limiter \<times> PG \<Rightarrow> unit resp \<times> Limiter \<times> PG" where
  "handleFeedback sha256 now r c body acc s = (case s of (l, p) \<Rightarrow> (case intake_ok now r l of (l, allowed) \<Rightarrow>
     if \<not> allowed then (Reject 429 ''rate_limited'', (l, p))
     else case body of None \<Rightarrow> (Reject 400 ''bad_json'', (l, p))
     | Some b \<Rightarrow> if fe_HP b \<noteq> [] then (Reply 200 (), (l, p))
       else let msg = trim_space (clip (fe_Message b) 4000) in
         if length msg < 3 then (Reject 400 ''empty'', (l, p))
         else let email = clip (trim_space (fe_Email b)) maxEmail in
           if email \<noteq> [] \<and> \<not> looksLikeEmail email then (Reject 400 ''bad_email'', (l, p))
           else let (userID, email) = (case visitor sha256 now c acc of None \<Rightarrow> ([], email)
               | Some u \<Rightarrow> (us_ID u, if email = [] then us_Email u else email)) in
             (case pg_AddFeedback now \<lparr>fb_ID = 0, fb_Kind = feedback_kind (fe_Kind b), fb_Email = email,
               fb_Device = clip (fe_Device b) 120, fb_Message = msg, fb_App = clip (fe_App b) 24,
               fb_Version = clip (fe_Version b) 40, fb_UserID = userID, fb_IPHash = ip_hash sha256 r,
               fb_CreatedAt = 0, fb_Replies = []\<rparr> p of
             Inl _ \<Rightarrow> (Reject 500 ''store_failed'', (l, p)) | Inr p' \<Rightarrow> (Reply 200 (), (l, p')))))"

definition handleMyFeedback :: "(string \<Rightarrow> string) \<Rightarrow> int \<Rightarrow> web_req \<Rightarrow> accounts option \<Rightarrow> PG \<Rightarrow> FeedbackEntry list resp" where
  "handleMyFeedback sha256 now c acc p = (case acc of None \<Rightarrow> Reject 404 ''accounts_disabled''
   | Some a \<Rightarrow> (case SessionUser sha256 now c a of None \<Rightarrow> Reject 401 ''unauthorized''
       | Some u \<Rightarrow> Reply 200 (pg_FeedbackForUser (us_ID u) (us_Email u) p)))"

text \<open>The text of a reply, when the body decodes and is long enough.\<close>

definition reply_text :: "string option \<Rightarrow> string option" where
  "reply_text body = (case body of None \<Rightarrow> None
     | Some b \<Rightarrow> if length (trim_space b) < 2 then None else Some (clip (trim_space b) 4000))"

definition handleMyFeedbackReply :: "(string \<Rightarrow> string) \<Rightarrow> int \<Rightarrow> http_req \<Rightarrow> web_req \<Rightarrow> string \<Rightarrow> string option \<Rightarrow> accounts option \<Rightarrow>
    Limiter \<times> PG \<Rightarrow> FeedbackReply resp \<times> Limiter \<times> PG" where
  "handleMyFeedbackReply sha256 now r c pathID body acc s = (case s of (l, p) \<Rightarrow> (case acc of
     None \<Rightarrow> (Reject 404 ''accounts_disabled'', s)
   | Some a \<Rightarrow> (case SessionUser sha256 now c a of None \<Rightarrow> (Reject 401 ''unauthorized'', s)
     | Some u \<Rightarrow> (case intake_ok now r l of (l, allowed) \<Rightarrow>
         if \<not> allowed then (Reject 429 ''rate_limited'', (l, p))
         else (case Atoi pathID of None \<Rightarrow> (Reject 400 ''bad_id'', (l, p))
         | Some i \<Rightarrow>
             if \<not> list_ex (\<lambda>e. fb_ID e = i) (pg_FeedbackForUser (us_ID u) (us_Email u) p) then (Reject 404 ''not_found'', (l, p))
             else (case reply_text body of None \<Rightarrow> (Reject 400 ''empty'', (l, p))
             | Some t \<Rightarrow> (case pg_AddFeedbackReply now i ''tester'' t p of
                 Inl _ \<Rightarrow> (Reject 500 ''store_failed'', (l, p))
               | Inr (rep, p') \<Rightarrow> (Reply 200 rep, (l, p')))))))))"

text \<open>Who an operator's request comes from, for the audit trail.\<close>

definition adminActor :: "http_req \<Rightarrow> string" where
  "adminActor r =
    (if hr_Header r ''X-Forwarded-For'' \<noteq> [] then trim_space (hd (split_on (CHR '','') (hr_Header r ''X-Forwarded-For'')))
     else case SplitHostPort (hr_RemoteAddr r) of None \<Rightarrow> hr_RemoteAddr r | Some h \<Rightarrow> h)"

definition adminFeedbackReply :: "int \<Rightarrow> http_req \<Rightarrow> string \<Rightarrow> string option \<Rightarrow> PG \<times> Ring \<Rightarrow> FeedbackReply resp \<times> PG \<times> Ring" where
  "adminFeedbackReply now r pathID body s = (case s of (p, ring) \<Rightarrow> (case Atoi pathID of None \<Rightarrow> (Reject 400 ''bad_id'', s)
   | Some i \<Rightarrow> (case reply_text body of None \<Rightarrow> (Reject 400 ''empty'', s)
     | Some t \<Rightarrow> (case pg_AddFeedbackReply now i ''ayni'' t p of
         Inl _ \<Rightarrow> (Reject 500 ''store_failed'', s)
       | Inr (rep, p') \<Rightarrow> (Reply 200 rep, (p',
           fst (Audit now ''feedback answered'' [(''feedback_id'', int_str i), (''actor'', adminActor r)] ring)))))))"

definition adminFeedback :: "int \<Rightarrow> PG \<Rightarrow> (FeedbackEntry list \<times> int) resp" where
  "adminFeedback now p = (let rows = pg_FeedbackSince (now - 90 * 24 * hour) p in Reply 200 (rows, int (length rows)))"

subsection \<open>Referral, profile, leaderboard\<close>

definition foundingDeviceCap :: int where "foundingDeviceCap = 1000"

definition joinBase :: "Config \<Rightarrow> string" where
  "joinBase cfg = (let b = trim_slashes (cf_AppURL cfg) in if b \<noteq> [] then b else ''https://app.ayni-ai.com'')"

record referral_view =
  rf_code :: string
  rf_link :: string
  rf_users :: int
  rf_devices :: int
  rf_display :: string
  rf_optin :: bool
  rf_rank :: int
  rf_founding :: bool

definition handleMyReferral :: "(string \<Rightarrow> string) \<Rightarrow> Config \<Rightarrow> int \<Rightarrow> web_req \<Rightarrow> (nat \<Rightarrow> string option) \<Rightarrow> (nat \<Rightarrow> accounts \<Rightarrow> accounts) \<Rightarrow>
    accounts option \<Rightarrow> referral_view resp \<times> accounts option" where
  "handleMyReferral sha256 cfg now c random other acc = (case acc of None \<Rightarrow> (Reject 404 ''accounts_disabled'', acc)
   | Some a \<Rightarrow> (case SessionUser sha256 now c a of None \<Rightarrow> (Reject 401 ''unauthorized'', acc)
     | Some u \<Rightarrow> (case ReferralCode random other (us_ID u) a of
         (None, a') \<Rightarrow> (Reject 500 ''referral_failed'', Some a')
       | (Some code, a') \<Rightarrow>
           (let (n, d) = ReferralStats (us_ID u) a';
                (name, opt) = (case GetProfile (us_ID u) a' of None \<Rightarrow> ([], False) | Some x \<Rightarrow> x);
                rank = FoundingRank (us_ID u) a' in
            (Reply 200 \<lparr>rf_code = code, rf_link = joinBase cfg @ ''/join/?c='' @ code, rf_users = n, rf_devices = d,
               rf_display = name, rf_optin = opt, rf_rank = rank, rf_founding = (rank > 0 \<and> rank \<le> foundingDeviceCap)\<rparr>, Some a')))))"

definition handleClaimReferral :: "(string \<Rightarrow> string) \<Rightarrow> int \<Rightarrow> web_req \<Rightarrow> string option \<Rightarrow> accounts option \<Rightarrow> bool resp \<times> accounts option" where
  "handleClaimReferral sha256 now c body acc = (case acc of None \<Rightarrow> (Reject 404 ''accounts_disabled'', acc)
   | Some a \<Rightarrow> (case SessionUser sha256 now c a of None \<Rightarrow> (Reject 401 ''unauthorized'', acc)
     | Some u \<Rightarrow> (case body of None \<Rightarrow> (Reject 400 ''bad_json'', acc)
       | Some code \<Rightarrow> (case ClaimReferral (us_ID u) code a of (applied, a') \<Rightarrow> (Reply 200 applied, Some a')))))"

definition handleMyProfile :: "(string \<Rightarrow> string) \<Rightarrow> int \<Rightarrow> web_req \<Rightarrow> (string \<times> bool) option \<Rightarrow> accounts option \<Rightarrow> unit resp \<times> accounts option" where
  "handleMyProfile sha256 now c body acc = (case acc of None \<Rightarrow> (Reject 404 ''accounts_disabled'', acc)
   | Some a \<Rightarrow> (case SessionUser sha256 now c a of None \<Rightarrow> (Reject 401 ''unauthorized'', acc)
     | Some u \<Rightarrow> (case body of None \<Rightarrow> (Reject 400 ''bad_json'', acc)
       | Some (name, opt) \<Rightarrow> if opt \<and> trim_space name = [] then (Reject 400 ''name_required'', acc)
           else (case SetProfile (us_ID u) name opt a of None \<Rightarrow> (Reject 500 ''profile_failed'', acc)
             | Some a' \<Rightarrow> (Reply 200 (), Some a')))))"

record leader_body =
  lb_rows :: "LeaderRow list"
  lb_founding :: int
  lb_at :: int

text \<open>The cache, with the time it was filled.\<close>

type_synonym leader_cache = "(int \<times> leader_body) option"

text \<open>\<open>strconv.Atoi\<close> with its error dropped: a number out of range becomes the nearest one.\<close>

definition query_int :: "string \<Rightarrow> int" where
  "query_int s = (let neg = (s \<noteq> [] \<and> hd s = CHR ''-'');
       ds = (if s \<noteq> [] \<and> (hd s = CHR ''-'' \<or> hd s = CHR ''+'') then tl s else s) in
     if ds = [] \<or> \<not> list_all is_digit ds then 0
     else if neg then max (- int (dec_val ds)) (- (2 ^ 63)) else min (int (dec_val ds)) (2 ^ 63 - 1))"

definition handleLeaderboard :: "int \<Rightarrow> string \<Rightarrow> accounts option \<Rightarrow> leader_cache \<Rightarrow> leader_body resp \<times> leader_cache" where
  "handleLeaderboard now limit acc cache = (case acc of
     None \<Rightarrow> (Reply 200 \<lparr>lb_rows = [], lb_founding = 0, lb_at = now\<rparr>, cache)
   | Some a \<Rightarrow> (let fresh = \<lparr>lb_rows = Leaderboard (query_int limit) a, lb_founding = FoundingDevices a, lb_at = now\<rparr> in
       case cache of Some (t, body) \<Rightarrow> if now - t < 30 * 1000000000 then (Reply 200 body, cache)
           else (Reply 200 fresh, Some (now, fresh))
       | None \<Rightarrow> (Reply 200 fresh, Some (now, fresh))))"

subsection \<open>What the intake stores\<close>

lemma length_clip: "length (clip s n) \<le> n"
  by (simp add: clip_def Let_def)

definition clean_wait :: "WaitlistEntry \<Rightarrow> bool" where
  "clean_wait e \<longleftrightarrow> looksLikeEmail (wl_Email e) \<and> length (wl_Email e) \<le> maxEmail \<and>
     wl_Interest e \<in> {''share'', ''rent'', ''both'', ''initiatives''} \<and> length (wl_Note e) \<le> maxNote"

definition clean_prop :: "Proposal \<Rightarrow> bool" where
  "clean_prop e \<longleftrightarrow> looksLikeEmail (prop_Email e) \<and> length (prop_Email e) \<le> maxEmail \<and> prop_Title e \<noteq> [] \<and>
     length (prop_Title e) \<le> maxTitle \<and> 20 \<le> length (prop_Summary e) \<and> length (prop_Summary e) \<le> maxSummary \<and>
     length (prop_Link e) \<le> maxLink \<and> length (prop_Name e) \<le> maxName"

definition clean_kind :: "string \<Rightarrow> bool" where
  "clean_kind k \<longleftrightarrow> k \<in> {''feedback'', ''bug'', ''tester_request'', ''idea''}"

definition clean_feedback :: "FeedbackEntry \<Rightarrow> bool" where
  "clean_feedback e \<longleftrightarrow> 3 \<le> length (fb_Message e) \<and> length (fb_Message e) \<le> 4000 \<and>
     clean_kind (fb_Kind e) \<and> length (fb_Device e) \<le> 120 \<and>
     length (fb_App e) \<le> 24 \<and> length (fb_Version e) \<le> 40"

definition clean_reply :: "FeedbackReply \<Rightarrow> bool" where
  "clean_reply r \<longleftrightarrow> rep_Author r \<in> {''tester'', ''ayni''} \<and> length (rep_Body r) \<le> 4000"

definition clean_intake :: "PG \<Rightarrow> bool" where
  "clean_intake p \<longleftrightarrow> list_all clean_wait (waitlist_tbl p) \<and> list_all clean_prop (proposals_tbl p) \<and>
     list_all clean_feedback (feedback_tbl p) \<and> list_all clean_reply (feedback_replies p)"

lemma reply_text_length: "reply_text body = Some t \<Longrightarrow> length t \<le> 4000"
  by (auto simp: reply_text_def length_clip split: option.splits if_splits)

lemma AddFeedbackReply_cases:
  assumes "pg_AddFeedbackReply now i author t p = Inr (rep, p')"
  shows "p' = p\<lparr>feedback_replies := feedback_replies p @ [rep]\<rparr> \<and> rep_FeedbackID rep = i \<and> rep_Author rep = author \<and> rep_Body rep = t"
  using assms by (auto simp: pg_AddFeedbackReply_def Let_def split: if_splits)

lemma clean_reply_step:
  assumes "pg_AddFeedbackReply now i author t p = Inr (rep, p')" "clean_intake p" "author \<in> {''tester'', ''ayni''}" "length t \<le> 4000"
  shows "clean_intake p'"
  using AddFeedbackReply_cases [OF assms(1)] assms(2-4) by (simp add: clean_intake_def clean_reply_def)

lemma handleWaitlist_clean: "clean_intake p \<Longrightarrow> clean_intake (snd (snd (handleWaitlist sha now r body (l, p))))"
proof -
  assume c: "clean_intake p"
  have add: "clean_intake p'" if "clean_wait e" "pg_AddWaitlist now e p = Inr p'" for e p'
  proof -
    have "list_all clean_wait xs \<Longrightarrow> clean_wait y \<Longrightarrow> (\<And>x. clean_wait x \<Longrightarrow> clean_wait (u x)) \<Longrightarrow> list_all clean_wait (upsert_by f u y xs)"
      for xs y u and f :: "WaitlistEntry \<Rightarrow> string"
      by (induction xs) auto
    then show ?thesis using c that by (auto simp: clean_intake_def pg_AddWaitlist_def clean_wait_def split: if_splits)
  qed
  show ?thesis
    using c by (auto simp: handleWaitlist_def Let_def clean_wait_def length_clip split: prod.split option.split sum.split elim!: add [rotated])
qed

lemma handleInitiative_clean: "clean_intake p \<Longrightarrow> clean_intake (snd (snd (handleInitiative sha now r body (l, p))))"
  by (auto simp: handleInitiative_def Let_def clean_intake_def clean_prop_def pg_AddProposal_def length_clip
      split: prod.split option.split sum.split if_splits)

lemma handleFeedback_clean: "clean_intake p \<Longrightarrow> clean_intake (snd (snd (handleFeedback sha now r c body acc (l, p))))"
proof -
  assume p: "clean_intake p"
  have msg: "length (trim_space (clip m 4000)) \<le> 4000" for m
    using length_trim_space [of "clip m 4000"] length_clip [of m 4000] by linarith
  have kind: "clean_kind (feedback_kind k)" for k
    by (auto simp: feedback_kind_def clean_kind_def Let_def)
  have add: "clean_intake p'" if "pg_AddFeedback now e p = Inr p'" "clean_feedback e" for e p'
    using p that by (auto simp: clean_intake_def pg_AddFeedback_def clean_feedback_def split: if_splits)
  show ?thesis
    unfolding handleFeedback_def Let_def
    by (auto simp: p msg length_clip not_less clean_feedback_def intro!: kind elim!: add split: prod.split option.split sum.split)
qed

lemma handleMyFeedbackReply_clean: "clean_intake p \<Longrightarrow> clean_intake (snd (snd (handleMyFeedbackReply sha now r c i body acc (l, p))))"
  by (auto simp: handleMyFeedbackReply_def split: prod.split option.split sum.split
      dest: reply_text_length intro: clean_reply_step)

lemma adminFeedbackReply_clean: "clean_intake p \<Longrightarrow> clean_intake (fst (snd (adminFeedbackReply now r i body (p, ring))))"
  by (auto simp: adminFeedbackReply_def split: option.split sum.split dest: reply_text_length intro: clean_reply_step)

text \<open>What strangers can put into the store. Whatever is posted to the public intake (waiting list,
  initiatives, feedback, replies), every stored row keeps a plausible address, a kind or interest of
  the list, texts within their caps and, for replies, an author of the two the program writes.\<close>

lemma intake_clean:
  assumes "clean_intake p"
  shows "clean_intake (snd (snd (handleWaitlist sha now r wb (l, p)))) \<and>
    clean_intake (snd (snd (handleInitiative sha now r ib (l, p)))) \<and>
    clean_intake (snd (snd (handleFeedback sha now r c fb acc (l, p)))) \<and>
    clean_intake (snd (snd (handleMyFeedbackReply sha now r c i txt acc (l, p)))) \<and>
    clean_intake (fst (snd (adminFeedbackReply now r i txt (p, ring))))"
  using assms by (intro conjI handleWaitlist_clean handleInitiative_clean handleFeedback_clean
      handleMyFeedbackReply_clean adminFeedbackReply_clean)

definition sample_post :: http_req where
  "sample_post = \<lparr>hr_Method = ''POST'', hr_Header = (\<lambda>_. []), hr_ContentLength = 10, hr_HasBody = True, hr_RemoteAddr = ''1.2.3.4:5''\<rparr>"

lemma intake_clean_witness:
  "clean_intake (snd (snd (handleWaitlist rev 0 sample_post
     (Some \<lparr>wb_Email = ''a@x.co'', wb_Interest = ''rent'', wb_Note = [], wb_HP = []\<rparr>) (New_limiter 30, NewPG rev [] []))))"
proof -
  have "clean_intake (NewPG rev [] [])" by (simp add: clean_intake_def NewPG_def)
  from intake_clean [OF this] show ?thesis by blast
qed

lemma feedbackQuery_rows:
  assumes "e \<in> set (feedbackQuery P n p)"
  shows "\<exists>x \<in> set (feedback_tbl p). P x \<and> fb_ID x = fb_ID e"
proof -
  let ?out = "take n (sort_by (\<lambda>a b. fb_CreatedAt a > fb_CreatedAt b) (filter P (feedback_tbl p)))"
  have "map fb_ID (feedbackQuery P n p) = map fb_ID ?out" by (simp add: feedbackQuery_def Let_def)
  from arg_cong [OF this, of set] have "fb_ID e \<in> fb_ID ` set ?out" using assms by (metis image_eqI list.set_map)
  then obtain x where x: "x \<in> set ?out" "fb_ID e = fb_ID x" by (rule imageE)
  from in_set_takeD [OF x(1)] have "x \<in> set (filter P (feedback_tbl p))" by (simp only: set_sort_by)
  then show ?thesis using x(2) by auto
qed

text \<open>A tester's reply goes to the tester's own thread. A positive answer appends exactly one
  reply, signed as the tester's, to an existing entry that was filed by the session's account or
  under its address; any other answer leaves the store as it was.\<close>

lemma feedback_reply_own:
  "case handleMyFeedbackReply sha now r c i body acc (l, p) of
     (Reply st rep, l', p') \<Rightarrow>
       (\<exists>a u e. acc = Some a \<and> SessionUser sha now c a = Some u \<and> e \<in> set (feedback_tbl p) \<and>
          Atoi i = Some (fb_ID e) \<and> rep_FeedbackID rep = fb_ID e \<and>
          (fb_UserID e = us_ID u \<or> equal_fold (fb_Email e) (us_Email u))) \<and>
       rep_Author rep = ''tester'' \<and> length (rep_Body rep) \<le> 4000 \<and>
       p' = p\<lparr>feedback_replies := feedback_replies p @ [rep]\<rparr>
   | (Reject st code, l', p') \<Rightarrow> p' = p"
proof (cases "handleMyFeedbackReply sha now r c i body acc (l, p)")
  case (fields res l' p')
  show ?thesis
  proof (cases res)
    case (Reject st code)
    then show ?thesis using fields by (auto simp: handleMyFeedbackReply_def split: prod.splits option.splits if_splits sum.splits)
  next
    case (Reply st rep)
    then obtain a u n t where h: "acc = Some a" "SessionUser sha now c a = Some u" "Atoi i = Some n"
      "list_ex (\<lambda>e. fb_ID e = n) (pg_FeedbackForUser (us_ID u) (us_Email u) p)" "reply_text body = Some t"
      "pg_AddFeedbackReply now n ''tester'' t p = Inr (rep, p')"
      using fields by (auto simp: handleMyFeedbackReply_def split: prod.splits option.splits if_splits sum.splits)
    from h(4) obtain e where e: "e \<in> set (pg_FeedbackForUser (us_ID u) (us_Email u) p)" "fb_ID e = n" by (auto simp: list_ex_iff)
    then obtain x where "x \<in> set (feedback_tbl p)" "fb_ID x = n" "fb_UserID x = us_ID u \<or> equal_fold (fb_Email x) (us_Email u)"
      using feedbackQuery_rows unfolding pg_FeedbackForUser_def by blast
    then show ?thesis unfolding fields Reply prod.case resp.case
      using h(1-3) reply_text_length [OF h(5)] AddFeedbackReply_cases [OF h(6)] by auto
  qed
qed

text \<open>The cached leaderboard ignores the limit of the request: for thirty seconds everybody gets as many
  rows as the first visitor asked for.\<close>

lemma leaderboard_limit_ignored:
  assumes "handleLeaderboard now first (Some a) None = (Reply 200 b, cache)" "0 \<le> d" "d < 30 * 1000000000"
  shows "fst (handleLeaderboard (now + d) limit (Some a') cache) = Reply 200 b \<and> lb_rows b = Leaderboard (query_int first) a"
  using assms by (auto simp: handleLeaderboard_def Let_def)

end
