(* ===== verification/Decimal.thy ===== *)
theory Decimal
  imports Float64 Codec
begin

text \<open>
  Decimal amounts and binary floats: the error of rounding to 53 bits, why a decimal number of
  dollars read as the nearest float gives back its micro-dollars or cents, and the two-decimal
  form (\<open>%.2f\<close>) amounts are printed in.
\<close>

lemma rhe_error: "\<bar>of_int (rhe y) - y\<bar> \<le> 1 / 2"
proof -
  have "of_int \<lfloor>y\<rfloor> \<le> y" "y < of_int \<lfloor>y\<rfloor> + 1" by linarith+
  then show ?thesis by (auto simp: rhe_def Let_def)
qed

text \<open>Rounding to 53 bits errs by half a unit of the last place.\<close>

lemma rr_error:
  assumes "\<bar>x\<bar> < 2 powi k" "-1021 \<le> k"
  shows "\<bar>rr x - x\<bar> \<le> 2 powi (k - 54)"
proof (cases "x = 0")
  case False
  define u where "u = (2::rat) powi (ulp_exp x)"
  have u: "0 < u" by (simp add: u_def)
  have "(2::rat) powi ilog2 \<bar>x\<bar> < 2 powi k" using ilog2_bounds [of "\<bar>x\<bar>"] False assms(1) by simp
  then have "ilog2 \<bar>x\<bar> < k" by (rule powi_less_imp)
  then have "ulp_exp x \<le> k - 53" using assms(2) by (simp add: ulp_exp_def)
  then have le: "u \<le> 2 powi (k - 53)" unfolding u_def by (rule powi_mono)
  have "rr x - x = (of_int (rhe (x / u)) - x / u) * u"
    using False u by (simp add: rr_def Let_def u_def [symmetric] left_diff_distrib)
  then have "\<bar>rr x - x\<bar> = \<bar>of_int (rhe (x / u)) - x / u\<bar> * u" using u by (simp add: abs_mult)
  also have "\<dots> \<le> 1 / 2 * u" by (rule mult_right_mono [OF rhe_error]) (use u in simp)
  also have "\<dots> \<le> 1 / 2 * 2 powi (k - 53)" using le by simp
  also have "\<dots> = 2 powi (k - 54)"
    using power_int_add [of "2::rat" "k - 54" 1] by simp
  finally show ?thesis .
qed (simp add: rr_def)

lemma rnd_small:
  assumes "\<bar>x\<bar> < 2 ^ 1000"
  shows "rnd x = Fin (rr x)"
proof -
  have "\<bar>x\<bar> < 2 powi 1000" using assms by simp
  from rr_error [OF this] have "\<bar>rr x - x\<bar> \<le> 2 powi 946" by simp
  moreover have "(2::rat) powi 946 \<le> 2 ^ 1000" "2 ^ 1000 + (2::rat) ^ 1000 < 2 ^ 1024" by simp_all
  ultimately have "\<bar>rr x\<bar> < 2 ^ 1024" using assms by linarith
  then have "\<not> 2 ^ 1024 \<le> rr x" "\<not> rr x \<le> - (2 ^ 1024)" by linarith+
  then show ?thesis by (simp only: rnd_def Let_def if_False)
qed

lemma round_away_near: "\<bar>y - of_int n\<bar> < 1 / 2 \<Longrightarrow> round_away y = n"
proof -
  assume a: "\<bar>y - of_int n\<bar> < 1 / 2"
  have "\<lfloor>y + 1 / 2\<rfloor> = n" "\<lfloor>1 / 2 - y\<rfloor> = - n" using a by (intro floor_unique; linarith)+
  then show ?thesis by (simp add: round_away_def)
qed

text \<open>\<open>%.2f\<close>: the exact value rounded to hundredths, half to even.\<close>

fun fmt_f2 :: "f64 \<Rightarrow> string" where
  "fmt_f2 (Fin q) = (let n = nat (rhe (\<bar>q\<bar> * 100)) in
     (if q < 0 then ''-'' else []) @ nat_str (n div 100) @ CHR ''.'' # [char_of (48 + n div 10 mod 10), char_of (48 + n mod 10)])"
| "fmt_f2 PInf = ''+Inf''"
| "fmt_f2 NInf = ''-Inf''"
| "fmt_f2 NaN = ''NaN''"

end
