(* ===== verification/Console.thy ===== *)
theory Console
  imports Onboard Metering Batch Decimal
begin

text \<open>
  The operator console and the fleet views of package \<open>api\<close> (coordinator/internal/api/admin.go,
  admin_console.go, public_stats.go, models.go, the device list of onboard.go): the admin gate,
  the maintenance switch, key management, the device list that joins a live provider with its
  benchmark, owner and ledger, the overview, public statistics, credit adjustments and the
  disclosed configuration. Times are shown in nanoseconds where the code prints RFC 3339. The
  iteration order of the registry and the group orders the SQL leaves open are in \<open>cv\<close>; what
  the process environment and the build information say is left out of the views.
\<close>

record console_env =
  cv_order :: "string list"
  cv_now :: int
  cv_accruals :: "string list"
  cv_usage :: "(string \<times> string) list"
  cv_earnings :: "string option list"

subsection \<open>The gates\<close>

definition withAdmin :: "Config \<Rightarrow> http_req \<Rightarrow> (int \<times> string) option" where
  "withAdmin cfg r = (let tok = (if bearer r = [] then hr_Header r ''X-Admin-Token'' else bearer r) in
     if tok \<noteq> cf_AdminToken cfg then Some (401, ''unauthorized'') else None)"

text \<open>\<open>mountAdmin\<close>: without a configured token the routes do not exist.\<close>

definition admin_route :: "Config \<Rightarrow> http_req \<Rightarrow> (int \<times> string) option" where
  "admin_route cfg r = (if cf_AdminToken cfg = [] then Some (404, []) else withAdmin cfg r)"

record intakeState =
  in_paused :: bool
  in_message :: string
  in_since :: int

definition intakePaused :: "intakeState \<Rightarrow> bool \<times> string" where
  "intakePaused s = (in_paused s, in_message s)"

text \<open>The refusal with the message shown; \<open>None\<close>: the route runs.\<close>

definition gate :: "intakeState \<Rightarrow> (int \<times> string \<times> string) option" where
  "gate s = (case intakePaused s of (paused, msg) \<Rightarrow>
     if paused then Some (503, ''maintenance'',
       if msg = [] then ''Ayni is in maintenance; new work is not being accepted right now'' else msg) else None)"

text \<open>Cutting an operator's text at \<open>n\<close> bytes after trimming.\<close>

definition cut :: "nat \<Rightarrow> string \<Rightarrow> string" where
  "cut n s = (let t = trim_space s in if length t > n then take n t else t)"

definition adminGetIntake :: "intakeState \<Rightarrow> intakeState resp" where
  "adminGetIntake s = Reply 200 s"

definition adminSetIntake :: "int \<Rightarrow> http_req \<Rightarrow> (bool \<times> string) option \<Rightarrow> intakeState \<times> Ring \<Rightarrow> intakeState resp \<times> intakeState \<times> Ring" where
  "adminSetIntake now r body s = (case body of None \<Rightarrow> (Reject 400 ''invalid_json'', s)
   | Some (paused, message) \<Rightarrow>
       (let msg = cut 200 message;
            s' = \<lparr>in_paused = paused, in_message = msg, in_since = (if paused then now else 0)\<rparr>;
            action = (if paused then ''intake paused'' else ''intake resumed'') in
        (adminGetIntake s', s', fst (Audit now action [(''message'', msg), (''actor'', adminActor r)] (snd s)))))"

subsection \<open>Keys\<close>

text \<open>A body that does not decode leaves the label empty.\<close>

definition adminCreateKey :: "(string \<Rightarrow> string) \<Rightarrow> string \<Rightarrow> int \<Rightarrow> string option \<Rightarrow> PG \<Rightarrow> (string \<times> string \<times> string) resp \<times> PG" where
  "adminCreateKey sha256 random now body p = (let label = (case body of None \<Rightarrow> [] | Some l \<Rightarrow> l) in
     case pg_CreateConsumerKey sha256 random now (trim_space label) p of
       Inl _ \<Rightarrow> (Reject 500 ''create_failed'', p)
     | Inr ((i, raw), p') \<Rightarrow> (Reply 201 (i, raw, label), p'))"

definition adminListKeys :: "PG \<Rightarrow> KeyInfo list resp" where
  "adminListKeys p = Reply 200 (pg_ListConsumerKeys p)"

definition adminSetKey :: "bool \<Rightarrow> string \<Rightarrow> PG \<Rightarrow> (string \<times> bool) resp \<times> PG" where
  "adminSetKey disabled i p = (case pg_SetConsumerKeyDisabled i disabled p of
     Inl _ \<Rightarrow> (Reject 404 ''not_found'', p) | Inr p' \<Rightarrow> (Reply 200 (i, disabled), p'))"

subsection \<open>Devices\<close>

definition deviceKind :: "string \<Rightarrow> string" where
  "deviceKind platform = (let k = to_lower (trim_space platform) in
     if k \<in> {''android'', ''ios'', ''ipados''} then ''phone''
     else if k \<in> {''macos'', ''darwin'', ''linux'', ''windows''} then ''pc'' else ''other'')"

record nodeFacts =
  nf_ACU :: f64
  nf_Class :: string
  nf_DecodeTPS :: f64
  nf_SustainedEndTPS :: f64
  nf_CPUCores :: int
  nf_AvailableRAMMB :: "64 word"
  nf_Model :: string
  nf_UpdatedAt :: int

definition row_fingerprint :: "NodeCapabilityRow \<Rightarrow> Fingerprint" where
  "row_fingerprint c = \<lparr>fp_Model = nc_Model c, fp_Backend = nc_Backend c, PrefillTPS = nc_PrefillTPS c, DecodeTPS = nc_DecodeTPS c,
     SustainedStartTPS = nc_SustainedStartTPS c, SustainedEndTPS = nc_SustainedEndTPS c,
     MemBandwidthGBps = nc_MemBandwidthGBps c, AvailableRAMMB = nc_AvailableRAMMB c, CPUCores = nc_CPUCores c,
     fp_ThermalState = nc_ThermalState c\<rparr>"

definition row_facts :: "NodeCapabilityRow \<Rightarrow> nodeFacts" where
  "row_facts c = \<lparr>nf_ACU = ACU (row_fingerprint c), nf_Class = Class (row_fingerprint c), nf_DecodeTPS = nc_DecodeTPS c,
     nf_SustainedEndTPS = nc_SustainedEndTPS c, nf_CPUCores = nc_CPUCores c, nf_AvailableRAMMB = nc_AvailableRAMMB c,
     nf_Model = nc_Model c, nf_UpdatedAt = nc_UpdatedAt c\<rparr>"

definition nodeFactsByPK :: "PG \<Rightarrow> string \<rightharpoonup> nodeFacts" where
  "nodeFactsByPK p = foldl (\<lambda>m c. m(nc_StaticPK c \<mapsto> row_facts c)) Map.empty (pg_NodeCapabilities p)"

definition ownersByPK :: "accounts option \<Rightarrow> string \<rightharpoonup> User" where
  "ownersByPK acc = (case acc of None \<Rightarrow> Map.empty | Some a \<Rightarrow> OwnersByStaticPK a)"

definition accrualsByPK :: "console_env \<Rightarrow> PG \<Rightarrow> string \<rightharpoonup> ProviderAccrual" where
  "accrualsByPK v p = (case pg_AccruedByProvider (cv_accruals v) p of Inl _ \<Rightarrow> Map.empty
     | Inr rows \<Rightarrow> foldl (\<lambda>m a. m(pa_StaticPK a \<mapsto> a)) Map.empty rows)"

record ownerView =
  ow_UserID :: string
  ow_Email :: string
  ow_Name :: string

record deviceView =
  dv_ID :: string
  dv_StaticPK :: string
  dv_Kind :: string
  dv_Caps :: Capabilities
  dv_TrustTier :: string
  dv_ActiveJobs :: int
  dv_Draining :: bool
  dv_Telemetry :: Telemetry
  dv_ConnectedAt :: int
  dv_LastSeen :: int
  dv_ConnectedFor :: int
  dv_Owner :: "ownerView option"
  dv_ACU :: f64
  dv_Class :: string
  dv_DecodeTPS :: f64
  dv_SustainedEndTPS :: f64
  dv_CPUCores :: int
  dv_BenchmarkAt :: int
  dv_JobsUnpaid :: int
  dv_OwedUSD :: f64

text \<open>\<open>Duration.Round(time.Second)\<close>: half away from zero.\<close>

definition round_second :: "int \<Rightarrow> int" where
  "round_second d = (let m = 1000000000 in if d < 0 then - ((- d + m div 2) div m * m) else (d + m div 2) div m * m)"

definition live_view :: "int \<Rightarrow> Provider \<Rightarrow> deviceView" where
  "live_view now p = (case Load p of (jobs, drain) \<Rightarrow>
     \<lparr>dv_ID = ID p, dv_StaticPK = EncodeKey (StaticPKBytes p), dv_Kind = deviceKind (Platform (Caps p)), dv_Caps = Caps p,
      dv_TrustTier = TrustTier p, dv_ActiveJobs = jobs, dv_Draining = drain, dv_Telemetry = Tele p,
      dv_ConnectedAt = ConnectedAt p, dv_LastSeen = LastSeen p, dv_ConnectedFor = round_second (now - ConnectedAt p),
      dv_Owner = None, dv_ACU = 0, dv_Class = [], dv_DecodeTPS = 0, dv_SustainedEndTPS = 0, dv_CPUCores = 0,
      dv_BenchmarkAt = 0, dv_JobsUnpaid = 0, dv_OwedUSD = 0\<rparr>)"

definition join_facts :: "nodeFacts option \<Rightarrow> deviceView \<Rightarrow> deviceView" where
  "join_facts f v = (case f of None \<Rightarrow> v
     | Some f \<Rightarrow> v\<lparr>dv_ACU := nf_ACU f, dv_Class := nf_Class f, dv_DecodeTPS := nf_DecodeTPS f,
         dv_SustainedEndTPS := nf_SustainedEndTPS f, dv_CPUCores := nf_CPUCores f, dv_BenchmarkAt := nf_UpdatedAt f\<rparr>)"

definition join_owner :: "User option \<Rightarrow> deviceView \<Rightarrow> deviceView" where
  "join_owner u v = (case u of None \<Rightarrow> v
     | Some u \<Rightarrow> v\<lparr>dv_Owner := Some \<lparr>ow_UserID = us_ID u, ow_Email = us_Email u, ow_Name = us_Name u\<rparr>\<rparr>)"

definition join_accrual :: "ProviderAccrual option \<Rightarrow> deviceView \<Rightarrow> deviceView" where
  "join_accrual a v = (case a of None \<Rightarrow> v
     | Some a \<Rightarrow> v\<lparr>dv_JobsUnpaid := pa_Jobs a, dv_OwedUSD := f64_of_int (pa_OwedMicros a) / Fin 1000000\<rparr>)"

definition device_view :: "console_env \<Rightarrow> accounts option \<Rightarrow> PG \<Rightarrow> Provider \<Rightarrow> deviceView" where
  "device_view v acc p pr = (let d = live_view (cv_now v) pr; pk = dv_StaticPK d in
     join_accrual (accrualsByPK v p pk) (join_owner (ownersByPK acc pk) (join_facts (nodeFactsByPK p pk) d)))"

text \<open>The connection time is compared as printed, in whole seconds.\<close>

definition deviceViews :: "console_env \<Rightarrow> accounts option \<Rightarrow> PG \<Rightarrow> Registry \<Rightarrow> deviceView list" where
  "deviceViews v acc p reg = sort_by (\<lambda>x y. dv_ConnectedAt x div 1000000000 < dv_ConnectedAt y div 1000000000)
     (map (\<lambda>c. device_view v acc p (prov reg c)) (Snapshot reg (cv_order v)))"

definition adminProviders :: "console_env \<Rightarrow> accounts option \<Rightarrow> PG \<Rightarrow> Registry \<Rightarrow> (deviceView list \<times> int) resp" where
  "adminProviders v acc p reg = (let out = deviceViews v acc p reg in Reply 200 (out, int (length out)))"

text \<open>The signed-in user's own devices, online and offline.\<close>

record myDevice =
  my_StaticPK :: string
  my_Online :: bool
  my_Kind :: string
  my_Live :: "deviceView option"
  my_ACU :: f64
  my_Class :: string
  my_TPS :: f64
  my_LastSeen :: int
  my_JobsUnpaid :: int
  my_OwedUSD :: f64

definition my_device :: "(string \<rightharpoonup> deviceView) \<Rightarrow> (string \<rightharpoonup> nodeFacts) \<Rightarrow> (string \<rightharpoonup> ProviderAccrual) \<Rightarrow> string \<Rightarrow> myDevice" where
  "my_device online facts accr dpk = (let
     d = (case online dpk of
         None \<Rightarrow> \<lparr>my_StaticPK = dpk, my_Online = False, my_Kind = ''other'', my_Live = None, my_ACU = 0, my_Class = [],
           my_TPS = 0, my_LastSeen = 0, my_JobsUnpaid = 0, my_OwedUSD = 0\<rparr>
       | Some v \<Rightarrow> \<lparr>my_StaticPK = dpk, my_Online = True, my_Kind = dv_Kind v, my_Live = Some v, my_ACU = 0, my_Class = [],
           my_TPS = 0, my_LastSeen = dv_LastSeen v, my_JobsUnpaid = 0, my_OwedUSD = 0\<rparr>);
     d = (case facts dpk of None \<Rightarrow> d
       | Some f \<Rightarrow> d\<lparr>my_ACU := nf_ACU f, my_Class := nf_Class f,
           my_TPS := (if nf_SustainedEndTPS f = 0 then nf_DecodeTPS f else nf_SustainedEndTPS f),
           my_LastSeen := (if online dpk = None then nf_UpdatedAt f else my_LastSeen d)\<rparr>)
   in (case accr dpk of None \<Rightarrow> d
       | Some a \<Rightarrow> d\<lparr>my_JobsUnpaid := pa_Jobs a, my_OwedUSD := f64_of_int (pa_OwedMicros a) / Fin 1000000\<rparr>))"

definition handleMyDevices :: "(string \<Rightarrow> string) \<Rightarrow> console_env \<Rightarrow> web_req \<Rightarrow> accounts option \<Rightarrow> PG \<Rightarrow> Registry \<Rightarrow>
    (myDevice list \<times> int \<times> int) resp" where
  "handleMyDevices sha256 v c acc p reg = (case acc of None \<Rightarrow> Reject 404 ''accounts_disabled''
   | Some a \<Rightarrow> (case SessionUser sha256 (cv_now v) c a of None \<Rightarrow> Reject 401 ''unauthorized''
     | Some u \<Rightarrow> (let
         pks = DevicePKsForUser (us_ID u) a;
         online = foldl (\<lambda>m d. if dv_StaticPK d \<in> set pks then m(dv_StaticPK d \<mapsto> d) else m) Map.empty (deviceViews v acc p reg);
         out = map (my_device online (nodeFactsByPK p) (accrualsByPK v p)) pks
       in Reply 200 (out, int (length (filter my_Online out)), int (length out)))))"

subsection \<open>Overview\<close>

definition bump :: "string \<Rightarrow> (string \<rightharpoonup> int) \<Rightarrow> (string \<rightharpoonup> int)" where
  "bump k m = m(k \<mapsto> (case m k of None \<Rightarrow> 0 | Some n \<Rightarrow> n) + 1)"

record kindCompute =
  kc_Devices :: int
  kc_ACU :: f64
  kc_DecodeTPS :: f64
  kc_RAMMB :: int
  kc_ActiveJobs :: int
  kc_Attested :: int

definition kind_zero :: kindCompute where
  "kind_zero = \<lparr>kc_Devices = 0, kc_ACU = 0, kc_DecodeTPS = 0, kc_RAMMB = 0, kc_ActiveJobs = 0, kc_Attested = 0\<rparr>"

definition add_device :: "deviceView \<Rightarrow> kindCompute \<Rightarrow> kindCompute" where
  "add_device d c = (let tps = kc_DecodeTPS c + dv_SustainedEndTPS d in
     \<lparr>kc_Devices = kc_Devices c + 1, kc_ACU = kc_ACU c + dv_ACU d,
      kc_DecodeTPS = (if tps = 0 then tps + dv_DecodeTPS d else tps), kc_RAMMB = wrap64 (kc_RAMMB c + RAMMB (dv_Caps d)),
      kc_ActiveJobs = kc_ActiveJobs c + dv_ActiveJobs d,
      kc_Attested = kc_Attested c + (if dv_TrustTier d \<noteq> [] \<and> dv_TrustTier d \<noteq> ''community'' then 1 else 0)\<rparr>)"

definition round_kind :: "kindCompute \<Rightarrow> kindCompute" where
  "round_kind c = c\<lparr>kc_ACU := Round2 (kc_ACU c), kc_DecodeTPS := math_Round (kc_DecodeTPS c * Fin 10) / Fin 10\<rparr>"

record fleet =
  fl_ByKind :: "string \<rightharpoonup> int"
  fl_ByPlatform :: "string \<rightharpoonup> int"
  fl_ByTier :: "string \<rightharpoonup> int"
  fl_ByClass :: "string \<rightharpoonup> int"
  fl_Compute :: "string \<rightharpoonup> kindCompute"
  fl_ActiveJobs :: int
  fl_TotalACU :: f64
  fl_Owners :: "string set"
  fl_Models :: "string \<rightharpoonup> int"

definition fleet_zero :: fleet where
  "fleet_zero = \<lparr>fl_ByKind = [''phone'' \<mapsto> 0, ''pc'' \<mapsto> 0, ''other'' \<mapsto> 0], fl_ByPlatform = Map.empty, fl_ByTier = Map.empty,
     fl_ByClass = Map.empty, fl_Compute = [''phone'' \<mapsto> kind_zero, ''pc'' \<mapsto> kind_zero, ''other'' \<mapsto> kind_zero],
     fl_ActiveJobs = 0, fl_TotalACU = 0, fl_Owners = {}, fl_Models = Map.empty\<rparr>"

definition add_fleet :: "fleet \<Rightarrow> deviceView \<Rightarrow> fleet" where
  "add_fleet s d = \<lparr>fl_ByKind = bump (dv_Kind d) (fl_ByKind s), fl_ByPlatform = bump (Platform (dv_Caps d)) (fl_ByPlatform s),
     fl_ByTier = bump (dv_TrustTier d) (fl_ByTier s),
     fl_ByClass = bump (if dv_Class d \<noteq> [] then dv_Class d else ''unbenchmarked'') (fl_ByClass s),
     fl_Compute = (fl_Compute s)(dv_Kind d := map_option (add_device d) (fl_Compute s (dv_Kind d))),
     fl_ActiveJobs = fl_ActiveJobs s + dv_ActiveJobs d, fl_TotalACU = fl_TotalACU s + dv_ACU d,
     fl_Owners = (case dv_Owner d of None \<Rightarrow> fl_Owners s | Some x \<Rightarrow> insert (ow_UserID x) (fl_Owners s)),
     fl_Models = fold bump (Models (dv_Caps d)) (fl_Models s)\<rparr>"

definition fleet_of :: "deviceView list \<Rightarrow> fleet" where
  "fleet_of devs = (let s = foldl add_fleet fleet_zero devs in s\<lparr>fl_Compute := map_option round_kind \<circ> fl_Compute s\<rparr>)"

record overview =
  ov_Database :: bool
  ov_Accounts :: bool
  ov_Stripe :: bool
  ov_Signing :: bool
  ov_Heartbeat :: int
  ov_Intake :: intakeState
  ov_Online :: int
  ov_Known :: int
  ov_Fleet :: fleet
  ov_ACU :: f64
  ov_Users :: int
  ov_UsersWithDevices :: int
  ov_UsersOnline :: int
  ov_Requests :: int
  ov_PromptTokens :: int
  ov_CompletionTokens :: int
  ov_Jobs7 :: int
  ov_GrossUSD :: f64
  ov_ProviderUSD :: f64
  ov_Waitlist :: int
  ov_Warns :: int
  ov_Errs :: int
  ov_LastErr :: "event option"
  ov_Stored :: nat

definition sum64 :: "('a \<Rightarrow> int) \<Rightarrow> 'a list \<Rightarrow> int" where
  "sum64 f xs = foldl (\<lambda>n x. wrap64 (n + f x)) 0 xs"

definition adminOverview :: "console_env \<Rightarrow> Config \<Rightarrow> bool \<Rightarrow> bool \<Rightarrow> intakeState \<Rightarrow> Ring \<Rightarrow> accounts option \<Rightarrow> PG \<Rightarrow> Registry \<Rightarrow> overview resp" where
  "adminOverview v cfg stripe signing st ring acc p reg = (let
     devs = deviceViews v acc p reg; fl = fleet_of devs; now = cv_now v;
     us = (case acc of None \<Rightarrow> [] | Some a \<Rightarrow> ListUsers a);
     usage = pg_UsageSince (cv_usage v) (now - 24 * hour) p;
     earn = pg_EarningsSince (cv_earnings v) (now - 7 * 24 * hour) p;
     (warns, errs, lastErr) = Counts now hour ring
   in Reply 200 \<lparr>ov_Database = (cf_DatabaseURL cfg \<noteq> []), ov_Accounts = (acc \<noteq> None), ov_Stripe = stripe, ov_Signing = signing,
     ov_Heartbeat = cf_HeartbeatSeconds cfg, ov_Intake = st, ov_Online = int (length devs), ov_Known = int (card (dom (nodeFactsByPK p))), ov_Fleet = fl,
     ov_ACU = Round2 (fl_TotalACU fl), ov_Users = int (length us),
     ov_UsersWithDevices = int (length (filter (\<lambda>u. ad_Devices u > 0) us)), ov_UsersOnline = int (card (fl_Owners fl)),
     ov_Requests = sum64 ur_Requests usage, ov_PromptTokens = sum64 ur_PromptTokens usage,
     ov_CompletionTokens = sum64 ur_CompletionTokens usage, ov_Jobs7 = sum64 er_Jobs earn,
     ov_GrossUSD = f64_of_int (sum64 er_GrossMicros earn) / Fin 1000000,
     ov_ProviderUSD = f64_of_int (sum64 er_ProviderMicros earn) / Fin 1000000,
     ov_Waitlist = int (length (pg_WaitlistSince (now - 10 * 365 * 24 * hour) p)),
     ov_Warns = warns, ov_Errs = errs, ov_LastErr = lastErr, ov_Stored = Len ring\<rparr>)"

subsection \<open>Accounts, events, supply, ledgers\<close>

record user_line =
  ul_User :: AdminUser
  ul_CreditUSD :: f64
  ul_Online :: int

definition adminUsers :: "console_env \<Rightarrow> accounts option \<Rightarrow> PG \<Rightarrow> Registry \<Rightarrow> (user_line list \<times> int) resp" where
  "adminUsers v acc p reg = (case acc of None \<Rightarrow> Reply 200 ([], 0)
   | Some a \<Rightarrow> (let us = ListUsers a; devs = deviceViews v acc p reg;
       out = map (\<lambda>u. \<lparr>ul_User = u,
         ul_CreditUSD = f64_of_int (if ad_APIKeyID u \<noteq> [] then pg_CreditBalance p (ad_APIKeyID u) else 0) / Fin 1000000,
         ul_Online = int (length (filter (\<lambda>d. map_option ow_UserID (dv_Owner d) = Some (us_ID (ad_User u))) devs))\<rparr>) us
     in Reply 200 (out, int (length out))))"

record events_view =
  ev_Events :: "event list"
  ev_Count :: int
  ev_Stored :: nat
  ev_Warns :: int
  ev_Errs :: int

text \<open>\<open>strconv.ParseUint\<close>: zero when it is not a number, the largest value when it is too big.\<close>

definition parse_uint :: "string \<Rightarrow> nat" where
  "parse_uint s = (if s = [] \<or> \<not> list_all is_digit s then 0 else min (dec_val s) (2 ^ 64 - 1))"

definition adminEvents :: "int \<Rightarrow> (string \<Rightarrow> string) \<Rightarrow> Ring \<Rightarrow> events_view resp" where
  "adminEvents now q ring = (let evs = Recent (query_int (q ''limit'')) (q ''level'') (q ''q'') (parse_uint (q ''since_seq'')) ring;
       (warns, errs, _) = Counts now hour ring in
     Reply 200 \<lparr>ev_Events = evs, ev_Count = int (length evs), ev_Stored = Len ring, ev_Warns = warns, ev_Errs = errs\<rparr>)"

record node_line =
  nl_Row :: NodeCapabilityRow
  nl_Online :: bool
  nl_Decay :: f64
  nl_ACU :: f64
  nl_Class :: string

definition adminNodes :: "console_env \<Rightarrow> PG \<Rightarrow> Registry \<Rightarrow> (node_line list \<times> int \<times> f64) resp" where
  "adminNodes v p reg = (let caps = pg_NodeCapabilities p;
       online = set (map (\<lambda>c. EncodeKey (StaticPKBytes (prov reg c))) (Snapshot reg (cv_order v)));
       out = map (\<lambda>c. \<lparr>nl_Row = c, nl_Online = (nc_StaticPK c \<in> online), nl_Decay = ThermalDecayPct (row_fingerprint c),
         nl_ACU = ACU (row_fingerprint c), nl_Class = Class (row_fingerprint c)\<rparr>) caps;
       acu = foldl (\<lambda>t n. if nl_Online n then t + nl_ACU n else t) 0 out
     in Reply 200 (out, int (length out), Round2 acu))"

definition query_hours :: "int \<Rightarrow> int \<Rightarrow> string \<Rightarrow> int" where
  "query_hours dflt hi s = (if s = [] then dflt else case Atoi s of None \<Rightarrow> dflt | Some n \<Rightarrow> if n > 0 \<and> n \<le> hi then n else dflt)"

definition adminUsage :: "console_env \<Rightarrow> string \<Rightarrow> PG \<Rightarrow> (int \<times> UsageRow list) resp" where
  "adminUsage v q p = (let hours = query_hours 24 (24 * 90) q in
     Reply 200 (hours, pg_UsageSince (cv_usage v) (cv_now v - hours * hour) p))"

record earnings_view =
  es_Hours :: int
  es_Rows :: "EarningRow list"
  es_Gross :: int
  es_Prov :: int
  es_ProvUSD :: f64

definition adminEarnings :: "console_env \<Rightarrow> string \<Rightarrow> PG \<Rightarrow> earnings_view resp" where
  "adminEarnings v q p = (let hours = query_hours (24 * 7) (24 * 365) q;
       rows = pg_EarningsSince (cv_earnings v) (cv_now v - hours * hour) p in
     Reply 200 \<lparr>es_Hours = hours, es_Rows = rows, es_Gross = sum64 er_GrossMicros rows, es_Prov = sum64 er_ProviderMicros rows,
       es_ProvUSD = f64_of_int (sum64 er_ProviderMicros rows) / Fin 1000000\<rparr>)"

subsection \<open>Controls\<close>

text \<open>The calls of a provider's \<open>Close\<close>, with the reason its socket is closed with.\<close>

type_synonym closes = "(string \<times> string) list"

definition adminDrain :: "console_env \<Rightarrow> http_req \<Rightarrow> Registry \<Rightarrow> Ring \<Rightarrow> int resp \<times> Ring \<times> closes" where
  "adminDrain v r reg ring = (let cs = map (\<lambda>c. (ID (prov reg c), ''coordinator draining: reconnect'')) (Snapshot reg (cv_order v)) in
     (Reply 200 (int (length cs)), fst (Audit (cv_now v) ''drain: all providers disconnected''
        [(''providers'', int_str (int (length cs))), (''actor'', adminActor r)] ring), cs))"

definition adminDisconnectProvider :: "int \<Rightarrow> http_req \<Rightarrow> string \<Rightarrow> string option \<Rightarrow> Registry \<times> Ring \<Rightarrow>
    (string \<times> string) resp \<times> (Registry \<times> Ring) \<times> closes" where
  "adminDisconnectProvider now r i body s = (case s of (reg, ring) \<Rightarrow> (let
     reason = trim_space (case body of None \<Rightarrow> [] | Some x \<Rightarrow> x);
     reason = (if reason = [] then ''disconnected by operator'' else reason);
     reason = (if length reason > 120 then take 120 reason else reason)
   in case Get reg i of None \<Rightarrow> (Reject 404 ''not_found'', s, [])
     | Some c \<Rightarrow> (Reply 200 (i, reason),
         (upd_prov (SetDraining True) c reg, fst (Audit now ''provider disconnected by operator''
            [(''provider_id'', i), (''platform'', Platform (Caps (prov reg c))), (''reason'', reason), (''actor'', adminActor r)] ring)),
         [(ID (prov reg c), reason)])))"

record creditBody =
  cr_KeyID :: string
  cr_AmountUSD :: f64
  cr_Note :: string

definition credit_ok :: "f64 \<Rightarrow> bool" where
  "credit_ok x = (case x of Fin q \<Rightarrow> q \<noteq> 0 \<and> \<bar>q\<bar> \<le> 1000 | _ \<Rightarrow> False)"

definition credit_micros :: "f64 \<Rightarrow> int" where
  "credit_micros x = f64_to_int64 (math_Round (x * Fin 1000000))"

record credit_view =
  cw_KeyID :: string
  cw_AppliedUSD :: f64
  cw_BalanceUSD :: f64

definition audit_credit :: "int \<Rightarrow> http_req \<Rightarrow> creditBody \<Rightarrow> Ring \<Rightarrow> Ring" where
  "audit_credit now r b ring = fst (Audit now ''credit adjusted'' [(''key_id'', trim_space (cr_KeyID b)),
     (''amount_usd'', fmt_f2 (cr_AmountUSD b)), (''note'', cut 200 (cr_Note b)), (''actor'', adminActor r)] ring)"

definition adminCredit :: "int \<Rightarrow> http_req \<Rightarrow> creditBody option \<Rightarrow> PG \<times> Ring \<Rightarrow> credit_view resp \<times> PG \<times> Ring" where
  "adminCredit now r body s = (case s of (p, ring) \<Rightarrow> (case body of None \<Rightarrow> (Reject 400 ''invalid_request'', s)
   | Some b \<Rightarrow> (let k = trim_space (cr_KeyID b) in
       if k = [] then (Reject 400 ''invalid_request'', s)
       else if \<not> credit_ok (cr_AmountUSD b) then (Reject 400 ''invalid_amount'', s)
       else (case pg_AddCredit \<lparr>mv_key = k, mv_delta = credit_micros (cr_AmountUSD b), mv_reason = ''adjust'', mv_ref = [], mv_job = []\<rparr> p of
           Inl _ \<Rightarrow> (Reject 500 ''credit_failed'', s)
         | Inr p' \<Rightarrow> (Reply 200 \<lparr>cw_KeyID = k, cw_AppliedUSD = cr_AmountUSD b,
             cw_BalanceUSD = f64_of_int (pg_CreditBalance p' k) / Fin 1000000\<rparr>, (p', audit_credit now r b ring))))))"

subsection \<open>Disclosed configuration\<close>

record config_view =
  fv_HTTPAddr :: string
  fv_Heartbeat :: int
  fv_JobDeadlineMS :: int
  fv_RatePerMin :: int
  fv_PriceMultiplier :: f64
  fv_Margin :: f64
  fv_QuoteTTL :: int
  fv_BillingEnforce :: bool
  fv_ManifestURL :: string
  fv_SignerID :: string
  fv_KMS :: bool
  fv_AppURL :: string
  fv_PublicBaseURL :: string
  fv_Database :: bool
  fv_Stripe :: bool
  fv_StripeWebhooks :: bool
  fv_OAuth :: "string list"
  fv_ProviderTokens :: int
  fv_ConsumerKeys :: int
  fv_ModelReview :: bool

definition adminConfig :: "Config \<Rightarrow> bool \<Rightarrow> string option \<Rightarrow> string list \<Rightarrow> Auth option \<Rightarrow> config_view" where
  "adminConfig cfg stripe signer order au = \<lparr>fv_HTTPAddr = cf_HTTPAddr cfg, fv_Heartbeat = cf_HeartbeatSeconds cfg,
     fv_JobDeadlineMS = cf_JobDeadlineMS cfg, fv_RatePerMin = cf_RatePerMin cfg, fv_PriceMultiplier = cf_PriceMultiplier cfg,
     fv_Margin = cf_MarketplaceMargin cfg, fv_QuoteTTL = cf_QuoteTTLSeconds cfg, fv_BillingEnforce = cf_BillingEnforce cfg,
     fv_ManifestURL = cf_ManifestURL cfg, fv_SignerID = (case signer of None \<Rightarrow> [] | Some i \<Rightarrow> i),
     fv_KMS = (cf_ManifestKMSKey cfg \<noteq> []), fv_AppURL = cf_AppURL cfg, fv_PublicBaseURL = cf_PublicBaseURL cfg,
     fv_Database = (cf_DatabaseURL cfg \<noteq> []), fv_Stripe = stripe,
     fv_StripeWebhooks = (cf_StripeWebhookSecret cfg \<noteq> [] \<and> cf_StripeConnectWebhookSecret cfg \<noteq> []),
     fv_OAuth = (case au of None \<Rightarrow> [] | Some a \<Rightarrow> Providers order a),
     fv_ProviderTokens = int (card (cf_ProviderRegistrationTokens cfg)), fv_ConsumerKeys = int (card (cf_ConsumerAPIKeys cfg)),
     fv_ModelReview = (cf_CouncilModelID cfg \<noteq> [])\<rparr>"

subsection \<open>Public views\<close>

record publicStats =
  ps_DevicesOnline :: int
  ps_DevicesKnown :: int
  ps_ByKind :: "string \<rightharpoonup> int"
  ps_ACUOnline :: f64
  ps_DecodeTPS :: f64
  ps_Jobs24h :: int
  ps_Jobs7d :: int
  ps_Models :: "string set"
  ps_GeneratedAt :: int

definition device_tps :: "deviceView \<Rightarrow> f64" where
  "device_tps d = (if dv_SustainedEndTPS d > 0 then dv_SustainedEndTPS d else dv_DecodeTPS d)"

definition tenths :: "f64 \<Rightarrow> f64" where
  "tenths x = f64_of_int (f64_to_int64 (x * Fin 10)) / Fin 10"

definition public_stats :: "console_env \<Rightarrow> accounts option \<Rightarrow> PG \<Rightarrow> Registry \<Rightarrow> publicStats" where
  "public_stats v acc p reg = (let devs = deviceViews v acc p reg in
     \<lparr>ps_DevicesOnline = int (length devs), ps_DevicesKnown = int (card (dom (nodeFactsByPK p))),
      ps_ByKind = foldl (\<lambda>m d. bump (dv_Kind d) m) [''phone'' \<mapsto> 0, ''pc'' \<mapsto> 0, ''other'' \<mapsto> 0] devs,
      ps_ACUOnline = Round2 (foldl (\<lambda>t d. t + dv_ACU d) 0 devs),
      ps_DecodeTPS = tenths (foldl (\<lambda>t d. t + device_tps d) 0 devs),
      ps_Jobs24h = sum64 ur_Requests (pg_UsageSince (cv_usage v) (cv_now v - 24 * hour) p),
      ps_Jobs7d = sum64 er_Jobs (pg_EarningsSince (cv_earnings v) (cv_now v - 7 * 24 * hour) p),
      ps_Models = \<Union> ((\<lambda>d. set (Models (dv_Caps d))) ` set devs), ps_GeneratedAt = cv_now v\<rparr>)"

definition publicStatsTTL :: int where "publicStatsTTL = 30 * 1000000000"

text \<open>The cache with the time it was filled; \<open>None\<close> is the zero time.\<close>

definition handlePublicStats :: "console_env \<Rightarrow> accounts option \<Rightarrow> PG \<Rightarrow> Registry \<Rightarrow> (int \<times> publicStats) option \<Rightarrow>
    publicStats \<times> (int \<times> publicStats) option" where
  "handlePublicStats v acc p reg cache = (let fresh = public_stats v acc p reg in
     case cache of Some (t, body) \<Rightarrow> if cv_now v - t < publicStatsTTL then (body, cache) else (fresh, Some (cv_now v, fresh))
     | None \<Rightarrow> (fresh, Some (cv_now v, fresh)))"

record modelObject =
  mo_ID :: string
  mo_Created :: int
  mo_HardwareClass :: string
  mo_ContextLength :: int
  mo_Quantization :: string

definition handleModels :: "int \<Rightarrow> Catalog option \<Rightarrow> Registry \<Rightarrow> string list \<Rightarrow> modelObject list" where
  "handleModels now cat reg order = (if (case cat of None \<Rightarrow> False | Some c \<Rightarrow> cat_Enabled c)
     then map (\<lambda>m. \<lparr>mo_ID = md_ModelID m, mo_Created = now div 1000000000, mo_HardwareClass = md_HardwareClass m,
       mo_ContextLength = md_ContextLength m, mo_Quantization = md_Quantization m\<rparr>) (case cat of None \<Rightarrow> [] | Some c \<Rightarrow> cat_models c)
     else map (\<lambda>i. \<lparr>mo_ID = i, mo_Created = now div 1000000000, mo_HardwareClass = [], mo_ContextLength = 0,
       mo_Quantization = []\<rparr>) (All_models reg order))"

end
