(* ===== verification/Console_Props.thy ===== *)
theory Console_Props
  imports Console Auth_Props Decimal
begin

text \<open>
  What the console does with money and devices: a credit adjustment moves the balance by exactly
  the micro-dollars the operator typed, the device list of an account agrees with its earnings,
  the overview's counts add up, and the disclosed configuration does not depend on any secret.
\<close>

subsection \<open>Credit adjustments\<close>

text \<open>An amount of \<open>n\<close> micro-dollars, typed in dollars, comes back as \<open>n\<close>.\<close>

lemma credit_micros_exact:
  assumes "n \<noteq> 0" "\<bar>n\<bar> < 1000000000"
  shows "credit_micros (rnd (of_int n / 1000000)) = n \<and> credit_ok (rnd (of_int n / 1000000))"
proof -
  define x :: rat where "x = of_int n / 1000000"
  define N :: rat where "N = of_int n"
  have "\<bar>N\<bar> = of_int \<bar>n\<bar>" by (simp add: N_def)
  moreover have "(of_int 1 :: rat) \<le> of_int \<bar>n\<bar>" "(of_int \<bar>n\<bar> :: rat) \<le> of_int 999999999"
    unfolding of_int_le_iff using assms by linarith+
  ultimately have N: "1 \<le> \<bar>N\<bar>" "\<bar>N\<bar> \<le> 999999999" by simp_all
  have x: "x * 1000000 = N" by (simp add: x_def N_def)
  then have xb: "\<bar>x\<bar> * 1000000 = \<bar>N\<bar>" by (metis abs_mult abs_numeral)
  have k: "(2::rat) powi (10 - 54) = 1 / 2 ^ 44" "(2::rat) powi (31 - 54) = 1 / 2 ^ 23" "(2::rat) powi 10 = 1024" "(2::rat) powi 31 = 2 ^ 31"
    using powi_neg [of 44] powi_neg [of 23] by simp_all
  have "\<bar>x\<bar> < 2 powi 10" unfolding k using xb N by linarith
  from rr_error [OF this] have e1: "\<bar>rr x - x\<bar> \<le> 1 / 2 ^ 44" unfolding k by simp
  define y where "y = rr x * 1000000"
  have y: "\<bar>y - N\<bar> \<le> 1000000 / 2 ^ 44"
  proof -
    have "y - N = (rr x - x) * 1000000" by (simp add: y_def x [symmetric] left_diff_distrib)
    moreover have "\<bar>(rr x - x) * 1000000\<bar> = \<bar>rr x - x\<bar> * 1000000" by (simp only: abs_mult abs_numeral)
    ultimately have "\<bar>y - N\<bar> = \<bar>rr x - x\<bar> * 1000000" by (simp only:)
    moreover have "\<bar>rr x - x\<bar> * 1000000 \<le> 1 / 2 ^ 44 * 1000000" by (rule mult_right_mono [OF e1]) simp
    ultimately show ?thesis by simp
  qed
  have "\<bar>y\<bar> \<le> \<bar>y - N\<bar> + \<bar>N\<bar>" using abs_triangle_ineq [of "y - N" N] by simp
  moreover have "\<bar>y - N\<bar> \<le> 1" using y by (rule order_trans) simp
  ultimately have "\<bar>y\<bar> < 2 powi 31" unfolding k using N by simp
  from rr_error [OF this] have e2: "\<bar>rr y - y\<bar> \<le> 1 / 2 ^ 23" unfolding k by simp
  have "\<bar>rr y - N\<bar> \<le> \<bar>rr y - y\<bar> + \<bar>y - N\<bar>" using abs_triangle_ineq [of "rr y - y" "y - N"] by simp
  also have "\<dots> \<le> 1 / 2 ^ 23 + 1000000 / 2 ^ 44" by (rule add_mono [OF e2 y])
  also have "\<dots> < 1 / 2" by simp
  finally have "round_away (rr y) = n" unfolding N_def by (rule round_away_near)
  moreover have "rnd x = Fin (rr x)" by (rule rnd_small) (use \<open>\<bar>x\<bar> < 2 powi 10\<close> k in simp)
  moreover have "rnd y = Fin (rr y)" by (rule rnd_small) (use \<open>\<bar>y\<bar> < 2 powi 31\<close> k in simp)
  moreover have "is_int64 n" using assms(2) by (simp add: is_int64_def abs_less_iff)
  ultimately have m: "credit_micros (rnd x) = n"
    by (simp add: credit_micros_def times_f64_def y_def [symmetric])
  have "\<bar>rr x\<bar> \<le> \<bar>rr x - x\<bar> + \<bar>x\<bar>" using abs_triangle_ineq [of "rr x - x" x] by simp
  moreover have "\<bar>x\<bar> \<le> 999999999 / 1000000" using xb N(2) by linarith
  moreover have "(1::rat) / 2 ^ 44 \<le> 1 / 1000000" by simp
  ultimately have "\<bar>rr x\<bar> \<le> 1000" using e1 by linarith
  moreover have "rr x \<noteq> 0" using e1 xb N by auto
  ultimately have "rr x \<noteq> 0 \<and> \<bar>rr x\<bar> \<le> 1000" by simp
  then show ?thesis using m \<open>rnd x = Fin (rr x)\<close> by (simp add: credit_ok_def x_def)
qed

lemma pg_adjust:
  assumes "mv_reason v = ''adjust''"
  shows "pg_AddCredit v p = pg_insert v p"
  using assms by (simp add: pg_AddCredit_def pg_insert_def Let_def)

lemma audit_newest:
  assumes "ring_wf ring"
  shows "snapshot (fst (Audit now action attrs ring)) \<noteq> [] \<and>
    last (snapshot (fst (Audit now action attrs ring))) =
      \<lparr>Seq = (seq_ctr ring + 1) mod 2 ^ 64, ev_TS = now, Level = ''AUDIT'', Msg = action, Attrs = attrs\<rparr>"
proof -
  let ?e = "\<lparr>Seq = (seq_ctr ring + 1) mod 2 ^ 64, ev_TS = now, Level = ''AUDIT'', Msg = action, Attrs = attrs\<rparr>"
  let ?r = "ring\<lparr>seq_ctr := (seq_ctr ring + 1) mod 2 ^ 64\<rparr>"
  have w: "ring_wf ?r" "0 < length (ring_buf ?r)" using assms by (auto simp: ring_wf_def)
  have "fst (Audit now action attrs ring) = store_event ?e ?r" by (simp add: Audit_def Push_def next_seq_def Let_def)
  then have s: "snapshot (fst (Audit now action attrs ring)) = keep_last (length (ring_buf ?r)) (snapshot ?r @ [?e])"
    using snapshot_store [OF w(1)] by (simp only:)
  have "keep_last n (xs @ [x]) \<noteq> [] \<and> last (keep_last n (xs @ [x])) = x" if "0 < n" for n and xs :: "event list" and x
    using that by (simp add: keep_last_def last_drop)
  then show ?thesis unfolding s using w(2) by blast
qed

definition balance_shift :: "PG \<Rightarrow> PG \<Rightarrow> string \<Rightarrow> int \<Rightarrow> bool" where
  "balance_shift p p' k n \<longleftrightarrow> (\<forall>j. pg_CreditBalance p' j = pg_CreditBalance p j + (if j = k then n else 0))"

text \<open>An operator's credit adjustment moves exactly the amount typed, and leaves a trace. For any
  amount of \<open>n\<close> micro-dollars below 1000 dollars either way, written as a decimal number of dollars
  and read as the nearest binary float, the named key's balance moves by exactly \<open>n\<close>, no other
  balance moves, and the adjustment is the newest event of the audit trail; it is refused, leaving
  everything as it was, exactly when no key is named or the new balance would not fit 64 bits.\<close>

lemma admin_credit_exact:
  assumes "n \<noteq> 0" "\<bar>n\<bar> < 1000000000" "cr_AmountUSD b = rnd (of_int n / 1000000)" "ring_wf ring"
  shows "case adminCredit now r (Some b) (p, ring) of
      (Reply status w, p', ring') \<Rightarrow> trim_space (cr_KeyID b) \<noteq> [] \<and> cw_KeyID w = trim_space (cr_KeyID b) \<and>
        balance_shift p p' (cw_KeyID w) n \<and> is_int64 (pg_CreditBalance p' (cw_KeyID w)) \<and>
        snapshot ring' \<noteq> [] \<and> (let e = last (snapshot ring') in Level e = ''AUDIT'' \<and> ev_TS e = now \<and>
          Msg e = ''credit adjusted'' \<and> map_of (Attrs e) ''key_id'' = Some (cw_KeyID w) \<and> map_of (Attrs e) ''actor'' = Some (adminActor r))
    | (Reject status code, p', ring') \<Rightarrow> p' = p \<and> ring' = ring \<and>
        (trim_space (cr_KeyID b) = [] \<or> \<not> is_int64 (pg_CreditBalance p (trim_space (cr_KeyID b)) + n))"
proof -
  have ok: "credit_ok (cr_AmountUSD b)" "credit_micros (cr_AmountUSD b) = n"
    using credit_micros_exact [OF assms(1,2)] assms(3) by simp_all
  have "is_int64 n" using assms(2) by (simp add: is_int64_def abs_less_iff)
  moreover have "snapshot (audit_credit now r b ring) \<noteq> [] \<and>
      last (snapshot (audit_credit now r b ring)) = \<lparr>Seq = (seq_ctr ring + 1) mod 2 ^ 64, ev_TS = now, Level = ''AUDIT'',
        Msg = ''credit adjusted'', Attrs = [(''key_id'', trim_space (cr_KeyID b)), (''amount_usd'', fmt_f2 (cr_AmountUSD b)),
          (''note'', cut 200 (cr_Note b)), (''actor'', adminActor r)]\<rparr>"
    using audit_newest [OF assms(4)] by (simp add: audit_credit_def)
  ultimately show ?thesis
    using ok by (simp add: adminCredit_def Let_def pg_adjust pg_insert_def pg_CreditBalance_def balance_shift_def)
qed

lemma admin_credit_exact_witness:
  "pg_CreditBalance (fst (snd (adminCredit 0 sample_post
      (Some \<lparr>cr_KeyID = '' k '', cr_AmountUSD = rnd (of_int 1250001 / 1000000), cr_Note = []\<rparr>)
      (NewPG (\<lambda>x. x) [] [], NewRing 16)))) ''k'' = 1250001"
proof -
  let ?b = "\<lparr>cr_KeyID = '' k '', cr_AmountUSD = rnd (of_int 1250001 / 1000000), cr_Note = []\<rparr>"
  have k: "trim_space '' k '' = ''k''" by code_simp
  have "pg_CreditBalance (NewPG (\<lambda>x. x) [] []) ''k'' = 0" by (rule new_pg_balance)
  then show ?thesis
    using admin_credit_exact [where n = 1250001 and b = ?b and ring = "NewRing 16" and now = 0
        and r = sample_post and p = "NewPG (\<lambda>x. x) [] []"]
    by (auto simp: k balance_shift_def is_int64_def ring_wf_New split: prod.splits resp.splits)
qed

subsection \<open>The device list of an account\<close>

lemma foldl_upd_map_of:
  "foldl (\<lambda>m a. m(f a \<mapsto> g a)) m0 xs = m0 ++ map_of (rev (map (\<lambda>a. (f a, g a)) xs))"
  by (induction xs rule: rev_induct) (auto simp: fun_eq_iff map_add_def)

text \<open>The ledger's map holds, for every identity with an accrued row, what the ledger owes it.\<close>

lemma accruals_at:
  assumes "\<And>e. pg_AccruedByProvider (cv_accruals v) p \<noteq> Inl e" "distinct (cv_accruals v)"
  shows "accrualsByPK v p k = (if k \<in> set (cv_accruals v) then Some (accrual_of p k) else None)"
proof -
  obtain rows where rows: "pg_AccruedByProvider (cv_accruals v) p = Inr rows"
    using assms(1) by (cases "pg_AccruedByProvider (cv_accruals v) p") auto
  then have m: "mset rows = mset (map (accrual_of p) (cv_accruals v))"
    by (auto simp: pg_AccruedByProvider_def split: if_splits)
  have pk: "pa_StaticPK \<circ> accrual_of p = id" by (simp add: fun_eq_iff accrual_of_def)
  have "mset (map pa_StaticPK rows) = mset (cv_accruals v)"
    using arg_cong [OF m, of "image_mset pa_StaticPK"] by (simp add: mset_map [symmetric] pk del: mset_map)
  then have d: "distinct (map pa_StaticPK rows)" "set (map pa_StaticPK rows) = set (cv_accruals v)"
    using assms(2) mset_eq_imp_distinct_iff mset_eq_setD by blast+
  let ?m = "map_of (rev (map (\<lambda>a. (pa_StaticPK a, a)) rows))"
  have eq: "accrualsByPK v p = ?m"
    by (simp add: accrualsByPK_def rows foldl_upd_map_of)
  have dd: "distinct (map fst (rev (map (\<lambda>a. (pa_StaticPK a, a)) rows)))"
    using d(1) by (simp add: rev_map [symmetric] comp_def)
  show ?thesis
  proof (cases "k \<in> set (cv_accruals v)")
    case True
    then have "accrual_of p k \<in> set rows" using mset_eq_setD [OF m] by simp
    then have "?m k = Some (accrual_of p k)" using dd by (intro map_of_is_SomeI) (auto simp: accrual_of_def image_iff)
    then show ?thesis using True eq by simp
  next
    case False
    then have "k \<notin> fst ` set (rev (map (\<lambda>a. (pa_StaticPK a, a)) rows))" using d(2) by auto
    then show ?thesis using False eq by (simp add: map_of_eq_None_iff)
  qed
qed

lemma my_device_fields:
  "my_StaticPK (my_device on f ac k) = k"
  "my_Online (my_device on f ac k) = (on k \<noteq> None)"
  "my_JobsUnpaid (my_device on f ac k) = (case ac k of None \<Rightarrow> 0 | Some a \<Rightarrow> pa_Jobs a)"
  "my_OwedUSD (my_device on f ac k) = (case ac k of None \<Rightarrow> 0 | Some a \<Rightarrow> f64_of_int (pa_OwedMicros a) / Fin 1000000)"
  by (simp_all add: my_device_def Let_def split: option.splits)

definition accrued_identities :: "PG \<Rightarrow> string set" where
  "accrued_identities p = e_pk ` set (filter (\<lambda>r. e_state r = ''accrued'') (provider_earnings p))"

lemma not_accrued: "k \<notin> accrued_identities p \<Longrightarrow> accrued_rows k p = []"
  by (auto simp: accrued_identities_def accrued_rows_def filter_empty_conv)

text \<open>The list of a person's devices agrees with the ledger. It shows each device paired with
  the account of the session exactly once, and nobody else's; against each, the number of unpaid
  jobs and the dollars the ledger owes that identity; so the jobs of the list add up to those of
  the earnings the same session is shown, which counts as many devices, and the total is the
  list's length, whichever devices are online.\<close>

lemma my_devices_match_earnings:
  assumes "distinct (map o_pk (provider_owners a))"
    and "distinct (cv_accruals v)" "set (cv_accruals v) = accrued_identities p"
    and "\<forall>k. is_int64 (owed p k)"
    and "SessionUser sha256 (cv_now v) r a = Some u" "EarningsForUser (us_ID u) a p = Inr en"
  shows "case handleMyDevices sha256 v r (Some a) p reg of Reject _ _ \<Rightarrow> False
    | Reply status (out, on, tot) \<Rightarrow> distinct (map my_StaticPK out) \<and>
        set (map my_StaticPK out) = o_pk ` {o'. o' \<in> set (provider_owners a) \<and> o_user o' = us_ID u} \<and>
        map my_OwedUSD out = map (\<lambda>d. if my_StaticPK d \<in> accrued_identities p then f64_of_int (owed p (my_StaticPK d)) / Fin 1000000 else 0) out \<and>
        (\<Sum>d\<leftarrow>out. my_JobsUnpaid d) = en_Jobs en \<and> tot = en_Devices en \<and> tot = int (length out) \<and> 0 \<le> on \<and> on \<le> tot"
proof -
  define pks where "pks = DevicePKsForUser (us_ID u) a"
  have acc: "accrualsByPK v p k = (if k \<in> accrued_identities p then Some (accrual_of p k) else None)" for k
    using accruals_at [of v p k] assms(2-4) by (simp add: pg_AccruedByProvider_def)
  obtain on where out: "handleMyDevices sha256 v r (Some a) p reg = (let out = map (my_device on (nodeFactsByPK p) (accrualsByPK v p)) pks
      in Reply 200 (out, int (length (filter my_Online out)), int (length out)))"
    by (simp add: handleMyDevices_def assms(5) pks_def Let_def) blast
  have mpk: "mset pks = mset (map o_pk (devices_of (us_ID u) a))" by (simp add: pks_def DevicePKsForUser_def)
  have dev: "distinct (map o_pk (devices_of (us_ID u) a))" using assms(1) by (simp add: devices_of_def distinct_map_filter)
  then have d: "distinct pks" using mset_eq_imp_distinct_iff [OF mpk] by simp
  have "en_Jobs en = (\<Sum>k\<leftarrow>map o_pk (devices_of (us_ID u) a). int (length (accrued_rows k p)))"
    "en_Devices en = int (length (map o_pk (devices_of (us_ID u) a)))"
    using assms(6) dev by (auto simp: EarningsForUser_def Let_def distinct_remdups_id split: if_splits)
  then have en: "en_Jobs en = (\<Sum>k\<leftarrow>pks. int (length (accrued_rows k p)))" "en_Devices en = int (length pks)"
    using mpk by (metis mset_map sum_mset_sum_list, metis mset_eq_length)
  have jobs: "my_JobsUnpaid (my_device on f (accrualsByPK v p) k) = int (length (accrued_rows k p))" for f k
    by (simp add: my_device_fields acc accrual_of_def not_accrued)
  have money: "my_OwedUSD (my_device on f (accrualsByPK v p) k) =
      (if k \<in> accrued_identities p then f64_of_int (owed p k) / Fin 1000000 else 0)" for f k
    by (simp add: my_device_fields acc accrual_of_def)
  have "set pks = o_pk ` {o'. o' \<in> set (provider_owners a) \<and> o_user o' = us_ID u}"
    using mset_eq_setD [OF mpk] by (simp add: devices_of_def)
  then show ?thesis
    by (simp add: out Let_def comp_def my_device_fields(1) jobs money d en image_image)
qed

definition sample_view :: console_env where
  "sample_view = \<lparr>cv_order = [], cv_now = 0, cv_accruals = [''pk''], cv_usage = [], cv_earnings = []\<rparr>"

definition ann_device :: accounts where
  "ann_device = ann_accounts\<lparr>provider_owners := [\<lparr>o_pk = ''pk'', o_user = ''usr_a'', o_first = 7, o_seen = 7\<rparr>]\<rparr>"

definition ann_owed :: PG where
  "ann_owed = (NewPG (\<lambda>x. x) [] [])\<lparr>provider_earnings := [carry_row 0 ''pk'' 25000, carry_row 1 ''pk'' 5]\<rparr>"

lemma my_devices_match_earnings_witness:
  "\<forall>reg. \<exists>out on tot. handleMyDevices rev sample_view \<lparr>wq_Cookie = [sessionCookie \<mapsto> auth_token ''a''], wq_Query = (\<lambda>_. [])\<rparr>
      (Some ann_device) ann_owed reg = Reply 200 (out, on, tot) \<and> (\<Sum>d\<leftarrow>out. my_JobsUnpaid d) = 2 \<and> tot = 1"
proof
  fix reg
  let ?r = "\<lparr>wq_Cookie = [sessionCookie \<mapsto> auth_token ''a''], wq_Query = (\<lambda>_. [])\<rparr>"
  have own: "provider_owners ann_device = [\<lparr>o_pk = ''pk'', o_user = ''usr_a'', o_first = 7, o_seen = 7\<rparr>]"
    by (simp add: ann_device_def)
  have s: "SessionUser rev (cv_now sample_view) ?r ann_device = Some \<lparr>us_ID = ''usr_a'', us_Email = ''a@x.co'', us_Name = [], us_AvatarURL = []\<rparr>"
    by (simp add: SessionUser_def cookie_value_def sample_view_def ann_device_def ann_accounts_def find_user_def
        auth_token_def hex_encode_def sessionTTL_def hour_def)
  have e: "EarningsForUser ''usr_a'' ann_device ann_owed = Inr \<lparr>en_OwedMicros = 25005, en_Jobs = 2, en_Devices = 1\<rparr>"
    by (simp add: EarningsForUser_def devices_of_def own owed_def accrued_rows_def ann_owed_def carry_row_def is_int64_def)
  have o: "is_int64 (owed ann_owed k)" for k
    by (simp add: owed_def accrued_rows_def ann_owed_def carry_row_def is_int64_def)
  have i: "set (cv_accruals sample_view) = accrued_identities ann_owed" "distinct (cv_accruals sample_view)" "distinct (map o_pk (provider_owners ann_device))"
    by (simp_all add: sample_view_def accrued_identities_def ann_owed_def carry_row_def own)
  have st: "\<exists>x. handleMyDevices rev sample_view ?r (Some ann_device) ann_owed reg = Reply 200 x"
    unfolding handleMyDevices_def option.case s Let_def by blast
  then obtain out on tot where "handleMyDevices rev sample_view ?r (Some ann_device) ann_owed reg = Reply 200 (out, on, tot)"
    by auto
  with my_devices_match_earnings [of ann_device sample_view ann_owed rev ?r _ _ reg, OF i(3,2,1) _ s] o e
  show "\<exists>out on tot. handleMyDevices rev sample_view ?r (Some ann_device) ann_owed reg = Reply 200 (out, on, tot) \<and>
      (\<Sum>d\<leftarrow>out. my_JobsUnpaid d) = 2 \<and> tot = 1" by auto
qed

subsection \<open>Overview\<close>

text \<open>The counts by kind of the overview count every device once.\<close>

definition count_of :: "(string \<rightharpoonup> int) \<Rightarrow> string \<Rightarrow> int" where
  "count_of m k = (case m k of None \<Rightarrow> 0 | Some n \<Rightarrow> n)"

lemma count_bump: "count_of (bump k m) j = count_of m j + (if j = k then 1 else 0)"
  by (simp add: count_of_def bump_def)

lemma fold_kind:
  "count_of (fl_ByKind (foldl add_fleet s ds)) k = count_of (fl_ByKind s) k + int (length (filter (\<lambda>d. dv_Kind d = k) ds))"
  by (induction ds arbitrary: s) (auto simp: add_fleet_def count_bump)

lemma fleet_by_kind: "count_of (fl_ByKind (fleet_of ds)) k = int (length (filter (\<lambda>d. dv_Kind d = k) ds))"
proof -
  have "count_of (fl_ByKind fleet_zero) k = 0" by (simp add: fleet_zero_def count_of_def)
  then show ?thesis using fold_kind [of fleet_zero ds k] by (simp add: fleet_of_def Let_def)
qed

lemma fold_jobs: "fl_ActiveJobs (foldl add_fleet s ds) = fl_ActiveJobs s + (\<Sum>d\<leftarrow>ds. dv_ActiveJobs d)"
  by (induction ds arbitrary: s) (simp_all add: add_fleet_def)

lemma fleet_jobs: "fl_ActiveJobs (fleet_of ds) = (\<Sum>d\<leftarrow>ds. dv_ActiveJobs d)"
  using fold_jobs [of fleet_zero ds] by (simp add: fleet_of_def Let_def fleet_zero_def)

lemma fold_compute:
  assumes "fl_Compute s k = Some c"
  shows "\<exists>c'. fl_Compute (foldl add_fleet s ds) k = Some c' \<and>
    kc_Devices c' = kc_Devices c + int (length (filter (\<lambda>d. dv_Kind d = k) ds)) \<and>
    kc_ActiveJobs c' = kc_ActiveJobs c + (\<Sum>d\<leftarrow>filter (\<lambda>d. dv_Kind d = k) ds. dv_ActiveJobs d)"
  using assms
proof (induction ds arbitrary: s c)
  case (Cons d ds)
  define c1 where "c1 = (if k = dv_Kind d then add_device d c else c)"
  have "fl_Compute (add_fleet s d) k = Some c1" using Cons.prems by (auto simp: add_fleet_def c1_def)
  from Cons.IH [OF this] show ?case by (auto simp: c1_def add_device_def Let_def)
qed simp

text \<open>A device without a sustained figure counts with its decode rate only while the sum so far is zero,
  so the total depends on the order of the devices.\<close>

lemma overview_tps_by_order:
  assumes "dv_SustainedEndTPS d = Fin 0" "dv_DecodeTPS d = Fin 30" "dv_SustainedEndTPS e = Fin 20"
  shows "kc_DecodeTPS (add_device e (add_device d kind_zero)) = Fin 50 \<and>
    kc_DecodeTPS (add_device d (add_device e kind_zero)) = Fin 20"
  using assms by (simp add: add_device_def Let_def kind_zero_def f64_eval)

subsection \<open>Secrets\<close>

text \<open>Two configurations that show the same view: they may differ in every secret, as long as each
  is configured in both or in neither.\<close>

definition same_shape :: "Config \<Rightarrow> Config \<Rightarrow> bool" where
  "same_shape x y \<longleftrightarrow> (cf_ManifestKMSKey x = [] \<longleftrightarrow> cf_ManifestKMSKey y = []) \<and> (cf_DatabaseURL x = [] \<longleftrightarrow> cf_DatabaseURL y = []) \<and>
     (cf_StripeWebhookSecret x = [] \<longleftrightarrow> cf_StripeWebhookSecret y = []) \<and>
     (cf_StripeConnectWebhookSecret x = [] \<longleftrightarrow> cf_StripeConnectWebhookSecret y = []) \<and>
     card (cf_ProviderRegistrationTokens x) = card (cf_ProviderRegistrationTokens y) \<and>
     card (cf_ConsumerAPIKeys x) = card (cf_ConsumerAPIKeys y)"

lemma config_hides_secrets:
  assumes "same_shape x y"
    and "(cf_HTTPAddr x, cf_HeartbeatSeconds x, cf_JobDeadlineMS x, cf_RatePerMin x, cf_PriceMultiplier x) =
         (cf_HTTPAddr y, cf_HeartbeatSeconds y, cf_JobDeadlineMS y, cf_RatePerMin y, cf_PriceMultiplier y)"
    and "(cf_MarketplaceMargin x, cf_QuoteTTLSeconds x, cf_BillingEnforce x, cf_ManifestURL x) =
         (cf_MarketplaceMargin y, cf_QuoteTTLSeconds y, cf_BillingEnforce y, cf_ManifestURL y)"
    and "(cf_AppURL x, cf_PublicBaseURL x, cf_CouncilModelID x) = (cf_AppURL y, cf_PublicBaseURL y, cf_CouncilModelID y)"
  shows "adminConfig x stripe signer order au = adminConfig y stripe signer order au"
  using assms by (simp add: adminConfig_def same_shape_def)

text \<open>The admin routes run only with the configured token, and do not exist without one.\<close>

lemma admin_route_token:
  "admin_route cfg r = None \<Longrightarrow> cf_AdminToken cfg \<noteq> [] \<and>
    (bearer r = cf_AdminToken cfg \<or> bearer r = [] \<and> hr_Header r ''X-Admin-Token'' = cf_AdminToken cfg)"
  by (auto simp: admin_route_def withAdmin_def Let_def split: if_splits)

end
