(* ===== verification/Connect.thy ===== *)
theory Connect
  imports Billing Decimal Net
begin

text \<open>
  The Stripe Connect sample (package \<open>connectdemo\<close>, coordinator/internal/connectdemo/connectdemo.go):
  onboarding links, live account status, platform products, the storefront, destination charges
  with an application fee, the thin-event webhook, and the HTML pages, written out byte for byte.
  The Stripe client is a record of functions, one per call, so every request sent to Stripe is
  explicit; form and query parameters are functions. Log lines are left out. The iteration order of
  the account map is an argument where a page depends on it.
\<close>

subsection \<open>Stripe\<close>

record account_params =
  ap_DisplayName :: string
  ap_ContactEmail :: string

text \<open>The refresh and return addresses of an onboarding link.\<close>

record link_params =
  lk_Account :: string
  lk_RefreshURL :: string
  lk_ReturnURL :: string

record product_params =
  pp_Name :: string
  pp_Description :: string
  pp_UnitAmount :: int
  pp_Currency :: string
  pp_Metadata :: "(string \<times> string) list"

text \<open>A product as Stripe lists it, with its expanded price (amount, currency).\<close>

record stripe_product =
  sp_ID :: string
  sp_Name :: string
  sp_Description :: string
  sp_Price :: "(int \<times> string) option"
  sp_Metadata :: "(string \<times> string) list"

record session_params =
  ss_Currency :: string
  ss_UnitAmount :: int
  ss_Name :: string
  ss_FeeAmount :: int
  ss_Destination :: string
  ss_SuccessURL :: string
  ss_CancelURL :: string

record session_info =
  si_ID :: string
  si_PaymentStatus :: string
  si_Currency :: string
  si_AmountTotal :: int

text \<open>A thin event: its type, the id of an unknown event's related object, the path of its context.\<close>

record thin_event =
  te_Type :: string
  te_Related :: "string option"
  te_Segments :: "string list"

record stripe_client =
  st_CreateAccount :: "account_params \<Rightarrow> string + string"
  st_CreateLink :: "link_params \<Rightarrow> string + string"
  st_RetrieveAccount :: "string \<Rightarrow> string + account_report"
  st_CreateProduct :: "product_params \<Rightarrow> string + string"
  st_ListProducts :: "stripe_product list \<times> string option"
  st_RetrieveProduct :: "string \<Rightarrow> string + stripe_product"
  st_CreateSession :: "session_params \<Rightarrow> string + string"
  st_RetrieveSession :: "string \<Rightarrow> string + session_info"
  st_ParseEvent :: "string \<Rightarrow> string \<Rightarrow> string \<Rightarrow> thin_event option"

datatype connect_resp = Page int string | SeeOther string | PlainError int string | RawBody int string

subsection \<open>The handler\<close>

record connect_handler =
  ch_webhookSecret :: string
  ch_baseURL :: string
  ch_accounts :: "string \<rightharpoonup> string"

datatype connect_error = KeyMissing | KeyMalformed

definition New_connect :: "string \<Rightarrow> string \<Rightarrow> string \<Rightarrow> connect_error + connect_handler" where
  "New_connect secretKey webhookSecret url =
    (if secretKey = [] then Inl KeyMissing
     else if \<not> has_prefix secretKey ''sk_'' \<and> \<not> has_prefix secretKey ''rk_'' then Inl KeyMalformed
     else Inr \<lparr>ch_webhookSecret = webhookSecret,
       ch_baseURL = trim_slashes (if url = [] then ''https://ayni-ai.com'' else url), ch_accounts = Map.empty\<rparr>)"

subsection \<open>Text\<close>

definition nl :: string where "nl = [CHR 0x0A]"
definition em_dash :: string where "em_dash = [CHR 0xE2, CHR 0x80, CHR 0x94]"
definition mid_dot :: string where "mid_dot = [CHR 0xC2, CHR 0xB7]"
definition arrow :: string where "arrow = [CHR 0xE2, CHR 0x86, CHR 0x92]"

text \<open>\<open>html.EscapeString\<close>.\<close>

definition escape_char :: "char \<Rightarrow> string" where
  "escape_char c = (if c = CHR ''&'' then ''&amp;'' else if c = CHR 0x27 then ''&#39;''
     else if c = CHR ''<'' then ''&lt;'' else if c = CHR ''>'' then ''&gt;'' else if c = CHR 0x22 then ''&#34;'' else [c])"

definition html_escape :: "string \<Rightarrow> string" where
  "html_escape s = concat (map escape_char s)"

definition urlq_char :: "char \<Rightarrow> string" where
  "urlq_char c = (if c = CHR '' '' then ''%20'' else if c = CHR ''&'' then ''%26'' else if c = CHR ''?'' then ''%3F''
     else if c = CHR ''#'' then ''%23'' else if c = CHR ''+'' then ''%2B'' else if c = CHR ''/'' then ''%2F''
     else if c = CHR ''='' then ''%3D'' else [c])"

definition urlq :: "string \<Rightarrow> string" where
  "urlq s = concat (map urlq_char s)"

text \<open>The other side of \<open>urlq\<close>: how \<open>r.URL.Query().Get\<close> reads a parameter back. Anything after
  \<open>#\<close> is dropped, pairs are split at \<open>&\<close>, one with a semicolon or a bad escape is skipped, and a
  key and its value are unescaped.\<close>

fun query_unescape :: "string \<Rightarrow> string option" where
  "query_unescape [] = Some []"
| "query_unescape (c # r) = (if c = CHR ''%'' then (case r of a # b # t \<Rightarrow> (case (hex_val a, hex_val b) of
       (Some x, Some y) \<Rightarrow> map_option ((#) (char_of (16 * x + y))) (query_unescape t) | _ \<Rightarrow> None) | _ \<Rightarrow> None)
     else map_option ((#) (if c = CHR ''+'' then CHR '' '' else c)) (query_unescape r))"

definition query_pair :: "string \<Rightarrow> (string \<times> string) option" where
  "query_pair seg = (if CHR '';'' \<in> set seg then None
     else case (query_unescape (takeWhile (\<lambda>c. c \<noteq> CHR ''='') seg), query_unescape (tl (dropWhile (\<lambda>c. c \<noteq> CHR ''='') seg))) of
       (Some k, Some v) \<Rightarrow> Some (k, v) | _ \<Rightarrow> None)"

definition query_get :: "string \<Rightarrow> string \<Rightarrow> string" where
  "query_get url key = (let raw = tl (dropWhile (\<lambda>c. c \<noteq> CHR ''?'') (takeWhile (\<lambda>c. c \<noteq> CHR ''#'') url)) in
     case map_of (List.map_filter query_pair (split_on (CHR ''&'') raw)) key of None \<Rightarrow> [] | Some v \<Rightarrow> v)"

definition orDash :: "string \<Rightarrow> string" where
  "orDash s = (if s = [] then em_dash else s)"

definition page_style :: "string list" where
  \<open>page_style = [
    ''<style>'',
    '':root{--bg:#0b0d10;--panel:#14171c;--border:#262b33;--text:#e6e8eb;--muted:#8b929e;--accent:#5b8def;--good:#3fb950;--bad:#f85149}'',
    ''*{box-sizing:border-box}body{margin:0;background:var(--bg);color:var(--text);font:15px/1.6 ui-sans-serif,system-ui,-apple-system,Segoe UI,Roboto,sans-serif}'',
    ''.wrap{max-width:860px;margin:0 auto;padding:24px}'',
    ''nav{display:flex;gap:18px;padding:14px 24px;border-bottom:1px solid var(--border)}'',
    ''nav a{color:var(--muted);text-decoration:none}nav a:hover{color:var(--text)}'',
    ''h1{font-size:20px;margin:18px 0}h2{font-size:13px;text-transform:uppercase;letter-spacing:.5px;color:var(--muted);margin:26px 0 10px}'',
    ''.panel{background:var(--panel);border:1px solid var(--border);border-radius:10px;padding:16px;margin-bottom:8px}'',
    ''table{width:100%;border-collapse:collapse}th,td{text-align:left;padding:8px 10px;border-bottom:1px solid var(--border)}'',
    ''th{color:var(--muted);font-size:12px;text-transform:uppercase}'',
    ''input,select{background:#0e1116;color:var(--text);border:1px solid var(--border);border-radius:8px;padding:8px 10px;font:inherit;min-width:280px}'',
    ''button{background:var(--accent);color:#fff;border:0;border-radius:8px;padding:8px 14px;font:inherit;cursor:pointer}'',
    ''code{background:#0e1116;padding:1px 5px;border-radius:4px}'',
    ''.pill{padding:2px 8px;border-radius:999px;font-size:12px;border:1px solid var(--border)}'',
    ''.pill.good{color:var(--good);border-color:#1c3a24}.pill.bad{color:var(--bad);border-color:#4a1f1f}'',
    ''.err{color:var(--bad)}.good{color:var(--good)}.muted{color:var(--muted)}'',
    ''a{color:var(--accent)}'',
    ''</style></head><body>'']\<close>

definition join_nl :: "string list \<Rightarrow> string" where
  "join_nl xs = (case xs of [] \<Rightarrow> [] | x # xs \<Rightarrow> x @ concat (map (\<lambda>l. nl @ l) xs))"

definition page :: "string \<Rightarrow> string \<Rightarrow> string" where
  \<open>page title body = ''<!doctype html><html><head><meta charset="utf-8">'' @ nl @
    ''<meta name="viewport" content="width=device-width,initial-scale=1">'' @ nl @
    ''<title>'' @ html_escape title @ '' '' @ em_dash @ '' Ayni</title>'' @ nl @ join_nl page_style @ nl @
    ''<nav><a href="/connect/">Onboarding</a><a href="/connect/products">Products</a><a href="/connect/store">Storefront</a></nav>'' @ nl @
    ''<div class="wrap"><h1>'' @ html_escape title @ ''</h1>'' @ body @ ''</div></body></html>''\<close>

definition stripeErr :: "string \<Rightarrow> string \<Rightarrow> connect_resp" where
  \<open>stripeErr ctx err = Page 502 (page ''Stripe error'' (''<p class="err">'' @ html_escape ctx @ '': '' @ html_escape err @ ''</p>'' @ nl @
     ''     <p><a href="/connect/">back</a></p>''))\<close>

subsection \<open>Accounts\<close>

definition createAccount :: "stripe_client \<Rightarrow> (string \<Rightarrow> string) \<Rightarrow> connect_handler \<Rightarrow> connect_resp \<times> connect_handler" where
  \<open>createAccount st form h = (let displayName = trim_space (form ''display_name''); email = trim_space (form ''contact_email'') in
     if displayName = [] \<or> email = [] then (Page 400 (page ''Create account''
       ''<p class="err">display_name and contact_email are required.</p><p><a href="/connect/">back</a></p>''), h)
     else (case st_CreateAccount st \<lparr>ap_DisplayName = displayName, ap_ContactEmail = email\<rparr> of
         Inl err \<Rightarrow> (stripeErr ''create connected account'' err, h)
       | Inr i \<Rightarrow> (SeeOther (''/connect/?email='' @ urlq email), h\<lparr>ch_accounts := (ch_accounts h)(email \<mapsto> i)\<rparr>)))\<close>

definition link_for :: "connect_handler \<Rightarrow> string \<Rightarrow> link_params" where
  "link_for h acctID = \<lparr>lk_Account = acctID, lk_RefreshURL = ch_baseURL h @ ''/connect/onboard/refresh?accountId='' @ urlq acctID,
     lk_ReturnURL = ch_baseURL h @ ''/connect/onboard/return?accountId='' @ urlq acctID\<rparr>"

definition accountLink :: "stripe_client \<Rightarrow> connect_handler \<Rightarrow> string \<Rightarrow> string + string" where
  "accountLink st h acctID = st_CreateLink st (link_for h acctID)"

definition onboard :: "stripe_client \<Rightarrow> (string \<Rightarrow> string) \<Rightarrow> connect_handler \<Rightarrow> connect_resp" where
  "onboard st form h = (let acctID = trim_space (form ''account_id'') in
     if acctID = [] then PlainError 400 ''account_id required''
     else (case accountLink st h acctID of Inl err \<Rightarrow> stripeErr ''create account link'' err | Inr url \<Rightarrow> SeeOther url))"

definition onboardRefresh :: "stripe_client \<Rightarrow> (string \<Rightarrow> string) \<Rightarrow> connect_handler \<Rightarrow> connect_resp" where
  "onboardRefresh st query h = (case accountLink st h (query ''accountId'') of
     Inl err \<Rightarrow> stripeErr ''refresh account link'' err | Inr url \<Rightarrow> SeeOther url)"

definition onboardReturn :: "(string \<Rightarrow> string) \<Rightarrow> connect_resp" where
  "onboardReturn query = SeeOther (''/connect/?accountId='' @ urlq (query ''accountId''))"

record acctStatus =
  as_AccountID :: string
  as_Ready :: bool
  as_Complete :: bool
  as_Requirements :: string

text \<open>The report is the status of the transfer capability and of the earliest requirement, where present.\<close>

definition accountStatus :: "stripe_client \<Rightarrow> string \<Rightarrow> string + acctStatus" where
  "accountStatus st acctID = (case st_RetrieveAccount st acctID of Inl err \<Rightarrow> Inl err
   | Inr (transfers, deadline) \<Rightarrow> (let req = (case deadline of None \<Rightarrow> [] | Some d \<Rightarrow> d) in
       Inr \<lparr>as_AccountID = acctID, as_Ready = (transfers = Some ''active''),
         as_Complete = (req \<noteq> ''currently_due'' \<and> req \<noteq> ''past_due''), as_Requirements = req\<rparr>))"

definition pill :: "bool \<Rightarrow> string" where
  \<open>pill ok = (if ok then ''<span class="pill good">yes</span>'' else ''<span class="pill bad">no</span>'')\<close>

definition statusBlock :: "acctStatus \<Rightarrow> string" where
  \<open>statusBlock s = ''<div class="panel">'' @ nl @ ''  <p>Account <code>'' @ html_escape (as_AccountID s) @ ''</code></p>'' @ nl @
     ''  <p>Ready to receive payments: '' @ pill (as_Ready s) @ ''</p>'' @ nl @
     ''  <p>Onboarding complete: '' @ pill (as_Complete s) @ '' <span class="muted">(requirements: '' @
     html_escape (orDash (as_Requirements s)) @ '')</span></p>'' @ nl @ ''</div>''\<close>

definition connect_status :: "stripe_client \<Rightarrow> (string \<Rightarrow> string) \<Rightarrow> connect_resp" where
  "connect_status st query = (let acctID = query ''account_id'' in
     if acctID = [] then PlainError 400 ''account_id required''
     else (case accountStatus st acctID of Inl err \<Rightarrow> stripeErr ''retrieve account'' err
       | Inr s \<Rightarrow> Page 200 (page ''Account status'' (statusBlock s))))"

subsection \<open>Products and purchases\<close>

definition price_cents :: "f64 \<Rightarrow> int" where
  "price_cents dollars = f64_to_int64 (dollars * Fin 100 + Fin (1 / 2))"

text \<open>\<open>parse\<close> is \<open>ParseFloat\<close> with its error dropped.\<close>

definition product_of :: "(string \<Rightarrow> f64) \<Rightarrow> (string \<Rightarrow> string) \<Rightarrow> product_params" where
  "product_of parse form = \<lparr>pp_Name = trim_space (form ''name''), pp_Description = trim_space (form ''description''),
     pp_UnitAmount = price_cents (parse (trim_space (form ''price_usd''))), pp_Currency = ''usd'',
     pp_Metadata = [(''connected_account_id'', trim_space (form ''account_id''))]\<rparr>"

definition createProduct :: "stripe_client \<Rightarrow> (string \<Rightarrow> f64) \<Rightarrow> (string \<Rightarrow> string) \<Rightarrow> connect_resp" where
  \<open>createProduct st parse form = (let q = product_of parse form in
     if pp_Name q = [] \<or> trim_space (form ''account_id'') = [] \<or> pp_UnitAmount q \<le> 0 then Page 400 (page ''Create product''
       ''<p class="err">name, account_id and a positive price_usd are required.</p><p><a href="/connect/products">back</a></p>'')
     else (case st_CreateProduct st q of Inl err \<Rightarrow> stripeErr ''create product'' err | Inr i \<Rightarrow> SeeOther ''/connect/products''))\<close>

record storeItem =
  it_ProductID :: string
  it_Name :: string
  it_Desc :: string
  it_Cents :: int
  it_Currency :: string
  it_AccountID :: string

definition connected_account :: "(string \<times> string) list \<Rightarrow> string" where
  "connected_account meta = (case map_of meta ''connected_account_id'' of None \<Rightarrow> [] | Some a \<Rightarrow> a)"

definition store_item :: "stripe_product \<Rightarrow> storeItem" where
  "store_item p = \<lparr>it_ProductID = sp_ID p, it_Name = sp_Name p, it_Desc = sp_Description p,
     it_Cents = (case sp_Price p of None \<Rightarrow> 0 | Some (amount, _) \<Rightarrow> amount),
     it_Currency = (case sp_Price p of None \<Rightarrow> ''usd'' | Some (_, cur) \<Rightarrow> if cur \<noteq> [] then cur else ''usd''),
     it_AccountID = connected_account (sp_Metadata p)\<rparr>"

text \<open>The items read, and the error the listing stopped with.\<close>

definition listItems :: "stripe_client \<Rightarrow> storeItem list \<times> string option" where
  "listItems st = (case st_ListProducts st of (ps, err) \<Rightarrow>
     (map store_item (filter (\<lambda>p. connected_account (sp_Metadata p) \<noteq> []) ps), err))"

text \<open>Ten percent and thirty cents; Go's division truncates.\<close>

definition app_fee :: "int \<Rightarrow> int" where
  "app_fee cents = (if cents < 0 then - (- cents div 10) else cents div 10) + 30"

definition buy_session :: "connect_handler \<Rightarrow> stripe_product \<Rightarrow> int \<times> string \<Rightarrow> session_params" where
  "buy_session h p price = (case price of (cents, currency) \<Rightarrow> \<lparr>ss_Currency = currency, ss_UnitAmount = cents, ss_Name = sp_Name p,
     ss_FeeAmount = app_fee cents, ss_Destination = connected_account (sp_Metadata p),
     ss_SuccessURL = ch_baseURL h @ ''/connect/success?session_id={CHECKOUT_SESSION_ID}'',
     ss_CancelURL = ch_baseURL h @ ''/connect/store''\<rparr>)"

definition buy :: "stripe_client \<Rightarrow> (string \<Rightarrow> string) \<Rightarrow> connect_handler \<Rightarrow> connect_resp" where
  "buy st form h = (let productID = trim_space (form ''product_id'') in
     if productID = [] then PlainError 400 ''product_id required''
     else (case st_RetrieveProduct st productID of Inl err \<Rightarrow> stripeErr ''retrieve product'' err
       | Inr p \<Rightarrow> (case sp_Price p of
           None \<Rightarrow> PlainError 400 ''product is not purchasable (missing account or price)''
         | Some price \<Rightarrow>
             if connected_account (sp_Metadata p) = [] then PlainError 400 ''product is not purchasable (missing account or price)''
             else (case st_CreateSession st (buy_session h p price) of
               Inl err \<Rightarrow> stripeErr ''create checkout session'' err | Inr url \<Rightarrow> SeeOther url))))"

definition success_body :: "stripe_client \<Rightarrow> string \<Rightarrow> string" where
  \<open>success_body st i = ''<div class="panel"><p class="good">Payment complete.</p>'' @
     (if i = [] then [] else case st_RetrieveSession st i of Inl _ \<Rightarrow> []
      | Inr s \<Rightarrow> ''<p class="muted">Session <code>'' @ html_escape (si_ID s) @ ''</code> '' @ mid_dot @ '' '' @ html_escape (si_PaymentStatus s) @
          '' '' @ mid_dot @ '' total '' @ html_escape (si_Currency s) @ '' '' @ int_str (si_AmountTotal s) @ ''</p>'') @
     ''</div><p><a href="/connect/store">back to storefront</a></p>''\<close>

definition success :: "stripe_client \<Rightarrow> (string \<Rightarrow> string) \<Rightarrow> connect_resp" where
  "success st query = Page 200 (page ''Success'' (success_body st (query ''session_id'')))"

subsection \<open>Thin events\<close>

definition relatedAccountID :: "thin_event \<Rightarrow> string" where
  "relatedAccountID e = (let seg = (case find (\<lambda>s. has_prefix s ''acct_'') (te_Segments e) of None \<Rightarrow> [] | Some s \<Rightarrow> s) in
     case te_Related e of None \<Rightarrow> seg | Some i \<Rightarrow> if has_prefix i ''acct_'' then i else seg)"

text \<open>The account whose status the handler reads again, with the field it logs; both handlers skip an
  event without an account.\<close>

definition refresh_account :: "stripe_client \<Rightarrow> string \<Rightarrow> (string + acctStatus) option" where
  "refresh_account st acctID = (if acctID = [] then None else Some (accountStatus st acctID))"

text \<open>\<open>payload\<close> is \<open>None\<close> when the body cannot be read.\<close>

definition connect_webhook :: "stripe_client \<Rightarrow> string option \<Rightarrow> string \<Rightarrow> connect_handler \<Rightarrow> connect_resp \<times> (string + acctStatus) option" where
  \<open>connect_webhook st payload sig h =
    (if ch_webhookSecret h = [] then (PlainError 501 ''SC_STRIPE_CONNECT_WEBHOOK_SECRET not set'', None)
     else case payload of None \<Rightarrow> (PlainError 400 ''read error'', None)
     | Some body \<Rightarrow> (case st_ParseEvent st body sig (ch_webhookSecret h) of
         None \<Rightarrow> (PlainError 400 ''signature verification failed'', None)
       | Some e \<Rightarrow> (RawBody 200 ''{"received":true}'',
           if te_Type e = ''v2.core.account[requirements].updated'' \<or>
              te_Type e = ''v2.core.account[configuration.recipient].capability_status_updated''
           then refresh_account st (relatedAccountID e) else None)))\<close>

subsection \<open>Pages\<close>

definition account_form :: "string list" where
  \<open>account_form = [''<div class="panel"><form method="post" action="/connect/accounts">'',
    ''    <label>Display name<br><input name="display_name" required></label><br><br>'',
    ''    <label>Contact email<br><input name="contact_email" type="email" required></label><br><br>'',
    ''    <button type="submit">Create connected account</button>'', ''  </form></div>'']\<close>

definition onboard_form :: "string \<Rightarrow> string" where
  \<open>onboard_form acctID = ''<form method="post" action="/connect/onboard">'' @ nl @
    ''      <input type="hidden" name="account_id" value="'' @ html_escape acctID @ ''">'' @ nl @
    ''      <button type="submit">Onboard to collect payments</button>'' @ nl @ ''    </form>''\<close>

definition known_row :: "string \<times> string \<Rightarrow> string" where
  \<open>known_row kv = ''<tr><td>'' @ html_escape (fst kv) @ ''</td><td><code>'' @ html_escape (snd kv) @
     ''</code></td><td><a href="/connect/?accountId='' @ urlq (snd kv) @ ''">status</a></td></tr>''\<close>

definition known_accounts :: "connect_handler \<Rightarrow> string list \<Rightarrow> (string \<times> string) list" where
  "known_accounts h order = map (\<lambda>e. (e, case ch_accounts h e of None \<Rightarrow> [] | Some a \<Rightarrow> a)) order"

definition next_links :: string where
  \<open>next_links = ''<h2>Next</h2><div class="panel"><a href="/connect/products">Create products '' @ arrow @
     ''</a> &nbsp; <a href="/connect/store">Open the storefront '' @ arrow @ ''</a></div>''\<close>

definition chosen_account :: "(string \<Rightarrow> string) \<Rightarrow> connect_handler \<Rightarrow> string" where
  "chosen_account query h = (if query ''accountId'' = [] \<and> query ''email'' \<noteq> []
     then (case ch_accounts h (query ''email'') of None \<Rightarrow> [] | Some a \<Rightarrow> a) else query ''accountId'')"

definition home_body :: "stripe_client \<Rightarrow> string list \<Rightarrow> (string \<Rightarrow> string) \<Rightarrow> connect_handler \<Rightarrow> string" where
  \<open>home_body st order query h = (let acctID = chosen_account query h; known = known_accounts h order in
     ''<h2>1 '' @ mid_dot @ '' Onboard a connected account</h2>'' @ join_nl account_form @
     (if acctID = [] then [] else case accountStatus st acctID of
        Inl err \<Rightarrow> ''<p class="err">'' @ html_escape err @ ''</p>''
      | Inr s \<Rightarrow> statusBlock s @ onboard_form acctID) @
     (if known = [] then [] else ''<h2>Known accounts (demo)</h2><div class="panel"><table><tr><th>Email</th><th>Account</th><th></th></tr>'' @
        concat (map known_row known) @ ''</table></div>'') @ next_links)\<close>

definition home :: "stripe_client \<Rightarrow> string list \<Rightarrow> (string \<Rightarrow> string) \<Rightarrow> connect_handler \<Rightarrow> connect_resp" where
  "home st order query h = Page 200 (page ''Stripe Connect demo'' (home_body st order query h))"

definition account_option :: "string \<times> string \<Rightarrow> string" where
  \<open>account_option ea = ''<option value="'' @ html_escape (snd ea) @ ''">'' @ html_escape (fst ea) @ '' '' @ em_dash @ '' '' @
     html_escape (snd ea) @ ''</option>''\<close>

definition account_select :: "(string \<times> string) list \<Rightarrow> string" where
  \<open>account_select known = (if known = []
     then ''<input name="account_id" placeholder="acct_'' @ [CHR 0xE2, CHR 0x80, CHR 0xA6] @ '' (create an account first)" required>''
     else ''<select name="account_id" required>'' @ concat (map account_option known) @ ''</select>'')\<close>

definition price_text :: "storeItem \<Rightarrow> string" where
  "price_text i = to_upper (it_Currency i) @ '' '' @ fmt_f2 (f64_of_int (it_Cents i) / Fin 100)"

definition product_row :: "storeItem \<Rightarrow> string" where
  \<open>product_row i = ''<tr><td>'' @ html_escape (it_Name i) @ ''</td><td>'' @ html_escape (it_Desc i) @ ''</td><td>'' @ price_text i @
     ''</td><td><code>'' @ html_escape (it_AccountID i) @ ''</code></td></tr>''\<close>

definition products_body :: "stripe_client \<Rightarrow> string list \<Rightarrow> connect_handler \<Rightarrow> string" where
  \<open>products_body st order h = (case listItems st of (items, err) \<Rightarrow>
     join_nl [''<h2>Create a product (platform-level)</h2><div class="panel">'',
       ''  <form method="post" action="/connect/products">'', ''    <label>Name<br><input name="name" required></label><br><br>'',
       ''    <label>Description<br><input name="description"></label><br><br>'',
       ''    <label>Price (USD)<br><input name="price_usd" type="number" step="0.01" min="0.5" required></label><br><br>'',
       ''    <label>Sells for connected account<br>'' @ account_select (known_accounts h order) @ ''</label><br><br>'',
       ''    <button type="submit">Create product</button>'', ''  </form></div>'', ''  <h2>Products</h2><div class="panel"><table>'',
       ''    <tr><th>Name</th><th>Description</th><th>Price</th><th>Connected account</th></tr>'' @
         (case err of None \<Rightarrow> [] | Some e \<Rightarrow> ''<tr><td colspan="4" class="err">'' @ html_escape e @ ''</td></tr>'') @
         concat (map product_row items) @ ''</table></div>'',
       ''  <p><a href="/connect/store">Open the storefront '' @ arrow @ ''</a></p>''])\<close>

definition productsPage :: "stripe_client \<Rightarrow> string list \<Rightarrow> connect_handler \<Rightarrow> connect_resp" where
  "productsPage st order h = Page 200 (page ''Products'' (products_body st order h))"

definition buy_form :: "storeItem \<Rightarrow> string" where
  \<open>buy_form i = ''<form method="post" action="/connect/buy">'' @ nl @
     ''          <input type="hidden" name="product_id" value="'' @ html_escape (it_ProductID i) @ ''">'' @ nl @
     ''          <button type="submit">Buy</button>'' @ nl @ ''        </form>''\<close>

definition store_row :: "storeItem \<Rightarrow> string" where
  \<open>store_row i = (let (priceCell, buyCell) =
       (if it_Cents i \<le> 0 then (''<span class="muted">no price set</span>'', ''<span class="muted">'' @ em_dash @ ''</span>'')
        else (price_text i, buy_form i)) in
     ''<tr><td>'' @ html_escape (it_Name i) @ ''<br><span class="muted">'' @ html_escape (it_Desc i) @ ''</span></td><td>'' @
     priceCell @ ''</td><td>'' @ buyCell @ ''</td></tr>'')\<close>

text \<open>The sellers, in the order of their first product.\<close>

definition sellers :: "storeItem list \<Rightarrow> string list" where
  "sellers items = foldl (\<lambda>ord i. if it_AccountID i \<in> set ord then ord else ord @ [it_AccountID i]) [] items"

definition seller_block :: "storeItem list \<Rightarrow> string \<Rightarrow> string" where
  \<open>seller_block items a = ''<h2>Seller <code>'' @ html_escape a @ ''</code></h2><div class="panel"><table>'' @ nl @
     ''      <tr><th>Product</th><th>Price</th><th></th></tr>'' @
     concat (map store_row (filter (\<lambda>i. it_AccountID i = a) items)) @ ''</table></div>''\<close>

definition store_body :: "storeItem list \<Rightarrow> string" where
  \<open>store_body items = (if items = [] then ''<p class="muted">No products yet. <a href="/connect/products">Create one</a>.</p>'' else []) @
     concat (map (seller_block items) (sellers items))\<close>

definition storefront :: "stripe_client \<Rightarrow> connect_resp" where
  \<open>storefront st = (case listItems st of
     (_, Some err) \<Rightarrow> Page 200 (page ''Storefront'' (''<p class="err">'' @ html_escape err @ ''</p>''))
   | (items, None) \<Rightarrow> Page 200 (page ''Storefront'' (store_body items)))\<close>

end
