(* ===== verification/Connect_Props.thy ===== *)
theory Connect_Props
  imports Connect
begin

text \<open>
  The Connect sample: what a buyer pays and a seller gets, the way back from Stripe's onboarding,
  and the pages, whose markup does not depend on what sellers and buyers write.
\<close>

subsection \<open>Prices\<close>

text \<open>A price of \<open>n\<close> cents, typed in dollars, comes back as \<open>n\<close>.\<close>

lemma price_cents_exact:
  assumes "0 < n" "n < 100000000"
  shows "price_cents (rnd (of_int n / 100)) = n"
proof -
  define x :: rat where "x = of_int n / 100"
  define N :: rat where "N = of_int n"
  have "(of_int 1 :: rat) \<le> of_int n" "(of_int n :: rat) \<le> of_int 99999999"
    unfolding of_int_le_iff using assms by linarith+
  then have N: "1 \<le> N" "N \<le> 99999999" by (simp_all add: N_def)
  have x: "x * 100 = N" by (simp add: x_def N_def)
  have k: "(2::rat) powi (20 - 54) = 1 / 2 ^ 34" "(2::rat) powi (28 - 54) = 1 / 2 ^ 26" "(2::rat) powi 20 = 2 ^ 20" "(2::rat) powi 28 = 2 ^ 28"
    using powi_neg [of 34] powi_neg [of 26] by simp_all
  have xb: "\<bar>x\<bar> < 2 powi 20" unfolding k using x N by (simp add: abs_if)
  from rr_error [OF this] have e1: "\<bar>rr x - x\<bar> \<le> 1 / 2 ^ 34" unfolding k by simp
  define y where "y = rr x * 100"
  have "y - N = (rr x - x) * 100" by (simp add: y_def x [symmetric] left_diff_distrib)
  moreover have "\<bar>(rr x - x) * 100\<bar> = \<bar>rr x - x\<bar> * 100" by (simp only: abs_mult abs_numeral)
  ultimately have "\<bar>y - N\<bar> = \<bar>rr x - x\<bar> * 100" by (simp only:)
  then have y: "\<bar>y - N\<bar> \<le> 1 / 2 ^ 26" using e1 by simp
  then have "\<bar>y - N\<bar> \<le> 1" by (rule order_trans) simp
  then have "N - 1 \<le> y" "y \<le> N + 1" by (simp_all add: abs_le_iff)
  then have "\<bar>y\<bar> < 2 powi 28" unfolding k using N by (simp add: abs_less_iff)
  from rr_error [OF this] have e2: "\<bar>rr y - y\<bar> \<le> 1 / 2 ^ 26" unfolding k by simp
  define z where "z = rr y + 1 / 2"
  have zn: "N + 1 / 2 - 1 / 2 ^ 25 \<le> z" "z \<le> N + 1 / 2 + 1 / 2 ^ 25"
    using abs_le_D1 [OF y] abs_le_D2 [OF y] abs_le_D1 [OF e2] abs_le_D2 [OF e2] by (simp_all add: z_def)
  then have zb: "\<bar>z\<bar> < 2 powi 28" unfolding k using N by (simp add: abs_less_iff)
  from rr_error [OF this] have e3: "\<bar>rr z - z\<bar> \<le> 1 / 2 ^ 26" unfolding k by simp
  then have "N \<le> rr z" "rr z < N + 1" 
    using zn abs_le_D1 [OF e3] abs_le_D2 [OF e3] by simp_all
  then have "\<lfloor>rr z\<rfloor> = n" "0 \<le> rr z" using N by (simp_all add: N_def floor_unique)
  moreover have "rnd x = Fin (rr x)" "rnd y = Fin (rr y)" "rnd z = Fin (rr z)"
    using xb \<open>\<bar>y\<bar> < 2 powi 28\<close> zb unfolding k by (simp_all add: rnd_small)
  moreover have "is_int64 n" using assms by (simp add: is_int64_def)
  ultimately show ?thesis
    by (simp add: price_cents_def times_f64_def plus_f64_def x_def [symmetric] y_def [symmetric] z_def [symmetric] trunc_def)
qed

lemma app_fee_covered: "0 < n \<Longrightarrow> app_fee n \<le> n \<longleftrightarrow> 33 \<le> n"
proof -
  assume n: "0 < n"
  define q where "q = n div 10"
  have "10 * q \<le> n" "n \<le> 10 * q + 9" unfolding q_def by presburger+
  then show ?thesis using n unfolding app_fee_def q_def [symmetric] by auto
qed

text \<open>C37: what is bought is what the seller priced. A product created with a price of \<open>n\<close> cents (up to
  a million dollars, typed in dollars) is sent to Stripe with that price, tied to the account of the
  form; and when a buyer picks the product Stripe keeps, the one checkout session asked for charges
  exactly \<open>n\<close> cents, goes to that account, and takes the fee of ten percent and thirty cents, which
  the price covers exactly from 33 cents up; the seller keeps the rest.\<close>

theorem purchase_terms:
  assumes "0 < n" "n < 100000000" "parse (trim_space (form ''price_usd'')) = rnd (of_int n / 100)"
    and "trim_space (form ''name'') \<noteq> []" "trim_space (form ''account_id'') \<noteq> []"
    and "st_CreateProduct st (product_of parse form) = Inr pid" "trim_space (form' ''product_id'') = pid" "pid \<noteq> []"
    and "st_RetrieveProduct st pid = Inr p" "sp_Metadata p = pp_Metadata (product_of parse form)"
      "sp_Price p = Some (pp_UnitAmount (product_of parse form), pp_Currency (product_of parse form))"
  shows "createProduct st parse form = SeeOther ''/connect/products'' \<and>
    (\<exists>s. buy st form' h = (case st_CreateSession st s of Inl err \<Rightarrow> stripeErr ''create checkout session'' err | Inr url \<Rightarrow> SeeOther url) \<and>
      ss_UnitAmount s = n \<and> ss_Currency s = ''usd'' \<and> ss_Destination s = trim_space (form ''account_id'') \<and>
      ss_FeeAmount s = n div 10 + 30 \<and> (ss_FeeAmount s \<le> ss_UnitAmount s \<longleftrightarrow> 33 \<le> n) \<and>
      ss_UnitAmount s - ss_FeeAmount s = n - n div 10 - 30)"
proof -
  have n: "pp_UnitAmount (product_of parse form) = n"
    using price_cents_exact [OF assms(1,2)] assms(3) by (simp add: product_of_def)
  have name: "pp_Name (product_of parse form) \<noteq> []" using assms(4) by (simp add: product_of_def)
  have create: "createProduct st parse form = SeeOther ''/connect/products''"
    using assms(1,5,6) n name by (simp add: createProduct_def Let_def)
  have acct: "connected_account (sp_Metadata p) = trim_space (form ''account_id'')"
    by (simp add: assms(10) connected_account_def product_of_def)
  have price: "sp_Price p = Some (n, ''usd'')" using assms(11) n by (simp add: product_of_def)
  have buys: "buy st form' h = (case st_CreateSession st (buy_session h p (n, ''usd'')) of
      Inl err \<Rightarrow> stripeErr ''create checkout session'' err | Inr url \<Rightarrow> SeeOther url)"
    unfolding buy_def Let_def assms(7) assms(9) price sum.case option.case acct using assms(5,8) by simp
  have "app_fee n = n div 10 + 30" "app_fee n \<le> n \<longleftrightarrow> 33 \<le> n"
    using assms(1) app_fee_covered [OF assms(1)] by (simp_all add: app_fee_def)
  then show ?thesis
    using create buys by (intro conjI exI [of _ "buy_session h p (n, ''usd'')"]) (simp_all add: buy_session_def acct)
qed

definition sample_product :: stripe_product where
  "sample_product = \<lparr>sp_ID = ''prod_1'', sp_Name = ''Hat'', sp_Description = [], sp_Price = Some (1999, ''usd''),
     sp_Metadata = [(''connected_account_id'', ''acct_1'')]\<rparr>"

definition sample_stripe :: stripe_client where
  "sample_stripe = \<lparr>st_CreateAccount = (\<lambda>_. Inr ''acct_1''), st_CreateLink = (\<lambda>l. Inr (lk_RefreshURL l)),
     st_RetrieveAccount = (\<lambda>_. Inr (Some ''active'', None)), st_CreateProduct = (\<lambda>_. Inr ''prod_1''),
     st_ListProducts = ([sample_product], None), st_RetrieveProduct = (\<lambda>_. Inr sample_product),
     st_CreateSession = (\<lambda>s. Inr (''https://pay/'' @ int_str (ss_UnitAmount s))), st_RetrieveSession = (\<lambda>_. Inl []),
     st_ParseEvent = (\<lambda>_ _ _. None)\<rparr>"

definition sample_form :: "string \<Rightarrow> string" where
  "sample_form k = (if k = ''name'' then ''Hat'' else if k = ''account_id'' then ''acct_1'' else if k = ''price_usd'' then ''19.99''
     else if k = ''product_id'' then ''prod_1'' else [])"

definition sample_connect :: connect_handler where
  "sample_connect = \<lparr>ch_webhookSecret = [], ch_baseURL = ''https://b'', ch_accounts = Map.empty\<rparr>"

lemma purchase_terms_witness:
  "createProduct sample_stripe (\<lambda>_. rnd (of_int 1999 / 100)) sample_form = SeeOther ''/connect/products'' \<and>
   (\<exists>s :: session_params. ss_UnitAmount s = 1999 \<and> ss_FeeAmount s = 229 \<and> ss_Destination s = ''acct_1'' \<and>
      buy sample_stripe sample_form sample_connect = SeeOther (''https://pay/'' @ int_str (ss_UnitAmount s)))"
proof -
  have t: "trim_space ''Hat'' = ''Hat''" "trim_space ''acct_1'' = ''acct_1''" "trim_space ''19.99'' = ''19.99''"
    "trim_space ''prod_1'' = ''prod_1''" "trim_space [] = []"
    by code_simp+
  have n: "price_cents (rnd (of_int 1999 / 100)) = 1999" by (rule price_cents_exact) simp_all
  have q: "product_of (\<lambda>_. rnd (of_int 1999 / 100)) sample_form = \<lparr>pp_Name = ''Hat'', pp_Description = [], pp_UnitAmount = 1999,
      pp_Currency = ''usd'', pp_Metadata = [(''connected_account_id'', ''acct_1'')]\<rparr>"
    using n unfolding product_of_def by (simp add: sample_form_def t)
  have form: "trim_space (sample_form ''name'') \<noteq> []" "trim_space (sample_form ''account_id'') = ''acct_1''"
    "trim_space (sample_form ''product_id'') = ''prod_1''" by (simp_all add: sample_form_def t)
  have "createProduct sample_stripe (\<lambda>_. rnd (of_int 1999 / 100)) sample_form = SeeOther ''/connect/products'' \<and>
    (\<exists>s. buy sample_stripe sample_form sample_connect = (case st_CreateSession sample_stripe s of
        Inl err \<Rightarrow> stripeErr ''create checkout session'' err | Inr url \<Rightarrow> SeeOther url) \<and>
      ss_UnitAmount s = 1999 \<and> ss_Currency s = ''usd'' \<and> ss_Destination s = trim_space (sample_form ''account_id'') \<and>
      ss_FeeAmount s = 1999 div 10 + 30 \<and> (ss_FeeAmount s \<le> ss_UnitAmount s \<longleftrightarrow> 33 \<le> (1999 :: int)) \<and>
      ss_UnitAmount s - ss_FeeAmount s = 1999 - 1999 div 10 - 30)"
    by (rule purchase_terms [where p = sample_product and pid = "''prod_1''" and parse = "\<lambda>_. rnd (of_int 1999 / 100)"
           and form = sample_form and form' = sample_form])
       (use q form in \<open>simp_all add: sample_stripe_def sample_product_def\<close>)
  then obtain s where c: "createProduct sample_stripe (\<lambda>_. rnd (of_int 1999 / 100)) sample_form = SeeOther ''/connect/products''"
    and b: "buy sample_stripe sample_form sample_connect = (case st_CreateSession sample_stripe s of
        Inl err \<Rightarrow> stripeErr ''create checkout session'' err | Inr url \<Rightarrow> SeeOther url)"
    and f: "ss_UnitAmount s = 1999" "ss_Destination s = trim_space (sample_form ''account_id'')" "ss_FeeAmount s = 1999 div 10 + 30"
    by (elim conjE exE) (rule that)
  have "st_CreateSession sample_stripe s = Inr (''https://pay/'' @ int_str (ss_UnitAmount s))" by (simp add: sample_stripe_def)
  then have "buy sample_stripe sample_form sample_connect = SeeOther (''https://pay/'' @ int_str (ss_UnitAmount s))"
    unfolding b by (simp only: sum.case)
  moreover have "ss_FeeAmount s = 229" "ss_Destination s = ''acct_1''" using f(2,3) form(2) by simp_all
  ultimately show ?thesis using c f(1) by (intro conjI exI [of _ s])
qed

text \<open>A product below 33 cents can be created, but every purchase of it asks Stripe for a fee above the price.\<close>

lemma cheap_product_unsellable:
  "0 < n \<Longrightarrow> n < 33 \<Longrightarrow> ss_FeeAmount (buy_session h p (n, cur)) > ss_UnitAmount (buy_session h p (n, cur))"
  using app_fee_covered [of n] by (simp add: buy_session_def)

subsection \<open>Addresses\<close>

lemma query_unescape_char: "c \<noteq> CHR ''%'' \<Longrightarrow> query_unescape (urlq_char c @ r) = map_option ((#) c) (query_unescape r)"
proof -
  have "(char_of (61 :: nat) :: char) = CHR ''=''" "(char_of (47 :: nat) :: char) = CHR ''/''" "(char_of (43 :: nat) :: char) = CHR ''+''"
    "(char_of (35 :: nat) :: char) = CHR ''#''" "(char_of (63 :: nat) :: char) = CHR ''?''" "(char_of (38 :: nat) :: char) = CHR ''&''"
    "(char_of (32 :: nat) :: char) = CHR '' ''"
    by code_simp+
  then show "c \<noteq> CHR ''%'' \<Longrightarrow> ?thesis" by (simp add: urlq_char_def hex_val_def)
qed

lemma urlq_Cons: "urlq (c # a) = urlq_char c @ urlq a"
  by (simp add: urlq_def)

lemma query_unescape_urlq: "CHR ''%'' \<notin> set a \<Longrightarrow> query_unescape (urlq a) = Some a"
proof (induction a)
  case (Cons c a)
  then have "query_unescape (urlq a) = Some a" "c \<noteq> CHR ''%''" by auto
  then show ?case by (simp add: urlq_Cons query_unescape_char)
qed (simp add: urlq_def)

lemma urlq_free: "CHR ''#'' \<notin> set (urlq a)" "CHR ''&'' \<notin> set (urlq a)" "CHR '';'' \<notin> set a \<Longrightarrow> CHR '';'' \<notin> set (urlq a)"
proof -
  have "CHR ''#'' \<notin> set (urlq_char c) \<and> CHR ''&'' \<notin> set (urlq_char c) \<and> (CHR '';'' \<in> set (urlq_char c) \<longrightarrow> c = CHR '';'')" for c
    by (simp add: urlq_char_def)
  then show "CHR ''#'' \<notin> set (urlq a)" "CHR ''&'' \<notin> set (urlq a)" "CHR '';'' \<notin> set a \<Longrightarrow> CHR '';'' \<notin> set (urlq a)"
    by (auto simp: urlq_def)
qed

text \<open>The way back from Stripe's onboarding. The refresh and return addresses of a link name the
  account it was made for: when Stripe sends the browser to either, the handler reads that account
  from the address, whatever characters it has other than a percent sign and a semicolon; so a
  refresh asks for a link with the same addresses again, and the return page shows that account.\<close>

lemma onboarding_comes_back:
  assumes "CHR ''%'' \<notin> set acct" "CHR '';'' \<notin> set acct"
    and "CHR ''?'' \<notin> set (ch_baseURL h)" "CHR ''#'' \<notin> set (ch_baseURL h)"
  shows "query_get (lk_ReturnURL (link_for h acct)) ''accountId'' = acct \<and>
    onboardRefresh st (query_get (lk_RefreshURL (link_for h acct))) h =
      (case st_CreateLink st (link_for h acct) of Inl err \<Rightarrow> stripeErr ''refresh account link'' err | Inr url \<Rightarrow> SeeOther url) \<and>
    onboardReturn (query_get (lk_ReturnURL (link_for h acct))) = SeeOther (''/connect/?accountId='' @ urlq acct)"
proof -
  have u: "CHR ''#'' \<notin> set (urlq acct)" "CHR ''&'' \<notin> set (urlq acct)" "CHR '';'' \<notin> set (urlq acct)"
    using urlq_free [of acct] assms(2) by blast+
  have "query_get (ch_baseURL h @ path @ CHR ''?'' # ''accountId='' @ urlq acct) ''accountId'' = acct"
    if path: "CHR ''?'' \<notin> set path" "CHR ''#'' \<notin> set path" for path
  proof -
    let ?url = "ch_baseURL h @ path @ CHR ''?'' # ''accountId='' @ urlq acct"
    have "CHR ''#'' \<notin> set ?url" using assms(4) path(2) u(1) by auto
    then have t: "takeWhile (\<lambda>c. c \<noteq> CHR ''#'') ?url = ?url" by (auto simp: takeWhile_eq_all_conv)
    have "CHR ''?'' \<notin> set (ch_baseURL h @ path)" using assms(3) path(1) by auto
    then have "dropWhile (\<lambda>c. c \<noteq> CHR ''?'') ((ch_baseURL h @ path) @ CHR ''?'' # ''accountId='' @ urlq acct) = CHR ''?'' # ''accountId='' @ urlq acct"
      by (subst dropWhile_append2) auto
    then have raw: "tl (dropWhile (\<lambda>c. c \<noteq> CHR ''?'') (takeWhile (\<lambda>c. c \<noteq> CHR ''#'') ?url)) = ''accountId='' @ urlq acct"
      unfolding t by (simp only: append_assoc list.sel)
    have "split_on (CHR ''&'') (''accountId='' @ urlq acct) = [''accountId='' @ urlq acct]"
      by (rule split_on_single) (use u(2) in auto)
    moreover have "query_pair (''accountId='' @ urlq acct) = Some (''accountId'', acct)"
      using u(3) query_unescape_urlq [OF assms(1)] by (simp add: query_pair_def)
    ultimately show ?thesis unfolding query_get_def raw Let_def by (simp add: map_filter_simps)
  qed
  from this [of "''/connect/onboard/refresh''"] this [of "''/connect/onboard/return''"]
  have "query_get (lk_RefreshURL (link_for h acct)) ''accountId'' = acct" "query_get (lk_ReturnURL (link_for h acct)) ''accountId'' = acct"
    by (simp_all add: link_for_def)
  then show ?thesis by (simp add: onboardRefresh_def onboardReturn_def accountLink_def)
qed

lemma onboarding_comes_back_witness:
  "query_get (lk_ReturnURL (link_for sample_connect ''acct_1&x=1'')) ''accountId'' = ''acct_1&x=1''"
  using onboarding_comes_back [of "''acct_1&x=1''" sample_connect] by (simp add: sample_connect_def)

text \<open>A percent sign is not escaped: an address with one is read back as another.\<close>

lemma urlq_not_injective: "urlq ''a%20b@x.co'' = urlq ''a b@x.co'' \<and> query_unescape (urlq ''a%20b@x.co'') = Some ''a b@x.co''"
  by (simp add: urlq_def urlq_char_def hex_val_def) code_simp

subsection \<open>Pages\<close>

text \<open>The characters that open or close a tag or an attribute.\<close>

definition markup :: "char \<Rightarrow> bool" where
  "markup c \<longleftrightarrow> c = CHR ''<'' \<or> c = CHR ''>'' \<or> c = CHR 0x22 \<or> c = CHR 0x27"

definition skeleton :: "string \<Rightarrow> string" where
  "skeleton s = filter markup s"

lemma skeleton_append: "skeleton (s @ t) = skeleton s @ skeleton t"
  by (simp add: skeleton_def)

lemma skeleton_concat: "skeleton (concat (map f xs)) = concat (map (skeleton \<circ> f) xs)"
  by (induction xs) (simp_all add: skeleton_append, simp add: skeleton_def)

lemma skeleton_escape: "skeleton (html_escape s) = []"
proof -
  have "\<not> markup c" if "c \<in> set (escape_char x)" for c x
    using that by (auto simp: escape_char_def markup_def split: if_splits)
  then have "filter markup (escape_char x) = []" for x by (simp add: filter_empty_conv)
  then show ?thesis by (simp add: skeleton_def html_escape_def filter_concat comp_def)
qed

lemmas skeleton_simps = skeleton_append skeleton_escape append_Nil append_Nil2

definition rewritten :: "(storeItem \<Rightarrow> string) \<Rightarrow> (storeItem \<Rightarrow> string) \<Rightarrow> (storeItem \<Rightarrow> string) \<Rightarrow> (string \<Rightarrow> string) \<Rightarrow> storeItem \<Rightarrow> storeItem" where
  "rewritten pid name desc acct i = i\<lparr>it_ProductID := pid i, it_Name := name i, it_Desc := desc i, it_AccountID := acct (it_AccountID i)\<rparr>"

lemma rewritten_fields:
  "it_Cents (rewritten pid name desc acct i) = it_Cents i" "it_AccountID (rewritten pid name desc acct i) = acct (it_AccountID i)"
  "price_text (rewritten pid name desc acct i) = price_text i"
  by (simp_all add: rewritten_def price_text_def)

lemma sellers_map: "inj acct \<Longrightarrow> sellers (map (rewritten pid name desc acct) items) = map acct (sellers items)"
proof -
  assume inj: "inj acct"
  have "foldl (\<lambda>ord i. if it_AccountID i \<in> set ord then ord else ord @ [it_AccountID i]) (map acct ord) (map (rewritten pid name desc acct) items) =
      map acct (foldl (\<lambda>ord i. if it_AccountID i \<in> set ord then ord else ord @ [it_AccountID i]) ord items)" for ord
  proof (induction items arbitrary: ord)
    case (Cons i items)
    have "acct (it_AccountID i) \<in> set (map acct ord) \<longleftrightarrow> it_AccountID i \<in> set ord" using inj by (simp add: inj_image_mem_iff)
    then show ?case using Cons.IH [of ord] Cons.IH [of "ord @ [it_AccountID i]"] by (simp add: rewritten_fields)
  qed simp
  from this [of "[]"] show ?thesis by (simp add: sellers_def)
qed

lemma skeleton_store_row: "skeleton (store_row (rewritten pid name desc acct i)) = skeleton (store_row i)"
proof (cases "it_Cents i \<le> 0")
  case True
  then show ?thesis unfolding store_row_def rewritten_fields Let_def
    by (simp only: if_True prod.case skeleton_simps)
next
  case False
  then show ?thesis unfolding store_row_def rewritten_fields Let_def buy_form_def
    by (simp only: if_False prod.case skeleton_simps)
qed

lemma skeleton_int_str: "skeleton (int_str n) = []"
proof -
  have "\<not> markup c" if "is_digit c" for c using that by (auto simp: markup_def is_digit_def)
  then have "skeleton (nat_str k) = []" for k using nat_str_digits by (auto simp: skeleton_def filter_empty_conv)
  then show ?thesis by (simp add: int_str_def) (simp add: skeleton_def markup_def)
qed

lemma skeleton_seller_block:
  "inj acct \<Longrightarrow> skeleton (seller_block (map (rewritten pid name desc acct) items) (acct a)) = skeleton (seller_block items a)"
proof -
  assume inj: "inj acct"
  have "filter (\<lambda>i. it_AccountID i = acct a) (map (rewritten pid name desc acct) items) =
      map (rewritten pid name desc acct) (filter (\<lambda>i. it_AccountID i = a) items)"
    using inj by (simp add: filter_map comp_def rewritten_fields inj_eq)
  then have "skeleton (concat (map store_row (filter (\<lambda>i. it_AccountID i = acct a) (map (rewritten pid name desc acct) items)))) =
      skeleton (concat (map store_row (filter (\<lambda>i. it_AccountID i = a) items)))"
    by (simp add: skeleton_concat comp_def skeleton_store_row)
  then show ?thesis unfolding seller_block_def by (simp only: skeleton_simps)
qed

lemma skeleton_store: "inj acct \<Longrightarrow> skeleton (store_body (map (rewritten pid name desc acct) items)) = skeleton (store_body items)"
proof -
  assume inj: "inj acct"
  have "skeleton (concat (map (seller_block (map (rewritten pid name desc acct) items)) (sellers (map (rewritten pid name desc acct) items)))) =
      skeleton (concat (map (seller_block items) (sellers items)))"
    by (simp add: skeleton_concat sellers_map [OF inj] comp_def skeleton_seller_block [OF inj])
  moreover have "map (rewritten pid name desc acct) items = [] \<longleftrightarrow> items = []" by simp
  ultimately show ?thesis unfolding store_body_def by (simp only: skeleton_append)
qed

lemma skeleton_page: "skeleton b = skeleton b' \<Longrightarrow> skeleton (page t b) = skeleton (page t' b')"
  unfolding page_def by (simp only: skeleton_simps)

text \<open>What people write never becomes markup. Replace on the storefront every product's name,
  description and id, and every seller's account id (different ones by different ones), by any text:
  the tags and attribute quotes of the page stay the same, character for character. The same holds
  of a status page for any account and requirement text, of the product table, of the payment page
  for any session Stripe returns, and of error pages for any error text.\<close>

lemma pages_markup_fixed:
  assumes "inj acct"
  shows "skeleton (page t (store_body (map (rewritten pid name desc acct) items))) = skeleton (page t (store_body items)) \<and>
    skeleton (concat (map product_row (map (rewritten pid name desc acct) items))) = skeleton (concat (map product_row items)) \<and>
    skeleton (page t (statusBlock (s\<lparr>as_AccountID := a, as_Requirements := CHR ''r'' # r\<rparr>))) =
      skeleton (page t (statusBlock (s\<lparr>as_AccountID := [], as_Requirements := ''r''\<rparr>))) \<and>
    (case (stripeErr ctx err, stripeErr ctx' err') of (Page _ x, Page _ y) \<Rightarrow> skeleton x = skeleton y | _ \<Rightarrow> False) \<and>
    (case (st_RetrieveSession st i, st_RetrieveSession st' i') of
       (Inr _, Inr _) \<Rightarrow> if i = [] \<or> i' = [] then True else skeleton (success_body st i) = skeleton (success_body st' i') | _ \<Rightarrow> True)"
proof (intro conjI)
  show "skeleton (page t (store_body (map (rewritten pid name desc acct) items))) = skeleton (page t (store_body items))"
    by (rule skeleton_page [OF skeleton_store [OF assms]])
  have "skeleton (product_row (rewritten pid name desc acct i)) = skeleton (product_row i)" for i
    unfolding product_row_def rewritten_fields by (simp only: skeleton_simps)
  then show "skeleton (concat (map product_row (map (rewritten pid name desc acct) items))) = skeleton (concat (map product_row items))"
    by (simp add: skeleton_concat comp_def)
  have st: "as_Ready (s\<lparr>as_AccountID := a, as_Requirements := r\<rparr>) = as_Ready s"
    "as_Complete (s\<lparr>as_AccountID := a, as_Requirements := r\<rparr>) = as_Complete s" for a r
    by simp_all
  have "skeleton (statusBlock (s\<lparr>as_AccountID := a, as_Requirements := CHR ''r'' # r\<rparr>)) =
      skeleton (statusBlock (s\<lparr>as_AccountID := [], as_Requirements := ''r''\<rparr>))"
    unfolding statusBlock_def by (simp only: skeleton_simps st)
  then show "skeleton (page t (statusBlock (s\<lparr>as_AccountID := a, as_Requirements := CHR ''r'' # r\<rparr>))) =
      skeleton (page t (statusBlock (s\<lparr>as_AccountID := [], as_Requirements := ''r''\<rparr>)))"
    by (rule skeleton_page)
  have "skeleton (''<p class=\"err\">'' @ html_escape ctx @ '': '' @ html_escape err @ ''</p>'' @ nl @ ''     <p><a href=\"/connect/\">back</a></p>'') =
      skeleton (''<p class=\"err\">'' @ html_escape ctx' @ '': '' @ html_escape err' @ ''</p>'' @ nl @ ''     <p><a href=\"/connect/\">back</a></p>'')"
    by (simp only: skeleton_simps)
  then show "case (stripeErr ctx err, stripeErr ctx' err') of (Page _ x, Page _ y) \<Rightarrow> skeleton x = skeleton y | _ \<Rightarrow> False"
    unfolding stripeErr_def prod.case connect_resp.case by (rule skeleton_page)
  show "case (st_RetrieveSession st i, st_RetrieveSession st' i') of
       (Inr _, Inr _) \<Rightarrow> if i = [] \<or> i' = [] then True else skeleton (success_body st i) = skeleton (success_body st' i') | _ \<Rightarrow> True"
  proof (cases "st_RetrieveSession st i"; cases "st_RetrieveSession st' i'")
    fix w w' assume w: "st_RetrieveSession st i = Inr w" "st_RetrieveSession st' i' = Inr w'"
    have "skeleton (success_body st i) = skeleton (success_body st' i')" if "i \<noteq> []" "i' \<noteq> []"
      unfolding success_body_def using that w by (simp only: if_False sum.case skeleton_simps skeleton_int_str)
    then show ?thesis unfolding w by simp
  qed simp_all
qed

lemma pages_markup_fixed_witness:
  "skeleton (page [] (store_body (map (rewritten (\<lambda>_. []) (\<lambda>_. ''<script>'') (\<lambda>_. []) id) [store_item sample_product]))) =
   skeleton (page [] (store_body [store_item sample_product]))"
  using pages_markup_fixed [OF inj_on_id] by blast

text \<open>The link to an account's status on the first page is the exception: there the id is not escaped.\<close>

lemma known_row_unescaped: "skeleton (known_row ([], [CHR 0x22])) \<noteq> skeleton (known_row ([], ''a''))"
proof -
  have "length (skeleton (known_row ([], [CHR 0x22]))) = length (skeleton (known_row ([], ''a''))) + 1"
    unfolding known_row_def prod.sel by (simp only: skeleton_simps length_append) (simp add: urlq_def urlq_char_def skeleton_def markup_def)
  then show ?thesis by (metis n_not_Suc_n Suc_eq_plus1)
qed

end
