(* ===== verification/Demo.thy ===== *)
theory Demo
  imports Workloads Net
begin

text \<open>
  The public demo (coordinator/internal/api/demo.go): one route that quotes, reviews and runs a
  single fixed workload, billed to nobody, and the content-free record of its last run. Text is
  UTF-8 bytes, cut into runes as in \<open>Codec\<close>. What
  the batch runner makes of the item is an argument, as in the batch route.
\<close>

subsection \<open>Runes\<close>

definition isSpace :: "string \<Rightarrow> bool" where
  "isSpace r \<longleftrightarrow> r \<in> {'' '', [CHR 0x09], [CHR 0x0A], [CHR 0x0D], [CHR 0x0B], [CHR 0x0C]}"

definition clipRunes :: "string \<Rightarrow> nat \<Rightarrow> string" where
  "clipRunes s n = (let r = dropWhile isSpace (runes s); r = rev (dropWhile isSpace (rev r)) in
     concat (if length r > n then take n r else r))"

subsection \<open>The workload\<close>

definition demoModel :: string where "demoModel = ''qwen2.5-0.5b-instruct-q4_k_m''"
definition demoMaxTokens :: int where "demoMaxTokens = 256"
definition demoMaxChars :: nat where "demoMaxChars = 6000"
definition demoMinChars :: nat where "demoMinChars = 40"
definition demoKeyID :: string where "demoKeyID = ''demo''"
definition demoTemplate :: string where
  "demoTemplate = ''Summarize the following document in 4'' @ [CHR 0xE2, CHR 0x80, CHR 0x93] @
     ''6 sentences. Be faithful and concise.'' @ [CHR 0x0A, CHR 0x0A]"

record demoLastJob =
  dl_Model :: string
  dl_Class :: string
  dl_Tier :: string
  dl_PromptTokens :: int
  dl_CompletionTokens :: int
  dl_WallMS :: int
  dl_WouldCostUSD :: f64
  dl_Device :: "(string \<times> string) list"
  dl_CouncilDecision :: Verdict
  dl_AuditHash :: string
  dl_RecordedAt :: int

record demo_state =
  dm_limiter :: Limiter
  dm_recent :: "PublicDecision list"
  dm_store :: PG
  dm_last :: "demoLastJob option"

text \<open>A friendly name for the advertised capabilities.\<close>

definition deviceLabel :: "Capabilities \<Rightarrow> string" where
  "deviceLabel c = (let mac = (Platform c = ''darwin'' \<or> Platform c = ''macos''); arm = (Arch c = ''arm64'' \<or> Arch c = ''aarch64'');
     base = (if Platform c = ''android'' then ''Android phone''
       else if mac \<and> arm then ''Apple-silicon Mac''
       else if mac then ''Mac''
       else if Platform c = ''linux'' \<and> (Arch c = ''amd64'' \<or> Arch c = ''x86_64'') then ''Linux desktop (x86-64)''
       else if Platform c = ''linux'' \<and> arm then ''Linux (ARM64)''
       else if Platform c = ''windows'' then ''Windows PC''
       else Platform c @ '' '' @ Arch c)
   in if Backend c \<noteq> [] then base @ '' '' @ [CHR 0xC2, CHR 0xB7] @ '' '' @ Backend c else base)"

definition demo_item :: "string \<Rightarrow> Item" where
  "demo_item text = \<lparr>it_Messages = [\<lparr>Role = ''user'', Content = demoTemplate @ text\<rparr>],
     it_Params = \<lparr>MaxTokens = demoMaxTokens, Temperature = None, TopP = None, TopK = None, RepeatPenalty = None,
       Stop = [], Seed = None\<rparr>\<rparr>"

definition demo_spec :: "server_env \<Rightarrow> string \<Rightarrow> Spec" where
  "demo_spec e text = \<lparr>sp_Model = demoModel, sp_ModelClass = classOf (sv_cat e) demoModel, sp_Tier = ''community'',
     Redundancy = 1, Spot = False, sp_Items = [demo_item text], EstimateCount = 0, AvgPromptTokens = 0, AvgCompletionTokens = 0\<rparr>"

definition demo_supply :: "Registry \<Rightarrow> string list \<Rightarrow> PG \<Rightarrow> string \<Rightarrow> Supply" where
  "demo_supply reg order p hw = (case supplyFor reg order p demoModel ''community'' hw of Inr s \<Rightarrow> s
     | Inl _ \<Rightarrow> \<lparr>Nodes = 0, AggregateTPS = ReferenceNodeTPS, TopACU = 0\<rparr>)"

definition demo_cost :: "server_env \<Rightarrow> Spec \<Rightarrow> Estimate \<Rightarrow> WorkloadCost" where
  "demo_cost e spec est = QuoteWorkload (sp_ModelClass spec) ''community'' (es_PromptTokens est) (es_CompletionTokens est) 1
     (cf_MarketplaceMargin (sv_cfg e)) (cf_PriceMultiplier (sv_cfg e))"

definition demo_proposal :: "market_env \<Rightarrow> Spec \<Rightarrow> Estimate \<Rightarrow> WorkloadCost \<Rightarrow> ReviewProposal" where
  "demo_proposal m spec est cost = ForWorkload (mk_hash m) (mk_jfloat m) (mk_clock m) demoModel (sp_ModelClass spec) ''community''
     (es_Items est) (es_PromptTokens est) (es_CompletionTokens est) 1 False (cost_usd cost) (ETASeconds est)"

definition device_info :: "Registry \<Rightarrow> ItemResult \<Rightarrow> (string \<times> string) list" where
  "device_info reg it = (''trust_tier'', ir_TrustTier it) # (case Get reg (ir_ProviderID it) of None \<Rightarrow> []
     | Some c \<Rightarrow> (let k = Caps (prov reg c) in [(''platform'', Platform k), (''arch'', Arch k), (''backend'', Backend k),
         (''hardware_class'', HardwareClass k), (''label'', deviceLabel k)]))"

definition last_job :: "int \<Rightarrow> Registry \<Rightarrow> Spec \<Rightarrow> WorkloadCost \<Rightarrow> Outcome \<Rightarrow> Summary \<Rightarrow> ItemResult \<Rightarrow> demoLastJob" where
  "last_job now reg spec cost outc sm it = \<lparr>dl_Model = demoModel, dl_Class = service_class spec, dl_Tier = ir_TrustTier it,
     dl_PromptTokens = PromptTokens (ir_Usage it), dl_CompletionTokens = CompletionTokens (ir_Usage it),
     dl_WallMS = su_WallMS sm, dl_WouldCostUSD = round2usd (TotalMicros cost), dl_Device = device_info reg it,
     dl_CouncilDecision = oc_Decision outc, dl_AuditHash = AuditHash outc, dl_RecordedAt = now\<rparr>"

record demo_quote =
  dq_TotalUSD :: f64
  dq_ETASeconds :: int
  dq_Nodes :: int
  dq_SupplyOnline :: bool
  dq_Breakdown :: "f64 list"

definition demo_quote_of :: "Supply \<Rightarrow> Estimate \<Rightarrow> WorkloadCost \<Rightarrow> demo_quote" where
  "demo_quote_of avail est cost = \<lparr>dq_TotalUSD = round2usd (TotalMicros cost), dq_ETASeconds = ETASeconds est,
     dq_Nodes = es_EligibleNodes est, dq_SupplyOnline = (Nodes avail > 0),
     dq_Breakdown = map round4usd [ComputeMicros cost, CoordinationMicros cost, FailureMicros cost, PaymentMicros cost, MarginMicros cost]\<rparr>"

text \<open>The answer: quote and review, then blocked, or the fallback with its error, or the summary with its record.\<close>

datatype demo_end = DemoBlocked | DemoFallback "demoLastJob option" string | DemoResult string demoLastJob

record demo_view =
  dv_Quote :: demo_quote
  dv_Outcome :: Outcome
  dv_Proposal :: ReviewProposal
  dv_End :: demo_end

text \<open>The run and what it leaves behind; \<open>now\<close> is the clock of the record.\<close>

definition demo_run :: "market_env \<Rightarrow> int \<Rightarrow> Registry \<Rightarrow> (Item list \<Rightarrow> Options \<Rightarrow> sched_error + Summary) \<Rightarrow> string \<Rightarrow> Spec \<Rightarrow> WorkloadCost \<Rightarrow>
    Outcome \<Rightarrow> demo_state \<Rightarrow> demo_end \<times> demo_state" where
  "demo_run m now reg run hw spec cost outc s =
    (case run (sp_Items spec) \<lparr>op_Model = demoModel, op_MinTier = [], op_HWClass = hw, op_MinContext = 0, op_Concurrency = 0,
        op_ACUByPK = acuByPK (dm_store s)\<rparr> of
      Inl _ \<Rightarrow> (DemoFallback (dm_last s) ''no_provider_online'', s)
    | Inr sm \<Rightarrow> (case su_Items sm of
        [] \<Rightarrow> (DemoFallback (dm_last s) ''no_provider_online'', s)
      | it # _ \<Rightarrow>
          if ir_ErrCode it \<noteq> [] then (DemoFallback (dm_last s) (ir_ErrCode it), s)
          else let p = snd (recordJob (mk_srv m) demoKeyID demoModel (item_relay_result it) (cf_PriceMultiplier (sv_cfg (mk_srv m))) (dm_store s));
                   j = last_job now reg spec cost outc sm it
               in (DemoResult (ir_Content it) j, s\<lparr>dm_store := p, dm_last := Some j\<rparr>)))"

definition handleDemoSummarize :: "market_env \<Rightarrow> int \<Rightarrow> int \<Rightarrow> http_req \<Rightarrow> Registry \<Rightarrow> string list \<Rightarrow>
    (Item list \<Rightarrow> Options \<Rightarrow> sched_error + Summary) \<Rightarrow> string option \<Rightarrow> demo_state \<Rightarrow> demo_view resp \<times> demo_state" where
  "handleDemoSummarize m now now' r reg order run body s = (let e = mk_srv m in
     if \<not> cf_DemoEnabled (sv_cfg e) then (Reject 404 ''not_found'', s)
     else (case Allow now (''demo:'' @ clientIP SplitHostPort r) (dm_limiter s) of (l, allowed, _) \<Rightarrow>
       let s = s\<lparr>dm_limiter := l\<rparr> in
       if \<not> allowed then (Reject 429 ''rate_limited'', s)
       else (case body of None \<Rightarrow> (Reject 400 ''invalid_json'', s)
       | Some req \<Rightarrow> (let text = clipRunes req demoMaxChars in
           if length text < demoMinChars then (Reject 400 ''too_short'', s)
           else (case resolveModel (sv_cat e) demoModel of (hw, ok) \<Rightarrow>
             if \<not> ok then (Reject 503 ''demo_model_missing'', s)
             else let spec = demo_spec e text; avail = demo_supply reg order (dm_store s) hw; est = EstimateWorkload spec avail;
                      cost = demo_cost e spec est; prop = demo_proposal m spec est cost;
                      outc = Evaluate (mk_hash m) (mk_votes m) (mk_clock m) DefaultPolicy (mk_reviewers m) prop;
                      s = s\<lparr>dm_recent := snd (RecordWorkloadDecision (mk_hash m) (mk_md m) outc (prop_Title prop) (dm_recent s))\<rparr>;
                      view = (\<lambda>x. Reply 200 \<lparr>dv_Quote = demo_quote_of avail est cost, dv_Outcome = outc, dv_Proposal = prop, dv_End = x\<rparr>)
                  in if \<not> Acceptable (Some outc) then (view DemoBlocked, s)
                     else (case demo_run m now' reg run hw spec cost outc s of (x, s') \<Rightarrow> (view x, s')))))))"

definition handleDemoLastJob :: "Config \<Rightarrow> demo_state \<Rightarrow> demoLastJob option resp" where
  "handleDemoLastJob cfg s = (if \<not> cf_DemoEnabled cfg then Reject 404 ''not_found'' else Reply 200 (dm_last s))"

subsection \<open>Clipping\<close>

text \<open>Unlike a cut by bytes, clipping by runes leaves whole runes.\<close>

lemma clipRunes_runes: "\<exists>rs. clipRunes s n = concat rs \<and> length rs \<le> n \<and> set rs \<subseteq> set (runes s)"
proof -
  let ?a = "dropWhile isSpace (runes s)"
  let ?r = "rev (dropWhile isSpace (rev ?a))"
  let ?rs = "if length ?r > n then take n ?r else ?r"
  have "set ?r \<subseteq> set (runes s)" by (auto dest!: set_dropWhileD)
  then have "set ?rs \<subseteq> set (runes s)" using set_take_subset [of n ?r] by auto
  moreover have "clipRunes s n = concat ?rs" by (simp add: clipRunes_def Let_def)
  ultimately show ?thesis by (intro exI [of _ ?rs]) auto
qed

subsection \<open>Nothing of the text is kept\<close>

lemma estPromptTokens_length:
  "length text = length text' \<Longrightarrow> estPromptTokens (it_Messages (demo_item text)) = estPromptTokens (it_Messages (demo_item text'))"
  by (simp add: estPromptTokens_def demo_item_def)

lemma demo_estimate:
  "length text = length text' \<Longrightarrow> EstimateWorkload (demo_spec e text) avail = EstimateWorkload (demo_spec e text') avail"
  using estPromptTokens_length [of "text" text']
  by (simp add: EstimateWorkload_def workload_volume_def demo_spec_def item_completion_def Let_def) (simp add: demo_item_def)

lemma demo_spec_fields: "sp_ModelClass (demo_spec e text) = classOf (sv_cat e) demoModel"
    "service_class (demo_spec e text) = ''on_demand''" "sp_Items (demo_spec e text) = [demo_item text]"
  by (simp_all add: demo_spec_def service_class_def)

definition no_content :: "Summary \<Rightarrow> Summary" where
  "no_content sm = sm\<lparr>su_Items := map (\<lambda>it. it\<lparr>ir_Content := []\<rparr>) (su_Items sm)\<rparr>"

text \<open>A run whose answer for one item is, but for the generated text, the answer for another.\<close>

definition alike :: "sched_error + Summary \<Rightarrow> sched_error + Summary \<Rightarrow> bool" where
  "alike x y \<longleftrightarrow> map_sum id no_content x = map_sum id no_content y"

lemma alike_cases:
  assumes "alike x y"
  obtains (err) err where "x = Inl err" "y = Inl err"
    | (none) sm sm' where "x = Inr sm" "y = Inr sm'" "su_Items sm = []" "su_Items sm' = []"
    | (item) sm sm' it its it' its' where "x = Inr sm" "y = Inr sm'" "su_Items sm = it # its" "su_Items sm' = it' # its'"
        "su_WallMS sm = su_WallMS sm'" "it\<lparr>ir_Content := []\<rparr> = it'\<lparr>ir_Content := []\<rparr>"
proof (cases x)
  case (Inl a)
  then show ?thesis using assms err by (cases y) (auto simp: alike_def)
next
  case (Inr sm)
  then obtain sm' where y: "y = Inr sm'" and e: "no_content sm = no_content sm'"
    using assms by (cases y) (auto simp: alike_def)
  have i: "map (\<lambda>it. it\<lparr>ir_Content := []\<rparr>) (su_Items sm) = map (\<lambda>it. it\<lparr>ir_Content := []\<rparr>) (su_Items sm')"
    using arg_cong [OF e, of su_Items] by (simp add: no_content_def)
  have w: "su_WallMS sm = su_WallMS sm'" using arg_cong [OF e, of su_WallMS] by (simp add: no_content_def)
  show ?thesis
  proof (cases "su_Items sm")
    case Nil
    then show ?thesis using none Inr y i by simp
  next
    case (Cons it its)
    then obtain it' its' where "su_Items sm' = it' # its'" "it\<lparr>ir_Content := []\<rparr> = it'\<lparr>ir_Content := []\<rparr>"
      using i by (cases "su_Items sm'") auto
    then show ?thesis using item Inr y Cons w by blast
  qed
qed

lemma content_eq:
  assumes "it\<lparr>ir_Content := []\<rparr> = it'\<lparr>ir_Content := []\<rparr>"
  shows "ir_ErrCode it = ir_ErrCode it'" "ir_Usage it = ir_Usage it'" "ir_ProviderID it = ir_ProviderID it'"
    "ir_TrustTier it = ir_TrustTier it'" "item_relay_result it = item_relay_result it'"
proof -
  note f = arg_cong [OF assms]
  show g: "ir_ErrCode it = ir_ErrCode it'" "ir_Usage it = ir_Usage it'" "ir_ProviderID it = ir_ProviderID it'"
    "ir_TrustTier it = ir_TrustTier it'"
    using f [of ir_ErrCode] f [of ir_Usage] f [of ir_ProviderID] f [of ir_TrustTier] by simp_all
  have "ir_FinishReason it = ir_FinishReason it'" "ir_ProviderPK it = ir_ProviderPK it'" "ir_JobID it = ir_JobID it'"
    using f [of ir_FinishReason] f [of ir_ProviderPK] f [of ir_JobID] by simp_all
  then show "item_relay_result it = item_relay_result it'" using g by (simp add: item_relay_result_def)
qed

lemma demo_run_alike:
  assumes "\<And>opts. alike (run [demo_item text] opts) (run [demo_item text'] opts)"
  shows "snd (demo_run m now reg run hw (demo_spec e text) cost outc s) = snd (demo_run m now reg run hw (demo_spec e text') cost outc s)"
proof -
  let ?opts = "\<lparr>op_Model = demoModel, op_MinTier = [], op_HWClass = hw, op_MinContext = 0, op_Concurrency = 0,
        op_ACUByPK = acuByPK (dm_store s)\<rparr>"
  from assms [of ?opts] show ?thesis
  proof (cases rule: alike_cases)
    case (item sm sm' it its it' its')
    note c = content_eq [OF item(6)]
    have "last_job now reg (demo_spec e text) cost outc sm it = last_job now reg (demo_spec e text') cost outc sm' it'"
      by (simp add: last_job_def demo_spec_fields c item(5) device_info_def)
    then show ?thesis by (simp add: demo_run_def demo_spec_fields item(1-4) c Let_def)
  qed (simp_all add: demo_run_def demo_spec_fields)
qed

lemma demo_run_free: "pg_CreditBalance (dm_store (snd (demo_run m now reg run hw spec cost outc s))) k = pg_CreditBalance (dm_store s) k"
  by (auto simp: demo_run_def recordJob_def keep_earning keep_usage Let_def split: sum.split list.split)

text \<open>C38: the demo keeps nothing of the text and bills nobody. Two visitors who paste texts of the same
  length, and whom the provider answers alike but for what it writes, leave the coordinator in the
  same state: the same limiter, the same Council record, the same ledgers, the same record of the
  last run. And whatever is posted, no key's balance moves.\<close>

theorem demo_keeps_no_text:
  assumes "length (clipRunes b demoMaxChars) = length (clipRunes b' demoMaxChars)"
    and "\<And>opts. alike (run [demo_item (clipRunes b demoMaxChars)] opts) (run [demo_item (clipRunes b' demoMaxChars)] opts)"
  shows "snd (handleDemoSummarize m now now' r reg order run (Some b) s) = snd (handleDemoSummarize m now now' r reg order run (Some b') s) \<and>
    pg_CreditBalance (dm_store (snd (handleDemoSummarize m now now' r reg order run (Some b) s))) k = pg_CreditBalance (dm_store s) k"
proof -
  let ?t = "clipRunes b demoMaxChars" let ?t' = "clipRunes b' demoMaxChars"
  have cost: "demo_cost e (demo_spec e x) est = demo_cost e (demo_spec e y) est"
    "demo_proposal m (demo_spec e x) est c = demo_proposal m (demo_spec e y) est c" for e x y est c
    by (simp_all add: demo_cost_def demo_proposal_def demo_spec_fields)
  note same = demo_estimate [OF assms(1)] cost(1) [where x = ?t and y = ?t'] cost(2) [where x = ?t and y = ?t'] demo_run_alike [OF assms(2)]
  have "snd (handleDemoSummarize m now now' r reg order run (Some b) s) = snd (handleDemoSummarize m now now' r reg order run (Some b') s)"
    unfolding handleDemoSummarize_def Let_def option.case
    by (simp add: same assms(1) case_prod_beta)
  moreover have "pg_CreditBalance (dm_store (snd (handleDemoSummarize m now now' r reg order run (Some b) s))) k = pg_CreditBalance (dm_store s) k"
    unfolding handleDemoSummarize_def Let_def option.case
    by (simp add: case_prod_beta demo_run_free)
  ultimately show ?thesis by blast
qed

definition echo_item :: "Item list \<Rightarrow> ItemResult" where
  "echo_item its = \<lparr>ir_Index = 0, ir_Content = concat (map (\<lambda>i. concat (map Content (it_Messages i))) its),
     ir_Usage = \<lparr>PromptTokens = 40, CompletionTokens = 20, TotalTokens = 60\<rparr>, ir_FinishReason = ''stop'', ir_ProviderID = ''p'', ir_ProviderPK = ''pk'',
     ir_TrustTier = ''community'', ir_JobID = ''j'', ir_ErrCode = [], ir_ErrMsg = [], ir_LatencyMS = 3\<rparr>"

definition echo_run :: "Item list \<Rightarrow> Options \<Rightarrow> sched_error + Summary" where
  "echo_run its opts = Inr \<lparr>su_Items = [echo_item its], su_OK = 1, su_Failed = 0, su_Providers = Map.empty, su_PromptTokens = 40,
     su_CompletionTokens = 20, su_Concurrency = 1, su_WallMS = 5\<rparr>"

lemma demo_keeps_no_text_witness:
  "\<forall>m r reg order s. snd (handleDemoSummarize m 0 0 r reg order echo_run (Some (replicate 50 CHR ''a'')) s) =
     snd (handleDemoSummarize m 0 0 r reg order echo_run (Some (replicate 50 CHR ''b'')) s)"
proof (intro allI)
  fix m r reg order s
  have len: "length (clipRunes (replicate 50 CHR ''a'') demoMaxChars) = length (clipRunes (replicate 50 CHR ''b'') demoMaxChars)"
    by code_simp
  have run: "alike (echo_run [demo_item x] opts) (echo_run [demo_item y] opts)" for x y opts
    by (simp add: alike_def echo_run_def no_content_def echo_item_def)
  show "snd (handleDemoSummarize m 0 0 r reg order echo_run (Some (replicate 50 CHR ''a'')) s) =
      snd (handleDemoSummarize m 0 0 r reg order echo_run (Some (replicate 50 CHR ''b'')) s)"
    using demo_keeps_no_text [where run = echo_run, OF len] run by blast
qed

end
