(* ===== verification/Router.thy ===== *)
theory Router
  imports Console Connect
begin

text \<open>
  The route table and the middleware of package \<open>api\<close> (coordinator/internal/api/server.go, admin.go,
  council.go, headers.go, the mounts of packages \<open>auth\<close> and \<open>connectdemo\<close>): every pattern with the
  guards its handler is wrapped in, the matching of \<open>net/http\<close> \<open>ServeMux\<close>, and the chain a request
  passes. A request has an already cleaned path. Handlers are named as in the source; what they do
  is in the theories of their files. Metrics counters and log lines are left out.
\<close>

subsection \<open>Patterns\<close>

datatype guard = Gate | Auth_key | Admin

record endpoint =
  ep_pattern :: string
  ep_label :: "string option"
  ep_guards :: "guard list"
  ep_handler :: string

definition ep :: "string \<Rightarrow> string option \<Rightarrow> guard list \<Rightarrow> string \<Rightarrow> endpoint" where
  "ep pat label gs h = \<lparr>ep_pattern = pat, ep_label = label, ep_guards = gs, ep_handler = h\<rparr>"

datatype seg = Lit string | Wild

text \<open>A pattern is a method, if any, and path segments; a trailing slash is an empty last segment.\<close>

definition pattern_method :: "string \<Rightarrow> string option" where
  "pattern_method pat = (if CHR '' '' \<in> set pat then Some (takeWhile (\<lambda>c. c \<noteq> CHR '' '') pat) else None)"

definition path_segments :: "string \<Rightarrow> string list" where
  "path_segments path = tl (split_on (CHR ''/'') path)"

definition pattern_segs :: "string \<Rightarrow> seg list" where
  "pattern_segs pat = map (\<lambda>s. if has_prefix s ''{'' then Wild else Lit s)
     (path_segments (if CHR '' '' \<in> set pat then tl (dropWhile (\<lambda>c. c \<noteq> CHR '' '') pat) else pat))"

fun match_segs :: "seg list \<Rightarrow> string list \<Rightarrow> bool" where
  "match_segs [] xs = (xs = [])"
| "match_segs (p # ps) [] = False"
| "match_segs (p # ps) (x # xs) = (if p = Lit [] \<and> ps = [] then True
     else case p of Lit a \<Rightarrow> a = x \<and> match_segs ps xs | Wild \<Rightarrow> x \<noteq> [] \<and> match_segs ps xs)"

text \<open>A pattern for GET serves HEAD too.\<close>

definition method_ok :: "string \<Rightarrow> endpoint \<Rightarrow> bool" where
  "method_ok m e = (case pattern_method (ep_pattern e) of None \<Rightarrow> True | Some pm \<Rightarrow> pm = m \<or> pm = ''GET'' \<and> m = ''HEAD'')"

fun wild_values :: "seg list \<Rightarrow> string list \<Rightarrow> string list" where
  "wild_values (Wild # ps) (x # xs) = x # wild_values ps xs"
| "wild_values (Lit a # ps) (x # xs) = wild_values ps xs"
| "wild_values _ _ = []"

text \<open>At the first difference a literal beats a wildcard, and either beats a subtree.\<close>

fun more_specific :: "seg list \<Rightarrow> seg list \<Rightarrow> bool" where
  "more_specific (p # ps) (q # qs) = (if p = q then more_specific ps qs
     else q = Lit [] \<and> qs = [] \<or> (p \<noteq> Lit [] \<and> p \<noteq> Wild \<and> q = Wild))"
| "more_specific _ _ = False"

definition narrower :: "endpoint \<Rightarrow> endpoint \<Rightarrow> endpoint" where
  "narrower e f = (if more_specific (pattern_segs (ep_pattern f)) (pattern_segs (ep_pattern e)) then f else e)"

datatype routed = Found endpoint "string list" | MethodNotAllowed | NoRoute

definition route_request :: "endpoint list \<Rightarrow> string \<Rightarrow> string \<Rightarrow> routed" where
  "route_request tbl m path = (let xs = path_segments path; es = filter (\<lambda>e. match_segs (pattern_segs (ep_pattern e)) xs) tbl in
     case filter (method_ok m) es of
       [] \<Rightarrow> if es = [] then NoRoute else MethodNotAllowed
     | e # fs \<Rightarrow> (let b = foldl narrower e fs in Found b (wild_values (pattern_segs (ep_pattern b)) xs)))"

subsection \<open>The table\<close>

definition api_routes :: "endpoint list" where
  "api_routes = [
    ep ''GET /healthz'' (Some ''healthz'') [] ''handleHealth'',
    ep ''GET /health'' (Some ''healthz'') [] ''handleHealth'',
    ep ''GET /livez'' (Some ''healthz'') [] ''handleHealth'',
    ep ''GET /v1/models'' (Some ''v1_models'') [Auth_key] ''handleModels'',
    ep ''GET /v1/manifest-key'' (Some ''v1_manifest_key'') [] ''handleManifestKey'',
    ep ''GET /v1/stats'' (Some ''v1_stats'') [] ''handlePublicStats'',
    ep ''GET /install/provider.sh'' (Some ''install_provider'') [] ''handleInstallScript'',
    ep ''POST /v1/chat/completions'' (Some ''v1_chat_completions'') [Gate, Auth_key] ''handleChatCompletions'',
    ep ''POST /v1/batch'' (Some ''v1_batch'') [Gate, Auth_key] ''handleBatch'',
    ep ''POST /v1/quote'' (Some ''v1_quote'') [] ''handleQuotePreview'',
    ep ''POST /v1/demo/summarize'' (Some ''v1_demo_summarize'') [Gate] ''handleDemoSummarize'',
    ep ''GET /v1/demo/last-job'' (Some ''v1_demo_last_job'') [] ''handleDemoLastJob'',
    ep ''POST /v1/workloads'' (Some ''v1_workloads_create'') [Gate, Auth_key] ''handleCreateWorkload'',
    ep ''GET /v1/workloads/{id}'' (Some ''v1_workloads_get'') [Auth_key] ''handleGetWorkload'',
    ep ''POST /v1/workloads/{id}/accept'' (Some ''v1_workloads_accept'') [Gate, Auth_key] ''handleAcceptWorkload'',
    ep ''GET /v1/runs'' (Some ''v1_runs_list'') [Auth_key] ''handleListRuns'',
    ep ''GET /v1/runs/{id}'' (Some ''v1_runs_get'') [Auth_key] ''handleGetRun'',
    ep ''GET /v1/runs/{id}/results'' (Some ''v1_runs_results'') [Auth_key] ''handleGetRunResults'',
    ep ''/ws/provider'' (None) [] ''hub.HandleProvider'',
    ep ''POST /waitlist'' (Some ''waitlist'') [] ''handleWaitlist'',
    ep ''POST /v1/pair/{code}'' (Some ''pair_redeem'') [] ''handlePairRedeem'',
    ep ''GET /v1/me/devices'' (Some ''my_devices'') [] ''handleMyDevices'',
    ep ''GET /v1/me/referral'' (Some ''my_referral'') [] ''handleMyReferral'',
    ep ''POST /v1/me/referral/claim'' (Some ''my_referral_claim'') [] ''handleClaimReferral'',
    ep ''POST /v1/me/profile'' (Some ''my_profile'') [] ''handleMyProfile'',
    ep ''GET /v1/leaderboard'' (Some ''v1_leaderboard'') [] ''handleLeaderboard'',
    ep ''POST /v1/feedback'' (Some ''feedback'') [] ''handleFeedback'',
    ep ''GET /v1/me/feedback'' (Some ''my_feedback'') [] ''handleMyFeedback'',
    ep ''POST /v1/me/feedback/{id}/reply'' (Some ''my_feedback_reply'') [] ''handleMyFeedbackReply'',
    ep ''POST /initiatives'' (Some ''initiatives'') [] ''handleInitiative'',
    ep ''GET /billing/balance'' (Some ''billing_balance'') [Auth_key] ''handleBalance'',
    ep ''POST /billing/checkout'' (Some ''billing_checkout'') [Auth_key] ''handleCheckout'',
    ep ''POST /billing/webhook'' (Some ''billing_webhook'') [] ''handleStripeWebhook'',
    ep ''POST /payouts/webhook'' (Some ''payouts_webhook'') [] ''handlePayoutWebhook''
  ]"

definition council_routes :: "endpoint list" where
  "council_routes = [
    ep ''GET /v1/council/roster'' (Some ''v1_council_roster'') [] ''councilRoster'',
    ep ''GET /v1/council/constitution'' (Some ''v1_council_constitution'') [] ''councilConstitution'',
    ep ''GET /v1/council/meetings'' (Some ''v1_council_meetings'') [] ''councilMeetings'',
    ep ''GET /v1/council/meetings/{id}'' (Some ''v1_council_meeting'') [] ''councilMeeting'',
    ep ''GET /v1/council/decisions'' (Some ''v1_council_decisions'') [] ''councilDecisions'',
    ep ''GET /v1/council/decisions/{id}'' (Some ''v1_council_decision'') [] ''councilDecision'',
    ep ''GET /v1/council/run-reviews'' (Some ''v1_council_run_reviews'') [] ''councilRunReviews''
  ]"

definition auth_routes :: "endpoint list" where
  "auth_routes = [
    ep ''GET /auth/providers'' (None) [] ''auth.handleProviders'',
    ep ''GET /auth/{provider}'' (None) [] ''auth.handleStart'',
    ep ''GET /auth/{provider}/callback'' (None) [] ''auth.handleCallback'',
    ep ''POST /auth/logout'' (None) [] ''auth.handleLogout'',
    ep ''GET /v1/me'' (None) [] ''auth.handleMe'',
    ep ''GET /v1/me/earnings'' (None) [] ''auth.handleMyEarnings'',
    ep ''POST /v1/me/pair'' (None) [] ''auth.handlePairCreate''
  ]"

definition admin_routes :: "endpoint list" where
  "admin_routes = [
    ep ''POST /admin/keys'' (None) [Admin] ''adminCreateKey'',
    ep ''GET /admin/keys'' (None) [Admin] ''adminListKeys'',
    ep ''POST /admin/keys/{id}/disable'' (None) [Admin] ''adminSetKey(true)'',
    ep ''POST /admin/keys/{id}/enable'' (None) [Admin] ''adminSetKey(false)'',
    ep ''GET /admin/providers'' (None) [Admin] ''adminProviders'',
    ep ''POST /admin/providers/{id}/disconnect'' (None) [Admin] ''adminDisconnectProvider'',
    ep ''POST /admin/drain'' (None) [Admin] ''adminDrain'',
    ep ''GET /admin/overview'' (None) [Admin] ''adminOverview'',
    ep ''GET /admin/users'' (None) [Admin] ''adminUsers'',
    ep ''GET /admin/events'' (None) [Admin] ''adminEvents'',
    ep ''GET /admin/intake'' (None) [Admin] ''adminGetIntake'',
    ep ''POST /admin/intake'' (None) [Admin] ''adminSetIntake'',
    ep ''POST /admin/credit'' (None) [Admin] ''adminCredit'',
    ep ''GET /admin/config'' (None) [Admin] ''adminConfig'',
    ep ''GET /admin/nodes'' (None) [Admin] ''adminNodes'',
    ep ''GET /admin/usage'' (None) [Admin] ''adminUsage'',
    ep ''GET /admin/earnings'' (None) [Admin] ''adminEarnings'',
    ep ''GET /admin/waitlist'' (None) [Admin] ''adminWaitlist'',
    ep ''GET /admin/feedback'' (None) [Admin] ''adminFeedback'',
    ep ''POST /admin/feedback/{id}/reply'' (None) [Admin] ''adminFeedbackReply'',
    ep ''GET /admin/proposals'' (None) [Admin] ''adminProposals'',
    ep ''POST /admin/payouts/connect'' (None) [Admin] ''adminPayoutConnect'',
    ep ''POST /admin/payouts/connect/refresh'' (None) [Admin] ''adminPayoutRefresh'',
    ep ''GET /admin/payouts/pending'' (None) [Admin] ''adminPayoutsPending'',
    ep ''POST /admin/payouts/run'' (None) [Admin] ''adminPayoutsRun''
  ]"

definition connect_routes :: "endpoint list" where
  "connect_routes = [
    ep ''GET /connect/'' (None) [] ''connect.home'',
    ep ''GET /connect'' (None) [] ''connect.home'',
    ep ''POST /connect/accounts'' (None) [] ''connect.createAccount'',
    ep ''POST /connect/onboard'' (None) [] ''connect.onboard'',
    ep ''GET /connect/onboard/refresh'' (None) [] ''connect.onboardRefresh'',
    ep ''GET /connect/onboard/return'' (None) [] ''connect.onboardReturn'',
    ep ''GET /connect/status'' (None) [] ''connect.status'',
    ep ''GET /connect/products'' (None) [] ''connect.productsPage'',
    ep ''POST /connect/products'' (None) [] ''connect.createProduct'',
    ep ''GET /connect/store'' (None) [] ''connect.storefront'',
    ep ''POST /connect/buy'' (None) [] ''connect.buy'',
    ep ''GET /connect/success'' (None) [] ''connect.success'',
    ep ''POST /connect/webhook'' (None) [] ''connect.webhook''
  ]"

definition metrics_route :: "Config \<Rightarrow> endpoint" where
  "metrics_route cfg = ep ''GET /metrics'' None (if cf_AdminToken cfg \<noteq> [] then [Admin] else []) ''promhttp''"

definition connect_mounted :: "Config \<Rightarrow> bool" where
  "connect_mounted cfg = (cf_ConnectDemoEnabled cfg \<and>
     (case New_connect (cf_StripeSecretKey cfg) (cf_StripeConnectWebhookSecret cfg) (cf_PublicBaseURL cfg) of Inl _ \<Rightarrow> False | Inr _ \<Rightarrow> True))"

definition server_routes :: "Config \<Rightarrow> bool \<Rightarrow> endpoint list" where
  "server_routes cfg accounts = api_routes @ [metrics_route cfg] @ (if connect_mounted cfg then connect_routes else []) @
     council_routes @ (if accounts then auth_routes else []) @ (if cf_AdminToken cfg = [] then [] else admin_routes)"

subsection \<open>The chain\<close>

definition sq :: "string \<Rightarrow> string" where "sq s = CHR 0x27 # s @ [CHR 0x27]"

definition secureHeaders :: "(string \<times> string) list" where
  "secureHeaders = [(''Strict-Transport-Security'', ''max-age=31536000; includeSubDomains; preload''),
     (''X-Content-Type-Options'', ''nosniff''), (''X-Frame-Options'', ''DENY''), (''Referrer-Policy'', ''no-referrer''),
     (''Permissions-Policy'', ''camera=(), microphone=(), geolocation=(), payment=()''),
     (''Content-Security-Policy'', ''default-src '' @ sq ''none'' @ ''; frame-ancestors '' @ sq ''none'' @ ''; base-uri '' @ sq ''none'' @
        ''; form-action '' @ sq ''none''),
     (''Cross-Origin-Resource-Policy'', ''cross-origin''), (''Cache-Control'', ''no-store'')]"

text \<open>What the guards read: hash, clock, configuration, session lookup, maintenance switch and store.\<close>

record guard_env =
  ge_sha256 :: "string \<Rightarrow> string"
  ge_now :: int
  ge_cfg :: Config
  ge_session :: "(http_req \<Rightarrow> string \<times> bool) option"
  ge_intake :: intakeState
  ge_store :: PG

text \<open>The guards in order, outermost first; the consumer key once one has found it.\<close>

fun run_guards :: "guard_env \<Rightarrow> http_req \<Rightarrow> guard list \<Rightarrow> string \<Rightarrow> Limiter \<Rightarrow> Limiter \<times> (int \<times> string + string)" where
  "run_guards v r [] key l = (l, Inr key)"
| "run_guards v r (Gate # gs) key l = (case gate (ge_intake v) of
     Some (code, kind, msg) \<Rightarrow> (l, Inl (code, kind)) | None \<Rightarrow> run_guards v r gs key l)"
| "run_guards v r (Auth_key # gs) key l = (case withAuth (ge_sha256 v) (ge_now v) (ge_session v) (ge_store v) r l of
     (l', Inl e) \<Rightarrow> (l', Inl e) | (l', Inr k) \<Rightarrow> run_guards v r gs k l')"
| "run_guards v r (Admin # gs) key l = (case withAdmin (ge_cfg v) r of Some e \<Rightarrow> (l, Inl e) | None \<Rightarrow> run_guards v r gs key l)"

datatype served = Ended int string | Run string "string list" string

record answer =
  an_Headers :: "(string \<times> string) list"
  an_CORS :: cors_headers
  an_Served :: served

text \<open>\<open>Handler\<close>: security headers, CORS with its preflight, the body limit, the table, the guards of the route.\<close>

definition Handler_chain :: "guard_env \<Rightarrow> endpoint list \<Rightarrow> http_req \<Rightarrow> string \<Rightarrow> Limiter \<Rightarrow> Limiter \<times> served" where
  "Handler_chain v tbl r path l =
    (if Preflight (withCORS (cf_AppURL (ge_cfg v)) r) then (l, Ended 204 [])
     else case limitBody maxRequestBytes r of Some (code, kind) \<Rightarrow> (l, Ended code kind)
     | None \<Rightarrow> (case route_request tbl (hr_Method r) path of
         NoRoute \<Rightarrow> (l, Ended 404 []) | MethodNotAllowed \<Rightarrow> (l, Ended 405 [])
       | Found e vals \<Rightarrow> (case run_guards v r (ep_guards e) [] l of
           (l', Inl (code, kind)) \<Rightarrow> (l', Ended code kind) | (l', Inr key) \<Rightarrow> (l', Run (ep_handler e) vals key))))"

definition Handler :: "guard_env \<Rightarrow> bool \<Rightarrow> http_req \<Rightarrow> string \<Rightarrow> Limiter \<Rightarrow> Limiter \<times> answer" where
  "Handler v accounts r path l = (case Handler_chain v (server_routes (ge_cfg v) accounts) r path l of
     (l', x) \<Rightarrow> (l', \<lparr>an_Headers = secureHeaders, an_CORS = withCORS (cf_AppURL (ge_cfg v)) r, an_Served = x\<rparr>))"

end
