(* ===== verification/Router_Props.thy ===== *)
theory Router_Props
  imports Router
begin

text \<open>
  What stands in front of every handler, whatever the request: the policy the route table
  implements, and that the patterns of the table never conflict.
\<close>

subsection \<open>Guards\<close>

definition key_valid :: "guard_env \<Rightarrow> http_req \<Rightarrow> string \<Rightarrow> bool" where
  "key_valid v r key \<longleftrightarrow> key \<noteq> [] \<and> (if bearer r \<noteq> [] then pg_ValidateConsumerKey (ge_sha256 v) (bearer r) (ge_store v) = (key, True)
     else case ge_session v of None \<Rightarrow> False | Some f \<Rightarrow> f r = (key, True))"

lemma withAuth_valid: "withAuth (ge_sha256 v) (ge_now v) (ge_session v) (ge_store v) r l = (l', Inr key) \<Longrightarrow> key_valid v r key"
  by (auto simp: withAuth_def key_valid_def Let_def split: if_split_asm prod.split_asm option.split_asm)

lemma run_guards_pass:
  "run_guards v r gs k l = (l', Inr key) \<Longrightarrow>
    (Gate \<in> set gs \<longrightarrow> \<not> in_paused (ge_intake v)) \<and> (Admin \<in> set gs \<longrightarrow> withAdmin (ge_cfg v) r = None) \<and>
    (Auth_key \<in> set gs \<longrightarrow> key_valid v r key) \<and> (key = k \<or> key_valid v r key)"
proof (induction v r gs k l rule: run_guards.induct)
  case (2 v r gs key l)
  then show ?case by (auto simp: gate_def intakePaused_def split: if_split_asm)
next
  case (3 v r gs k l)
  then show ?case by (auto dest: withAuth_valid split: prod.split_asm sum.split_asm)
next
  case (4 v r gs k l)
  then show ?case by (auto split: option.split_asm)
qed simp

definition admin_handler :: "string \<Rightarrow> bool" where "admin_handler h = has_prefix h ''admin''"

text \<open>The handlers that act for a consumer key, and among them and the demo those that start work.\<close>

definition keyed_handlers :: "string list" where
  "keyed_handlers = [''handleModels'', ''handleChatCompletions'', ''handleBatch'', ''handleCreateWorkload'', ''handleGetWorkload'',
     ''handleAcceptWorkload'', ''handleListRuns'', ''handleGetRun'', ''handleGetRunResults'', ''handleBalance'', ''handleCheckout'']"

definition work_handlers :: "string list" where
  "work_handlers = [''handleChatCompletions'', ''handleBatch'', ''handleCreateWorkload'', ''handleAcceptWorkload'', ''handleDemoSummarize'']"

definition policy :: "endpoint \<Rightarrow> bool" where
  "policy e = ((if admin_handler (ep_handler e) then Admin \<in> set (ep_guards e) else True) \<and>
     (if ep_handler e \<in> set keyed_handlers then Auth_key \<in> set (ep_guards e) else True) \<and>
     (if ep_handler e \<in> set work_handlers then Gate \<in> set (ep_guards e) else True))"

definition plain :: "endpoint \<Rightarrow> bool" where
  "plain e = (\<not> admin_handler (ep_handler e) \<and> \<not> has_prefix (ep_handler e) ''auth.'' \<and> \<not> has_prefix (ep_handler e) ''connect.'')"

lemma tables_policy:
  "list_all policy api_routes" "list_all policy council_routes" "list_all policy auth_routes" "list_all policy admin_routes"
  "list_all policy connect_routes"
  by code_simp+

lemma tables_plain: "list_all plain api_routes" "list_all plain council_routes"
    "list_all (\<lambda>e. \<not> admin_handler (ep_handler e) \<and> \<not> has_prefix (ep_handler e) ''connect.'') auth_routes"
    "list_all (\<lambda>e. \<not> admin_handler (ep_handler e) \<and> \<not> has_prefix (ep_handler e) ''auth.'') connect_routes"
    "list_all (\<lambda>e. \<not> has_prefix (ep_handler e) ''auth.'' \<and> \<not> has_prefix (ep_handler e) ''connect.'') admin_routes"
  by code_simp+

lemma metrics_facts: "policy (metrics_route cfg)" "plain (metrics_route cfg)"
    "ep_handler (metrics_route cfg) = ''promhttp''" "cf_AdminToken cfg \<noteq> [] \<Longrightarrow> Admin \<in> set (ep_guards (metrics_route cfg))"
  by (simp_all add: policy_def plain_def metrics_route_def ep_def admin_handler_def has_prefix_def keyed_handlers_def work_handlers_def)

lemma no_promhttp: "list_all (\<lambda>e. ep_handler e \<noteq> ''promhttp'') api_routes" "list_all (\<lambda>e. ep_handler e \<noteq> ''promhttp'') council_routes"
    "list_all (\<lambda>e. ep_handler e \<noteq> ''promhttp'') auth_routes" "list_all (\<lambda>e. ep_handler e \<noteq> ''promhttp'') admin_routes"
    "list_all (\<lambda>e. ep_handler e \<noteq> ''promhttp'') connect_routes"
  by code_simp+

lemma server_routes_facts:
  assumes "e \<in> set (server_routes cfg accounts)"
  shows "policy e" "admin_handler (ep_handler e) \<Longrightarrow> cf_AdminToken cfg \<noteq> []"
    "has_prefix (ep_handler e) ''auth.'' \<Longrightarrow> accounts" "has_prefix (ep_handler e) ''connect.'' \<Longrightarrow> connect_mounted cfg"
    "ep_handler e = ''promhttp'' \<Longrightarrow> cf_AdminToken cfg \<noteq> [] \<Longrightarrow> Admin \<in> set (ep_guards e)"
proof -
  consider "e \<in> set api_routes" | "e = metrics_route cfg" | "connect_mounted cfg" "e \<in> set connect_routes" | "e \<in> set council_routes"
    | "accounts" "e \<in> set auth_routes" | "cf_AdminToken cfg \<noteq> []" "e \<in> set admin_routes"
    using assms by (auto simp: server_routes_def split: if_split_asm)
  then have "policy e \<and> (admin_handler (ep_handler e) \<longrightarrow> cf_AdminToken cfg \<noteq> []) \<and> (has_prefix (ep_handler e) ''auth.'' \<longrightarrow> accounts) \<and>
    (has_prefix (ep_handler e) ''connect.'' \<longrightarrow> connect_mounted cfg) \<and>
    (ep_handler e = ''promhttp'' \<longrightarrow> cf_AdminToken cfg \<noteq> [] \<longrightarrow> Admin \<in> set (ep_guards e))"
  proof cases
    case 2
    then show ?thesis using metrics_facts [of cfg] by (simp add: plain_def)
  qed (use tables_policy tables_plain no_promhttp in \<open>auto simp: list_all_iff plain_def\<close>)
  then show "policy e" "admin_handler (ep_handler e) \<Longrightarrow> cf_AdminToken cfg \<noteq> []"
    "has_prefix (ep_handler e) ''auth.'' \<Longrightarrow> accounts" "has_prefix (ep_handler e) ''connect.'' \<Longrightarrow> connect_mounted cfg"
    "ep_handler e = ''promhttp'' \<Longrightarrow> cf_AdminToken cfg \<noteq> [] \<Longrightarrow> Admin \<in> set (ep_guards e)" by blast+
qed

lemma foldl_narrower: "foldl narrower e es \<in> insert e (set es)"
  by (induction es arbitrary: e) (auto simp: narrower_def)

lemma route_request_Found:
  assumes "route_request tbl m path = Found e vals"
  shows "e \<in> set tbl \<and> method_ok m e \<and> match_segs (pattern_segs (ep_pattern e)) (path_segments path)"
proof -
  obtain f fs where f: "filter (method_ok m) (filter (\<lambda>e. match_segs (pattern_segs (ep_pattern e)) (path_segments path)) tbl) = f # fs"
    "e = foldl narrower f fs"
    using assms by (auto simp: route_request_def Let_def split: list.split_asm if_split_asm)
  then have "e \<in> set (filter (method_ok m) (filter (\<lambda>e. match_segs (pattern_segs (ep_pattern e)) (path_segments path)) tbl))"
    using foldl_narrower [of f fs] by (simp only: list.set)
  then show ?thesis by simp
qed

text \<open>The request carries the operator's token: as its bearer token, or in the header of its own when there is
  no bearer token.\<close>

definition carries_token :: "string \<Rightarrow> http_req \<Rightarrow> bool" where
  "carries_token t r \<longleftrightarrow> t \<noteq> [] \<and> (bearer r = t \<or> bearer r = [] \<and> hr_Header r ''X-Admin-Token'' = t)"

lemma withAdmin_token: "withAdmin cfg r = None \<Longrightarrow> cf_AdminToken cfg \<noteq> [] \<Longrightarrow> carries_token (cf_AdminToken cfg) r"
  by (auto simp: withAdmin_def carries_token_def Let_def split: if_split_asm)

text \<open>C40: who gets in front of which handler. Whatever the request, when a handler runs: it is not a
  preflight; an admin handler runs only where an admin token is configured and the request carries
  that very token, as its bearer token or, without one, in X-Admin-Token, and so do the metrics where one is
  configured; a handler that acts for a consumer runs with a
  key the store accepts or the session owns; one that starts work runs only while intake is open; the
  account routes exist only with accounts, and the Stripe sample only where it was switched on.\<close>

theorem route_policy:
  "case Handler_chain v (server_routes (ge_cfg v) accounts) r path l of
     (l', Ended code kind) \<Rightarrow> True
   | (l', Run h vals key) \<Rightarrow> hr_Method r \<noteq> ''OPTIONS'' \<and>
       (if admin_handler h then carries_token (cf_AdminToken (ge_cfg v)) r else True) \<and>
       (if h = ''promhttp'' \<and> cf_AdminToken (ge_cfg v) \<noteq> [] then carries_token (cf_AdminToken (ge_cfg v)) r else True) \<and>
       (if h \<in> set keyed_handlers then key_valid v r key else True) \<and>
       (if h \<in> set work_handlers then \<not> in_paused (ge_intake v) else True) \<and>
       (if has_prefix h ''auth.'' then accounts else True) \<and>
       (if has_prefix h ''connect.'' then cf_ConnectDemoEnabled (ge_cfg v) \<and> cf_StripeSecretKey (ge_cfg v) \<noteq> [] else True)"
proof (cases "Handler_chain v (server_routes (ge_cfg v) accounts) r path l")
  case (Pair l' x)
  show ?thesis
  proof (cases x)
    case (Run h vals key)
    then obtain e where e: "route_request (server_routes (ge_cfg v) accounts) (hr_Method r) path = Found e vals" "ep_handler e = h"
      and g: "run_guards v r (ep_guards e) [] l = (l', Inr key)" and pre: "\<not> Preflight (withCORS (cf_AppURL (ge_cfg v)) r)"
      using Pair by (auto simp: Handler_chain_def split: if_split_asm option.split_asm routed.split_asm prod.split_asm sum.split_asm)
    have "e \<in> set (server_routes (ge_cfg v) accounts)" using route_request_Found [OF e(1)] by simp
    note f = server_routes_facts [OF this, unfolded e(2)] and p = run_guards_pass [OF g]
    have "hr_Method r \<noteq> ''OPTIONS''" using pre by (simp add: withCORS_def Let_def)
    moreover
    have mounted: "connect_mounted (ge_cfg v) \<Longrightarrow> cf_ConnectDemoEnabled (ge_cfg v) \<and> cf_StripeSecretKey (ge_cfg v) \<noteq> []"
      by (auto simp: connect_mounted_def New_connect_def split: if_split_asm)
    moreover have "admin_handler h \<Longrightarrow> Admin \<in> set (ep_guards e)" using f(1) e(2) by (simp add: policy_def)
    then have "admin_handler h \<Longrightarrow> carries_token (cf_AdminToken (ge_cfg v)) r"
      "h = ''promhttp'' \<Longrightarrow> cf_AdminToken (ge_cfg v) \<noteq> [] \<Longrightarrow> carries_token (cf_AdminToken (ge_cfg v)) r"
      using p withAdmin_token [of "ge_cfg v" r] f(2,5) by blast+
    moreover have "h \<in> set keyed_handlers \<Longrightarrow> key_valid v r key" "h \<in> set work_handlers \<Longrightarrow> \<not> in_paused (ge_intake v)"
      using f(1) e(2) p by (simp_all add: policy_def)
    moreover have "has_prefix h ''auth.'' \<Longrightarrow> accounts"
      "has_prefix h ''connect.'' \<Longrightarrow> cf_ConnectDemoEnabled (ge_cfg v) \<and> cf_StripeSecretKey (ge_cfg v) \<noteq> []"
      using f(3,4) mounted by blast+
    moreover have if_True_I: "(P \<Longrightarrow> Q) \<Longrightarrow> (if P then Q else True)" for P Q by simp
    ultimately show ?thesis unfolding Pair Run prod.case served.case by (intro conjI if_True_I) blast+
  qed (simp add: Pair)
qed

subsection \<open>No conflicts\<close>

text \<open>Paths matched by both patterns, and by every path the other matches, as \<open>ServeMux\<close> compares
  patterns when they are registered.\<close>

fun overlap :: "seg list \<Rightarrow> seg list \<Rightarrow> bool" where
  "overlap [] qs = (qs = [])"
| "overlap (p # ps) [] = False"
| "overlap (p # ps) (q # qs) = (if p = Lit [] \<and> ps = [] \<or> q = Lit [] \<and> qs = [] then True
     else (case (p, q) of (Lit a, Lit b) \<Rightarrow> a = b | _ \<Rightarrow> True) \<and> overlap ps qs)"

fun covers :: "seg list \<Rightarrow> seg list \<Rightarrow> bool" where
  "covers [] qs = (qs = [])"
| "covers (p # ps) [] = False"
| "covers (p # ps) (q # qs) = (if p = Lit [] \<and> ps = [] then True
     else if q = Lit [] \<and> qs = [] then False
     else (case (p, q) of (Lit a, Lit b) \<Rightarrow> a = b | (Lit a, Wild) \<Rightarrow> False | (Wild, _) \<Rightarrow> True) \<and> covers ps qs)"

definition conflict :: "string \<Rightarrow> string \<Rightarrow> bool" where
  "conflict x y = (let m = pattern_method x; n = pattern_method y; p = pattern_segs x; q = pattern_segs y in
     (m = n \<or> m = None \<or> n = None) \<and> overlap p q \<and> (covers p q \<longleftrightarrow> covers q p))"

fun conflict_free :: "string list \<Rightarrow> bool" where
  "conflict_free [] = True"
| "conflict_free (x # xs) = (list_all (\<lambda>y. \<not> conflict x y) xs \<and> conflict_free xs)"

lemma all_conflict_free:
  "conflict_free (map ep_pattern (api_routes @ [ep ''GET /metrics'' None [] ''promhttp''] @ connect_routes @ council_routes @ auth_routes @ admin_routes))"
  by code_simp

end
