(* ===== verification/Encode.thy ===== *)
theory Encode
  imports Wshub
begin

text \<open>
  Encoding the frames (protocol.go through encoding/json): a struct is the table of its JSON tags,
  in the order of its fields, each with what it writes for a value, nothing when the tag says
  omitempty and the value is empty. The tables give the JSON value; its text is not modelled, but what
  the text does to a value, the replacement of bytes that are not UTF-8, is (\<open>delivered\<close>). A float is written as the decimal \<open>dec\<close> picks for it, and not at
  all when it is an infinity or NaN, which is an error of \<open>json.Marshal\<close>. The lemmas show that what one side of the
  connection writes the other side reads back.
\<close>

type_synonym 's tags = "(string \<times> ('s \<Rightarrow> json option)) list"

definition enc_obj :: "'s tags \<Rightarrow> 's \<Rightarrow> obj" where
  "enc_obj ts s = List.map_filter (\<lambda>(k, f). map_option (Pair k) (f s)) ts"

definition tag :: "string \<Rightarrow> ('a \<Rightarrow> json) \<Rightarrow> ('s \<Rightarrow> 'a) \<Rightarrow> string \<times> ('s \<Rightarrow> json option)" where
  "tag k enc get = (k, \<lambda>s. Some (enc (get s)))"

definition tag_opt :: "string \<Rightarrow> ('a \<Rightarrow> json) \<Rightarrow> 'a \<Rightarrow> ('s \<Rightarrow> 'a) \<Rightarrow> string \<times> ('s \<Rightarrow> json option)" where
  "tag_opt k enc z get = (k, \<lambda>s. if get s = z then None else Some (enc (get s)))"

definition tag_ptr :: "string \<Rightarrow> ('a \<Rightarrow> json) \<Rightarrow> ('s \<Rightarrow> 'a option) \<Rightarrow> string \<times> ('s \<Rightarrow> json option)" where
  "tag_ptr k enc get = (k, \<lambda>s. map_option enc (get s))"

definition jint :: "int \<Rightarrow> json" where "jint n = JNum (of_int n)"
definition ju64 :: "64 word \<Rightarrow> json" where "ju64 w = JNum (of_nat (unat w))"
definition jfloat :: "(f64 \<Rightarrow> rat) \<Rightarrow> f64 \<Rightarrow> json" where "jfloat dec x = JNum (dec x)"
definition jstrs :: "string list \<Rightarrow> json" where "jstrs xs = JArr (map JStr xs)"

text \<open>The constant tag \<open>type\<close> every frame is built with.\<close>

definition tag_type :: "string \<Rightarrow> string \<times> ('s \<Rightarrow> json option)" where
  "tag_type t = (''type'', \<lambda>_. Some (JStr t))"

definition security_tags :: "SecurityCapabilities tags" where
  "security_tags = [tag ''hardware_key'' JBool HardwareKey, tag ''secure_boot'' JBool SecureBoot,
     tag ''measured_boot'' JBool MeasuredBoot, tag ''runtime_attested'' JBool RuntimeAttested,
     tag ''confidential_memory'' JBool ConfidentialMemory, tag ''confidential_gpu'' JBool ConfidentialGPU]"

definition caps_tags :: "Capabilities tags" where
  "caps_tags = [tag ''platform'' JStr Platform, tag ''arch'' JStr Arch, tag_opt ''cpu'' JStr [] CPU, tag_opt ''gpu'' JStr [] GPU,
     tag ''ram_mb'' jint RAMMB, tag_opt ''vram_mb'' jint 0 VRAMMB, tag ''backend'' JStr Backend,
     tag ''hardware_class'' JStr HardwareClass, tag ''max_context'' jint MaxContext, tag ''models'' jstrs Models,
     tag ''security_capabilities'' (\<lambda>s. JObj (enc_obj security_tags s)) Security]"

definition attestation_tags :: "json option Attestation tags" where
  "attestation_tags = [tag ''kind'' JStr Kind, tag_ptr ''evidence'' (\<lambda>j. j) Evidence]"

definition register_tags :: "json option Register tags" where
  "register_tags = [tag_type TypeRegister, tag ''agent'' JStr Agent, tag ''registration_token'' JStr RegistrationToken,
     tag ''static_pk'' JStr StaticPK, tag ''capabilities'' (\<lambda>c. JObj (enc_obj caps_tags c)) reg_Capabilities,
     tag_ptr ''attestation'' (\<lambda>a. JObj (enc_obj attestation_tags a)) reg_Attestation,
     tag_opt ''resume_provider_id'' JStr [] ResumeProviderID]"

definition job_error_tags :: "JobError tags" where
  "job_error_tags = [tag_type TypeJobError, tag ''job_id'' JStr je_JobID, tag ''code'' JStr je_Code,
     tag_opt ''message'' JStr [] je_Message]"

definition register_ack_tags :: "RegisterAck tags" where
  "register_ack_tags = [tag_type TypeRegisterAck, tag ''ok'' JBool ra_OK, tag_opt ''error'' JStr [] ra_Error,
     tag_opt ''provider_id'' JStr [] ra_ProviderID, tag_opt ''trust_tier'' JStr [] ra_TrustTier,
     tag_opt ''accepted_models'' jstrs [] ra_AcceptedModels, tag_opt ''heartbeat_seconds'' jint 0 ra_HeartbeatSeconds,
     tag_opt ''coordinator_pk'' JStr [] ra_CoordinatorPK]"

definition heartbeat_ack_tags :: "HeartbeatAck tags" where
  "heartbeat_ack_tags = [tag_type TypeHeartbeatAck, tag ''server_ts'' jint ServerTS, tag_opt ''directive'' JStr [] Directive]"

definition sealed_tags :: "SealedPayload tags" where
  "sealed_tags = [tag ''alg'' JStr Alg, tag ''epk'' JStr EPK, tag ''nonce'' JStr Nonce, tag ''ciphertext'' JStr Ciphertext]"

definition job_request_tags :: "json JobRequest tags" where
  "job_request_tags = [tag_type TypeJobRequest, tag ''job_id'' JStr jr_JobID, tag ''model'' JStr jr_Model,
     tag_opt ''deadline_ms'' jint 0 jr_DeadlineMS, tag ''sealed'' (\<lambda>s. JObj (enc_obj sealed_tags s)) jr_Sealed,
     tag_ptr ''manifest'' (\<lambda>j. j) jr_Manifest]"

definition cancel_tags :: "Cancel tags" where
  "cancel_tags = [tag_type TypeCancel, tag ''job_id'' JStr cn_JobID, tag ''reason'' JStr cn_Reason]"

text \<open>Frames with floats: any float that is not finite makes the whole struct an error.\<close>

fun finite_f64 :: "f64 \<Rightarrow> bool" where
  "finite_f64 (Fin _) = True"
| "finite_f64 _ = False"

definition telemetry_tags :: "(f64 \<Rightarrow> rat) \<Rightarrow> Telemetry tags" where
  "telemetry_tags dec = [tag ''active_jobs'' jint ActiveJobs, tag ''queue_depth'' jint QueueDepth,
     tag ''cpu_load'' (jfloat dec) CPULoad, tag ''mem_available_mb'' jint MemAvailableMB,
     tag ''thermal_state'' JStr ThermalState, tag_ptr ''battery_pct'' jint BatteryPct,
     tag_ptr ''charging'' JBool Charging, tag_opt ''network'' JStr [] Network]"

definition heartbeat_tags :: "(f64 \<Rightarrow> rat) \<Rightarrow> Heartbeat tags" where
  "heartbeat_tags dec = [tag_type TypeHeartbeat, tag ''telemetry'' (\<lambda>t. JObj (enc_obj (telemetry_tags dec) t)) hb_Telemetry]"

definition enc_heartbeat :: "(f64 \<Rightarrow> rat) \<Rightarrow> Heartbeat \<Rightarrow> json option" where
  "enc_heartbeat dec h = (if finite_f64 (CPULoad (hb_Telemetry h)) then Some (JObj (enc_obj (heartbeat_tags dec) h)) else None)"

definition bench_tags :: "(f64 \<Rightarrow> rat) \<Rightarrow> BenchmarkReport tags" where
  "bench_tags dec = [tag_type TypeBenchmarkReport, tag ''model'' JStr br_Model, tag ''backend'' JStr br_Backend,
     tag ''prefill_tps'' (jfloat dec) br_PrefillTPS, tag ''decode_tps'' (jfloat dec) br_DecodeTPS,
     tag_opt ''context_tested'' jint 0 br_ContextTested, tag_opt ''sample_ms'' jint 0 br_SampleMS,
     tag_opt ''sustained_seconds'' jint 0 br_SustainedSeconds,
     tag_opt ''sustained_start_tps'' (jfloat dec) 0 br_SustainedStartTPS,
     tag_opt ''sustained_end_tps'' (jfloat dec) 0 br_SustainedEndTPS,
     tag_opt ''mem_bandwidth_gbps'' (jfloat dec) 0 br_MemBandwidthGBps,
     tag_opt ''available_ram_mb'' ju64 0 br_AvailableRAMMB, tag_opt ''available_storage_mb'' ju64 0 br_AvailableStorageMB,
     tag_opt ''cpu_cores'' jint 0 br_CPUCores, tag_opt ''thermal_state'' JStr [] br_ThermalState]"

definition enc_bench :: "(f64 \<Rightarrow> rat) \<Rightarrow> BenchmarkReport \<Rightarrow> json option" where
  "enc_bench dec b = (if list_all finite_f64 [br_PrefillTPS b, br_DecodeTPS b, br_SustainedStartTPS b,
       br_SustainedEndTPS b, br_MemBandwidthGBps b] then Some (JObj (enc_obj (bench_tags dec) b)) else None)"

subsection \<open>Reading a marshalled frame back\<close>

lemmas tag_defs = tag_def tag_opt_def tag_ptr_def tag_type_def

text \<open>No key of the object is taken for the field of another tag.\<close>

definition unmixed :: "'s fields \<Rightarrow> string list \<Rightarrow> bool" where
  "unmixed fs ks = list_all (\<lambda>k. list_all (\<lambda>n. equal_fold k n \<longrightarrow> k = n) (map fst fs)) ks"

lemma unmixed_lower: "list_all (\<lambda>k. to_lower k = k) ks \<Longrightarrow> list_all (\<lambda>k. to_lower k = k) (map fst fs) \<Longrightarrow> unmixed fs ks"
  by (auto simp: unmixed_def list_all_iff equal_fold_def)

lemma find_field_map_of: "list_all (\<lambda>n. equal_fold k n \<longrightarrow> k = n) (map fst fs) \<Longrightarrow> find_field fs k = map_of fs k"
  by (induction fs) (auto simp: find_field_def)

text \<open>Field \<open>g\<close> is the one tag \<open>k\<close> writes, through \<open>dec\<close>.\<close>

definition reads :: "'s fields \<Rightarrow> string \<Rightarrow> ('s \<Rightarrow> 'a) \<Rightarrow> (json \<Rightarrow> 'a \<Rightarrow> 'a option) \<Rightarrow> bool" where
  "reads fs k g dec \<longleftrightarrow> k \<in> fst ` set fs \<and> (\<forall>(n, d) \<in> set fs. \<forall>v s s'. d v s = Some s' \<longrightarrow>
     (if n = k then dec v (g s) = Some (g s') else g s' = g s))"

lemma dec_obj_get:
  assumes "reads fs k g dec" "unmixed fs (map fst kvs)" "distinct (map fst kvs)" "dec_obj fs kvs s = Some s'"
  shows "(case map_of kvs k of None \<Rightarrow> Some (g s) | Some v \<Rightarrow> dec v (g s)) = Some (g s')"
  using assms(2-4)
proof (induction kvs arbitrary: s)
  case (Cons kv kvs)
  obtain n v where kv: "kv = (n, v)" by fastforce
  have f: "find_field fs n = map_of fs n" using Cons.prems(1) by (intro find_field_map_of) (simp add: kv unmixed_def)
  have u: "unmixed fs (map fst kvs)" "distinct (map fst kvs)" using Cons.prems by (simp_all add: unmixed_def)
  show ?case
  proof (cases "map_of fs n")
    case None
    then have "n \<noteq> k" using assms(1) by (auto simp: reads_def map_of_eq_None_iff)
    then show ?thesis using Cons.IH [OF u] Cons.prems(3) None by (auto simp: kv f)
  next
    case (Some d)
    then obtain s1 where s1: "d v s = Some s1" "dec_obj fs kvs s1 = Some s'"
      using Cons.prems(3) by (auto simp: kv f bind_eq_Some_conv)
    have r: "if n = k then dec v (g s) = Some (g s1) else g s1 = g s"
      using assms(1) map_of_SomeD [OF Some] s1(1) unfolding reads_def by fast
    show ?thesis
    proof (cases "n = k")
      case True
      moreover have "map_of kvs k = None" using Cons.prems(2) True by (simp add: kv map_of_eq_None_iff)
      ultimately show ?thesis using r Cons.IH [OF u s1(2)] by (simp add: kv)
    next
      case False
      then have "g s1 = g s" using r by simp
      then show ?thesis using False Cons.IH [OF u s1(2), unfolded \<open>g s1 = g s\<close>] by (simp add: kv)
    qed
  qed
qed simp

lemma dec_obj_total:
  assumes "unmixed fs (map fst kvs)"
    and "\<And>k v d s. map_of fs k = Some d \<Longrightarrow> (k, v) \<in> set kvs \<Longrightarrow> d v s \<noteq> None"
  shows "\<exists>s'. dec_obj fs kvs s = Some s'"
  using assms
proof (induction kvs arbitrary: s)
  case (Cons kv kvs)
  have f: "find_field fs (fst kv) = map_of fs (fst kv)" using Cons.prems(1) by (intro find_field_map_of) (simp add: unmixed_def)
  have IH: "\<exists>s'. dec_obj fs kvs s1 = Some s'" for s1
    using Cons.prems by (intro Cons.IH) (auto simp: unmixed_def)
  show ?case
    using IH Cons.prems(2) [of "fst kv" _ "snd kv" s] by (auto simp: f split: option.split)
qed simp

text \<open>What the members of an encoded struct are.\<close>

lemma enc_obj_simps:
  "enc_obj [] s = []"
  "enc_obj ((n, f) # ts) s = (case f s of None \<Rightarrow> enc_obj ts s | Some v \<Rightarrow> (n, v) # enc_obj ts s)"
  by (simp_all add: enc_obj_def List.map_filter_simps split: option.splits)

lemma enc_obj_keys: "fst ` set (enc_obj ts s) \<subseteq> fst ` set ts"
proof (induction ts)
  case (Cons t ts)
  then show ?case by (cases t; cases "snd t s") (simp_all add: enc_obj_simps subset_insertI2)
qed (simp add: enc_obj_simps)

lemma enc_obj_distinct: "distinct (map fst ts) \<Longrightarrow> distinct (map fst (enc_obj ts s))"
proof (induction ts)
  case (Cons t ts)
  obtain n f where t: "t = (n, f)" by fastforce
  have "n \<notin> fst ` set (enc_obj ts s)" using Cons.prems enc_obj_keys [of ts s] by (auto simp only: t list.map distinct.simps set_map fst_conv)
  then show ?case using Cons by (simp add: t enc_obj_simps split: option.splits)
qed (simp add: enc_obj_simps)

lemma map_of_enc_obj: "distinct (map fst ts) \<Longrightarrow> map_of (enc_obj ts s) k = Option.bind (map_of ts k) (\<lambda>f. f s)"
proof (induction ts)
  case (Cons t ts)
  obtain n f where t: "t = (n, f)" by fastforce
  have "n \<notin> fst ` set (enc_obj ts s)" using Cons.prems enc_obj_keys [of ts s] by (auto simp only: t list.map distinct.simps set_map fst_conv)
  then have "map_of (enc_obj ts s) n = None" by (simp only: map_of_eq_None_iff not_False_eq_True)
  moreover have "map_of ts n = None" using Cons.prems by (simp add: t map_of_eq_None_iff)
  ultimately show ?case
    using Cons by (cases "f s") (simp_all add: t enc_obj_simps)
qed (simp add: enc_obj_simps)

text \<open>What \<open>Marshal\<close> makes of it.\<close>

definition framed :: "obj \<Rightarrow> string \<Rightarrow> string \<Rightarrow> int \<Rightarrow> (string \<rightharpoonup> json)" where
  "framed b re uuid now = (let m = (map_of b)(''v'' \<mapsto> JStr Version, ''id'' \<mapsto> JStr uuid, ''ts'' \<mapsto> JNum (of_int now)) in
     if re \<noteq> [] then m(''re'' \<mapsto> JStr re) else m)"

lemma map_of_graph: "set ks = dom m \<Longrightarrow> map_of (map (\<lambda>k. (k, the (m k))) ks) = m"
  by (rule ext) (auto simp: map_of_map_restrict restrict_map_def dom_def)

lemma Marshal_members:
  assumes "distinct (map fst b)" "''type'' \<in> fst ` set b"
  shows "\<exists>kvs. Marshal (Some (JObj b)) re uuid now = Inr (JObj kvs) \<and> distinct (map fst kvs) \<and> map_of kvs = framed b re uuid now"
proof -
  let ?ks = "remdups (''v'' # ''id'' # ''ts'' # (if re \<noteq> [] then [''re''] else []) @ map fst b)"
  have d: "set (sort_by str_less ?ks) = dom (framed b re uuid now)"
    unfolding set_sort_by set_remdups framed_def Let_def
    by (cases "re = []") (simp_all add: dom_map_of_conv_image_fst insert_commute)
  have t: "framed b re uuid now ''type'' \<noteq> None"
    using assms(2) unfolding framed_def Let_def
    by (cases "re = []") (simp_all add: map_of_eq_None_iff)
  have "Marshal (Some (JObj b)) re uuid now = Inr (encode_map (framed b re uuid now) ?ks)"
    using t unfolding Marshal_def option.case json.case Let_def map_of_rev_distinct [OF assms(1)] framed_def
    by (simp del: remdups.simps map_of_eq_None_iff)
  moreover have "distinct (map fst (map (\<lambda>k. (k, the (framed b re uuid now k))) (sort_by str_less ?ks)))"
    by (simp only: list.map_comp comp_def fst_conv list.map_ident distinct_sort_by distinct_remdups)
  ultimately show ?thesis
    unfolding encode_map_def using map_of_graph [OF d] by blast
qed

text \<open>An object that carries, for every field of a reader's table, what the writer's tags make of \<open>s\<close>.\<close>

definition carries :: "'s fields \<Rightarrow> 't tags \<Rightarrow> 't \<Rightarrow> obj \<Rightarrow> bool" where
  "carries fs ts s kvs \<longleftrightarrow> unmixed fs (map fst kvs) \<and> distinct (map fst kvs) \<and>
     (\<forall>k. map_of fs k \<noteq> None \<longrightarrow> map_of kvs k = Option.bind (map_of ts k) (\<lambda>f. f s))"

lemma unmixed_subset: "unmixed fs ks \<Longrightarrow> set ks' \<subseteq> set ks \<Longrightarrow> unmixed fs ks'"
  by (auto simp: unmixed_def list_all_iff)

lemma carries_plain: "distinct (map fst ts) \<Longrightarrow> unmixed fs (map fst ts) \<Longrightarrow> carries fs ts s (enc_obj ts s)"
  using enc_obj_keys [of ts s] unmixed_subset [of fs "map fst ts" "map fst (enc_obj ts s)"]
  by (simp add: carries_def enc_obj_distinct map_of_enc_obj)

lemma carries_marshal:
  assumes "distinct (map fst ts)" "map_of ts ''type'' = Some (\<lambda>_. Some (JStr t))"
    and "unmixed fs (''v'' # ''id'' # ''ts'' # ''re'' # map fst ts)"
    and "list_all (\<lambda>k. map_of fs k = None) [''v'', ''id'', ''ts'', ''re'']"
  shows "\<exists>kvs. Marshal (Some (JObj (enc_obj ts s))) re uuid now = Inr (JObj kvs) \<and> carries fs ts s kvs"
proof -
  have ty: "map_of (enc_obj ts s) ''type'' = Some (JStr t)" by (simp add: map_of_enc_obj assms(1,2))
  then have "''type'' \<in> fst ` set (enc_obj ts s)" by (metis map_of_eq_None_iff option.distinct(1))
  from Marshal_members [OF enc_obj_distinct [OF assms(1)] this, of re uuid now] obtain kvs where kvs:
    "Marshal (Some (JObj (enc_obj ts s))) re uuid now = Inr (JObj kvs)" "distinct (map fst kvs)"
    "map_of kvs = framed (enc_obj ts s) re uuid now" by blast
  have "fst ` set kvs = dom (framed (enc_obj ts s) re uuid now)" using kvs(3) by (metis dom_map_of_conv_image_fst)
  also have "\<dots> \<subseteq> {''v'', ''id'', ''ts'', ''re''} \<union> fst ` set (enc_obj ts s)"
    by (auto simp: framed_def Let_def dom_map_of_conv_image_fst split: if_splits)
  finally have "set (map fst kvs) \<subseteq> set (''v'' # ''id'' # ''ts'' # ''re'' # map fst ts)"
    using enc_obj_keys [of ts s] by auto
  then have "unmixed fs (map fst kvs)" by (rule unmixed_subset [OF assms(3)])
  moreover have "map_of kvs k = Option.bind (map_of ts k) (\<lambda>f. f s)" if "map_of fs k \<noteq> None" for k
  proof -
    have "k \<noteq> ''v''" "k \<noteq> ''id''" "k \<noteq> ''ts''" "k \<noteq> ''re''" using that assms(4) by auto
    then have "map_of kvs k = map_of (enc_obj ts s) k" by (simp add: kvs(3) framed_def Let_def)
    then show ?thesis by (simp add: map_of_enc_obj assms(1))
  qed
  ultimately have "carries fs ts s kvs" using kvs(2) by (simp add: carries_def)
  then show ?thesis using kvs(1) by blast
qed

text \<open>A frame's two tables: tags and field names are lower case, distinct, and apart from the envelope's.\<close>

definition frame_table :: "'s fields \<Rightarrow> 't tags \<Rightarrow> string \<Rightarrow> bool" where
  "frame_table fs ts t \<longleftrightarrow> distinct (map fst ts) \<and> distinct (map fst fs) \<and> map_of ts ''type'' = Some (\<lambda>_. Some (JStr t)) \<and>
     list_all (\<lambda>k. to_lower k = k) (''v'' # ''id'' # ''ts'' # ''re'' # map fst ts) \<and>
     list_all (\<lambda>k. to_lower k = k) (map fst fs) \<and> list_all (\<lambda>k. map_of fs k = None) [''v'', ''id'', ''ts'', ''re''] \<and>
     ''re'' \<notin> fst ` set ts"

lemma frame_carries:
  "frame_table fs ts t \<Longrightarrow> \<exists>kvs. Marshal (Some (JObj (enc_obj ts s))) re uuid now = Inr (JObj kvs) \<and> carries fs ts s kvs"
  unfolding frame_table_def by (elim conjE) (rule carries_marshal [OF _ _ unmixed_lower])

text \<open>Sent and received: marshalled, parsed as a frame of type \<open>t\<close> and decoded into \<open>x\<close> again.\<close>

definition comes_back :: "json option \<Rightarrow> string \<Rightarrow> 's fields \<Rightarrow> 's \<Rightarrow> 's \<Rightarrow> string \<Rightarrow> string \<Rightarrow> int \<Rightarrow> bool" where
  "comes_back payload t fs z x re uuid now \<longleftrightarrow> (\<exists>j. Marshal payload re uuid now = Inr j \<and>
     Parse (Some j) = Inr \<lparr>Env = \<lparr>V = Version, env_Type = t, env_ID = uuid, Re = re, TS = now\<rparr>, Raw = j\<rparr> \<and>
     dec_struct fs j z = Some x)"

lemma unambiguous_lower: "list_all (\<lambda>k. to_lower k = k) ks \<Longrightarrow> unambiguous ks"
proof -
  assume l: "list_all (\<lambda>k. to_lower k = k) ks"
  have e: "list_all (\<lambda>k. to_lower k = k) env_keys" by (simp add: env_keys_def to_lower_def to_lower_char_def Let_def)
  show ?thesis
    unfolding unambiguous_def
  proof
    fix k assume "k \<in> set ks"
    with l have "to_lower k = k" by (simp add: list_all_iff)
    moreover have "to_lower f = f" if "field_of k = Some f" for f
      using that e by (auto simp: field_of_def find_Some_iff list_all_length)
    moreover have "equal_fold k f" if "field_of k = Some f" for f
      using that by (auto simp: field_of_def find_Some_iff)
    ultimately show "field_of k = None \<or> field_of k = Some k"
      by (cases "field_of k") (simp_all add: equal_fold_def)
  qed
qed

lemma frame_parse:
  assumes "frame_table fs ts t" "t \<noteq> []" "is_int64 now" "Marshal (Some (JObj (enc_obj ts s))) re uuid now = Inr j"
  shows "Parse (Some j) = Inr \<lparr>Env = \<lparr>V = Version, env_Type = t, env_ID = uuid, Re = re, TS = now\<rparr>, Raw = j\<rparr>"
proof -
  have d: "distinct (map fst ts)" and re: "''re'' \<notin> fst ` set ts" and l: "list_all (\<lambda>k. to_lower k = k) (map fst ts)"
    and ty: "map_of ts ''type'' = Some (\<lambda>_. Some (JStr t))" using assms(1) by (simp_all add: frame_table_def)
  have "list_all (\<lambda>k. to_lower k = k) (map fst (enc_obj ts s))"
    using l enc_obj_keys [of ts s] by (force simp: list_all_iff)
  then have u: "unambiguous (map fst (enc_obj ts s))" by (rule unambiguous_lower)
  have "map_of (enc_obj ts s) ''type'' = Some (JStr t)" by (simp add: map_of_enc_obj d ty)
  moreover have "''re'' \<notin> set (map fst (enc_obj ts s))" using re enc_obj_keys [of ts s] by auto
  ultimately show ?thesis
    using Marshal_Parse_roundtrip [OF u enc_obj_distinct [OF d], of t now re uuid] assms(2-4) by auto
qed

lemma comes_backI:
  assumes "frame_table fs ts t" "t \<noteq> []" "is_int64 now" "payload = Some (JObj (enc_obj ts s))"
    and "\<And>kvs. carries fs ts s kvs \<Longrightarrow> dec_obj fs kvs z = Some x"
  shows "comes_back payload t fs z x re uuid now"
proof -
  obtain kvs where m: "Marshal (Some (JObj (enc_obj ts s))) re uuid now = Inr (JObj kvs)" and c: "carries fs ts s kvs"
    using frame_carries [OF assms(1)] by blast
  show ?thesis
    using m frame_parse [OF assms(1-3) m] assms(5) [OF c] by (simp add: comes_back_def assms(4))
qed

lemma read_total:
  assumes "carries fs ts s kvs" "distinct (map fst fs)"
    and "list_all (\<lambda>(k, d). case Option.bind (map_of ts k) (\<lambda>f. f s) of None \<Rightarrow> True | Some v \<Rightarrow> \<forall>s0. d v s0 \<noteq> None) fs"
  shows "\<exists>s'. dec_obj fs kvs z = Some s'"
proof (rule dec_obj_total)
  show "unmixed fs (map fst kvs)" using assms(1) by (simp add: carries_def)
  show "d v s0 \<noteq> None" if "map_of fs k = Some d" "(k, v) \<in> set kvs" for k v d s0
  proof -
    have "map_of kvs k = Some v" using that(2) assms(1) by (simp add: carries_def)
    moreover have "map_of fs k \<noteq> None" using that(1) by simp
    ultimately have "Option.bind (map_of ts k) (\<lambda>f. f s) = Some v" using assms(1) unfolding carries_def by metis
    moreover have "(k, d) \<in> set fs" using that(1) by (rule map_of_SomeD)
    ultimately show ?thesis using assms(3) unfolding list_all_iff by fastforce
  qed
qed

lemma read_get:
  assumes "carries fs ts s kvs" "dec_obj fs kvs z = Some s'" "reads fs k g dec" "map_of ts k = Some f"
  shows "(case f s of None \<Rightarrow> Some (g z) | Some v \<Rightarrow> dec v (g z)) = Some (g s')"
proof -
  have "map_of fs k \<noteq> None" using assms(3) by (simp add: reads_def map_of_eq_None_iff)
  then have "map_of kvs k = f s" using assms(1,4) by (simp add: carries_def)
  then show ?thesis
    using dec_obj_get [OF assms(3) _ _ assms(2)] assms(1) by (simp add: carries_def)
qed

lemma read_same:
  assumes "carries fs ts s kvs" "dec_obj fs kvs z = Some s'" "reads fs k g dec" "map_of ts k = Some f"
    and "f s = None \<Longrightarrow> g z = g s" "\<And>v. f s = Some v \<Longrightarrow> dec v (g z) = Some (g s)"
  shows "g s' = g s"
  using read_get [OF assms(1-4)] assms(5,6) by (cases "f s") auto

subsection \<open>The frames come back\<close>

lemma dec_jint [simp]: "is_int64 n \<Longrightarrow> dec_int64 (jint n) old = Some n"
  by (simp add: jint_def)

lemma dec_jstrs [simp]: "dec_strings (jstrs xs) old = Some xs"
  by (induction xs) (simp_all add: jstrs_def)

lemmas tag_eval = tag_defs fld_def fld_skip_def to_lower_def to_lower_char_def Let_def

lemmas unmixed_eval = unmixed_def tag_defs fld_def fld_skip_def equal_fold_def to_lower_def to_lower_char_def Let_def

lemma security_back [simp]: "dec_obj security_fields (enc_obj security_tags x) z = Some x"
  by (simp add: enc_obj_simps security_fields_def security_tags_def tag_def fld_def find_field_def equal_fold_def to_lower_def to_lower_char_def Let_def)

lemma caps_reads:
  "reads caps_fields ''platform'' Platform dec_string" "reads caps_fields ''arch'' Arch dec_string"
  "reads caps_fields ''cpu'' CPU dec_string" "reads caps_fields ''gpu'' GPU dec_string"
  "reads caps_fields ''ram_mb'' RAMMB dec_int64" "reads caps_fields ''vram_mb'' VRAMMB dec_int64"
  "reads caps_fields ''backend'' Backend dec_string" "reads caps_fields ''hardware_class'' HardwareClass dec_string"
  "reads caps_fields ''max_context'' MaxContext dec_int64" "reads caps_fields ''models'' Models dec_strings"
  "reads caps_fields ''security_capabilities'' Security (dec_struct security_fields)"
  unfolding reads_def caps_fields_def fld_def by auto

definition int64_caps :: "Capabilities \<Rightarrow> bool" where
  "int64_caps c \<longleftrightarrow> is_int64 (RAMMB c) \<and> is_int64 (VRAMMB c) \<and> is_int64 (MaxContext c)"

lemma caps_carries: "carries caps_fields caps_tags c (enc_obj caps_tags c)"
  by (intro carries_plain unmixed_lower) (simp_all add: tag_eval caps_fields_def caps_tags_def)

lemma caps_total: "int64_caps c \<Longrightarrow> \<exists>s'. dec_obj caps_fields (enc_obj caps_tags c) z = Some s'"
  by (rule read_total [OF caps_carries]) (simp_all add: caps_fields_def caps_tags_def fld_def tag_defs int64_caps_def)

lemma caps_back:
  assumes "int64_caps c"
  shows "dec_obj caps_fields (enc_obj caps_tags c) caps_zero = Some c"
proof -
  obtain s' where s': "dec_obj caps_fields (enc_obj caps_tags c) caps_zero = Some s'" using caps_total [OF assms] by blast
  note g = caps_reads [THEN read_get [OF caps_carries s']]
  have "s' = c"
    by (rule Capabilities.equality) (use g assms in \<open>simp_all add: int64_caps_def caps_tags_def tag_defs caps_zero_def split: if_splits\<close>)
  then show ?thesis using s' by simp
qed

lemma attestation_back [simp]:
  "dec_obj attestation_fields (enc_obj attestation_tags a) \<lparr>Kind = [], Evidence = None\<rparr> = Some a"
  by (cases "Evidence a") (simp_all add: enc_obj_simps attestation_fields_def attestation_tags_def find_field_def unmixed_eval)

lemma attestation_total: "\<exists>a'. dec_obj attestation_fields (enc_obj attestation_tags a) z = Some a'"
  by (cases "Evidence a") (simp_all add: enc_obj_simps attestation_fields_def attestation_tags_def find_field_def unmixed_eval)

lemma register_reads:
  "reads register_fields ''agent'' Agent dec_string" "reads register_fields ''registration_token'' RegistrationToken dec_string"
  "reads register_fields ''static_pk'' StaticPK dec_string"
  "reads register_fields ''capabilities'' reg_Capabilities (dec_struct caps_fields)"
  "reads register_fields ''attestation'' reg_Attestation (dec_ptr (dec_struct attestation_fields) \<lparr>Kind = [], Evidence = None\<rparr>)"
  "reads register_fields ''resume_provider_id'' ResumeProviderID dec_string"
  unfolding reads_def register_fields_def fld_def fld_skip_def by auto

lemma register_table: "frame_table register_fields register_tags TypeRegister"
  by (simp add: frame_table_def tag_eval register_fields_def register_tags_def)

lemma register_back:
  assumes "int64_caps (reg_Capabilities r)" "is_int64 now"
  shows "comes_back (Some (JObj (enc_obj register_tags r))) TypeRegister register_fields register_zero r re uuid now"
proof (rule comes_backI [OF register_table])
  fix kvs assume c: "carries register_fields register_tags r kvs"
  have "\<exists>s'. dec_obj register_fields kvs register_zero = Some s'"
    by (rule read_total [OF c]) (use caps_total [OF assms(1)] attestation_total in
        \<open>simp_all add: register_fields_def register_tags_def fld_def fld_skip_def tag_defs split: option.split\<close>)
  then obtain s' where s': "dec_obj register_fields kvs register_zero = Some s'" by blast
  note g = register_reads [THEN read_get [OF c s']]
  have "s' = r"
    by (rule Register.equality)
       (use g caps_back [OF assms(1)] in \<open>simp_all add: register_tags_def tag_defs register_zero_def split: if_splits option.splits\<close>)
  then show "dec_obj register_fields kvs register_zero = Some r" using s' by simp
qed (use assms in \<open>simp_all add: type_defs\<close>)

lemma probe_back:
  assumes "frame_table probe_fields ts t" "map_of ts ''job_id'' = Some (\<lambda>s. Some (JStr (get s)))" "t \<noteq> []" "is_int64 now"
  shows "comes_back (Some (JObj (enc_obj ts s))) t probe_fields [] (get s) re uuid now"
proof (rule comes_backI [OF assms(1)])
  fix kvs assume c: "carries probe_fields ts s kvs"
  have "\<exists>s'. dec_obj probe_fields kvs [] = Some s'"
    by (rule read_total [OF c]) (simp_all add: probe_fields_def fld_def assms(2))
  then obtain s' where s': "dec_obj probe_fields kvs [] = Some s'" by blast
  have "reads probe_fields ''job_id'' (\<lambda>s. s) dec_string"
    unfolding reads_def probe_fields_def fld_def by auto
  from read_get [OF c s' this assms(2)] s' show "dec_obj probe_fields kvs [] = Some (get s)" by simp
qed (use assms in simp_all)

lemma job_error_probe: "frame_table probe_fields job_error_tags TypeJobError"
  by (simp add: frame_table_def tag_eval probe_fields_def job_error_tags_def)

lemma job_request_probe: "frame_table probe_fields job_request_tags TypeJobRequest"
  by (simp add: frame_table_def tag_eval probe_fields_def job_request_tags_def)

lemma job_error_table: "frame_table joberr_fields job_error_tags TypeJobError"
  by (simp add: frame_table_def tag_eval joberr_fields_def job_error_tags_def)

lemma job_error_back:
  assumes "is_int64 now"
  shows "comes_back (Some (JObj (enc_obj job_error_tags e))) TypeJobError joberr_fields joberr_zero e re uuid now"
proof (rule comes_backI [OF job_error_table])
  fix kvs assume c: "carries joberr_fields job_error_tags e kvs"
  have "\<exists>s'. dec_obj joberr_fields kvs joberr_zero = Some s'"
    by (rule read_total [OF c]) (simp_all add: joberr_fields_def job_error_tags_def fld_def fld_skip_def tag_defs)
  then obtain s' where s': "dec_obj joberr_fields kvs joberr_zero = Some s'" by blast
  have r: "reads joberr_fields ''job_id'' je_JobID dec_string" "reads joberr_fields ''code'' je_Code dec_string"
    "reads joberr_fields ''message'' je_Message dec_string"
    unfolding reads_def joberr_fields_def fld_def fld_skip_def by auto
  note g = r [THEN read_get [OF c s']]
  have "s' = e"
    by (rule JobError.equality) (use g in \<open>simp_all add: job_error_tags_def tag_defs joberr_zero_def split: if_splits\<close>)
  then show "dec_obj joberr_fields kvs joberr_zero = Some e" using s' by simp
qed (use assms in \<open>simp_all add: type_defs\<close>)

definition ack_zero :: RegisterAck where
  "ack_zero = \<lparr>ra_OK = False, ra_Error = [], ra_ProviderID = [], ra_TrustTier = [], ra_AcceptedModels = [],
     ra_HeartbeatSeconds = 0, ra_CoordinatorPK = []\<rparr>"

definition ack_fields :: "RegisterAck fields" where
  "ack_fields = [fld_skip ''type'' dec_string [], fld ''ok'' dec_bool ra_OK ra_OK_update,
     fld ''error'' dec_string ra_Error ra_Error_update, fld ''provider_id'' dec_string ra_ProviderID ra_ProviderID_update,
     fld ''trust_tier'' dec_string ra_TrustTier ra_TrustTier_update,
     fld ''accepted_models'' dec_strings ra_AcceptedModels ra_AcceptedModels_update,
     fld ''heartbeat_seconds'' dec_int64 ra_HeartbeatSeconds ra_HeartbeatSeconds_update,
     fld ''coordinator_pk'' dec_string ra_CoordinatorPK ra_CoordinatorPK_update]"

lemma ack_table: "frame_table ack_fields register_ack_tags TypeRegisterAck"
  by (simp add: frame_table_def tag_eval ack_fields_def register_ack_tags_def)

lemma ack_back:
  assumes "is_int64 (ra_HeartbeatSeconds a)" "is_int64 now"
  shows "comes_back (Some (JObj (enc_obj register_ack_tags a))) TypeRegisterAck ack_fields ack_zero a re uuid now"
proof (rule comes_backI [OF ack_table])
  fix kvs assume c: "carries ack_fields register_ack_tags a kvs"
  have "\<exists>s'. dec_obj ack_fields kvs ack_zero = Some s'"
    by (rule read_total [OF c]) (simp_all add: ack_fields_def register_ack_tags_def fld_def fld_skip_def tag_defs assms)
  then obtain s' where s': "dec_obj ack_fields kvs ack_zero = Some s'" by blast
  have r: "reads ack_fields ''ok'' ra_OK dec_bool" "reads ack_fields ''error'' ra_Error dec_string"
    "reads ack_fields ''provider_id'' ra_ProviderID dec_string" "reads ack_fields ''trust_tier'' ra_TrustTier dec_string"
    "reads ack_fields ''accepted_models'' ra_AcceptedModels dec_strings"
    "reads ack_fields ''heartbeat_seconds'' ra_HeartbeatSeconds dec_int64"
    "reads ack_fields ''coordinator_pk'' ra_CoordinatorPK dec_string"
    unfolding reads_def ack_fields_def fld_def fld_skip_def by auto
  note g = r [THEN read_get [OF c s']]
  have "s' = a"
    by (rule RegisterAck.equality)
       (use g assms in \<open>simp_all add: register_ack_tags_def tag_defs ack_zero_def split: if_splits\<close>)
  then show "dec_obj ack_fields kvs ack_zero = Some a" using s' by simp
qed (use assms in \<open>simp_all add: type_defs\<close>)

text \<open>The decimal that is written reads back as the same float.\<close>

definition float_ok :: "f64 \<Rightarrow> bool" where
  "float_ok x = (case x of Fin q \<Rightarrow> rnd q = Fin q | _ \<Rightarrow> False)"

definition exact_decimals :: "(f64 \<Rightarrow> rat) \<Rightarrow> bool" where
  "exact_decimals dec \<longleftrightarrow> (\<forall>x. float_ok x \<longrightarrow> rnd (dec x) = x)"

lemma dec_jfloat [simp]: "exact_decimals dec \<Longrightarrow> float_ok x \<Longrightarrow> dec_f64 (jfloat dec x) old = Some x"
  unfolding exact_decimals_def jfloat_def by (cases x) (auto simp: float_ok_def)

lemma float_ok_finite: "float_ok x \<Longrightarrow> finite_f64 x"
  by (cases x) (simp_all add: float_ok_def)

lemma dec_ju64 [simp]: "dec_u64 (ju64 w) old = Some w"
proof -
  have "int (unat w) < 2 ^ 64" using uint_bounded [of w] by simp
  moreover have "(of_int (int (unat w)) :: 64 word) = w" by simp
  ultimately show ?thesis unfolding ju64_def dec_u64.simps floor_of_nat by (simp only: of_int_of_nat_eq of_nat_0_le_iff simp_thms if_True)
qed

definition telemetry_ok :: "Telemetry \<Rightarrow> bool" where
  "telemetry_ok t \<longleftrightarrow> is_int64 (ActiveJobs t) \<and> is_int64 (QueueDepth t) \<and> is_int64 (MemAvailableMB t) \<and> float_ok (CPULoad t) \<and>
     (case BatteryPct t of None \<Rightarrow> True | Some n \<Rightarrow> is_int64 n)"

lemma telemetry_reads:
  "reads telemetry_fields ''active_jobs'' ActiveJobs dec_int64" "reads telemetry_fields ''queue_depth'' QueueDepth dec_int64"
  "reads telemetry_fields ''cpu_load'' CPULoad dec_f64" "reads telemetry_fields ''mem_available_mb'' MemAvailableMB dec_int64"
  "reads telemetry_fields ''thermal_state'' ThermalState dec_string"
  "reads telemetry_fields ''battery_pct'' BatteryPct (dec_ptr dec_int64 0)"
  "reads telemetry_fields ''charging'' Charging (dec_ptr dec_bool False)"
  "reads telemetry_fields ''network'' Network dec_string"
  unfolding reads_def telemetry_fields_def fld_def by auto

lemma telemetry_carries: "carries telemetry_fields (telemetry_tags dec) t (enc_obj (telemetry_tags dec) t)"
  by (intro carries_plain unmixed_lower) (simp_all add: tag_eval telemetry_fields_def telemetry_tags_def)

lemma dec_ptr_some: "dec v (case old of None \<Rightarrow> z | Some y \<Rightarrow> y) = Some x \<Longrightarrow> v \<noteq> JNull \<Longrightarrow> dec_ptr dec z v old = Some (Some x)"
  by (cases v) simp_all

lemma jint_not_null [simp]: "jint n \<noteq> JNull" by (simp add: jint_def)

lemma telemetry_total:
  assumes "telemetry_ok t" "exact_decimals dec"
  shows "\<exists>s'. dec_obj telemetry_fields (enc_obj (telemetry_tags dec) t) z = Some s'"
  by (rule read_total [OF telemetry_carries])
     (use assms in \<open>auto simp: telemetry_fields_def telemetry_tags_def fld_def tag_defs telemetry_ok_def dec_ptr_some
        split: option.splits\<close>)

lemma telemetry_back:
  assumes "telemetry_ok t" "exact_decimals dec"
  shows "dec_obj telemetry_fields (enc_obj (telemetry_tags dec) t) telemetry_zero = Some t"
proof -
  obtain s' where s': "dec_obj telemetry_fields (enc_obj (telemetry_tags dec) t) telemetry_zero = Some s'"
    using telemetry_total [OF assms] by blast
  note g = telemetry_reads [THEN read_get [OF telemetry_carries s']]
  have "s' = t"
    by (rule Telemetry.equality)
       (use g assms in \<open>simp_all add: telemetry_ok_def telemetry_tags_def tag_defs telemetry_zero_def dec_ptr_some split: if_splits option.splits\<close>)
  then show ?thesis using s' by simp
qed

lemma heartbeat_table: "frame_table heartbeat_fields (heartbeat_tags dec) TypeHeartbeat"
  by (simp add: frame_table_def tag_eval heartbeat_fields_def heartbeat_tags_def)

lemma heartbeat_back:
  assumes "telemetry_ok (hb_Telemetry h)" "exact_decimals dec" "is_int64 now"
  shows "comes_back (enc_heartbeat dec h) TypeHeartbeat heartbeat_fields \<lparr>hb_Telemetry = telemetry_zero\<rparr> h re uuid now"
proof (rule comes_backI [OF heartbeat_table])
  fix kvs assume c: "carries heartbeat_fields (heartbeat_tags dec) h kvs"
  have "\<exists>s'. dec_obj heartbeat_fields kvs \<lparr>hb_Telemetry = telemetry_zero\<rparr> = Some s'"
    by (rule read_total [OF c]) (use telemetry_total [OF assms(1,2)] in
        \<open>simp_all add: heartbeat_fields_def heartbeat_tags_def fld_def fld_skip_def tag_defs\<close>)
  then obtain s' where s': "dec_obj heartbeat_fields kvs \<lparr>hb_Telemetry = telemetry_zero\<rparr> = Some s'" by blast
  have "reads heartbeat_fields ''telemetry'' hb_Telemetry (dec_struct telemetry_fields)"
    unfolding reads_def heartbeat_fields_def fld_def fld_skip_def by auto
  note g = read_get [OF c s' this]
  have "s' = h"
    by (rule Heartbeat.equality) (use g telemetry_back [OF assms(1,2)] in \<open>simp_all add: heartbeat_tags_def tag_defs\<close>)
  then show "dec_obj heartbeat_fields kvs \<lparr>hb_Telemetry = telemetry_zero\<rparr> = Some h" using s' by simp
qed (use assms in \<open>simp_all add: type_defs enc_heartbeat_def telemetry_ok_def float_ok_finite\<close>)

definition bench_floats :: "BenchmarkReport \<Rightarrow> f64 list" where
  "bench_floats b = [br_PrefillTPS b, br_DecodeTPS b, br_SustainedStartTPS b, br_SustainedEndTPS b, br_MemBandwidthGBps b]"

definition bench_ok :: "BenchmarkReport \<Rightarrow> bool" where
  "bench_ok b \<longleftrightarrow> list_all float_ok (bench_floats b) \<and>
     list_all is_int64 [br_ContextTested b, br_SampleMS b, br_SustainedSeconds b, br_CPUCores b]"

lemma bench_reads:
  "reads bench_fields ''model'' br_Model dec_string" "reads bench_fields ''backend'' br_Backend dec_string"
  "reads bench_fields ''prefill_tps'' br_PrefillTPS dec_f64" "reads bench_fields ''decode_tps'' br_DecodeTPS dec_f64"
  "reads bench_fields ''context_tested'' br_ContextTested dec_int64" "reads bench_fields ''sample_ms'' br_SampleMS dec_int64"
  "reads bench_fields ''sustained_seconds'' br_SustainedSeconds dec_int64"
  "reads bench_fields ''sustained_start_tps'' br_SustainedStartTPS dec_f64"
  "reads bench_fields ''sustained_end_tps'' br_SustainedEndTPS dec_f64"
  "reads bench_fields ''mem_bandwidth_gbps'' br_MemBandwidthGBps dec_f64"
  "reads bench_fields ''available_ram_mb'' br_AvailableRAMMB dec_u64"
  "reads bench_fields ''available_storage_mb'' br_AvailableStorageMB dec_u64"
  "reads bench_fields ''cpu_cores'' br_CPUCores dec_int64" "reads bench_fields ''thermal_state'' br_ThermalState dec_string"
  unfolding reads_def bench_fields_def fld_def fld_skip_def by auto

lemma bench_table: "frame_table bench_fields (bench_tags dec) TypeBenchmarkReport"
  by (simp add: frame_table_def tag_eval bench_fields_def bench_tags_def)

lemma bench_back:
  assumes "bench_ok b" "exact_decimals dec" "is_int64 now"
  shows "comes_back (enc_bench dec b) TypeBenchmarkReport bench_fields bench_zero b re uuid now"
proof (rule comes_backI [OF bench_table])
  fix kvs assume c: "carries bench_fields (bench_tags dec) b kvs"
  have "\<exists>s'. dec_obj bench_fields kvs bench_zero = Some s'"
    by (rule read_total [OF c]) (use assms in
        \<open>simp_all add: bench_ok_def bench_floats_def bench_fields_def bench_tags_def fld_def fld_skip_def tag_defs\<close>)
  then obtain s' where s': "dec_obj bench_fields kvs bench_zero = Some s'" by blast
  note g = bench_reads [THEN read_same [OF c s']]
  have "s' = b"
    by (rule BenchmarkReport.equality)
       ((rule g, simp add: bench_tags_def tag_defs,
           use assms in \<open>auto simp: bench_ok_def bench_floats_def tag_defs bench_zero_def split: if_splits\<close>) | simp)+
  then show "dec_obj bench_fields kvs bench_zero = Some b" using s' by simp
qed (use assms in \<open>simp_all add: type_defs enc_bench_def bench_ok_def bench_floats_def float_ok_finite\<close>)

text \<open>Through the text of the frame: the reader gets what encoding and decoding a text make of the value.\<close>

definition delivered :: "json option \<Rightarrow> string \<Rightarrow> 's fields \<Rightarrow> 's \<Rightarrow> 's \<Rightarrow> string \<Rightarrow> string \<Rightarrow> int \<Rightarrow> bool" where
  "delivered payload t fs z x re uuid now \<longleftrightarrow> (\<exists>j. Marshal payload re uuid now = Inr j \<and>
     Parse (Some (clean_json j)) =
       Inr \<lparr>Env = \<lparr>V = Version, env_Type = t, env_ID = uuid, Re = re, TS = now\<rparr>, Raw = clean_json j\<rparr> \<and>
     dec_struct fs (clean_json j) z = Some x)"

definition json_text_ok :: "json option \<Rightarrow> bool" where
  "json_text_ok payload = (case payload of None \<Rightarrow> True | Some j \<Rightarrow> json_utf8 j)"

lemma encode_map_utf8:
  assumes "\<And>k. k \<in> set ks \<Longrightarrow> utf8 k \<and> json_utf8 (the (m k))"
  shows "json_utf8 (encode_map m ks)"
  using assms by (simp add: encode_map_def list_all_iff)

lemma Marshal_utf8:
  assumes "Marshal (Some j) re uuid now = Inr w" "json_utf8 j" "utf8 re" "utf8 uuid"
  shows "json_utf8 w"
proof -
  from assms(1) obtain b where b: "j = JObj b" by (cases j) (simp_all add: Marshal_def)
  have mem: "utf8 k \<and> json_utf8 (the (map_of (rev b) k))" if "k \<in> fst ` set b" for k
  proof -
    have "map_of (rev b) k \<noteq> None" using that by (simp add: map_of_eq_None_iff)
    then obtain v where v: "map_of (rev b) k = Some v" by blast
    then have "(k, v) \<in> set b" by (metis map_of_SomeD set_rev)
    with assms(2) show ?thesis by (auto simp: b v list_all_iff)
  qed
  have u: "utf8 ''v''" "utf8 ''id''" "utf8 ''ts''" "utf8 ''re''" "json_utf8 (JStr Version)" "json_utf8 (JStr uuid)"
    "json_utf8 (JNum (of_int now))" "json_utf8 (JStr re)" using assms(3,4) by (simp_all add: Version_def)
  from assms(1) have w: "w = encode_map ((map_of (rev b))(''v'' \<mapsto> JStr Version, ''id'' \<mapsto> JStr uuid, ''ts'' \<mapsto> JNum (of_int now))
      ++ (if re \<noteq> [] then [''re'' \<mapsto> JStr re] else Map.empty))
      (remdups (''v'' # ''id'' # ''ts'' # (if re \<noteq> [] then [''re''] else []) @ map fst b))"
    unfolding b Marshal_def Let_def option.case json.case
    by (cases "re = []") (simp_all del: remdups.simps split: if_splits)
  define M where "M = map_of (rev b)"
  define F where "F = fst ` set b"
  have mem: "k \<in> F \<Longrightarrow> utf8 k \<and> json_utf8 (the (M k))" for k using mem unfolding M_def F_def .
  show ?thesis unfolding w M_def [symmetric]
  proof (rule encode_map_utf8)
    fix k assume "k \<in> set (remdups (''v'' # ''id'' # ''ts'' # (if re \<noteq> [] then [''re''] else []) @ map fst b))"
    then have "k \<in> {''v'', ''id'', ''ts''} \<or> re \<noteq> [] \<and> k = ''re'' \<or> k \<in> F"
      by (simp add: F_def del: remdups.simps split: if_splits) blast+
    then show "utf8 k \<and> json_utf8 (the ((M(''v'' \<mapsto> JStr Version, ''id'' \<mapsto> JStr uuid, ''ts'' \<mapsto> JNum (of_int now)) ++
        (if re \<noteq> [] then [''re'' \<mapsto> JStr re] else Map.empty)) k))"
      using mem [of k] u by (auto simp: map_add_def)
  qed
qed

lemma deliveredI:
  assumes "comes_back payload t fs z x re uuid now" "json_text_ok payload" "utf8 re" "utf8 uuid"
  shows "delivered payload t fs z x re uuid now"
proof -
  obtain j where j: "Marshal payload re uuid now = Inr j" "dec_struct fs j z = Some x"
    "Parse (Some j) = Inr \<lparr>Env = \<lparr>V = Version, env_Type = t, env_ID = uuid, Re = re, TS = now\<rparr>, Raw = j\<rparr>"
    using assms(1) unfolding comes_back_def by blast
  from j(1) obtain v where "payload = Some v" by (cases payload) (simp_all add: Marshal_def)
  with j(1) assms(2-4) have "json_utf8 j" by (simp add: json_text_ok_def Marshal_utf8)
  with j show ?thesis unfolding delivered_def by (intro exI [of _ j]) simp
qed

text \<open>C33: whatever a provider or the coordinator puts into a register, heartbeat, benchmark, job-error or
  acknowledgement frame, with integers within their Go types, finite floats, and texts (the echoed and the
  own id included) that are UTF-8, the other side parses what arrives as a frame of that type, with the
  version, id, echoed id and time of the sender, and decodes every field to the value sent, optional and
  omitted ones included. This is on JSON values: their text is not modelled beyond what it does to a
  string that is not UTF-8 (its bytes are replaced, so it would not come back), and the decimal written
  for a float is taken to read back as that float (\<open>exact_decimals\<close>).\<close>

theorem frames_come_back:
  assumes "is_int64 now" "exact_decimals dec" "int64_caps (reg_Capabilities r)" "telemetry_ok (hb_Telemetry h)" "bench_ok b"
    and "is_int64 (ra_HeartbeatSeconds a)"
    and "utf8 re" "utf8 uuid" "json_text_ok (Some (JObj (enc_obj register_tags r)))" "json_text_ok (enc_heartbeat dec h)"
      "json_text_ok (enc_bench dec b)" "json_text_ok (Some (JObj (enc_obj job_error_tags e)))"
      "json_text_ok (Some (JObj (enc_obj register_ack_tags a)))"
  shows "delivered (Some (JObj (enc_obj register_tags r))) TypeRegister register_fields register_zero r re uuid now \<and>
    delivered (enc_heartbeat dec h) TypeHeartbeat heartbeat_fields \<lparr>hb_Telemetry = telemetry_zero\<rparr> h re uuid now \<and>
    delivered (enc_bench dec b) TypeBenchmarkReport bench_fields bench_zero b re uuid now \<and>
    delivered (Some (JObj (enc_obj job_error_tags e))) TypeJobError joberr_fields joberr_zero e re uuid now \<and>
    delivered (Some (JObj (enc_obj register_ack_tags a))) TypeRegisterAck ack_fields ack_zero a re uuid now"
  using assms by (intro conjI deliveredI register_back heartbeat_back bench_back job_error_back ack_back)

text \<open>A text that is not UTF-8 comes back with U+FFFD in its place.\<close>

lemma bad_text_replaced: "clean_json (JStr [CHR ''a'', CHR 0xFF]) = JStr [CHR ''a'', CHR 0xEF, CHR 0xBF, CHR 0xBD]"
  by (simp add: clean_utf8_def runes.simps rune_width_def between_def rune_error_def)

text \<open>The exact value of a float is one decimal that reads back as it.\<close>

definition exact_value :: "f64 \<Rightarrow> rat" where
  "exact_value x = (case x of Fin q \<Rightarrow> q | _ \<Rightarrow> 0)"

lemma exact_value_exact: "exact_decimals exact_value"
  by (auto simp: exact_decimals_def float_ok_def exact_value_def split: f64.splits)

lemma frames_come_back_witness:
  "delivered (enc_heartbeat exact_value \<lparr>hb_Telemetry = telemetry_zero\<lparr>BatteryPct := Some 80, CPULoad := Fin (1 / 2)\<rparr>\<rparr>) TypeHeartbeat
     heartbeat_fields \<lparr>hb_Telemetry = telemetry_zero\<rparr>
     \<lparr>hb_Telemetry = telemetry_zero\<lparr>BatteryPct := Some 80, CPULoad := Fin (1 / 2)\<rparr>\<rparr> ''r1'' ''u1'' 1700000000 \<and>
   delivered (Some (JObj (enc_obj job_error_tags (joberr_zero\<lparr>je_Message := [CHR 0xC3, CHR 0xA9]\<rparr>)))) TypeJobError joberr_fields joberr_zero
     (joberr_zero\<lparr>je_Message := [CHR 0xC3, CHR 0xA9]\<rparr>) ''r1'' ''u1'' 1700000000"
proof -
  let ?h = "\<lparr>hb_Telemetry = telemetry_zero\<lparr>BatteryPct := Some 80, CPULoad := Fin (1 / 2)\<rparr>\<rparr>"
  let ?e = "joberr_zero\<lparr>je_Message := [CHR 0xC3, CHR 0xA9]\<rparr>"
  have t: "telemetry_ok (hb_Telemetry ?h)"
    by (simp add: telemetry_ok_def telemetry_zero_def is_int64_def float_ok_def f64_eval)
  have b: "bench_ok bench_zero"
    by (simp add: bench_ok_def bench_floats_def bench_zero_def is_int64_def float_ok_def f64_eval)
  have c: "int64_caps (reg_Capabilities register_zero)" "is_int64 (ra_HeartbeatSeconds ack_zero)" "is_int64 1700000000"
    by (simp_all add: int64_caps_def register_zero_def caps_zero_def ack_zero_def is_int64_def)
  have "utf8 [CHR 0xC3, CHR 0xA9]" by (simp add: utf8.simps rune_width_def between_def cont_def)
  then have u: "utf8 ''r1''" "utf8 ''u1''" "json_text_ok (Some (JObj (enc_obj register_tags register_zero)))"
    "json_text_ok (enc_heartbeat exact_value ?h)" "json_text_ok (enc_bench exact_value bench_zero)"
    "json_text_ok (Some (JObj (enc_obj job_error_tags ?e)))" "json_text_ok (Some (JObj (enc_obj register_ack_tags ack_zero)))"
    by (simp_all add: json_text_ok_def enc_obj_simps tag_defs register_tags_def register_zero_def caps_tags_def caps_zero_def
        security_tags_def enc_heartbeat_def heartbeat_tags_def telemetry_tags_def telemetry_zero_def enc_bench_def bench_tags_def
        bench_zero_def job_error_tags_def joberr_zero_def register_ack_tags_def ack_zero_def jint_def ju64_def jfloat_def jstrs_def type_defs)
  from frames_come_back [OF c(3) exact_value_exact c(1) t b c(2) u] show ?thesis by blast
qed

end
