(* ===== verification/Devprovider.thy ===== *)
theory Devprovider
  imports Encode Events
begin

text \<open>
  The development provider (coordinator/cmd/devprovider/main.go): the client side of the provider
  protocol, a process that registers, reports made-up figures and declines every job. The frames
  it writes and reads are those of \<open>Encode\<close>. The socket, the random source, the clock, the fresh ids and
  the decimals of floats are arguments; the order of what the select of its loop yields is a list.
  The last part joins it with the hub, the job manager and the relay of the coordinator.
\<close>

record dev_flags =
  fl_url :: string
  fl_token :: string
  fl_platform :: string
  fl_arch :: string
  fl_ram :: int
  fl_cores :: int
  fl_model :: string
  fl_decode :: f64
  fl_count :: int
  fl_attested :: bool

definition hardwareClass :: "int \<Rightarrow> string" where
  "hardwareClass ramMB = (if ramMB \<le> 6 * 1024 then ''MICRO'' else if ramMB \<le> 16 * 1024 then ''SMALL''
     else if ramMB \<le> 32 * 1024 then ''MEDIUM'' else if ramMB \<le> 64 * 1024 then ''LARGE'' else ''XL'')"

definition dev_caps :: "dev_flags \<Rightarrow> Capabilities" where
  "dev_caps f = \<lparr>Platform = fl_platform f, Arch = fl_arch f, CPU = ''dev-cpu'', GPU = [], RAMMB = fl_ram f, VRAMMB = 0,
     Backend = ''mock'', HardwareClass = hardwareClass (fl_ram f), MaxContext = 4096, Models = [fl_model f],
     Security = security_zero\<lparr>HardwareKey := fl_attested f, SecureBoot := fl_attested f\<rparr>\<rparr>"

text \<open>The processes \<open>main\<close> starts; \<open>None\<close> is its fatal refusal.\<close>

definition dev_main :: "dev_flags \<Rightarrow> (string \<times> Capabilities) list option" where
  "dev_main f = (if contains (fl_url f) ''ayni-ai.com'' then None
     else Some (map (\<lambda>i. (fl_platform f @ ''-'' @ int_str (int i + 1), dev_caps f)) [0..<nat (fl_count f)]))"

text \<open>The key of a process: 32 random bytes with the top bit of the last one cleared.\<close>

definition dev_key :: "string \<Rightarrow> string" where
  "dev_key rand = rand[31 := char_of (of_char (rand ! 31) mod 128 :: nat)]"

subsection \<open>Frames\<close>

text \<open>What one write reads: the fresh id, the clock, and whether the socket took it.\<close>

record write_env =
  we_uuid :: string
  we_now :: int
  we_ok :: bool

definition dev_send :: "write_env \<Rightarrow> json option \<Rightarrow> string \<Rightarrow> json list \<times> bool" where
  "dev_send w payload re = (case Marshal payload re (we_uuid w) (we_now w) of
     Inl _ \<Rightarrow> ([], False) | Inr j \<Rightarrow> if we_ok w then ([j], True) else ([], False))"

definition dev_register :: "string \<Rightarrow> string \<Rightarrow> Capabilities \<Rightarrow> json option Register" where
  "dev_register token pk caps = \<lparr>Agent = ''devprovider/0.1'', RegistrationToken = token, StaticPK = pk,
     reg_Capabilities = caps, reg_Attestation = None, ResumeProviderID = []\<rparr>"

definition dev_bench :: "Capabilities \<Rightarrow> f64 \<Rightarrow> int \<Rightarrow> BenchmarkReport" where
  "dev_bench caps decode cores = \<lparr>br_Model = hd (Models caps), br_Backend = ''mock'', br_PrefillTPS = decode * Fin 6,
     br_DecodeTPS = decode, br_ContextTested = 0, br_SampleMS = 1200, br_SustainedSeconds = 30,
     br_SustainedStartTPS = decode, br_SustainedEndTPS = decode * rnd (92 / 100), br_MemBandwidthGBps = Fin 18,
     br_AvailableRAMMB = of_int (go_div (wrap64 (RAMMB caps * 6)) 10), br_AvailableStorageMB = 0, br_CPUCores = cores,
     br_ThermalState = ''nominal''\<rparr>"

definition dev_telemetry :: "Capabilities \<Rightarrow> Telemetry" where
  "dev_telemetry caps = (let phone = (Platform caps = ''android'' \<or> Platform caps = ''ios'') in
     \<lparr>ActiveJobs = 0, QueueDepth = 0, CPULoad = rnd (12 / 100), MemAvailableMB = go_div (RAMMB caps) 2,
      ThermalState = ''nominal'', BatteryPct = (if phone then Some 80 else None),
      Charging = (if phone then Some True else None), Network = ''wifi''\<rparr>)"

definition dev_decline :: "string \<Rightarrow> JobError" where
  "dev_decline jobID = \<lparr>je_JobID = jobID, je_Code = ''dev_provider'', je_Message = ''devprovider cannot run inference''\<rparr>"

subsection \<open>One session\<close>

datatype dev_end = DialFailed | RegisterNotSent | AckNotRead | AckUnparsed wire_error | RegisterRejected string | Crashed
  | Stopped | ReadFailed | HeartbeatNotSent

datatype dev_event = DevCancelled | DevReadFails | DevTick write_env | DevText "json option" write_env

text \<open>The reader drops a text that does not parse. A directive is only logged.\<close>

definition dev_frame :: "write_env \<Rightarrow> json Frame \<Rightarrow> json list" where
  "dev_frame w f = (if env_Type (Env f) = TypeJobRequest then
       fst (dev_send w (Some (JObj (enc_obj job_error_tags (dev_decline (dec_lenient probe_fields (Raw f) []))))) (env_ID (Env f)))
     else [])"

fun dev_turn :: "(f64 \<Rightarrow> rat) \<Rightarrow> Capabilities \<Rightarrow> dev_event \<Rightarrow> json list \<times> dev_end option" where
  "dev_turn dec caps DevCancelled = ([], Some Stopped)"
| "dev_turn dec caps DevReadFails = ([], Some ReadFailed)"
| "dev_turn dec caps (DevTick w) = (case dev_send w (enc_heartbeat dec \<lparr>hb_Telemetry = dev_telemetry caps\<rparr>) [] of
     (out, sent) \<Rightarrow> (out, if sent then None else Some HeartbeatNotSent))"
| "dev_turn dec caps (DevText raw w) = (case Parse raw of Inl _ \<Rightarrow> ([], None) | Inr f \<Rightarrow> (dev_frame w f, None))"

text \<open>\<open>None\<close> as the end: the events are used up and the session waits.\<close>

fun dev_loop :: "(f64 \<Rightarrow> rat) \<Rightarrow> Capabilities \<Rightarrow> dev_event list \<Rightarrow> json list \<times> dev_end option" where
  "dev_loop dec caps [] = ([], None)"
| "dev_loop dec caps (ev # evs) = (case dev_turn dec caps ev of
     (out, Some e) \<Rightarrow> (out, Some e)
   | (out, None) \<Rightarrow> (case dev_loop dec caps evs of (out2, e) \<Rightarrow> (out @ out2, e)))"

text \<open>The interval of the heartbeats in nanoseconds; the ticker panics unless it is positive, and so does the log
  line when the id has fewer than eight bytes.\<close>

definition dev_interval :: "RegisterAck \<Rightarrow> int" where
  "dev_interval ack = wrap64 ((if ra_HeartbeatSeconds ack \<le> 0 then 15 else ra_HeartbeatSeconds ack) * 1000000000)"

definition dev_acked :: "json option \<Rightarrow> dev_end + RegisterAck" where
  "dev_acked raw = (case Parse raw of
     Inl err \<Rightarrow> Inl (AckUnparsed err)
   | Inr f \<Rightarrow> (let ack = dec_lenient ack_fields (Raw f) ack_zero in
       if dec_struct ack_fields (Raw f) ack_zero = None \<or> \<not> ra_OK ack then Inl (RegisterRejected (ra_Error ack)) else Inr ack))"

text \<open>What the session meets: whether the dial succeeds, the write of the register frame, the text read next
  (\<open>None\<close>: the read fails), the write of the report, then the events.\<close>

record dev_script =
  sc_dialled :: bool
  sc_register :: write_env
  sc_ack :: "json option option"
  sc_bench :: write_env
  sc_events :: "dev_event list"

definition runOnce :: "(f64 \<Rightarrow> rat) \<Rightarrow> string \<Rightarrow> string \<Rightarrow> Capabilities \<Rightarrow> f64 \<Rightarrow> int \<Rightarrow> dev_script \<Rightarrow> json list \<times> dev_end option" where
  "runOnce dec token pk caps decode cores s =
    (if \<not> sc_dialled s then ([], Some DialFailed)
     else case dev_send (sc_register s) (Some (JObj (enc_obj register_tags (dev_register token pk caps)))) [] of
       (out, False) \<Rightarrow> (out, Some RegisterNotSent)
     | (out, True) \<Rightarrow> (case sc_ack s of
         None \<Rightarrow> (out, Some AckNotRead)
       | Some raw \<Rightarrow> (case dev_acked raw of
           Inl e \<Rightarrow> (out, Some e)
         | Inr ack \<Rightarrow>
             if length (ra_ProviderID ack) < 8 then (out, Some Crashed)
             else (let out = out @ fst (dev_send (sc_bench s) (enc_bench dec (dev_bench caps decode cores)) []) in
               if dev_interval ack \<le> 0 then (out, Some Crashed)
               else case dev_loop dec caps (sc_events s) of (out2, e) \<Rightarrow> (out @ out2, e)))))"

text \<open>A process reconnects with its key until the context is done, which it notices only after a session; a
  crash ends it. The flag of a session is whether the context is done by then.\<close>

fun runForever :: "(f64 \<Rightarrow> rat) \<Rightarrow> string \<Rightarrow> string \<Rightarrow> Capabilities \<Rightarrow> f64 \<Rightarrow> int \<Rightarrow> (dev_script \<times> bool) list \<Rightarrow>
    (json list \<times> dev_end option) list" where
  "runForever dec token rand caps decode cores [] = []"
| "runForever dec token rand caps decode cores ((s, cancelled) # ss) =
     (let r = runOnce dec token (b64_encode (dev_key rand)) caps decode cores s in
      r # (if cancelled \<or> snd r = None \<or> snd r = Some Crashed then [] else runForever dec token rand caps decode cores ss))"

subsection \<open>With the coordinator\<close>

lemma dev_key_length: "length rand = 32 \<Longrightarrow> length (dev_key rand) = 32"
  by (simp add: dev_key_def)

lemma dev_acked_back:
  assumes "comes_back (Some (JObj (enc_obj register_ack_tags a))) TypeRegisterAck ack_fields ack_zero a re uuid now" "ra_OK a"
  shows "\<exists>j. Marshal (Some (JObj (enc_obj register_ack_tags a))) re uuid now = Inr j \<and> dev_acked (Some j) = Inr a"
  using assms by (auto simp: comes_back_def dev_acked_def dec_lenient_strict)

lemma register_tier_none: "reg_Attestation reg = None \<Longrightarrow> register_tier e reg pk = TierCommunity"
  by (simp add: register_tier_def)

text \<open>With a token the coordinator knows, the fake provider gets in on its first frame: the hub admits the
  marshalled frame, the registry lists it under its key with exactly the capabilities of its flags, as a
  community node whatever the attested flag says, and the acknowledgement the hub writes takes the
  client past its checks into its loop.\<close>

lemma dev_joins_as_community:
  assumes "length rand = 32" "is_int64 (fl_ram f)" "is_int64 (we_now w)" "we_ok w" "is_int64 t"
    and "ValidateProviderToken (fl_token f) (hb_store h)"
    and "0 < se_heartbeat e" "se_heartbeat e \<le> 9223372036" "8 \<le> length (se_uuid e)"
  shows "\<exists>j h' ack ja. dev_send w (Some (JObj (enc_obj register_tags (dev_register (fl_token f) (b64_encode (dev_key rand)) (dev_caps f))))) []
        = ([j], True) \<and>
     register_provider e p (Some (Some j)) h = (h', [SendRegisterAck ack], True) \<and>
     Get (hb_reg h') (se_uuid e) = Some p \<and> TrustTier (prov (hb_reg h') p) = TierCommunity \<and>
     Caps (prov (hb_reg h') p) = dev_caps f \<and> StaticPKBytes (prov (hb_reg h') p) = dev_key rand \<and>
     Marshal (Some (JObj (enc_obj register_ack_tags ack))) [] u t = Inr ja \<and>
     snd (runOnce dec (fl_token f) (b64_encode (dev_key rand)) (dev_caps f) (fl_decode f) (fl_cores f)
       \<lparr>sc_dialled = True, sc_register = w, sc_ack = Some (Some ja), sc_bench = wb, sc_events = evs\<rparr>) =
     snd (dev_loop dec (dev_caps f) evs)"
proof -
  define reg where "reg = dev_register (fl_token f) (b64_encode (dev_key rand)) (dev_caps f)"
  define ack where "ack = \<lparr>ra_OK = True, ra_Error = [], ra_ProviderID = se_uuid e, ra_TrustTier = register_tier e reg (dev_key rand),
    ra_AcceptedModels = Models (reg_Capabilities reg), ra_HeartbeatSeconds = se_heartbeat e, ra_CoordinatorPK = []\<rparr>"
  have "comes_back (Some (JObj (enc_obj register_tags reg))) TypeRegister register_fields register_zero reg [] (we_uuid w) (we_now w)"
    by (rule register_back) (use assms(2,3) in \<open>simp_all add: int64_caps_def reg_def dev_register_def dev_caps_def is_int64_def\<close>)
  then obtain j fr where j: "Marshal (Some (JObj (enc_obj register_tags reg))) [] (we_uuid w) (we_now w) = Inr j"
    "Parse (Some j) = Inr fr" "env_Type (Env fr) = TypeRegister" "Raw fr = j" "dec_struct register_fields j register_zero = Some reg"
    by (auto simp: comes_back_def)
  have send: "dev_send w (Some (JObj (enc_obj register_tags reg))) [] = ([j], True)"
    using assms(4) j(1) by (simp add: dev_send_def)
  have pk: "ParsePublicKey (StaticPK reg) = Inr (dev_key rand)" "RegistrationToken reg = fl_token f"
    using dev_key_length [OF assms(1)] ParsePublicKey_EncodeKey [of "dev_key rand"] by (simp_all add: reg_def dev_register_def EncodeKey_def)
  obtain acct where c: "check_register e (Some (Some j)) h = Inr (reg, acct, dev_key rand)"
    using j pk assms(6) by (simp add: check_register_def Let_def)
  have r: "register_provider e p (Some (Some j)) h = (admit e p reg acct (dev_key rand) h, [SendRegisterAck ack], True)"
    by (simp add: register_provider_def c ack_def)
  have tier: "register_tier e reg (dev_key rand) = TierCommunity" by (rule register_tier_none) (simp add: reg_def dev_register_def)
  note a = admit_facts [of e p reg acct "dev_key rand" h]
  have np: "TrustTier (new_provider e reg (dev_key rand)) = TierCommunity" "Caps (new_provider e reg (dev_key rand)) = dev_caps f"
    "StaticPKBytes (new_provider e reg (dev_key rand)) = dev_key rand"
    by (simp_all add: new_provider_def tier) (simp add: reg_def dev_register_def)
  have hb: "is_int64 (ra_HeartbeatSeconds ack)" "ra_OK ack" "ra_ProviderID ack = se_uuid e" "ra_HeartbeatSeconds ack = se_heartbeat e"
    using assms(7,8) by (simp_all add: ack_def is_int64_def)
  obtain ja where ja: "Marshal (Some (JObj (enc_obj register_ack_tags ack))) [] u t = Inr ja" "dev_acked (Some ja) = Inr ack"
    using dev_acked_back [OF ack_back [OF hb(1) assms(5)] hb(2)] by blast
  have "is_int64 (se_heartbeat e * 1000000000)" using assms(7,8) by (simp add: is_int64_def)
  then have iv: "0 < dev_interval ack" using assms(7) by (simp add: dev_interval_def hb)
  have "snd (runOnce dec (fl_token f) (b64_encode (dev_key rand)) (dev_caps f) (fl_decode f) (fl_cores f)
       \<lparr>sc_dialled = True, sc_register = w, sc_ack = Some (Some ja), sc_bench = wb, sc_events = evs\<rparr>) = snd (dev_loop dec (dev_caps f) evs)"
    using send iv ja(2) assms(9) hb(3) by (simp add: runOnce_def reg_def Let_def split: prod.split)
  then show ?thesis
    using send r a np ja(1) unfolding reg_def by (intro exI conjI) auto
qed

definition sample_flags :: dev_flags where
  "sample_flags = \<lparr>fl_url = ''ws://127.0.0.1:8080/ws/provider'', fl_token = ''dev-provider-token'', fl_platform = ''android'',
     fl_arch = ''aarch64'', fl_ram = 8192, fl_cores = 8, fl_model = ''qwen2.5-0.5b-instruct-q4_k_m'', fl_decode = Fin 20,
     fl_count = 2, fl_attested = True\<rparr>"

definition sample_session :: "unit session_env" where
  "sample_session = \<lparr>se_crypto = \<lparr>parse_cert = \<lambda>_. None, signed_by = \<lambda>_ _. True, verify_asn1 = \<lambda>_ _ _. True, sha256_sum = id,
     read_asn1 = \<lambda>_ s. (None, s), read_int = \<lambda>s. (None, s), read_bool = \<lambda>s. (None, s)\<rparr>, se_roots = [], se_now = 5,
     se_uuid = ''0b1c2d3e-0000'', se_account = None, se_heartbeat = 15\<rparr>"

definition sample_hub :: hub where
  "sample_hub = \<lparr>hb_reg = sample_registry 0, hb_jobs = fst (Register_job ''j'' ''p1'' New_jobs),
     hb_store = NewMem id [] [''dev-provider-token''], owners = Map.empty\<rparr>"

definition sample_write :: write_env where
  "sample_write = \<lparr>we_uuid = ''u1'', we_now = 1700000000, we_ok = True\<rparr>"

lemma dev_joins_as_community_witness:
  "\<exists>j h' ack. register_provider sample_session 7 (Some (Some j)) sample_hub = (h', [SendRegisterAck ack], True) \<and>
     TrustTier (prov (hb_reg h') 7) = TierCommunity \<and> HardwareKey (Security (Caps (prov (hb_reg h') 7)))"
proof -
  have "length (replicate 32 (CHR 0xFF)) = 32" "is_int64 (fl_ram sample_flags)" "is_int64 (we_now sample_write)" "we_ok sample_write"
    "is_int64 1700000000" "ValidateProviderToken (fl_token sample_flags) (hb_store sample_hub)" "0 < se_heartbeat sample_session"
    "se_heartbeat sample_session \<le> 9223372036" "8 \<le> length (se_uuid sample_session)"
    by (simp_all add: sample_flags_def sample_write_def sample_session_def sample_hub_def is_int64_def ValidateProviderToken_def NewMem_def)
  from dev_joins_as_community [OF this, where p = 7] obtain j h' ack where
    "register_provider sample_session 7 (Some (Some j)) sample_hub = (h', [SendRegisterAck ack], True)"
    "TrustTier (prov (hb_reg h') 7) = TierCommunity" "Caps (prov (hb_reg h') 7) = dev_caps sample_flags" by blast
  moreover have "HardwareKey (Security (dev_caps sample_flags))" by (simp add: dev_caps_def sample_flags_def)
  ultimately show ?thesis by (intro exI [of _ j] exI [of _ h'] exI [of _ ack]) simp
qed

text \<open>A job sent to the fake provider ends in an error, never in a result: the client answers the marshalled
  request with one frame, the hub's session delivers it to the channel of that job, and the relay that
  receives it returns the provider's error, having charged and forwarded nothing.\<close>

lemma dev_job_declined:
  assumes "is_int64 (we_now w)" "is_int64 t" "we_ok w" "jr_JobID jr \<noteq> []"
    and "jm (hb_jobs h) (jr_JobID jr) = Some a" "providerID a = ID (prov (hb_reg h) p)"
    and "chans (hb_jobs h) (ch a) = Some \<lparr>buf = [], is_closed = False\<rparr>"
  shows "\<exists>req ans h' ev m'. Marshal (Some (JObj (enc_obj job_request_tags jr))) [] u t = Inr req \<and>
     dev_turn dec caps (DevText (Some req) w) = ([ans], None) \<and>
     session_turn p (ReadText now (Some ans)) missed h = Ok (h', [], Some 0) \<and>
     recv (ch a) (hb_jobs h') = Some (m', ev) \<and>
     on_input act (Got ev) s = (s, Some (Inl (ProviderJobError ''dev_provider'')))"
proof -
  have "comes_back (Some (JObj (enc_obj job_request_tags jr))) TypeJobRequest probe_fields [] (jr_JobID jr) [] u t"
    by (rule probe_back [OF job_request_probe]) (use assms(2) in \<open>simp_all add: job_request_tags_def tag_defs type_defs\<close>)
  then obtain req fr where req: "Marshal (Some (JObj (enc_obj job_request_tags jr))) [] u t = Inr req" "Parse (Some req) = Inr fr"
    "env_Type (Env fr) = TypeJobRequest" "Raw fr = req" "dec_lenient probe_fields req [] = jr_JobID jr"
    by (auto simp: comes_back_def dec_lenient_strict)
  define e where "e = dev_decline (jr_JobID jr)"
  have cb: "comes_back (Some (JObj (enc_obj job_error_tags e))) TypeJobError joberr_fields joberr_zero e (env_ID (Env fr)) (we_uuid w) (we_now w)"
    by (rule job_error_back [OF assms(1)])
  have cp: "comes_back (Some (JObj (enc_obj job_error_tags e))) TypeJobError probe_fields [] (je_JobID e) (env_ID (Env fr)) (we_uuid w) (we_now w)"
    by (rule probe_back [OF job_error_probe]) (use assms(1) in \<open>simp_all add: job_error_tags_def tag_defs type_defs\<close>)
  obtain ans fa where ans: "Marshal (Some (JObj (enc_obj job_error_tags e))) (env_ID (Env fr)) (we_uuid w) (we_now w) = Inr ans"
    "Parse (Some ans) = Inr fa" "env_Type (Env fa) = TypeJobError" "Raw fa = ans" "dec_lenient joberr_fields ans joberr_zero = e"
    "dec_struct probe_fields ans [] = Some (jr_JobID jr)"
    using cb cp by (auto simp: comes_back_def dec_lenient_strict e_def dev_decline_def)
  have turn: "dev_turn dec caps (DevText (Some req) w) = ([ans], None)"
    using req ans(1) assms(3) by (simp add: dev_frame_def dev_send_def e_def)
  let ?h = "h\<lparr>hb_reg := upd_prov (\<lambda>x. x\<lparr>LastSeen := now\<rparr>) p (hb_reg h)\<rparr>"
  let ?ev = "\<lparr>ev_Kind = KindError, ev_Raw = ans\<rparr>"
  let ?m = "(hb_jobs h)\<lparr>chans := (chans (hb_jobs h))(ch a \<mapsto> \<lparr>buf = [?ev], is_closed = False\<rparr>)\<rparr>"
  have id: "ID (prov (hb_reg ?h) p) = ID (prov (hb_reg h) p)" by (simp add: upd_prov_def)
  have "deliver (ID (prov (hb_reg ?h) p)) fa KindError ?h = Ok (?h\<lparr>hb_jobs := ?m\<rparr>)"
    unfolding id by (simp add: deliver_def ans(4,6) assms Deliver_def try_send_def chan_cap_def)
  then have "session_turn p (ReadText now (Some ans)) missed h = Ok (?h\<lparr>hb_jobs := ?m\<rparr>, [], Some 0)"
    using ans(2,3) by (simp add: session_turn_def dispatch_def type_defs)
  moreover have "recv (ch a) ?m = Some (?m\<lparr>chans := (chans ?m)(ch a \<mapsto> \<lparr>buf = [], is_closed = False\<rparr>)\<rparr>, ?ev)"
    by (simp add: recv_def)
  moreover have "on_input act (Got ?ev) s = (s, Some (Inl (ProviderJobError ''dev_provider'')))"
    using ans(5) by (simp add: e_def dev_decline_def)
  ultimately show ?thesis using req(1) turn by (intro exI conjI) auto
qed

lemma dev_job_declined_witness:
  fixes jr :: "json JobRequest"
  defines "jr \<equiv> \<lparr>jr_JobID = ''j'', jr_Model = ''m'', jr_DeadlineMS = 60000, jr_Sealed = sealed_zero, jr_Manifest = None\<rparr>"
  shows "\<exists>req ans h' ev m'. Marshal (Some (JObj (enc_obj job_request_tags jr))) [] ''u0'' 1700000000 = Inr req \<and>
     dev_turn exact_value (dev_caps sample_flags) (DevText (Some req) sample_write) = ([ans], None) \<and>
     session_turn 0 (ReadText 9 (Some ans)) 0 sample_hub = Ok (h', [], Some 0) \<and> recv 0 (hb_jobs h') = Some (m', ev) \<and>
     on_input (sample_act 8) (Got ev) loop_init = (loop_init, Some (Inl (ProviderJobError ''dev_provider'')))"
proof -
  have "is_int64 (we_now sample_write)" "is_int64 1700000000" "we_ok sample_write" "jr_JobID jr \<noteq> []"
    "jm (hb_jobs sample_hub) (jr_JobID jr) = Some \<lparr>providerID = ''p1'', ch = 0\<rparr>"
    "providerID \<lparr>providerID = ''p1'', ch = 0\<rparr> = ID (prov (hb_reg sample_hub) 0)"
    "chans (hb_jobs sample_hub) (ch \<lparr>providerID = ''p1'', ch = 0\<rparr>) = Some \<lparr>buf = [], is_closed = False\<rparr>"
    by (simp_all add: sample_write_def is_int64_def jr_def sample_hub_def Register_job_def New_jobs_def Let_def
        sample_registry_def sample_provider_def)
  from dev_job_declined [OF this, of "''u0''" exact_value "dev_caps sample_flags" 9 0 "sample_act 8" loop_init] show ?thesis
    by (simp only: assignment.select_convs)
qed

end
