(* ===== verification/Views.thy ===== *)
theory Views
  imports Billing Router
begin

text \<open>
  What the remaining views of package \<open>api\<close> write: the rendering of a batch (batch.go), shared by the
  batch and workload routes, and the parameters of the payout accounts and their onboarding links
  (billing.go). A map of the response is an association list in the order the code's map is
  iterated in.
\<close>

subsection \<open>Batches\<close>

datatype row_body = RowError string string | RowMessage string string Usage string string

record batch_row =
  row_Index :: nat
  row_LatencyMS :: int
  row_Body :: row_body

definition render_item :: "ItemResult \<Rightarrow> batch_row" where
  "render_item it = \<lparr>row_Index = ir_Index it, row_LatencyMS = ir_LatencyMS it,
     row_Body = (if ir_ErrCode it \<noteq> [] then RowError (ir_ErrCode it) (ir_ErrMsg it)
       else RowMessage (ir_Content it) (ir_FinishReason it) (ir_Usage it) (ir_TrustTier it) (shortID (ir_ProviderID it)))\<rparr>"

definition renderBatchItems :: "Summary \<Rightarrow> batch_row list" where
  "renderBatchItems s = map render_item (su_Items s)"

definition shortCounts :: "(string \<times> int) list \<Rightarrow> string \<rightharpoonup> int" where
  "shortCounts m = foldl (\<lambda>out kv. out(shortID (fst kv) \<mapsto> snd kv)) Map.empty m"

record batch_stats =
  bs_OK :: int
  bs_Failed :: int
  bs_Fanout :: nat
  bs_Providers :: "string \<rightharpoonup> int"
  bs_Concurrency :: int
  bs_WallMS :: int

text \<open>\<open>order\<close> is the iteration order of the map of providers.\<close>

definition batchStats :: "string list \<Rightarrow> Summary \<Rightarrow> batch_stats" where
  "batchStats order s = \<lparr>bs_OK = su_OK s, bs_Failed = su_Failed s, bs_Fanout = Fanout s,
     bs_Providers = shortCounts (map (\<lambda>k. (k, the (su_Providers s k))) order), bs_Concurrency = su_Concurrency s, bs_WallMS = su_WallMS s\<rparr>"

record batch_view =
  bw_ID :: string
  bw_Created :: int
  bw_Model :: string
  bw_Items :: "batch_row list"
  bw_Usage :: Usage
  bw_Stats :: batch_stats

definition renderBatch :: "string \<Rightarrow> string list \<Rightarrow> string \<Rightarrow> int \<Rightarrow> Summary \<Rightarrow> batch_view" where
  "renderBatch uuid order model created s = \<lparr>bw_ID = ''batch-'' @ filter (\<lambda>c. c \<noteq> CHR ''-'') uuid, bw_Created = created, bw_Model = model,
     bw_Items = renderBatchItems s, bw_Usage = \<lparr>PromptTokens = su_PromptTokens s, CompletionTokens = su_CompletionTokens s,
       TotalTokens = wrap64 (su_PromptTokens s + su_CompletionTokens s)\<rparr>, bw_Stats = batchStats order s\<rparr>"

text \<open>Two providers whose ids agree in the first eight bytes share one entry, which holds the count of the
  one that comes last: items are lost from the statistics.\<close>

lemma short_counts_collide:
  "shortCounts [(''12345678-a'', 3), (''12345678-b'', 1)] = [''12345678'' \<mapsto> 1]"
  "shortCounts [(''12345678-b'', 1), (''12345678-a'', 3)] = [''12345678'' \<mapsto> 3]"
  by (simp_all add: shortCounts_def shortID_def)

lemma shortCounts_distinct:
  assumes "distinct (map (\<lambda>kv. shortID (fst kv)) m)"
  shows "shortCounts m = map_of (map (\<lambda>kv. (shortID (fst kv), snd kv)) m)"
proof -
  have "foldl (\<lambda>out kv. out(shortID (fst kv) \<mapsto> snd kv)) f m = f ++ map_of (map (\<lambda>kv. (shortID (fst kv), snd kv)) m)" for f
    using assms
  proof (induction m arbitrary: f)
    case (Cons kv m)
    then have "map_of (map (\<lambda>kv. (shortID (fst kv), snd kv)) m) (shortID (fst kv)) = None"
      by (simp add: map_of_eq_None_iff image_image)
    then show ?case
      using Cons by (auto simp: map_add_def fun_eq_iff split: option.split)
  qed simp
  from this [of Map.empty] show ?thesis by (simp add: shortCounts_def)
qed

subsection \<open>Payout onboarding\<close>

definition createV2RecipientAccount :: "string \<Rightarrow> string \<Rightarrow> account_params" where
  "createV2RecipientAccount label email = \<lparr>ap_DisplayName = label, ap_ContactEmail = email\<rparr>"

definition v2OnboardingLink :: "Config \<Rightarrow> string \<Rightarrow> link_params" where
  "v2OnboardingLink cfg acctID = \<lparr>lk_Account = acctID, lk_RefreshURL = cf_PublicBaseURL cfg @ ''/connect/onboard/refresh?accountId='' @ acctID,
     lk_ReturnURL = cf_PublicBaseURL cfg @ ''/connect/onboard/return?accountId='' @ acctID\<rparr>"

text \<open>The payout route with the parameters it really sends.\<close>

definition payout_connect :: "Config \<Rightarrow> bool \<Rightarrow> (account_params \<Rightarrow> string option) \<Rightarrow> (link_params \<Rightarrow> string option) \<Rightarrow> connectBody option \<Rightarrow> PG \<Rightarrow>
    (string \<times> string) resp \<times> PG" where
  "payout_connect cfg keyed create link =
     adminPayoutConnect keyed (\<lambda>label email. create (createV2RecipientAccount label email)) (\<lambda>acct. link (v2OnboardingLink cfg acct))"

lemma no_match:
  "filter (\<lambda>e. match_segs (pattern_segs (ep_pattern e)) [''connect'', ''onboard'', ''refresh'']) api_routes = []"
  "filter (\<lambda>e. match_segs (pattern_segs (ep_pattern e)) [''connect'', ''onboard'', ''refresh'']) council_routes = []"
  "filter (\<lambda>e. match_segs (pattern_segs (ep_pattern e)) [''connect'', ''onboard'', ''refresh'']) auth_routes = []"
  "filter (\<lambda>e. match_segs (pattern_segs (ep_pattern e)) [''connect'', ''onboard'', ''refresh'']) admin_routes = []"
  by code_simp+

lemma metrics_no_match: "\<not> match_segs (pattern_segs (ep_pattern (metrics_route cfg))) [''connect'', ''onboard'', ''refresh'']"
proof -
  have "\<not> match_segs (pattern_segs ''GET /metrics'') [''connect'', ''onboard'', ''refresh'']" by code_simp
  then show ?thesis by (simp add: metrics_route_def ep_def)
qed

text \<open>The refresh and return addresses handed to Stripe are routes of the Connect sample only: a coordinator that has
  not mounted it, which is the default, answers a provider sent there with 404.\<close>

lemma payout_links_dead:
  assumes "\<not> cf_ConnectDemoEnabled cfg"
  shows "route_request (server_routes cfg accounts) m ''/connect/onboard/refresh'' = NoRoute"
proof -
  have p: "path_segments ''/connect/onboard/refresh'' = [''connect'', ''onboard'', ''refresh'']" by code_simp
  have "filter (\<lambda>e. match_segs (pattern_segs (ep_pattern e)) [''connect'', ''onboard'', ''refresh'']) (server_routes cfg accounts) = []"
    using assms by (simp add: server_routes_def connect_mounted_def no_match metrics_no_match del: filter_False)
  then show ?thesis unfolding route_request_def Let_def p by simp
qed

end
