(* ===== verification/Council_Model.thy ===== *)
theory Council_Model
  imports Council_Props Catalog
begin

text \<open>
  The model seat of the Council (coordinator/internal/council/evaluate.go \<open>ModelReviewer\<close>): the prompt made
  from the structured facts, the request to either model api, the envelope of its answer, and what a
  fourth seat does to the panel. The HTTP client is the argument \<open>http\<close>: the status and the body read up
  to its limit, \<open>None\<close> for an error.
\<close>

subsection \<open>The prompt\<close>

text \<open>\<open>json.Marshal\<close> of the facts fails on a float that is not finite; the error is dropped.\<close>

fun fact_json :: "fact \<Rightarrow> json option" where
  "fact_json (FInt n) = Some (jint_val n)"
| "fact_json (FInt64 n) = Some (jint_val n)"
| "fact_json (FFloat (Fin q)) = Some (JNum q)"
| "fact_json (FFloat _) = None"
| "fact_json (FStr s) = Some (JStr s)"
| "fact_json (FBool b) = Some (JBool b)"
| "fact_json (FNumber (Some n)) = Some (jint_val n)"
| "fact_json (FNumber None) = None"

text \<open>\<open>ks\<close> lists the keys of the map; the text has them sorted.\<close>

definition facts_text :: "(rat \<Rightarrow> string) \<Rightarrow> string list \<Rightarrow> (string \<rightharpoonup> fact) \<Rightarrow> string" where
  "facts_text num ks facts =
    (let vs = map (\<lambda>k. (k, Option.bind (facts k) fact_json)) ks in
     if list_ex (\<lambda>kv. snd kv = None) vs then [] else compact_json num (JObj (map (\<lambda>kv. (fst kv, the (snd kv))) vs)))"

definition line_break :: string where "line_break = [CHR 0x0A]"

definition reviewInstruction :: string where
  \<open>reviewInstruction =
     ''You are one seat on the Ayni Council, reviewing a compute-marketplace workload.'' @ line_break @
     ''You receive STRUCTURED FACTS ONLY '' @ [CHR 0xE2, CHR 0x80, CHR 0x94] @ '' never prompt or completion text.'' @ line_break @
     ''Decide whether Ayni should quote and run this workload.'' @ line_break @
     ''Respond with ONLY a compact JSON object, no prose, with exactly these keys:'' @ line_break @
     ''{"decision":"APPROVE|CONDITIONAL|BLOCK","severity":"LOW|MEDIUM|HIGH|CRITICAL",'' @ line_break @
     '' "confidence":0..1,"attack_scenarios":[],"required_controls":[]}'' @ line_break @
     ''BLOCK only for a concrete abuse or safety concern you can name.''\<close>

record ModelReviewer =
  mr_seat :: string
  mr_role :: string
  mr_api :: string
  mr_key :: string
  mr_modelID :: string

definition NewModelReviewer :: "string \<Rightarrow> string \<Rightarrow> string \<Rightarrow> string \<Rightarrow> string \<Rightarrow> ModelReviewer option" where
  "NewModelReviewer st rl api key modelID = (if api = [] \<or> key = [] \<or> modelID = [] then None
     else Some \<lparr>mr_seat = st, mr_role = rl, mr_api = api, mr_key = key, mr_modelID = modelID\<rparr>)"

definition review_prompt :: "(rat \<Rightarrow> string) \<Rightarrow> string list \<Rightarrow> ModelReviewer \<Rightarrow> ReviewProposal \<Rightarrow> string" where
  "review_prompt num ks m p = reviewInstruction @ line_break @ line_break @ ''seat: '' @ mr_seat m @ line_break @
     ''role: '' @ mr_role m @ line_break @ ''risk_class: '' @ prop_RiskClass p @ line_break @
     ''facts: '' @ facts_text num ks (Facts p)"

subsection \<open>The call\<close>

record model_post =
  mp_url :: string
  mp_headers :: "(string \<times> string) list"
  mp_body :: string

definition model_body :: "(rat \<Rightarrow> string) \<Rightarrow> ModelReviewer \<Rightarrow> string \<Rightarrow> string" where
  "model_body num m prompt = compact_json num (JObj [(''model'', JStr (mr_modelID m)), (''max_tokens'', jint_val 400),
     (''messages'', JArr [JObj [(''role'', JStr ''user''), (''content'', JStr prompt)]])])"

definition anthropic_post :: "(rat \<Rightarrow> string) \<Rightarrow> ModelReviewer \<Rightarrow> string \<Rightarrow> model_post" where
  "anthropic_post num m prompt = \<lparr>mp_url = ''https://api.anthropic.com/v1/messages'',
     mp_headers = [(''x-api-key'', mr_key m), (''anthropic-version'', ''2023-06-01''), (''content-type'', ''application/json'')],
     mp_body = model_body num m prompt\<rparr>"

definition openai_post :: "(rat \<Rightarrow> string) \<Rightarrow> ModelReviewer \<Rightarrow> string \<Rightarrow> model_post" where
  "openai_post num m prompt = \<lparr>mp_url = ''https://api.openai.com/v1/chat/completions'',
     mp_headers = [(''Authorization'', ''Bearer '' @ mr_key m), (''Content-Type'', ''application/json'')],
     mp_body = model_body num m prompt\<rparr>"

text \<open>The envelopes: the first element of a list, down to its text.\<close>

definition first_text :: "string \<Rightarrow> (json \<Rightarrow> string \<Rightarrow> string option) \<Rightarrow> json \<Rightarrow> string option" where
  "first_text k dec j = (case dec_struct [fld k (dec_slice dec []) (\<lambda>x. x) (\<lambda>f. f)] j [] of
     None \<Rightarrow> None | Some [] \<Rightarrow> None | Some (t # _) \<Rightarrow> Some t)"

definition anthropic_text :: "json \<Rightarrow> string option" where
  "anthropic_text = first_text ''content'' (dec_struct [fld ''text'' dec_string (\<lambda>x. x) (\<lambda>f. f)])"

definition openai_text :: "json \<Rightarrow> string option" where
  "openai_text = first_text ''choices''
     (dec_struct [fld ''message'' (dec_struct [fld ''content'' dec_string (\<lambda>x. x) (\<lambda>f. f)]) (\<lambda>x. x) (\<lambda>f. f)])"

definition model_call :: "(model_post \<Rightarrow> (int \<times> string) option) \<Rightarrow> (string \<Rightarrow> json option) \<Rightarrow>
    (json \<Rightarrow> string option) \<Rightarrow> model_post \<Rightarrow> string option" where
  "model_call http parse text_of q = (case http q of None \<Rightarrow> None
     | Some (status, body) \<Rightarrow> if go_div status 100 \<noteq> 2 then None
         else Option.bind (parse (take (2 ^ 20) body)) text_of)"

definition callAnthropic :: "(model_post \<Rightarrow> (int \<times> string) option) \<Rightarrow> (string \<Rightarrow> json option) \<Rightarrow> (rat \<Rightarrow> string) \<Rightarrow>
    ModelReviewer \<Rightarrow> string \<Rightarrow> string option" where
  "callAnthropic http parse num m prompt = model_call http parse anthropic_text (anthropic_post num m prompt)"

definition callOpenAI :: "(model_post \<Rightarrow> (int \<times> string) option) \<Rightarrow> (string \<Rightarrow> json option) \<Rightarrow> (rat \<Rightarrow> string) \<Rightarrow>
    ModelReviewer \<Rightarrow> string \<Rightarrow> string option" where
  "callOpenAI http parse num m prompt = model_call http parse openai_text (openai_post num m prompt)"

text \<open>\<open>Review\<close>: an api that is neither is an error, like a failed call or an answer that does not parse.\<close>

definition model_review :: "(model_post \<Rightarrow> (int \<times> string) option) \<Rightarrow> (string \<Rightarrow> json option) \<Rightarrow> (rat \<Rightarrow> string) \<Rightarrow>
    string list \<Rightarrow> ModelReviewer \<Rightarrow> ReviewProposal \<Rightarrow> Review option" where
  "model_review http parse num ks m p = (let prompt = review_prompt num ks m p in
     Option.bind (if mr_api m = ''anthropic'' then callAnthropic http parse num m prompt
       else if mr_api m = ''openai'' then callOpenAI http parse num m prompt else None) (parseReview parse))"

definition model_seat :: "(model_post \<Rightarrow> (int \<times> string) option) \<Rightarrow> (string \<Rightarrow> json option) \<Rightarrow> (rat \<Rightarrow> string) \<Rightarrow>
    string list \<Rightarrow> ModelReviewer \<Rightarrow> Reviewer" where
  "model_seat http parse num ks m = \<lparr>seat = mr_seat m, role = mr_role m, review = model_review http parse num ks m\<rparr>"

subsection \<open>A fourth seat\<close>

text \<open>The seats the policy leaves out of a panel larger than it asks for.\<close>

definition benched :: "hash_env \<Rightarrow> Policy \<Rightarrow> ReviewProposal \<Rightarrow> Reviewer list \<Rightarrow> string list" where
  "benched e pol p panel = map seat (drop (nat (policy_count pol (prop_RiskClass p))) (sort_by (rank_less e (prop_ID p)) panel))"

lemma select_perm:
  assumes "distinct (map seat panel)" "0 \<le> policy_count pol (prop_RiskClass p)"
  shows "mset (select e pol p panel) = mset (filter (\<lambda>rv. seat rv \<notin> set (benched e pol p panel)) panel)"
proof -
  let ?ys = "sort_by (rank_less e (prop_ID p)) panel" and ?n = "nat (policy_count pol (prop_RiskClass p))"
  let ?out = "set (benched e pol p panel)"
  have perm: "mset ?ys = mset panel" by simp
  then have "mset (map seat ?ys) = mset (map seat panel)" by (simp only: mset_map)
  then have d: "distinct (map seat (take ?n ?ys) @ map seat (drop ?n ?ys))"
    using assms(1) by (metis append_take_drop_id map_append mset_eq_imp_distinct_iff)
  have sel: "select e pol p panel = take ?n ?ys"
    using assms(2) by (auto simp: select_def Let_def)
  have "filter (\<lambda>rv. seat rv \<notin> ?out) ?ys =
      filter (\<lambda>rv. seat rv \<notin> ?out) (take ?n ?ys) @ filter (\<lambda>rv. seat rv \<notin> ?out) (drop ?n ?ys)"
    by (metis append_take_drop_id filter_append)
  also have "filter (\<lambda>rv. seat rv \<notin> ?out) (take ?n ?ys) = take ?n ?ys"
    using d by (auto simp: benched_def intro!: filter_True)
  also have "filter (\<lambda>rv. seat rv \<notin> ?out) (drop ?n ?ys) = []"
    by (auto simp: benched_def intro!: filter_False)
  finally have "take ?n ?ys = filter (\<lambda>rv. seat rv \<notin> ?out) ?ys" by simp
  then show ?thesis unfolding sel by (simp add: mset_filter)
qed

text \<open>What one selected reviewer says, with a failure as its own kind.\<close>

definition says :: "(Review \<Rightarrow> bool) \<Rightarrow> ReviewProposal \<Rightarrow> Reviewer \<Rightarrow> bool" where
  "says P p rv = (case review rv p of None \<Rightarrow> False | Some r \<Rightarrow> P r)"

lemma collect_missing: "snd (collect p rs) = [] \<longleftrightarrow> (\<forall>rv \<in> set rs. review rv p \<noteq> None)"
  by (induction rs) (auto split: prod.splits option.splits)

lemma collect_count:
  assumes "\<And>r a b. P (r\<lparr>rv_Seat := a, rv_Role := b\<rparr>) = P r"
  shows "length (filter P (fst (collect p rs))) = length (filter (says P p) rs)"
  by (induction rs) (auto simp: says_def assms split: prod.splits option.splits)

lemma filter_length_perm: "mset xs = mset ys \<Longrightarrow> length (filter P xs) = length (filter P ys)"
  by (metis mset_filter size_mset)

text \<open>The outcome over any panel with distinct seats.\<close>

lemma Acceptable_panel:
  assumes "distinct (map seat panel)" "0 \<le> policy_count pol (prop_RiskClass p)"
    and sitting: "sitting = filter (\<lambda>rv. seat rv \<notin> set (benched e pol p panel)) panel"
  shows "Acceptable (Some (Evaluate e order now pol panel p)) \<longleftrightarrow>
    (\<forall>rv \<in> set sitting. review rv p \<noteq> None) \<and> int (length (filter (says critical_block p) sitting)) < CriticalBlocks pol
     \<and> int (length (filter (says high_block p) sitting)) < HighBlocks pol"
proof -
  note perm = select_perm [OF assms(1,2), of e, folded sitting]
  let ?sel = "select e pol p panel"
  have "oc_Decision (Evaluate e order now pol panel p) = decide pol (fst (collect p ?sel)) (snd (collect p ?sel))"
    by (simp add: Evaluate_def Let_def split: prod.splits)
  then have "Acceptable (Some (Evaluate e order now pol panel p)) \<longleftrightarrow>
      snd (collect p ?sel) = [] \<and> int (length (filter critical_block (fst (collect p ?sel)))) < CriticalBlocks pol
        \<and> int (length (filter high_block (fst (collect p ?sel)))) < HighBlocks pol"
    by (auto simp: Acceptable_def decide_def count_reviews_filter)
  moreover have "set ?sel = set sitting" using perm by (metis set_mset_mset)
  ultimately show ?thesis
    by (simp add: collect_missing collect_count filter_length_perm [OF perm])
qed

lemma benched_length:
  "length (benched e pol p panel) = length panel - nat (policy_count pol (prop_RiskClass p))"
  by (simp add: benched_def)

text \<open>C31: what the optional model seat does. Exactly one of the four seats is left out of a normal workload's
  panel, none of a high-risk one's. The outcome is acceptable exactly when the model has answered,
  unless it is the seat left out, and at most one of the seats that sit blocks: the critic a
  malformed workload, the cost reviewer a price of zero or less, the model what its answer says.
  So no model can block alone, a silent one blocks wherever it sits, and a critic or cost reviewer
  left out no longer counts.\<close>

theorem model_seat_outcome:
  fixes m :: ModelReviewer
  assumes "NewModelReviewer ''red_team'' ''Red Team Director'' api key modelID = Some m"
    and "p = ForWorkload e jf t model cls tier items pt ct red spot price eta"
    and "panel = server_panel (Some (model_seat http parse num ks m))"
    and "out = benched e DefaultPolicy p panel"
    and "answer = model_review http parse num ks m p"
  shows "length out = (if prop_RiskClass p = RiskHigh then 0 else 1) \<and>
    (Acceptable (Some (Evaluate e order now DefaultPolicy panel p)) \<longleftrightarrow>
      (answer \<noteq> None \<or> ''red_team'' \<in> set out) \<and>
      of_bool (malformed items pt ct red \<and> ''security_critic'' \<notin> set out) +
      of_bool (price \<le> 0 \<and> ''cost_governance'' \<notin> set out) +
      of_bool ((\<exists>r. answer = Some r \<and> high_block r) \<and> ''red_team'' \<notin> set out) < (2 :: int))"
proof -
  obtain a where a: "Deterministic_Review p = Some a" "\<not> critical_block a" "high_block a = malformed items pt ct red"
    using deterministic_verdict [OF assms(2)] by blast
  obtain b where b: "NodeSafety_Review p = Some b" "\<not> critical_block b" "\<not> high_block b"
    using safety_soft by blast
  obtain c where c: "CostGovernance_Review p = Some c" "\<not> critical_block c" "high_block c = (price \<le> 0)"
    using cost_verdict [OF assms(2)] by blast
  have seat: "seat (model_seat http parse num ks m) = ''red_team''" "review (model_seat http parse num ks m) p = answer"
    using assms(1,5) by (auto simp: model_seat_def NewModelReviewer_def split: if_splits)
  have crit: "critical_block r \<Longrightarrow> high_block r" for r by (simp add: critical_block_def high_block_def)
  have risk: "prop_RiskClass p \<in> {RiskHigh, RiskNormal}" by (rule workload_facts(6) [OF assms(2)])
  have ok: "distinct (map seat panel)" "0 \<le> policy_count DefaultPolicy (prop_RiskClass p)"
    by (auto simp: assms(3) server_panel_def seat policy_count_def DefaultPolicy_def)
  have "length out = (if prop_RiskClass p = RiskHigh then 0 else 1)"
    using risk by (auto simp: assms(3,4) benched_length server_panel_def policy_count_def DefaultPolicy_def
      RiskHigh_def RiskNormal_def RiskCritical_def)
  moreover have "Acceptable (Some (Evaluate e order now DefaultPolicy panel p)) \<longleftrightarrow>
      (answer \<noteq> None \<or> ''red_team'' \<in> set out) \<and>
      of_bool (malformed items pt ct red \<and> ''security_critic'' \<notin> set out) +
      of_bool (price \<le> 0 \<and> ''cost_governance'' \<notin> set out) +
      of_bool ((\<exists>r. answer = Some r \<and> high_block r) \<and> ''red_team'' \<notin> set out) < (2 :: int)"
    unfolding Acceptable_panel [OF ok refl] assms(4) [symmetric]
    using a b c crit
    by (cases answer) (auto simp: assms(3) server_panel_def seat says_def DefaultPolicy_def)
  ultimately show ?thesis by blast
qed

definition sample_seat :: ModelReviewer where
  "sample_seat = \<lparr>mr_seat = ''red_team'', mr_role = ''Red Team Director'', mr_api = ''anthropic'', mr_key = ''k'', mr_modelID = ''m''\<rparr>"

definition sample_parse :: "string \<Rightarrow> json option" where
  "sample_parse s = Some (if s = ''ok'' then JObj [(''decision'', JStr ''approve'')]
     else JObj [(''content'', JArr [JObj [(''text'', JStr ''ok'')]])])"

definition sample_model :: Reviewer where
  "sample_model = model_seat (\<lambda>_. Some (200, ''{}'')) sample_parse (\<lambda>_. []) [] sample_seat"

lemma upper_approve: "to_upper ''approve'' = ''APPROVE''"
  by code_simp

lemma sample_model_approves:
  "\<exists>r. model_review (\<lambda>_. Some (200, ''{}'')) sample_parse num [] sample_seat p = Some r \<and> \<not> high_block r"
  by (simp add: model_review_def sample_seat_def callAnthropic_def model_call_def go_div_def anthropic_text_def first_text_def fld_def
      find_field_def sample_parse_def parseReview_def cut_answer_def trim_space_def answer_fields_def Let_def
      parse_verdict_def parse_severity_def mk_review_def high_block_def equal_fold_def upper_approve to_lower_def
      to_lower_char_def is_space_def)

text \<open>With a hash that orders the seats by name the critic is left out: no item at a price of zero, which the
  three deterministic reviewers refuse, passes once the model seat is configured.\<close>

definition plain_hash :: hash_env where
  "plain_hash = \<lparr>he_sha256 = (\<lambda>s. s), he_num = (\<lambda>_. [])\<rparr>"

definition empty_job :: ReviewProposal where
  "empty_job = ForWorkload plain_hash (\<lambda>_. JNull) 0 ''m'' ''SMALL'' ''any'' 0 0 0 1 False 0 0"

lemma str_less_append [simp]: "str_less (s @ a) (s @ b) = str_less a b"
  by (induction s) simp_all

lemma empty_job_normal: "prop_RiskClass empty_job = RiskNormal"
  by (simp add: empty_job_def ForWorkload_def)

lemma critic_benched: "benched plain_hash DefaultPolicy empty_job (server_panel (Some sample_model)) = [''security_critic'']"
proof -
  have "rank_less plain_hash i a b = str_less (seat a) (seat b)" for i a b
    by (simp add: rank_less_def plain_hash_def)
  then show ?thesis
    by (simp add: benched_def empty_job_normal policy_count_def DefaultPolicy_def RiskNormal_def RiskHigh_def RiskCritical_def
        server_panel_def sample_model_def model_seat_def sample_seat_def)
qed

lemma zero_price: "(0 :: f64) \<le> 0"
  by (simp add: f64_eval)

lemma panel_refuses: "\<not> Acceptable (Some (Evaluate plain_hash [] 0 DefaultPolicy (server_panel None) empty_job))"
proof -
  obtain a where a: "Deterministic_Review empty_job = Some a" "high_block a"
    using deterministic_verdict [OF empty_job_def] by (auto simp: malformed_def)
  obtain b where b: "NodeSafety_Review empty_job = Some b" "\<not> high_block b"
    using safety_soft by blast
  obtain c where c: "CostGovernance_Review empty_job = Some c" "high_block c"
    using cost_verdict [OF empty_job_def] zero_price by auto
  have ok: "distinct (map seat (server_panel None))" "0 \<le> policy_count DefaultPolicy (prop_RiskClass empty_job)"
    by (simp_all add: server_panel_def policy_count_def DefaultPolicy_def)
  have "benched plain_hash DefaultPolicy empty_job (server_panel None) = []"
    by (simp add: benched_def empty_job_normal policy_count_def DefaultPolicy_def RiskNormal_def RiskHigh_def RiskCritical_def
        server_panel_def)
  then show ?thesis
    unfolding Acceptable_panel [OF ok refl] using a b c
    by (simp add: server_panel_def says_def DefaultPolicy_def)
qed

lemma model_seat_outcome_witness:
  "Acceptable (Some (Evaluate plain_hash [] 0 DefaultPolicy (server_panel (Some sample_model)) empty_job)) \<and>
   \<not> Acceptable (Some (Evaluate plain_hash [] 0 DefaultPolicy (server_panel None) empty_job))"
proof
  have m: "NewModelReviewer ''red_team'' ''Red Team Director'' ''anthropic'' ''k'' ''m'' = Some sample_seat"
    by (simp add: NewModelReviewer_def sample_seat_def)
  obtain r where "model_review (\<lambda>_. Some (200, ''{}'')) sample_parse (\<lambda>_. []) [] sample_seat empty_job = Some r" "\<not> high_block r"
    using sample_model_approves by blast
  then show "Acceptable (Some (Evaluate plain_hash [] 0 DefaultPolicy (server_panel (Some sample_model)) empty_job))"
    using model_seat_outcome [OF m empty_job_def sample_model_def [THEN arg_cong, of "\<lambda>x. server_panel (Some x)"] refl refl,
        of "[]" 0]
    unfolding critic_benched by simp
qed (rule panel_refuses)

end
