(* ===== verification/Observatory.thy ===== *)
theory Observatory
  imports Council_Ledger Api
begin

text \<open>
  The read side of the Council (council/council.go, council/persist.go), its table of run reviews and
  the restart (api/council_persist.go), and the public routes on it (api/council.go). The text of the
  constitution is an argument.
\<close>

subsection \<open>Views\<close>

record constitution_view =
  cv_version :: string
  cv_digest :: string
  cv_markdown :: string
  cv_principles :: "string list"
  cv_authority :: "string list"

definition Constitution :: "hash_env \<Rightarrow> string \<Rightarrow> constitution_view" where
  "Constitution e md = \<lparr>cv_version = ''0.1'', cv_digest = ConstitutionDigest e md, cv_markdown = md, cv_principles = principles md,
     cv_authority = [''Humans establish legitimate purpose, accept legal accountability, and amend this text.'',
       ''The Ayni Council supplies continuous specialist and adversarial review.'',
       ''Deterministic policy, cryptography, sandboxes, and transactional ledgers enforce rules.'']\<rparr>"

record meeting =
  mt_ID :: string
  mt_ProposalID :: string
  mt_Title :: string
  mt_RiskClass :: string
  mt_State :: string
  mt_Reviewers :: int
  mt_DecisionID :: string
  mt_Votes :: "(string \<times> int) list"
  mt_Dissent :: int

definition demoMeetings :: "meeting list" where
  "demoMeetings =
    [\<lparr>mt_ID = ''mtg-0001'', mt_ProposalID = ''prop-manifest-v1'', mt_Title = ''Adopt signed Workload Manifest v1'',
      mt_RiskClass = ''security_critical'', mt_State = ''SEALED'', mt_Reviewers = 10, mt_DecisionID = ''dec-0001'',
      mt_Votes = demo_vote 9 1, mt_Dissent = 1\<rparr>,
     \<lparr>mt_ID = ''mtg-0002'', mt_ProposalID = ''prop-spot-tier'', mt_Title = ''Enable the spot service class'',
      mt_RiskClass = ''high'', mt_State = ''SEALED'', mt_Reviewers = 5, mt_DecisionID = ''dec-0002'',
      mt_Votes = demo_vote 3 2, mt_Dissent = 0\<rparr>]"

definition Meetings :: "nat \<times> meeting list" where
  "Meetings = (length demoMeetings, demoMeetings)"

definition Meeting :: "string \<Rightarrow> meeting option" where
  "Meeting i = find (\<lambda>m. mt_ID m = i) demoMeetings"

subsection \<open>Run reviews in the database\<close>

record review_row =
  rw_hash :: string
  rw_record :: RunReview
  rw_at :: int

definition SaveRunReview :: "RunReview \<Rightarrow> review_row list \<Rightarrow> review_row list" where
  "SaveRunReview r rows = (if \<exists>w \<in> set rows. rw_hash w = rr_AuditHash r then rows
     else rows @ [\<lparr>rw_hash = rr_AuditHash r, rw_record = r, rw_at = pg_micros (rr_RecordedAt r)\<rparr>])"

definition review_newer :: "review_row \<Rightarrow> review_row \<Rightarrow> bool" where
  "review_newer a b = (rw_at b < rw_at a \<or> rw_at a = rw_at b \<and> str_less (rw_hash b) (rw_hash a))"

definition LoadRunReviews :: "nat \<Rightarrow> review_row list \<Rightarrow> RunReview list" where
  "LoadRunReviews n rows = rev (map rw_record (take n (sort_by review_newer rows)))"

text \<open>The in-process ledger and what is stored of it; \<open>None\<close> as the store is a coordinator without a database, or one
  that could not be reached.\<close>

record observatory =
  ob_recent :: "PublicDecision list"
  ob_reviews :: "RunReview list"

record council_db =
  cd_decisions :: "decision_row list"
  cd_reviews :: "review_row list"

definition new_observatory :: observatory where
  "new_observatory = \<lparr>ob_recent = [], ob_reviews = []\<rparr>"

text \<open>\<open>newCouncilStore\<close>: an empty address, a pool that fails or a failing ping leave the ledger in memory.\<close>

definition newCouncilStore :: "string \<Rightarrow> bool \<Rightarrow> bool \<Rightarrow> council_db \<Rightarrow> council_db option" where
  "newCouncilStore dbURL pool_ok ping_ok db = (if dbURL = [] \<or> \<not> pool_ok \<or> \<not> ping_ok then None else Some db)"

text \<open>The two reads can fail on their own; the flags say which do.\<close>

definition Hydrate :: "council_db option \<Rightarrow> bool \<Rightarrow> bool \<Rightarrow> observatory \<Rightarrow> observatory" where
  "Hydrate persister decisions_ok reviews_ok s = (case persister of None \<Rightarrow> s
   | Some db \<Rightarrow>
      s\<lparr>ob_recent := Hydrate_decisions (if decisions_ok then Some (LoadDecisions maxRecent (cd_decisions db)) else None) (ob_recent s),
        ob_reviews := (if reviews_ok then LoadRunReviews maxRecent (cd_reviews db) else ob_reviews s)\<rparr>)"

text \<open>What happens to the ledger while the coordinator runs: a decision is recorded, a run reviewed. The errors of the
  saves are dropped; the flag of an event is whether its save succeeds.\<close>

datatype ob_event = Decided Outcome string int bool | Reviewed RunStats int bool

fun ob_step :: "hash_env \<Rightarrow> string \<Rightarrow> (f64 \<Rightarrow> string) \<Rightarrow> ob_event \<Rightarrow> observatory \<times> council_db \<Rightarrow> observatory \<times> council_db" where
  "ob_step e md fmt4 (Decided oc title clock saved) (s, db) = (case RecordWorkloadDecision e md oc title (ob_recent s) of
     (r, recent) \<Rightarrow> (s\<lparr>ob_recent := recent\<rparr>, if saved then db\<lparr>cd_decisions := SaveDecision clock r (cd_decisions db)\<rparr> else db))"
| "ob_step e md fmt4 (Reviewed st now saved) (s, db) = (case ReviewRun e fmt4 now st (ob_reviews s) of
     (r, reviews) \<Rightarrow> (s\<lparr>ob_reviews := reviews\<rparr>, if saved then db\<lparr>cd_reviews := SaveRunReview r (cd_reviews db)\<rparr> else db))"

definition ob_run :: "hash_env \<Rightarrow> string \<Rightarrow> (f64 \<Rightarrow> string) \<Rightarrow> ob_event list \<Rightarrow> observatory \<times> council_db \<Rightarrow> observatory \<times> council_db" where
  "ob_run e md fmt4 evs s = foldl (\<lambda>s ev. ob_step e md fmt4 ev s) s evs"

subsection \<open>Routes\<close>

datatype council_body = BodyRoster RosterView | BodyConstitution constitution_view | BodyMeetings "nat \<times> meeting list"
  | BodyMeeting meeting | BodyDecisions DecisionsView | BodyDecision PublicDecision | BodyReviews "nat \<times> RunReview list"

definition councilRoster :: "hash_env \<Rightarrow> council_body resp" where
  "councilRoster e = Reply 200 (BodyRoster (Roster e))"

definition councilConstitution :: "hash_env \<Rightarrow> string \<Rightarrow> council_body resp" where
  "councilConstitution e md = Reply 200 (BodyConstitution (Constitution e md))"

definition councilMeetings :: "council_body resp" where
  "councilMeetings = Reply 200 (BodyMeetings Meetings)"

definition councilMeeting :: "string \<Rightarrow> council_body resp" where
  "councilMeeting i = (case Meeting i of Some m \<Rightarrow> Reply 200 (BodyMeeting m) | None \<Rightarrow> Reject 404 ''not_found'')"

definition councilDecisions :: "hash_env \<Rightarrow> string \<Rightarrow> observatory \<Rightarrow> council_body resp" where
  "councilDecisions e md s = Reply 200 (BodyDecisions (Decisions e md (ob_recent s)))"

definition councilDecision :: "hash_env \<Rightarrow> string \<Rightarrow> observatory \<Rightarrow> string \<Rightarrow> council_body resp" where
  "councilDecision e md s i = (case Decision e md (ob_recent s) i of
     Some d \<Rightarrow> Reply 200 (BodyDecision d) | None \<Rightarrow> Reject 404 ''not_found'')"

definition councilRunReviews :: "observatory \<Rightarrow> council_body resp" where
  "councilRunReviews s = Reply 200 (BodyReviews (RunReviews (ob_reviews s)))"

subsection \<open>A restart\<close>

text \<open>Sorting rows that were inserted in strictly increasing time turns them round.\<close>

lemma insert_by_newest:
  assumes "\<forall>y \<in> set ys. lt y x" "\<forall>y \<in> set ys. \<not> lt x y"
  shows "insert_by lt x ys = ys @ [x]"
  using assms by (induction ys) simp_all

lemma sort_by_rev:
  assumes "sorted_wrt (\<lambda>a b. lt b a \<and> \<not> lt a b) xs"
  shows "sort_by lt xs = rev xs"
  using assms
proof (induction xs)
  case (Cons x xs)
  then show ?case by (simp add: insert_by_newest)
qed simp

lemma rev_take_rev: "rev (take n (rev xs)) = drop (length xs - n) xs"
  by (simp add: take_rev)

lemma cap_recent_drop: "cap_recent xs = drop (length xs - maxRecent) xs"
  by (simp add: cap_recent_def)

text \<open>The rows of a run in which every save succeeds and ids never repeat.\<close>

definition decision_rows :: "PublicDecision list \<Rightarrow> decision_row list" where
  "decision_rows rs = map (\<lambda>r. \<lparr>dr_id = pd_DecisionID r, dr_record = r, dr_at = pg_micros (pd_PublishedAt r * 1000000000)\<rparr>) rs"

text \<open>The order of the two queries, oldest first: the time, then the id.\<close>

definition earlier :: "int \<times> string \<Rightarrow> int \<times> string \<Rightarrow> bool" where
  "earlier a b \<longleftrightarrow> fst a < fst b \<or> fst a = fst b \<and> str_less (snd a) (snd b)"

lemma pg_micros_seconds [simp]: "pg_micros (t * 1000000000) = t * 1000000000"
  by (simp add: pg_micros_def)

lemma pg_micros_less: "pg_micros a < pg_micros b \<longleftrightarrow> a div 1000 < b div 1000" "pg_micros a = pg_micros b \<longleftrightarrow> a div 1000 = b div 1000"
  by (simp_all add: pg_micros_def)

lemma load_decision_rows:
  assumes "sorted_wrt earlier (map (\<lambda>r. (pd_PublishedAt r, pd_DecisionID r)) rs)"
  shows "LoadDecisions n (decision_rows rs) = drop (length rs - n) rs"
proof -
  have "sorted_wrt (\<lambda>a b. row_newer b a \<and> \<not> row_newer a b) (decision_rows rs)"
    using assms by (auto simp: decision_rows_def sorted_wrt_map row_newer_def earlier_def dest: str_less_asym
      elim!: sorted_wrt_mono_rel [rotated])
  then show ?thesis
    by (simp add: LoadDecisions_def sort_by_rev rev_map [symmetric] take_map [symmetric] decision_rows_def comp_def rev_take_rev)
qed

definition review_rows :: "RunReview list \<Rightarrow> review_row list" where
  "review_rows rs = map (\<lambda>r. \<lparr>rw_hash = rr_AuditHash r, rw_record = r, rw_at = pg_micros (rr_RecordedAt r)\<rparr>) rs"

lemma load_review_rows:
  assumes "sorted_wrt earlier (map (\<lambda>r. (rr_RecordedAt r div 1000, rr_AuditHash r)) rs)"
  shows "LoadRunReviews n (review_rows rs) = drop (length rs - n) rs"
proof -
  have "sorted_wrt (\<lambda>a b. review_newer b a \<and> \<not> review_newer a b) (review_rows rs)"
    using assms by (auto simp: review_rows_def sorted_wrt_map review_newer_def earlier_def pg_micros_less dest: str_less_asym
      elim!: sorted_wrt_mono_rel [rotated])
  then show ?thesis
    by (simp add: LoadRunReviews_def sort_by_rev rev_map [symmetric] take_map [symmetric] review_rows_def comp_def rev_take_rev)
qed

text \<open>The decisions and the reviews of a history.\<close>

fun decided :: "ob_event list \<Rightarrow> (Outcome \<times> string) list" where
  "decided [] = []"
| "decided (Decided oc title clock saved # evs) = (oc, title) # decided evs"
| "decided (Reviewed st now saved # evs) = decided evs"

fun reviewed :: "hash_env \<Rightarrow> (f64 \<Rightarrow> string) \<Rightarrow> ob_event list \<Rightarrow> RunReview list" where
  "reviewed e fmt4 [] = []"
| "reviewed e fmt4 (Decided oc title clock saved # evs) = reviewed e fmt4 evs"
| "reviewed e fmt4 (Reviewed st now saved # evs) = fst (ReviewRun e fmt4 now st []) # reviewed e fmt4 evs"

fun ob_saved :: "ob_event \<Rightarrow> bool" where
  "ob_saved (Decided oc title clock saved) = saved"
| "ob_saved (Reviewed st now saved) = saved"

lemma decided_append: "decided (xs @ ys) = decided xs @ decided ys"
  by (induction xs rule: decided.induct) simp_all

lemma reviewed_append: "reviewed e fmt4 (xs @ ys) = reviewed e fmt4 xs @ reviewed e fmt4 ys"
  by (induction xs rule: decided.induct) simp_all

lemma live_chain_snoc: "live_chain e md (os @ [(oc, t)]) =
    live_chain e md os @ [seal e (tip (lastDemoHash e md) (live_chain e md os)) (workload_record e md oc t)]"
  by (simp add: live_chain_def seal_all_append)

lemma live_chain_fields:
  "map pd_DecisionID (live_chain e md os) = map (\<lambda>(oc, t). ''wl-'' @ shortHash e (AuditHash oc)) os"
  "map pd_PublishedAt (live_chain e md os) = map (\<lambda>(oc, t). EvaluatedAt oc div 1000000000) os"
proof -
  have s: "map pd_DecisionID (seal_all e p rs) = map pd_DecisionID rs" "map pd_PublishedAt (seal_all e p rs) = map pd_PublishedAt rs" for p rs
    by (induction rs arbitrary: p) (simp_all add: seal_def Let_def)
  show "map pd_DecisionID (live_chain e md os) = map (\<lambda>(oc, t). ''wl-'' @ shortHash e (AuditHash oc)) os"
    "map pd_PublishedAt (live_chain e md os) = map (\<lambda>(oc, t). EvaluatedAt oc div 1000000000) os"
    by (simp_all add: live_chain_def s comp_def workload_record_def case_prod_beta)
qed

lemma record_cap: "RecordWorkloadDecision e md oc t (cap_recent (live_chain e md os)) =
    (last (live_chain e md (os @ [(oc, t)])), cap_recent (live_chain e md (os @ [(oc, t)])))"
proof -
  have "fst (RecordWorkloadDecision e md oc t (cap_recent (live_chain e md os))) =
      seal e (tip (lastDemoHash e md) (cap_recent (live_chain e md os))) (workload_record e md oc t)"
    by (simp add: RecordWorkloadDecision_def Let_def tip_def)
  then show ?thesis
    using record_step [of e md oc t "live_chain e md os"] by (simp add: live_chain_snoc tip_cap prod_eq_iff)
qed

lemma save_new_decision:
  assumes "pd_DecisionID r \<notin> set (map pd_DecisionID rs)" "0 < pd_PublishedAt r"
  shows "SaveDecision clock r (decision_rows rs) = decision_rows (rs @ [r])"
proof -
  have "dr_id w \<in> set (map pd_DecisionID rs)" if "w \<in> set (decision_rows rs)" for w using that by (auto simp: decision_rows_def)
  then have "\<not> (\<exists>w \<in> set (decision_rows rs). dr_id w = pd_DecisionID r)" using assms(1) by metis
  then show ?thesis using assms(2) by (simp add: SaveDecision_def) (simp add: decision_rows_def)
qed

lemma save_new_review:
  assumes "rr_AuditHash r \<notin> set (map rr_AuditHash rs)"
  shows "SaveRunReview r (review_rows rs) = review_rows (rs @ [r])"
proof -
  have "rw_hash w \<in> set (map rr_AuditHash rs)" if "w \<in> set (review_rows rs)" for w using that by (auto simp: review_rows_def)
  then have "\<not> (\<exists>w \<in> set (review_rows rs). rw_hash w = rr_AuditHash r)" using assms by metis
  then show ?thesis by (simp add: SaveRunReview_def) (simp add: review_rows_def)
qed

lemma review_fst: "ReviewRun e fmt4 now st reviews = (fst (ReviewRun e fmt4 now st []), cap_recent (reviews @ [fst (ReviewRun e fmt4 now st [])]))"
  by (simp add: ReviewRun_def Let_def)

text \<open>A history the database can order: all of it saved, ids that never repeat, and in the order of the
  queries, seconds and decision id, microseconds and audit hash.\<close>

definition orderly :: "hash_env \<Rightarrow> (f64 \<Rightarrow> string) \<Rightarrow> ob_event list \<Rightarrow> bool" where
  "orderly e fmt4 evs \<longleftrightarrow> list_all ob_saved evs \<and>
     distinct (map (\<lambda>(oc, t). shortHash e (AuditHash oc)) (decided evs)) \<and>
     list_all (\<lambda>(oc, t). 0 < EvaluatedAt oc div 1000000000) (decided evs) \<and>
     sorted_wrt earlier (map (\<lambda>(oc, t). (EvaluatedAt oc div 1000000000, ''wl-'' @ shortHash e (AuditHash oc))) (decided evs)) \<and>
     distinct (map rr_AuditHash (reviewed e fmt4 evs)) \<and>
     sorted_wrt earlier (map (\<lambda>r. (rr_RecordedAt r div 1000, rr_AuditHash r)) (reviewed e fmt4 evs))"

definition new_db :: council_db where
  "new_db = \<lparr>cd_decisions = [], cd_reviews = []\<rparr>"

lemma orderly_prefix: "orderly e fmt4 (xs @ ys) \<Longrightarrow> orderly e fmt4 xs"
  by (auto simp: orderly_def decided_append reviewed_append sorted_wrt_append)

lemma ob_run_orderly:
  assumes "orderly e fmt4 evs"
  shows "ob_run e md fmt4 evs (new_observatory, new_db) =
    (\<lparr>ob_recent = cap_recent (live_chain e md (decided evs)), ob_reviews = cap_recent (reviewed e fmt4 evs)\<rparr>,
     \<lparr>cd_decisions = decision_rows (live_chain e md (decided evs)), cd_reviews = review_rows (reviewed e fmt4 evs)\<rparr>)"
  using assms
proof (induction evs rule: rev_induct)
  case Nil
  show ?case by (simp add: ob_run_def new_observatory_def new_db_def live_chain_def cap_recent_def decision_rows_def review_rows_def)
next
  case (snoc ev evs)
  note IH = snoc.IH [OF orderly_prefix [OF snoc.prems]]
  have run: "ob_run e md fmt4 (evs @ [ev]) s = ob_step e md fmt4 ev (ob_run e md fmt4 evs s)" for s
    by (simp add: ob_run_def)
  have saved: "ob_saved ev" using snoc.prems by (simp add: orderly_def)
  show ?case
  proof (cases ev)
    case (Decided oc t clock sv)
    let ?L = "live_chain e md (decided evs)"
    have d: "decided (evs @ [ev]) = decided evs @ [(oc, t)]" "reviewed e fmt4 (evs @ [ev]) = reviewed e fmt4 evs"
      by (simp_all add: Decided decided_append reviewed_append)
    obtain r where r: "live_chain e md (decided evs @ [(oc, t)]) = ?L @ [r]" by (simp add: live_chain_snoc)
    have f: "map pd_DecisionID (?L @ [r]) = map (\<lambda>(oc, t). ''wl-'' @ shortHash e (AuditHash oc)) (decided evs @ [(oc, t)])"
      "map pd_PublishedAt (?L @ [r]) = map (\<lambda>(oc, t). EvaluatedAt oc div 1000000000) (decided evs @ [(oc, t)])"
      unfolding r [symmetric] by (rule live_chain_fields)+
    have "distinct (map (\<lambda>(oc, t). shortHash e (AuditHash oc)) (decided evs @ [(oc, t)]))"
      "0 < EvaluatedAt oc div 1000000000"
      using snoc.prems d by (auto simp: orderly_def)
    then have "pd_DecisionID r \<notin> set (map pd_DecisionID ?L)" "0 < pd_PublishedAt r"
      using f by (auto simp: case_prod_beta)
    then have "SaveDecision clock r (decision_rows ?L) = decision_rows (?L @ [r])" by (rule save_new_decision)
    then show ?thesis
      using saved unfolding run IH d r by (simp add: Decided record_cap r)
  next
    case (Reviewed st now sv)
    let ?r = "fst (ReviewRun e fmt4 now st [])"
    have d: "decided (evs @ [ev]) = decided evs" "reviewed e fmt4 (evs @ [ev]) = reviewed e fmt4 evs @ [?r]"
      by (simp_all add: Reviewed decided_append reviewed_append)
    have "rr_AuditHash ?r \<notin> set (map rr_AuditHash (reviewed e fmt4 evs))"
      using snoc.prems d by (simp add: orderly_def)
    then have "SaveRunReview ?r (review_rows (reviewed e fmt4 evs)) = review_rows (reviewed e fmt4 evs @ [?r])" by (rule save_new_review)
    then show ?thesis
      using saved unfolding run IH d
      by (simp add: Reviewed review_fst [of e fmt4 now st "cap_recent (reviewed e fmt4 evs)"] cap_cap)
  qed
qed

text \<open>C30: a redeploy keeps the observatory. Take a history of decisions and run reviews from an empty
  database that were all stored, under ids that never repeat, each decision in a later second than the one
  before it or in the same second with a greater id, each review in a later microsecond (what the column
  keeps) or in the same one with a greater audit hash. The coordinator that then starts on the same
  database, reaches it and reads both tables, serves the very ledger the old one served, newest fifty of
  each kind in their order, so that the next decision is chained to the real tail. Without the order of
  the ids two decisions of one second may come back swapped (lemma \<open>same_second_swapped\<close>).\<close>

theorem restart_keeps_ledger:
  assumes "orderly e fmt4 evs"
  shows "case ob_run e md fmt4 evs (new_observatory, new_db) of (s, db) \<Rightarrow>
     Hydrate (newCouncilStore (c # dbURL) True True db) True True new_observatory = s"
proof -
  let ?L = "live_chain e md (decided evs)"
  have "map (\<lambda>r. (pd_PublishedAt r, pd_DecisionID r)) ?L = zip (map pd_PublishedAt ?L) (map pd_DecisionID ?L)"
    by (simp add: zip_map_map zip_same_conv_map comp_def)
  also have "\<dots> = map (\<lambda>(oc, t). (EvaluatedAt oc div 1000000000, ''wl-'' @ shortHash e (AuditHash oc))) (decided evs)"
    unfolding live_chain_fields by (simp add: zip_map_map zip_same_conv_map comp_def case_prod_beta)
  finally have "sorted_wrt earlier (map (\<lambda>r. (pd_PublishedAt r, pd_DecisionID r)) ?L)"
    using assms by (simp only: orderly_def)
  moreover have "sorted_wrt earlier (map (\<lambda>r. (rr_RecordedAt r div 1000, rr_AuditHash r)) (reviewed e fmt4 evs))"
    using assms by (simp add: orderly_def)
  ultimately show ?thesis
    unfolding ob_run_orderly [OF assms] prod.case
    by (simp add: Hydrate_def newCouncilStore_def new_observatory_def Hydrate_decisions_def
        load_decision_rows load_review_rows cap_recent_drop)
qed

definition sample_outcome :: "string \<Rightarrow> int \<Rightarrow> Outcome" where
  "sample_outcome h t = \<lparr>oc_ProposalID = ''p'', oc_RiskClass = ''normal'', oc_Decision = Approve, oc_Reviews = [], oc_RequiredControls = [],
     Dissent = [], Missing = [], AuditHash = h, EvaluatedAt = t\<rparr>"

text \<open>Two decisions of one second, with their ids in order.\<close>

lemma restart_keeps_ledger_witness:
  fixes e :: hash_env
  defines "e \<equiv> \<lparr>he_sha256 = id, he_num = (\<lambda>q. ''0'')\<rparr>"
  shows "case ob_run e [] (\<lambda>_. ''0'') [Decided (sample_outcome ''a'' 5000000000) ''first'' 0 True, Reviewed sample_stats 6 True,
       Decided (sample_outcome ''b'' 5000000007) ''second'' 0 True] (new_observatory, new_db) of (s, db) \<Rightarrow>
     Hydrate (newCouncilStore ''db'' True True db) True True new_observatory = s"
proof (rule restart_keeps_ledger)
  show "orderly e (\<lambda>_. ''0'') [Decided (sample_outcome ''a'' 5000000000) ''first'' 0 True, Reviewed sample_stats 6 True,
       Decided (sample_outcome ''b'' 5000000007) ''second'' 0 True]"
    by (simp add: orderly_def sample_outcome_def e_def shortHash_def hex_encode_def hex_digit_def earlier_def)
qed

end
