(* ===== verification/Migrate.thy ===== *)
theory Migrate
  imports Prelude "HOL-Library.Sublist"
begin

text \<open>
  The schema migrations (store/postgres.go \<open>Migrate\<close>): at start-up the coordinator applies the embedded
  SQL files in the order of their names, each in a transaction with the row that records it. What a
  file does to the schema, which may be an error, is the argument \<open>exec\<close>; an attempt may fail at every
  statement, and a commit may take effect although its answer is lost. Postgres runs the attempts of
  several coordinators one after the other (the advisory lock), so a history is a list of attempts.
\<close>

record 's pgdb =
  applied :: "string list"
  schema :: 's

datatype mig_error = AcquireFailed | LockFailed | EnsureFailed | ReadDirFailed | ExistsFailed | ReadFileFailed
  | BeginFailed | ApplyFailed string | InsertFailed | CommitFailed

text \<open>The faults of one attempt: before the files, at a file, and the commits whose answer is lost.\<close>

record faults =
  ft_start :: "mig_error option"
  ft_file :: "string \<Rightarrow> mig_error option"
  ft_lost :: "string \<Rightarrow> bool"

definition migration_names :: "string list \<Rightarrow> string list" where
  "migration_names fs = sort_by str_less (filter (\<lambda>n. suffix ''.sql'' n) fs)"

definition mig_version :: "string \<Rightarrow> string" where
  "mig_version n = take (length n - 4) n"

text \<open>The statements that come before the body of a file, those after it.\<close>

definition mig_before :: "mig_error option \<Rightarrow> bool" where
  "mig_before e = (e = Some ReadFileFailed \<or> e = Some BeginFailed)"

fun migrate_files :: "(string \<Rightarrow> 's \<Rightarrow> 's option) \<Rightarrow> faults \<Rightarrow> string list \<Rightarrow> 's pgdb \<Rightarrow> 's pgdb \<times> mig_error option" where
  "migrate_files exec ft [] db = (db, None)"
| "migrate_files exec ft (n # ns) db =
    (if ft_file ft n = Some ExistsFailed then (db, Some ExistsFailed)
     else if mig_version n \<in> set (applied db) then migrate_files exec ft ns db
     else if mig_before (ft_file ft n) then (db, ft_file ft n)
     else case exec n (schema db) of
       None \<Rightarrow> (db, Some (ApplyFailed n))
     | Some s \<Rightarrow>
         if ft_file ft n \<noteq> None then (db, ft_file ft n)
         else let db' = db\<lparr>applied := applied db @ [mig_version n], schema := s\<rparr> in
           if ft_lost ft n then (db', Some CommitFailed) else migrate_files exec ft ns db')"

definition Migrate :: "(string \<Rightarrow> 's \<Rightarrow> 's option) \<Rightarrow> string list \<Rightarrow> faults \<Rightarrow> 's pgdb \<Rightarrow> 's pgdb \<times> mig_error option" where
  "Migrate exec fs ft db = (case ft_start ft of
     Some e \<Rightarrow> (db, Some e)
   | None \<Rightarrow> migrate_files exec ft (migration_names fs) db)"

definition no_faults :: faults where
  "no_faults = \<lparr>ft_start = None, ft_file = (\<lambda>_. None), ft_lost = (\<lambda>_. False)\<rparr>"

subsection \<open>Where a history of attempts leads\<close>

text \<open>The state after the first files of a list, each applied once, from an empty table.\<close>

fun run_files :: "(string \<Rightarrow> 's \<Rightarrow> 's option) \<Rightarrow> string list \<Rightarrow> 's \<Rightarrow> 's option" where
  "run_files exec [] s = Some s"
| "run_files exec (n # ns) s = Option.bind (exec n s) (run_files exec ns)"

lemma run_files_append: "run_files exec (xs @ ys) s = Option.bind (run_files exec xs s) (run_files exec ys)"
proof (induction xs arbitrary: s)
  case (Cons n xs)
  then show ?case by (cases "exec n s") simp_all
qed simp

definition at_prefix :: "(string \<Rightarrow> 's \<Rightarrow> 's option) \<Rightarrow> string list \<Rightarrow> 's \<Rightarrow> 's pgdb \<Rightarrow> bool" where
  "at_prefix exec ns s0 db \<longleftrightarrow> (\<exists>k \<le> length ns. applied db = map mig_version (take k ns) \<and> run_files exec (take k ns) s0 = Some (schema db))"

lemma mig_version_inj:
  assumes "suffix ''.sql'' a" "suffix ''.sql'' b" "mig_version a = mig_version b"
  shows "a = b"
  using assms by (auto simp: suffix_def mig_version_def)

lemma migration_versions_distinct:
  assumes "distinct fs"
  shows "distinct (map mig_version (migration_names fs))"
proof -
  have "inj_on mig_version (set (migration_names fs))"
    by (rule inj_onI) (auto simp: migration_names_def intro: mig_version_inj)
  then show ?thesis using assms by (simp add: distinct_map migration_names_def)
qed

text \<open>The files before the prefix are passed over.\<close>

lemma migrate_files_skip:
  assumes "\<And>n. n \<in> set xs \<Longrightarrow> mig_version n \<in> set (applied db)"
  shows "migrate_files exec ft (xs @ ys) db =
    (case find (\<lambda>n. ft_file ft n = Some ExistsFailed) xs of Some _ \<Rightarrow> (db, Some ExistsFailed) | None \<Rightarrow> migrate_files exec ft ys db)"
  using assms by (induction xs) auto

lemma migrate_files_prefix:
  assumes "distinct (map mig_version (xs @ ys))" "applied db = map mig_version xs" "run_files exec xs s0 = Some (schema db)"
  shows "at_prefix exec (xs @ ys) s0 (fst (migrate_files exec ft ys db))"
  using assms
proof (induction ys arbitrary: xs db)
  case Nil
  then show ?case by (auto simp: at_prefix_def intro: exI [of _ "length xs"])
next
  case (Cons n ys)
  have here: "at_prefix exec (xs @ n # ys) s0 db"
    unfolding at_prefix_def by (rule exI [of _ "length xs"]) (simp add: Cons.prems)
  have new: "mig_version n \<notin> set (applied db)" using Cons.prems(1,2) by auto
  show ?case
  proof (cases "exec n (schema db)")
    case None
    then show ?thesis using here new by simp
  next
    case (Some s)
    let ?db = "db\<lparr>applied := applied db @ [mig_version n], schema := s\<rparr>"
    have r: "run_files exec (xs @ [n]) s0 = Some s" by (simp add: run_files_append Cons.prems(3) Some)
    have next_prefix: "at_prefix exec (xs @ n # ys) s0 ?db"
      unfolding at_prefix_def by (rule exI [of _ "Suc (length xs)"]) (use r in \<open>simp add: Cons.prems(2)\<close>)
    have "at_prefix exec ((xs @ [n]) @ ys) s0 (fst (migrate_files exec ft ys ?db))"
      by (rule Cons.IH) (use Cons.prems r in simp_all)
    then show ?thesis using here next_prefix new Some by (simp add: Let_def)
  qed
qed

lemma Migrate_prefix:
  assumes "distinct fs" "at_prefix exec (migration_names fs) s0 db"
  shows "at_prefix exec (migration_names fs) s0 (fst (Migrate exec fs ft db))"
proof (cases "ft_start ft")
  case None
  obtain k where k: "applied db = map mig_version (take k (migration_names fs))"
    "run_files exec (take k (migration_names fs)) s0 = Some (schema db)"
    using assms(2) by (auto simp: at_prefix_def)
  let ?xs = "take k (migration_names fs)" and ?ys = "drop k (migration_names fs)"
  have "at_prefix exec (?xs @ ?ys) s0 (fst (migrate_files exec ft ?ys db))"
    by (rule migrate_files_prefix [OF _ k]) (simp add: migration_versions_distinct [OF assms(1)] del: map_append)
  moreover have "migrate_files exec ft (?xs @ ?ys) db =
    (case find (\<lambda>n. ft_file ft n = Some ExistsFailed) ?xs of Some _ \<Rightarrow> (db, Some ExistsFailed) | None \<Rightarrow> migrate_files exec ft ?ys db)"
    by (rule migrate_files_skip) (simp add: k(1))
  ultimately show ?thesis
    using assms(2) None by (auto simp: Migrate_def split: option.splits)
qed (use assms in \<open>simp add: Migrate_def\<close>)

lemma find_no_faults: "find (\<lambda>n. ft_file no_faults n = Some ExistsFailed) xs = None"
  by (simp add: find_None_iff no_faults_def)

lemma healthy_from_prefix:
  assumes "distinct (map mig_version (xs @ ys))" "applied db = map mig_version zs" "schema db = s0" "run_files exec xs s0 = Some s1"
    and "distinct (map mig_version (zs @ xs @ ys))"
  shows "migrate_files exec no_faults (xs @ ys) db =
    migrate_files exec no_faults ys \<lparr>applied = map mig_version (zs @ xs), schema = s1\<rparr>"
  using assms
proof (induction xs arbitrary: zs db s0)
  case Nil
  then show ?case by (cases db) simp
next
  case (Cons n xs)
  obtain s where s: "exec n s0 = Some s" "run_files exec xs s = Some s1"
    using Cons.prems(4) by (auto simp: bind_eq_Some_conv)
  have new: "mig_version n \<notin> set (applied db)" using Cons.prems(2,5) by auto
  have "migrate_files exec no_faults (xs @ ys) (db\<lparr>applied := applied db @ [mig_version n], schema := s\<rparr>) =
     migrate_files exec no_faults ys \<lparr>applied = map mig_version ((zs @ [n]) @ xs), schema = s1\<rparr>"
    by (rule Cons.IH) (use Cons.prems s in simp_all)
  then show ?case
    using new s Cons.prems(3) by (simp add: no_faults_def mig_before_def Let_def)
qed

text \<open>C29: after any number of start-ups that failed anywhere, commits with a lost answer included, the
  migration table lists the files applied so far as a prefix of their order, each run exactly once,
  and the next start-up without a fault ends in the very state, or with the very error of a file,
  that a single faultless start-up of an empty database ends in.\<close>

theorem migrations_converge:
  assumes "distinct fs"
  shows "case foldl (\<lambda>d ft. fst (Migrate exec fs ft d)) \<lparr>applied = [], schema = s0\<rparr> attempts of db \<Rightarrow>
     at_prefix exec (migration_names fs) s0 db \<and> Migrate exec fs no_faults db = Migrate exec fs no_faults \<lparr>applied = [], schema = s0\<rparr>"
proof -
  let ?db = "foldl (\<lambda>d ft. fst (Migrate exec fs ft d)) \<lparr>applied = [], schema = s0\<rparr> attempts"
  have p: "at_prefix exec (migration_names fs) s0 ?db"
  proof (induction attempts rule: rev_induct)
    case Nil
    show ?case by (auto simp: at_prefix_def intro: exI [of _ 0])
  next
    case (snoc ft attempts)
    then show ?case by (simp add: Migrate_prefix [OF assms])
  qed
  then obtain k where k: "applied ?db = map mig_version (take k (migration_names fs))"
    "run_files exec (take k (migration_names fs)) s0 = Some (schema ?db)"
    by (auto simp: at_prefix_def)
  let ?xs = "take k (migration_names fs)" and ?ys = "drop k (migration_names fs)"
  have d: "distinct (map mig_version (?xs @ ?ys))" by (simp add: migration_versions_distinct [OF assms] del: map_append)
  have "migrate_files exec no_faults (?xs @ ?ys) ?db = migrate_files exec no_faults ?ys ?db"
    by (subst migrate_files_skip) (simp_all add: k(1) find_no_faults)
  moreover have "migrate_files exec no_faults (?xs @ ?ys) \<lparr>applied = [], schema = s0\<rparr> =
      migrate_files exec no_faults ?ys \<lparr>applied = map mig_version ([] @ ?xs), schema = schema ?db\<rparr>"
    by (rule healthy_from_prefix [OF d _ _ k(2)]) (use d in simp_all)
  moreover have "?db = \<lparr>applied = map mig_version ([] @ ?xs), schema = schema ?db\<rparr>" using k(1) by (cases ?db) simp
  ultimately have "migrate_files exec no_faults (?xs @ ?ys) ?db = migrate_files exec no_faults (?xs @ ?ys) \<lparr>applied = [], schema = s0\<rparr>"
    by metis
  then show ?thesis using p by (simp add: Migrate_def no_faults_def)
qed

lemma migrations_converge_witness:
  "Migrate (\<lambda>n s. Some (n # s)) [''0002_b.sql'', ''migrations.go'', ''0001_a.sql''] no_faults
     (foldl (\<lambda>d ft. fst (Migrate (\<lambda>n s. Some (n # s)) [''0002_b.sql'', ''migrations.go'', ''0001_a.sql''] ft d)) \<lparr>applied = [], schema = []\<rparr>
       [no_faults\<lparr>ft_lost := \<lambda>n. n = ''0001_a.sql''\<rparr>, no_faults\<lparr>ft_file := \<lambda>_. Some BeginFailed\<rparr>]) =
   (\<lparr>applied = [''0001_a'', ''0002_b''], schema = [''0002_b.sql'', ''0001_a.sql'']\<rparr>, None)"
proof -
  let ?exec = "\<lambda>n s. Some (n # s)" and ?fs = "[''0002_b.sql'', ''migrations.go'', ''0001_a.sql'']"
  have "Migrate ?exec ?fs no_faults \<lparr>applied = [], schema = []\<rparr> =
      (\<lparr>applied = [''0001_a'', ''0002_b''], schema = [''0002_b.sql'', ''0001_a.sql'']\<rparr>, None)"
    by (simp add: Migrate_def migration_names_def no_faults_def mig_version_def mig_before_def suffix_def Let_def)
  moreover have "distinct ?fs" by simp
  from migrations_converge [OF this, of ?exec "[]"] have "Migrate ?exec ?fs no_faults
     (foldl (\<lambda>d ft. fst (Migrate ?exec ?fs ft d)) \<lparr>applied = [], schema = []\<rparr> attempts) = Migrate ?exec ?fs no_faults \<lparr>applied = [], schema = []\<rparr>"
    for attempts by simp
  ultimately show ?thesis by (simp only:)
qed

end
