(* ===== verification/Startup.thy ===== *)
theory Startup
  imports Council_Model Observatory Migrate Runs Console
begin

text \<open>
  Starting the coordinator (cmd/coordinator/main.go, api/server.go \<open>NewServer\<close>, manifest/kms.go
  \<open>NewKMSSigner\<close>): the configuration, the store with its migrations, the catalog, the manifest signer,
  the reviewers, the ledger and the limiters, in the order of the code, and the signing key published
  at /v1/manifest-key. What Cloud KMS, the database and the listener answer are arguments.
\<close>

subsection \<open>The KMS signer\<close>

datatype kms_error = KmsName | KmsClient | KmsGetKey | KmsAlgorithm string | KmsPEM | KmsParse | KmsNotEd25519

text \<open>A parsed public key: an Ed25519 key, or one of another kind.\<close>

datatype pkix_key = EdKey string | OtherKey

record kms_env =
  km_client :: bool
  km_get :: "string \<Rightarrow> (string \<times> string) option"
  km_pem :: "string \<Rightarrow> string option"
  km_pkix :: "string \<Rightarrow> pkix_key option"
  km_sign :: "string \<Rightarrow> string \<Rightarrow> string option"

definition NewKMSSigner :: "kms_env \<Rightarrow> string \<Rightarrow> string \<Rightarrow> kms_error + KMSSigner" where
  "NewKMSSigner e i keyVersion =
    (if \<not> contains keyVersion ''/cryptoKeyVersions/'' then Inl KmsName
     else (let i = (if i = [] then ''signer-kms-v1'' else i) in
       if \<not> km_client e then Inl KmsClient
       else case km_get e keyVersion of None \<Rightarrow> Inl KmsGetKey
        | Some (alg, pem) \<Rightarrow>
            if alg \<noteq> ''EC_SIGN_ED25519'' then Inl (KmsAlgorithm alg)
            else case km_pem e pem of None \<Rightarrow> Inl KmsPEM
             | Some der \<Rightarrow> (case km_pkix e der of None \<Rightarrow> Inl KmsParse
                | Some OtherKey \<Rightarrow> Inl KmsNotEd25519
                | Some (EdKey raw) \<Rightarrow> Inr \<lparr>ks_id = i, ks_pub = raw\<rparr>)))"

text \<open>\<open>manifest.Signer\<close>: the local key or the remote one.\<close>

datatype 'key Signer = LocalS "'key LocalSigner" | KmsS KMSSigner

fun Signer_ID :: "'key Signer \<Rightarrow> string" where
  "Signer_ID (LocalS s) = ls_id s"
| "Signer_ID (KmsS k) = ks_id k"

fun Signer_PublicKeyB64 :: "'key Signer \<Rightarrow> string" where
  "Signer_PublicKeyB64 (LocalS s) = PublicKeyB64 s"
| "Signer_PublicKeyB64 (KmsS k) = b64_encode (ks_pub k)"

record 'key sign_env =
  sg_seed :: "string \<Rightarrow> 'key"
  sg_public :: "'key \<Rightarrow> string"
  sg_sign :: "'key \<Rightarrow> string \<Rightarrow> string"
  sg_verify :: "string \<Rightarrow> string \<Rightarrow> string \<Rightarrow> bool"
  sg_kms :: kms_env

fun Signer_Sign :: "'key sign_env \<Rightarrow> string \<Rightarrow> 'key Signer \<Rightarrow> WorkloadManifest \<Rightarrow> manifest_error + SignedManifest" where
  "Signer_Sign e kv (LocalS s) m = Sign (sg_sign e) s m"
| "Signer_Sign e kv (KmsS k) m = KMS_Sign (km_sign (sg_kms e) kv) (sg_verify e) k m"

text \<open>The choice of \<open>NewServer\<close>: an error is logged and leaves signing off; with a KMS key configured the local
  key is not looked at.\<close>

definition server_signer :: "'key sign_env \<Rightarrow> Config \<Rightarrow> 'key Signer option" where
  "server_signer e cfg =
    (if cf_ManifestKMSKey cfg \<noteq> [] then
       (case NewKMSSigner (sg_kms e) (cf_ManifestSignerID cfg) (cf_ManifestKMSKey cfg) of
          Inl _ \<Rightarrow> None | Inr k \<Rightarrow> Some (KmsS k))
     else
       (case NewSigner (sg_seed e) (sg_public e) (cf_ManifestSignerID cfg) (cf_ManifestSigningKey cfg) of
          Inl _ \<Rightarrow> None | Inr s \<Rightarrow> map_option LocalS s))"

record manifest_key =
  mk_signer_id :: string
  mk_public_key :: string
  mk_algorithm :: string
  mk_version :: int

definition handleManifestKey :: "'key Signer option \<Rightarrow> manifest_key resp" where
  "handleManifestKey signer = (case signer of None \<Rightarrow> Reject 404 ''not_enabled''
     | Some s \<Rightarrow> Reply 200 \<lparr>mk_signer_id = Signer_ID s, mk_public_key = Signer_PublicKeyB64 s,
         mk_algorithm = ''ed25519'', mk_version = Version_v1\<rparr>)"

subsection \<open>The server\<close>

text \<open>The store: Postgres with the tables it finds, or memory.\<close>

datatype any_store = InPG PG | InMem Mem

record boot_env =
  be_getenv :: "string \<Rightarrow> string"
  be_parseF :: "string \<Rightarrow> f64 option"
  be_pg :: bool
  be_files :: "string list"
  be_faults :: faults
  be_auth :: bool
  be_council :: "bool \<times> bool"
  be_load :: "bool \<times> bool"
  be_model :: "model_post \<Rightarrow> (int \<times> string) option"

text \<open>What outlives a process: the migration table and schema, the rows of the store, the rows of the ledger.\<close>

record 's disk =
  dk_schema :: "'s pgdb"
  dk_pg :: PG
  dk_council :: council_db

record 'key Server =
  srv_cfg :: Config
  srv_store :: any_store
  srv_cat :: Catalog
  srv_rl :: Limiter
  srv_intakeRL :: Limiter
  srv_demoRL :: Limiter
  srv_stripe :: "string option"
  srv_quotes :: "Outcome QuoteStore"
  srv_runs :: runRegistry
  srv_signer :: "'key Signer option"
  srv_auth :: "Auth option"
  srv_council :: "Reviewer list"
  srv_councilDB :: "council_db option"
  srv_ledger :: observatory
  srv_intake :: intakeState

definition newStripeClient :: "string \<Rightarrow> string option" where
  "newStripeClient key = (if key = [] then None else Some key)"

definition auth_config :: "Config \<Rightarrow> AuthConfig" where
  "auth_config cfg = \<lparr>GitHubClientID = cf_GitHubClientID cfg, GitHubSecret = cf_GitHubClientSecret cfg,
     GoogleClientID = cf_GoogleClientID cfg, GoogleSecret = cf_GoogleClientSecret cfg,
     CallbackBase = cf_AuthCallbackBase cfg, AppURL = cf_AppURL cfg, CookieDomain = cf_CookieDomain cfg, Secure = True\<rparr>"

definition server_auth :: "boot_env \<Rightarrow> Config \<Rightarrow> Auth option" where
  "server_auth b cfg = (case New_auth (cf_DatabaseURL cfg) (auth_config cfg) (be_auth b) of Inl _ \<Rightarrow> None | Inr au \<Rightarrow> au)"

text \<open>\<open>parse\<close>, \<open>num\<close> and \<open>ks\<close>: the JSON parser, the text of a number and the order of a map's keys, for the model seat.\<close>

definition server_council :: "(string \<Rightarrow> json option) \<Rightarrow> (rat \<Rightarrow> string) \<Rightarrow> string list \<Rightarrow> boot_env \<Rightarrow> Config \<Rightarrow> Reviewer list" where
  "server_council parse num ks b cfg = server_panel (map_option (model_seat (be_model b) parse num ks)
     (NewModelReviewer ''red_team'' ''Red Team Director'' (cf_CouncilModelAPI cfg) (cf_CouncilModelKey cfg) (cf_CouncilModelID cfg)))"

definition NewServer :: "(string \<Rightarrow> json option) \<Rightarrow> (rat \<Rightarrow> string) \<Rightarrow> string list \<Rightarrow> 'key sign_env \<Rightarrow> boot_env \<Rightarrow>
    Config \<Rightarrow> any_store \<Rightarrow> Catalog \<Rightarrow> council_db \<Rightarrow> 'key Server" where
  "NewServer parse num ks e b cfg st cat db =
    (let councilDB = newCouncilStore (cf_DatabaseURL cfg) (fst (be_council b)) (snd (be_council b)) db in
     \<lparr>srv_cfg = cfg, srv_store = st, srv_cat = cat,
      srv_rl = New_limiter (cf_RatePerMin cfg), srv_intakeRL = New_limiter 6, srv_demoRL = New_limiter 3,
      srv_stripe = newStripeClient (cf_StripeSecretKey cfg),
      srv_quotes = NewQuoteStore (wrap64 (cf_QuoteTTLSeconds cfg * 1000000000)),
      srv_runs = newRunRegistry, srv_signer = server_signer e cfg, srv_auth = server_auth b cfg,
      srv_council = server_council parse num ks b cfg, srv_councilDB = councilDB,
      srv_ledger = Hydrate councilDB (fst (be_load b)) (snd (be_load b)) new_observatory,
      srv_intake = \<lparr>in_paused = False, in_message = [], in_since = 0\<rparr>\<rparr>)"

subsection \<open>The process\<close>

datatype start_error = ConfigE config_error | DatabaseE | MigrateE mig_error | CatalogE catalog_error

text \<open>The bootstrap keys and tokens are read again at every start; the tables stay.\<close>

definition open_pg :: "(string \<Rightarrow> string) \<Rightarrow> Config \<Rightarrow> PG \<Rightarrow> PG" where
  "open_pg sha256 cfg p = p\<lparr>bootstrapKey := (\<lambda>k. if k \<in> cf_ConsumerAPIKeys cfg then Some (keyID sha256 k) else None),
     bootstrapTok := cf_ProviderRegistrationTokens cfg\<rparr>"

definition open_mem :: "(string \<Rightarrow> string) \<Rightarrow> Config \<Rightarrow> Mem" where
  "open_mem sha256 cfg = (NewMem sha256 [] [])
     \<lparr>keys := (\<lambda>k. if k \<in> cf_ConsumerAPIKeys cfg then Some (keyID sha256 k) else None),
      Mem.tokens := cf_ProviderRegistrationTokens cfg\<rparr>"

definition open_store :: "(string \<Rightarrow> string) \<Rightarrow> (string \<Rightarrow> 's \<Rightarrow> 's option) \<Rightarrow> boot_env \<Rightarrow> Config \<Rightarrow> 's disk \<Rightarrow>
    's disk \<times> (start_error + any_store)" where
  "open_store sha256 exec b cfg dk =
    (if cf_DatabaseURL cfg = [] then (dk, Inr (InMem (open_mem sha256 cfg)))
     else if \<not> be_pg b then (dk, Inl DatabaseE)
     else case Migrate exec (be_files b) (be_faults b) (dk_schema dk) of
       (db, Some err) \<Rightarrow> (dk\<lparr>dk_schema := db\<rparr>, Inl (MigrateE err))
     | (db, None) \<Rightarrow> (dk\<lparr>dk_schema := db\<rparr>, Inr (InPG (open_pg sha256 cfg (dk_pg dk)))))"

text \<open>\<open>main\<close> up to the listener; \<open>Inl\<close>: the process exits with status 1.\<close>

definition coordinator_main :: "(string \<Rightarrow> string) \<Rightarrow> (string \<Rightarrow> json option) \<Rightarrow> (rat \<Rightarrow> string) \<Rightarrow> string list \<Rightarrow> 'key sign_env \<Rightarrow>
    (string \<Rightarrow> 's \<Rightarrow> 's option) \<Rightarrow> boot_env \<Rightarrow> 's disk \<Rightarrow> 's disk \<times> (start_error + 'key Server)" where
  "coordinator_main sha256 parse num ks e exec b dk = (case Load (be_parseF b) (be_getenv b) of
     Inl err \<Rightarrow> (dk, Inl (ConfigE err))
   | Inr cfg \<Rightarrow> (case open_store sha256 exec b cfg dk of
       (dk', Inl err) \<Rightarrow> (dk', Inl err)
     | (dk', Inr st) \<Rightarrow> (case NewCatalog (cf_ManifestURL cfg) (cf_RegistryPubKey cfg) of
         Inl err \<Rightarrow> (dk', Inl (CatalogE err))
       | Inr cat \<Rightarrow> (dk', Inr (NewServer parse num ks e b cfg st cat (dk_council dk'))))))"

subsection \<open>The published key\<close>

lemma server_signer_cases:
  assumes "server_signer e cfg = Some s"
  shows "(\<exists>k. s = KmsS k \<and> cf_ManifestKMSKey cfg \<noteq> []) \<or>
    (\<exists>l. s = LocalS l \<and> cf_ManifestKMSKey cfg = [] \<and> (\<exists>seed. ls_key l = sg_seed e seed) \<and> ls_pub l = sg_public e (ls_key l))"
  using assms by (auto simp: server_signer_def NewSigner_def Let_def split: if_splits sum.splits option.splits)

lemma prepare_stamp: "prepare m = Inr (m', cb) \<Longrightarrow> m' = stamp m \<and> cb = canonicalBytes (stamp m)"
  by (auto simp: prepare_def Let_def split: option.splits)

text \<open>The interface \<open>manifest.Signer\<close>: what the relay and a node rely on, whoever holds the key.\<close>

locale signer =
  fixes sign :: "WorkloadManifest \<Rightarrow> manifest_error + SignedManifest"
    and ident :: string and raw :: string and verify :: "string \<Rightarrow> string \<Rightarrow> string \<Rightarrow> bool"
  assumes sign_ok: "sign m = Inr sm \<Longrightarrow> \<exists>sig. sm = \<lparr>sm_Manifest = stamp m, SignerID = ident, Signature = b64_encode sig\<rparr> \<and>
      length sig = 64 \<and> verify raw (canonicalBytes (stamp m)) sig"
begin

lemma signed_under_key:
  assumes "sign m = Inr sm"
  shows "sm_Manifest sm = stamp m \<and> SignerID sm = ident \<and>
    (\<exists>key sig. b64_decode (b64_encode raw) = Some key \<and> b64_decode (Signature sm) = Some sig \<and>
       length sig = 64 \<and> verify key (canonicalBytes (sm_Manifest sm)) sig)"
  using sign_ok [OF assms] by (auto simp: b64_roundtrip)

end

text \<open>The remote key is checked before its signature is trusted, so it keeps the contract whatever it answers.\<close>

interpretation kms: signer "KMS_Sign answer ed_verify k" "ks_id k" "ks_pub k" ed_verify for answer ed_verify k
  by unfold_locales (auto simp: KMS_Sign_def dest!: prepare_stamp split: sum.splits option.splits if_splits)

lemma local_signer:
  assumes "\<And>msg. ed_verify (ls_pub s) msg (ed_sign (ls_key s) msg)" "\<And>msg. length (ed_sign (ls_key s) msg) = 64"
  shows "signer (Sign ed_sign s) (ls_id s) (ls_pub s) ed_verify"
  by unfold_locales (use assms in \<open>auto simp: Sign_def Let_def dest!: prepare_stamp split: sum.splits\<close>)

text \<open>C32: whoever pins the key the coordinator publishes can check what it signs. Whatever is configured, a
  manifest the server's signer has signed is the job's own with the version, operation and network
  policy stamped, names the published signer, and its signature of 64 bytes verifies under the
  published key over the canonical text; with signing off there is no key to pin, the route
  answers 404. Ed25519 verifying its own signatures of 64 bytes is the hypothesis.\<close>

theorem published_key_verifies:
  assumes "\<And>seed msg. sg_verify e (sg_public e (sg_seed e seed)) msg (sg_sign e (sg_seed e seed) msg)"
    and "\<And>key msg. length (sg_sign e key msg) = 64"
  shows "case server_signer e cfg of None \<Rightarrow> handleManifestKey (server_signer e cfg) = Reject 404 ''not_enabled''
    | Some s \<Rightarrow> (\<exists>v. handleManifestKey (server_signer e cfg) = Reply 200 v \<and>
        (\<forall>kv m sm. Signer_Sign e kv s m = Inr sm \<longrightarrow> sm_Manifest sm = stamp m \<and> SignerID sm = mk_signer_id v \<and>
           (\<exists>key sig. b64_decode (mk_public_key v) = Some key \<and> b64_decode (Signature sm) = Some sig \<and>
              length sig = 64 \<and> sg_verify e key (canonicalBytes (sm_Manifest sm)) sig)))"
proof (cases "server_signer e cfg")
  case None
  then show ?thesis by (simp add: handleManifestKey_def)
next
  case (Some s)
  have K: "sm_Manifest sm = stamp m \<and> SignerID sm = Signer_ID s \<and>
      (\<exists>key sig. b64_decode (Signer_PublicKeyB64 s) = Some key \<and> b64_decode (Signature sm) = Some sig \<and>
              length sig = 64 \<and> sg_verify e key (canonicalBytes (sm_Manifest sm)) sig)"
    if signed: "Signer_Sign e kv s m = Inr sm" for kv m sm
    using server_signer_cases [OF Some]
  proof
    assume "\<exists>k. s = KmsS k \<and> cf_ManifestKMSKey cfg \<noteq> []"
    then obtain k where k: "s = KmsS k" by blast
    then have "KMS_Sign (km_sign (sg_kms e) kv) (sg_verify e) k m = Inr sm" using signed by simp
    then show ?thesis unfolding k Signer_ID.simps Signer_PublicKeyB64.simps by (rule kms.signed_under_key)
  next
    assume "\<exists>l. s = LocalS l \<and> cf_ManifestKMSKey cfg = [] \<and> (\<exists>seed. ls_key l = sg_seed e seed) \<and> ls_pub l = sg_public e (ls_key l)"
    then obtain l seed where l: "s = LocalS l" "ls_key l = sg_seed e seed" "ls_pub l = sg_public e (sg_seed e seed)" by auto
    have "signer (Sign (sg_sign e) l) (ls_id l) (ls_pub l) (sg_verify e)"
      by (rule local_signer) (simp_all add: l assms)
    moreover have "Sign (sg_sign e) l m = Inr sm" using signed l(1) by simp
    ultimately show ?thesis
      unfolding l(1) Signer_ID.simps Signer_PublicKeyB64.simps PublicKeyB64_def by (rule signer.signed_under_key)
  qed
  show ?thesis
    unfolding Some option.case handleManifestKey_def
    by (rule exI, rule conjI, rule refl) (simp only: manifest_key.select_convs, use K in blast)
qed

subsection \<open>What a serving coordinator stands on\<close>

lemma migrate_files_complete:
  "snd (migrate_files exec ft ns db) = None \<Longrightarrow>
   set (map mig_version ns) \<union> set (applied db) \<subseteq> set (applied (fst (migrate_files exec ft ns db)))"
proof (induction ns arbitrary: db)
  case (Cons n ns)
  show ?case
  proof (cases "mig_version n \<in> set (applied db)")
    case True
    with Cons.prems have "migrate_files exec ft (n # ns) db = migrate_files exec ft ns db"
      by (simp split: if_splits)
    with True Cons.IH [of db] Cons.prems show ?thesis by auto
  next
    case False
    with Cons.prems obtain s where "exec n (schema db) = Some s" and
      step: "migrate_files exec ft (n # ns) db = migrate_files exec ft ns (db\<lparr>applied := applied db @ [mig_version n], schema := s\<rparr>)"
      by (simp add: Let_def mig_before_def split: if_splits option.splits)
    then show ?thesis
      using Cons.IH [of "db\<lparr>applied := applied db @ [mig_version n], schema := s\<rparr>"] Cons.prems unfolding step by auto
  qed
qed simp

lemma take_all_versions:
  assumes "distinct ns" "set ns \<subseteq> set (take k ns)" "k \<le> length ns"
  shows "k = length ns"
proof -
  have "card (set ns) \<le> card (set (take k ns))" by (rule card_mono) (use assms in auto)
  then show ?thesis using assms by (auto simp: distinct_card min_def split: if_splits)
qed

lemma migrate_success:
  assumes "distinct fs" "at_prefix exec (migration_names fs) s0 db" "Migrate exec fs ft db = (db', None)"
  shows "applied db' = map mig_version (migration_names fs) \<and> run_files exec (migration_names fs) s0 = Some (schema db')"
proof -
  let ?ns = "migration_names fs"
  have "fst (migrate_files exec ft ?ns db) = db'" "snd (migrate_files exec ft ?ns db) = None"
    using assms(3) by (simp_all add: Migrate_def split: option.splits)
  with migrate_files_complete [of exec ft ?ns db]
  have all: "set (map mig_version ?ns) \<subseteq> set (applied db')" by simp
  have "at_prefix exec ?ns s0 db'"
    using Migrate_prefix [OF assms(1,2), of ft] assms(3) by simp
  then obtain k where k: "k \<le> length ?ns" "applied db' = map mig_version (take k ?ns)" "run_files exec (take k ?ns) s0 = Some (schema db')"
    by (auto simp: at_prefix_def)
  have "k = length (map mig_version ?ns)"
    by (rule take_all_versions) (use all k migration_versions_distinct [OF assms(1)] in \<open>simp_all add: take_map\<close>)
  with k show ?thesis by simp
qed

text \<open>The disk over the life of a deployment: starts that serve or fail at any point, and in between
  whatever the running coordinators write to the rows.\<close>

inductive deployed :: "(string \<Rightarrow> string) \<Rightarrow> (string \<Rightarrow> json option) \<Rightarrow> (rat \<Rightarrow> string) \<Rightarrow> string list \<Rightarrow> 'key sign_env \<Rightarrow>
    (string \<Rightarrow> 's \<Rightarrow> 's option) \<Rightarrow> string list \<Rightarrow> 's \<Rightarrow> 's disk \<Rightarrow> bool"
  for sha256 :: "string \<Rightarrow> string" and parse :: "string \<Rightarrow> json option" and num :: "rat \<Rightarrow> string" and ks :: "string list"
    and e :: "'key sign_env" and exec :: "string \<Rightarrow> 's \<Rightarrow> 's option" and fs :: "string list" and s0 :: 's where
  Fresh: "deployed sha256 parse num ks e exec fs s0 \<lparr>dk_schema = \<lparr>applied = [], schema = s0\<rparr>, dk_pg = p, dk_council = c\<rparr>"
| Boot: "deployed sha256 parse num ks e exec fs s0 dk \<Longrightarrow> be_files b = fs \<Longrightarrow>
    deployed sha256 parse num ks e exec fs s0 (fst (coordinator_main sha256 parse num ks e exec b dk))"
| Work: "deployed sha256 parse num ks e exec fs s0 dk \<Longrightarrow>
    deployed sha256 parse num ks e exec fs s0 (dk\<lparr>dk_pg := p, dk_council := c\<rparr>)"

lemma main_schema:
  "dk_schema (fst (coordinator_main sha256 parse num ks e exec b dk)) \<in>
   {dk_schema dk, fst (Migrate exec (be_files b) (be_faults b) (dk_schema dk))}"
  by (auto simp: coordinator_main_def open_store_def split: sum.splits prod.splits option.splits if_splits)

lemma deployed_prefix:
  assumes "distinct fs" "deployed sha256 parse num ks e exec fs s0 dk"
  shows "at_prefix exec (migration_names fs) s0 (dk_schema dk)"
  using assms(2)
proof (induction rule: deployed.induct)
  case (Fresh p c)
  show ?case by (auto simp: at_prefix_def intro: exI [of _ 0])
next
  case (Boot dk b)
  have "dk_schema (fst (coordinator_main sha256 parse num ks e exec b dk)) = dk_schema dk \<or>
      dk_schema (fst (coordinator_main sha256 parse num ks e exec b dk)) = fst (Migrate exec fs (be_faults b) (dk_schema dk))"
    using main_schema [of sha256 parse num ks e exec b dk] Boot.hyps(2) by simp
  then show ?case using Boot.IH Migrate_prefix [OF assms(1) Boot.IH] by auto
next
  case (Work dk p c)
  then show ?case by simp
qed

lemma main_serving:
  assumes "coordinator_main sha256 parse num ks e exec b dk = (dk', Inr s)"
  obtains cfg st cat where "Load (be_parseF b) (be_getenv b) = Inr cfg" "open_store sha256 exec b cfg dk = (dk', Inr st)"
    "NewCatalog (cf_ManifestURL cfg) (cf_RegistryPubKey cfg) = Inr cat"
    "s = NewServer parse num ks e b cfg st cat (dk_council dk')"
  using assms by (auto simp: coordinator_main_def split: sum.splits prod.splits)

lemma open_store_ok:
  assumes "open_store sha256 exec b cfg dk = (dk', Inr st)"
  shows "dk_council dk' = dk_council dk \<and> (cf_DatabaseURL cfg = [] \<longrightarrow> st = InMem (open_mem sha256 cfg)) \<and>
    (cf_DatabaseURL cfg \<noteq> [] \<longrightarrow> st = InPG (open_pg sha256 cfg (dk_pg dk)) \<and>
       Migrate exec (be_files b) (be_faults b) (dk_schema dk) = (dk_schema dk', None))"
  using assms by (auto simp: open_store_def split: prod.splits option.splits if_splits)

lemma NewCatalog_key:
  "NewCatalog url key = Inr cat \<Longrightarrow> url \<noteq> [] \<Longrightarrow> length (Catalog.pub cat) = 32"
  by (auto simp: NewCatalog_def split: if_splits option.splits)

lemma server_council_seats:
  "take 3 (server_council parse num ks b cfg) = server_panel None \<and>
   length (server_council parse num ks b cfg) =
     (if cf_CouncilModelAPI cfg = [] \<or> cf_CouncilModelKey cfg = [] \<or> cf_CouncilModelID cfg = [] then 3 else 4)"
  by (simp add: server_council_def server_panel_def NewModelReviewer_def)

text \<open>C28: what a coordinator stands on once it serves, whatever start-ups, crashes and traffic the deployment
  has seen. Its configuration has keys, tokens and a heartbeat within bounds; with a database, every
  migration of the release has run exactly once, in the order of the names, however often earlier
  starts were cut off; its catalog, if any, has a key of 32 bytes; the three deterministic reviewers
  sit, a model only when all its three settings are there; the observatory shows the newest fifty stored
  decisions and reviews if the ledger's own pool opened and answered, each kind if its read succeeded, and
  starts empty otherwise (loading is best effort); and a configured KMS key is never replaced by the local one, nor accounts opened without a
  database.\<close>

theorem serving_stands:
  assumes "distinct fs" "deployed sha256 parse num ks e exec fs s0 dk" "be_files b = fs"
    and "coordinator_main sha256 parse num ks e exec b dk = (dk', Inr s)"
  shows "(let cfg = srv_cfg s in
    cf_ConsumerAPIKeys cfg \<noteq> {} \<and> cf_ProviderRegistrationTokens cfg \<noteq> {} \<and> 5 \<le> cf_HeartbeatSeconds cfg \<and> cf_HeartbeatSeconds cfg \<le> 120 \<and>
    (cf_DatabaseURL cfg \<noteq> [] \<longrightarrow> applied (dk_schema dk') = map mig_version (migration_names fs) \<and>
       run_files exec (migration_names fs) s0 = Some (schema (dk_schema dk')) \<and> srv_store s = InPG (open_pg sha256 cfg (dk_pg dk))) \<and>
    (cf_DatabaseURL cfg = [] \<longrightarrow> srv_store s = InMem (open_mem sha256 cfg) \<and> srv_auth s = None \<and> srv_councilDB s = None) \<and>
    (cf_ManifestURL cfg \<noteq> [] \<longrightarrow> length (Catalog.pub (srv_cat s)) = 32) \<and>
    take 3 (srv_council s) = server_panel None \<and>
    length (srv_council s) = (if cf_CouncilModelAPI cfg = [] \<or> cf_CouncilModelKey cfg = [] \<or> cf_CouncilModelID cfg = [] then 3 else 4) \<and>
    srv_councilDB s = (if cf_DatabaseURL cfg = [] \<or> \<not> fst (be_council b) \<or> \<not> snd (be_council b) then None else Some (dk_council dk)) \<and>
    ob_recent (srv_ledger s) = (if srv_councilDB s \<noteq> None \<and> fst (be_load b) then LoadDecisions maxRecent (cd_decisions (dk_council dk)) else []) \<and>
    ob_reviews (srv_ledger s) = (if srv_councilDB s \<noteq> None \<and> snd (be_load b) then LoadRunReviews maxRecent (cd_reviews (dk_council dk)) else []) \<and>
    (cf_ManifestKMSKey cfg \<noteq> [] \<longrightarrow> (\<forall>l. srv_signer s \<noteq> Some (LocalS l))))"
proof -
  obtain cfg st cat where m: "Load (be_parseF b) (be_getenv b) = Inr cfg" "open_store sha256 exec b cfg dk = (dk', Inr st)"
    "NewCatalog (cf_ManifestURL cfg) (cf_RegistryPubKey cfg) = Inr cat"
    "s = NewServer parse num ks e b cfg st cat (dk_council dk')"
    by (rule main_serving [OF assms(4)])
  have sv: "srv_cfg s = cfg" "srv_store s = st" "srv_cat s = cat" "srv_auth s = server_auth b cfg" "srv_signer s = server_signer e cfg"
    "srv_council s = server_council parse num ks b cfg"
    "srv_councilDB s = newCouncilStore (cf_DatabaseURL cfg) (fst (be_council b)) (snd (be_council b)) (dk_council dk')"
    "srv_ledger s = Hydrate (srv_councilDB s) (fst (be_load b)) (snd (be_load b)) new_observatory"
    by (simp_all add: m(4) NewServer_def Let_def)
  note db = open_store_ok [OF m(2)]
  have mig: "applied (dk_schema dk') = map mig_version (migration_names fs) \<and>
      run_files exec (migration_names fs) s0 = Some (schema (dk_schema dk'))" if "cf_DatabaseURL cfg \<noteq> []"
  proof -
    have "Migrate exec fs (be_faults b) (dk_schema dk) = (dk_schema dk', None)" using db that assms(3) by simp
    then show ?thesis by (rule migrate_success [OF assms(1) deployed_prefix [OF assms(1,2)]])
  qed
  have auth: "cf_DatabaseURL cfg = [] \<Longrightarrow> srv_auth s = None \<and> srv_councilDB s = None"
    by (simp add: sv server_auth_def New_auth_def newCouncilStore_def)
  have cdb: "srv_councilDB s = (if cf_DatabaseURL cfg = [] \<or> \<not> fst (be_council b) \<or> \<not> snd (be_council b) then None else Some (dk_council dk))"
    using db by (simp add: sv newCouncilStore_def)
  have ledger: "ob_recent (srv_ledger s) = (if srv_councilDB s \<noteq> None \<and> fst (be_load b) then LoadDecisions maxRecent (cd_decisions (dk_council dk)) else [])"
    "ob_reviews (srv_ledger s) = (if srv_councilDB s \<noteq> None \<and> snd (be_load b) then LoadRunReviews maxRecent (cd_reviews (dk_council dk)) else [])"
    unfolding sv(8) using cdb by (auto simp: Hydrate_def Hydrate_decisions_def new_observatory_def)
  have kms: "srv_signer s \<noteq> Some (LocalS l)" if "cf_ManifestKMSKey cfg \<noteq> []" for l
    using that by (auto simp: sv server_signer_def split: sum.splits)
  show ?thesis
    unfolding Let_def sv(1)
    by (intro conjI) (use Load_ok [OF m(1)] mig auth ledger cdb kms db NewCatalog_key [OF m(3)]
        server_council_seats [of parse num ks b cfg] in \<open>simp_all add: sv(2,3,6)\<close>)
qed

subsection \<open>Examples\<close>

definition sample_getenv :: "string \<Rightarrow> string" where
  "sample_getenv k = (if k = ''SC_DATABASE_URL'' then ''postgres:'' else [])"

definition sample_cfg :: Config where "sample_cfg = read_env (\<lambda>_. None) sample_getenv"

lemma sample_cfg_fields:
  "cf_ConsumerAPIKeys sample_cfg = {''dev-consumer-key''}" "cf_ProviderRegistrationTokens sample_cfg = {''dev-provider-token''}"
  "cf_HeartbeatSeconds sample_cfg = 15" "cf_DatabaseURL sample_cfg = ''postgres:''" "cf_ManifestURL sample_cfg = []"
  "cf_ManifestKMSKey sample_cfg = []"
  by (simp_all add: sample_cfg_def read_env_def getenv_def getenvInt_def Let_def default_keys sample_getenv_def)

lemma sample_loads: "Load (\<lambda>_. None) sample_getenv = Inr sample_cfg"
  using sample_cfg_fields by (simp add: Load_def Let_def sample_cfg_def)

definition sample_boot :: "faults \<Rightarrow> boot_env" where
  "sample_boot ft = \<lparr>be_getenv = sample_getenv, be_parseF = (\<lambda>_. None), be_pg = True,
     be_files = [''0002_b.sql'', ''migrations.go'', ''0001_a.sql''], be_faults = ft, be_auth = True, be_council = (True, True),
     be_load = (True, True), be_model = (\<lambda>_. None)\<rparr>"

definition sample_disk :: "string list disk" where
  "sample_disk = \<lparr>dk_schema = \<lparr>applied = [], schema = []\<rparr>, dk_pg = NewPG (\<lambda>x. x) [] [], dk_council = \<lparr>cd_decisions = [], cd_reviews = []\<rparr>\<rparr>"

definition sample_signing :: "string sign_env" where
  "sample_signing = \<lparr>sg_seed = (\<lambda>s. s), sg_public = (\<lambda>k. k), sg_sign = (\<lambda>_ _. replicate 64 (CHR ''s'')),
     sg_verify = (\<lambda>_ _ sig. sig = replicate 64 (CHR ''s'')),
     sg_kms = \<lparr>km_client = False, km_get = (\<lambda>_. None), km_pem = (\<lambda>_. None), km_pkix = (\<lambda>_. None), km_sign = (\<lambda>_ _. None)\<rparr>\<rparr>"

abbreviation sample_main :: "faults \<Rightarrow> string list disk \<Rightarrow> string list disk \<times> (start_error + string Server)" where
  "sample_main ft dk \<equiv> coordinator_main (\<lambda>x. x) (\<lambda>_. None) (\<lambda>_. []) [] sample_signing (\<lambda>n s. Some (n # s)) (sample_boot ft) dk"

text \<open>A first start is cut off at its second file; the next one serves.\<close>

definition cut_off :: faults where
  "cut_off = no_faults\<lparr>ft_file := \<lambda>n. if n = ''0002_b.sql'' then Some BeginFailed else None\<rparr>"

lemma sample_names: "migration_names [''0002_b.sql'', ''migrations.go'', ''0001_a.sql''] = [''0001_a.sql'', ''0002_b.sql'']"
  by (simp add: migration_names_def suffix_def)

lemma sample_first: "sample_main cut_off sample_disk =
  (sample_disk\<lparr>dk_schema := \<lparr>applied = [''0001_a''], schema = [''0001_a.sql'']\<rparr>\<rparr>, Inl (MigrateE BeginFailed))"
  by (simp add: coordinator_main_def sample_boot_def sample_loads open_store_def sample_cfg_fields Migrate_def sample_names
      cut_off_def no_faults_def sample_disk_def mig_version_def mig_before_def Let_def)

lemma sample_second: "\<exists>s. sample_main no_faults (fst (sample_main cut_off sample_disk)) =
  (sample_disk\<lparr>dk_schema := \<lparr>applied = [''0001_a'', ''0002_b''], schema = [''0002_b.sql'', ''0001_a.sql'']\<rparr>\<rparr>, Inr s)"
  unfolding sample_first
  by (simp add: coordinator_main_def sample_boot_def sample_loads open_store_def sample_cfg_fields Migrate_def sample_names
      no_faults_def sample_disk_def mig_version_def mig_before_def Let_def NewCatalog_def)

lemma serving_stands_witness:
  "\<exists>dk s. sample_main no_faults (fst (sample_main cut_off sample_disk)) = (dk, Inr s) \<and>
     take 3 (srv_council s) = server_panel None \<and> length (srv_council s) \<in> {3, 4}"
proof -
  have d: "distinct [''0002_b.sql'', ''migrations.go'', ''0001_a.sql'']" by simp
  have fresh: "deployed (\<lambda>x. x) (\<lambda>_. None) (\<lambda>_. []) [] sample_signing (\<lambda>n s. Some (n # s))
      [''0002_b.sql'', ''migrations.go'', ''0001_a.sql''] [] (fst (sample_main cut_off sample_disk))"
    by (rule Boot) (simp_all add: sample_disk_def Fresh sample_boot_def)
  have fs: "be_files (sample_boot no_faults) = [''0002_b.sql'', ''migrations.go'', ''0001_a.sql'']"
    by (simp add: sample_boot_def)
  obtain dk s where second: "sample_main no_faults (fst (sample_main cut_off sample_disk)) = (dk, Inr s)"
    using sample_second by blast
  from serving_stands [OF d fresh fs second] second show ?thesis by (auto simp: Let_def)
qed

lemma published_key_verifies_witness:
  "\<exists>v s sm. server_signer sample_signing (sample_cfg\<lparr>cf_ManifestSigningKey := b64_encode (replicate 32 (CHR ''k''))\<rparr>) = Some s \<and>
     handleManifestKey (Some s) = Reply 200 v \<and> Signer_Sign sample_signing [] s sample_manifest = Inr sm \<and> SignerID sm = mk_signer_id v"
proof -
  let ?cfg = "sample_cfg\<lparr>cf_ManifestSigningKey := b64_encode (replicate 32 (CHR ''k''))\<rparr>"
  have ne: "b64_encode (replicate 32 (CHR ''k'')) \<noteq> []"
    using b64_roundtrip [of "replicate 32 (CHR ''k'')"] by (auto simp: b64_decode_def)
  obtain s where s: "server_signer sample_signing ?cfg = Some (LocalS s)"
    by (simp add: server_signer_def sample_cfg_fields NewSigner_def ne b64_roundtrip Let_def sample_signing_def)
  obtain sm where sm: "Signer_Sign sample_signing [] (LocalS s) sample_manifest = Inr sm"
    by (simp add: Sign_def prepare_def Let_def sample_manifest_valid)
  have v: "sg_verify sample_signing (sg_public sample_signing (sg_seed sample_signing seed)) msg
      (sg_sign sample_signing (sg_seed sample_signing seed) msg)" "length (sg_sign sample_signing key msg) = 64" for seed msg key
    by (simp_all add: sample_signing_def)
  from published_key_verifies [OF v, of ?cfg] s sm show ?thesis by fastforce
qed

end
